(* ===== verification/Prelude.thy ===== *)
theory Prelude
  imports
    Main
    "HOL-Library.Word"
    "HOL-Library.Sublist"
    "HOL-Library.Char_ord"
    "HOL-Library.List_Lexorder"
    "HOL-Library.Product_Lexorder"
begin

section \<open>Shared vocabulary of the BrowsAI development\<close>

text \<open>
  What the component theories have in common and what belongs to Rust and its standard
  library rather than to one crate: unsigned machine integers with saturating arithmetic,
  byte strings with the ASCII operations of \<open>str\<close>, the conversion of an \<open>Option\<close> into a
  \<open>Result\<close>, and the one generic argument about state machines (an invariant that every step
  keeps holds in every reachable state), stated as a locale.

  \<^item> \<open>u8\<close>, \<open>u16\<close>, \<open>u32\<close> and \<open>u64\<close> are words. The plain \<open>+\<close> and \<open>+=\<close> of the source wrap, as in
    a release build; \<open>saturating_add\<close> and \<open>saturating_sub\<close> clamp.
  \<^item> \<open>usize\<close> is \<open>nat\<close> where it is a length of something held in memory or a limit compared with
    such a length, because such lengths cannot reach the word size.
  \<^item> \<open>String\<close> and \<open>&str\<close> are \<open>string\<close>, a list of the UTF-8 bytes; \<open>len\<close> is \<open>length\<close>.
  \<^item> \<open>Uuid\<close> is a 128-bit word ordered as its big-endian bytes are. \<open>Uuid::new_v4\<close> is not part
    of the repository: every operation that draws an identifier takes it as an argument.
  \<^item> \<open>Result<T, E>\<close> is \<open>'e + 't\<close> with \<open>Inl\<close> for \<open>Err\<close>; a method on \<open>&mut self\<close> returns the new
    state beside its result.
\<close>

named_theorems word_nat \<open>comparisons of machine integers as comparisons of naturals\<close>
named_theorems keeps \<open>operations that keep a well-formedness invariant\<close>
named_theorems frame \<open>what an operation on one key leaves alone at the others\<close>
named_theorems grows \<open>operations that only append to an event log\<close>

type_synonym u8 = "8 word"
type_synonym u16 = "16 word"
type_synonym u32 = "32 word"
type_synonym u64 = "64 word"
type_synonym uuid = "128 word"
type_synonym bytes = "u8 list"

text \<open>\<open>ProfileId(Uuid)\<close> of the profiles crate keys almost every store.\<close>

type_synonym ProfileId = uuid

text \<open>The largest \<open>usize\<close>, where a limit is computed with saturating arithmetic.\<close>

definition usize_max :: nat where
  "usize_max = 2 ^ 64 - 1"

subsection \<open>Saturating arithmetic\<close>

definition saturating_add :: "'a::len word \<Rightarrow> 'a word \<Rightarrow> 'a word" where
  "saturating_add a b = (if unat a + unat b < 2 ^ LENGTH('a) then a + b else - 1)"

definition saturating_sub :: "'a::len word \<Rightarrow> 'a word \<Rightarrow> 'a word" where
  "saturating_sub a b = (if b \<le> a then a - b else 0)"

lemmas word_to_nat [word_nat] = word_less_nat_alt word_le_nat_alt

lemma unat_max_word: "unat (- 1 :: 'a::len word) = 2 ^ LENGTH('a) - 1"
  by (simp add: unat_eq_nat_uint unsigned_minus_1_eq_mask mask_eq_exp_minus_1 nat_diff_distrib nat_power_eq)

lemma unat_saturating_add:
  "unat (saturating_add a (b :: 'a::len word)) = min (unat a + unat b) (2 ^ LENGTH('a) - 1)"
proof (cases "unat a + unat b < 2 ^ LENGTH('a)")
  case True
  then show ?thesis by (simp add: saturating_add_def unat_word_ariths)
next
  case False
  then show ?thesis by (simp add: saturating_add_def unat_max_word)
qed

lemma saturating_add_ge: "a \<le> saturating_add a (b :: 'a::len word)"
proof -
  have "unat a < 2 ^ LENGTH('a)" by simp
  then have "unat a \<le> min (unat a + unat b) (2 ^ LENGTH('a) - 1)" by linarith
  then show ?thesis by (simp only: word_nat unat_saturating_add)
qed

lemma saturating_add_gt:
  assumes "a < - 1" and "0 < (b :: 'a::len word)"
  shows "a < saturating_add a b"
proof -
  have "unat a < 2 ^ LENGTH('a) - 1" and "0 < unat b"
    using assms by (auto simp: word_nat unat_max_word)
  then show ?thesis by (simp add: word_nat unat_saturating_add)
qed

lemma saturating_add_exact:
  "unat a + unat (b :: 'a::len word) < 2 ^ LENGTH('a) \<Longrightarrow>
   unat (saturating_add a b) = unat a + unat b"
  by (simp add: unat_saturating_add)

lemma max_one_pos: "0 < max t (1 :: 'a::len word)"
  by (metis max.strict_coboundedI2 word_gt_0 zero_neq_one)

lemma saturating_add_timeout_gt:
  "now < - 1 \<Longrightarrow> now < saturating_add now (max t (1 :: 'a::len word))"
  by (intro saturating_add_gt max_one_pos)

lemma unat_saturating_sub: "unat (saturating_sub a b) = unat a - unat b"
  by (auto simp: saturating_sub_def word_nat unat_sub)

lemma word_succ_le_bound:
  "a < b \<Longrightarrow> a + 1 \<le> (b :: 'a::len word)"
  by (rule inc_le)

lemma unat_add_one: "a < b \<Longrightarrow> unat (a + 1 :: 'a::len word) = unat a + 1"
proof -
  assume "a < b"
  then have "unat a < unat b" by (simp add: word_nat)
  moreover have "unat b < 2 ^ LENGTH('a)" by simp
  ultimately have "unat a + 1 < 2 ^ LENGTH('a)" by linarith
  then show ?thesis by (simp add: unat_word_ariths)
qed

subsection \<open>Results\<close>

definition ok_or :: "'e \<Rightarrow> 'a option \<Rightarrow> 'e + 'a" where
  "ok_or e x = (case x of None \<Rightarrow> Inl e | Some v \<Rightarrow> Inr v)"

lemma ok_or_simps [simp]:
  "ok_or e None = Inl e"
  "ok_or e (Some v) = Inr v"
  by (simp_all add: ok_or_def)

lemma ok_or_eq_Inr [simp]: "ok_or e x = Inr v \<longleftrightarrow> x = Some v"
  by (cases x) simp_all

lemma ok_or_eq_Inl [simp]: "ok_or e x = Inl e' \<longleftrightarrow> x = None \<and> e' = e"
  by (cases x) auto

subsection \<open>Byte strings\<close>

definition ascii_lower :: "char \<Rightarrow> char" where
  "ascii_lower c = (if CHR ''A'' \<le> c \<and> c \<le> CHR ''Z'' then char_of (of_char c + (32 :: nat)) else c)"

definition to_ascii_lowercase :: "string \<Rightarrow> string" where
  "to_ascii_lowercase s = map ascii_lower s"

fun str_contains :: "string \<Rightarrow> string \<Rightarrow> bool" where
  "str_contains [] p = (p = [])"
| "str_contains (c # cs) p = (prefix p (c # cs) \<or> str_contains cs p)"

definition contains_any :: "string list \<Rightarrow> string \<Rightarrow> bool" where
  "contains_any ps s = list_ex (str_contains s) ps"

lemma str_contains_iff_sublist: "str_contains s p \<longleftrightarrow> sublist p s"
  by (induction s) (auto simp: sublist_Cons_right)

lemma contains_any_iff: "contains_any ps s \<longleftrightarrow> (\<exists>p \<in> set ps. sublist p s)"
  by (simp add: contains_any_def list_ex_iff str_contains_iff_sublist)

lemma ascii_lower_idem [simp]: "ascii_lower (ascii_lower c) = ascii_lower c"
  by (auto simp: ascii_lower_def less_eq_char_def)

lemma length_to_ascii_lowercase [simp]: "length (to_ascii_lowercase s) = length s"
  by (simp add: to_ascii_lowercase_def)

subsection \<open>Reachable states\<close>

text \<open>
  The components with a life cycle are step relations. What their safety theorems share is
  the induction over the steps taken, done once here for any relation and any predicate the
  relation keeps; every such component interprets the locale with its own operations.
\<close>

locale kept_invariant =
  fixes step :: "'s \<Rightarrow> 's \<Rightarrow> bool"
    and inv :: "'s \<Rightarrow> bool"
  assumes step_keeps: "step s t \<Longrightarrow> inv s \<Longrightarrow> inv t"
begin

lemma reach_keeps: "step\<^sup>*\<^sup>* s t \<Longrightarrow> inv s \<Longrightarrow> inv t"
  by (induction rule: rtranclp_induct) (auto intro: step_keeps)

end

text \<open>
  A monotone measure is the same argument with a reflexive and transitive relation between
  the first and the last state of the run.
\<close>

locale monotone_steps =
  fixes step :: "'s \<Rightarrow> 's \<Rightarrow> bool"
    and below :: "'s \<Rightarrow> 's \<Rightarrow> bool"
  assumes below_refl: "below s s"
    and below_trans: "below s t \<Longrightarrow> below t u \<Longrightarrow> below s u"
    and step_below: "step s t \<Longrightarrow> below s t"
begin

lemma reach_below: "step\<^sup>*\<^sup>* s t \<Longrightarrow> below s t"
  by (induction rule: rtranclp_induct) (auto intro: below_refl below_trans step_below)

end

text \<open>
  The contract of a store of decisions: an operation touches one key only. A whole sequence of
  operations on other keys then leaves what is recorded for a key as it was.
\<close>

locale keyed_ops =
  fixes entry :: "'s \<Rightarrow> 'k \<Rightarrow> 'e"
    and op_key :: "'op \<Rightarrow> 'k"
    and apply_op :: "'op \<Rightarrow> 's \<Rightarrow> 's"
  assumes op_frame: "op_key x \<noteq> k \<Longrightarrow> entry (apply_op x s) k = entry s k"
begin

lemma ops_frame: "k \<notin> op_key ` set xs \<Longrightarrow> entry (fold apply_op xs s) k = entry s k"
  by (induction xs arbitrary: s) (auto simp: op_frame)

end

end
