(* ===== verification/BTreeMap.thy ===== *)
theory BTreeMap
  imports Prelude
begin

section \<open>Ordered maps\<close>

text \<open>
  \<open>std::collections::BTreeMap\<close> is the store of nearly every crate, and its iteration order is
  visible: which tab becomes active when the active one closes, in which order expiry events
  are emitted, how a cookie header is joined. The model is the sequence of entries in key
  order. \<open>bt_ok\<close> says that the keys ascend strictly; the operations keep it, and two maps that
  are \<open>bt_ok\<close> and answer every lookup alike are equal (\<open>bt_ext\<close>), which is what the round trips
  through a serialised form rest on.

  The laws the component theories use are the locale \<open>keyed_store\<close> (a lookup after an
  insertion or a removal), interpreted on these operations as \<open>bt\<close>, with the isolation lemma
  for whole sequences of updates proved once inside it.
\<close>

type_synonym ('k, 'v) BTreeMap = "('k \<times> 'v) list"

definition bt_ok :: "('k::linorder, 'v) BTreeMap \<Rightarrow> bool" where
  "bt_ok m = sorted_wrt (<) (map fst m)"

definition bt_get :: "('k, 'v) BTreeMap \<Rightarrow> 'k \<Rightarrow> 'v option" where
  "bt_get m k = map_of m k"

definition bt_contains_key :: "('k, 'v) BTreeMap \<Rightarrow> 'k \<Rightarrow> bool" where
  "bt_contains_key m k = (bt_get m k \<noteq> None)"

definition bt_insert :: "'k::linorder \<Rightarrow> 'v \<Rightarrow> ('k, 'v) BTreeMap \<Rightarrow> ('k, 'v) BTreeMap" where
  "bt_insert k v m = [e \<leftarrow> m. fst e < k] @ (k, v) # [e \<leftarrow> m. k < fst e]"

definition bt_remove :: "'k \<Rightarrow> ('k, 'v) BTreeMap \<Rightarrow> ('k, 'v) BTreeMap" where
  "bt_remove k m = [e \<leftarrow> m. fst e \<noteq> k]"

definition bt_retain :: "('k \<Rightarrow> 'v \<Rightarrow> bool) \<Rightarrow> ('k, 'v) BTreeMap \<Rightarrow> ('k, 'v) BTreeMap" where
  "bt_retain P m = [e \<leftarrow> m. P (fst e) (snd e)]"

text \<open>\<open>get_mut\<close> followed by an assignment through the reference.\<close>

definition bt_adjust :: "'k \<Rightarrow> ('v \<Rightarrow> 'v) \<Rightarrow> ('k, 'v) BTreeMap \<Rightarrow> ('k, 'v) BTreeMap" where
  "bt_adjust k f m = map (\<lambda>e. if fst e = k then (k, f (snd e)) else e) m"

text \<open>\<open>values_mut\<close>: the body of a loop over all values.\<close>

definition bt_map_values :: "('v \<Rightarrow> 'w) \<Rightarrow> ('k, 'v) BTreeMap \<Rightarrow> ('k, 'w) BTreeMap" where
  "bt_map_values f m = map (\<lambda>e. (fst e, f (snd e))) m"

text \<open>\<open>entry(k).or_insert(d)\<close>: the map afterwards has \<open>k\<close>.\<close>

definition bt_or_insert :: "'k::linorder \<Rightarrow> 'v \<Rightarrow> ('k, 'v) BTreeMap \<Rightarrow> ('k, 'v) BTreeMap" where
  "bt_or_insert k d m = (if bt_contains_key m k then m else bt_insert k d m)"

abbreviation bt_keys :: "('k, 'v) BTreeMap \<Rightarrow> 'k list" where
  "bt_keys m \<equiv> map fst m"

abbreviation bt_values :: "('k, 'v) BTreeMap \<Rightarrow> 'v list" where
  "bt_values m \<equiv> map snd m"

definition bt_first_key :: "('k, 'v) BTreeMap \<Rightarrow> 'k option" where
  "bt_first_key m = (case m of [] \<Rightarrow> None | e # _ \<Rightarrow> Some (fst e))"

text \<open>\<open>collect\<close> into a map: later entries replace earlier ones with the same key.\<close>

definition bt_collect :: "('k::linorder \<times> 'v) list \<Rightarrow> ('k, 'v) BTreeMap" where
  "bt_collect es = fold (\<lambda>e m. bt_insert (fst e) (snd e) m) es []"

subsection \<open>Lookups\<close>

lemma bt_get_empty [simp]: "bt_get [] k = None"
  by (simp add: bt_get_def)

lemma bt_get_Cons [simp]: "bt_get ((a, b) # m) k = (if a = k then Some b else bt_get m k)"
  by (simp add: bt_get_def)

lemma bt_get_append: "bt_get (m @ n) k = (case bt_get m k of None \<Rightarrow> bt_get n k | Some v \<Rightarrow> Some v)"
  by (induction m) (auto simp: bt_get_def)

lemma bt_get_filter_key: "bt_get [e \<leftarrow> m. P (fst e)] k = (if P k then bt_get m k else None)"
  by (induction m) auto

lemma bt_get_insert [simp]: "bt_get (bt_insert k v m) j = (if j = k then Some v else bt_get m j)"
  by (auto simp: bt_insert_def bt_get_append bt_get_filter_key [of "\<lambda>a. a < k"]
      bt_get_filter_key [of "\<lambda>a. k < a"] split: option.split)

lemma bt_get_remove [simp]: "bt_get (bt_remove k m) j = (if j = k then None else bt_get m j)"
  by (auto simp: bt_remove_def bt_get_filter_key [of "\<lambda>a. a \<noteq> k"])

lemma bt_get_adjust [simp]:
  "bt_get (bt_adjust k f m) j = (if j = k then map_option f (bt_get m j) else bt_get m j)"
  by (induction m) (auto simp: bt_adjust_def)

lemma bt_get_map_values [simp]: "bt_get (bt_map_values f m) j = map_option f (bt_get m j)"
  by (induction m) (auto simp: bt_map_values_def)

lemma bt_get_or_insert [simp]:
  "bt_get (bt_or_insert k d m) j =
     (if j = k then (case bt_get m k of None \<Rightarrow> Some d | Some v \<Rightarrow> Some v) else bt_get m j)"
  by (auto simp: bt_or_insert_def bt_contains_key_def split: option.split)

lemma bt_get_Some_in: "bt_get m k = Some v \<Longrightarrow> (k, v) \<in> set m"
  by (simp add: bt_get_def map_of_SomeD)

lemma bt_get_None_iff: "bt_get m k = None \<longleftrightarrow> k \<notin> set (bt_keys m)"
  by (simp add: bt_get_def map_of_eq_None_iff)

lemma bt_contains_key_iff: "bt_contains_key m k \<longleftrightarrow> k \<in> set (bt_keys m)"
  by (simp add: bt_contains_key_def bt_get_None_iff)

subsection \<open>Key order\<close>

lemma bt_ok_empty [simp, keeps]: "bt_ok []"
  by (simp add: bt_ok_def)

lemma bt_ok_Cons: "bt_ok (e # m) \<longleftrightarrow> (\<forall>k \<in> set (bt_keys m). fst e < k) \<and> bt_ok m"
  by (auto simp: bt_ok_def)

lemma bt_ok_filter: "bt_ok m \<Longrightarrow> bt_ok (filter P m)"
  by (induction m) (auto simp: bt_ok_Cons)

lemma bt_ok_insert [simp, keeps]: "bt_ok m \<Longrightarrow> bt_ok (bt_insert k v m)"
  by (auto simp: bt_insert_def bt_ok_def sorted_wrt_append sorted_wrt_map
      intro: sorted_wrt_filter)

lemma bt_ok_remove [simp, keeps]: "bt_ok m \<Longrightarrow> bt_ok (bt_remove k m)"
  by (simp add: bt_remove_def bt_ok_filter)

lemma bt_ok_retain [simp, keeps]: "bt_ok m \<Longrightarrow> bt_ok (bt_retain P m)"
  by (simp add: bt_retain_def bt_ok_filter)

lemma bt_keys_adjust [simp]: "bt_keys (bt_adjust k f m) = bt_keys m"
  by (simp add: bt_adjust_def)

lemma bt_keys_map_values [simp]: "bt_keys (bt_map_values f m) = bt_keys m"
  by (simp add: bt_map_values_def)

lemma bt_ok_adjust [simp, keeps]: "bt_ok (bt_adjust k f m) = bt_ok m"
  unfolding bt_ok_def by simp

lemma bt_ok_map_values [simp, keeps]: "bt_ok (bt_map_values f m) = bt_ok m"
  unfolding bt_ok_def by simp

lemma bt_ok_or_insert [simp, keeps]: "bt_ok m \<Longrightarrow> bt_ok (bt_or_insert k d m)"
  by (simp add: bt_or_insert_def)

lemma bt_ok_distinct: "bt_ok m \<Longrightarrow> distinct (bt_keys m)"
  by (simp add: bt_ok_def strict_sorted_iff)

lemma bt_in_get: "bt_ok m \<Longrightarrow> (k, v) \<in> set m \<Longrightarrow> bt_get m k = Some v"
  by (simp add: bt_get_def bt_ok_distinct)

lemma bt_get_iff_in: "bt_ok m \<Longrightarrow> bt_get m k = Some v \<longleftrightarrow> (k, v) \<in> set m"
  by (blast intro: bt_in_get bt_get_Some_in)

lemma bt_get_retain:
  "bt_ok m \<Longrightarrow>
   bt_get (bt_retain P m) k =
     (case bt_get m k of None \<Rightarrow> None | Some v \<Rightarrow> if P k v then Some v else None)"
proof (cases "bt_get m k")
  case None
  then have "bt_get (bt_retain P m) k = None" by (auto simp: bt_retain_def bt_get_None_iff)
  with None show ?thesis by simp
next
  case (Some v)
  assume ok: "bt_ok m"
  then have uniq: "(k, w) \<in> set m \<longleftrightarrow> w = v" for w
    using Some by (metis bt_get_iff_in option.inject)
  then have "bt_get (bt_retain P m) k = (if P k v then Some v else None)"
    using ok by (auto simp: bt_retain_def bt_get_None_iff intro: bt_in_get bt_ok_filter)
  then show ?thesis using Some by simp
qed

lemma bt_ex_value: "bt_ok m \<Longrightarrow> (\<exists>v \<in> set (bt_values m). P v) \<longleftrightarrow> (\<exists>k v. bt_get m k = Some v \<and> P v)"
  by (force simp: bt_get_iff_in)

lemma bt_ext: "bt_ok m \<Longrightarrow> bt_ok n \<Longrightarrow> (\<And>k. bt_get m k = bt_get n k) \<Longrightarrow> m = n"
proof -
  assume m: "bt_ok m" and n: "bt_ok n" and eq: "\<And>k. bt_get m k = bt_get n k"
  have "set m = set n" using eq by (auto simp flip: bt_get_iff_in [OF m] bt_get_iff_in [OF n])
  with m n show ?thesis
    by (intro map_sorted_distinct_set_unique [where f = fst])
       (auto simp: bt_ok_def strict_sorted_iff distinct_map intro: inj_onI dest: bt_in_get [OF m] bt_in_get [OF n])
qed

subsection \<open>Collecting\<close>

lemma fold_bt_insert_ok:
  "bt_ok m \<Longrightarrow> bt_ok (fold (\<lambda>e m. bt_insert (fst e) (snd e) m) es m)"
  by (induction es arbitrary: m) simp_all

lemma bt_ok_collect [simp, keeps]: "bt_ok (bt_collect es)"
  by (simp add: bt_collect_def fold_bt_insert_ok)

lemma bt_get_fold_insert:
  "bt_get (fold (\<lambda>e m. bt_insert (fst e) (snd e) m) es m) k =
     (case bt_get (rev es) k of None \<Rightarrow> bt_get m k | Some v \<Rightarrow> Some v)"
  by (induction es arbitrary: m) (auto simp: bt_get_append split: option.split)

lemma bt_get_collect: "bt_get (bt_collect es) k = bt_get (rev es) k"
  by (simp add: bt_collect_def bt_get_fold_insert split: option.split)

lemma bt_get_rev: "distinct (map fst es) \<Longrightarrow> bt_get (rev es) k = bt_get es k"
proof (induction es)
  case (Cons e es)
  then have "bt_get (rev es) k = bt_get es k" and "k = fst e \<Longrightarrow> bt_get es k = None"
    by (auto simp: bt_get_None_iff)
  then show ?case by (cases e) (auto simp: bt_get_append split: option.split)
qed simp

lemma bt_collect_id: "bt_ok m \<Longrightarrow> bt_collect m = m"
  by (rule bt_ext) (auto simp: bt_get_collect bt_get_rev bt_ok_distinct)

lemma bt_get_fold_remove: "bt_get (fold bt_remove ks m) k = (if k \<in> set ks then None else bt_get m k)"
  by (induction ks arbitrary: m) auto

lemma bt_ok_fold_remove: "bt_ok m \<Longrightarrow> bt_ok (fold bt_remove ks m)"
  by (induction ks arbitrary: m) auto

subsection \<open>The interface\<close>

locale keyed_store =
  fixes get :: "'m \<Rightarrow> 'k \<Rightarrow> 'v option"
    and put :: "'k \<Rightarrow> 'v \<Rightarrow> 'm \<Rightarrow> 'm"
  assumes get_put: "get (put k v m) j = (if j = k then Some v else get m j)"
begin

definition put_all :: "('k \<times> 'v) list \<Rightarrow> 'm \<Rightarrow> 'm" where
  "put_all es m = fold (\<lambda>e. put (fst e) (snd e)) es m"

lemma get_put_all_other: "j \<notin> fst ` set es \<Longrightarrow> get (put_all es m) j = get m j"
  by (induction es arbitrary: m) (auto simp: put_all_def get_put)

lemma get_put_all_last: "get (put_all (es @ [(j, v)]) m) j = Some v"
  by (simp add: put_all_def get_put)

end

interpretation bt: keyed_store bt_get "bt_insert :: 'k::linorder \<Rightarrow> 'v \<Rightarrow> ('k, 'v) BTreeMap \<Rightarrow> _"
  by unfold_locales simp

end
