(* ===== verification/Web.thy ===== *)
theory Web
  imports BTreeMap
begin

section \<open>Values of the third-party crates the sources pass around\<close>

text \<open>
  \<open>url::Url\<close> and \<open>serde_json::Value\<close> come from crates outside the repository. A parsed URL is
  the record of what its accessors return; the parser itself is never defined here, every
  operation that parses takes it as an argument. Two URLs are equal in Rust when their
  serialisations are, which is \<open>url_eq\<close>.

  \<open>Url::origin\<close> of a URL without a tuple origin (\<open>data:\<close>, \<open>about:\<close>) returns a new opaque origin at
  every call, equal to no other one: \<open>origin_eq\<close> is false on \<open>Opaque\<close>, while the accessor
  \<open>url_origin_ascii\<close> holds the text of \<open>origin().ascii_serialization()\<close>.

  A JSON value keeps the entries of an object in the order of its map.
\<close>

datatype Origin = Opaque | TupleOrigin string string u16

record Url =
  url_as_str :: string
  url_scheme :: string
  url_username :: string
  url_password :: "string option"
  url_host_str :: "string option"
  url_port_or_known_default :: "u16 option"
  url_path :: string
  url_query :: "string option"
  url_fragment :: "string option"
  url_origin :: Origin
  url_origin_ascii :: string

definition url_eq :: "Url \<Rightarrow> Url \<Rightarrow> bool" where
  "url_eq u v = (url_as_str u = url_as_str v)"

fun origin_eq :: "Origin \<Rightarrow> Origin \<Rightarrow> bool" where
  "origin_eq (TupleOrigin s h p) (TupleOrigin s' h' p') = (s = s' \<and> h = h' \<and> p = p')"
| "origin_eq _ _ = False"

lemma origin_eq_iff: "origin_eq a b \<longleftrightarrow> a = b \<and> a \<noteq> Opaque"
  by (cases "(a, b)" rule: origin_eq.cases) auto

datatype Json =
    JNull
  | JBool bool
  | JNumber string
  | JString string
  | JArray "Json list"
  | JObject "(string \<times> Json) list"

text \<open>\<open>json_key v k\<close>: some object inside \<open>v\<close>, at any depth, has the key \<open>k\<close>.\<close>

inductive json_key :: "Json \<Rightarrow> string \<Rightarrow> bool" where
  here: "(k, v) \<in> set fs \<Longrightarrow> json_key (JObject fs) k"
| field: "(j, v) \<in> set fs \<Longrightarrow> json_key v k \<Longrightarrow> json_key (JObject fs) k"
| item: "v \<in> set vs \<Longrightarrow> json_key v k \<Longrightarrow> json_key (JArray vs) k"

inductive_simps json_key_simps:
  "json_key JNull k"
  "json_key (JBool b) k"
  "json_key (JNumber n) k"
  "json_key (JString s) k"
  "json_key (JArray vs) k"
  "json_key (JObject fs) k"

text \<open>\<open>json_entry v k w\<close>: some object inside \<open>v\<close> maps \<open>k\<close> to \<open>w\<close>.\<close>

inductive json_entry :: "Json \<Rightarrow> string \<Rightarrow> Json \<Rightarrow> bool" where
  here: "(k, w) \<in> set fs \<Longrightarrow> json_entry (JObject fs) k w"
| field: "(j, v) \<in> set fs \<Longrightarrow> json_entry v k w \<Longrightarrow> json_entry (JObject fs) k w"
| item: "v \<in> set vs \<Longrightarrow> json_entry v k w \<Longrightarrow> json_entry (JArray vs) k w"

inductive_simps json_entry_simps:
  "json_entry JNull k w"
  "json_entry (JBool b) k w"
  "json_entry (JNumber n) k w"
  "json_entry (JString s) k w"
  "json_entry (JArray vs) k w"
  "json_entry (JObject fs) k w"

end
