(* ===== verification/Ipc.thy ===== *)
theory Ipc
  imports Web
begin

section \<open>Inter-process messages (crates/ipc)\<close>

text \<open>
  The router decides which messages may pass between process kinds, the channel is a bounded
  queue that stamps sequence numbers. \<open>IpcRouter_validate\<close> keeps the order of the checks:
  envelope version, handshake version, route, raw secret fields. A request or response body is
  refused when any object in it, at any depth, has a key that looks like a secret.
\<close>

datatype ProcessKind =
    Host
  | BrowserBroker
  | CredentialBroker
  | ProfileManager
  | PermissionManager
  | Network
  | FileBroker
  | DownloadBroker
  | AuditProcess
  | WorkspaceManager
  | Renderer
  | Worker
  | AgentRuntimeProcess
  | Compositor

text \<open>The derived \<open>Ord\<close> is the order of declaration.\<close>

primrec process_rank :: "ProcessKind \<Rightarrow> nat" where
  "process_rank Host = 0"
| "process_rank BrowserBroker = 1"
| "process_rank CredentialBroker = 2"
| "process_rank ProfileManager = 3"
| "process_rank PermissionManager = 4"
| "process_rank Network = 5"
| "process_rank FileBroker = 6"
| "process_rank DownloadBroker = 7"
| "process_rank AuditProcess = 8"
| "process_rank WorkspaceManager = 9"
| "process_rank Renderer = 10"
| "process_rank Worker = 11"
| "process_rank AgentRuntimeProcess = 12"
| "process_rank Compositor = 13"

lemma process_rank_inj: "process_rank a = process_rank b \<Longrightarrow> a = b"
  by (cases a; cases b; simp)

instantiation ProcessKind :: linorder
begin

definition less_eq_ProcessKind :: "ProcessKind \<Rightarrow> ProcessKind \<Rightarrow> bool" where
  "less_eq_ProcessKind a b = (process_rank a \<le> process_rank b)"

definition less_ProcessKind :: "ProcessKind \<Rightarrow> ProcessKind \<Rightarrow> bool" where
  "less_ProcessKind a b = (process_rank a < process_rank b)"

instance
  by standard (auto simp: less_eq_ProcessKind_def less_ProcessKind_def intro: process_rank_inj)

end

datatype IpcMessage =
    Handshake u16
  | Request string Json
  | Response bool Json
  | Cancel uuid
  | CrashNotice ProcessKind

record IpcEnvelope =
  env_protocol_version :: u16
  env_sequence :: u64
  env_request_id :: uuid
  env_source :: ProcessKind
  env_destination :: ProcessKind
  env_workspace :: string
  env_profile :: string
  env_origin :: "string option"
  env_capability :: "string option"
  env_payload :: IpcMessage

datatype IpcError = Unauthorized | VersionMismatch | Backpressure | OutOfOrder | RawSecretPayload

subsection \<open>The router\<close>

record IpcRouter =
  router_version :: u16
  router_allowed :: "(ProcessKind \<times> ProcessKind) set"

definition IpcRouter_new :: "u16 \<Rightarrow> IpcRouter" where
  "IpcRouter_new v = \<lparr>router_version = v, router_allowed = {}\<rparr>"

definition IpcRouter_allow :: "ProcessKind \<Rightarrow> ProcessKind \<Rightarrow> IpcRouter \<Rightarrow> IpcRouter" where
  "IpcRouter_allow s d r = r\<lparr>router_allowed := insert (s, d) (router_allowed r)\<rparr>"

definition ipc_sensitive_words :: "string list" where
  "ipc_sensitive_words =
     [''password'', ''secret'', ''token'', ''seed'', ''privatekey'', ''cardnumber'', ''cvv'']"

definition ipc_normalize_key :: "string \<Rightarrow> string" where
  "ipc_normalize_key k = [c \<leftarrow> to_ascii_lowercase k. c \<notin> set ''_-.'']"

definition ipc_sensitive_key :: "string \<Rightarrow> bool" where
  "ipc_sensitive_key k = contains_any ipc_sensitive_words (ipc_normalize_key k)"

fun contains_raw_secret_field :: "Json \<Rightarrow> bool" where
  "contains_raw_secret_field (JObject fs) =
     list_ex (\<lambda>f. ipc_sensitive_key (fst f) \<or> contains_raw_secret_field (snd f)) fs"
| "contains_raw_secret_field (JArray vs) = list_ex contains_raw_secret_field vs"
| "contains_raw_secret_field _ = False"

fun payload_has_raw_secret :: "IpcMessage \<Rightarrow> bool" where
  "payload_has_raw_secret (Request m body) = contains_raw_secret_field body"
| "payload_has_raw_secret (Response ok body) = contains_raw_secret_field body"
| "payload_has_raw_secret _ = False"

definition IpcRouter_validate :: "IpcRouter \<Rightarrow> IpcEnvelope \<Rightarrow> IpcError + unit" where
  "IpcRouter_validate r msg =
     (if env_protocol_version msg \<noteq> router_version r then Inl VersionMismatch
      else if (case env_payload msg of Handshake v \<Rightarrow> v \<noteq> router_version r | _ \<Rightarrow> False)
        then Inl VersionMismatch
      else if (env_source msg, env_destination msg) \<notin> router_allowed r then Inl Unauthorized
      else if payload_has_raw_secret (env_payload msg) then Inl RawSecretPayload
      else Inr ())"

subsection \<open>The channel\<close>

record IpcChannel =
  chan_capacity :: nat
  chan_next_sequence :: u64
  chan_queue :: "IpcEnvelope list"

definition IpcChannel_bounded :: "nat \<Rightarrow> IpcChannel" where
  "IpcChannel_bounded n = \<lparr>chan_capacity = max n 1, chan_next_sequence = 0, chan_queue = []\<rparr>"

definition IpcChannel_send :: "IpcEnvelope \<Rightarrow> IpcChannel \<Rightarrow> (IpcError + unit) \<times> IpcChannel" where
  "IpcChannel_send msg c =
     (if length (chan_queue c) \<ge> chan_capacity c then (Inl Backpressure, c)
      else (Inr (), c\<lparr>chan_next_sequence := chan_next_sequence c + 1,
                      chan_queue := chan_queue c @ [msg\<lparr>env_sequence := chan_next_sequence c\<rparr>]\<rparr>))"

definition IpcChannel_receive :: "IpcChannel \<Rightarrow> IpcEnvelope option \<times> IpcChannel" where
  "IpcChannel_receive c =
     (case chan_queue c of [] \<Rightarrow> (None, c) | m # ms \<Rightarrow> (Some m, c\<lparr>chan_queue := ms\<rparr>))"

definition IpcChannel_cancel :: "uuid \<Rightarrow> IpcChannel \<Rightarrow> nat \<times> IpcChannel" where
  "IpcChannel_cancel rid c =
     (let kept = [m \<leftarrow> chan_queue c. env_request_id m \<noteq> rid]
      in (length (chan_queue c) - length kept, c\<lparr>chan_queue := kept\<rparr>))"

definition IpcChannel_reconnect :: "IpcChannel \<Rightarrow> IpcChannel" where
  "IpcChannel_reconnect c = c\<lparr>chan_queue := [], chan_next_sequence := 0\<rparr>"

subsection \<open>What a validated message carries\<close>

lemma contains_raw_secret_field_iff:
  "contains_raw_secret_field v \<longleftrightarrow> (\<exists>k. json_key v k \<and> ipc_sensitive_key k)"
proof (induction v)
  case (JObject fs)
  have IH: "contains_raw_secret_field w \<longleftrightarrow> (\<exists>k. json_key w k \<and> ipc_sensitive_key k)"
    if "(j, w) \<in> set fs" for j w
    using JObject.IH [OF that, of w] by simp
  have "contains_raw_secret_field (JObject fs) \<longleftrightarrow>
      (\<exists>(j, w) \<in> set fs. ipc_sensitive_key j \<or> contains_raw_secret_field w)"
    by (simp add: list_ex_iff case_prod_unfold)
  also have "\<dots> \<longleftrightarrow> (\<exists>k. json_key (JObject fs) k \<and> ipc_sensitive_key k)"
    using IH by (simp only: json_key_simps) blast
  finally show ?case .
next
  case (JArray vs)
  then show ?case by (simp add: list_ex_iff json_key_simps) blast
qed (auto simp: json_key_simps)

fun payload_body :: "IpcMessage \<Rightarrow> Json option" where
  "payload_body (Request m body) = Some body"
| "payload_body (Response ok body) = Some body"
| "payload_body _ = None"

lemma payload_has_raw_secret_iff:
  "payload_has_raw_secret p \<longleftrightarrow>
     (\<exists>body k. payload_body p = Some body \<and> json_key body k \<and> ipc_sensitive_key k)"
  by (cases p) (auto simp: contains_raw_secret_field_iff)

lemma IpcRouter_validate_ok:
  "IpcRouter_validate r msg = Inr () \<longleftrightarrow>
     env_protocol_version msg = router_version r \<and>
     (\<forall>v. env_payload msg = Handshake v \<longrightarrow> v = router_version r) \<and>
     (env_source msg, env_destination msg) \<in> router_allowed r \<and>
     \<not> payload_has_raw_secret (env_payload msg)"
  by (cases "env_payload msg") (auto simp: IpcRouter_validate_def)

subsection \<open>Channel order\<close>

datatype ChannelOp = Send IpcEnvelope | Receive | CancelRequest uuid | Reconnect

fun channel_step :: "ChannelOp \<Rightarrow> IpcChannel \<Rightarrow> IpcChannel" where
  "channel_step (Send m) c = snd (IpcChannel_send m c)"
| "channel_step Receive c = snd (IpcChannel_receive c)"
| "channel_step (CancelRequest r) c = snd (IpcChannel_cancel r c)"
| "channel_step Reconnect c = IpcChannel_reconnect c"

definition channel_run :: "ChannelOp list \<Rightarrow> IpcChannel \<Rightarrow> IpcChannel" where
  "channel_run ops c = fold channel_step ops c"

text \<open>
  \<open>channel_ok n\<close>: at most \<open>n\<close> sequence numbers were drawn, the queue respects the capacity and
  holds its messages in the order of their sequence numbers, all of them already drawn.
\<close>

definition channel_ok :: "nat \<Rightarrow> IpcChannel \<Rightarrow> bool" where
  "channel_ok n c \<longleftrightarrow>
     0 < chan_capacity c \<and> length (chan_queue c) \<le> chan_capacity c \<and>
     unat (chan_next_sequence c) \<le> n \<and>
     sorted_wrt (<) (map (unat \<circ> env_sequence) (chan_queue c)) \<and>
     (\<forall>m \<in> set (chan_queue c). unat (env_sequence m) < unat (chan_next_sequence c))"

lemma channel_ok_bounded: "channel_ok 0 (IpcChannel_bounded n)"
  by (simp add: channel_ok_def IpcChannel_bounded_def)

lemma channel_ok_send:
  assumes "channel_ok n c" and "n + 1 < 2 ^ 64"
  shows "channel_ok (n + 1) (snd (IpcChannel_send m c))"
proof -
  have "unat (chan_next_sequence c + 1) = unat (chan_next_sequence c) + 1"
    using assms by (auto simp: channel_ok_def unat_word_ariths)
  then show ?thesis
    using assms by (auto simp: channel_ok_def IpcChannel_send_def sorted_wrt_append)
qed

lemma channel_ok_step:
  assumes "channel_ok n c" and "n + 1 < 2 ^ 64"
  shows "channel_ok (n + 1) (channel_step opn c)"
proof (cases opn)
  case (Send m)
  with channel_ok_send [OF assms] show ?thesis by simp
next
  case Receive
  with assms show ?thesis
    by (cases "chan_queue c") (auto simp: channel_ok_def IpcChannel_receive_def)
next
  case (CancelRequest r)
  have "sorted_wrt (<) (map (unat \<circ> env_sequence) [m \<leftarrow> chan_queue c. env_request_id m \<noteq> r])"
    using assms by (auto simp: channel_ok_def sorted_wrt_map intro: sorted_wrt_filter)
  with CancelRequest assms show ?thesis
    by (auto simp: channel_ok_def IpcChannel_cancel_def Let_def intro: le_trans [OF length_filter_le])
next
  case Reconnect
  with assms show ?thesis by (simp add: channel_ok_def IpcChannel_reconnect_def)
qed

lemma channel_ok_run:
  "channel_ok n c \<Longrightarrow> n + length ops < 2 ^ 64 \<Longrightarrow> channel_ok (n + length ops) (channel_run ops c)"
proof (induction ops arbitrary: n c)
  case Nil
  then show ?case by (simp add: channel_run_def)
next
  case (Cons opn ops)
  then have "channel_ok (n + 1) (channel_step opn c)" by (intro channel_ok_step) auto
  with Cons.IH [of "n + 1"] Cons.prems show ?case by (simp add: channel_run_def)
qed


text \<open>
  Whatever is sent, received, cancelled and reconnected, in any order, as long as fewer
  than \<open>2 ^ 64\<close> operations are made, a channel never holds more messages than its capacity (at
  least one) and holds them in strictly ascending order of their sequence numbers, so that
  \<open>receive\<close> always takes the oldest.
\<close>

theorem channel_bounded_and_ordered:
  assumes "length ops < 2 ^ 64"
  shows "length (chan_queue (channel_run ops (IpcChannel_bounded n))) \<le> max n 1
    \<and> sorted_wrt (<) (map (unat \<circ> env_sequence) (chan_queue (channel_run ops (IpcChannel_bounded n))))"
proof -
  have "chan_capacity (channel_step opn c) = chan_capacity c" for opn c
    by (cases opn) (auto simp: IpcChannel_send_def IpcChannel_receive_def IpcChannel_cancel_def
        IpcChannel_reconnect_def Let_def split: list.split)
  then have "chan_capacity (channel_run ops c) = chan_capacity c" for c
    unfolding channel_run_def by (induction ops arbitrary: c) simp_all
  moreover have "channel_ok (0 + length ops) (channel_run ops (IpcChannel_bounded n))"
    using assms by (intro channel_ok_run channel_ok_bounded) simp
  ultimately show ?thesis by (simp add: channel_ok_def IpcChannel_bounded_def)
qed

definition sample_envelope :: IpcEnvelope where
  "sample_envelope =
     \<lparr>env_protocol_version = 1, env_sequence = 9, env_request_id = 3, env_source = Host,
      env_destination = Network, env_workspace = [], env_profile = [],
      env_origin = None, env_capability = None, env_payload = Handshake 1\<rparr>"

theorem channel_bounded_and_ordered_witness:
  "chan_queue (channel_run [Send sample_envelope, Send sample_envelope, Send sample_envelope]
       (IpcChannel_bounded 2))
     = [sample_envelope\<lparr>env_sequence := 0\<rparr>, sample_envelope\<lparr>env_sequence := 1\<rparr>]
   \<and> length (chan_queue (channel_run [Send sample_envelope, Send sample_envelope, Send sample_envelope]
       (IpcChannel_bounded 2))) \<le> 2"
proof
  let ?ops = "[Send sample_envelope, Send sample_envelope, Send sample_envelope]"
  have "length ?ops < 2 ^ 64" by simp
  from channel_bounded_and_ordered [OF this, of 2]
  show "length (chan_queue (channel_run ?ops (IpcChannel_bounded 2))) \<le> 2" by simp
  show "chan_queue (channel_run ?ops (IpcChannel_bounded 2))
      = [sample_envelope\<lparr>env_sequence := 0\<rparr>, sample_envelope\<lparr>env_sequence := 1\<rparr>]"
    by (simp add: channel_run_def IpcChannel_send_def IpcChannel_bounded_def)
qed

end
