(* ===== verification/ProcessModel.thy ===== *)
theory ProcessModel
  imports Ipc
begin

section \<open>Process topology and supervision (crates/process-model)\<close>

text \<open>
  \<open>ProcessTopology\<close> fixes which process kinds exist, how they restart and which pairs may talk.
  \<open>ProcessSupervisor\<close> owns the children and the channels. The operating system enters through
  arguments: what \<open>spawn\<close>, \<open>try_wait\<close>, \<open>kill\<close> and \<open>wait\<close> returned. A child is represented by its
  process identifier.

  The safety theorem of this component is about every state the supervisor can reach: a
  queued message always travels along a declared route and never carries a raw secret field.
\<close>

datatype ProcessState = Starting | Running | Stopping | Crashed | Stopped

datatype RestartPolicy = Never | OnFailure | Always

record ProcessSpec =
  spec_kind :: ProcessKind
  spec_state :: ProcessState
  spec_restart :: RestartPolicy
  spec_isolated :: bool

record ProcessTopology =
  topo_protocol_version :: u16
  topo_processes :: "(ProcessKind, ProcessSpec) BTreeMap"
  topo_routes :: "(ProcessKind \<times> ProcessKind) set"

definition production_kinds :: "(ProcessKind \<times> RestartPolicy \<times> bool) list" where
  "production_kinds =
     [(Host, Always, False),
      (BrowserBroker, OnFailure, True),
      (CredentialBroker, OnFailure, True),
      (ProfileManager, OnFailure, True),
      (PermissionManager, OnFailure, True),
      (Network, OnFailure, True),
      (FileBroker, OnFailure, True),
      (DownloadBroker, OnFailure, True),
      (AuditProcess, OnFailure, True),
      (WorkspaceManager, OnFailure, True),
      (Renderer, OnFailure, True),
      (Worker, OnFailure, True),
      (AgentRuntimeProcess, OnFailure, True),
      (Compositor, OnFailure, True)]"

definition production_routes :: "(ProcessKind \<times> ProcessKind) list" where
  "production_routes =
     [(Host, BrowserBroker),
      (Host, CredentialBroker),
      (Host, ProfileManager),
      (Host, PermissionManager),
      (Host, Network),
      (Host, FileBroker),
      (Host, DownloadBroker),
      (Host, AuditProcess),
      (Host, WorkspaceManager),
      (Host, AgentRuntimeProcess),
      (Host, Compositor),
      (BrowserBroker, Renderer),
      (BrowserBroker, Network),
      (BrowserBroker, ProfileManager),
      (BrowserBroker, PermissionManager),
      (BrowserBroker, AuditProcess),
      (BrowserBroker, WorkspaceManager),
      (WorkspaceManager, AuditProcess),
      (WorkspaceManager, BrowserBroker),
      (AgentRuntimeProcess, WorkspaceManager),
      (Renderer, Worker),
      (Renderer, BrowserBroker),
      (AgentRuntimeProcess, BrowserBroker),
      (AgentRuntimeProcess, PermissionManager),
      (AgentRuntimeProcess, FileBroker),
      (AgentRuntimeProcess, DownloadBroker),
      (Compositor, Renderer)]"

definition ProcessTopology_production :: "u16 \<Rightarrow> ProcessTopology" where
  "ProcessTopology_production v =
     \<lparr>topo_protocol_version = v,
      topo_processes = bt_collect (map (\<lambda>(k, r, i).
        (k, \<lparr>spec_kind = k, spec_state = Starting, spec_restart = r, spec_isolated = i\<rparr>))
        production_kinds),
      topo_routes = set production_routes\<rparr>"

definition ProcessTopology_process :: "ProcessTopology \<Rightarrow> ProcessKind \<Rightarrow> ProcessSpec option" where
  "ProcessTopology_process t k = bt_get (topo_processes t) k"

definition ProcessTopology_route_allowed ::
    "ProcessTopology \<Rightarrow> ProcessKind \<Rightarrow> ProcessKind \<Rightarrow> bool" where
  "ProcessTopology_route_allowed t s d = ((s, d) \<in> topo_routes t)"

text \<open>The loop of \<open>router\<close> allows every declared route; a set has no visible order.\<close>

definition ProcessTopology_router :: "ProcessTopology \<Rightarrow> IpcRouter" where
  "ProcessTopology_router t =
     (IpcRouter_new (topo_protocol_version t))\<lparr>router_allowed := topo_routes t\<rparr>"

definition set_process_state :: "ProcessKind \<Rightarrow> ProcessState \<Rightarrow> ProcessTopology \<Rightarrow> ProcessTopology" where
  "set_process_state k st t =
     t\<lparr>topo_processes := bt_adjust k (\<lambda>p. p\<lparr>spec_state := st\<rparr>) (topo_processes t)\<rparr>"

definition ProcessTopology_mark_running :: "ProcessKind \<Rightarrow> ProcessTopology \<Rightarrow> bool \<times> ProcessTopology" where
  "ProcessTopology_mark_running k t =
     (bt_contains_key (topo_processes t) k, set_process_state k Running t)"

definition ProcessTopology_mark_crashed ::
    "ProcessKind \<Rightarrow> ProcessTopology \<Rightarrow> RestartPolicy \<times> ProcessTopology" where
  "ProcessTopology_mark_crashed k t =
     ((case ProcessTopology_process t k of None \<Rightarrow> Never | Some p \<Rightarrow> spec_restart p),
      set_process_state k Crashed t)"

definition ProcessTopology_restart_after_crash ::
    "ProcessKind \<Rightarrow> ProcessTopology \<Rightarrow> bool \<times> ProcessTopology" where
  "ProcessTopology_restart_after_crash k t =
     (case ProcessTopology_process t k of
        Some p \<Rightarrow>
          if spec_state p = Crashed \<and> spec_restart p \<noteq> Never
          then (True, set_process_state k Starting t) else (False, t)
      | None \<Rightarrow> (False, t))"

subsection \<open>The supervisor\<close>

record ProcessLaunch =
  launch_kind :: ProcessKind
  launch_program :: string
  launch_args :: "string list"

datatype ProcessSupervisorError =
    UnknownProcess ProcessKind
  | AlreadyRunning ProcessKind
  | HostLaunchDenied
  | Spawn string
  | IpcFailure IpcError
  | NoLaunchSpec ProcessKind

record ProcessHandle =
  handle_kind :: ProcessKind
  handle_pid :: u32

record ProcessSupervisor =
  sup_topology :: ProcessTopology
  sup_children :: "(ProcessKind, u32) BTreeMap"
  sup_launches :: "(ProcessKind, ProcessLaunch) BTreeMap"
  sup_channels :: "(ProcessKind \<times> ProcessKind, IpcChannel) BTreeMap"

definition ProcessSupervisor_new :: "ProcessTopology \<Rightarrow> ProcessSupervisor" where
  "ProcessSupervisor_new t =
     \<lparr>sup_topology = t, sup_children = [], sup_launches = [], sup_channels = []\<rparr>"

text \<open>\<open>spawned\<close> is the outcome of \<open>Command::spawn\<close>: an I/O error or the new process identifier.\<close>

definition ProcessSupervisor_launch ::
    "ProcessLaunch \<Rightarrow> string + u32 \<Rightarrow> ProcessSupervisor
     \<Rightarrow> (ProcessSupervisorError + ProcessHandle) \<times> ProcessSupervisor" where
  "ProcessSupervisor_launch request spawned s =
     (let k = launch_kind request in
      if k = Host then (Inl HostLaunchDenied, s)
      else (case ProcessTopology_process (sup_topology s) k of
          None \<Rightarrow> (Inl (UnknownProcess k), s)
        | Some p \<Rightarrow>
            if bt_contains_key (sup_children s) k \<or> spec_state p = Running
            then (Inl (AlreadyRunning k), s)
            else (case spawned of
                Inl e \<Rightarrow> (Inl (Spawn e), s)
              | Inr pid \<Rightarrow>
                  (Inr \<lparr>handle_kind = k, handle_pid = pid\<rparr>,
                   s\<lparr>sup_launches := bt_insert k request (sup_launches s),
                     sup_children := bt_insert k pid (sup_children s),
                     sup_topology := snd (ProcessTopology_mark_running k (sup_topology s))\<rparr>))))"

text \<open>\<open>waited\<close> is the outcome of \<open>try_wait\<close>: an I/O error, or the exit status if there is one.\<close>

definition ProcessSupervisor_poll ::
    "ProcessKind \<Rightarrow> string + int option \<Rightarrow> ProcessSupervisor
     \<Rightarrow> (ProcessSupervisorError + int option) \<times> ProcessSupervisor" where
  "ProcessSupervisor_poll k waited s =
     (case bt_get (sup_children s) k of
        None \<Rightarrow> (Inl (UnknownProcess k), s)
      | Some _ \<Rightarrow>
          (case waited of
             Inl e \<Rightarrow> (Inl (Spawn e), s)
           | Inr None \<Rightarrow> (Inr None, s)
           | Inr (Some st) \<Rightarrow>
               (Inr (Some st),
                s\<lparr>sup_children := bt_remove k (sup_children s),
                  sup_topology := snd (ProcessTopology_mark_crashed k (sup_topology s))\<rparr>)))"

text \<open>
  \<open>killed\<close> and \<open>reaped\<close> are the outcomes of \<open>kill\<close> and \<open>wait\<close>. The child is removed from the
  table before either call, and an error of one of them returns early.
\<close>

definition ProcessSupervisor_stop ::
    "ProcessKind \<Rightarrow> string + unit \<Rightarrow> string + int \<Rightarrow> ProcessSupervisor
     \<Rightarrow> (ProcessSupervisorError + unit) \<times> ProcessSupervisor" where
  "ProcessSupervisor_stop k killed reaped s =
     (case bt_get (sup_children s) k of
        None \<Rightarrow> (Inl (UnknownProcess k), s)
      | Some _ \<Rightarrow>
          (let s1 = s\<lparr>sup_children := bt_remove k (sup_children s)\<rparr> in
           case killed of
             Inl e \<Rightarrow> (Inl (Spawn e), s1)
           | Inr _ \<Rightarrow>
               (case reaped of
                  Inl e \<Rightarrow> (Inl (Spawn e), s1)
                | Inr _ \<Rightarrow>
                    (Inr (), s1\<lparr>sup_launches := bt_remove k (sup_launches s1),
                                sup_topology := set_process_state k Stopped (sup_topology s1)\<rparr>))))"

definition ProcessSupervisor_restart_after_crash ::
    "ProcessKind \<Rightarrow> string + u32 \<Rightarrow> ProcessSupervisor
     \<Rightarrow> (ProcessSupervisorError + ProcessHandle) \<times> ProcessSupervisor" where
  "ProcessSupervisor_restart_after_crash k spawned s =
     (if bt_contains_key (sup_children s) k then (Inl (AlreadyRunning k), s)
      else (case bt_get (sup_launches s) k of
          None \<Rightarrow> (Inl (NoLaunchSpec k), s)
        | Some request \<Rightarrow>
            (case ProcessTopology_restart_after_crash k (sup_topology s) of
               (False, t) \<Rightarrow> (Inl (UnknownProcess k), s\<lparr>sup_topology := t\<rparr>)
             | (True, t) \<Rightarrow> ProcessSupervisor_launch request spawned (s\<lparr>sup_topology := t\<rparr>))))"

definition ProcessSupervisor_route ::
    "IpcEnvelope \<Rightarrow> ProcessSupervisor \<Rightarrow> (ProcessSupervisorError + unit) \<times> ProcessSupervisor" where
  "ProcessSupervisor_route msg s =
     (case IpcRouter_validate (ProcessTopology_router (sup_topology s)) msg of
        Inl e \<Rightarrow> (Inl (IpcFailure e), s)
      | Inr _ \<Rightarrow>
          (let key = (env_source msg, env_destination msg);
               c = (case bt_get (sup_channels s) key of
                      None \<Rightarrow> IpcChannel_bounded 128 | Some c \<Rightarrow> c);
               (r, c') = IpcChannel_send msg c
           in (case r of Inl e \<Rightarrow> Inl (IpcFailure e) | Inr u \<Rightarrow> Inr u,
               s\<lparr>sup_channels := bt_insert key c' (sup_channels s)\<rparr>)))"

definition ProcessSupervisor_receive ::
    "ProcessKind \<Rightarrow> ProcessKind \<Rightarrow> ProcessSupervisor \<Rightarrow> IpcEnvelope option \<times> ProcessSupervisor" where
  "ProcessSupervisor_receive src dst s =
     (case bt_get (sup_channels s) (src, dst) of
        None \<Rightarrow> (None, s)
      | Some c \<Rightarrow>
          (let (m, c') = IpcChannel_receive c
           in (m, s\<lparr>sup_channels := bt_insert (src, dst) c' (sup_channels s)\<rparr>)))"


subsection \<open>Steps and what they keep\<close>

text \<open>The order in which \<open>router\<close> visits the routes does not matter.\<close>

lemma ProcessTopology_router_loop:
  "set rs = topo_routes t \<Longrightarrow>
   fold (\<lambda>(s, d). IpcRouter_allow s d) rs (IpcRouter_new (topo_protocol_version t))
     = ProcessTopology_router t"
proof -
  have "fold (\<lambda>(s, d). IpcRouter_allow s d) rs r = r\<lparr>router_allowed := router_allowed r \<union> set rs\<rparr>" for r
    by (induction rs arbitrary: r) (auto simp: IpcRouter_allow_def)
  then show "set rs = topo_routes t \<Longrightarrow> ?thesis"
    by (simp add: ProcessTopology_router_def IpcRouter_new_def)
qed

inductive sup_step :: "ProcessSupervisor \<Rightarrow> ProcessSupervisor \<Rightarrow> bool" where
  launch: "sup_step s (snd (ProcessSupervisor_launch request spawned s))"
| poll: "sup_step s (snd (ProcessSupervisor_poll k waited s))"
| stop: "sup_step s (snd (ProcessSupervisor_stop k killed reaped s))"
| restart: "sup_step s (snd (ProcessSupervisor_restart_after_crash k spawned s))"
| route: "sup_step s (snd (ProcessSupervisor_route msg s))"
| receive: "sup_step s (snd (ProcessSupervisor_receive src dst s))"

lemma set_process_state_simps [simp]:
  "topo_protocol_version (set_process_state k st t) = topo_protocol_version t"
  "topo_routes (set_process_state k st t) = topo_routes t"
  "bt_get (topo_processes (set_process_state k st t)) j =
     (if j = k then map_option (\<lambda>p. p\<lparr>spec_state := st\<rparr>) (bt_get (topo_processes t) j)
      else bt_get (topo_processes t) j)"
  by (simp_all add: set_process_state_def)

lemma router_set_process_state [simp]:
  "ProcessTopology_router (set_process_state k st t) = ProcessTopology_router t"
  by (simp add: ProcessTopology_router_def)

lemmas topology_defs =
  ProcessTopology_process_def ProcessTopology_mark_running_def ProcessTopology_mark_crashed_def
  ProcessTopology_restart_after_crash_def

lemmas supervisor_process_defs =
  ProcessSupervisor_launch_def ProcessSupervisor_poll_def ProcessSupervisor_stop_def
  ProcessSupervisor_restart_after_crash_def Let_def topology_defs

lemma IpcRouter_validate_sequence [simp]:
  "IpcRouter_validate r (msg\<lparr>env_sequence := n\<rparr>) = IpcRouter_validate r msg"
  by (simp add: IpcRouter_validate_def)

text \<open>The process operations leave the channels alone and never change routes or version.\<close>

lemma launch_frame [simp]:
  "sup_channels (snd (ProcessSupervisor_launch request spawned s)) = sup_channels s"
  "ProcessTopology_router (sup_topology (snd (ProcessSupervisor_launch request spawned s)))
     = ProcessTopology_router (sup_topology s)"
  by (simp_all add: supervisor_process_defs split: option.split sum.split)

lemma process_ops_frame [simp]:
  "sup_channels (snd (ProcessSupervisor_poll k waited s)) = sup_channels s"
  "sup_channels (snd (ProcessSupervisor_stop k killed reaped s)) = sup_channels s"
  "sup_channels (snd (ProcessSupervisor_restart_after_crash k spawned s)) = sup_channels s"
  "ProcessTopology_router (sup_topology (snd (ProcessSupervisor_poll k waited s)))
     = ProcessTopology_router (sup_topology s)"
  "ProcessTopology_router (sup_topology (snd (ProcessSupervisor_stop k killed reaped s)))
     = ProcessTopology_router (sup_topology s)"
  "ProcessTopology_router (sup_topology (snd (ProcessSupervisor_restart_after_crash k spawned s)))
     = ProcessTopology_router (sup_topology s)"
  by (auto simp: ProcessSupervisor_poll_def ProcessSupervisor_stop_def Let_def topology_defs
      ProcessSupervisor_restart_after_crash_def split: option.split sum.split)

definition channels_ok :: "IpcRouter \<Rightarrow> ProcessSupervisor \<Rightarrow> bool" where
  "channels_ok r s \<longleftrightarrow>
     ProcessTopology_router (sup_topology s) = r \<and>
     (\<forall>a b c. bt_get (sup_channels s) (a, b) = Some c \<longrightarrow>
        (\<forall>m \<in> set (chan_queue c).
           env_source m = a \<and> env_destination m = b \<and> IpcRouter_validate r m = Inr ()))"

lemma channels_ok_route: "channels_ok r s \<Longrightarrow> channels_ok r (snd (ProcessSupervisor_route msg s))"
  by (auto simp: channels_ok_def ProcessSupervisor_route_def IpcChannel_send_def
      IpcChannel_bounded_def Let_def split: sum.split option.split prod.split)

lemma channels_ok_receive: "channels_ok r s \<Longrightarrow> channels_ok r (snd (ProcessSupervisor_receive a b s))"
  by (auto simp: channels_ok_def ProcessSupervisor_receive_def IpcChannel_receive_def
      split: option.split list.split)

lemma sup_step_channels_ok: "sup_step s t \<Longrightarrow> channels_ok r s \<Longrightarrow> channels_ok r t"
  by (induction rule: sup_step.induct)
     (simp_all add: channels_ok_route channels_ok_receive, simp_all add: channels_ok_def)

interpretation channels: kept_invariant sup_step "channels_ok r" for r
  by unfold_locales (rule sup_step_channels_ok)

text \<open>A tabled child is a running, launched, non-host process.\<close>

definition children_ok :: "ProcessSupervisor \<Rightarrow> bool" where
  "children_ok s \<longleftrightarrow>
     (\<forall>k l. bt_get (sup_launches s) k = Some l \<longrightarrow> launch_kind l = k) \<and>
     (\<forall>k pid. bt_get (sup_children s) k = Some pid \<longrightarrow>
        k \<noteq> Host \<and> bt_get (sup_launches s) k \<noteq> None \<and>
        (\<exists>p. ProcessTopology_process (sup_topology s) k = Some p \<and> spec_state p = Running))"

lemma children_ok_launch:
  "children_ok s \<Longrightarrow> children_ok (snd (ProcessSupervisor_launch request spawned s))"
  by (auto simp: children_ok_def ProcessSupervisor_launch_def Let_def topology_defs
      split: option.split sum.split)

lemma children_ok_restarting:
  "children_ok s \<Longrightarrow> \<not> bt_contains_key (sup_children s) k \<Longrightarrow>
   children_ok (s\<lparr>sup_topology := set_process_state k st (sup_topology s)\<rparr>)"
  by (auto simp: children_ok_def bt_contains_key_def topology_defs)

lemma children_ok_restart:
  "children_ok s \<Longrightarrow> children_ok (snd (ProcessSupervisor_restart_after_crash k spawned s))"
  unfolding ProcessSupervisor_restart_after_crash_def ProcessTopology_restart_after_crash_def
  by (auto intro!: children_ok_launch children_ok_restarting split: option.split)

lemma sup_step_children_ok: "sup_step s t \<Longrightarrow> children_ok s \<Longrightarrow> children_ok t"
proof (induction rule: sup_step.induct)
  case (poll s k waited)
  then show ?case
    by (auto simp: children_ok_def ProcessSupervisor_poll_def topology_defs split: option.split sum.split)
next
  case (stop s k killed reaped)
  then show ?case
    by (auto simp: children_ok_def ProcessSupervisor_stop_def Let_def topology_defs
        split: option.split sum.split)
next
  case (route s msg)
  then show ?case
    by (auto simp: children_ok_def ProcessSupervisor_route_def Let_def topology_defs
        split: option.split sum.split prod.split)
next
  case (receive s src dst)
  then show ?case
    by (auto simp: children_ok_def ProcessSupervisor_receive_def topology_defs
        split: option.split prod.split)
qed (simp_all add: children_ok_launch children_ok_restart)

interpretation children: kept_invariant sup_step children_ok
  by unfold_locales (rule sup_step_children_ok)

lemma children_ok_new: "children_ok (ProcessSupervisor_new t)"
  by (simp add: children_ok_def ProcessSupervisor_new_def)

lemma channels_ok_new: "channels_ok (ProcessTopology_router t) (ProcessSupervisor_new t)"
  by (simp add: channels_ok_def ProcessSupervisor_new_def)


subsection \<open>Properties\<close>

text \<open>
  C1: in every state a production supervisor can reach, by any sequence of launches, polls,
  stops, restarts, sends and receives with any outcome of the operating system, a queued
  message travels along a declared route, carries the supervisor's protocol version, and its
  body has no key, at any depth, that names a raw secret.
\<close>

theorem supervisor_messages_follow_routes:
  assumes reach: "sup_step\<^sup>*\<^sup>* (ProcessSupervisor_new (ProcessTopology_production v)) s"
    and chan: "bt_get (sup_channels s) (a, b) = Some c"
    and queued: "m \<in> set (chan_queue c)"
  shows "env_source m = a \<and> env_destination m = b \<and> (a, b) \<in> set production_routes
    \<and> env_protocol_version m = v
    \<and> \<not> (\<exists>body k. payload_body (env_payload m) = Some body \<and> json_key body k \<and> ipc_sensitive_key k)"
proof -
  let ?r = "ProcessTopology_router (ProcessTopology_production v)"
  have "channels_ok ?r s" using channels.reach_keeps [OF reach] channels_ok_new by blast
  then have "env_source m = a" "env_destination m = b" "IpcRouter_validate ?r m = Inr ()"
    using chan queued by (auto simp: channels_ok_def)
  then show ?thesis
    by (auto simp: IpcRouter_validate_ok ProcessTopology_router_def ProcessTopology_production_def
        IpcRouter_new_def payload_has_raw_secret_iff)
qed

definition sample_message :: IpcEnvelope where
  "sample_message =
     \<lparr>env_protocol_version = 1, env_sequence = 7, env_request_id = 5, env_source = BrowserBroker,
      env_destination = Renderer, env_workspace = ''w'', env_profile = ''p'',
      env_origin = None, env_capability = None,
      env_payload = Request ''snapshot'' (JObject [(''reference'', JString ''opaque'')])\<rparr>"

definition sample_supervisor :: ProcessSupervisor where
  "sample_supervisor =
     snd (ProcessSupervisor_route sample_message
       (ProcessSupervisor_new (ProcessTopology_production 1)))"

lemma sample_supervisor_reachable:
  "sup_step\<^sup>*\<^sup>* (ProcessSupervisor_new (ProcessTopology_production 1)) sample_supervisor"
  unfolding sample_supervisor_def by (rule r_into_rtranclp) (rule sup_step.route)

lemma sample_supervisor_channel:
  "bt_get (sup_channels sample_supervisor) (BrowserBroker, Renderer)
     = Some \<lparr>chan_capacity = 128, chan_next_sequence = 1,
             chan_queue = [sample_message\<lparr>env_sequence := 0\<rparr>]\<rparr>"
  by (simp add: sample_supervisor_def sample_message_def ProcessSupervisor_route_def
      IpcRouter_validate_def ProcessTopology_router_def ProcessTopology_production_def
      ProcessSupervisor_new_def IpcRouter_new_def production_routes_def ipc_sensitive_key_def
      contains_any_def ipc_sensitive_words_def ipc_normalize_key_def to_ascii_lowercase_def
      ascii_lower_def IpcChannel_bounded_def IpcChannel_send_def)

theorem supervisor_messages_follow_routes_witness:
  "(BrowserBroker, Renderer) \<in> set production_routes \<and>
   env_protocol_version (sample_message\<lparr>env_sequence := 0\<rparr>) = 1"
  using supervisor_messages_follow_routes [OF sample_supervisor_reachable sample_supervisor_channel]
  by simp

text \<open>
  No chain of production routes, however long, leads from any process other than the host
  to the credential broker, and none leads to the host: a compromised renderer, worker or agent
  runtime cannot reach the credential broker even through other brokers.
\<close>

theorem credential_broker_only_from_host:
  "(k, CredentialBroker) \<in> (set production_routes)\<^sup>+ \<longleftrightarrow> k = Host"
proof
  assume "(k, CredentialBroker) \<in> (set production_routes)\<^sup>+"
  then obtain j where "(j, CredentialBroker) \<in> set production_routes"
    and "(k, j) \<in> (set production_routes)\<^sup>*"
    by (auto dest: tranclD2)
  moreover have "j = Host" if "(j, CredentialBroker) \<in> set production_routes" for j
    using that by (auto simp: production_routes_def)
  moreover have "(i, Host) \<notin> set production_routes" for i
    by (auto simp: production_routes_def)
  ultimately show "k = Host" by (metis rtranclE)
next
  assume "k = Host"
  then show "(k, CredentialBroker) \<in> (set production_routes)\<^sup>+"
    by (auto simp: production_routes_def intro: r_into_trancl)
qed

text \<open>
  In every reachable state of a supervisor a child in the table is never the host, is
  marked running in the topology, and has the launch specification a later restart uses.
\<close>

theorem supervisor_children_consistent:
  assumes "sup_step\<^sup>*\<^sup>* (ProcessSupervisor_new t) s"
    and "bt_get (sup_children s) k = Some pid"
  shows "k \<noteq> Host
    \<and> (\<exists>l. bt_get (sup_launches s) k = Some l \<and> launch_kind l = k)
    \<and> (\<exists>p. ProcessTopology_process (sup_topology s) k = Some p \<and> spec_state p = Running)"
  using children.reach_keeps [OF assms(1) children_ok_new] assms(2)
  by (auto simp: children_ok_def)

definition sample_launch :: ProcessLaunch where
  "sample_launch = \<lparr>launch_kind = Renderer, launch_program = ''renderer'', launch_args = []\<rparr>"

definition sample_topology :: ProcessTopology where
  "sample_topology =
     \<lparr>topo_protocol_version = 1,
      topo_processes = [(Renderer, \<lparr>spec_kind = Renderer, spec_state = Starting,
                                    spec_restart = OnFailure, spec_isolated = True\<rparr>)],
      topo_routes = {}\<rparr>"

theorem supervisor_children_consistent_witness:
  "Renderer \<noteq> Host
   \<and> (\<exists>p. ProcessTopology_process (sup_topology (snd (ProcessSupervisor_launch sample_launch (Inr 42)
        (ProcessSupervisor_new sample_topology)))) Renderer = Some p \<and> spec_state p = Running)"
proof -
  let ?s = "snd (ProcessSupervisor_launch sample_launch (Inr 42) (ProcessSupervisor_new sample_topology))"
  have "sup_step\<^sup>*\<^sup>* (ProcessSupervisor_new sample_topology) ?s"
    by (rule r_into_rtranclp) (rule sup_step.launch)
  moreover have "bt_get (sup_children ?s) Renderer = Some 42"
    by (simp add: ProcessSupervisor_launch_def ProcessSupervisor_new_def sample_launch_def
        sample_topology_def topology_defs bt_contains_key_def)
  ultimately show ?thesis using supervisor_children_consistent by blast
qed

text \<open>
  When \<open>kill\<close> fails inside \<open>stop\<close>, the child has already left the table while the topology
  still calls it running, so the supervisor can no longer poll, stop, launch or restart that
  process kind: every one of these answers with an error, whatever the operating system does.
\<close>

theorem failed_stop_strands_process:
  assumes "sup_step\<^sup>*\<^sup>* (ProcessSupervisor_new t) s"
    and "bt_get (sup_children s) k = Some pid"
    and "s' = snd (ProcessSupervisor_stop k (Inl e) reaped s)"
  shows "fst (ProcessSupervisor_poll k waited s') = Inl (UnknownProcess k)
    \<and> fst (ProcessSupervisor_stop k killed reaped' s') = Inl (UnknownProcess k)
    \<and> (launch_kind request = k \<longrightarrow>
         fst (ProcessSupervisor_launch request spawned s') = Inl (AlreadyRunning k))
    \<and> fst (ProcessSupervisor_restart_after_crash k spawned s') = Inl (UnknownProcess k)"
proof -
  have ok: "children_ok s" by (rule children.reach_keeps [OF assms(1) children_ok_new])
  then obtain p l where "k \<noteq> Host" "ProcessTopology_process (sup_topology s) k = Some p"
      "spec_state p = Running" "bt_get (sup_launches s) k = Some l"
    using assms(2) by (auto simp: children_ok_def)
  moreover have "s' = s\<lparr>sup_children := bt_remove k (sup_children s)\<rparr>"
    using assms(2,3) by (simp add: ProcessSupervisor_stop_def)
  ultimately show ?thesis
    by (auto simp: supervisor_process_defs bt_contains_key_def)
qed

theorem failed_stop_strands_process_witness:
  "fst (ProcessSupervisor_launch sample_launch (Inr 43)
     (snd (ProcessSupervisor_stop Renderer (Inl ''EPERM'') (Inr 0)
       (snd (ProcessSupervisor_launch sample_launch (Inr 42) (ProcessSupervisor_new sample_topology))))))
   = Inl (AlreadyRunning Renderer)"
proof -
  let ?s = "snd (ProcessSupervisor_launch sample_launch (Inr 42) (ProcessSupervisor_new sample_topology))"
  have reach: "sup_step\<^sup>*\<^sup>* (ProcessSupervisor_new sample_topology) ?s"
    by (rule r_into_rtranclp) (rule sup_step.launch)
  have child: "bt_get (sup_children ?s) Renderer = Some 42"
    by (simp add: ProcessSupervisor_launch_def ProcessSupervisor_new_def sample_launch_def
        sample_topology_def topology_defs bt_contains_key_def)
  show ?thesis
    using failed_stop_strands_process [OF reach child refl,
      where e = "''EPERM''" and reaped = "Inr 0" and request = sample_launch and spawned = "Inr 43"]
    by (simp add: sample_launch_def)
qed

end
