(* ===== verification/Sandbox.thy ===== *)
theory Sandbox
  imports Ipc
begin

section \<open>Sandbox policies and the capability broker (crates/sandbox)\<close>

text \<open>
  A policy fixes what a process may ever do; the broker records, per scope and capability, what
  was granted or denied and until which tick. \<open>Url::parse\<close>, on which \<open>same_origin\<close> rests, is the
  argument \<open>parse\<close>.

  Besides the operations, this theory states what a broker promises as a locale: a decision
  depends only on the entry of its own key, and it never exceeds the policy. The clients'
  lemmas (a run of grants, denials and revocations of other keys does not change a decision)
  are proved there.
\<close>

datatype Capability =
    ReadNetwork
  | WriteNetwork
  | ReadFiles
  | WriteFiles
  | ReadClipboard
  | WriteClipboard
  | Render
  | ExecutePageScript
  | ExecuteAgentScript
  | UseCredential
  | SpawnProcess
  | AccessOtherOrigins
  | SolveChallenge
  | CredentialSolve

primrec capability_rank :: "Capability \<Rightarrow> nat" where
  "capability_rank ReadNetwork = 0"
| "capability_rank WriteNetwork = 1"
| "capability_rank ReadFiles = 2"
| "capability_rank WriteFiles = 3"
| "capability_rank ReadClipboard = 4"
| "capability_rank WriteClipboard = 5"
| "capability_rank Render = 6"
| "capability_rank ExecutePageScript = 7"
| "capability_rank ExecuteAgentScript = 8"
| "capability_rank UseCredential = 9"
| "capability_rank SpawnProcess = 10"
| "capability_rank AccessOtherOrigins = 11"
| "capability_rank SolveChallenge = 12"
| "capability_rank CredentialSolve = 13"

lemma capability_rank_inj: "capability_rank a = capability_rank b \<Longrightarrow> a = b"
  by (cases a; cases b; simp)

instantiation Capability :: linorder
begin

definition less_eq_Capability :: "Capability \<Rightarrow> Capability \<Rightarrow> bool" where
  "less_eq_Capability a b = (capability_rank a \<le> capability_rank b)"

definition less_Capability :: "Capability \<Rightarrow> Capability \<Rightarrow> bool" where
  "less_Capability a b = (capability_rank a < capability_rank b)"

instance
  by standard (auto simp: less_eq_Capability_def less_Capability_def intro: capability_rank_inj)

end

text \<open>A scope is ordered by profile, then origin, as its fields are declared.\<close>

type_synonym CapabilityScope = "string \<times> string"

abbreviation scope_profile :: "CapabilityScope \<Rightarrow> string" where
  "scope_profile \<equiv> fst"

abbreviation scope_origin :: "CapabilityScope \<Rightarrow> string" where
  "scope_origin \<equiv> snd"

record CapabilityRequest =
  req_scope :: CapabilityScope
  req_capability :: Capability
  req_reason :: string

datatype CapabilityDecision = Granted | Denied | Prompt

record CapabilityGrant =
  grant_request :: CapabilityRequest
  grant_expires_at_tick :: "u64 option"

datatype CapabilityError = PolicyDenied | InvalidScope

subsection \<open>Policies\<close>

record ResourceLimits =
  max_memory_bytes :: u64
  max_cpu_millis :: u64
  max_children :: u32
  max_runtime_millis :: u64

record OsSandboxProfile =
  os_process_identity :: ProcessKind
  os_allowed_syscalls :: "string set"
  os_filesystem_roots :: "string set"
  os_network_egress :: bool
  os_limits :: ResourceLimits
  os_crash_containment :: bool

record SandboxPolicy =
  pol_process :: ProcessKind
  pol_capabilities :: "Capability set"
  pol_limits :: ResourceLimits
  pol_allowed_origins :: "string set"
  pol_filesystem_roots :: "string set"
  pol_allow_unattended_solve :: bool

definition SandboxPolicy_renderer :: "string \<Rightarrow> SandboxPolicy" where
  "SandboxPolicy_renderer origin =
     \<lparr>pol_process = Renderer,
      pol_capabilities = {Render, ReadNetwork, WriteNetwork},
      pol_limits = \<lparr>max_memory_bytes = 512 * 1024 * 1024, max_cpu_millis = 10000,
                    max_children = 8, max_runtime_millis = 0\<rparr>,
      pol_allowed_origins = {origin},
      pol_filesystem_roots = {},
      pol_allow_unattended_solve = False\<rparr>"

definition SandboxPolicy_agent :: SandboxPolicy where
  "SandboxPolicy_agent =
     \<lparr>pol_process = AgentRuntimeProcess,
      pol_capabilities = {ExecuteAgentScript, Render},
      pol_limits = \<lparr>max_memory_bytes = 256 * 1024 * 1024, max_cpu_millis = 5000,
                    max_children = 0, max_runtime_millis = 60000\<rparr>,
      pol_allowed_origins = {},
      pol_filesystem_roots = {},
      pol_allow_unattended_solve = False\<rparr>"

definition SandboxPolicy_autonomous_agent :: SandboxPolicy where
  "SandboxPolicy_autonomous_agent =
     SandboxPolicy_agent\<lparr>pol_capabilities := insert SolveChallenge (pol_capabilities SandboxPolicy_agent),
                         pol_allow_unattended_solve := True\<rparr>"

definition same_origin :: "(string \<Rightarrow> Url option) \<Rightarrow> string \<Rightarrow> string \<Rightarrow> bool" where
  "same_origin parse left right =
     (case parse left of
        None \<Rightarrow> False
      | Some l \<Rightarrow>
          (case parse right of
             None \<Rightarrow> False
           | Some r \<Rightarrow>
               url_scheme l = url_scheme r
               \<and> url_host_str l = url_host_str r
               \<and> url_port_or_known_default l = url_port_or_known_default r
               \<and> url_username l = []
               \<and> url_username r = []
               \<and> url_password l = None
               \<and> url_password r = None))"

definition SandboxPolicy_allows :: "SandboxPolicy \<Rightarrow> Capability \<Rightarrow> bool" where
  "SandboxPolicy_allows p c = (c \<in> pol_capabilities p)"

definition SandboxPolicy_allows_origin ::
    "(string \<Rightarrow> Url option) \<Rightarrow> SandboxPolicy \<Rightarrow> string \<Rightarrow> bool" where
  "SandboxPolicy_allows_origin parse p origin =
     (\<exists>allowed \<in> pol_allowed_origins p. same_origin parse allowed origin)"

definition SandboxPolicy_os_profile :: "SandboxPolicy \<Rightarrow> OsSandboxProfile" where
  "SandboxPolicy_os_profile p =
     \<lparr>os_process_identity = pol_process p,
      os_allowed_syscalls =
        {''read'', ''write'', ''futex'', ''clock_gettime'', ''exit''}
        \<union> (if ReadFiles \<in> pol_capabilities p \<or> WriteFiles \<in> pol_capabilities p
           then {''openat'', ''stat''} else {}),
      os_filesystem_roots = pol_filesystem_roots p,
      os_network_egress = (ReadNetwork \<in> pol_capabilities p \<or> WriteNetwork \<in> pol_capabilities p),
      os_limits = pol_limits p,
      os_crash_containment = (pol_process p \<noteq> Host)\<rparr>"

definition SandboxPolicy_validate :: "SandboxPolicy \<Rightarrow> string + unit" where
  "SandboxPolicy_validate p =
     (if pol_process p = AgentRuntimeProcess \<and> SpawnProcess \<in> pol_capabilities p
      then Inl ''agent runtime cannot spawn processes''
      else if pol_process p = Renderer
           \<and> (ReadFiles \<in> pol_capabilities p \<or> WriteFiles \<in> pol_capabilities p)
      then Inl ''renderer cannot access files directly''
      else if max_runtime_millis (pol_limits p) = 0 \<and> pol_process p \<noteq> Renderer
      then Inl ''non-renderer sandbox requires a runtime limit''
      else Inr ())"

subsection \<open>The broker\<close>

record CapabilityBroker =
  decisions :: "(CapabilityScope \<times> Capability, CapabilityDecision \<times> u64 option) BTreeMap"

definition CapabilityBroker_default :: CapabilityBroker where
  "CapabilityBroker_default = \<lparr>decisions = []\<rparr>"

abbreviation request_key :: "CapabilityRequest \<Rightarrow> CapabilityScope \<times> Capability" where
  "request_key r \<equiv> (req_scope r, req_capability r)"

definition policy_refuses ::
    "(string \<Rightarrow> Url option) \<Rightarrow> SandboxPolicy \<Rightarrow> CapabilityRequest \<Rightarrow> bool" where
  "policy_refuses parse policy r =
     (\<not> SandboxPolicy_allows policy (req_capability r)
      \<or> (pol_allowed_origins policy \<noteq> {}
         \<and> \<not> SandboxPolicy_allows_origin parse policy (scope_origin (req_scope r))))"

definition CapabilityBroker_request ::
    "(string \<Rightarrow> Url option) \<Rightarrow> CapabilityBroker \<Rightarrow> SandboxPolicy \<Rightarrow> CapabilityRequest \<Rightarrow> u64
     \<Rightarrow> CapabilityDecision" where
  "CapabilityBroker_request parse b policy r now =
     (if policy_refuses parse policy r then Denied
      else (case bt_get (decisions b) (request_key r) of
          Some (d, Some expires) \<Rightarrow> if expires \<le> now then Prompt else d
        | Some (d, None) \<Rightarrow> d
        | None \<Rightarrow> Prompt))"

definition CapabilityBroker_grant ::
    "(string \<Rightarrow> Url option) \<Rightarrow> SandboxPolicy \<Rightarrow> CapabilityRequest \<Rightarrow> u64 option \<Rightarrow> u64
     \<Rightarrow> CapabilityBroker \<Rightarrow> (CapabilityError + CapabilityGrant) \<times> CapabilityBroker" where
  "CapabilityBroker_grant parse policy r lifetime_ticks now b =
     (if scope_origin (req_scope r) = [] \<or> scope_profile (req_scope r) = []
      then (Inl InvalidScope, b)
      else if policy_refuses parse policy r then (Inl PolicyDenied, b)
      else (let expires = map_option (\<lambda>ticks. saturating_add now (max ticks 1)) lifetime_ticks in
        (Inr \<lparr>grant_request = r, grant_expires_at_tick = expires\<rparr>,
         b\<lparr>decisions := bt_insert (request_key r) (Granted, expires) (decisions b)\<rparr>)))"

definition CapabilityBroker_deny :: "CapabilityRequest \<Rightarrow> CapabilityBroker \<Rightarrow> CapabilityBroker" where
  "CapabilityBroker_deny r b =
     b\<lparr>decisions := bt_insert (request_key r) (Denied, None) (decisions b)\<rparr>"

definition CapabilityBroker_revoke ::
    "CapabilityScope \<Rightarrow> Capability \<Rightarrow> CapabilityBroker \<Rightarrow> CapabilityBroker" where
  "CapabilityBroker_revoke scope c b = b\<lparr>decisions := bt_remove (scope, c) (decisions b)\<rparr>"

subsection \<open>Origins\<close>

lemma same_origin_sym: "same_origin parse a b \<Longrightarrow> same_origin parse b a"
  by (auto simp: same_origin_def split: option.splits)

lemma same_origin_trans: "same_origin parse a b \<Longrightarrow> same_origin parse b c \<Longrightarrow> same_origin parse a c"
  by (auto simp: same_origin_def split: option.splits)

subsection \<open>Operations as events on keys\<close>

datatype BrokerOp =
    OpGrant SandboxPolicy CapabilityRequest "u64 option" u64
  | OpDeny CapabilityRequest
  | OpRevoke CapabilityScope Capability

fun broker_op_key :: "BrokerOp \<Rightarrow> CapabilityScope \<times> Capability" where
  "broker_op_key (OpGrant p r l n) = request_key r"
| "broker_op_key (OpDeny r) = request_key r"
| "broker_op_key (OpRevoke s c) = (s, c)"

fun broker_apply :: "(string \<Rightarrow> Url option) \<Rightarrow> BrokerOp \<Rightarrow> CapabilityBroker \<Rightarrow> CapabilityBroker" where
  "broker_apply parse (OpGrant p r l n) b = snd (CapabilityBroker_grant parse p r l n b)"
| "broker_apply parse (OpDeny r) b = CapabilityBroker_deny r b"
| "broker_apply parse (OpRevoke s c) b = CapabilityBroker_revoke s c b"

lemma broker_apply_frame:
  "broker_op_key x \<noteq> k \<Longrightarrow> bt_get (decisions (broker_apply parse x b)) k = bt_get (decisions b) k"
  by (cases x) (auto simp: CapabilityBroker_grant_def CapabilityBroker_deny_def
      CapabilityBroker_revoke_def Let_def)

interpretation broker: keyed_ops "\<lambda>b. bt_get (decisions b)" broker_op_key "broker_apply parse" for parse
  by unfold_locales (rule broker_apply_frame)

lemma request_cong:
  "bt_get (decisions b) (request_key r) = bt_get (decisions b') (request_key r) \<Longrightarrow>
   CapabilityBroker_request parse b policy r now = CapabilityBroker_request parse b' policy r now"
  by (simp add: CapabilityBroker_request_def)

text \<open>
  A recorded grant is the only source of a positive answer: whatever was done to a broker,
  \<open>Granted\<close> in its table comes from a \<open>grant\<close> of that very key.
\<close>

lemma granted_entry_from_grant:
  "bt_get (decisions (fold (broker_apply parse) xs CapabilityBroker_default)) k = Some (Granted, ex) \<Longrightarrow>
   \<exists>p r l n. OpGrant p r l n \<in> set xs \<and> request_key r = k \<and> \<not> policy_refuses parse p r
     \<and> ex = map_option (\<lambda>ticks. saturating_add n (max ticks 1)) l"
proof (induction xs rule: rev_induct)
  case Nil
  then show ?case by (simp add: CapabilityBroker_default_def)
next
  case (snoc x xs)
  show ?case
  proof (cases "broker_op_key x = k")
    case False
    then show ?thesis using snoc broker_apply_frame [OF False] by auto
  next
    case True
    then show ?thesis using snoc
      by (cases x) (auto simp: CapabilityBroker_grant_def CapabilityBroker_deny_def
          CapabilityBroker_revoke_def Let_def split: if_splits)
  qed
qed


subsection \<open>Properties\<close>

lemma builtin_policies_validate:
  "SandboxPolicy_validate (SandboxPolicy_renderer origin) = Inr ()"
  "SandboxPolicy_validate SandboxPolicy_agent = Inr ()"
  "SandboxPolicy_validate SandboxPolicy_autonomous_agent = Inr ()"
  by (simp_all add: SandboxPolicy_validate_def SandboxPolicy_renderer_def SandboxPolicy_agent_def
      SandboxPolicy_autonomous_agent_def)

lemma validated_renderer_no_file_syscalls:
  "SandboxPolicy_validate p = Inr () \<Longrightarrow> pol_process p = Renderer \<Longrightarrow>
   os_allowed_syscalls (SandboxPolicy_os_profile p) \<inter> {''openat'', ''stat''} = {}"
  by (auto simp: SandboxPolicy_validate_def SandboxPolicy_os_profile_def split: if_splits)

text \<open>
  C2: whatever sequence of grants, denials and revocations a broker has processed, it answers
  \<open>Granted\<close> only if the policy in force allows the capability and, when the policy names origins,
  the request's origin; and only on the strength of an earlier grant of exactly that profile,
  origin and capability, itself permitted by the policy of its time, that has not expired.
\<close>

theorem broker_grants_are_policy_and_scope_bound:
  assumes "CapabilityBroker_request parse (fold (broker_apply parse) ops CapabilityBroker_default)
             policy r now = Granted"
  shows "SandboxPolicy_allows policy (req_capability r)
    \<and> (pol_allowed_origins policy = {} \<or>
       SandboxPolicy_allows_origin parse policy (scope_origin (req_scope r)))
    \<and> (\<exists>p r' l n. OpGrant p r' l n \<in> set ops \<and> request_key r' = request_key r
         \<and> \<not> policy_refuses parse p r'
         \<and> (case l of None \<Rightarrow> True | Some ticks \<Rightarrow> now < saturating_add n (max ticks 1)))"
proof -
  let ?b = "fold (broker_apply parse) ops CapabilityBroker_default"
  from assms have allowed: "\<not> policy_refuses parse policy r"
    by (auto simp: CapabilityBroker_request_def)
  from assms obtain ex where e: "bt_get (decisions ?b) (request_key r) = Some (Granted, ex)"
    and live: "case ex of None \<Rightarrow> True | Some t \<Rightarrow> now < t"
    by (auto simp: CapabilityBroker_request_def not_le split: if_splits option.splits)
  from granted_entry_from_grant [OF e] live allowed show ?thesis
    by (fastforce simp: policy_refuses_def split: option.splits)
qed

definition sample_url :: "string \<Rightarrow> Url option" where
  "sample_url s = Some \<lparr>url_as_str = s, url_scheme = ''https'', url_username = [], url_password = None,
     url_host_str = Some ''example.test'', url_port_or_known_default = Some 443, url_path = ''/'',
     url_query = None, url_fragment = None,
     url_origin = TupleOrigin ''https'' ''example.test'' 443, url_origin_ascii = ''https://example.test''\<rparr>"

definition sample_request :: CapabilityRequest where
  "sample_request = \<lparr>req_scope = (''work'', ''https://example.test''), req_capability = ReadNetwork,
     req_reason = ''load page''\<rparr>"

abbreviation sample_policy :: SandboxPolicy where
  "sample_policy \<equiv> SandboxPolicy_renderer ''https://example.test''"

lemmas sample_broker_simps =
  sample_request_def CapabilityBroker_request_def CapabilityBroker_grant_def policy_refuses_def
  SandboxPolicy_renderer_def SandboxPolicy_allows_def SandboxPolicy_allows_origin_def
  same_origin_def sample_url_def CapabilityBroker_default_def saturating_add_def Let_def

theorem broker_grants_are_policy_and_scope_bound_witness:
  "SandboxPolicy_allows sample_policy ReadNetwork \<and>
   CapabilityBroker_request sample_url
     (fold (broker_apply sample_url) [OpGrant sample_policy sample_request (Some 5) 0] CapabilityBroker_default)
     sample_policy sample_request 4 = Granted"
proof -
  have g: "CapabilityBroker_request sample_url
     (fold (broker_apply sample_url) [OpGrant sample_policy sample_request (Some 5) 0] CapabilityBroker_default)
     sample_policy sample_request 4 = Granted"
    by (simp add: sample_broker_simps)
  from broker_grants_are_policy_and_scope_bound [OF g] g show ?thesis
    by (simp add: sample_request_def)
qed

text \<open>
  A grant accepted at tick \<open>now\<close> with a lifetime answers \<open>Granted\<close> exactly until its expiry
  tick and \<open>Prompt\<close> from then on, one without a lifetime answers \<open>Granted\<close> at every tick; grants,
  denials and revocations of other scopes or capabilities in between do not matter.
\<close>

theorem broker_grant_lasts_its_lifetime:
  assumes "fst (CapabilityBroker_grant parse policy r l now b) = Inr g"
    and "request_key r \<notin> broker_op_key ` set ops"
  shows "CapabilityBroker_request parse
           (fold (broker_apply parse) ops (snd (CapabilityBroker_grant parse policy r l now b)))
           policy r t
         = (case l of
              None \<Rightarrow> Granted
            | Some ticks \<Rightarrow> if t < saturating_add now (max ticks 1) then Granted else Prompt)"
proof -
  let ?b = "snd (CapabilityBroker_grant parse policy r l now b)"
  have "CapabilityBroker_request parse (fold (broker_apply parse) ops ?b) policy r t
      = CapabilityBroker_request parse ?b policy r t"
    by (intro request_cong broker.ops_frame assms(2))
  with assms(1) show ?thesis
    by (auto simp: CapabilityBroker_grant_def CapabilityBroker_request_def Let_def not_le
        split: if_splits option.splits)
qed

theorem broker_grant_lasts_its_lifetime_witness:
  "CapabilityBroker_request sample_url
     (fold (broker_apply sample_url) [OpRevoke (''home'', ''https://example.test'') ReadNetwork]
       (snd (CapabilityBroker_grant sample_url sample_policy sample_request (Some 5) 0
         CapabilityBroker_default))) sample_policy sample_request 5 = Prompt"
proof -
  have g: "fst (CapabilityBroker_grant sample_url sample_policy sample_request (Some 5) 0
      CapabilityBroker_default)
    = Inr \<lparr>grant_request = sample_request, grant_expires_at_tick = Some 5\<rparr>"
    by (simp add: sample_broker_simps)
  have k: "request_key sample_request \<notin>
      broker_op_key ` set [OpRevoke (''home'', ''https://example.test'') ReadNetwork]"
    by (simp add: sample_request_def)
  show ?thesis using broker_grant_lasts_its_lifetime [OF g k, of 5]
    by (simp add: saturating_add_def)
qed

end
