(* ===== verification/Takeover.thy ===== *)
theory Takeover
  imports Web
begin

section \<open>Human takeover of an agent (crates/agent-runtime, TakeoverManager)\<close>

text \<open>
  A takeover session hands control of an agent to a human and back. All state changes go
  through \<open>TakeoverManager_transition\<close>, which refuses completed and expired sessions and appends
  to the audit trail. \<open>redact\<close> masks the values of sensitive fields of a JSON value before it is
  shown to the human.
\<close>

datatype ControlOwner = Agent | Human

datatype TakeoverState = Requested | Active | Paused | Completed | Expired

record TakeoverSession =
  tk_id :: uuid
  tk_agent_id :: string
  tk_reason :: string
  tk_owner :: ControlOwner
  tk_state :: TakeoverState
  tk_expires_at_tick :: u64

record TakeoverAuditEvent =
  tka_takeover_id :: uuid
  tka_state :: TakeoverState
  tka_tick :: u64

record TakeoverManager =
  tm_sessions :: "(uuid, TakeoverSession) BTreeMap"
  tm_audit :: "TakeoverAuditEvent list"

definition TakeoverManager_default :: TakeoverManager where
  "TakeoverManager_default = \<lparr>tm_sessions = [], tm_audit = []\<rparr>"

definition TakeoverManager_request ::
    "uuid \<Rightarrow> string \<Rightarrow> string \<Rightarrow> u64 \<Rightarrow> u64 \<Rightarrow> TakeoverManager \<Rightarrow> uuid \<times> TakeoverManager" where
  "TakeoverManager_request tid agent_id reason timeout_ticks now m =
     (tid, m\<lparr>tm_sessions := bt_insert tid
               \<lparr>tk_id = tid, tk_agent_id = agent_id, tk_reason = reason, tk_owner = Agent,
                tk_state = Requested,
                tk_expires_at_tick = saturating_add now (max timeout_ticks 1)\<rparr> (tm_sessions m),
             tm_audit := tm_audit m @
               [\<lparr>tka_takeover_id = tid, tka_state = Requested, tka_tick = now\<rparr>]\<rparr>)"

definition TakeoverManager_transition ::
    "uuid \<Rightarrow> ControlOwner \<Rightarrow> TakeoverState \<Rightarrow> u64 \<Rightarrow> TakeoverManager \<Rightarrow> bool \<times> TakeoverManager" where
  "TakeoverManager_transition tid owner state now m =
     (case bt_get (tm_sessions m) tid of
        None \<Rightarrow> (False, m)
      | Some s \<Rightarrow>
          if tk_state s \<in> {Completed, Expired} then (False, m)
          else (True,
                m\<lparr>tm_sessions := bt_adjust tid (\<lambda>s. s\<lparr>tk_owner := owner, tk_state := state\<rparr>) (tm_sessions m),
                  tm_audit := tm_audit m @
                    [\<lparr>tka_takeover_id = tid, tka_state = state, tka_tick = now\<rparr>]\<rparr>))"

definition TakeoverManager_accept :: "uuid \<Rightarrow> u64 \<Rightarrow> TakeoverManager \<Rightarrow> bool \<times> TakeoverManager" where
  "TakeoverManager_accept tid now m = TakeoverManager_transition tid Human Active now m"

definition TakeoverManager_pause :: "uuid \<Rightarrow> u64 \<Rightarrow> TakeoverManager \<Rightarrow> bool \<times> TakeoverManager" where
  "TakeoverManager_pause tid now m = TakeoverManager_transition tid Human Paused now m"

definition TakeoverManager_resume :: "uuid \<Rightarrow> u64 \<Rightarrow> TakeoverManager \<Rightarrow> bool \<times> TakeoverManager" where
  "TakeoverManager_resume tid now m = TakeoverManager_transition tid Human Active now m"

definition TakeoverManager_complete :: "uuid \<Rightarrow> u64 \<Rightarrow> TakeoverManager \<Rightarrow> bool \<times> TakeoverManager" where
  "TakeoverManager_complete tid now m = TakeoverManager_transition tid Human Completed now m"

definition takeover_overdue :: "u64 \<Rightarrow> TakeoverSession \<Rightarrow> bool" where
  "takeover_overdue now s = (tk_state s \<noteq> Completed \<and> tk_expires_at_tick s \<le> now)"

definition TakeoverManager_expire :: "u64 \<Rightarrow> TakeoverManager \<Rightarrow> TakeoverManager" where
  "TakeoverManager_expire now m =
     fold (\<lambda>tid m. snd (TakeoverManager_transition tid Agent Expired now m))
       (map tk_id (filter (takeover_overdue now) (bt_values (tm_sessions m)))) m"

definition TakeoverManager_session :: "TakeoverManager \<Rightarrow> uuid \<Rightarrow> TakeoverSession option" where
  "TakeoverManager_session m tid = bt_get (tm_sessions m) tid"

subsection \<open>Redaction\<close>

definition redact_words :: "string list" where
  "redact_words = [''password'', ''secret'', ''token'', ''card'', ''private'']"

definition redact_sensitive :: "string \<Rightarrow> bool" where
  "redact_sensitive k = contains_any redact_words (to_ascii_lowercase k)"

fun TakeoverManager_redact :: "Json \<Rightarrow> Json" where
  "TakeoverManager_redact (JObject fs) =
     JObject (map (\<lambda>f. (fst f, if redact_sensitive (fst f) then JString ''[REDACTED]''
                               else TakeoverManager_redact (snd f))) fs)"
| "TakeoverManager_redact (JArray vs) = JArray (map TakeoverManager_redact vs)"
| "TakeoverManager_redact v = v"

lemma redacted_entries:
  "json_entry (TakeoverManager_redact v) k w \<Longrightarrow> redact_sensitive k \<Longrightarrow> w = JString ''[REDACTED]''"
proof (induction v)
  case (JObject fs)
  have "w = JString ''[REDACTED]''" if "(j, u) \<in> set fs" "json_entry (TakeoverManager_redact u) k w" for j u
    using JObject.IH [OF that(1), of u] that(2) JObject.prems(2) by simp
  with JObject.prems show ?case by (auto simp: json_entry_simps split: if_splits)
next
  case (JArray vs)
  then show ?case by (auto simp: json_entry_simps)
qed (simp_all add: json_entry_simps)

lemma redact_idempotent: "TakeoverManager_redact (TakeoverManager_redact v) = TakeoverManager_redact v"
proof (induction v)
  case (JObject fs)
  have "TakeoverManager_redact (TakeoverManager_redact (snd f)) = TakeoverManager_redact (snd f)"
    if "f \<in> set fs" for f
    using JObject.IH [OF that, of "snd f"] by (cases f) simp
  then show ?case by simp
qed simp_all

lemma redact_keys: "json_key (TakeoverManager_redact v) k \<Longrightarrow> json_key v k"
proof (induction v)
  case (JObject fs)
  have "json_key u k" if "(j, u) \<in> set fs" "json_key (TakeoverManager_redact u) k" for j u
    using JObject.IH [OF that(1), of u] that(2) by simp
  with JObject.prems show ?case by (fastforce simp: json_key_simps split: if_splits)
next
  case (JArray vs)
  then show ?case by (auto simp: json_key_simps)
qed simp_all

subsection \<open>Steps\<close>

inductive takeover_step :: "TakeoverManager \<Rightarrow> TakeoverManager \<Rightarrow> bool" where
  request: "bt_get (tm_sessions m) tid = None \<Longrightarrow>
    takeover_step m (snd (TakeoverManager_request tid agent reason timeout now m))"
| accept: "takeover_step m (snd (TakeoverManager_accept tid now m))"
| pause: "takeover_step m (snd (TakeoverManager_pause tid now m))"
| resume: "takeover_step m (snd (TakeoverManager_resume tid now m))"
| complete: "takeover_step m (snd (TakeoverManager_complete tid now m))"
| expire: "takeover_step m (TakeoverManager_expire now m)"

lemmas takeover_transition_defs =
  TakeoverManager_accept_def TakeoverManager_pause_def TakeoverManager_resume_def
  TakeoverManager_complete_def

lemma transition_session:
  "bt_get (tm_sessions (snd (TakeoverManager_transition tid owner state now m))) j =
     (case bt_get (tm_sessions m) j of
        None \<Rightarrow> None
      | Some s \<Rightarrow> Some (if j = tid \<and> tk_state s \<notin> {Completed, Expired}
                        then s\<lparr>tk_owner := owner, tk_state := state\<rparr> else s))"
  by (auto simp: TakeoverManager_transition_def split: option.split)

lemma transition_audit:
  "tm_audit (snd (TakeoverManager_transition tid owner state now m)) =
     tm_audit m @ (if fst (TakeoverManager_transition tid owner state now m)
       then [\<lparr>tka_takeover_id = tid, tka_state = state, tka_tick = now\<rparr>] else [])"
  by (auto simp: TakeoverManager_transition_def split: option.split)

lemma transition_accepted:
  "fst (TakeoverManager_transition tid owner state now m) \<longleftrightarrow>
     (\<exists>s. bt_get (tm_sessions m) tid = Some s \<and> tk_state s \<notin> {Completed, Expired})"
  by (auto simp: TakeoverManager_transition_def split: option.split)

text \<open>What any operation leaves alone: a closed session, and the audit written so far.\<close>

definition takeover_below :: "TakeoverManager \<Rightarrow> TakeoverManager \<Rightarrow> bool" where
  "takeover_below m n \<longleftrightarrow>
     prefix (tm_audit m) (tm_audit n) \<and>
     (\<forall>tid s. bt_get (tm_sessions m) tid = Some s \<longrightarrow>
        (\<exists>s'. bt_get (tm_sessions n) tid = Some s' \<and>
           tk_expires_at_tick s' = tk_expires_at_tick s \<and> tk_agent_id s' = tk_agent_id s \<and>
           (tk_state s \<in> {Completed, Expired} \<longrightarrow> s' = s)))"

lemma takeover_below_refl: "takeover_below m m"
  by (simp add: takeover_below_def)

lemma takeover_below_trans: "takeover_below a b \<Longrightarrow> takeover_below b c \<Longrightarrow> takeover_below a c"
  unfolding takeover_below_def by (metis prefix_order.trans)

lemma takeover_below_transition:
  "takeover_below m (snd (TakeoverManager_transition tid owner state now m))"
  by (auto simp: takeover_below_def transition_session transition_audit)

lemma takeover_below_fold:
  "takeover_below m (fold (\<lambda>tid m. snd (TakeoverManager_transition tid owner state now m)) tids m)"
  by (induction tids arbitrary: m)
     (auto intro: takeover_below_refl takeover_below_trans takeover_below_transition)

lemma takeover_step_below: "takeover_step m n \<Longrightarrow> takeover_below m n"
proof (induction rule: takeover_step.induct)
  case (request m tid agent reason timeout now)
  then show ?case by (auto simp: takeover_below_def TakeoverManager_request_def)
qed (simp_all add: takeover_transition_defs TakeoverManager_expire_def takeover_below_transition
       takeover_below_fold)

interpretation takeover: monotone_steps takeover_step takeover_below
proof
  show "takeover_below m m" for m by (rule takeover_below_refl)
  show "takeover_below a c" if "takeover_below a b" "takeover_below b c" for a b c
    using that by (rule takeover_below_trans)
  show "takeover_below m n" if "takeover_step m n" for m n using that by (rule takeover_step_below)
qed

text \<open>The audit trail is complete: the last entry about a session is its current state.\<close>

definition last_audited :: "TakeoverAuditEvent list \<Rightarrow> uuid \<Rightarrow> TakeoverState option" where
  "last_audited es tid =
     (case [e \<leftarrow> rev es. tka_takeover_id e = tid] of [] \<Rightarrow> None | e # _ \<Rightarrow> Some (tka_state e))"

lemma last_audited_append:
  "last_audited (es @ [e]) tid = (if tka_takeover_id e = tid then Some (tka_state e) else last_audited es tid)"
  by (simp add: last_audited_def)

definition audited :: "TakeoverManager \<Rightarrow> bool" where
  "audited m \<longleftrightarrow>
     (\<forall>tid s. bt_get (tm_sessions m) tid = Some s \<longrightarrow>
        tk_id s = tid \<and> last_audited (tm_audit m) tid = Some (tk_state s)
        \<and> (tk_owner s = Human \<longleftrightarrow> tk_state s \<in> {Active, Paused, Completed}))"

lemma audited_transition:
  assumes "audited m" and "owner = Human \<longleftrightarrow> state \<in> {Active, Paused, Completed}"
  shows "audited (snd (TakeoverManager_transition tid owner state now m))"
  using assms
  by (auto simp: audited_def transition_session transition_audit transition_accepted
      last_audited_append split: option.splits)

lemma audited_fold:
  "audited m \<Longrightarrow> audited (fold (\<lambda>tid m. snd (TakeoverManager_transition tid Agent Expired now m)) tids m)"
  by (induction tids arbitrary: m) (simp_all add: audited_transition)

lemma takeover_step_audited: "takeover_step m n \<Longrightarrow> audited m \<Longrightarrow> audited n"
proof (induction rule: takeover_step.induct)
  case (request m tid agent reason timeout now)
  then show ?case by (auto simp: audited_def TakeoverManager_request_def last_audited_append)
qed (simp_all add: takeover_transition_defs TakeoverManager_expire_def audited_transition audited_fold)

interpretation takeover_audit: kept_invariant takeover_step audited
  by unfold_locales (rule takeover_step_audited)

lemma audited_default: "audited TakeoverManager_default"
  by (simp add: audited_def TakeoverManager_default_def)

text \<open>Expiry reaches every overdue session.\<close>

lemma expired_by_fold:
  assumes "tid \<in> set tids" and "bt_get (tm_sessions m) tid = Some s" and "tk_state s \<noteq> Completed"
  shows "\<exists>s'. bt_get (tm_sessions (fold (\<lambda>tid m. snd (TakeoverManager_transition tid Agent Expired now m))
           tids m)) tid = Some s' \<and> tk_state s' = Expired"
  using assms
proof (induction tids arbitrary: m s)
  case (Cons t ts)
  show ?case
  proof (cases "t = tid")
    case True
    let ?m = "snd (TakeoverManager_transition t Agent Expired now m)"
    obtain s' where s': "bt_get (tm_sessions ?m) tid = Some s'" "tk_state s' = Expired"
      using True Cons.prems by (auto simp: transition_session)
    then show ?thesis
      using takeover_below_fold [where m = ?m and tids = ts] by (fastforce simp: takeover_below_def)
  next
    case False
    then show ?thesis using Cons by (simp add: transition_session)
  qed
qed simp


subsection \<open>Properties\<close>

text \<open>
  The audit trail of takeovers is complete and truthful: in every reachable state the last
  audit entry about a session records exactly its current state, and control belongs to the
  human in precisely the states \<open>Active\<close>, \<open>Paused\<close> and \<open>Completed\<close>.
\<close>

theorem takeover_audit_matches_state:
  assumes "takeover_step\<^sup>*\<^sup>* TakeoverManager_default m"
    and "TakeoverManager_session m tid = Some s"
  shows "last_audited (tm_audit m) tid = Some (tk_state s)
    \<and> (tk_owner s = Human \<longleftrightarrow> tk_state s \<in> {Active, Paused, Completed})"
  using takeover_audit.reach_keeps [OF assms(1) audited_default] assms(2)
  by (simp add: audited_def TakeoverManager_session_def)

definition sample_takeover :: TakeoverManager where
  "sample_takeover = snd (TakeoverManager_accept 3 11
     (snd (TakeoverManager_request 3 ''agent-a'' ''ambiguous target'' 5 10 TakeoverManager_default)))"

lemma sample_takeover_reachable: "takeover_step\<^sup>*\<^sup>* TakeoverManager_default sample_takeover"
proof -
  let ?m = "snd (TakeoverManager_request 3 ''agent-a'' ''ambiguous target'' 5 10 TakeoverManager_default)"
  have "takeover_step TakeoverManager_default ?m"
    by (rule takeover_step.request) (simp add: TakeoverManager_default_def)
  moreover have "takeover_step ?m sample_takeover"
    unfolding sample_takeover_def by (rule takeover_step.accept)
  ultimately show ?thesis by simp
qed

lemma sample_takeover_session:
  "TakeoverManager_session sample_takeover 3 =
     Some \<lparr>tk_id = 3, tk_agent_id = ''agent-a'', tk_reason = ''ambiguous target'', tk_owner = Human,
           tk_state = Active, tk_expires_at_tick = 15\<rparr>"
  by (simp add: sample_takeover_def TakeoverManager_session_def TakeoverManager_accept_def
      transition_session TakeoverManager_request_def saturating_add_def)

theorem takeover_audit_matches_state_witness:
  "last_audited (tm_audit sample_takeover) 3 = Some Active"
  using takeover_audit_matches_state [OF sample_takeover_reachable sample_takeover_session] by simp

text \<open>
  A completed or expired takeover stays as it is for ever, whatever is called afterwards,
  deadlines never move, and the audit trail is append-only.
\<close>

theorem takeover_closed_is_final:
  assumes "takeover_step\<^sup>*\<^sup>* m n"
    and "TakeoverManager_session m tid = Some s"
    and "tk_state s \<in> {Completed, Expired}"
  shows "TakeoverManager_session n tid = Some s \<and> prefix (tm_audit m) (tm_audit n)"
  using takeover.reach_below [OF assms(1)] assms(2,3)
  by (auto simp: takeover_below_def TakeoverManager_session_def)

theorem takeover_closed_is_final_witness:
  "map_option tk_state (TakeoverManager_session
     (snd (TakeoverManager_resume 3 13 (snd (TakeoverManager_complete 3 12 sample_takeover)))) 3)
   = Some Completed"
proof -
  let ?m = "snd (TakeoverManager_complete 3 12 sample_takeover)"
  let ?s = "\<lparr>tk_id = 3, tk_agent_id = ''agent-a'', tk_reason = ''ambiguous target'', tk_owner = Human,
           tk_state = Completed, tk_expires_at_tick = 15\<rparr>"
  have s: "TakeoverManager_session ?m 3 = Some ?s"
    using sample_takeover_session
    by (simp add: TakeoverManager_session_def TakeoverManager_complete_def transition_session)
  have "takeover_step\<^sup>*\<^sup>* ?m (snd (TakeoverManager_resume 3 13 ?m))"
    by (rule r_into_rtranclp) (rule takeover_step.resume)
  from takeover_closed_is_final [OF this s] show ?thesis by simp
qed



text \<open>
  Nothing but the explicit call of \<open>expire\<close> enforces a deadline: an open session is accepted,
  and control passes to the human, at any tick, also long after the session's expiry tick.
\<close>

theorem takeover_accept_ignores_deadline:
  assumes "TakeoverManager_session m tid = Some s" and "tk_state s \<notin> {Completed, Expired}"
  shows "fst (TakeoverManager_accept tid now m) \<and>
    TakeoverManager_session (snd (TakeoverManager_accept tid now m)) tid
      = Some (s\<lparr>tk_owner := Human, tk_state := Active\<rparr>)"
  using assms
  by (auto simp: TakeoverManager_session_def TakeoverManager_accept_def transition_session transition_accepted)

theorem takeover_accept_ignores_deadline_witness:
  "fst (TakeoverManager_accept 3 1000000 sample_takeover)"
  using takeover_accept_ignores_deadline [OF sample_takeover_session, of 1000000] by simp

text \<open>
  Redaction is complete at every depth: in a redacted value the only thing any key that
  looks sensitive maps to is the marker; redacting twice changes nothing more, and no key is
  invented.
\<close>

theorem redact_masks_every_sensitive_field:
  assumes "redact_sensitive k"
  shows "(json_entry (TakeoverManager_redact v) k w \<longrightarrow> w = JString ''[REDACTED]'')
    \<and> TakeoverManager_redact (TakeoverManager_redact v) = TakeoverManager_redact v
    \<and> (json_key (TakeoverManager_redact v) j \<longrightarrow> json_key v j)"
  using assms redacted_entries redact_idempotent redact_keys by blast

theorem redact_masks_every_sensitive_field_witness:
  "TakeoverManager_redact (JArray [JObject [(''label'', JString ''ok''), (''userPassword'', JString ''hunter2'')]])
     = JArray [JObject [(''label'', JString ''ok''), (''userPassword'', JString ''[REDACTED]'')]]
   \<and> \<not> json_entry (TakeoverManager_redact (JArray [JObject [(''userPassword'', JString ''hunter2'')]]))
       ''userPassword'' (JString ''hunter2'')"
proof
  have s: "redact_sensitive ''userPassword''" by code_simp
  show "\<not> json_entry (TakeoverManager_redact (JArray [JObject [(''userPassword'', JString ''hunter2'')]]))
       ''userPassword'' (JString ''hunter2'')"
    using redact_masks_every_sensitive_field [OF s] by blast
qed code_simp

end
