(* ===== verification/AgentRuntime.thy ===== *)
theory AgentRuntime
  imports Sandbox Takeover
begin

section \<open>Agent sessions, quotas and the challenge gate (crates/agent-runtime, AgentRuntime)\<close>

text \<open>
  A session is created with capabilities and limits, runs, pauses and ends. Every action goes
  through \<open>consume_action\<close>, which checks in this order: the session exists, is running, is within
  its time, holds the capability and is allowed it by the policy, and has actions left. Time is
  the runtime's own millisecond counter.

  \<open>attempt_solve_challenge\<close> is the gate in front of every attempt to satisfy a human-verification
  wall. The \<open>Debug\<close> text of an identifier is an argument (\<open>dbg\<close>).
\<close>

datatype SessionState = Created | SessionRunning | SessionPaused | Cancelled | Exited

record AgentLimits =
  al_max_actions :: u64
  al_max_events :: u64
  al_max_output_bytes :: u64
  al_max_runtime_millis :: u64

definition AgentLimits_default :: AgentLimits where
  "AgentLimits_default =
     \<lparr>al_max_actions = 100, al_max_events = 1000, al_max_output_bytes = 1048576,
      al_max_runtime_millis = 60000\<rparr>"

record AgentSession =
  ses_id :: uuid
  ses_state :: SessionState
  ses_capabilities :: "Capability set"
  ses_limits :: AgentLimits
  ses_actions_used :: u64
  ses_events_used :: u64
  ses_output_bytes :: u64
  ses_started_at_millis :: "u64 option"

datatype AgentRuntimeError =
    UnknownSession
  | InvalidState SessionState
  | CapabilityDenied Capability
  | QuotaExceeded string
  | RuntimeExceeded
  | UntrustedPageContent

record AgentRuntime =
  rt_policy :: SandboxPolicy
  rt_sessions :: "(uuid, AgentSession) BTreeMap"
  rt_now_millis :: u64

record UntrustedPageData =
  upd_text :: string
  upd_source :: string

record SolveAuditEvent =
  sae_agent_id :: string
  sae_provider :: string
  sae_capability_used :: string
  sae_takeover_id :: "string option"
  sae_observed_at_tick :: u64
  sae_page_id :: "u64 option"
  sae_target_node_id :: "string option"

definition AgentRuntime_new :: "SandboxPolicy \<Rightarrow> AgentRuntime" where
  "AgentRuntime_new policy = \<lparr>rt_policy = policy, rt_sessions = [], rt_now_millis = 0\<rparr>"

definition AgentRuntime_open ::
    "uuid \<Rightarrow> Capability set \<Rightarrow> AgentLimits \<Rightarrow> AgentRuntime \<Rightarrow> uuid \<times> AgentRuntime" where
  "AgentRuntime_open sid capabilities limits rt =
     (sid, rt\<lparr>rt_sessions := bt_insert sid
        \<lparr>ses_id = sid, ses_state = Created, ses_capabilities = capabilities, ses_limits = limits,
         ses_actions_used = 0, ses_events_used = 0, ses_output_bytes = 0,
         ses_started_at_millis = None\<rparr> (rt_sessions rt)\<rparr>)"

definition AgentRuntime_session :: "AgentRuntime \<Rightarrow> uuid \<Rightarrow> AgentSession option" where
  "AgentRuntime_session rt sid = bt_get (rt_sessions rt) sid"

text \<open>A write through \<open>session_mut\<close>.\<close>

definition with_session :: "uuid \<Rightarrow> (AgentSession \<Rightarrow> AgentSession) \<Rightarrow> AgentRuntime \<Rightarrow> AgentRuntime" where
  "with_session sid f rt = rt\<lparr>rt_sessions := bt_adjust sid f (rt_sessions rt)\<rparr>"

definition AgentRuntime_start :: "uuid \<Rightarrow> AgentRuntime \<Rightarrow> (AgentRuntimeError + unit) \<times> AgentRuntime" where
  "AgentRuntime_start sid rt =
     (case AgentRuntime_session rt sid of
        None \<Rightarrow> (Inl UnknownSession, rt)
      | Some s \<Rightarrow>
          if ses_state s \<in> {Created, SessionPaused}
          then (Inr (), with_session sid (\<lambda>s. s\<lparr>ses_state := SessionRunning,
                  ses_started_at_millis := (case ses_started_at_millis s of
                     None \<Rightarrow> Some (rt_now_millis rt) | Some t \<Rightarrow> Some t)\<rparr>) rt)
          else (Inl (InvalidState (ses_state s)), rt))"

definition AgentRuntime_pause :: "uuid \<Rightarrow> AgentRuntime \<Rightarrow> (AgentRuntimeError + unit) \<times> AgentRuntime" where
  "AgentRuntime_pause sid rt =
     (case AgentRuntime_session rt sid of
        None \<Rightarrow> (Inl UnknownSession, rt)
      | Some s \<Rightarrow>
          if ses_state s \<noteq> SessionRunning then (Inl (InvalidState (ses_state s)), rt)
          else (Inr (), with_session sid (\<lambda>s. s\<lparr>ses_state := SessionPaused\<rparr>) rt))"

definition AgentRuntime_cancel :: "uuid \<Rightarrow> AgentRuntime \<Rightarrow> (AgentRuntimeError + unit) \<times> AgentRuntime" where
  "AgentRuntime_cancel sid rt =
     (case AgentRuntime_session rt sid of
        None \<Rightarrow> (Inl UnknownSession, rt)
      | Some s \<Rightarrow>
          if ses_state s \<in> {Cancelled, Exited} then (Inl (InvalidState (ses_state s)), rt)
          else (Inr (), with_session sid (\<lambda>s. s\<lparr>ses_state := Cancelled\<rparr>) rt))"

definition out_of_time :: "u64 \<Rightarrow> AgentSession \<Rightarrow> bool" where
  "out_of_time now s =
     (case ses_started_at_millis s of
        None \<Rightarrow> False
      | Some started \<Rightarrow> al_max_runtime_millis (ses_limits s) \<le> saturating_sub now started)"

definition AgentRuntime_require_running ::
    "uuid \<Rightarrow> AgentRuntime \<Rightarrow> (AgentRuntimeError + unit) \<times> AgentRuntime" where
  "AgentRuntime_require_running sid rt =
     (case AgentRuntime_session rt sid of
        None \<Rightarrow> (Inl UnknownSession, rt)
      | Some s \<Rightarrow>
          if ses_state s \<noteq> SessionRunning then (Inl (InvalidState (ses_state s)), rt)
          else if out_of_time (rt_now_millis rt) s
          then (Inl RuntimeExceeded, with_session sid (\<lambda>s. s\<lparr>ses_state := Cancelled\<rparr>) rt)
          else (Inr (), rt))"

text \<open>The operations below begin with \<open>self.require_running(id)?\<close>.\<close>

definition when_running ::
    "uuid \<Rightarrow> (AgentSession \<Rightarrow> AgentRuntime \<Rightarrow> (AgentRuntimeError + 'a) \<times> AgentRuntime)
     \<Rightarrow> AgentRuntime \<Rightarrow> (AgentRuntimeError + 'a) \<times> AgentRuntime" where
  "when_running sid body rt =
     (case AgentRuntime_require_running sid rt of
        (Inl e, rt') \<Rightarrow> (Inl e, rt')
      | (Inr _, rt') \<Rightarrow>
          (case AgentRuntime_session rt' sid of
             None \<Rightarrow> (Inl UnknownSession, rt')
           | Some s \<Rightarrow> body s rt'))"

definition AgentRuntime_consume_action ::
    "uuid \<Rightarrow> Capability \<Rightarrow> AgentRuntime \<Rightarrow> (AgentRuntimeError + unit) \<times> AgentRuntime" where
  "AgentRuntime_consume_action sid capability rt =
     when_running sid (\<lambda>s rt.
       if capability \<notin> ses_capabilities s \<or> \<not> SandboxPolicy_allows (rt_policy rt) capability
       then (Inl (CapabilityDenied capability), rt)
       else if ses_actions_used s \<ge> al_max_actions (ses_limits s)
       then (Inl (QuotaExceeded ''actions''), rt)
       else (Inr (), with_session sid (\<lambda>s. s\<lparr>ses_actions_used := ses_actions_used s + 1\<rparr>) rt)) rt"

definition AgentRuntime_record_event ::
    "uuid \<Rightarrow> AgentRuntime \<Rightarrow> (AgentRuntimeError + unit) \<times> AgentRuntime" where
  "AgentRuntime_record_event sid rt =
     when_running sid (\<lambda>s rt.
       if ses_events_used s \<ge> al_max_events (ses_limits s)
       then (Inl (QuotaExceeded ''events''), rt)
       else (Inr (), with_session sid (\<lambda>s. s\<lparr>ses_events_used := ses_events_used s + 1\<rparr>) rt)) rt"

definition AgentRuntime_capture_page_data ::
    "uuid \<Rightarrow> string \<Rightarrow> string \<Rightarrow> AgentRuntime \<Rightarrow> (AgentRuntimeError + UntrustedPageData) \<times> AgentRuntime" where
  "AgentRuntime_capture_page_data sid txt source rt =
     when_running sid (\<lambda>s rt.
       let n = of_nat (length txt) :: u64 in
       if saturating_add (ses_output_bytes s) n > al_max_output_bytes (ses_limits s)
       then (Inl (QuotaExceeded ''output bytes''), rt)
       else (Inr \<lparr>upd_text = txt, upd_source = source\<rparr>,
             with_session sid (\<lambda>s. s\<lparr>ses_output_bytes := ses_output_bytes s + n\<rparr>) rt)) rt"

definition AgentRuntime_evaluate_page_script ::
    "uuid \<Rightarrow> string \<Rightarrow> AgentRuntime \<Rightarrow> (AgentRuntimeError + unit) \<times> AgentRuntime" where
  "AgentRuntime_evaluate_page_script sid script rt = AgentRuntime_consume_action sid ExecutePageScript rt"

definition AgentRuntime_query_page ::
    "uuid \<Rightarrow> AgentRuntime \<Rightarrow> (AgentRuntimeError + unit) \<times> AgentRuntime" where
  "AgentRuntime_query_page sid rt = AgentRuntime_consume_action sid Render rt"

definition takeover_authorizes :: "TakeoverManager \<Rightarrow> uuid option \<Rightarrow> u64 \<Rightarrow> bool" where
  "takeover_authorizes takeovers takeover_id now =
     (case takeover_id of
        None \<Rightarrow> False
      | Some tid \<Rightarrow>
          (case TakeoverManager_session takeovers tid of
             None \<Rightarrow> False
           | Some s \<Rightarrow> tk_owner s = Human \<and> tk_state s = Active \<and> now < tk_expires_at_tick s))"

definition AgentRuntime_attempt_solve_challenge ::
    "(uuid \<Rightarrow> string) \<Rightarrow> uuid \<Rightarrow> string \<Rightarrow> uuid option \<Rightarrow> TakeoverManager \<Rightarrow> u64
     \<Rightarrow> AgentRuntime \<Rightarrow> (AgentRuntimeError + SolveAuditEvent) \<times> AgentRuntime" where
  "AgentRuntime_attempt_solve_challenge dbg sid provider takeover_id takeovers now rt =
     when_running sid (\<lambda>s rt.
       let policy_allows = SandboxPolicy_allows (rt_policy rt) SolveChallenge in
       if SolveChallenge \<notin> ses_capabilities s \<or> \<not> policy_allows
       then (Inl (CapabilityDenied SolveChallenge), rt)
       else
         let takeover_ok = takeover_authorizes takeovers takeover_id now;
             credential_ok = CredentialSolve \<in> ses_capabilities s;
             unattended_ok = policy_allows \<and> pol_allow_unattended_solve (rt_policy rt)
         in if \<not> takeover_ok \<and> \<not> credential_ok \<and> \<not> unattended_ok
            then (Inl (CapabilityDenied SolveChallenge), rt)
            else (Inr \<lparr>sae_agent_id = dbg sid, sae_provider = provider,
                       sae_capability_used = (if credential_ok then ''CredentialSolve''
                         else if takeover_ok then ''SolveChallenge''
                         else ''SolveChallenge+Unattended''),
                       sae_takeover_id = map_option dbg takeover_id,
                       sae_observed_at_tick = now, sae_page_id = None, sae_target_node_id = None\<rparr>, rt)) rt"

definition AgentRuntime_attempt_challenge_click ::
    "(uuid \<Rightarrow> string) \<Rightarrow> uuid \<Rightarrow> u64 \<Rightarrow> string \<Rightarrow> string option \<Rightarrow> uuid option \<Rightarrow> TakeoverManager \<Rightarrow> u64
     \<Rightarrow> AgentRuntime \<Rightarrow> (AgentRuntimeError + SolveAuditEvent) \<times> AgentRuntime" where
  "AgentRuntime_attempt_challenge_click dbg sid page_id provider target_node_id takeover_id takeovers now rt =
     (case AgentRuntime_attempt_solve_challenge dbg sid provider takeover_id takeovers now rt of
        (Inl e, rt') \<Rightarrow> (Inl e, rt')
      | (Inr ev, rt') \<Rightarrow> (Inr (ev\<lparr>sae_page_id := Some page_id, sae_target_node_id := target_node_id\<rparr>), rt'))"

text \<open>\<open>generate\<close> is \<open>generate_human_trajectory\<close> of the input crate.\<close>

definition AgentRuntime_attempt_challenge_click_with_trajectory ::
    "('p \<Rightarrow> 'p \<Rightarrow> 'opt \<Rightarrow> 'traj) \<Rightarrow> (uuid \<Rightarrow> string) \<Rightarrow> uuid \<Rightarrow> u64 \<Rightarrow> string option \<Rightarrow> string
     \<Rightarrow> 'p \<Rightarrow> 'p \<Rightarrow> uuid option \<Rightarrow> TakeoverManager \<Rightarrow> u64 \<Rightarrow> 'opt
     \<Rightarrow> AgentRuntime \<Rightarrow> (AgentRuntimeError + SolveAuditEvent \<times> 'traj) \<times> AgentRuntime" where
  "AgentRuntime_attempt_challenge_click_with_trajectory generate dbg sid page_id target_node_id provider
     start_point end_point takeover_id takeovers now options rt =
     (case AgentRuntime_attempt_solve_challenge dbg sid provider takeover_id takeovers now rt of
        (Inl e, rt') \<Rightarrow> (Inl e, rt')
      | (Inr ev, rt') \<Rightarrow>
          (Inr (ev\<lparr>sae_page_id := Some page_id, sae_target_node_id := target_node_id\<rparr>,
                generate start_point end_point options), rt'))"

definition AgentRuntime_advance_time :: "u64 \<Rightarrow> AgentRuntime \<Rightarrow> AgentRuntime" where
  "AgentRuntime_advance_time elapsed rt =
     (let now = saturating_add (rt_now_millis rt) elapsed;
          expired = map ses_id [s \<leftarrow> bt_values (rt_sessions rt).
            ses_state s = SessionRunning \<and> out_of_time now s]
      in fold (\<lambda>sid. with_session sid (\<lambda>s. s\<lparr>ses_state := Cancelled\<rparr>)) expired
           (rt\<lparr>rt_now_millis := now\<rparr>))"

subsection \<open>The guard\<close>

lemma with_session_simps [simp]:
  "rt_policy (with_session sid f rt) = rt_policy rt"
  "rt_now_millis (with_session sid f rt) = rt_now_millis rt"
  "AgentRuntime_session (with_session sid f rt) j =
     (if j = sid then map_option f (AgentRuntime_session rt j) else AgentRuntime_session rt j)"
  by (simp_all add: with_session_def AgentRuntime_session_def)

definition session_live :: "AgentRuntime \<Rightarrow> uuid \<Rightarrow> AgentSession \<Rightarrow> bool" where
  "session_live rt sid s \<longleftrightarrow>
     AgentRuntime_session rt sid = Some s \<and> ses_state s = SessionRunning \<and> \<not> out_of_time (rt_now_millis rt) s"

lemma when_running_live: "session_live rt sid s \<Longrightarrow> when_running sid body rt = body s rt"
  by (simp add: when_running_def AgentRuntime_require_running_def session_live_def)

lemma when_running_cases:
  obtains (live) s where "session_live rt sid s" "when_running sid body rt = body s rt"
    | (unknown) "AgentRuntime_session rt sid = None" "when_running sid body rt = (Inl UnknownSession, rt)"
    | (stopped) s where "AgentRuntime_session rt sid = Some s" "ses_state s \<noteq> SessionRunning"
        "when_running sid body rt = (Inl (InvalidState (ses_state s)), rt)"
    | (late) s where "AgentRuntime_session rt sid = Some s" "ses_state s = SessionRunning"
        "out_of_time (rt_now_millis rt) s"
        "when_running sid body rt =
           (Inl RuntimeExceeded, with_session sid (\<lambda>s. s\<lparr>ses_state := Cancelled\<rparr>) rt)"
proof (cases "AgentRuntime_session rt sid")
  case None
  then show ?thesis by (intro unknown) (simp_all add: when_running_def AgentRuntime_require_running_def)
next
  case (Some s)
  show ?thesis
  proof (cases "ses_state s = SessionRunning")
    case False
    with Some show ?thesis
      by (intro stopped [of s]) (simp_all add: when_running_def AgentRuntime_require_running_def)
  next
    case True
    show ?thesis
    proof (cases "out_of_time (rt_now_millis rt) s")
      case late: True
      with Some True show ?thesis
        by (intro that(4) [of s]) (simp_all add: when_running_def AgentRuntime_require_running_def)
    next
      case False
      with Some True have "session_live rt sid s" by (simp add: session_live_def)
      then show ?thesis by (intro live [of s]) (simp_all add: when_running_live)
    qed
  qed
qed

lemma when_running_ok:
  assumes "fst (when_running sid body rt) = Inr x"
  obtains s where "session_live rt sid s" "when_running sid body rt = body s rt"
  using assms by (cases rule: when_running_cases [where rt = rt and sid = sid and body = body]) auto

lemma when_running_not_live:
  "\<not> (\<exists>s. session_live rt sid s) \<Longrightarrow> isl (fst (when_running sid body rt))"
  by (cases rule: when_running_cases [where rt = rt and sid = sid and body = body]) auto

subsection \<open>Well-formed runtimes\<close>

definition within_limits :: "AgentSession \<Rightarrow> bool" where
  "within_limits s \<longleftrightarrow>
     ses_actions_used s \<le> al_max_actions (ses_limits s)
     \<and> ses_events_used s \<le> al_max_events (ses_limits s)
     \<and> ses_output_bytes s \<le> al_max_output_bytes (ses_limits s)
     \<and> (ses_state s \<in> {SessionRunning, SessionPaused} \<longrightarrow> ses_started_at_millis s \<noteq> None)"

definition rt_ok :: "AgentRuntime \<Rightarrow> bool" where
  "rt_ok rt \<longleftrightarrow> bt_ok (rt_sessions rt)
     \<and> (\<forall>k s. AgentRuntime_session rt k = Some s \<longrightarrow> ses_id s = k \<and> within_limits s)"

lemma rt_okD:
  assumes "rt_ok rt"
  shows "bt_ok (rt_sessions rt)"
    and "AgentRuntime_session rt k = Some s \<Longrightarrow> ses_id s = k"
    and "AgentRuntime_session rt k = Some s \<Longrightarrow> within_limits s"
  using assms by (simp_all add: rt_ok_def)

lemma rt_ok_new [simp]: "rt_ok (AgentRuntime_new policy)"
  by (simp add: rt_ok_def AgentRuntime_new_def AgentRuntime_session_def)

lemma rt_ok_with_session:
  assumes "rt_ok rt"
    and "\<And>s. AgentRuntime_session rt sid = Some s \<Longrightarrow> within_limits s \<Longrightarrow> ses_id (f s) = ses_id s \<and> within_limits (f s)"
  shows "rt_ok (with_session sid f rt)"
proof -
  have "bt_ok (rt_sessions (with_session sid f rt))"
    using rt_okD(1) [OF assms(1)] by (simp add: with_session_def)
  moreover have "ses_id s = k \<and> within_limits s" if "AgentRuntime_session (with_session sid f rt) k = Some s" for k s
  proof (cases "k = sid")
    case True
    with that obtain s0 where s0: "AgentRuntime_session rt sid = Some s0" "s = f s0" by auto
    with assms(2) [OF s0(1) rt_okD(3) [OF assms(1) s0(1)]] rt_okD(2) [OF assms(1) s0(1)] True
    show ?thesis by simp
  next
    case False
    with that rt_okD(2,3) [OF assms(1), of k s] show ?thesis by simp
  qed
  ultimately show ?thesis by (simp add: rt_ok_def)
qed

lemma within_limits_Cancelled: "within_limits s \<Longrightarrow> within_limits (s\<lparr>ses_state := Cancelled\<rparr>)"
  by (simp add: within_limits_def)

lemma rt_ok_cancelled:
  "rt_ok rt \<Longrightarrow> rt_ok (with_session sid (\<lambda>s. s\<lparr>ses_state := Cancelled\<rparr>) rt)"
  by (rule rt_ok_with_session) (simp_all add: within_limits_Cancelled)

lemma rt_ok_when_running:
  assumes "rt_ok rt" "\<And>s. session_live rt sid s \<Longrightarrow> rt_ok (snd (body s rt))"
  shows "rt_ok (snd (when_running sid body rt))"
  by (cases rule: when_running_cases [where rt = rt and sid = sid and body = body])
     (simp_all add: assms rt_ok_cancelled)

lemma rt_ok_open [keeps]: "rt_ok rt \<Longrightarrow> rt_ok (snd (AgentRuntime_open sid caps limits rt))"
  by (auto simp: rt_ok_def AgentRuntime_open_def AgentRuntime_session_def within_limits_def)

lemma rt_ok_start [keeps]: "rt_ok rt \<Longrightarrow> rt_ok (snd (AgentRuntime_start sid rt))"
  by (auto simp: AgentRuntime_start_def within_limits_def intro!: rt_ok_with_session split: option.split)

lemma rt_ok_pause [keeps]: "rt_ok rt \<Longrightarrow> rt_ok (snd (AgentRuntime_pause sid rt))"
  by (auto simp: AgentRuntime_pause_def within_limits_def intro!: rt_ok_with_session split: option.split)

lemma rt_ok_cancel [keeps]: "rt_ok rt \<Longrightarrow> rt_ok (snd (AgentRuntime_cancel sid rt))"
  by (auto simp: AgentRuntime_cancel_def intro!: rt_ok_cancelled split: option.split)

lemma rt_ok_consume_action [keeps]: "rt_ok rt \<Longrightarrow> rt_ok (snd (AgentRuntime_consume_action sid c rt))"
  unfolding AgentRuntime_consume_action_def
  by (rule rt_ok_when_running)
     (auto simp: session_live_def within_limits_def not_le intro!: rt_ok_with_session word_succ_le_bound)

lemma rt_ok_record_event [keeps]: "rt_ok rt \<Longrightarrow> rt_ok (snd (AgentRuntime_record_event sid rt))"
  unfolding AgentRuntime_record_event_def
  by (rule rt_ok_when_running)
     (auto simp: session_live_def within_limits_def not_le intro!: rt_ok_with_session word_succ_le_bound)

text \<open>
  The sum is taken with saturation in the guard and with plain addition in the update. They
  differ only when the limit is the largest \<open>u64\<close>, where every value is within it.
\<close>

lemma saturating_guard:
  fixes a b m :: "'a::len word"
  assumes "saturating_add a b \<le> m" shows "a + b \<le> m"
proof (cases "unat a + unat b < 2 ^ LENGTH('a)")
  case True
  with assms show ?thesis by (simp add: word_le_nat_alt unat_saturating_add unat_word_ariths min_def split: if_splits)
next
  case False
  then have "unat (saturating_add a b) = 2 ^ LENGTH('a) - 1" by (simp add: unat_saturating_add)
  with assms have "2 ^ LENGTH('a) - 1 \<le> unat m" by (simp add: word_le_nat_alt)
  moreover have "unat (a + b) < 2 ^ LENGTH('a)" by simp
  ultimately show ?thesis unfolding word_le_nat_alt by linarith
qed

lemma rt_ok_output:
  assumes "rt_ok rt" "AgentRuntime_session rt sid = Some s"
    and "\<not> saturating_add (ses_output_bytes s) n > al_max_output_bytes (ses_limits s)"
  shows "rt_ok (with_session sid (\<lambda>s. s\<lparr>ses_output_bytes := ses_output_bytes s + n\<rparr>) rt)"
  using assms
  by (intro rt_ok_with_session) (auto simp: within_limits_def not_less intro: saturating_guard)

lemma rt_ok_capture_page_data [keeps]:
  "rt_ok rt \<Longrightarrow> rt_ok (snd (AgentRuntime_capture_page_data sid txt source rt))"
  unfolding AgentRuntime_capture_page_data_def
  by (rule rt_ok_when_running) (auto simp: session_live_def Let_def rt_ok_output)

lemma rt_ok_attempt_solve_challenge [keeps]:
  "rt_ok rt \<Longrightarrow> rt_ok (snd (AgentRuntime_attempt_solve_challenge dbg sid p t tm now rt))"
  unfolding AgentRuntime_attempt_solve_challenge_def
  by (rule rt_ok_when_running) (auto simp: Let_def)

lemma fold_cancelled_session:
  "AgentRuntime_session (fold (\<lambda>sid. with_session sid (\<lambda>s. s\<lparr>ses_state := Cancelled\<rparr>)) ids rt) k =
     (if k \<in> set ids then map_option (\<lambda>s. s\<lparr>ses_state := Cancelled\<rparr>) (AgentRuntime_session rt k)
      else AgentRuntime_session rt k)"
  by (induction ids arbitrary: rt) (auto simp: option.map_comp comp_def)

lemma fold_cancelled_ok:
  "rt_ok rt \<Longrightarrow> rt_ok (fold (\<lambda>sid. with_session sid (\<lambda>s. s\<lparr>ses_state := Cancelled\<rparr>)) ids rt)"
  by (induction ids arbitrary: rt) (auto intro: rt_ok_cancelled)

lemma rt_ok_now [simp]: "rt_ok (rt\<lparr>rt_now_millis := n\<rparr>) = rt_ok rt"
  by (simp add: rt_ok_def AgentRuntime_session_def)

lemma session_now [simp]: "AgentRuntime_session (rt\<lparr>rt_now_millis := n\<rparr>) k = AgentRuntime_session rt k"
  by (simp add: AgentRuntime_session_def)

lemma rt_ok_advance_time [keeps]: "rt_ok rt \<Longrightarrow> rt_ok (AgentRuntime_advance_time e rt)"
  by (simp add: AgentRuntime_advance_time_def Let_def fold_cancelled_ok)

lemma advance_time_now:
  "rt_now_millis (AgentRuntime_advance_time e rt) = saturating_add (rt_now_millis rt) e"
proof -
  have "rt_now_millis (fold (\<lambda>sid. with_session sid f) ids r) = rt_now_millis r" for f ids r
    by (induction ids arbitrary: r) simp_all
  then show ?thesis by (simp add: AgentRuntime_advance_time_def Let_def)
qed

lemma advance_time_session:
  assumes "rt_ok rt"
  shows "AgentRuntime_session (AgentRuntime_advance_time e rt) k =
     map_option (\<lambda>s. if ses_state s = SessionRunning \<and> out_of_time (saturating_add (rt_now_millis rt) e) s
                      then s\<lparr>ses_state := Cancelled\<rparr> else s) (AgentRuntime_session rt k)"
proof -
  let ?P = "\<lambda>s. ses_state s = SessionRunning \<and> out_of_time (saturating_add (rt_now_millis rt) e) s"
  have "k \<in> set (map ses_id [s \<leftarrow> bt_values (rt_sessions rt). ?P s])
      \<longleftrightarrow> (\<exists>s. AgentRuntime_session rt k = Some s \<and> ?P s)" (is "?L = ?R")
  proof
    assume ?L
    then obtain j s where "(j, s) \<in> set (rt_sessions rt)" "?P s" "ses_id s = k" by auto
    moreover from this have "AgentRuntime_session rt j = Some s"
      using rt_okD(1) [OF assms] by (simp add: AgentRuntime_session_def bt_in_get)
    ultimately show ?R using rt_okD(2) [OF assms] by metis
  next
    assume ?R
    then obtain s where s: "AgentRuntime_session rt k = Some s" "?P s" by blast
    then have "(k, s) \<in> set (rt_sessions rt)" by (auto simp: AgentRuntime_session_def dest: bt_get_Some_in)
    moreover have "ses_id s = k" by (rule rt_okD(2) [OF assms s(1)])
    ultimately show ?L using s(2) by force
  qed
  then show ?thesis
    by (cases "AgentRuntime_session rt k")
       (auto simp: AgentRuntime_advance_time_def Let_def fold_cancelled_session)
qed

subsection \<open>What one operation does to one session\<close>

text \<open>
  \<open>evolves n s s'\<close>: the session keeps its identity, capabilities and limits, \<open>n\<close> actions are
  charged, its start time once set stays, and once it has ended it does not change at all.
\<close>

definition session_ended :: "AgentSession \<Rightarrow> bool" where
  "session_ended s \<longleftrightarrow> ses_state s \<in> {Cancelled, Exited}"

definition evolves :: "nat \<Rightarrow> AgentSession \<Rightarrow> AgentSession \<Rightarrow> bool" where
  "evolves n s s' \<longleftrightarrow>
     ses_id s' = ses_id s \<and> ses_capabilities s' = ses_capabilities s \<and> ses_limits s' = ses_limits s
     \<and> unat (ses_actions_used s') = unat (ses_actions_used s) + n
     \<and> (ses_started_at_millis s \<noteq> None \<longrightarrow> ses_started_at_millis s' = ses_started_at_millis s)
     \<and> (session_ended s \<longrightarrow> s' = s)"

definition evolves_at :: "nat \<Rightarrow> uuid \<Rightarrow> AgentRuntime \<Rightarrow> AgentRuntime \<Rightarrow> bool" where
  "evolves_at n k rt rt' \<longleftrightarrow>
     (\<forall>s. AgentRuntime_session rt k = Some s \<longrightarrow>
        (\<exists>s'. AgentRuntime_session rt' k = Some s' \<and> evolves n s s'))"

lemma evolves_refl [simp]: "evolves 0 s s"
  by (simp add: evolves_def)

lemma evolves_trans: "evolves m s t \<Longrightarrow> evolves n t u \<Longrightarrow> evolves (m + n) s u"
  by (auto simp: evolves_def session_ended_def)

lemma evolves_at_refl [simp]: "evolves_at 0 k rt rt"
  by (simp add: evolves_at_def)

lemma evolves_at_trans: "evolves_at m k a b \<Longrightarrow> evolves_at n k b c \<Longrightarrow> evolves_at (m + n) k a c"
  unfolding evolves_at_def by (blast intro: evolves_trans)

lemma evolves_at_with_session:
  assumes "\<And>s. AgentRuntime_session rt sid = Some s \<Longrightarrow> evolves n s (f s)" "k = sid"
  shows "evolves_at n k rt (with_session sid f rt)"
  using assms by (auto simp: evolves_at_def)

lemma evolves_at_other: "k \<noteq> sid \<Longrightarrow> evolves_at 0 k rt (with_session sid f rt)"
  by (auto simp: evolves_at_def)

lemma evolves_at_with_session0:
  assumes "\<And>s. AgentRuntime_session rt sid = Some s \<Longrightarrow> evolves 0 s (f s)"
  shows "evolves_at 0 k rt (with_session sid f rt)"
  using assms evolves_at_other evolves_at_with_session by (cases "k = sid") blast+

lemma evolves_at_when_running:
  assumes "\<And>s. session_live rt sid s \<Longrightarrow> evolves_at 0 k rt (snd (body s rt))"
  shows "evolves_at 0 k rt (snd (when_running sid body rt))"
  by (cases rule: when_running_cases [where rt = rt and sid = sid and body = body])
     (auto simp: assms evolves_def session_ended_def intro!: evolves_at_with_session0)

lemma evolves_start [frame]: "evolves_at 0 k rt (snd (AgentRuntime_start sid rt))"
  by (auto simp: AgentRuntime_start_def evolves_def session_ended_def
      intro!: evolves_at_with_session0 split: option.split)

lemma evolves_pause [frame]: "evolves_at 0 k rt (snd (AgentRuntime_pause sid rt))"
  by (auto simp: AgentRuntime_pause_def evolves_def session_ended_def
      intro!: evolves_at_with_session0 split: option.split)

lemma evolves_cancel [frame]: "evolves_at 0 k rt (snd (AgentRuntime_cancel sid rt))"
  by (auto simp: AgentRuntime_cancel_def evolves_def session_ended_def
      intro!: evolves_at_with_session0 split: option.split)

lemma evolves_record_event [frame]: "evolves_at 0 k rt (snd (AgentRuntime_record_event sid rt))"
  unfolding AgentRuntime_record_event_def
  by (rule evolves_at_when_running)
     (auto simp: session_live_def evolves_def session_ended_def intro!: evolves_at_with_session0)

lemma evolves_output:
  assumes "session_live rt sid s"
  shows "evolves_at 0 k rt (with_session sid (\<lambda>s. s\<lparr>ses_output_bytes := ses_output_bytes s + n\<rparr>) rt)"
  using assms
  by (intro evolves_at_with_session0) (auto simp: session_live_def evolves_def session_ended_def)

lemma evolves_capture_page_data [frame]:
  "evolves_at 0 k rt (snd (AgentRuntime_capture_page_data sid txt source rt))"
  unfolding AgentRuntime_capture_page_data_def
  by (rule evolves_at_when_running) (simp add: Let_def evolves_output)

lemma evolves_attempt_solve_challenge [frame]:
  "evolves_at 0 k rt (snd (AgentRuntime_attempt_solve_challenge dbg sid p t tm now rt))"
  unfolding AgentRuntime_attempt_solve_challenge_def
  by (rule evolves_at_when_running) (simp add: Let_def)

lemma evolves_advance_time [frame]: "rt_ok rt \<Longrightarrow> evolves_at 0 k rt (AgentRuntime_advance_time e rt)"
  by (auto simp: evolves_at_def advance_time_session evolves_def session_ended_def)

lemma evolves_open [frame]: "k \<noteq> sid \<Longrightarrow> evolves_at 0 k rt (snd (AgentRuntime_open sid caps limits rt))"
  by (auto simp: evolves_at_def AgentRuntime_open_def AgentRuntime_session_def)

lemma consume_action_live:
  assumes "session_live rt sid s"
  shows "AgentRuntime_consume_action sid c rt =
    (if c \<notin> ses_capabilities s \<or> \<not> SandboxPolicy_allows (rt_policy rt) c
     then (Inl (CapabilityDenied c), rt)
     else if ses_actions_used s \<ge> al_max_actions (ses_limits s)
     then (Inl (QuotaExceeded ''actions''), rt)
     else (Inr (), with_session sid (\<lambda>s. s\<lparr>ses_actions_used := ses_actions_used s + 1\<rparr>) rt))"
  unfolding AgentRuntime_consume_action_def when_running_live [OF assms] by (rule refl)

text \<open>A charge is an action that was allowed; refused ones cost nothing.\<close>

lemma evolves_consume_action:
  "evolves_at (if k = sid \<and> isl (fst (AgentRuntime_consume_action sid c rt)) = False then 1 else 0) k rt
     (snd (AgentRuntime_consume_action sid c rt))"
proof (cases "\<exists>s. session_live rt sid s")
  case True
  then obtain s where live: "session_live rt sid s" by blast
  have "evolves 1 s (s\<lparr>ses_actions_used := ses_actions_used s + 1\<rparr>)"
    if "\<not> ses_actions_used s \<ge> al_max_actions (ses_limits s)"
    using that live unat_add_one [of "ses_actions_used s" "al_max_actions (ses_limits s)"]
    by (simp add: evolves_def session_ended_def session_live_def not_le)
  with live show ?thesis
    by (auto simp: consume_action_live session_live_def intro!: evolves_at_with_session evolves_at_other)
next
  case False
  then have "isl (fst (AgentRuntime_consume_action sid c rt))"
    unfolding AgentRuntime_consume_action_def by (rule when_running_not_live)
  moreover have "evolves_at 0 k rt (snd (AgentRuntime_consume_action sid c rt))"
    unfolding AgentRuntime_consume_action_def using False by (intro evolves_at_when_running) blast
  ultimately show ?thesis by simp
qed

end
