(* ===== verification/Text.thy ===== *)
theory Text
  imports Prelude
begin

section \<open>Text: the string functions of the standard library the sources use\<close>

text \<open>
  A Rust string is its UTF-8 bytes, so these functions are functions on byte lists: trimming of
  Unicode white space, splitting and joining, letter case, UTF-8 validation, integers in and out
  of decimal. Each states what the standard library documents.
\<close>

subsection \<open>Trimming\<close>

text \<open>
  \<open>str::trim\<close> removes Unicode white space at both ends. A string is its UTF-8 bytes, so a white
  space character is one of the byte sequences \<open>white_space\<close>.
\<close>

definition byte :: "nat \<Rightarrow> char" where
  "byte n = char_of n"

definition white_space :: "string list" where
  "white_space =
     map (\<lambda>n. [byte n]) [9, 10, 11, 12, 13, 32]
     @ [[byte 194, byte 133], [byte 194, byte 160], [byte 225, byte 154, byte 128]]
     @ map (\<lambda>n. [byte 226, byte 128, byte n]) ([128 ..< 139] @ [168, 169, 175])
     @ [[byte 226, byte 129, byte 159], [byte 227, byte 128, byte 128]]"

function strip_any :: "string list \<Rightarrow> string \<Rightarrow> string" where
  "strip_any ws s =
     (case find (\<lambda>w. w \<noteq> [] \<and> prefix w s) ws of
        None \<Rightarrow> s
      | Some w \<Rightarrow> strip_any ws (drop (length w) s))"
  by auto

termination
proof (relation "measure (\<lambda>(ws, s). length s)")
  show "((ws, drop (length w) s), (ws, s)) \<in> measure (\<lambda>(ws, s). length s)"
    if "find (\<lambda>w. w \<noteq> [] \<and> prefix w s) ws = Some w" for ws s w
    using that by (auto simp: find_Some_iff prefix_def)
qed simp

declare strip_any.simps [simp del]

definition str_trim :: "string \<Rightarrow> string" where
  "str_trim s = rev (strip_any (map rev white_space) (rev (strip_any white_space s)))"

lemma strip_any_suffix: "suffix (strip_any ws s) s"
proof (induction ws s rule: strip_any.induct)
  case (1 ws s)
  show ?case
  proof (cases "find (\<lambda>w. w \<noteq> [] \<and> prefix w s) ws")
    case None
    then show ?thesis by (simp add: strip_any.simps [of ws s])
  next
    case (Some w)
    have "suffix (drop (length w) s) s" by (rule suffix_drop)
    with 1 [OF Some] have "suffix (strip_any ws (drop (length w) s)) s"
      by (rule suffix_order.trans)
    with Some show ?thesis by (simp add: strip_any.simps [of ws s])
  qed
qed

lemma strip_any_stripped:
  "w \<in> set ws \<Longrightarrow> w \<noteq> [] \<Longrightarrow> \<not> prefix w (strip_any ws s)"
proof (induction ws s rule: strip_any.induct)
  case (1 ws s)
  show ?case
  proof (cases "find (\<lambda>w. w \<noteq> [] \<and> prefix w s) ws")
    case None
    then have "strip_any ws s = s" by (simp add: strip_any.simps [of ws s])
    with None 1(2,3) show ?thesis by (auto simp: find_None_iff)
  next
    case (Some v)
    from 1(1) [OF Some 1(2,3)] Some show ?thesis by (simp add: strip_any.simps [of ws s])
  qed
qed

lemma str_trim_sublist: "sublist (str_trim s) s"
proof -
  have "prefix (str_trim s) (strip_any white_space s)"
    using strip_any_suffix [of "map rev white_space" "rev (strip_any white_space s)"]
    by (simp add: str_trim_def suffix_to_prefix)
  then show ?thesis
    by (meson prefix_imp_sublist strip_any_suffix sublist_order.order_trans suffix_imp_sublist)
qed

subsection \<open>Splitting and joining\<close>

fun split_on :: "char \<Rightarrow> string \<Rightarrow> string list" where
  "split_on c [] = [[]]"
| "split_on c (x # xs) =
     (if x = c then [] # split_on c xs
      else (case split_on c xs of [] \<Rightarrow> [[x]] | p # ps \<Rightarrow> (x # p) # ps))"

fun split_once :: "char \<Rightarrow> string \<Rightarrow> (string \<times> string) option" where
  "split_once c [] = None"
| "split_once c (x # xs) =
     (if x = c then Some ([], xs) else map_option (\<lambda>p. (x # fst p, snd p)) (split_once c xs))"

definition trim_start_matches :: "char \<Rightarrow> string \<Rightarrow> string" where
  "trim_start_matches c s = dropWhile (\<lambda>x. x = c) s"

definition trim_end_matches :: "char \<Rightarrow> string \<Rightarrow> string" where
  "trim_end_matches c s = rev (dropWhile (\<lambda>x. x = c) (rev s))"

definition ascii_digit :: "char \<Rightarrow> bool" where
  "ascii_digit c = (48 \<le> (of_char c :: nat) \<and> (of_char c :: nat) \<le> 57)"

definition digits_int :: "string \<Rightarrow> int" where
  "digits_int s = foldl (\<lambda>n c. 10 * n + (int (of_char c) - 48)) 0 s"

definition i64_min :: int where "i64_min = - (2 ^ 63)"
definition i64_max :: int where "i64_max = 2 ^ 63 - 1"

text \<open>\<open>str::parse::<i64>\<close>: an optional sign, at least one digit, and a value in range.\<close>

definition parse_i64 :: "string \<Rightarrow> int option" where
  "parse_i64 s =
     (let (negative, body) =
            (case s of
               c # r \<Rightarrow> if c = CHR ''-'' then (True, r) else if c = CHR ''+'' then (False, r) else (False, s)
             | [] \<Rightarrow> (False, []))
      in if body = [] \<or> \<not> list_all ascii_digit body then None
         else let n = (if negative then - digits_int body else digits_int body)
              in if i64_min \<le> n \<and> n \<le> i64_max then Some n else None)"

definition i64_saturating_add :: "int \<Rightarrow> int \<Rightarrow> int" where
  "i64_saturating_add a b = max i64_min (min i64_max (a + b))"

definition eq_ignore_ascii_case :: "string \<Rightarrow> string \<Rightarrow> bool" where
  "eq_ignore_ascii_case a b = (to_ascii_lowercase a = to_ascii_lowercase b)"

fun join :: "string \<Rightarrow> string list \<Rightarrow> string" where
  "join sep [] = []"
| "join sep [x] = x"
| "join sep (x # xs) = x @ sep @ join sep xs"

lemma split_on_nonempty [simp]: "split_on c s \<noteq> []"
  by (induction s) (auto split: list.split)

lemma split_on_append: "split_on c (a @ c # b) = split_on c a @ split_on c b"
  by (induction a) (auto split: list.split)

lemma split_on_no_sep: "c \<notin> set s \<Longrightarrow> split_on c s = [s]"
  by (induction s) auto

lemma split_on_parts: "p \<in> set (split_on c s) \<Longrightarrow> c \<notin> set p"
proof (induction s arbitrary: p)
  case (Cons x s)
  then show ?case by (cases "split_on c s") (auto split: if_splits)
qed simp

subsection \<open>Bytes\<close>

definition ascii_upper :: "char \<Rightarrow> char" where
  "ascii_upper c = (if CHR ''a'' \<le> c \<and> c \<le> CHR ''z'' then char_of (of_char c - (32 :: nat)) else c)"

definition to_ascii_uppercase :: "string \<Rightarrow> string" where
  "to_ascii_uppercase s = map ascii_upper s"

definition be_bytes :: "nat \<Rightarrow> nat \<Rightarrow> string" where
  "be_bytes k n = map (\<lambda>i. char_of (n div 256 ^ (k - 1 - i))) [0 ..< k]"

definition continuation :: "char \<Rightarrow> bool" where
  "continuation c = (128 \<le> (of_char c :: nat) \<and> (of_char c :: nat) < 192)"

definition in_range :: "nat \<Rightarrow> nat \<Rightarrow> char \<Rightarrow> bool" where
  "in_range lo hi c = (lo \<le> of_char c \<and> of_char c \<le> hi)"

text \<open>\<open>std::str::from_utf8\<close>: the well-formed byte sequences of the Unicode standard.\<close>

fun utf8_valid :: "string \<Rightarrow> bool" where
  "utf8_valid [] = True"
| "utf8_valid (a # s) =
     (if in_range 0 127 a then utf8_valid s
      else (case s of
          [] \<Rightarrow> False
        | b # t \<Rightarrow>
            if in_range 194 223 a then continuation b \<and> utf8_valid t
            else (case t of
                [] \<Rightarrow> False
              | c # v \<Rightarrow>
                  if in_range 224 239 a
                  then (if in_range 224 224 a then in_range 160 191 b
                        else if in_range 237 237 a then in_range 128 159 b else continuation b)
                       \<and> continuation c \<and> utf8_valid v
                  else (case v of
                      [] \<Rightarrow> False
                    | d # w \<Rightarrow>
                        in_range 240 244 a
                        \<and> (if in_range 240 240 a then in_range 144 191 b
                           else if in_range 244 244 a then in_range 128 143 b else continuation b)
                        \<and> continuation c \<and> continuation d \<and> utf8_valid w))))"

text \<open>
  \<open>char::is_control\<close> on UTF-8 bytes: U+0000 to U+001F, U+007F, and U+0080 to U+009F, which are the
  two-byte sequences C2 80 to C2 9F.
\<close>

fun has_control :: "string \<Rightarrow> bool" where
  "has_control [] = False"
| "has_control (c # cs) =
     (of_char c < (32 :: nat) \<or> of_char c = (127 :: nat)
      \<or> (of_char c = (194 :: nat) \<and> cs \<noteq> [] \<and> (128 :: nat) \<le> of_char (hd cs) \<and> of_char (hd cs) < (160 :: nat))
      \<or> has_control cs)"

text \<open>\<open>s.chars().take(n).collect()\<close>: a byte that does not continue a character starts one.\<close>

fun take_chars :: "nat \<Rightarrow> string \<Rightarrow> string" where
  "take_chars n [] = []"
| "take_chars n (c # cs) =
     (if continuation c then c # take_chars n cs
      else if n = 0 then [] else c # take_chars (n - 1) cs)"

subsection \<open>Words\<close>

text \<open>\<open>str::split_whitespace\<close>: \<open>word\<close> is what has been read of the current word.\<close>

lemma white_space_nonempty: "w \<in> set white_space \<Longrightarrow> w \<noteq> []"
  by (auto simp: white_space_def)

function split_ws :: "string \<Rightarrow> string \<Rightarrow> string list" where
  "split_ws word [] = (if word = [] then [] else [word])"
| "split_ws word (c # cs) =
     (case find (\<lambda>w. prefix w (c # cs)) white_space of
        Some w \<Rightarrow> (if word = [] then [] else [word]) @ split_ws [] (drop (length w) (c # cs))
      | None \<Rightarrow> split_ws (word @ [c]) cs)"
  by pat_completeness auto

termination
proof (relation "measure (\<lambda>(word, s). length s)", goal_cases)
  case (3 word c cs w)
  then have "w \<noteq> []" using white_space_nonempty by (auto simp: find_Some_iff)
  then show ?case by (cases w) auto
qed auto

definition split_whitespace :: "string \<Rightarrow> string list" where
  "split_whitespace s = split_ws [] s"

text \<open>No white space begins in \<open>w\<close> when \<open>rest\<close> follows it.\<close>

definition unbroken :: "string \<Rightarrow> string \<Rightarrow> bool" where
  "unbroken w rest \<longleftrightarrow> (\<forall>i < length w. \<forall>x \<in> set white_space. \<not> prefix x (drop i w @ rest))"

lemma unbroken_Nil [simp]: "unbroken [] rest"
  by (simp add: unbroken_def)

lemma unbroken_Cons: "unbroken (c # w) rest \<longleftrightarrow> (\<forall>x \<in> set white_space. \<not> prefix x (c # w @ rest)) \<and> unbroken w rest"
  unfolding unbroken_def by (auto simp: less_Suc_eq_0_disj)

lemma unbroken_snoc: "unbroken w (c # cs) \<Longrightarrow> \<forall>x \<in> set white_space. \<not> prefix x (c # cs) \<Longrightarrow> unbroken (w @ [c]) cs"
  by (induction w) (auto simp: unbroken_Cons)

lemma unbroken_alone: "unbroken w rest \<Longrightarrow> unbroken w []"
  unfolding unbroken_def by (metis append.right_neutral prefix_prefix)

lemma find_white_None: "find (\<lambda>w. prefix w s) white_space = None \<longleftrightarrow> (\<forall>x \<in> set white_space. \<not> prefix x s)"
  by (auto simp: find_None_iff)

lemma split_ws_words:
  "unbroken word s \<Longrightarrow> \<forall>w \<in> set (split_ws word s). w \<noteq> [] \<and> unbroken w []"
proof (induction word s rule: split_ws.induct)
  case (2 word c cs)
  show ?case
  proof (cases "find (\<lambda>w. prefix w (c # cs)) white_space")
    case None
    then have "unbroken (word @ [c]) cs" using unbroken_snoc [OF "2.prems"] by (simp add: find_white_None)
    then show ?thesis using "2.IH"(1) [OF None] None by simp
  next
    case (Some w)
    then show ?thesis using "2.IH"(2) [OF Some] unbroken_alone [OF "2.prems"] by auto
  qed
qed (auto intro: unbroken_alone)

lemma split_whitespace_words: "w \<in> set (split_whitespace s) \<Longrightarrow> w \<noteq> [] \<and> unbroken w []"
  using split_ws_words [of "[]" s] by (simp add: split_whitespace_def unbroken_def)

lemma white_space_with_blank: "x \<in> set white_space \<Longrightarrow> CHR '' '' \<in> set x \<Longrightarrow> x = '' ''"
proof -
  have "list_all (\<lambda>x. List.member x (CHR '' '') \<longrightarrow> x = '' '') white_space" by code_simp
  then show "x \<in> set white_space \<Longrightarrow> CHR '' '' \<in> set x \<Longrightarrow> x = '' ''" by (auto simp: list_all_iff)
qed

lemma blank_is_white: "'' '' \<in> set white_space"
proof -
  have "CHR '' '' = char_of (32 :: nat)" by code_simp
  then have "'' '' = [byte 32]" by (simp add: byte_def)
  then show ?thesis unfolding white_space_def by simp
qed

lemma unbroken_before_blank: "unbroken w [] \<Longrightarrow> unbroken w (CHR '' '' # rest)"
proof -
  assume w: "unbroken w []"
  have False if i: "i < length w" and x: "x \<in> set white_space" "prefix x (drop i w @ CHR '' '' # rest)" for i x
  proof (cases "prefix x (drop i w)")
    case True
    then show False using w i x(1) by (auto simp: unbroken_def)
  next
    case False
    then have long: "length (drop i w) < length x" and "prefix (drop i w @ '' '') x"
      using x(2) by (auto simp: prefix_append prefix_Cons)
    then have "CHR '' '' \<in> set x" by (auto simp: prefix_def)
    then show False using white_space_with_blank [OF x(1)] long i by simp
  qed
  then show ?thesis unfolding unbroken_def by blast
qed

lemma split_ws_unbroken: "unbroken w rest \<Longrightarrow> split_ws word (w @ rest) = split_ws (word @ w) rest"
proof (induction w arbitrary: word)
  case (Cons c w)
  then have "find (\<lambda>x. prefix x (c # w @ rest)) white_space = None" by (simp add: unbroken_Cons find_white_None)
  then show ?case using Cons by (simp add: unbroken_Cons)
qed simp

lemma split_ws_blank: "split_ws word (CHR '' '' # rest) = (if word = [] then [] else [word]) @ split_ws [] rest"
proof -
  obtain x where x: "find (\<lambda>x. prefix x (CHR '' '' # rest)) white_space = Some x"
    using blank_is_white by (cases "find (\<lambda>x. prefix x (CHR '' '' # rest)) white_space") (auto simp: find_white_None)
  then have "x \<in> set white_space" "prefix x (CHR '' '' # rest)" by (auto simp: find_Some_iff)
  then have "x = '' ''" using white_space_nonempty white_space_with_blank [of x] by (auto simp: prefix_Cons)
  then show ?thesis using x by simp
qed

text \<open>A printable ASCII character continues the word.\<close>

lemma split_ws_printable:
  assumes "(of_char c :: nat) \<in> {33..126}"
  shows "split_ws word (c # cs) = split_ws (word @ [c]) cs"
proof -
  have "\<not> prefix x (c # cs)" if "x \<in> set white_space" for x
    using assms that by (auto simp: white_space_def byte_def)
  then have "find (\<lambda>x. prefix x (c # cs)) white_space = None" by (simp add: find_white_None)
  then show ?thesis by simp
qed

lemma split_join:
  "\<forall>w \<in> set ws. w \<noteq> [] \<and> unbroken w [] \<Longrightarrow> split_whitespace (join '' '' ws) = ws"
proof (induction "'' ''" ws rule: join.induct)
  case 1
  then show ?case by (simp add: split_whitespace_def)
next
  case (2 w)
  then show ?case using split_ws_unbroken [of w "[]" "[]"] by (simp add: split_whitespace_def)
next
  case (3 w v ws)
  then have "unbroken w (CHR '' '' # join '' '' (v # ws))" by (intro unbroken_before_blank) simp
  then show ?case using 3 split_ws_unbroken [of w "CHR '' '' # join '' '' (v # ws)" "[]"]
    by (simp add: split_whitespace_def split_ws_blank del: split_ws.simps(2))
qed

text \<open>Joining the words of a text with single blanks gives a text with the same words.\<close>

lemma split_join_split: "split_whitespace (join '' '' (split_whitespace s)) = split_whitespace s"
  by (rule split_join) (use split_whitespace_words in blast)

subsection \<open>Decimal\<close>

fun decimal :: "nat \<Rightarrow> string" where
  "decimal n = (if n < 10 then [char_of (48 + n)] else decimal (n div 10) @ [char_of (48 + n mod 10)])"

declare decimal.simps [simp del]

definition digit :: "char \<Rightarrow> bool" where
  "digit c \<longleftrightarrow> CHR ''0'' \<le> c \<and> c \<le> CHR ''9''"

definition digits_value :: "string \<Rightarrow> nat" where
  "digits_value s = foldl (\<lambda>n c. 10 * n + (of_char c - 48)) 0 s"

lemma of_char_digit: "d < 10 \<Longrightarrow> (of_char (char_of (48 + d :: nat)) :: nat) = 48 + d"
  by simp

lemma digit_char: "d < 10 \<Longrightarrow> digit (char_of (48 + d :: nat))"
  by (simp add: digit_def less_eq_char_def)

lemma decimal_digits: "\<forall>c \<in> set (decimal n). digit c"
  by (induction n rule: decimal.induct) (subst decimal.simps, auto simp: digit_char)

lemma decimal_value: "digits_value (decimal n) = n"
proof (induction n rule: decimal.induct)
  case (1 n)
  show ?case
  proof (cases "n < 10")
    case True
    then show ?thesis by (subst decimal.simps) (simp add: digits_value_def)
  next
    case False
    with 1 have "digits_value (decimal (n div 10)) = n div 10" by simp
    with False show ?thesis by (subst decimal.simps) (simp add: digits_value_def)
  qed
qed

lemma decimal_length: "0 < k \<Longrightarrow> n < 10 ^ k \<Longrightarrow> length (decimal n) \<le> k"
proof (induction n arbitrary: k rule: decimal.induct)
  case (1 n)
  show ?case
  proof (cases "n < 10")
    case True
    with 1 show ?thesis by (subst decimal.simps) simp
  next
    case False
    then obtain j where k: "k = Suc j" "0 < j" using 1(2,3)
      by (metis One_nat_def Suc_lessI gr0_implies_Suc less_one neq0_conv power_one_right)
    then have "n div 10 < 10 ^ j" using 1(3) by (simp add: less_mult_imp_div_less mult.commute)
    with 1(1) [OF False k(2)] have "length (decimal (n div 10)) \<le> j" .
    with False k show ?thesis by (subst decimal.simps) simp
  qed
qed

end
