(* ===== verification/AgentScript.thy ===== *)
theory AgentScript
  imports AgentRuntime Text
begin

section \<open>Agent scripts, memory and page content (crates/agent-runtime)\<close>

text \<open>
  The rest of the agent-runtime crate: scripts that run on behalf of a session and are charged
  to it, the agent's memory, and the assessment of page content, which never carries authority.
  The last part runs the operations of the sessions and of the scripts together, in any order,
  and shows what the session accounting guarantees.
\<close>

datatype AuthorityDecision = DeniedUntrustedContent

record PageContentAuthority =
  pca_source :: string
  pca_decision :: AuthorityDecision
  pca_may_grant_capabilities :: bool
  pca_may_change_system_instructions :: bool
  pca_may_satisfy_confirmation :: bool

definition PageContentAuthority_evaluate :: "UntrustedPageData \<Rightarrow> PageContentAuthority" where
  "PageContentAuthority_evaluate data =
     \<lparr>pca_source = upd_source data, pca_decision = DeniedUntrustedContent,
      pca_may_grant_capabilities = False, pca_may_change_system_instructions = False,
      pca_may_satisfy_confirmation = False\<rparr>"

record ContentAssessment =
  ca_source :: string
  ca_suspicious :: bool
  ca_signals :: "string list"

definition assess_patterns :: "(string \<times> string) list" where
  "assess_patterns =
     [(''instruction_override'', ''ignore previous instructions''),
      (''authority_claim'', ''system message''),
      (''secret_request'', ''password''),
      (''secret_request'', ''api key''),
      (''confirmation_bypass'', ''do not ask for confirmation'')]"

definition UntrustedPageData_assess :: "UntrustedPageData \<Rightarrow> ContentAssessment" where
  "UntrustedPageData_assess data =
     (let lower = to_ascii_lowercase (upd_text data);
          signals = map fst [e \<leftarrow> assess_patterns. str_contains lower (snd e)]
      in \<lparr>ca_source = upd_source data, ca_suspicious = (signals \<noteq> []), ca_signals = signals\<rparr>)"

record MemoryFact =
  fact_key :: string
  fact_value :: string
  fact_source :: string
  fact_observed_at_tick :: u64

record AgentMemory =
  mem_facts :: "(string, MemoryFact) BTreeMap"

definition AgentMemory_remember :: "MemoryFact \<Rightarrow> AgentMemory \<Rightarrow> AgentMemory" where
  "AgentMemory_remember f m = m\<lparr>mem_facts := bt_insert (fact_key f) f (mem_facts m)\<rparr>"

definition AgentMemory_get :: "AgentMemory \<Rightarrow> string \<Rightarrow> MemoryFact option" where
  "AgentMemory_get m key = bt_get (mem_facts m) key"

definition AgentMemory_forget :: "string \<Rightarrow> AgentMemory \<Rightarrow> MemoryFact option \<times> AgentMemory" where
  "AgentMemory_forget key m = (bt_get (mem_facts m) key, m\<lparr>mem_facts := bt_remove key (mem_facts m)\<rparr>)"

definition AgentMemory_len :: "AgentMemory \<Rightarrow> nat" where
  "AgentMemory_len m = length (mem_facts m)"

record AgentScriptRequest =
  asr_source :: string
  asr_provenance_reference :: string
  asr_timeout_millis :: u64

record AgentScriptExecution =
  ase_id :: u64
  ase_session :: uuid
  ase_source_bytes :: u64
  ase_timeout_millis :: u64
  ase_provenance_reference :: string

record AgentScriptResult =
  asx_id :: u64
  asx_output :: string
  asx_provenance_reference :: string

record AgentScriptRuntime =
  scr_next_id :: u64
  scr_active :: "(u64, AgentScriptExecution) BTreeMap"

definition AgentScriptRuntime_default :: AgentScriptRuntime where
  "AgentScriptRuntime_default = \<lparr>scr_next_id = 0, scr_active = []\<rparr>"

datatype AgentScriptError =
    Runtime AgentRuntimeError
  | EmptySource
  | MissingProvenance
  | TimeoutExceeded
  | UnknownExecution

definition AgentScriptRuntime_start ::
    "uuid \<Rightarrow> AgentScriptRequest \<Rightarrow> AgentRuntime \<Rightarrow> AgentScriptRuntime
     \<Rightarrow> (AgentScriptError + u64) \<times> AgentRuntime \<times> AgentScriptRuntime" where
  "AgentScriptRuntime_start sid request rt scr =
     (if str_trim (asr_source request) = [] then (Inl EmptySource, rt, scr)
      else if str_trim (asr_provenance_reference request) = [] then (Inl MissingProvenance, rt, scr)
      else (case AgentRuntime_session rt sid of
        None \<Rightarrow> (Inl (Runtime UnknownSession), rt, scr)
      | Some s \<Rightarrow>
          let max_runtime = al_max_runtime_millis (ses_limits s) in
          if asr_timeout_millis request = 0 \<or> asr_timeout_millis request > max_runtime
          then (Inl TimeoutExceeded, rt, scr)
          else (case AgentRuntime_consume_action sid ExecuteAgentScript rt of
              (Inl e, rt') \<Rightarrow> (Inl (Runtime e), rt', scr)
            | (Inr _, rt') \<Rightarrow>
                let eid = saturating_add (scr_next_id scr) 1 in
                (Inr eid, rt',
                 \<lparr>scr_next_id = eid,
                  scr_active = bt_insert eid
                    \<lparr>ase_id = eid, ase_session = sid, ase_source_bytes = of_nat (length (asr_source request)),
                     ase_timeout_millis = asr_timeout_millis request,
                     ase_provenance_reference = asr_provenance_reference request\<rparr> (scr_active scr)\<rparr>))))"

definition AgentScriptRuntime_finish ::
    "uuid \<Rightarrow> u64 \<Rightarrow> string \<Rightarrow> AgentRuntime \<Rightarrow> AgentScriptRuntime
     \<Rightarrow> (AgentScriptError + AgentScriptResult) \<times> AgentRuntime \<times> AgentScriptRuntime" where
  "AgentScriptRuntime_finish sid eid output rt scr =
     (case AgentRuntime_require_running sid rt of
        (Inl e, rt') \<Rightarrow> (Inl (Runtime e), rt', scr)
      | (Inr _, rt') \<Rightarrow>
          (case bt_get (scr_active scr) eid of
             None \<Rightarrow> (Inl UnknownExecution, rt', scr)
           | Some execution \<Rightarrow>
               let scr1 = scr\<lparr>scr_active := bt_remove eid (scr_active scr)\<rparr>;
                   scr2 = scr1\<lparr>scr_active := bt_insert eid execution (scr_active scr1)\<rparr>
               in if ase_session execution \<noteq> sid then (Inl UnknownExecution, rt', scr2)
               else
                 let bytes = of_nat (length output) :: u64 in
                 (case AgentRuntime_session rt' sid of
                    None \<Rightarrow> (Inl (Runtime UnknownSession), rt', scr1)
                  | Some s \<Rightarrow>
                      if saturating_add (ses_output_bytes s) bytes > al_max_output_bytes (ses_limits s)
                      then (Inl (Runtime (QuotaExceeded ''output bytes'')), rt', scr2)
                      else (Inr \<lparr>asx_id = eid, asx_output = output,
                                 asx_provenance_reference = ase_provenance_reference execution\<rparr>,
                            with_session sid (\<lambda>s. s\<lparr>ses_output_bytes := ses_output_bytes s + bytes\<rparr>) rt',
                            scr1))))"

definition AgentScriptRuntime_cancel ::
    "uuid \<Rightarrow> u64 \<Rightarrow> AgentScriptRuntime \<Rightarrow> bool \<times> AgentScriptRuntime" where
  "AgentScriptRuntime_cancel sid eid scr =
     (case bt_get (scr_active scr) eid of
        None \<Rightarrow> (False, scr)
      | Some execution \<Rightarrow>
          if ase_session execution = sid
          then (True, scr\<lparr>scr_active := bt_remove eid (scr_active scr)\<rparr>)
          else (False, scr))"

definition AgentScriptRuntime_execution :: "AgentScriptRuntime \<Rightarrow> u64 \<Rightarrow> AgentScriptExecution option" where
  "AgentScriptRuntime_execution scr eid = bt_get (scr_active scr) eid"

subsection \<open>Scripts and their session\<close>

lemma rt_ok_script_start [keeps]:
  "rt_ok rt \<Longrightarrow> rt_ok (fst (snd (AgentScriptRuntime_start sid request rt scr)))"
  using rt_ok_consume_action [of rt sid ExecuteAgentScript]
  by (auto simp: AgentScriptRuntime_start_def Let_def split: option.split prod.split sum.split)

text \<open>\<open>finish\<close> seen from the session: \<open>require_running\<close>, then either nothing or the output bytes.\<close>

lemma require_running_cases:
  obtains (live) s where "session_live rt sid s" "AgentRuntime_require_running sid rt = (Inr (), rt)"
    | (refused) e where "AgentRuntime_require_running sid rt = (Inl e, rt)"
    | (late) e s where "AgentRuntime_session rt sid = Some s" "ses_state s = SessionRunning"
        "AgentRuntime_require_running sid rt = (Inl e, with_session sid (\<lambda>s. s\<lparr>ses_state := Cancelled\<rparr>) rt)"
proof -
  have "AgentRuntime_require_running sid rt = when_running sid (\<lambda>s rt. (Inr (), rt)) rt"
    by (auto simp: when_running_def AgentRuntime_require_running_def split: option.split)
  then show ?thesis
    by (cases rule: when_running_cases [where rt = rt and sid = sid and body = "\<lambda>s rt. (Inr (), rt)"])
       (auto intro: live refused late)
qed

definition finish_effect :: "uuid \<Rightarrow> AgentRuntime \<Rightarrow> AgentRuntime \<Rightarrow> bool" where
  "finish_effect sid rt rt' \<longleftrightarrow> rt' = rt
     \<or> (\<exists>s. AgentRuntime_session rt sid = Some s \<and> ses_state s = SessionRunning
          \<and> rt' = with_session sid (\<lambda>s. s\<lparr>ses_state := Cancelled\<rparr>) rt)
     \<or> (\<exists>s n. session_live rt sid s
          \<and> \<not> saturating_add (ses_output_bytes s) n > al_max_output_bytes (ses_limits s)
          \<and> rt' = with_session sid (\<lambda>s. s\<lparr>ses_output_bytes := ses_output_bytes s + n\<rparr>) rt)"

lemma finish_has_effect: "finish_effect sid rt (fst (snd (AgentScriptRuntime_finish sid eid output rt scr)))"
proof (cases rule: require_running_cases [of rt sid])
  case (live s)
  then show ?thesis
    by (auto simp: AgentScriptRuntime_finish_def Let_def finish_effect_def session_live_def
        split: option.split)
next
  case (refused e)
  then show ?thesis by (simp add: AgentScriptRuntime_finish_def finish_effect_def)
next
  case (late e s)
  then show ?thesis by (auto simp: AgentScriptRuntime_finish_def finish_effect_def)
qed

lemma rt_ok_finish_effect: "finish_effect sid rt rt' \<Longrightarrow> rt_ok rt \<Longrightarrow> rt_ok rt'"
  by (auto simp: finish_effect_def session_live_def intro: rt_ok_cancelled rt_ok_output)

lemma evolves_finish_effect: "finish_effect sid rt rt' \<Longrightarrow> evolves_at 0 k rt rt'"
  by (auto simp: finish_effect_def evolves_def session_ended_def session_live_def
      intro!: evolves_at_with_session0)

lemma evolves_script_start:
  "evolves_at (if k = sid \<and> \<not> isl (fst (AgentScriptRuntime_start sid request rt scr)) then 1 else 0) k rt
     (fst (snd (AgentScriptRuntime_start sid request rt scr)))"
  using evolves_consume_action [of k sid ExecuteAgentScript rt]
  by (auto simp: AgentScriptRuntime_start_def Let_def split: option.split prod.splits sum.splits if_splits)

subsection \<open>Sequences of operations\<close>

text \<open>
  The operations of the crate that change a session, as data; \<open>agent_apply\<close> runs one on the
  sessions and the scripts and says whether it succeeded. The two click gates go through
  \<open>attempt_solve_challenge\<close>; \<open>evaluate_page_script\<close> and \<open>query_page\<close> are actions.
\<close>

datatype AgentOp =
    OpOpen uuid "Capability set" AgentLimits
  | OpStart uuid
  | OpPause uuid
  | OpCancel uuid
  | OpAction uuid Capability
  | OpEvent uuid
  | OpCapture uuid string string
  | OpSolve uuid string "uuid option" TakeoverManager u64
  | OpAdvance u64
  | OpScriptStart uuid AgentScriptRequest
  | OpScriptFinish uuid u64 string
  | OpScriptCancel uuid u64

type_synonym agent_state = "AgentRuntime \<times> AgentScriptRuntime"

fun agent_apply :: "AgentOp \<Rightarrow> agent_state \<Rightarrow> bool \<times> agent_state" where
  "agent_apply (OpOpen sid caps limits) (rt, scr) = (True, snd (AgentRuntime_open sid caps limits rt), scr)"
| "agent_apply (OpStart sid) (rt, scr) = (let r = AgentRuntime_start sid rt in (\<not> isl (fst r), snd r, scr))"
| "agent_apply (OpPause sid) (rt, scr) = (let r = AgentRuntime_pause sid rt in (\<not> isl (fst r), snd r, scr))"
| "agent_apply (OpCancel sid) (rt, scr) = (let r = AgentRuntime_cancel sid rt in (\<not> isl (fst r), snd r, scr))"
| "agent_apply (OpAction sid c) (rt, scr) =
     (let r = AgentRuntime_consume_action sid c rt in (\<not> isl (fst r), snd r, scr))"
| "agent_apply (OpEvent sid) (rt, scr) = (let r = AgentRuntime_record_event sid rt in (\<not> isl (fst r), snd r, scr))"
| "agent_apply (OpCapture sid t src) (rt, scr) =
     (let r = AgentRuntime_capture_page_data sid t src rt in (\<not> isl (fst r), snd r, scr))"
| "agent_apply (OpSolve sid p tid tm now) (rt, scr) =
     (let r = AgentRuntime_attempt_solve_challenge (\<lambda>_. []) sid p tid tm now rt in (\<not> isl (fst r), snd r, scr))"
| "agent_apply (OpAdvance e) (rt, scr) = (True, AgentRuntime_advance_time e rt, scr)"
| "agent_apply (OpScriptStart sid q) (rt, scr) =
     (let r = AgentScriptRuntime_start sid q rt scr in (\<not> isl (fst r), snd r))"
| "agent_apply (OpScriptFinish sid eid out) (rt, scr) =
     (let r = AgentScriptRuntime_finish sid eid out rt scr in (\<not> isl (fst r), snd r))"
| "agent_apply (OpScriptCancel sid eid) (rt, scr) =
     (let r = AgentScriptRuntime_cancel sid eid scr in (fst r, rt, snd r))"

fun opens :: "uuid \<Rightarrow> AgentOp \<Rightarrow> bool" where
  "opens k (OpOpen sid _ _) = (sid = k)"
| "opens k _ = False"

fun charged_to :: "AgentOp \<Rightarrow> uuid option" where
  "charged_to (OpAction sid _) = Some sid"
| "charged_to (OpScriptStart sid _) = Some sid"
| "charged_to _ = None"

fun agent_run :: "AgentOp list \<Rightarrow> agent_state \<Rightarrow> agent_state" where
  "agent_run [] st = st"
| "agent_run (x # xs) st = agent_run xs (snd (agent_apply x st))"

text \<open>How many operations of a run were charged to session \<open>k\<close> and succeeded.\<close>

fun charged_ok :: "uuid \<Rightarrow> AgentOp list \<Rightarrow> agent_state \<Rightarrow> nat" where
  "charged_ok k [] st = 0"
| "charged_ok k (x # xs) st =
     (if charged_to x = Some k \<and> fst (agent_apply x st) then 1 else 0)
     + charged_ok k xs (snd (agent_apply x st))"

lemma rt_ok_apply: "rt_ok (fst st) \<Longrightarrow> rt_ok (fst (snd (agent_apply x st)))"
  by (cases st; cases x)
     (simp_all add: Let_def keeps rt_ok_finish_effect [OF finish_has_effect])

lemma evolves_apply:
  assumes "rt_ok (fst st)" "\<not> opens k x"
  shows "evolves_at (if charged_to x = Some k \<and> fst (agent_apply x st) then 1 else 0) k
           (fst st) (fst (snd (agent_apply x st)))"
proof (cases st)
  case (Pair rt scr)
  show ?thesis
  proof (cases x)
    case (OpAction sid c)
    with Pair evolves_consume_action [of k sid c rt] show ?thesis
      by (cases "k = sid") (simp_all add: Let_def)
  next
    case (OpScriptStart sid q)
    with Pair evolves_script_start [of k sid q rt scr] show ?thesis
      by (cases "k = sid") (simp_all add: Let_def)
  qed (insert assms Pair, simp_all add: Let_def frame evolves_finish_effect [OF finish_has_effect])
qed

lemma rt_ok_run: "rt_ok (fst st) \<Longrightarrow> rt_ok (fst (agent_run xs st))"
  by (induction xs arbitrary: st) (simp_all add: rt_ok_apply)

lemma evolves_run:
  "rt_ok (fst st) \<Longrightarrow> list_all (\<lambda>x. \<not> opens k x) xs \<Longrightarrow>
   evolves_at (charged_ok k xs st) k (fst st) (fst (agent_run xs st))"
proof (induction xs arbitrary: st)
  case (Cons x xs)
  from Cons.prems have "evolves_at (if charged_to x = Some k \<and> fst (agent_apply x st) then 1 else 0) k
      (fst st) (fst (snd (agent_apply x st)))"
    by (intro evolves_apply) simp_all
  moreover from Cons.prems have "evolves_at (charged_ok k xs (snd (agent_apply x st))) k
      (fst (snd (agent_apply x st))) (fst (agent_run xs (snd (agent_apply x st))))"
    by (intro Cons.IH) (simp_all add: rt_ok_apply)
  ultimately show ?case unfolding charged_ok.simps agent_run.simps by (rule evolves_at_trans)
qed simp

subsection \<open>Properties\<close>

text \<open>
  C6: in any run of session, script, event, capture, challenge and clock operations from a fresh
  runtime, every session is within its action, event and output limits, and from the moment it
  exists (its identifier is not minted a second time) its action counter has grown by exactly the
  number of actions and script starts charged to it that were allowed; its capabilities and
  limits never change.
\<close>

theorem session_accounting_is_exact:
  assumes "AgentRuntime_session (fst st) k = Some s"
    and "st = agent_run before (AgentRuntime_new policy, AgentScriptRuntime_default)"
    and "list_all (\<lambda>x. \<not> opens k x) xs"
  shows "\<exists>s'. AgentRuntime_session (fst (agent_run xs st)) k = Some s'
    \<and> ses_capabilities s' = ses_capabilities s \<and> ses_limits s' = ses_limits s
    \<and> unat (ses_actions_used s') = unat (ses_actions_used s) + charged_ok k xs st
    \<and> ses_actions_used s' \<le> al_max_actions (ses_limits s)
    \<and> ses_events_used s' \<le> al_max_events (ses_limits s)
    \<and> ses_output_bytes s' \<le> al_max_output_bytes (ses_limits s)"
proof -
  have ok: "rt_ok (fst st)" unfolding assms(2) by (intro rt_ok_run) simp
  from evolves_run [OF this assms(3)] assms(1) obtain s' where
    s': "AgentRuntime_session (fst (agent_run xs st)) k = Some s'" "evolves (charged_ok k xs st) s s'"
    unfolding evolves_at_def by blast
  have "within_limits s'" by (rule rt_okD(3) [OF rt_ok_run [OF ok] s'(1)])
  with s' show ?thesis by (intro exI [of _ s']) (simp add: evolves_def within_limits_def)
qed

definition sample_limits :: AgentLimits where
  "sample_limits = AgentLimits_default\<lparr>al_max_actions := 1\<rparr>"

definition sample_agent :: agent_state where
  "sample_agent = agent_run [OpOpen 7 {ExecuteAgentScript, Render} sample_limits, OpStart 7]
     (AgentRuntime_new SandboxPolicy_agent, AgentScriptRuntime_default)"

lemmas sample_agent_simps =
  sample_agent_def sample_limits_def AgentLimits_default_def AgentRuntime_new_def AgentRuntime_open_def
  AgentRuntime_start_def AgentRuntime_cancel_def AgentRuntime_session_def with_session_def
  AgentScriptRuntime_default_def bt_insert_def bt_adjust_def Let_def

lemma sample_agent_session:
  "AgentRuntime_session (fst sample_agent) 7 =
     Some \<lparr>ses_id = 7, ses_state = SessionRunning, ses_capabilities = {ExecuteAgentScript, Render},
           ses_limits = sample_limits, ses_actions_used = 0, ses_events_used = 0, ses_output_bytes = 0,
           ses_started_at_millis = Some 0\<rparr>"
  by (simp add: sample_agent_simps)

theorem session_accounting_is_exact_witness:
  "\<exists>s'. AgentRuntime_session (fst (agent_run [OpAction 7 Render, OpAction 7 Render] sample_agent)) 7 = Some s'
     \<and> unat (ses_actions_used s') = 1"
proof -
  have n: "charged_ok 7 [OpAction 7 Render, OpAction 7 Render] sample_agent = 1"
    by (simp add: sample_agent_simps AgentRuntime_consume_action_def when_running_def out_of_time_def
        AgentRuntime_require_running_def SandboxPolicy_allows_def SandboxPolicy_agent_def saturating_sub_def)
  show ?thesis
    using session_accounting_is_exact [OF sample_agent_session sample_agent_def,
        of "[OpAction 7 Render, OpAction 7 Render]"] n
    by force
qed

text \<open>
  A session that was cancelled, by the agent's owner or by the clock, never changes again:
  whatever operations follow, it keeps its state and its counters.
\<close>

theorem ended_sessions_are_final:
  assumes "AgentRuntime_session (fst st) k = Some s" "ses_state s \<in> {Cancelled, Exited}"
    and "st = agent_run before (AgentRuntime_new policy, AgentScriptRuntime_default)"
    and "list_all (\<lambda>x. \<not> opens k x) xs"
  shows "AgentRuntime_session (fst (agent_run xs st)) k = Some s"
proof -
  have "rt_ok (fst st)" unfolding assms(3) by (intro rt_ok_run) simp
  from evolves_run [OF this assms(4)] assms(1) obtain s' where
    "AgentRuntime_session (fst (agent_run xs st)) k = Some s'" "evolves (charged_ok k xs st) s s'"
    unfolding evolves_at_def by blast
  with assms(2) show ?thesis by (simp add: evolves_def session_ended_def)
qed

theorem ended_sessions_are_final_witness:
  "ses_state (the (AgentRuntime_session
     (fst (agent_run [OpStart 7, OpAction 7 Render, OpAdvance 100]
       (snd (agent_apply (OpCancel 7) sample_agent)))) 7)) = Cancelled"
proof -
  let ?st = "snd (agent_apply (OpCancel 7) sample_agent)"
  have reach: "?st = agent_run [OpOpen 7 {ExecuteAgentScript, Render} sample_limits, OpStart 7, OpCancel 7]
     (AgentRuntime_new SandboxPolicy_agent, AgentScriptRuntime_default)"
    by (simp add: sample_agent_def)
  have s: "AgentRuntime_session (fst ?st) 7 =
     Some \<lparr>ses_id = 7, ses_state = Cancelled, ses_capabilities = {ExecuteAgentScript, Render},
           ses_limits = sample_limits, ses_actions_used = 0, ses_events_used = 0, ses_output_bytes = 0,
           ses_started_at_millis = Some 0\<rparr>"
    by (simp add: sample_agent_simps)
  show ?thesis using ended_sessions_are_final [OF s _ reach, of "[OpStart 7, OpAction 7 Render, OpAdvance 100]"]
    by simp
qed

text \<open>
  Advancing the clock by any amount ends exactly the running sessions whose time is up at the
  new reading and touches no other; after it, every session that is still running is within its
  time, and the clock has not gone back.
\<close>

theorem advance_time_ends_exactly_the_overdue:
  assumes "st = agent_run before (AgentRuntime_new policy, AgentScriptRuntime_default)"
    and "AgentRuntime_session (fst st) k = Some s"
  shows "AgentRuntime_session (AgentRuntime_advance_time e (fst st)) k =
      Some (if ses_state s = SessionRunning
               \<and> (\<exists>t. ses_started_at_millis s = Some t
                    \<and> unat (al_max_runtime_millis (ses_limits s))
                        \<le> unat (saturating_add (rt_now_millis (fst st)) e) - unat t)
            then s\<lparr>ses_state := Cancelled\<rparr> else s)
    \<and> rt_now_millis (fst st) \<le> rt_now_millis (AgentRuntime_advance_time e (fst st))"
proof -
  have ok: "rt_ok (fst st)" unfolding assms(1) by (intro rt_ok_run) simp
  have "rt_now_millis (fst st) \<le> rt_now_millis (AgentRuntime_advance_time e (fst st))"
    by (simp add: advance_time_now saturating_add_ge)
  then show ?thesis
    by (auto simp: advance_time_session [OF ok] assms(2) out_of_time_def word_le_nat_alt unat_saturating_sub
        split: option.split)
qed

theorem advance_time_ends_exactly_the_overdue_witness:
  "AgentRuntime_session (AgentRuntime_advance_time 60000 (fst sample_agent)) 7 \<noteq>
   AgentRuntime_session (AgentRuntime_advance_time 59999 (fst sample_agent)) 7"
proof -
  have now: "rt_now_millis (fst sample_agent) = 0" by (simp add: sample_agent_simps)
  from advance_time_ends_exactly_the_overdue [OF sample_agent_def sample_agent_session, of 60000]
    advance_time_ends_exactly_the_overdue [OF sample_agent_def sample_agent_session, of 59999]
  show ?thesis by (simp add: now sample_limits_def AgentLimits_default_def saturating_add_def)
qed

text \<open>
  C7: under a policy without unattended solving, an attempt to satisfy a human-verification
  challenge is authorised only for a running session in time that holds \<open>SolveChallenge\<close>, allowed
  by the policy, and then only with the \<open>CredentialSolve\<close> capability or a takeover that a human
  has actively accepted (the takeover audit says so) and whose deadline has not passed.
\<close>

theorem solve_needs_credential_or_human:
  assumes "fst (AgentRuntime_attempt_solve_challenge dbg sid provider tid takeovers now rt) = Inr ev"
    and "\<not> pol_allow_unattended_solve (rt_policy rt)"
    and "takeover_step\<^sup>*\<^sup>* TakeoverManager_default takeovers"
  shows "\<exists>s. session_live rt sid s \<and> SolveChallenge \<in> ses_capabilities s
     \<and> SandboxPolicy_allows (rt_policy rt) SolveChallenge
     \<and> (if CredentialSolve \<in> ses_capabilities s then sae_capability_used ev = ''CredentialSolve''
        else sae_capability_used ev = ''SolveChallenge'' \<and>
          (\<exists>t tk. tid = Some t \<and> TakeoverManager_session takeovers t = Some tk
             \<and> last_audited (tm_audit takeovers) t = Some Active \<and> now < tk_expires_at_tick tk))"
proof -
  have aud: "audited takeovers" by (rule takeover_audit.reach_keeps [OF assms(3) audited_default])
  from assms(1) obtain s where live: "session_live rt sid s"
    unfolding AgentRuntime_attempt_solve_challenge_def by (rule when_running_ok)
  with assms(1,2) aud show ?thesis
    by (intro exI [of _ s])
       (auto simp: AgentRuntime_attempt_solve_challenge_def when_running_live Let_def takeover_authorizes_def
         audited_def TakeoverManager_session_def split: if_splits option.splits)
qed

definition sample_solver :: AgentRuntime where
  "sample_solver = fst (agent_run [OpOpen 7 {SolveChallenge} sample_limits, OpStart 7]
     (AgentRuntime_new (SandboxPolicy_autonomous_agent\<lparr>pol_allow_unattended_solve := False\<rparr>),
      AgentScriptRuntime_default))"

lemmas sample_solver_simps = sample_solver_def SandboxPolicy_autonomous_agent_def SandboxPolicy_agent_def
  AgentRuntime_attempt_solve_challenge_def when_running_def AgentRuntime_require_running_def out_of_time_def
  saturating_sub_def takeover_authorizes_def SandboxPolicy_allows_def

theorem solve_needs_credential_or_human_witness:
  "last_audited (tm_audit sample_takeover) 3 = Some Active"
proof -
  have ok: "fst (AgentRuntime_attempt_solve_challenge (\<lambda>_. ''id'') 7 ''turnstile'' (Some 3) sample_takeover 12
      sample_solver) = Inr \<lparr>sae_agent_id = ''id'', sae_provider = ''turnstile'',
        sae_capability_used = ''SolveChallenge'', sae_takeover_id = Some ''id'', sae_observed_at_tick = 12,
        sae_page_id = None, sae_target_node_id = None\<rparr>"
    by (simp add: sample_solver_simps sample_agent_simps sample_takeover_session)
  have p: "\<not> pol_allow_unattended_solve (rt_policy sample_solver)"
    by (simp add: sample_solver_simps sample_agent_simps)
  have "session_live sample_solver 7 s \<Longrightarrow> CredentialSolve \<notin> ses_capabilities s" for s
    by (auto simp: session_live_def sample_solver_simps sample_agent_simps)
  with solve_needs_credential_or_human [OF ok p sample_takeover_reachable] show ?thesis by auto
qed

text \<open>
  An authorised challenge attempt is free: it leaves every session as it was, so no number of
  them uses up the action limit of the session that makes them.
\<close>

theorem solve_attempts_are_not_charged:
  assumes "fst (AgentRuntime_attempt_solve_challenge dbg sid provider tid takeovers now rt) = Inr ev"
  shows "snd (AgentRuntime_attempt_solve_challenge dbg sid provider tid takeovers now rt) = rt"
proof -
  from assms obtain s where "session_live rt sid s"
    unfolding AgentRuntime_attempt_solve_challenge_def by (rule when_running_ok)
  with assms show ?thesis
    by (simp add: AgentRuntime_attempt_solve_challenge_def when_running_live Let_def)
qed

theorem solve_attempts_are_not_charged_witness:
  "snd (AgentRuntime_attempt_solve_challenge (\<lambda>_. ''id'') 7 ''turnstile'' (Some 3) sample_takeover 12
     sample_solver) = sample_solver"
  by (rule solve_attempts_are_not_charged)
     (simp add: sample_solver_simps sample_agent_simps sample_takeover_session)

end
