(* ===== verification/Permissions.thy ===== *)
theory Permissions
  imports BTreeMap
begin

section \<open>Permissions (crates/permissions)\<close>

text \<open>
  Decisions per profile, origin and permission, with grants that may expire. The manager keeps
  two maps, the grants and the last decision, and an event list; \<open>check\<close> reads them. The wall
  clock (\<open>now_seconds\<close>) is an argument of the operations that read it.

  The contract clients rely on is much simpler than the two maps: the answer for a key is
  decided by the last decision about that key (\<open>standing\<close>). The refinement below shows that the
  maps implement it and that purging expired grants is invisible.
\<close>

datatype Permission =
    Files
  | ClipboardRead
  | ClipboardWrite
  | Downloads
  | Uploads
  | Network
  | Geolocation
  | Notifications
  | Camera
  | Microphone
  | Certificates
  | Proxy
  | Device

primrec permission_rank :: "Permission \<Rightarrow> nat" where
  "permission_rank Files = 0"
| "permission_rank ClipboardRead = 1"
| "permission_rank ClipboardWrite = 2"
| "permission_rank Downloads = 3"
| "permission_rank Uploads = 4"
| "permission_rank Network = 5"
| "permission_rank Geolocation = 6"
| "permission_rank Notifications = 7"
| "permission_rank Camera = 8"
| "permission_rank Microphone = 9"
| "permission_rank Certificates = 10"
| "permission_rank Proxy = 11"
| "permission_rank Device = 12"

lemma permission_rank_inj: "permission_rank a = permission_rank b \<Longrightarrow> a = b"
  by (cases a; cases b; simp)

instantiation Permission :: linorder
begin

definition less_eq_Permission :: "Permission \<Rightarrow> Permission \<Rightarrow> bool" where
  "less_eq_Permission a b = (permission_rank a \<le> permission_rank b)"

definition less_Permission :: "Permission \<Rightarrow> Permission \<Rightarrow> bool" where
  "less_Permission a b = (permission_rank a < permission_rank b)"

instance
  by standard (auto simp: less_eq_Permission_def less_Permission_def intro: permission_rank_inj)

end

datatype PermissionDecision = PermGranted | PermDenied | PermPrompt

record PermissionRequest =
  preq_origin :: string
  preq_permission :: Permission
  preq_reason :: string

record PermissionGrant =
  pg_origin :: string
  pg_permission :: Permission
  pg_expires_at_unix_seconds :: "u64 option"

text \<open>The key's derived order compares profile, origin and permission in this order.\<close>

type_synonym PermissionKey = "ProfileId \<times> string \<times> Permission"

datatype PermissionEvent =
    PermRequested PermissionKey
  | PermDecided PermissionKey PermissionDecision
  | PermRevoked PermissionKey
  | PermExpired PermissionKey

record PermissionManager =
  pm_grants :: "(PermissionKey, PermissionGrant) BTreeMap"
  pm_decisions :: "(PermissionKey, PermissionDecision) BTreeMap"
  pm_events :: "PermissionEvent list"

definition PermissionManager_default :: PermissionManager where
  "PermissionManager_default = \<lparr>pm_grants = [], pm_decisions = [], pm_events = []\<rparr>"

definition PermissionManager_set ::
    "ProfileId \<Rightarrow> string \<Rightarrow> Permission \<Rightarrow> bool \<Rightarrow> PermissionManager \<Rightarrow> PermissionManager" where
  "PermissionManager_set profile origin permission granted m =
     (let key = (profile, origin, permission) in
      if granted
      then m\<lparr>pm_grants := bt_insert key \<lparr>pg_origin = origin, pg_permission = permission,
                                       pg_expires_at_unix_seconds = None\<rparr> (pm_grants m),
             pm_decisions := bt_insert key PermGranted (pm_decisions m),
             pm_events := pm_events m @ [PermDecided key PermGranted]\<rparr>
      else m\<lparr>pm_grants := bt_remove key (pm_grants m),
             pm_decisions := bt_insert key PermDenied (pm_decisions m),
             pm_events := pm_events m @ [PermDecided key PermDenied]\<rparr>)"

text \<open>\<open>lifetime\<close> is the duration in whole seconds (\<open>as_secs\<close>).\<close>

definition PermissionManager_grant_for ::
    "ProfileId \<Rightarrow> PermissionRequest \<Rightarrow> u64 option \<Rightarrow> u64 \<Rightarrow> PermissionManager
     \<Rightarrow> PermissionGrant \<times> PermissionManager" where
  "PermissionManager_grant_for profile request lifetime now m =
     (let key = (profile, preq_origin request, preq_permission request);
          grant = \<lparr>pg_origin = preq_origin request, pg_permission = preq_permission request,
                   pg_expires_at_unix_seconds = map_option (saturating_add now) lifetime\<rparr>
      in (grant,
          m\<lparr>pm_grants := bt_insert key grant (pm_grants m),
            pm_decisions := bt_insert key PermGranted (pm_decisions m),
            pm_events := pm_events m @ [PermDecided key PermGranted]\<rparr>))"

definition PermissionManager_check ::
    "PermissionManager \<Rightarrow> ProfileId \<Rightarrow> string \<Rightarrow> Permission \<Rightarrow> u64 \<Rightarrow> PermissionDecision" where
  "PermissionManager_check m profile origin permission now =
     (case bt_get (pm_grants m) (profile, origin, permission) of
        Some grant \<Rightarrow>
          if (case pg_expires_at_unix_seconds grant of None \<Rightarrow> True | Some expires \<Rightarrow> expires > now)
          then PermGranted else PermPrompt
      | None \<Rightarrow>
          (case bt_get (pm_decisions m) (profile, origin, permission) of
             Some d \<Rightarrow> d
           | None \<Rightarrow> PermPrompt))"

definition PermissionManager_revoke ::
    "ProfileId \<Rightarrow> string \<Rightarrow> Permission \<Rightarrow> PermissionManager \<Rightarrow> PermissionManager" where
  "PermissionManager_revoke profile origin permission m =
     (let key = (profile, origin, permission) in
      m\<lparr>pm_grants := bt_remove key (pm_grants m), pm_decisions := bt_remove key (pm_decisions m),
        pm_events := pm_events m @ [PermRevoked key]\<rparr>)"

definition PermissionManager_request ::
    "ProfileId \<Rightarrow> PermissionRequest \<Rightarrow> u64 \<Rightarrow> PermissionManager \<Rightarrow> PermissionDecision \<times> PermissionManager" where
  "PermissionManager_request profile request now m =
     (let m' = m\<lparr>pm_events := pm_events m @
                   [PermRequested (profile, preq_origin request, preq_permission request)]\<rparr>
      in (PermissionManager_check m' profile (preq_origin request) (preq_permission request) now, m'))"

definition PermissionManager_grants :: "PermissionManager \<Rightarrow> ProfileId \<Rightarrow> PermissionGrant list" where
  "PermissionManager_grants m profile = map snd [e \<leftarrow> pm_grants m. fst (fst e) = profile]"

definition grant_expired :: "u64 \<Rightarrow> PermissionGrant \<Rightarrow> bool" where
  "grant_expired now g =
     (case pg_expires_at_unix_seconds g of None \<Rightarrow> False | Some expires \<Rightarrow> expires \<le> now)"

definition purge_key :: "PermissionKey \<Rightarrow> PermissionManager \<Rightarrow> PermissionManager" where
  "purge_key key m =
     m\<lparr>pm_grants := bt_remove key (pm_grants m),
       pm_decisions := (if bt_get (pm_decisions m) key = Some PermGranted
                        then bt_remove key (pm_decisions m) else pm_decisions m),
       pm_events := pm_events m @ [PermExpired key]\<rparr>"

definition PermissionManager_purge_expired :: "u64 \<Rightarrow> PermissionManager \<Rightarrow> nat \<times> PermissionManager" where
  "PermissionManager_purge_expired now m =
     (let expired = map fst [e \<leftarrow> pm_grants m. grant_expired now (snd e)]
      in (length expired, fold purge_key expired m))"

record PermissionWire =
  pw_profile :: ProfileId
  pw_origin :: string
  pw_permission :: Permission
  pw_decision :: PermissionDecision
  pw_grant :: "PermissionGrant option"

text \<open>
  \<open>to_json\<close> and \<open>from_json\<close> with the serde encoder and decoder of the entry list as arguments.
\<close>

definition PermissionManager_wire :: "PermissionManager \<Rightarrow> PermissionWire list" where
  "PermissionManager_wire m =
     map (\<lambda>key. \<lparr>pw_profile = fst key, pw_origin = fst (snd key), pw_permission = snd (snd key),
               pw_decision = (case bt_get (pm_decisions m) key of None \<Rightarrow> PermGranted | Some d \<Rightarrow> d),
               pw_grant = bt_get (pm_grants m) key\<rparr>)
       (sort (remdups (bt_keys (pm_grants m) @ bt_keys (pm_decisions m))))"

definition PermissionManager_to_json ::
    "(PermissionWire list \<Rightarrow> 'err + 'text) \<Rightarrow> PermissionManager \<Rightarrow> 'err + 'text" where
  "PermissionManager_to_json encode m = encode (PermissionManager_wire m)"

definition wire_key :: "PermissionWire \<Rightarrow> PermissionKey" where
  "wire_key w = (pw_profile w, pw_origin w, pw_permission w)"

definition load_wire :: "PermissionWire \<Rightarrow> PermissionManager \<Rightarrow> PermissionManager" where
  "load_wire w m =
     (let m' = m\<lparr>pm_decisions := bt_insert (wire_key w) (pw_decision w) (pm_decisions m)\<rparr>
      in case pw_grant w of
           None \<Rightarrow> m'
         | Some g \<Rightarrow> m'\<lparr>pm_grants := bt_insert (wire_key w) g (pm_grants m')\<rparr>)"

definition PermissionManager_from_json ::
    "('text \<Rightarrow> 'err + PermissionWire list) \<Rightarrow> 'text \<Rightarrow> 'err + PermissionManager" where
  "PermissionManager_from_json decode txt =
     (case decode txt of
        Inl e \<Rightarrow> Inl e
      | Inr entries \<Rightarrow> Inr (fold load_wire entries PermissionManager_default))"

definition PermissionManager_drain_events :: "PermissionManager \<Rightarrow> PermissionEvent list \<times> PermissionManager" where
  "PermissionManager_drain_events m = (pm_events m, m\<lparr>pm_events := []\<rparr>)"

subsection \<open>Operations as data\<close>

datatype PermOp =
    PermSet ProfileId string Permission bool
  | PermGrantFor ProfileId PermissionRequest "u64 option" u64
  | PermRevoke ProfileId string Permission
  | PermRequest ProfileId PermissionRequest u64
  | PermPurge u64
  | PermDrain

fun perm_apply :: "PermOp \<Rightarrow> PermissionManager \<Rightarrow> PermissionManager" where
  "perm_apply (PermSet p u x g) m = PermissionManager_set p u x g m"
| "perm_apply (PermGrantFor p r l n) m = snd (PermissionManager_grant_for p r l n m)"
| "perm_apply (PermRevoke p u x) m = PermissionManager_revoke p u x m"
| "perm_apply (PermRequest p r n) m = snd (PermissionManager_request p r n m)"
| "perm_apply (PermPurge n) m = snd (PermissionManager_purge_expired n m)"
| "perm_apply PermDrain m = snd (PermissionManager_drain_events m)"

text \<open>The abstract contract: what the last decision about a key says.\<close>

datatype standing = NoStanding | Allowed "u64 option" | Refused

fun spec_step :: "PermissionKey \<Rightarrow> PermOp \<Rightarrow> standing \<Rightarrow> standing" where
  "spec_step k (PermSet p u x g) st = (if (p, u, x) = k then (if g then Allowed None else Refused) else st)"
| "spec_step k (PermGrantFor p r l n) st =
     (if (p, preq_origin r, preq_permission r) = k then Allowed (map_option (saturating_add n) l) else st)"
| "spec_step k (PermRevoke p u x) st = (if (p, u, x) = k then NoStanding else st)"
| "spec_step k (PermRequest p r n) st = st"
| "spec_step k (PermPurge n) st = st"
| "spec_step k PermDrain st = st"

fun answer :: "u64 \<Rightarrow> standing \<Rightarrow> PermissionDecision" where
  "answer now NoStanding = PermPrompt"
| "answer now Refused = PermDenied"
| "answer now (Allowed None) = PermGranted"
| "answer now (Allowed (Some t)) = (if now < t then PermGranted else PermPrompt)"

lemmas perm_op_defs =
  PermissionManager_set_def PermissionManager_grant_for_def PermissionManager_revoke_def
  PermissionManager_request_def PermissionManager_drain_events_def Let_def

subsection \<open>The two maps agree\<close>

definition perm_ok :: "PermissionManager \<Rightarrow> bool" where
  "perm_ok m \<longleftrightarrow> bt_ok (pm_grants m) \<and> bt_ok (pm_decisions m)
     \<and> (\<forall>k. bt_get (pm_grants m) k \<noteq> None \<longleftrightarrow> bt_get (pm_decisions m) k = Some PermGranted)
     \<and> (\<forall>k. bt_get (pm_decisions m) k \<noteq> Some PermPrompt)"

lemma perm_ok_default [simp]: "perm_ok PermissionManager_default"
  by (simp add: perm_ok_def PermissionManager_default_def)

lemma purge_key_get:
  "bt_get (pm_grants (purge_key key m)) k = (if k = key then None else bt_get (pm_grants m) k)"
  "bt_get (pm_decisions (purge_key key m)) k =
     (if k = key \<and> bt_get (pm_decisions m) k = Some PermGranted then None else bt_get (pm_decisions m) k)"
  by (auto simp: purge_key_def)

lemma fold_purge_get:
  "bt_get (pm_grants (fold purge_key keys m)) k = (if k \<in> set keys then None else bt_get (pm_grants m) k)"
  "bt_get (pm_decisions (fold purge_key keys m)) k =
     (if k \<in> set keys \<and> bt_get (pm_decisions m) k = Some PermGranted then None
      else bt_get (pm_decisions m) k)"
  by (induction keys arbitrary: m) (auto simp: purge_key_get)

lemma purge_keys:
  assumes "bt_ok (pm_grants m)"
  shows "k \<in> set (map fst [e \<leftarrow> pm_grants m. grant_expired now (snd e)])
     \<longleftrightarrow> (\<exists>g. bt_get (pm_grants m) k = Some g \<and> grant_expired now g)"
  by (force simp: bt_get_iff_in [OF assms])

lemma purge_get:
  assumes "bt_ok (pm_grants m)"
  shows "bt_get (pm_grants (snd (PermissionManager_purge_expired now m))) k =
     (case bt_get (pm_grants m) k of None \<Rightarrow> None | Some g \<Rightarrow> if grant_expired now g then None else Some g)"
    and "bt_get (pm_decisions (snd (PermissionManager_purge_expired now m))) k =
     (if (\<exists>g. bt_get (pm_grants m) k = Some g \<and> grant_expired now g)
         \<and> bt_get (pm_decisions m) k = Some PermGranted
      then None else bt_get (pm_decisions m) k)"
  unfolding PermissionManager_purge_expired_def Let_def snd_conv fold_purge_get purge_keys [OF assms]
  by (auto split: option.split)

lemma perm_ok_purge_key: "perm_ok m \<Longrightarrow> perm_ok (purge_key key m)"
  by (auto simp: perm_ok_def purge_key_def)

lemma perm_ok_apply: "perm_ok m \<Longrightarrow> perm_ok (perm_apply x m)"
proof (cases x)
  case (PermPurge n)
  assume "perm_ok m"
  then have "perm_ok (fold purge_key keys m)" for keys
    by (induction keys arbitrary: m) (simp_all add: perm_ok_purge_key)
  with PermPurge show ?thesis by (simp add: PermissionManager_purge_expired_def Let_def)
qed (auto simp: perm_ok_def perm_op_defs)

lemma perm_ok_reach: "perm_ok (fold perm_apply xs PermissionManager_default)"
  by (rule fold_invariant [where Q = "\<lambda>_. True"]) (auto intro: perm_ok_apply)

subsection \<open>Refinement\<close>

definition perm_abs :: "PermissionManager \<Rightarrow> PermissionKey \<Rightarrow> standing" where
  "perm_abs m k =
     (case bt_get (pm_grants m) k of
        Some g \<Rightarrow> Allowed (pg_expires_at_unix_seconds g)
      | None \<Rightarrow> if bt_get (pm_decisions m) k = Some PermDenied then Refused else NoStanding)"

lemma check_is_answer:
  assumes "perm_ok m"
  shows "PermissionManager_check m p u x now = answer now (perm_abs m (p, u, x))"
proof -
  from assms have ok: "bt_get (pm_grants m) (p, u, x) \<noteq> None \<longleftrightarrow>
      bt_get (pm_decisions m) (p, u, x) = Some PermGranted"
    "bt_get (pm_decisions m) (p, u, x) \<noteq> Some PermPrompt" unfolding perm_ok_def by blast+
  then show ?thesis
    by (cases "bt_get (pm_decisions m) (p, u, x)"; cases "the (bt_get (pm_decisions m) (p, u, x))")
       (auto simp: PermissionManager_check_def perm_abs_def split: option.split)
qed

text \<open>
  The simulation relation at a time \<open>now\<close>: equal, or the manager has forgotten a grant that the
  history still has but that is over.
\<close>

definition simulates :: "u64 \<Rightarrow> standing \<Rightarrow> standing \<Rightarrow> bool" where
  "simulates now c a \<longleftrightarrow> c = a \<or> c = NoStanding \<and> (\<exists>t. a = Allowed (Some t) \<and> t \<le> now)"

lemma simulates_answer: "simulates now c a \<Longrightarrow> answer now c = answer now a"
  by (auto simp: simulates_def)

fun clock_at_most :: "u64 \<Rightarrow> PermOp \<Rightarrow> bool" where
  "clock_at_most now (PermPurge n) = (n \<le> now)"
| "clock_at_most now _ = True"

lemma perm_abs_purge:
  assumes "perm_ok m"
  shows "perm_abs (snd (PermissionManager_purge_expired n m)) k =
    (case perm_abs m k of Allowed (Some t) \<Rightarrow> if t \<le> n then NoStanding else Allowed (Some t) | st \<Rightarrow> st)"
proof -
  have bt: "bt_ok (pm_grants m)"
    and "bt_get (pm_grants m) k \<noteq> None \<Longrightarrow> bt_get (pm_decisions m) k = Some PermGranted"
    using assms unfolding perm_ok_def by blast+
  then show ?thesis
    by (auto simp: perm_abs_def purge_get [OF bt] grant_expired_def split: option.split)
qed

lemma perm_abs_apply:
  "\<not> (\<exists>n. x = PermPurge n) \<Longrightarrow> perm_abs (perm_apply x m) k = spec_step k x (perm_abs m k)"
  by (cases x) (simp_all add: perm_abs_def perm_op_defs split: option.split)

lemma spec_step_simulates: "simulates now c a \<Longrightarrow> simulates now (spec_step k x c) (spec_step k x a)"
  by (cases x) (auto simp: simulates_def)

lemma simulates_step:
  assumes "perm_ok m" "simulates now (perm_abs m k) st" "clock_at_most now x"
  shows "simulates now (perm_abs (perm_apply x m) k) (spec_step k x st)"
proof (cases "\<exists>n. x = PermPurge n")
  case True
  with assms show ?thesis
    by (auto simp: perm_abs_purge simulates_def split: standing.splits option.splits if_splits
        intro: order_trans)
next
  case False
  then show ?thesis using assms(2) by (simp add: perm_abs_apply spec_step_simulates)
qed

lemma simulates_run:
  "list_all (clock_at_most now) xs \<Longrightarrow>
   simulates now (perm_abs (fold perm_apply xs PermissionManager_default) k) (fold (spec_step k) xs NoStanding)"
proof (induction xs rule: rev_induct)
  case Nil
  then show ?case by (simp add: simulates_def perm_abs_def PermissionManager_default_def)
next
  case (snoc x xs)
  then show ?case using simulates_step [OF perm_ok_reach, of now xs k _ x] by simp
qed

lemma check_refines:
  "list_all (clock_at_most now) xs \<Longrightarrow>
   PermissionManager_check (fold perm_apply xs PermissionManager_default) profile origin permission now
     = answer now (fold (spec_step (profile, origin, permission)) xs NoStanding)"
  using simulates_answer [OF simulates_run] check_is_answer [OF perm_ok_reach] by simp

subsection \<open>Operations behind a permission\<close>

text \<open>
  The clipboard, download, upload and file brokers all begin by checking one permission and
  return its decision as their error when it is not a grant. Whatever else such an operation
  does, the history of decisions then decides whether it can succeed.
\<close>

locale permission_gate =
  fixes gated :: "PermissionManager \<Rightarrow> u64 \<Rightarrow> 'e + 'r"
    and refuse :: "PermissionDecision \<Rightarrow> 'e"
    and profile :: ProfileId
    and origin :: string
    and permission :: Permission
  assumes gate: "PermissionManager_check m profile origin permission now \<noteq> PermGranted \<Longrightarrow>
      gated m now = Inl (refuse (PermissionManager_check m profile origin permission now))"
begin

lemma success_means_granted: "gated m now = Inr r \<Longrightarrow> PermissionManager_check m profile origin permission now = PermGranted"
  using gate by fastforce

lemma revoked_is_refused: "gated (PermissionManager_revoke profile origin permission m) now = Inl (refuse PermPrompt)"
  by (subst gate) (simp_all add: PermissionManager_check_def PermissionManager_revoke_def Let_def)

lemma denied_is_refused: "gated (PermissionManager_set profile origin permission False m) now = Inl (refuse PermDenied)"
  by (subst gate) (simp_all add: PermissionManager_check_def PermissionManager_set_def Let_def)

text \<open>Success needs a decision in the history that allows exactly this key and is not over.\<close>

lemma success_needs_standing:
  assumes "list_all (clock_at_most now) xs"
    and "gated (fold perm_apply xs PermissionManager_default) now = Inr r"
  shows "\<exists>ex. fold (spec_step (profile, origin, permission)) xs NoStanding = Allowed ex
     \<and> (case ex of None \<Rightarrow> True | Some t \<Rightarrow> now < t)"
  using success_means_granted [OF assms(2)] unfolding check_refines [OF assms(1)]
  by (cases "fold (spec_step (profile, origin, permission)) xs NoStanding")
     (auto split: option.splits if_splits)

end

subsection \<open>Serialisation\<close>

lemma find_wire_distinct:
  "distinct (map wire_key (w # ws)) \<Longrightarrow> wire_key w = k \<Longrightarrow> find (\<lambda>w. wire_key w = k) ws = None"
  by (auto simp: find_None_iff) (metis imageI)

lemma fold_load_wire_decisions:
  assumes "distinct (map wire_key ws)"
  shows "bt_get (pm_decisions (fold load_wire ws m)) k =
      (case find (\<lambda>w. wire_key w = k) ws of None \<Rightarrow> bt_get (pm_decisions m) k | Some w \<Rightarrow> Some (pw_decision w))"
  using assms
proof (induction ws arbitrary: m)
  case (Cons w ws)
  then show ?case using find_wire_distinct [OF Cons.prems, of k]
    by (auto simp: load_wire_def Let_def split: option.split)
qed simp

lemma fold_load_wire_grants:
  assumes "distinct (map wire_key ws)"
  shows "bt_get (pm_grants (fold load_wire ws m)) k =
      (case find (\<lambda>w. wire_key w = k) ws of
         Some w \<Rightarrow> (case pw_grant w of None \<Rightarrow> bt_get (pm_grants m) k | Some g \<Rightarrow> Some g)
       | None \<Rightarrow> bt_get (pm_grants m) k)"
  using assms
proof (induction ws arbitrary: m)
  case (Cons w ws)
  then show ?case using find_wire_distinct [OF Cons.prems, of k]
    by (auto simp: load_wire_def Let_def split: option.split)
qed simp

lemma load_wire_ok:
  "bt_ok (pm_grants m) \<and> bt_ok (pm_decisions m) \<Longrightarrow>
   bt_ok (pm_grants (fold load_wire ws m)) \<and> bt_ok (pm_decisions (fold load_wire ws m))"
  by (induction ws arbitrary: m) (auto simp: load_wire_def Let_def split: option.split)

lemma load_wire_events: "pm_events (fold load_wire ws m) = pm_events m"
  by (induction ws arbitrary: m) (auto simp: load_wire_def Let_def split: option.split)

lemma wire_keys:
  "map wire_key (PermissionManager_wire m) = sort (remdups (bt_keys (pm_grants m) @ bt_keys (pm_decisions m)))"
  by (simp add: PermissionManager_wire_def wire_key_def comp_def)

lemma find_map: "find P (map f xs) = map_option f (find (P \<circ> f) xs)"
  by (induction xs) auto

lemma find_eq_key: "find (\<lambda>x. x = k) xs = (if k \<in> set xs then Some k else None)"
  by (induction xs) auto

lemma find_wire:
  "find (\<lambda>w. wire_key w = k) (PermissionManager_wire m) =
     (if bt_get (pm_grants m) k = None \<and> bt_get (pm_decisions m) k = None then None
      else Some \<lparr>pw_profile = fst k, pw_origin = fst (snd k), pw_permission = snd (snd k),
               pw_decision = (case bt_get (pm_decisions m) k of None \<Rightarrow> PermGranted | Some d \<Rightarrow> d),
               pw_grant = bt_get (pm_grants m) k\<rparr>)"
  by (auto simp: PermissionManager_wire_def find_map comp_def wire_key_def find_eq_key bt_get_None_iff
      simp del: map_append remdups_append)

lemma wire_round_trip:
  assumes "perm_ok m"
  shows "fold load_wire (PermissionManager_wire m) PermissionManager_default = m\<lparr>pm_events := []\<rparr>"
proof -
  let ?n = "fold load_wire (PermissionManager_wire m) PermissionManager_default"
  have d: "distinct (map wire_key (PermissionManager_wire m))" unfolding wire_keys by simp
  have sub: "bt_get (pm_decisions m) k = None \<Longrightarrow> bt_get (pm_grants m) k = None" for k
    using assms unfolding perm_ok_def by (metis option.distinct(1))
  have "bt_ok (pm_grants ?n) \<and> bt_ok (pm_decisions ?n)"
    by (rule load_wire_ok) (simp add: PermissionManager_default_def)
  moreover have "bt_get (pm_decisions ?n) k = bt_get (pm_decisions m) k" for k
    using sub [of k]
    by (auto simp: fold_load_wire_decisions [OF d] find_wire PermissionManager_default_def split: option.split)
  moreover have "bt_get (pm_grants ?n) k = bt_get (pm_grants m) k" for k
    by (auto simp: fold_load_wire_grants [OF d] find_wire PermissionManager_default_def split: option.split)
  moreover have "bt_ok (pm_grants m)" "bt_ok (pm_decisions m)" using assms by (simp_all add: perm_ok_def)
  ultimately have "pm_decisions ?n = pm_decisions m" "pm_grants ?n = pm_grants m"
    by (auto intro: bt_ext)
  then show ?thesis
    by (simp add: load_wire_events PermissionManager_default_def)
qed

subsection \<open>Properties\<close>

text \<open>
  C8: the permission manager implements its contract: after any sequence of decisions, grants,
  revocations, requests, purges and event drains, the answer for a profile, origin and permission
  is decided by the last decision about exactly that key, a timed grant counting until its
  expiry; purging at any earlier time never changes an answer.
\<close>

theorem check_follows_the_last_decision:
  assumes "list_all (clock_at_most now) xs"
  shows "PermissionManager_check (fold perm_apply xs PermissionManager_default) profile origin permission now
       = answer now (fold (spec_step (profile, origin, permission)) xs NoStanding)"
  by (rule check_refines [OF assms])

definition sample_preq :: PermissionRequest where
  "sample_preq = \<lparr>preq_origin = ''https://example.test'', preq_permission = Camera, preq_reason = ''call''\<rparr>"

theorem check_follows_the_last_decision_witness:
  "PermissionManager_check
     (fold perm_apply [PermGrantFor 1 sample_preq (Some 60) 1000, PermPurge 1059, PermRevoke 2 ''https://example.test'' Camera]
       PermissionManager_default) 1 ''https://example.test'' Camera 1059 = PermGranted"
proof -
  have "list_all (clock_at_most 1059) [PermGrantFor 1 sample_preq (Some 60) 1000, PermPurge 1059,
      PermRevoke 2 ''https://example.test'' Camera]" by simp
  from check_follows_the_last_decision [OF this, of 1 "''https://example.test''" Camera]
  show ?thesis by (simp add: sample_preq_def saturating_add_def)
qed

text \<open>
  Writing the manager out and reading it back gives the same grants and decisions (the event
  list is not persisted), for every manager the operations can produce.
\<close>

theorem permissions_round_trip:
  assumes "\<And>ws. \<exists>t. encode ws = Inr t \<and> decode t = Inr ws"
    and "m = fold perm_apply xs PermissionManager_default"
  shows "\<exists>t. PermissionManager_to_json encode m = Inr t
     \<and> PermissionManager_from_json decode t = Inr (m\<lparr>pm_events := []\<rparr>)"
proof -
  obtain t where "encode (PermissionManager_wire m) = Inr t" "decode t = Inr (PermissionManager_wire m)"
    using assms(1) by blast
  moreover have "perm_ok m" unfolding assms(2) by (rule perm_ok_reach)
  ultimately show ?thesis
    by (simp add: PermissionManager_to_json_def PermissionManager_from_json_def wire_round_trip)
qed

theorem permissions_round_trip_witness:
  "\<exists>t. PermissionManager_to_json (Inr :: _ \<Rightarrow> unit + _)
         (fold perm_apply [PermGrantFor 1 sample_preq None 5] PermissionManager_default) = Inr t
     \<and> PermissionManager_from_json (Inr :: _ \<Rightarrow> unit + _) t
       = Inr ((fold perm_apply [PermGrantFor 1 sample_preq None 5] PermissionManager_default)\<lparr>pm_events := []\<rparr>)"
  by (rule permissions_round_trip [where xs = "[PermGrantFor 1 sample_preq None 5]"]) simp_all

end
