(* ===== verification/Clipboard.thy ===== *)
theory Clipboard
  imports Permissions
begin

section \<open>Clipboard broker (crates/clipboard)\<close>

text \<open>
  One clipboard value per profile and origin, behind the read and write permissions, and user
  gesture tokens that are good for one read. A new token is an argument (\<open>Uuid::new_v4\<close>).
\<close>

datatype ClipboardError = ClipboardPermission PermissionDecision | MissingUserGesture

record ClipboardBroker =
  cb_values :: "(ProfileId \<times> string, string) BTreeMap"
  cb_gestures :: "uuid set"

definition ClipboardBroker_default :: ClipboardBroker where
  "ClipboardBroker_default = \<lparr>cb_values = [], cb_gestures = {}\<rparr>"

definition ClipboardBroker_write ::
    "PermissionManager \<Rightarrow> ProfileId \<Rightarrow> string \<Rightarrow> string \<Rightarrow> u64 \<Rightarrow> ClipboardBroker
     \<Rightarrow> (ClipboardError + unit) \<times> ClipboardBroker" where
  "ClipboardBroker_write permissions profile origin val now b =
     (let decision = PermissionManager_check permissions profile origin ClipboardWrite now in
      if decision \<noteq> PermGranted then (Inl (ClipboardPermission decision), b)
      else (Inr (), b\<lparr>cb_values := bt_insert (profile, origin) val (cb_values b)\<rparr>))"

definition ClipboardBroker_read ::
    "PermissionManager \<Rightarrow> ProfileId \<Rightarrow> string \<Rightarrow> u64 \<Rightarrow> ClipboardBroker \<Rightarrow> ClipboardError + string" where
  "ClipboardBroker_read permissions profile origin now b =
     (let decision = PermissionManager_check permissions profile origin ClipboardRead now in
      if decision \<noteq> PermGranted then Inl (ClipboardPermission decision)
      else Inr (case bt_get (cb_values b) (profile, origin) of None \<Rightarrow> [] | Some v \<Rightarrow> v))"

definition ClipboardBroker_issue_user_gesture :: "uuid \<Rightarrow> ClipboardBroker \<Rightarrow> uuid \<times> ClipboardBroker" where
  "ClipboardBroker_issue_user_gesture token b = (token, b\<lparr>cb_gestures := insert token (cb_gestures b)\<rparr>)"

definition ClipboardBroker_read_with_gesture ::
    "PermissionManager \<Rightarrow> ProfileId \<Rightarrow> string \<Rightarrow> uuid \<Rightarrow> u64 \<Rightarrow> ClipboardBroker
     \<Rightarrow> (ClipboardError + string) \<times> ClipboardBroker" where
  "ClipboardBroker_read_with_gesture permissions profile origin token now b =
     (if token \<notin> cb_gestures b then (Inl MissingUserGesture, b)
      else let b' = b\<lparr>cb_gestures := cb_gestures b - {token}\<rparr>
           in (ClipboardBroker_read permissions profile origin now b', b'))"

subsection \<open>The permission gates\<close>

interpretation clip_write: permission_gate
  "\<lambda>m now. fst (ClipboardBroker_write m profile origin val now b)" ClipboardPermission profile origin ClipboardWrite
  for profile origin val b
  by unfold_locales (simp add: ClipboardBroker_write_def Let_def)

interpretation clip_read: permission_gate
  "\<lambda>m now. ClipboardBroker_read m profile origin now b" ClipboardPermission profile origin ClipboardRead
  for profile origin b
  by unfold_locales (simp add: ClipboardBroker_read_def Let_def)

subsection \<open>Sequences of operations\<close>

datatype ClipOp =
    ClipWrite PermissionManager ProfileId string string u64
  | ClipIssue uuid
  | ClipGestureRead PermissionManager ProfileId string uuid u64

fun clip_apply :: "ClipOp \<Rightarrow> ClipboardBroker \<Rightarrow> ClipboardBroker" where
  "clip_apply (ClipWrite m p u v n) b = snd (ClipboardBroker_write m p u v n b)"
| "clip_apply (ClipIssue t) b = snd (ClipboardBroker_issue_user_gesture t b)"
| "clip_apply (ClipGestureRead m p u t n) b = snd (ClipboardBroker_read_with_gesture m p u t n b)"

fun clip_key :: "ClipOp \<Rightarrow> (ProfileId \<times> string) option" where
  "clip_key (ClipWrite m p u v n) = Some (p, u)"
| "clip_key _ = None"

lemma clip_value_frame:
  "clip_key x \<noteq> Some k \<Longrightarrow> bt_get (cb_values (clip_apply x b)) k = bt_get (cb_values b) k"
  by (cases x) (auto simp: ClipboardBroker_write_def ClipboardBroker_issue_user_gesture_def
      ClipboardBroker_read_with_gesture_def Let_def)

interpretation clipboard: keyed_ops "\<lambda>b. case_option None (bt_get (cb_values b))" clip_key clip_apply
  by unfold_locales (auto simp: clip_value_frame split: option.split)

fun issues :: "uuid \<Rightarrow> ClipOp \<Rightarrow> bool" where
  "issues t (ClipIssue t') = (t' = t)"
| "issues t _ = False"

lemma gesture_frame: "\<not> issues t x \<Longrightarrow> t \<notin> cb_gestures b \<Longrightarrow> t \<notin> cb_gestures (clip_apply x b)"
  by (cases x) (auto simp: ClipboardBroker_write_def ClipboardBroker_issue_user_gesture_def
      ClipboardBroker_read_with_gesture_def Let_def)

lemma gesture_gone:
  "list_all (\<lambda>x. \<not> issues t x) xs \<Longrightarrow> t \<notin> cb_gestures b \<Longrightarrow> t \<notin> cb_gestures (fold clip_apply xs b)"
  by (induction xs arbitrary: b) (auto simp: gesture_frame)

subsection \<open>Properties\<close>

text \<open>
  What a page reads is what its own profile and origin last wrote: after a successful write,
  any operations that do not write to the same profile and origin leave it in place, and a read
  returns it exactly when the read permission stands, the refusal carrying the decision.
\<close>

theorem clipboard_reads_own_last_write:
  assumes "fst (ClipboardBroker_write perms profile origin val now b) = Inr ()"
    and "Some (profile, origin) \<notin> clip_key ` set xs"
  shows "ClipboardBroker_read perms' profile origin now'
           (fold clip_apply xs (snd (ClipboardBroker_write perms profile origin val now b)))
       = (let d = PermissionManager_check perms' profile origin ClipboardRead now' in
          if d = PermGranted then Inr val else Inl (ClipboardPermission d))"
proof -
  let ?b = "snd (ClipboardBroker_write perms profile origin val now b)"
  have "bt_get (cb_values (fold clip_apply xs ?b)) (profile, origin) = bt_get (cb_values ?b) (profile, origin)"
    using clipboard.ops_frame [OF assms(2), of ?b] by simp
  also have "\<dots> = Some val"
    using assms(1) by (auto simp: ClipboardBroker_write_def Let_def split: if_splits)
  finally show ?thesis by (simp add: ClipboardBroker_read_def Let_def)
qed

abbreviation sample_clip_perms :: PermissionManager where
  "sample_clip_perms \<equiv> fold perm_apply [PermSet 1 ''https://a.test'' ClipboardWrite True,
     PermSet 1 ''https://a.test'' ClipboardRead True] PermissionManager_default"

lemmas sample_clip_simps =
  PermissionManager_set_def PermissionManager_default_def PermissionManager_check_def
  ClipboardBroker_default_def Let_def

theorem clipboard_reads_own_last_write_witness:
  "ClipboardBroker_read sample_clip_perms 1 ''https://a.test'' 9
     (fold clip_apply [ClipIssue 4]
       (snd (ClipboardBroker_write sample_clip_perms 1 ''https://a.test'' ''copied'' 5 ClipboardBroker_default)))
   = Inr ''copied''"
proof -
  have w: "fst (ClipboardBroker_write sample_clip_perms 1 ''https://a.test'' ''copied'' 5 ClipboardBroker_default) = Inr ()"
    by (simp add: ClipboardBroker_write_def sample_clip_simps)
  have k: "Some (1, ''https://a.test'') \<notin> clip_key ` set [ClipIssue 4]" by simp
  show ?thesis using clipboard_reads_own_last_write [OF w k, of sample_clip_perms 9]
    by (simp add: sample_clip_simps)
qed

text \<open>
  A user gesture is good for one clipboard read at most: once a read has presented its token,
  whether the read was permitted or not, no later read with that token gets past the gesture
  check unless the same token is issued again.
\<close>

theorem gesture_authorises_one_read:
  assumes "list_all (\<lambda>x. \<not> issues token x) xs"
  shows "fst (ClipboardBroker_read_with_gesture perms' profile' origin' token now'
     (fold clip_apply xs (snd (ClipboardBroker_read_with_gesture perms profile origin token now b))))
     = Inl MissingUserGesture"
proof -
  have "token \<notin> cb_gestures (snd (ClipboardBroker_read_with_gesture perms profile origin token now b))"
    by (simp add: ClipboardBroker_read_with_gesture_def Let_def)
  from gesture_gone [OF assms this] show ?thesis by (simp add: ClipboardBroker_read_with_gesture_def)
qed

theorem gesture_authorises_one_read_witness:
  "fst (ClipboardBroker_read_with_gesture sample_clip_perms 1 ''https://a.test'' 4 9
     (fold clip_apply [ClipIssue 5] (snd (ClipboardBroker_read_with_gesture sample_clip_perms 1 ''https://a.test'' 4 8
        (snd (ClipboardBroker_issue_user_gesture 4 ClipboardBroker_default))))))
   = Inl MissingUserGesture"
  by (rule gesture_authorises_one_read) simp

end
