(* ===== verification/Transfers.thy ===== *)
theory Transfers
  imports Permissions Text
begin

section \<open>Downloads and uploads (crates/downloads, crates/uploads)\<close>

text \<open>
  Both crates admit a transfer behind a permission, a file-name check and a size limit, and then
  track its progress in a manager. The managers differ in their states (a download can be
  quarantined) and in their records; what they have in common, progress that is clamped to the
  declared size, is the locale \<open>transfer_manager\<close>, interpreted for both.
\<close>

subsection \<open>File names\<close>

text \<open>The two crates have the same function, each with its own error type.\<close>

definition filename_rejected :: "string \<Rightarrow> bool" where
  "filename_rejected filename =
     (filename = [] \<or> filename = ''.'' \<or> filename = ''..'' \<or> CHR ''/'' \<in> set filename
      \<or> CHR 92 \<in> set filename \<or> has_control filename)"

subsection \<open>Downloads\<close>

record DownloadHandle =
  dl_id :: uuid
  dl_profile :: ProfileId
  dl_origin :: string
  dl_filename :: string
  dl_bytes :: u64

datatype DownloadState = DlPending | DlInProgress | DlCompleted | DlCancelled | DlQuarantined

record DownloadRecord =
  dr_handle :: DownloadHandle
  dr_state :: DownloadState
  dr_received :: u64

record DownloadEvent =
  de_id :: uuid
  de_state :: DownloadState
  de_received :: u64

record DownloadManager =
  dm_records :: "(uuid, DownloadRecord) BTreeMap"
  dm_events :: "DownloadEvent list"

datatype DownloadError =
    DlPermission PermissionDecision
  | DlInvalidFilename
  | DlTooLarge
  | DlNotFound
  | DlInvalidState

definition DownloadManager_default :: DownloadManager where
  "DownloadManager_default = \<lparr>dm_records = [], dm_events = []\<rparr>"

definition download_normalize_filename :: "string \<Rightarrow> DownloadError + string" where
  "download_normalize_filename val =
     (let filename = str_trim val in
      if filename_rejected filename then Inl DlInvalidFilename else Inr filename)"

definition DownloadManager_add :: "DownloadHandle \<Rightarrow> DownloadManager \<Rightarrow> uuid \<times> DownloadManager" where
  "DownloadManager_add handle m =
     (dl_id handle,
      m\<lparr>dm_records := bt_insert (dl_id handle)
           \<lparr>dr_handle = handle, dr_state = DlPending, dr_received = 0\<rparr> (dm_records m),
        dm_events := dm_events m @ [\<lparr>de_id = dl_id handle, de_state = DlPending, de_received = 0\<rparr>]\<rparr>)"

text \<open>The three mutators end alike: the record is written back and its new state is an event.\<close>

definition download_write :: "uuid \<Rightarrow> DownloadRecord \<Rightarrow> DownloadManager \<Rightarrow> DownloadManager" where
  "download_write k r m =
     m\<lparr>dm_records := bt_insert k r (dm_records m),
       dm_events := dm_events m @ [\<lparr>de_id = k, de_state = dr_state r, de_received = dr_received r\<rparr>]\<rparr>"

definition DownloadManager_progress ::
    "uuid \<Rightarrow> u64 \<Rightarrow> DownloadManager \<Rightarrow> (DownloadError + DownloadRecord) \<times> DownloadManager" where
  "DownloadManager_progress k bytes m =
     (case bt_get (dm_records m) k of
        None \<Rightarrow> (Inl DlNotFound, m)
      | Some r \<Rightarrow>
          if dr_state r \<in> {DlCompleted, DlCancelled, DlQuarantined} then (Inl DlInvalidState, m)
          else let received = min (saturating_add (dr_received r) bytes) (dl_bytes (dr_handle r));
                   r' = r\<lparr>dr_state := (if received = dl_bytes (dr_handle r) then DlCompleted else DlInProgress),
                          dr_received := received\<rparr>
               in (Inr r', download_write k r' m))"

definition DownloadManager_cancel ::
    "uuid \<Rightarrow> DownloadManager \<Rightarrow> (DownloadError + DownloadRecord) \<times> DownloadManager" where
  "DownloadManager_cancel k m =
     (case bt_get (dm_records m) k of
        None \<Rightarrow> (Inl DlNotFound, m)
      | Some r \<Rightarrow>
          if dr_state r \<in> {DlCompleted, DlCancelled, DlQuarantined} then (Inl DlInvalidState, m)
          else let r' = r\<lparr>dr_state := DlCancelled\<rparr> in (Inr r', download_write k r' m))"

definition DownloadManager_quarantine ::
    "uuid \<Rightarrow> DownloadManager \<Rightarrow> (DownloadError + DownloadRecord) \<times> DownloadManager" where
  "DownloadManager_quarantine k m =
     (case bt_get (dm_records m) k of
        None \<Rightarrow> (Inl DlNotFound, m)
      | Some r \<Rightarrow>
          if dr_state r \<in> {DlCompleted, DlCancelled} then (Inl DlInvalidState, m)
          else let r' = r\<lparr>dr_state := DlQuarantined\<rparr> in (Inr r', download_write k r' m))"

definition DownloadManager_get :: "DownloadManager \<Rightarrow> uuid \<Rightarrow> DownloadRecord option" where
  "DownloadManager_get m k = bt_get (dm_records m) k"

definition DownloadManager_drain_events :: "DownloadManager \<Rightarrow> DownloadEvent list \<times> DownloadManager" where
  "DownloadManager_drain_events m = (dm_events m, m\<lparr>dm_events := []\<rparr>)"

definition download_begin ::
    "uuid \<Rightarrow> PermissionManager \<Rightarrow> ProfileId \<Rightarrow> string \<Rightarrow> string \<Rightarrow> u64 \<Rightarrow> u64 \<Rightarrow> u64
     \<Rightarrow> DownloadError + DownloadHandle" where
  "download_begin fresh permissions profile origin filename bytes max_bytes now =
     (let decision = PermissionManager_check permissions profile origin Downloads now in
      if decision \<noteq> PermGranted then Inl (DlPermission decision)
      else (case download_normalize_filename filename of
        Inl e \<Rightarrow> Inl e
      | Inr name \<Rightarrow>
          if bytes > max_bytes then Inl DlTooLarge
          else Inr \<lparr>dl_id = fresh, dl_profile = profile, dl_origin = origin, dl_filename = name,
                    dl_bytes = bytes\<rparr>))"

subsection \<open>Uploads\<close>

record UploadHandle =
  ul_id :: uuid
  ul_profile :: ProfileId
  ul_origin :: string
  ul_filename :: string
  ul_mime :: string
  ul_bytes :: u64

datatype UploadState = UlPending | UlInProgress | UlCompleted | UlCancelled

record UploadRecord =
  ur_handle :: UploadHandle
  ur_state :: UploadState
  ur_sent :: u64

record UploadEvent =
  ue_id :: uuid
  ue_state :: UploadState
  ue_sent :: u64

record UploadManager =
  um_records :: "(uuid, UploadRecord) BTreeMap"
  um_events :: "UploadEvent list"

datatype UploadError =
    UlPermission PermissionDecision
  | UlInvalidFilename
  | UlTooLarge
  | UlNotFound
  | UlInvalidState

definition UploadManager_default :: UploadManager where
  "UploadManager_default = \<lparr>um_records = [], um_events = []\<rparr>"

definition upload_normalize_filename :: "string \<Rightarrow> UploadError + string" where
  "upload_normalize_filename val =
     (let filename = str_trim val in
      if filename_rejected filename then Inl UlInvalidFilename else Inr filename)"

definition UploadManager_add :: "UploadHandle \<Rightarrow> UploadManager \<Rightarrow> uuid \<times> UploadManager" where
  "UploadManager_add handle m =
     (ul_id handle,
      m\<lparr>um_records := bt_insert (ul_id handle)
           \<lparr>ur_handle = handle, ur_state = UlPending, ur_sent = 0\<rparr> (um_records m),
        um_events := um_events m @ [\<lparr>ue_id = ul_id handle, ue_state = UlPending, ue_sent = 0\<rparr>]\<rparr>)"

definition upload_write :: "uuid \<Rightarrow> UploadRecord \<Rightarrow> UploadManager \<Rightarrow> UploadManager" where
  "upload_write k r m =
     m\<lparr>um_records := bt_insert k r (um_records m),
       um_events := um_events m @ [\<lparr>ue_id = k, ue_state = ur_state r, ue_sent = ur_sent r\<rparr>]\<rparr>"

definition UploadManager_progress ::
    "uuid \<Rightarrow> u64 \<Rightarrow> UploadManager \<Rightarrow> (UploadError + UploadRecord) \<times> UploadManager" where
  "UploadManager_progress k bytes m =
     (case bt_get (um_records m) k of
        None \<Rightarrow> (Inl UlNotFound, m)
      | Some r \<Rightarrow>
          if ur_state r \<in> {UlCompleted, UlCancelled} then (Inl UlInvalidState, m)
          else let sent = min (saturating_add (ur_sent r) bytes) (ul_bytes (ur_handle r));
                   r' = r\<lparr>ur_state := (if sent = ul_bytes (ur_handle r) then UlCompleted else UlInProgress),
                          ur_sent := sent\<rparr>
               in (Inr r', upload_write k r' m))"

definition UploadManager_cancel ::
    "uuid \<Rightarrow> UploadManager \<Rightarrow> (UploadError + UploadRecord) \<times> UploadManager" where
  "UploadManager_cancel k m =
     (case bt_get (um_records m) k of
        None \<Rightarrow> (Inl UlNotFound, m)
      | Some r \<Rightarrow>
          if ur_state r \<in> {UlCompleted, UlCancelled} then (Inl UlInvalidState, m)
          else let r' = r\<lparr>ur_state := UlCancelled\<rparr> in (Inr r', upload_write k r' m))"

definition UploadManager_get :: "UploadManager \<Rightarrow> uuid \<Rightarrow> UploadRecord option" where
  "UploadManager_get m k = bt_get (um_records m) k"

definition UploadManager_drain_events :: "UploadManager \<Rightarrow> UploadEvent list \<times> UploadManager" where
  "UploadManager_drain_events m = (um_events m, m\<lparr>um_events := []\<rparr>)"

definition upload_authorize ::
    "uuid \<Rightarrow> PermissionManager \<Rightarrow> ProfileId \<Rightarrow> string \<Rightarrow> string \<Rightarrow> string \<Rightarrow> u64 \<Rightarrow> u64 \<Rightarrow> u64
     \<Rightarrow> UploadError + UploadHandle" where
  "upload_authorize fresh permissions profile origin filename mime bytes max_bytes now =
     (let decision = PermissionManager_check permissions profile origin Uploads now in
      if decision \<noteq> PermGranted then Inl (UlPermission decision)
      else (case upload_normalize_filename filename of
        Inl e \<Rightarrow> Inl e
      | Inr name \<Rightarrow>
          if bytes > max_bytes then Inl UlTooLarge
          else Inr \<lparr>ul_id = fresh, ul_profile = profile, ul_origin = origin, ul_filename = name,
                    ul_mime = mime, ul_bytes = bytes\<rparr>))"

subsection \<open>The permission gates\<close>

interpretation download_gate: permission_gate
  "\<lambda>m now. download_begin fresh m profile origin filename bytes max_bytes now" DlPermission profile origin Downloads
  for fresh profile origin filename bytes max_bytes
  by unfold_locales (simp add: download_begin_def Let_def)

interpretation upload_gate: permission_gate
  "\<lambda>m now. upload_authorize fresh m profile origin filename mime bytes max_bytes now" UlPermission profile origin Uploads
  for fresh profile origin filename mime bytes max_bytes
  by unfold_locales (simp add: upload_authorize_def Let_def)

subsection \<open>Clamped progress\<close>

locale transfer_manager =
  fixes lookup :: "'m \<Rightarrow> uuid \<Rightarrow> 'r option"
    and progress :: "uuid \<Rightarrow> u64 \<Rightarrow> 'm \<Rightarrow> ('e + 'r) \<times> 'm"
    and moved total :: "'r \<Rightarrow> u64"
    and completed closed :: "'r \<Rightarrow> bool"
  assumes progress_open: "lookup m k = Some r \<Longrightarrow> \<not> closed r \<Longrightarrow>
      \<exists>r'. lookup (snd (progress k n m)) k = Some r'
        \<and> moved r' = min (saturating_add (moved r) n) (total r) \<and> total r' = total r
        \<and> completed r' = (moved r' = total r) \<and> closed r' = completed r'"
    and progress_closed: "lookup m k = Some r \<Longrightarrow> closed r \<Longrightarrow> snd (progress k n m) = m"
begin

definition chunks :: "uuid \<Rightarrow> u64 list \<Rightarrow> 'm \<Rightarrow> 'm" where
  "chunks k ns m = fold (\<lambda>n m. snd (progress k n m)) ns m"

lemma chunks_closed: "lookup m k = Some r \<Longrightarrow> closed r \<Longrightarrow> chunks k ns m = m"
  by (induction ns) (simp_all add: chunks_def progress_closed)

lemma unat_clamped:
  "unat (min (saturating_add a n) (t :: u64)) = min (unat t) (unat a + unat n)"
proof -
  have t: "unat t < 2 ^ 64" using unsigned_less [of t] by simp
  have "unat (min (saturating_add a n) t) = min (unat (saturating_add a n)) (unat t)"
    by (simp add: min_def word_le_nat_alt)
  with t show ?thesis by (simp add: unat_saturating_add)
qed

text \<open>However the transfer is cut into chunks, what has been moved is their sum, up to the size.\<close>

lemma chunks_add_up:
  assumes "lookup m k = Some r" "\<not> closed r" "moved r \<le> total r"
  shows "\<exists>r'. lookup (chunks k ns m) k = Some r' \<and> total r' = total r
     \<and> unat (moved r') = min (unat (total r)) (unat (moved r) + sum_list (map unat ns))
     \<and> (ns \<noteq> [] \<longrightarrow> completed r' = (unat (total r) \<le> unat (moved r) + sum_list (map unat ns)))"
  using assms
proof (induction ns arbitrary: m r)
  case Nil
  then show ?case by (auto simp: chunks_def word_le_nat_alt)
next
  case (Cons n ns)
  obtain r1 where r1: "lookup (snd (progress k n m)) k = Some r1"
    "moved r1 = min (saturating_add (moved r) n) (total r)" "total r1 = total r"
    "completed r1 = (moved r1 = total r)" "closed r1 = completed r1"
    using progress_open [OF Cons.prems(1,2)] by blast
  have u: "unat (moved r1) = min (unat (total r)) (unat (moved r) + unat n)"
    by (simp add: r1(2) unat_clamped)
  have step: "chunks k (n # ns) m = chunks k ns (snd (progress k n m))" by (simp add: chunks_def)
  show ?case
  proof (cases "closed r1")
    case True
    with r1 have full: "completed r1" "moved r1 = total r" by simp_all
    with u have "unat (total r) \<le> unat (moved r) + unat n" by simp
    with full r1 u show ?thesis unfolding step chunks_closed [OF r1(1) True] by (simp add: min_def)
  next
    case False
    with r1 u have less: "unat (moved r) + unat n < unat (total r)"
      by (metis min.absorb1 not_le word_unat_eq_iff)
    then have m1: "unat (moved r1) = unat (moved r) + unat n" "moved r1 \<le> total r1"
      using u r1(3) by (simp_all add: word_le_nat_alt)
    obtain r' where r': "lookup (chunks k ns (snd (progress k n m))) k = Some r'" "total r' = total r1"
      "unat (moved r') = min (unat (total r1)) (unat (moved r1) + sum_list (map unat ns))"
      "ns \<noteq> [] \<longrightarrow> completed r' = (unat (total r1) \<le> unat (moved r1) + sum_list (map unat ns))"
      using Cons.IH [OF r1(1) False m1(2)] by blast
    show ?thesis
    proof (cases "ns = []")
      case True
      with r' r1 False less have "r' = r1" by (simp add: chunks_def)
      with r' r1 False less m1 True show ?thesis unfolding step by (intro exI [of _ r']) simp
    next
      case ne: False
      with r' r1 m1 show ?thesis unfolding step by (intro exI [of _ r']) (simp add: add.assoc)
    qed
  qed
qed

end

interpretation download: transfer_manager DownloadManager_get DownloadManager_progress dr_received
  "\<lambda>r. dl_bytes (dr_handle r)" "\<lambda>r. dr_state r = DlCompleted"
  "\<lambda>r. dr_state r \<in> {DlCompleted, DlCancelled, DlQuarantined}"
  by unfold_locales
     (auto simp: DownloadManager_get_def DownloadManager_progress_def download_write_def Let_def)

interpretation upload: transfer_manager UploadManager_get UploadManager_progress ur_sent
  "\<lambda>r. ul_bytes (ur_handle r)" "\<lambda>r. ur_state r = UlCompleted"
  "\<lambda>r. ur_state r \<in> {UlCompleted, UlCancelled}"
  by unfold_locales
     (auto simp: UploadManager_get_def UploadManager_progress_def upload_write_def Let_def)

subsection \<open>Life cycle of a download\<close>

inductive download_step :: "DownloadManager \<Rightarrow> DownloadManager \<Rightarrow> bool" where
  add: "DownloadManager_get m (dl_id h) = None \<Longrightarrow> download_step m (snd (DownloadManager_add h m))"
| progress: "download_step m (snd (DownloadManager_progress k n m))"
| cancel: "download_step m (snd (DownloadManager_cancel k m))"
| quarantine: "download_step m (snd (DownloadManager_quarantine k m))"
| drain: "download_step m (snd (DownloadManager_drain_events m))"

definition record_below :: "DownloadRecord \<Rightarrow> DownloadRecord \<Rightarrow> bool" where
  "record_below r r' \<longleftrightarrow> dr_handle r' = dr_handle r \<and> dr_received r \<le> dr_received r'
     \<and> (dr_state r \<in> {DlCompleted, DlCancelled, DlQuarantined} \<longrightarrow> r' = r)"

definition download_ok :: "DownloadManager \<Rightarrow> bool" where
  "download_ok m \<longleftrightarrow> (\<forall>k r. DownloadManager_get m k = Some r \<longrightarrow>
     dr_received r \<le> dl_bytes (dr_handle r)
     \<and> (dr_state r = DlCompleted \<longrightarrow> dr_received r = dl_bytes (dr_handle r)))"

definition download_below :: "DownloadManager \<Rightarrow> DownloadManager \<Rightarrow> bool" where
  "download_below m n \<longleftrightarrow> (download_ok m \<longrightarrow> download_ok n \<and>
     (\<forall>k r. DownloadManager_get m k = Some r \<longrightarrow> (\<exists>r'. DownloadManager_get n k = Some r' \<and> record_below r r')))"

lemma record_below_refl [simp]: "record_below r r"
  by (simp add: record_below_def)

lemma record_below_trans: "record_below a b \<Longrightarrow> record_below b c \<Longrightarrow> record_below a c"
  by (auto simp: record_below_def)

lemma download_get_write [simp]:
  "DownloadManager_get (download_write k r m) j = (if j = k then Some r else DownloadManager_get m j)"
  by (simp add: download_write_def DownloadManager_get_def)

lemma download_below_write:
  assumes "DownloadManager_get m k = Some r"
    and "download_ok m \<Longrightarrow> record_below r r' \<and> dr_received r' \<le> dl_bytes (dr_handle r')
      \<and> (dr_state r' = DlCompleted \<longrightarrow> dr_received r' = dl_bytes (dr_handle r'))"
  shows "download_below m (download_write k r' m)"
  using assms by (auto simp: download_below_def download_ok_def)

lemma progress_received_grows:
  "a \<le> t \<Longrightarrow> a \<le> min (saturating_add a n) (t :: u64)"
  by (simp add: saturating_add_ge)

lemma download_step_below: "download_step m n \<Longrightarrow> download_below m n"
proof (induction rule: download_step.induct)
  case (add m h)
  then show ?case
    by (auto simp: download_below_def download_ok_def DownloadManager_add_def DownloadManager_get_def)
next
  case (progress m k n)
  show ?case
  proof (cases "DownloadManager_get m k")
    case (Some r)
    show ?thesis
    proof (cases "dr_state r \<in> {DlCompleted, DlCancelled, DlQuarantined}")
      case False
      with Some have "snd (DownloadManager_progress k n m) =
        download_write k (r\<lparr>dr_state := (if min (saturating_add (dr_received r) n) (dl_bytes (dr_handle r))
            = dl_bytes (dr_handle r) then DlCompleted else DlInProgress),
          dr_received := min (saturating_add (dr_received r) n) (dl_bytes (dr_handle r))\<rparr>) m"
        by (simp add: DownloadManager_progress_def DownloadManager_get_def Let_def)
      moreover have "download_ok m \<Longrightarrow> dr_received r \<le> dl_bytes (dr_handle r)"
        using Some by (simp add: download_ok_def)
      ultimately show ?thesis using False
        by (auto intro!: download_below_write [OF Some] simp: record_below_def saturating_add_ge)
    qed (use Some in \<open>auto simp: DownloadManager_progress_def DownloadManager_get_def download_below_def\<close>)
  qed (simp add: DownloadManager_progress_def DownloadManager_get_def download_below_def)
next
  case (cancel m k)
  then show ?case
    by (auto simp: DownloadManager_cancel_def DownloadManager_get_def download_ok_def record_below_def
        download_below_def download_write_def Let_def split: option.split)
next
  case (quarantine m k)
  then show ?case
    by (auto simp: DownloadManager_quarantine_def DownloadManager_get_def download_ok_def record_below_def
        download_below_def download_write_def Let_def split: option.split)
next
  case (drain m)
  then show ?case
    by (simp add: download_below_def download_ok_def DownloadManager_drain_events_def DownloadManager_get_def)
qed

lemma download_below_trans: "download_below a b \<Longrightarrow> download_below b c \<Longrightarrow> download_below a c"
  unfolding download_below_def by (meson record_below_trans)

interpretation download_life: monotone_steps download_step download_below
proof
  show "download_below m m" for m by (simp add: download_below_def)
  show "download_below a c" if "download_below a b" "download_below b c" for a b c
    using that by (rule download_below_trans)
  show "download_below m n" if "download_step m n" for m n using that by (rule download_step_below)
qed

lemma download_ok_default: "download_ok DownloadManager_default"
  by (simp add: download_ok_def DownloadManager_default_def DownloadManager_get_def)

subsection \<open>Properties\<close>

text \<open>
  Progress adds up: however a download is cut into chunks, with sizes that may overflow or
  exceed the declared size, the received count is the sum of the chunks clamped to the declared
  size, and the download is completed exactly when that size is reached.
\<close>

theorem download_chunks_add_up:
  assumes "DownloadManager_get m k = Some r" "dr_state r \<in> {DlPending, DlInProgress}"
    and "dr_received r \<le> dl_bytes (dr_handle r)" "ns \<noteq> []"
  shows "\<exists>r'. DownloadManager_get (fold (\<lambda>n m. snd (DownloadManager_progress k n m)) ns m) k = Some r'
     \<and> unat (dr_received r') = min (unat (dl_bytes (dr_handle r))) (unat (dr_received r) + sum_list (map unat ns))
     \<and> (dr_state r' = DlCompleted \<longleftrightarrow>
          unat (dl_bytes (dr_handle r)) \<le> unat (dr_received r) + sum_list (map unat ns))"
proof -
  have "dr_state r \<notin> {DlCompleted, DlCancelled, DlQuarantined}" using assms(2) by auto
  from download.chunks_add_up [OF assms(1) this assms(3), of ns] assms(4)
  show ?thesis unfolding download.chunks_def by blast
qed

definition sample_download :: DownloadHandle where
  "sample_download = \<lparr>dl_id = 1, dl_profile = 1, dl_origin = ''https://a.test'', dl_filename = ''report.pdf'',
     dl_bytes = 10\<rparr>"

theorem download_chunks_add_up_witness:
  "\<exists>r'. DownloadManager_get (fold (\<lambda>n m. snd (DownloadManager_progress 1 n m)) [6, 18446744073709551615]
       (snd (DownloadManager_add sample_download DownloadManager_default))) 1 = Some r' \<and> dr_state r' = DlCompleted"
proof -
  let ?m = "snd (DownloadManager_add sample_download DownloadManager_default)"
  have g: "DownloadManager_get ?m 1 = Some \<lparr>dr_handle = sample_download, dr_state = DlPending, dr_received = 0\<rparr>"
    by (simp add: DownloadManager_add_def DownloadManager_get_def sample_download_def)
  show ?thesis using download_chunks_add_up [OF g, of "[6, 18446744073709551615]"]
    by (auto simp: sample_download_def)
qed

text \<open>
  A download never reports more than its declared size, its count never goes back, and once
  completed, cancelled or quarantined its record never changes again, whatever calls follow.
\<close>

theorem download_records_are_monotone:
  assumes "download_step\<^sup>*\<^sup>* DownloadManager_default m" "download_step\<^sup>*\<^sup>* m m'"
    and "DownloadManager_get m k = Some r"
  shows "\<exists>r'. DownloadManager_get m' k = Some r' \<and> dr_handle r' = dr_handle r
     \<and> dr_received r \<le> dr_received r' \<and> dr_received r' \<le> dl_bytes (dr_handle r)
     \<and> (dr_state r \<in> {DlCompleted, DlCancelled, DlQuarantined} \<longrightarrow> r' = r)"
proof -
  have m: "download_ok m"
    using download_life.reach_below [OF assms(1)] download_ok_default by (simp add: download_below_def)
  with download_life.reach_below [OF assms(2)] have ok: "download_ok m'"
    and ex: "\<exists>r'. DownloadManager_get m' k = Some r' \<and> record_below r r'"
    using assms(3) unfolding download_below_def by blast+
  from ex obtain r' where r': "DownloadManager_get m' k = Some r'" "record_below r r'" by blast
  moreover from ok r'(1) have "dr_received r' \<le> dl_bytes (dr_handle r')" by (simp add: download_ok_def)
  ultimately show ?thesis by (auto simp: record_below_def)
qed

theorem download_records_are_monotone_witness:
  "\<exists>r'. DownloadManager_get (snd (DownloadManager_cancel 1 (snd (DownloadManager_progress 1 20
       (snd (DownloadManager_add sample_download DownloadManager_default)))))) 1 = Some r'
     \<and> dr_received r' \<le> 10"
proof -
  let ?a = "snd (DownloadManager_add sample_download DownloadManager_default)"
  have s: "download_step\<^sup>*\<^sup>* DownloadManager_default ?a"
    by (rule r_into_rtranclp, rule download_step.add) (simp add: DownloadManager_get_def DownloadManager_default_def)
  have t: "download_step\<^sup>*\<^sup>* ?a (snd (DownloadManager_cancel 1 (snd (DownloadManager_progress 1 20 ?a))))"
    by (rule rtranclp_trans [OF r_into_rtranclp r_into_rtranclp]) (rule download_step.intros)+
  have g: "DownloadManager_get ?a 1 = Some \<lparr>dr_handle = sample_download, dr_state = DlPending, dr_received = 0\<rparr>"
    by (simp add: DownloadManager_add_def DownloadManager_get_def sample_download_def)
  from download_records_are_monotone [OF s t g] show ?thesis
    by (auto simp: sample_download_def)
qed

lemma filename_ok_parts:
  assumes "\<not> filename_rejected (str_trim val)"
  shows "str_trim val \<noteq> []" "str_trim val \<notin> {''.'', ''..''}"
    "set (str_trim val) \<inter> {CHR ''/'', CHR 92} = {}" "\<not> has_control (str_trim val)"
  using assms by (auto simp: filename_rejected_def)

text \<open>
  A download is admitted only under a standing permission of its profile and origin, within
  the size limit, and under a file name that is a single path component: not empty, not a dot
  entry, without separators or control characters, and taken verbatim from the requested name.
\<close>

theorem admitted_downloads_are_safe:
  assumes "list_all (clock_at_most now) xs"
    and "download_begin fresh (fold perm_apply xs PermissionManager_default) profile origin name bytes limit now = Inr h"
  shows "(\<exists>ex. fold (spec_step (profile, origin, Downloads)) xs NoStanding = Allowed ex
        \<and> (case ex of None \<Rightarrow> True | Some t \<Rightarrow> now < t))
     \<and> dl_bytes h \<le> limit \<and> sublist (dl_filename h) name
     \<and> dl_filename h \<noteq> [] \<and> dl_filename h \<notin> {''.'', ''..''}
     \<and> set (dl_filename h) \<inter> {CHR ''/'', CHR 92} = {} \<and> \<not> has_control (dl_filename h)"
proof -
  from assms(2) have "dl_filename h = str_trim name" "\<not> filename_rejected (str_trim name)" "dl_bytes h \<le> limit"
    by (auto simp: download_begin_def download_normalize_filename_def Let_def not_less split: if_splits)
  then show ?thesis
    using download_gate.success_needs_standing [OF assms] filename_ok_parts [of name]
    by (simp add: str_trim_sublist)
qed

theorem admitted_downloads_are_safe_witness:
  "\<exists>h. download_begin 1 (fold perm_apply [PermSet 1 ''https://a.test'' Downloads True] PermissionManager_default)
         1 ''https://a.test'' '' report.pdf '' 10 100 0 = Inr h \<and> CHR ''/'' \<notin> set (dl_filename h)"
proof -
  let ?m = "fold perm_apply [PermSet 1 ''https://a.test'' Downloads True] PermissionManager_default"
  have n: "download_normalize_filename '' report.pdf '' = Inr ''report.pdf''" by code_simp
  have h: "download_begin 1 ?m 1 ''https://a.test'' '' report.pdf '' 10 100 0 = Inr sample_download"
    by (simp add: download_begin_def n PermissionManager_check_def PermissionManager_set_def
        PermissionManager_default_def Let_def sample_download_def)
  have "list_all (clock_at_most 0) [PermSet 1 ''https://a.test'' Downloads True]" by simp
  from admitted_downloads_are_safe [OF this h] h show ?thesis by blast
qed

end
