(* ===== verification/SecretStore.thy ===== *)
theory SecretStore
  imports BTreeMap "HOL-Library.Multiset"
begin

section \<open>The secret broker (crates/secret-store)\<close>

text \<open>
  Secrets are stored encrypted under a handle and released only to a callback, against a
  capability the broker issued for a profile, an origin and a purpose. ChaCha20-Poly1305 is a
  pair of functions \<open>enc\<close> and \<open>dec\<close>; what the broker relies on is that decrypting what was
  encrypted under the same key and nonce gives the plaintext back (\<open>aead\<close>).

  The maps of the broker are \<open>HashMap\<close>s, whose iteration order is unspecified. Lookups and
  updates do not depend on it; \<open>export_snapshot\<close>, which iterates, takes the order as arguments.
  New identifiers and the wall clock are arguments too.
\<close>

type_synonym nonce = "96 word"

record AeadCipher =
  enc :: "string \<Rightarrow> nonce \<Rightarrow> string \<Rightarrow> string"
  dec :: "string \<Rightarrow> nonce \<Rightarrow> string \<Rightarrow> string option"

definition aead :: "AeadCipher \<Rightarrow> bool" where
  "aead C \<longleftrightarrow> (\<forall>k n p. dec C k n (enc C k n p) = Some p)"

record SecretCapability =
  cap_reference :: uuid
  cap_handle :: uuid
  cap_profile :: ProfileId
  cap_origin :: string
  cap_purpose :: string
  cap_one_time :: bool
  cap_expires_at_unix_seconds :: "u64 option"

datatype SecretError =
    UnknownHandle
  | InvalidCapability
  | OriginMismatch
  | ProfileMismatch
  | AlreadyConsumed
  | ExpiredCapability
  | InvalidSecret
  | CorruptRecord
  | UnsupportedSnapshotVersion
  | ConsentRequired
  | PolicyDenied

record SecretPolicy =
  sp_allowed_purposes :: "string set option"
  sp_max_lifetime_seconds :: "u64 option"

definition SecretPolicy_default :: SecretPolicy where
  "SecretPolicy_default = \<lparr>sp_allowed_purposes = None, sp_max_lifetime_seconds = None\<rparr>"

definition SecretPolicy_allow_purposes :: "string list \<Rightarrow> SecretPolicy" where
  "SecretPolicy_allow_purposes purposes =
     \<lparr>sp_allowed_purposes = Some (set purposes), sp_max_lifetime_seconds = None\<rparr>"

definition SecretPolicy_with_max_lifetime_seconds :: "u64 \<Rightarrow> SecretPolicy \<Rightarrow> SecretPolicy" where
  "SecretPolicy_with_max_lifetime_seconds seconds p = p\<lparr>sp_max_lifetime_seconds := Some seconds\<rparr>"

datatype SecretEvent =
    EvStored ProfileId string
  | EvGranted ProfileId string string bool
  | EvReleased ProfileId string string bool
  | EvExpired ProfileId string string
  | EvRevoked ProfileId string

record SecretRecord =
  srec_profile :: ProfileId
  srec_origin :: string
  srec_nonce :: nonce
  srec_ciphertext :: string

record SecretStoreSnapshot =
  snap_schema_version :: u32
  snap_records :: "(uuid \<times> SecretRecord) list"
  snap_consumed :: "uuid list"
  snap_policy :: SecretPolicy

record SecretBroker =
  sb_records :: "(uuid, SecretRecord) BTreeMap"
  sb_consumed :: "uuid set"
  sb_events :: "SecretEvent list"
  sb_key :: string
  sb_policy :: SecretPolicy

definition SecretBroker_new :: "string \<Rightarrow> SecretBroker" where
  "SecretBroker_new key =
     \<lparr>sb_records = [], sb_consumed = {}, sb_events = [], sb_key = key, sb_policy = SecretPolicy_default\<rparr>"

definition SecretBroker_with_policy :: "string \<Rightarrow> SecretPolicy \<Rightarrow> SecretBroker" where
  "SecretBroker_with_policy key policy = (SecretBroker_new key)\<lparr>sb_policy := policy\<rparr>"

definition SecretBroker_set_policy :: "SecretPolicy \<Rightarrow> SecretBroker \<Rightarrow> SecretBroker" where
  "SecretBroker_set_policy policy b = b\<lparr>sb_policy := policy\<rparr>"

definition SNAPSHOT_SCHEMA_VERSION :: u32 where
  "SNAPSHOT_SCHEMA_VERSION = 1"

text \<open>\<open>iter\<close> and \<open>enum\<close> are the iteration orders of the two hash tables.\<close>

definition SecretBroker_export_snapshot ::
    "((uuid \<times> SecretRecord) list \<Rightarrow> (uuid \<times> SecretRecord) list) \<Rightarrow> (uuid set \<Rightarrow> uuid list)
     \<Rightarrow> SecretBroker \<Rightarrow> SecretStoreSnapshot" where
  "SecretBroker_export_snapshot iter enum b =
     \<lparr>snap_schema_version = SNAPSHOT_SCHEMA_VERSION, snap_records = iter (sb_records b),
      snap_consumed = enum (sb_consumed b), snap_policy = sb_policy b\<rparr>"

definition SecretBroker_from_snapshot ::
    "SecretStoreSnapshot \<Rightarrow> string \<Rightarrow> SecretError + SecretBroker" where
  "SecretBroker_from_snapshot snapshot key =
     (if snap_schema_version snapshot \<noteq> SNAPSHOT_SCHEMA_VERSION then Inl UnsupportedSnapshotVersion
      else Inr ((SecretBroker_new key)
        \<lparr>sb_records := fold (\<lambda>e m. bt_insert (fst e) (snd e) m) (snap_records snapshot) [],
         sb_consumed := set (snap_consumed snapshot),
         sb_policy := snap_policy snapshot\<rparr>))"

text \<open>The first twelve bytes of the handle, most significant first.\<close>

definition nonce_for :: "uuid \<Rightarrow> nonce" where
  "nonce_for handle = ucast (drop_bit 32 handle)"

definition SecretBroker_store ::
    "AeadCipher \<Rightarrow> uuid \<Rightarrow> ProfileId \<Rightarrow> string \<Rightarrow> string \<Rightarrow> SecretBroker \<Rightarrow> uuid \<times> SecretBroker" where
  "SecretBroker_store C handle profile origin secret b =
     (handle,
      b\<lparr>sb_records := bt_insert handle
           \<lparr>srec_profile = profile, srec_origin = origin, srec_nonce = nonce_for handle,
            srec_ciphertext = enc C (sb_key b) (nonce_for handle) secret\<rparr> (sb_records b),
        sb_events := sb_events b @ [EvStored profile origin]\<rparr>)"

definition SecretBroker_grant_for_with_consent ::
    "uuid \<Rightarrow> u64 \<Rightarrow> uuid \<Rightarrow> ProfileId \<Rightarrow> string \<Rightarrow> string \<Rightarrow> bool \<Rightarrow> u64 option \<Rightarrow> bool \<Rightarrow> SecretBroker
     \<Rightarrow> (SecretError + SecretCapability) \<times> SecretBroker" where
  "SecretBroker_grant_for_with_consent fresh now handle profile origin purpose one_time lifetime consent b =
     (if \<not> consent then (Inl ConsentRequired, b)
      else (case bt_get (sb_records b) handle of
        None \<Rightarrow> (Inl UnknownHandle, b)
      | Some r \<Rightarrow>
          if srec_profile r \<noteq> profile then (Inl ProfileMismatch, b)
          else if srec_origin r \<noteq> origin then (Inl OriginMismatch, b)
          else if (case sp_allowed_purposes (sb_policy b) of
                     None \<Rightarrow> False | Some allowed \<Rightarrow> purpose \<notin> allowed)
          then (Inl PolicyDenied, b)
          else if (case sp_max_lifetime_seconds (sb_policy b) of
                     None \<Rightarrow> False
                   | Some maximum \<Rightarrow> (case lifetime of None \<Rightarrow> False | Some v \<Rightarrow> v > maximum))
          then (Inl PolicyDenied, b)
          else (Inr \<lparr>cap_reference = fresh, cap_handle = handle, cap_profile = profile,
                     cap_origin = origin, cap_purpose = purpose, cap_one_time = one_time,
                     cap_expires_at_unix_seconds = map_option (saturating_add now) lifetime\<rparr>,
                b\<lparr>sb_events := sb_events b @ [EvGranted profile origin purpose one_time]\<rparr>)))"

definition SecretBroker_grant ::
    "uuid \<Rightarrow> u64 \<Rightarrow> uuid \<Rightarrow> ProfileId \<Rightarrow> string \<Rightarrow> string \<Rightarrow> bool \<Rightarrow> SecretBroker
     \<Rightarrow> (SecretError + SecretCapability) \<times> SecretBroker" where
  "SecretBroker_grant fresh now handle profile origin purpose one_time b =
     SecretBroker_grant_for_with_consent fresh now handle profile origin purpose one_time None True b"

definition SecretBroker_grant_with_consent ::
    "uuid \<Rightarrow> u64 \<Rightarrow> uuid \<Rightarrow> ProfileId \<Rightarrow> string \<Rightarrow> string \<Rightarrow> bool \<Rightarrow> bool \<Rightarrow> SecretBroker
     \<Rightarrow> (SecretError + SecretCapability) \<times> SecretBroker" where
  "SecretBroker_grant_with_consent fresh now handle profile origin purpose one_time consent b =
     SecretBroker_grant_for_with_consent fresh now handle profile origin purpose one_time None consent b"

definition SecretBroker_grant_for ::
    "uuid \<Rightarrow> u64 \<Rightarrow> uuid \<Rightarrow> ProfileId \<Rightarrow> string \<Rightarrow> string \<Rightarrow> bool \<Rightarrow> u64 option \<Rightarrow> SecretBroker
     \<Rightarrow> (SecretError + SecretCapability) \<times> SecretBroker" where
  "SecretBroker_grant_for fresh now handle profile origin purpose one_time lifetime b =
     SecretBroker_grant_for_with_consent fresh now handle profile origin purpose one_time lifetime True b"

definition SecretBroker_revoke :: "uuid \<Rightarrow> SecretBroker \<Rightarrow> bool \<times> SecretBroker" where
  "SecretBroker_revoke handle b =
     (case bt_get (sb_records b) handle of
        None \<Rightarrow> (False, b)
      | Some r \<Rightarrow>
          (True, b\<lparr>sb_records := bt_remove handle (sb_records b),
                   sb_events := sb_events b @ [EvRevoked (srec_profile r) (srec_origin r)]\<rparr>))"

definition SecretBroker_with_secret ::
    "AeadCipher \<Rightarrow> u64 \<Rightarrow> SecretCapability \<Rightarrow> ProfileId \<Rightarrow> string \<Rightarrow> (string \<Rightarrow> 't) \<Rightarrow> SecretBroker
     \<Rightarrow> (SecretError + 't) \<times> SecretBroker" where
  "SecretBroker_with_secret C now c profile origin use_secret b =
     (if cap_profile c \<noteq> profile then (Inl ProfileMismatch, b)
      else if cap_origin c \<noteq> origin then (Inl OriginMismatch, b)
      else if cap_one_time c \<and> cap_reference c \<in> sb_consumed b then (Inl AlreadyConsumed, b)
      else if (case cap_expires_at_unix_seconds c of None \<Rightarrow> False | Some expires \<Rightarrow> expires \<le> now)
      then (Inl ExpiredCapability,
            b\<lparr>sb_events := sb_events b @ [EvExpired (cap_profile c) (cap_origin c) (cap_purpose c)]\<rparr>)
      else (case bt_get (sb_records b) (cap_handle c) of
        None \<Rightarrow> (Inl InvalidCapability, b)
      | Some r \<Rightarrow>
          if srec_profile r \<noteq> cap_profile c then (Inl ProfileMismatch, b)
          else if srec_origin r \<noteq> cap_origin c then (Inl OriginMismatch, b)
          else (case dec C (sb_key b) (srec_nonce r) (srec_ciphertext r) of
              None \<Rightarrow> (Inl CorruptRecord, b)
            | Some plaintext \<Rightarrow>
                (Inr (use_secret plaintext),
                 b\<lparr>sb_consumed := (if cap_one_time c then insert (cap_reference c) (sb_consumed b)
                                   else sb_consumed b),
                   sb_events := sb_events b @
                     [EvReleased (cap_profile c) (cap_origin c) (cap_purpose c) (cap_one_time c)]\<rparr>))))"

definition SecretBroker_drain_events :: "SecretBroker \<Rightarrow> SecretEvent list \<times> SecretBroker" where
  "SecretBroker_drain_events b = (sb_events b, b\<lparr>sb_events := []\<rparr>)"

subsection \<open>Snapshots\<close>

definition iterates :: "((uuid \<times> SecretRecord) list \<Rightarrow> (uuid \<times> SecretRecord) list) \<Rightarrow> (uuid set \<Rightarrow> uuid list) \<Rightarrow> bool" where
  "iterates iter enum \<longleftrightarrow> (\<forall>xs. mset (iter xs) = mset xs) \<and> (\<forall>S. finite S \<longrightarrow> set (enum S) = S)"

definition broker_ok :: "SecretBroker \<Rightarrow> bool" where
  "broker_ok b \<longleftrightarrow> bt_ok (sb_records b) \<and> finite (sb_consumed b)"

lemma bt_collect_mset:
  assumes "bt_ok m" "mset es = mset m"
  shows "bt_collect es = m"
proof (rule bt_ext)
  have d: "distinct (map fst es)"
    using assms bt_ok_distinct [OF assms(1)] by (metis mset_eq_imp_distinct_iff mset_map)
  have s: "set es = set m" using assms(2) by (rule mset_eq_setD)
  show "bt_get (bt_collect es) k = bt_get m k" for k
    using map_of_inject_set [OF d bt_ok_distinct [OF assms(1)]] s
    by (simp add: bt_get_collect bt_get_rev [OF d]) (simp add: bt_get_def)
qed (use assms in simp_all)

lemma snapshot_round_trip:
  assumes "broker_ok b" "iterates iter enum"
  shows "SecretBroker_from_snapshot (SecretBroker_export_snapshot iter enum b) (sb_key b) = Inr (b\<lparr>sb_events := []\<rparr>)"
  using assms bt_collect_mset [of "sb_records b" "iter (sb_records b)"]
  by (simp add: SecretBroker_from_snapshot_def SecretBroker_export_snapshot_def SecretBroker_new_def
      broker_ok_def iterates_def bt_collect_def)

subsection \<open>Sequences of operations\<close>

datatype SecretOp =
    SStore uuid ProfileId string string
  | SGrant uuid u64 uuid ProfileId string string bool "u64 option" bool
  | SRevoke uuid
  | SUse u64 SecretCapability ProfileId string
  | SSetPolicy SecretPolicy
  | SDrain
  | SReload "(uuid \<times> SecretRecord) list \<Rightarrow> (uuid \<times> SecretRecord) list" "uuid set \<Rightarrow> uuid list"

text \<open>\<open>SReload\<close> is a restart: the snapshot is exported and read back with the same key.\<close>

fun secret_apply :: "AeadCipher \<Rightarrow> SecretOp \<Rightarrow> SecretBroker \<Rightarrow> SecretBroker" where
  "secret_apply C (SStore h p u s) b = snd (SecretBroker_store C h p u s b)"
| "secret_apply C (SGrant f n h p u q ot l c) b = snd (SecretBroker_grant_for_with_consent f n h p u q ot l c b)"
| "secret_apply C (SRevoke h) b = snd (SecretBroker_revoke h b)"
| "secret_apply C (SUse n c p u) b = snd (SecretBroker_with_secret C n c p u (\<lambda>_. ()) b)"
| "secret_apply C (SSetPolicy p) b = SecretBroker_set_policy p b"
| "secret_apply C SDrain b = snd (SecretBroker_drain_events b)"
| "secret_apply C (SReload iter enum) b =
     (case SecretBroker_from_snapshot (SecretBroker_export_snapshot iter enum b) (sb_key b) of
        Inl _ \<Rightarrow> b | Inr b' \<Rightarrow> b')"

fun op_faithful :: "SecretOp \<Rightarrow> bool" where
  "op_faithful (SReload iter enum) = iterates iter enum"
| "op_faithful _ = True"

lemma with_secret_state:
  "snd (SecretBroker_with_secret C n c p u f b) = snd (SecretBroker_with_secret C n c p u g b)"
  by (simp add: SecretBroker_with_secret_def split: option.split)

lemmas secret_op_defs =
  SecretBroker_store_def SecretBroker_grant_for_with_consent_def SecretBroker_revoke_def
  SecretBroker_with_secret_def SecretBroker_set_policy_def SecretBroker_drain_events_def

lemma secret_apply_reload:
  "broker_ok b \<Longrightarrow> iterates iter enum \<Longrightarrow> secret_apply C (SReload iter enum) b = b\<lparr>sb_events := []\<rparr>"
  by (simp add: snapshot_round_trip)

declare secret_apply.simps(7) [simp del]

lemma broker_ok_apply: "broker_ok b \<Longrightarrow> op_faithful x \<Longrightarrow> broker_ok (secret_apply C x b)"
proof (cases x)
  case (SReload iter enum)
  assume "broker_ok b" "op_faithful x"
  with SReload show ?thesis by (simp add: secret_apply_reload) (simp add: broker_ok_def)
qed (auto simp: broker_ok_def secret_op_defs split: option.split)

lemma broker_ok_run: "broker_ok b \<Longrightarrow> list_all op_faithful xs \<Longrightarrow> broker_ok (fold (secret_apply C) xs b)"
  by (induction xs arbitrary: b) (auto simp: broker_ok_apply)

lemma broker_ok_new [simp]: "broker_ok (SecretBroker_new key)"
  by (simp add: broker_ok_def SecretBroker_new_def)

text \<open>Consumed references accumulate, also across a restart, and the key stays.\<close>

lemma consumed_key_apply:
  assumes "broker_ok b" "op_faithful x"
  shows "sb_consumed b \<subseteq> sb_consumed (secret_apply C x b) \<and> sb_key (secret_apply C x b) = sb_key b"
proof (cases x)
  case (SReload iter enum)
  with assms show ?thesis by (simp add: secret_apply_reload)
qed (auto simp: secret_op_defs split: option.split)

lemma consumed_key_run:
  "broker_ok b \<Longrightarrow> list_all op_faithful xs \<Longrightarrow>
   sb_consumed b \<subseteq> sb_consumed (fold (secret_apply C) xs b) \<and> sb_key (fold (secret_apply C) xs b) = sb_key b"
proof (induction xs arbitrary: b)
  case (Cons x xs)
  then show ?case using consumed_key_apply [of b x C] broker_ok_apply [of b x C] by fastforce
qed simp

text \<open>Only storing under a handle or revoking it touches the record of that handle.\<close>

fun touches :: "uuid \<Rightarrow> SecretOp \<Rightarrow> bool" where
  "touches h (SStore h' _ _ _) = (h' = h)"
| "touches h (SRevoke h') = (h' = h)"
| "touches h _ = False"

fun stores :: "uuid \<Rightarrow> SecretOp \<Rightarrow> bool" where
  "stores h (SStore h' _ _ _) = (h' = h)"
| "stores h _ = False"

lemma record_apply_frame:
  assumes "broker_ok b" "op_faithful x" "\<not> touches h x"
  shows "bt_get (sb_records (secret_apply C x b)) h = bt_get (sb_records b) h"
proof (cases x)
  case (SReload iter enum)
  with assms show ?thesis by (simp add: secret_apply_reload)
qed (use assms(3) in \<open>auto simp: secret_op_defs split: option.split\<close>)

lemma record_run_frame:
  "broker_ok b \<Longrightarrow> list_all op_faithful xs \<Longrightarrow> list_all (\<lambda>x. \<not> touches h x) xs \<Longrightarrow>
   bt_get (sb_records (fold (secret_apply C) xs b)) h = bt_get (sb_records b) h"
proof (induction xs arbitrary: b)
  case (Cons x xs)
  then show ?case using record_apply_frame [of b x h C] broker_ok_apply [of b x C] by simp
qed simp

lemma record_stays_gone:
  "broker_ok b \<Longrightarrow> list_all op_faithful xs \<Longrightarrow> list_all (\<lambda>x. \<not> stores h x) xs \<Longrightarrow>
   bt_get (sb_records b) h = None \<Longrightarrow> bt_get (sb_records (fold (secret_apply C) xs b)) h = None"
proof (induction xs arbitrary: b)
  case (Cons x xs)
  have "bt_get (sb_records (secret_apply C x b)) h = None"
  proof (cases "touches h x")
    case True
    with Cons.prems show ?thesis by (cases x) (auto simp: SecretBroker_revoke_def split: option.split)
  next
    case False
    with Cons.prems show ?thesis by (simp add: record_apply_frame)
  qed
  with Cons show ?case by (simp add: broker_ok_apply)
qed simp

subsection \<open>Public behaviour does not depend on secrets\<close>

text \<open>
  Two runs that differ in the secret bytes only. \<open>public_view\<close> is everything of a broker but the
  ciphertexts and the key.
\<close>

fun same_but_secret :: "SecretOp \<Rightarrow> SecretOp \<Rightarrow> bool" where
  "same_but_secret (SStore h p u s) y = (\<exists>s'. y = SStore h p u s')"
| "same_but_secret x y = (y = x)"

definition public_view :: "SecretBroker \<Rightarrow> (uuid, ProfileId \<times> string \<times> nonce) BTreeMap \<times> uuid set \<times> SecretEvent list \<times> SecretPolicy" where
  "public_view b =
     (bt_map_values (\<lambda>r. (srec_profile r, srec_origin r, srec_nonce r)) (sb_records b),
      sb_consumed b, sb_events b, sb_policy b)"

definition decryptable :: "AeadCipher \<Rightarrow> SecretBroker \<Rightarrow> bool" where
  "decryptable C b \<longleftrightarrow> (\<forall>h r. bt_get (sb_records b) h = Some r \<longrightarrow>
     dec C (sb_key b) (srec_nonce r) (srec_ciphertext r) \<noteq> None)"

lemma bt_map_values_insert: "bt_map_values f (bt_insert k v m) = bt_insert k (f v) (bt_map_values f m)"
  by (simp add: bt_map_values_def bt_insert_def filter_map comp_def)

lemma bt_map_values_remove: "bt_map_values f (bt_remove k m) = bt_remove k (bt_map_values f m)"
  by (simp add: bt_map_values_def bt_remove_def filter_map comp_def)

lemma decryptable_apply:
  assumes "aead C" "broker_ok b" "op_faithful x" "decryptable C b"
  shows "decryptable C (secret_apply C x b)"
proof (cases x)
  case (SReload iter enum)
  with assms show ?thesis by (simp add: secret_apply_reload) (simp add: decryptable_def)
qed (use assms(1,4) in \<open>auto simp: decryptable_def secret_op_defs aead_def split: option.split\<close>)

lemma public_records:
  assumes "public_view b = public_view b'"
  shows "map_option (\<lambda>r. (srec_profile r, srec_origin r, srec_nonce r)) (bt_get (sb_records b) h) =
         map_option (\<lambda>r. (srec_profile r, srec_origin r, srec_nonce r)) (bt_get (sb_records b') h)"
  using assms by (simp add: public_view_def flip: bt_get_map_values)

lemma public_cases:
  assumes "public_view b = public_view b'"
  obtains (none) "bt_get (sb_records b) h = None" "bt_get (sb_records b') h = None"
    | (some) r r' where "bt_get (sb_records b) h = Some r" "bt_get (sb_records b') h = Some r'"
        "srec_profile r' = srec_profile r" "srec_origin r' = srec_origin r" "srec_nonce r' = srec_nonce r"
  using public_records [OF assms, of h]
  by (cases "bt_get (sb_records b) h"; cases "bt_get (sb_records b') h") auto

lemma public_parts:
  assumes "public_view b = public_view b'"
  shows "sb_consumed b' = sb_consumed b" "sb_events b' = sb_events b" "sb_policy b' = sb_policy b"
    "bt_map_values (\<lambda>r. (srec_profile r, srec_origin r, srec_nonce r)) (sb_records b') =
     bt_map_values (\<lambda>r. (srec_profile r, srec_origin r, srec_nonce r)) (sb_records b)"
  using assms by (simp_all add: public_view_def)

lemma public_grant:
  assumes "public_view b = public_view b'"
  shows "fst (SecretBroker_grant_for_with_consent f n h p u q ot l c b) =
         fst (SecretBroker_grant_for_with_consent f n h p u q ot l c b')"
    and "public_view (snd (SecretBroker_grant_for_with_consent f n h p u q ot l c b)) =
         public_view (snd (SecretBroker_grant_for_with_consent f n h p u q ot l c b'))"
  by (cases rule: public_cases [OF assms, of h];
      simp add: SecretBroker_grant_for_with_consent_def public_parts [OF assms] public_view_def)+

lemma public_revoke:
  assumes "public_view b = public_view b'"
  shows "public_view (snd (SecretBroker_revoke h b)) = public_view (snd (SecretBroker_revoke h b'))"
  by (cases rule: public_cases [OF assms, of h])
     (simp_all add: SecretBroker_revoke_def public_parts [OF assms] public_view_def bt_map_values_remove)

lemma public_use:
  assumes "public_view b = public_view b'" "decryptable C b" "decryptable C b'"
  shows "public_view (snd (SecretBroker_with_secret C n c p u f b)) =
         public_view (snd (SecretBroker_with_secret C n c p u f b'))"
  using assms(1)
proof (cases rule: public_cases [where h = "cap_handle c"])
  case none
  then show ?thesis
    by (simp add: SecretBroker_with_secret_def public_parts [OF assms(1)] public_view_def)
next
  case (some r r')
  with assms(2,3) obtain t t' where "dec C (sb_key b) (srec_nonce r) (srec_ciphertext r) = Some t"
    "dec C (sb_key b') (srec_nonce r') (srec_ciphertext r') = Some t'"
    unfolding decryptable_def by (metis not_None_eq)
  with some show ?thesis
    by (simp add: SecretBroker_with_secret_def public_parts [OF assms(1)] public_view_def)
qed

lemma public_apply:
  assumes "public_view b = public_view b'" "same_but_secret x y" "op_faithful x"
    and "broker_ok b" "broker_ok b'" "decryptable C b" "decryptable C b'"
  shows "public_view (secret_apply C x b) = public_view (secret_apply C y b')"
proof (cases x)
  case (SReload iter enum)
  with assms(2) have y: "y = x" by simp
  from SReload assms(3) have i: "iterates iter enum" by simp
  show ?thesis unfolding y SReload secret_apply_reload [OF assms(4) i] secret_apply_reload [OF assms(5) i]
    using public_parts [OF assms(1)] by (simp add: public_view_def)
next
  case (SStore h p u s)
  with assms(2) obtain s' where y: "y = SStore h p u s'" by auto
  show ?thesis unfolding y SStore
    by (simp add: SecretBroker_store_def public_view_def bt_map_values_insert public_parts [OF assms(1)])
next
  case (SGrant f n h p u q ot l c)
  with assms(2) show ?thesis by (simp add: public_grant(2) [OF assms(1)])
next
  case (SRevoke h)
  with assms(2) show ?thesis by (simp add: public_revoke [OF assms(1)])
next
  case (SUse n c p u)
  with assms(2) show ?thesis by (simp add: public_use [OF assms(1,6,7)])
next
  case (SSetPolicy p)
  with assms(2) public_parts [OF assms(1)] show ?thesis
    by (simp add: SecretBroker_set_policy_def public_view_def)
next
  case SDrain
  with assms(2) public_parts [OF assms(1)] show ?thesis
    by (simp add: SecretBroker_drain_events_def public_view_def)
qed

lemma public_run:
  assumes "aead C" "list_all2 same_but_secret xs ys" "list_all op_faithful xs"
    and "public_view b = public_view b'" "broker_ok b" "broker_ok b'" "decryptable C b" "decryptable C b'"
  shows "public_view (fold (secret_apply C) xs b) = public_view (fold (secret_apply C) ys b')"
  using assms(2-)
proof (induction xs ys arbitrary: b b' rule: list_all2_induct)
  case (Cons x xs y ys)
  have f: "op_faithful y" using Cons(1,4) by (cases x) auto
  have "public_view (secret_apply C x b) = public_view (secret_apply C y b')"
    using Cons.prems Cons(1) by (intro public_apply) simp_all
  then have "public_view (fold (secret_apply C) xs (secret_apply C x b)) =
      public_view (fold (secret_apply C) ys (secret_apply C y b'))"
    using Cons.prems f by (intro Cons.IH) (simp_all add: broker_ok_apply decryptable_apply [OF assms(1)])
  then show ?case by simp
qed simp

subsection \<open>Properties\<close>

text \<open>
  C4: a one-time capability releases its secret at most once: after one release, whatever the
  broker does next, restarts from its own snapshot included, every further use of the capability
  is refused, as already consumed when the profile and origin are the right ones.
\<close>

theorem one_time_capability_releases_once:
  assumes "broker_ok b" "cap_one_time c" "list_all op_faithful xs"
    and "fst (SecretBroker_with_secret C now c profile origin f b) = Inr y"
  shows "fst (SecretBroker_with_secret C now' c profile' origin' g
      (fold (secret_apply C) xs (snd (SecretBroker_with_secret C now c profile origin f b))))
    = Inl (if profile' \<noteq> profile then ProfileMismatch else if origin' \<noteq> origin then OriginMismatch
           else AlreadyConsumed)"
proof -
  let ?b = "snd (SecretBroker_with_secret C now c profile origin f b)"
  from assms(2,4) have c: "cap_profile c = profile" "cap_origin c = origin" "cap_reference c \<in> sb_consumed ?b"
    by (auto simp: SecretBroker_with_secret_def split: if_splits option.splits)
  have "?b = secret_apply C (SUse now c profile origin) b"
    using with_secret_state [of C now c profile origin f b "\<lambda>_. ()"] by simp
  then have "broker_ok ?b" using broker_ok_apply [OF assms(1), of "SUse now c profile origin" C] by simp
  from consumed_key_run [OF this assms(3)] c(3)
  have "cap_reference c \<in> sb_consumed (fold (secret_apply C) xs ?b)" by blast
  with c assms(2) show ?thesis by (auto simp: SecretBroker_with_secret_def)
qed

definition toy_cipher :: AeadCipher where
  "toy_cipher = \<lparr>enc = (\<lambda>k n p. CHR ''#'' # p), dec = (\<lambda>k n t. case t of [] \<Rightarrow> None | _ # p \<Rightarrow> Some p)\<rparr>"

lemma aead_toy_cipher: "aead toy_cipher"
  by (simp add: aead_def toy_cipher_def)

definition sample_broker :: SecretBroker where
  "sample_broker = snd (SecretBroker_store toy_cipher 5 1 ''https://a.test'' ''hunter2'' (SecretBroker_new ''key''))"

definition sample_capability :: SecretCapability where
  "sample_capability = \<lparr>cap_reference = 9, cap_handle = 5, cap_profile = 1, cap_origin = ''https://a.test'',
     cap_purpose = ''login'', cap_one_time = True, cap_expires_at_unix_seconds = None\<rparr>"

lemmas sample_secret_simps =
  sample_broker_def sample_capability_def SecretBroker_store_def SecretBroker_new_def toy_cipher_def
  SecretBroker_with_secret_def

lemma sample_broker_ok: "broker_ok sample_broker"
  by (simp add: sample_broker_def SecretBroker_store_def SecretBroker_new_def broker_ok_def)

theorem one_time_capability_releases_once_witness:
  "fst (SecretBroker_with_secret toy_cipher 1 sample_capability 1 ''https://a.test'' length
      (fold (secret_apply toy_cipher) [SDrain]
        (snd (SecretBroker_with_secret toy_cipher 0 sample_capability 1 ''https://a.test'' length sample_broker))))
   = Inl AlreadyConsumed"
proof -
  have r: "fst (SecretBroker_with_secret toy_cipher 0 sample_capability 1 ''https://a.test'' length sample_broker) = Inr 7"
    by (simp add: sample_secret_simps)
  have o: "cap_one_time sample_capability" by (simp add: sample_capability_def)
  show ?thesis
    using one_time_capability_releases_once [OF sample_broker_ok o _ r,
        of "[SDrain]" 1 1 "''https://a.test''" length] by simp
qed

text \<open>
  C3: a stored secret is released unchanged, and only to the profile and origin it was stored for:
  as long as its handle is neither revoked nor reused, presenting a capability for that handle
  succeeds exactly when the capability and the caller both name the stored profile and origin,
  the capability is not spent and not expired, and the callback then sees the stored bytes.
\<close>

theorem secret_released_exactly_to_its_scope:
  assumes "aead C" "broker_ok b" "list_all op_faithful xs" "list_all (\<lambda>x. \<not> touches h x) xs"
    and "b' = fold (secret_apply C) xs (snd (SecretBroker_store C h profile origin secret b))"
    and "cap_handle c = h"
  shows "fst (SecretBroker_with_secret C now c p u f b') = Inr y \<longleftrightarrow>
     y = f secret \<and> p = profile \<and> u = origin \<and> cap_profile c = profile \<and> cap_origin c = origin
     \<and> \<not> (cap_one_time c \<and> cap_reference c \<in> sb_consumed b')
     \<and> (case cap_expires_at_unix_seconds c of None \<Rightarrow> True | Some t \<Rightarrow> now < t)"
proof -
  let ?s = "snd (SecretBroker_store C h profile origin secret b)"
  have ok: "broker_ok ?s" using broker_ok_apply [OF assms(2), of "SStore h profile origin secret" C] by simp
  have r: "bt_get (sb_records b') h = Some \<lparr>srec_profile = profile, srec_origin = origin,
      srec_nonce = nonce_for h, srec_ciphertext = enc C (sb_key b) (nonce_for h) secret\<rparr>"
    unfolding assms(5) record_run_frame [OF ok assms(3,4)] by (simp add: SecretBroker_store_def)
  have k: "sb_key b' = sb_key b"
    using consumed_key_run [OF ok assms(3), of C] unfolding assms(5) by (simp add: SecretBroker_store_def)
  show ?thesis using assms(1,6)
    by (auto simp: SecretBroker_with_secret_def r k aead_def not_le split: option.splits)
qed

theorem secret_released_exactly_to_its_scope_witness:
  "fst (SecretBroker_with_secret toy_cipher 3 sample_capability 1 ''https://a.test'' length
     (fold (secret_apply toy_cipher) [SRevoke 6] sample_broker)) = Inr 7"
proof -
  let ?b = "fold (secret_apply toy_cipher) [SRevoke 6] sample_broker"
  have b: "?b = fold (secret_apply toy_cipher) [SRevoke 6]
     (snd (SecretBroker_store toy_cipher 5 1 ''https://a.test'' ''hunter2'' (SecretBroker_new ''key'')))"
    by (simp add: sample_broker_def)
  have "cap_handle sample_capability = 5" "9 \<notin> sb_consumed ?b"
    by (simp_all add: sample_secret_simps SecretBroker_revoke_def)
  then show ?thesis
    using secret_released_exactly_to_its_scope [OF aead_toy_cipher _ _ _ b, of sample_capability 3 1
        "''https://a.test''" length 7]
    by (simp add: sample_capability_def)
qed

text \<open>
  Revocation is final: after a handle is revoked, and as long as no new secret is stored under
  it, no capability for it releases anything, spent or not, and no new capability is issued.
\<close>

theorem revoked_secrets_are_gone:
  assumes "broker_ok b" "list_all op_faithful xs" "list_all (\<lambda>x. \<not> stores h x) xs"
    and "b' = fold (secret_apply C) xs (snd (SecretBroker_revoke h b))"
  shows "(cap_handle c = h \<longrightarrow> isl (fst (SecretBroker_with_secret C now c p u f b')))
     \<and> isl (fst (SecretBroker_grant_for_with_consent fresh now h p u purpose one_time lifetime consent b'))"
proof -
  have "broker_ok (snd (SecretBroker_revoke h b))" using broker_ok_apply [OF assms(1), of "SRevoke h" C] by simp
  moreover have "bt_get (sb_records (snd (SecretBroker_revoke h b))) h = None"
    by (simp add: SecretBroker_revoke_def split: option.split)
  ultimately have "bt_get (sb_records b') h = None"
    unfolding assms(4) by (intro record_stays_gone assms(2,3))
  then show ?thesis
    by (simp add: SecretBroker_with_secret_def SecretBroker_grant_for_with_consent_def)
qed

theorem revoked_secrets_are_gone_witness:
  "isl (fst (SecretBroker_with_secret toy_cipher 0 sample_capability 1 ''https://a.test'' length
     (fold (secret_apply toy_cipher) [SDrain] (snd (SecretBroker_revoke 5 sample_broker)))))"
  using revoked_secrets_are_gone [OF sample_broker_ok _ _ refl, of "[SDrain]" 5 sample_capability toy_cipher 0 1
      "''https://a.test''" length]
  by (simp add: sample_capability_def)

text \<open>
  C5: what the broker shows the outside does not depend on the secrets: two runs of the same
  operations on two new brokers, which differ only in the bytes stored and in the key, end with the
  same events, the same spent references, the same policy and the same records up to the
  ciphertexts, and answer every request for a capability alike.
\<close>

theorem public_behaviour_is_independent_of_secrets:
  assumes "aead C" "list_all2 same_but_secret xs ys" "list_all op_faithful xs"
    and "b = fold (secret_apply C) xs (SecretBroker_new key)"
    and "b' = fold (secret_apply C) ys (SecretBroker_new key')"
  shows "public_view b = public_view b'
     \<and> fst (SecretBroker_grant_for_with_consent fresh now h p u purpose one_time lifetime consent b)
       = fst (SecretBroker_grant_for_with_consent fresh now h p u purpose one_time lifetime consent b')"
proof -
  have "public_view b = public_view b'" unfolding assms(4,5)
    by (rule public_run [OF assms(1-3)])
       (simp_all add: public_view_def decryptable_def SecretBroker_new_def broker_ok_def)
  with public_grant(1) [OF this] show ?thesis by simp
qed

theorem public_behaviour_is_independent_of_secrets_witness:
  "sb_events (fold (secret_apply toy_cipher) [SStore 5 1 ''https://a.test'' ''hunter2'', SUse 0 sample_capability 1 ''https://a.test'']
     (SecretBroker_new ''key''))
   = sb_events (fold (secret_apply toy_cipher) [SStore 5 1 ''https://a.test'' ''a longer one'', SUse 0 sample_capability 1 ''https://a.test'']
     (SecretBroker_new ''other''))"
  using public_behaviour_is_independent_of_secrets [OF aead_toy_cipher _ _ refl refl,
      of "[SStore 5 1 ''https://a.test'' ''hunter2'', SUse 0 sample_capability 1 ''https://a.test'']"
         "[SStore 5 1 ''https://a.test'' ''a longer one'', SUse 0 sample_capability 1 ''https://a.test'']"
         "''key''" "''other''"]
  unfolding public_view_def by simp

text \<open>
  A policy's maximal lifetime restricts only grants that ask for one: a grant without a lifetime
  passes and never expires.
\<close>

lemma max_lifetime_skips_unlimited_grants:
  "sp_max_lifetime_seconds (sb_policy b) = Some 60 \<Longrightarrow> sp_allowed_purposes (sb_policy b) = None \<Longrightarrow>
   bt_get (sb_records b) h = Some r \<Longrightarrow> srec_profile r = p \<Longrightarrow> srec_origin r = u \<Longrightarrow>
   \<exists>c. fst (SecretBroker_grant fresh now h p u purpose one_time b) = Inr c \<and> cap_expires_at_unix_seconds c = None"
  by (simp add: SecretBroker_grant_def SecretBroker_grant_for_with_consent_def)

end
