(* ===== verification/Transactions.thy ===== *)
theory Transactions
  imports Complex_Main BTreeMap
begin

section \<open>Consequence policy and confirmations (crates/transactions)\<close>

text \<open>
  \<open>TransactionPolicy_classify\<close> decides what an effect needs before native input is dispatched;
  \<open>ConfirmationQueue\<close> holds the requests a human has to answer. The queue is a state machine per
  request: \<open>Pending\<close> is left once, by the owner before the deadline or by expiry, and every other
  state is final. The event log is part of the model because the audit relies on it.

  The confidence of a classification (0.5 or 1.0 in the source) is a rational number.
\<close>

datatype Consequence =
    ReadEffect
  | Navigate
  | LocalWrite
  | RemoteWrite
  | SendEffect
  | Publish
  | Delete
  | Purchase
  | Transfer
  | Authenticate
  | PermissionChange
  | SecurityChange
  | UnknownEffect

datatype Reversibility = LocalReversible | RemoteReversible | RemoteIrreversible | UnknownReversibility

datatype PolicyDecision = Allow | RequireConfirmation | Deny

record TransactionClassification =
  cls_consequence :: Consequence
  cls_reversibility :: Reversibility
  cls_decision :: PolicyDecision
  cls_reason :: string
  cls_confidence :: rat

datatype ConfirmationState = Pending | Approved | DeniedByOwner | Expired | Escalated

record ConfirmationRequest =
  conf_id :: uuid
  conf_owner :: string
  conf_summary :: string
  conf_classification :: TransactionClassification
  conf_state :: ConfirmationState
  conf_expires_at_tick :: u64

record ConfirmationEvent =
  cev_id :: uuid
  cev_actor :: "string option"
  cev_state :: ConfirmationState
  cev_tick :: u64

record ConfirmationQueue =
  cq_requests :: "(uuid, ConfirmationRequest) BTreeMap"
  cq_events :: "ConfirmationEvent list"

definition ConfirmationQueue_default :: ConfirmationQueue where
  "ConfirmationQueue_default = \<lparr>cq_requests = [], cq_events = []\<rparr>"

definition ConfirmationQueue_enqueue ::
    "uuid \<Rightarrow> string \<Rightarrow> string \<Rightarrow> TransactionClassification \<Rightarrow> u64 \<Rightarrow> u64
     \<Rightarrow> ConfirmationQueue \<Rightarrow> uuid \<times> ConfirmationQueue" where
  "ConfirmationQueue_enqueue cid owner summary classification timeout_ticks now q =
     (cid, q\<lparr>cq_requests := bt_insert cid
              \<lparr>conf_id = cid, conf_owner = owner, conf_summary = summary,
               conf_classification = classification, conf_state = Pending,
               conf_expires_at_tick = saturating_add now (max timeout_ticks 1)\<rparr> (cq_requests q),
           cq_events := cq_events q @
             [\<lparr>cev_id = cid, cev_actor = None, cev_state = Pending, cev_tick = now\<rparr>]\<rparr>)"

definition ConfirmationQueue_get :: "ConfirmationQueue \<Rightarrow> uuid \<Rightarrow> ConfirmationRequest option" where
  "ConfirmationQueue_get q cid = bt_get (cq_requests q) cid"

definition ConfirmationQueue_transition ::
    "uuid \<Rightarrow> string \<Rightarrow> ConfirmationState \<Rightarrow> u64 \<Rightarrow> ConfirmationQueue \<Rightarrow> bool \<times> ConfirmationQueue" where
  "ConfirmationQueue_transition cid actor state now q =
     (case bt_get (cq_requests q) cid of
        None \<Rightarrow> (False, q)
      | Some r \<Rightarrow>
          if conf_state r \<noteq> Pending \<or> conf_owner r \<noteq> actor then (False, q)
          else if conf_expires_at_tick r \<le> now
          then (False, q\<lparr>cq_requests := bt_adjust cid (\<lambda>r. r\<lparr>conf_state := Expired\<rparr>) (cq_requests q)\<rparr>)
          else (True, q\<lparr>cq_requests := bt_adjust cid (\<lambda>r. r\<lparr>conf_state := state\<rparr>) (cq_requests q),
                        cq_events := cq_events q @
                          [\<lparr>cev_id = cid, cev_actor = Some actor, cev_state = state, cev_tick = now\<rparr>]\<rparr>))"

definition ConfirmationQueue_approve ::
    "uuid \<Rightarrow> string \<Rightarrow> u64 \<Rightarrow> ConfirmationQueue \<Rightarrow> bool \<times> ConfirmationQueue" where
  "ConfirmationQueue_approve cid actor now q = ConfirmationQueue_transition cid actor Approved now q"

definition ConfirmationQueue_deny ::
    "uuid \<Rightarrow> string \<Rightarrow> u64 \<Rightarrow> ConfirmationQueue \<Rightarrow> bool \<times> ConfirmationQueue" where
  "ConfirmationQueue_deny cid actor now q = ConfirmationQueue_transition cid actor DeniedByOwner now q"

definition ConfirmationQueue_escalate ::
    "uuid \<Rightarrow> string \<Rightarrow> u64 \<Rightarrow> ConfirmationQueue \<Rightarrow> bool \<times> ConfirmationQueue" where
  "ConfirmationQueue_escalate cid actor now q = ConfirmationQueue_transition cid actor Escalated now q"

definition confirmation_due :: "u64 \<Rightarrow> ConfirmationRequest \<Rightarrow> bool" where
  "confirmation_due now r = (conf_state r = Pending \<and> conf_expires_at_tick r \<le> now)"

text \<open>The loop of \<open>expire\<close> visits the requests in key order, so its events come in that order.\<close>

definition ConfirmationQueue_expire :: "u64 \<Rightarrow> ConfirmationQueue \<Rightarrow> ConfirmationQueue" where
  "ConfirmationQueue_expire now q =
     q\<lparr>cq_requests := bt_map_values
         (\<lambda>r. if confirmation_due now r then r\<lparr>conf_state := Expired\<rparr> else r) (cq_requests q),
       cq_events := cq_events q @
         map (\<lambda>r. \<lparr>cev_id = conf_id r, cev_actor = None, cev_state = Expired, cev_tick = now\<rparr>)
           (filter (confirmation_due now) (bt_values (cq_requests q)))\<rparr>"

definition ConfirmationQueue_drain_events ::
    "ConfirmationQueue \<Rightarrow> ConfirmationEvent list \<times> ConfirmationQueue" where
  "ConfirmationQueue_drain_events q = (cq_events q, q\<lparr>cq_events := []\<rparr>)"

subsection \<open>Classification\<close>

record TransactionPolicy =
  require_confirmation_for_unknown :: bool
  allow_delete :: bool
  allow_financial :: bool
  allow_security_changes :: bool

definition TransactionPolicy_default :: TransactionPolicy where
  "TransactionPolicy_default =
     \<lparr>require_confirmation_for_unknown = True, allow_delete = False, allow_financial = False,
      allow_security_changes = False\<rparr>"

definition TransactionPolicy_classify ::
    "TransactionPolicy \<Rightarrow> Consequence \<Rightarrow> Reversibility \<Rightarrow> TransactionClassification" where
  "TransactionPolicy_classify p c rv =
     (let (decision, reason) =
        (if c = Delete \<and> \<not> allow_delete p
         then (Deny, ''delete is disabled by policy'')
         else if c \<in> {Purchase, Transfer} \<and> \<not> allow_financial p
         then (RequireConfirmation, ''financial effect requires explicit confirmation'')
         else if c \<in> {SecurityChange, PermissionChange} \<and> \<not> allow_security_changes p
         then (RequireConfirmation, ''security or permission change requires explicit confirmation'')
         else if c \<in> {SendEffect, Publish, Authenticate}
         then (RequireConfirmation, ''external side effect requires explicit confirmation'')
         else if c = UnknownEffect \<and> require_confirmation_for_unknown p
         then (RequireConfirmation, ''unknown effect cannot be treated as safe'')
         else (Allow, ''policy permits this action''))
      in \<lparr>cls_consequence = c, cls_reversibility = rv, cls_decision = decision, cls_reason = reason,
          cls_confidence = (if c = UnknownEffect then 1 / 2 else 1)\<rparr>)"

subsection \<open>Steps of the queue\<close>

text \<open>
  The log of a run is what has been drained so far followed by what is still queued, so that
  draining is a step like any other. An identifier is drawn fresh: \<open>enqueue\<close> is a step only for
  an identifier the queue does not hold.
\<close>

type_synonym confirmation_run = "ConfirmationQueue \<times> ConfirmationEvent list"

definition full_log :: "confirmation_run \<Rightarrow> ConfirmationEvent list" where
  "full_log s = snd s @ cq_events (fst s)"

inductive conf_step :: "confirmation_run \<Rightarrow> confirmation_run \<Rightarrow> bool" where
  enqueue: "bt_get (cq_requests q) cid = None \<Longrightarrow>
    conf_step (q, h) (snd (ConfirmationQueue_enqueue cid owner summary cls timeout now q), h)"
| approve: "conf_step (q, h) (snd (ConfirmationQueue_approve cid actor now q), h)"
| deny: "conf_step (q, h) (snd (ConfirmationQueue_deny cid actor now q), h)"
| escalate: "conf_step (q, h) (snd (ConfirmationQueue_escalate cid actor now q), h)"
| expire: "conf_step (q, h) (ConfirmationQueue_expire now q, h)"
| drain: "conf_step (q, h) (snd (ConfirmationQueue_drain_events q), h @ fst (ConfirmationQueue_drain_events q))"

lemmas confirmation_ops =
  ConfirmationQueue_enqueue_def ConfirmationQueue_approve_def ConfirmationQueue_deny_def
  ConfirmationQueue_escalate_def ConfirmationQueue_expire_def ConfirmationQueue_drain_events_def

lemma transition_requests:
  "bt_get (cq_requests (snd (ConfirmationQueue_transition cid actor st now q))) j =
     (case bt_get (cq_requests q) j of
        None \<Rightarrow> None
      | Some r \<Rightarrow>
          if j = cid \<and> conf_state r = Pending \<and> conf_owner r = actor
          then Some (r\<lparr>conf_state := if conf_expires_at_tick r \<le> now then Expired else st\<rparr>)
          else Some r)"
  by (auto simp: ConfirmationQueue_transition_def split: option.split)

lemma transition_events:
  "cq_events (snd (ConfirmationQueue_transition cid actor st now q)) =
     cq_events q @
       (if fst (ConfirmationQueue_transition cid actor st now q)
        then [\<lparr>cev_id = cid, cev_actor = Some actor, cev_state = st, cev_tick = now\<rparr>] else [])"
  by (auto simp: ConfirmationQueue_transition_def split: option.split)

lemma transition_ok:
  "fst (ConfirmationQueue_transition cid actor st now q) \<longleftrightarrow>
     (\<exists>r. bt_get (cq_requests q) cid = Some r \<and> conf_state r = Pending \<and> conf_owner r = actor
        \<and> now < conf_expires_at_tick r)"
  by (auto simp: ConfirmationQueue_transition_def not_le split: option.split)

text \<open>A settled request never changes again, and the log only grows.\<close>

definition request_below :: "ConfirmationRequest \<Rightarrow> ConfirmationRequest \<Rightarrow> bool" where
  "request_below r r' \<longleftrightarrow>
     conf_id r' = conf_id r \<and> conf_owner r' = conf_owner r \<and> conf_summary r' = conf_summary r \<and>
     conf_classification r' = conf_classification r \<and>
     conf_expires_at_tick r' = conf_expires_at_tick r \<and> (conf_state r \<noteq> Pending \<longrightarrow> r' = r)"

lemma request_below_refl [simp]: "request_below r r"
  by (simp add: request_below_def)

lemma request_below_trans: "request_below a b \<Longrightarrow> request_below b c \<Longrightarrow> request_below a c"
  by (auto simp: request_below_def)

lemma request_below_state: "conf_state r = Pending \<Longrightarrow> request_below r (r\<lparr>conf_state := st\<rparr>)"
  by (simp add: request_below_def)

definition settled_below :: "confirmation_run \<Rightarrow> confirmation_run \<Rightarrow> bool" where
  "settled_below s t \<longleftrightarrow>
     prefix (full_log s) (full_log t) \<and>
     (\<forall>cid r. bt_get (cq_requests (fst s)) cid = Some r \<longrightarrow>
        (\<exists>r'. bt_get (cq_requests (fst t)) cid = Some r' \<and> request_below r r'))"

lemma settled_below_transition: "settled_below (q, h) (snd (ConfirmationQueue_transition cid actor st now q), h)"
  by (auto simp: settled_below_def full_log_def transition_requests transition_events
      intro!: request_below_state)

lemma conf_step_settled_below: "conf_step s t \<Longrightarrow> settled_below s t"
proof (induction rule: conf_step.induct)
  case (expire q h now)
  then show ?case
    by (auto simp: settled_below_def full_log_def ConfirmationQueue_expire_def confirmation_due_def
        intro!: request_below_state)
qed (auto simp: confirmation_ops settled_below_transition, auto simp: settled_below_def full_log_def)

lemma settled_below_trans: "settled_below s t \<Longrightarrow> settled_below t u \<Longrightarrow> settled_below s u"
  unfolding settled_below_def by (meson prefix_order.trans request_below_trans)

interpretation confirmation: monotone_steps conf_step settled_below
proof
  show "settled_below s s" for s by (simp add: settled_below_def)
qed (rule settled_below_trans conf_step_settled_below; assumption)+

text \<open>Every request that was answered has an entry in the log: the owner's, before the deadline.\<close>

definition answer_logged :: "ConfirmationEvent list \<Rightarrow> uuid \<Rightarrow> ConfirmationRequest \<Rightarrow> bool" where
  "answer_logged lg cid r \<longleftrightarrow>
     conf_id r = cid \<and>
     (conf_state r \<in> {Approved, DeniedByOwner, Escalated} \<longrightarrow>
        (\<exists>t. t < conf_expires_at_tick r \<and>
           \<lparr>cev_id = cid, cev_actor = Some (conf_owner r), cev_state = conf_state r, cev_tick = t\<rparr>
             \<in> set lg))"

lemma answer_logged_mono: "answer_logged lg cid r \<Longrightarrow> set lg \<subseteq> set lg' \<Longrightarrow> answer_logged lg' cid r"
  unfolding answer_logged_def by blast

lemma answer_logged_open:
  "conf_id r = cid \<Longrightarrow> conf_state r \<in> {Pending, Expired} \<Longrightarrow> answer_logged lg cid r"
  by (auto simp: answer_logged_def)

lemma answer_logged_event:
  "conf_id r = cid \<Longrightarrow> now < conf_expires_at_tick r \<Longrightarrow>
   answer_logged (lg @ [\<lparr>cev_id = cid, cev_actor = Some (conf_owner r), cev_state = st, cev_tick = now\<rparr>])
     cid (r\<lparr>conf_state := st\<rparr>)"
  by (auto simp: answer_logged_def)

definition answers_logged :: "confirmation_run \<Rightarrow> bool" where
  "answers_logged s \<longleftrightarrow>
     (\<forall>cid r. bt_get (cq_requests (fst s)) cid = Some r \<longrightarrow> answer_logged (full_log s) cid r)"

lemma answers_logged_transition:
  assumes "answers_logged (q, h)"
  shows "answers_logged (snd (ConfirmationQueue_transition cid actor st now q), h)"
  unfolding answers_logged_def
proof (intro allI impI)
  fix j r'
  let ?q' = "snd (ConfirmationQueue_transition cid actor st now q)"
  assume "bt_get (cq_requests (fst (?q', h))) j = Some r'"
  then obtain r where r: "bt_get (cq_requests q) j = Some r"
    and r': "r' = (if j = cid \<and> conf_state r = Pending \<and> conf_owner r = actor
          then r\<lparr>conf_state := if conf_expires_at_tick r \<le> now then Expired else st\<rparr> else r)"
    by (auto simp: transition_requests split: option.splits if_splits)
  from assms r have old: "answer_logged (full_log (q, h)) j r" by (simp add: answers_logged_def)
  then have ident: "conf_id r = j" by (simp add: answer_logged_def)
  have log: "set (full_log (q, h)) \<subseteq> set (full_log (?q', h))"
    by (auto simp: full_log_def transition_events)
  consider (answer) "j = cid" "conf_state r = Pending" "conf_owner r = actor" "now < conf_expires_at_tick r"
    | (late) "r' = r\<lparr>conf_state := Expired\<rparr>"
    | (same) "r' = r"
    using r' by (auto simp: not_le split: if_splits)
  then show "answer_logged (full_log (?q', h)) j r'"
  proof cases
    case answer
    then have "fst (ConfirmationQueue_transition cid actor st now q)" using r by (auto simp: transition_ok)
    then have "full_log (?q', h) = full_log (q, h) @
        [\<lparr>cev_id = j, cev_actor = Some (conf_owner r), cev_state = st, cev_tick = now\<rparr>]"
      using answer by (simp add: full_log_def transition_events)
    moreover have "r' = r\<lparr>conf_state := st\<rparr>" using answer r' by simp
    ultimately show ?thesis using answer_logged_event [OF ident answer(4)] by simp
  next
    case late
    with ident show ?thesis by (simp add: answer_logged_open)
  next
    case same
    with answer_logged_mono [OF old log] show ?thesis by simp
  qed
qed

lemma conf_step_answers_logged: "conf_step s t \<Longrightarrow> answers_logged s \<Longrightarrow> answers_logged t"
proof (induction rule: conf_step.induct)
  case (expire q h now)
  have "answer_logged (full_log (ConfirmationQueue_expire now q, h)) j
      (if confirmation_due now r then r\<lparr>conf_state := Expired\<rparr> else r)"
    if "bt_get (cq_requests q) j = Some r" for j r
  proof -
    have old: "answer_logged (full_log (q, h)) j r" using expire that by (simp add: answers_logged_def)
    then show ?thesis
      by (auto simp: answer_logged_open answer_logged_def [of _ j r] full_log_def
          ConfirmationQueue_expire_def intro!: answer_logged_open)
  qed
  moreover have get: "bt_get (cq_requests (ConfirmationQueue_expire now q)) j =
      map_option (\<lambda>r. if confirmation_due now r then r\<lparr>conf_state := Expired\<rparr> else r) (bt_get (cq_requests q) j)"
    for j by (simp add: ConfirmationQueue_expire_def)
  ultimately show ?case
    unfolding answers_logged_def fst_conv get map_option_eq_Some by blast
next
  case (enqueue q cid h owner summary cls timeout now)
  then show ?case
    by (auto simp: answers_logged_def ConfirmationQueue_enqueue_def full_log_def
        answer_logged_open intro: answer_logged_mono [of "h @ cq_events q"])
next
  case (drain q h)
  then show ?case
    by (simp add: answers_logged_def full_log_def ConfirmationQueue_drain_events_def)
qed (simp_all add: ConfirmationQueue_approve_def ConfirmationQueue_deny_def ConfirmationQueue_escalate_def
       answers_logged_transition)

interpretation answered: kept_invariant conf_step answers_logged
  by unfold_locales (rule conf_step_answers_logged)

lemma answers_logged_default: "answers_logged (ConfirmationQueue_default, [])"
  by (simp add: answers_logged_def ConfirmationQueue_default_def)


subsection \<open>Properties\<close>

text \<open>
  The decision table of the consequence policy, as an equivalence: an effect is allowed
  without confirmation exactly when it neither leaves the browser towards a third party (send,
  publish, authenticate) nor is one of the effects whose policy switch is off (delete,
  purchases and transfers, security and permission changes) nor an unknown effect under a
  policy that distrusts those; and it is refused outright only for a disabled delete.
\<close>

theorem classify_decides:
  "(cls_decision (TransactionPolicy_classify p c rv) = Allow \<longleftrightarrow>
      c \<notin> {SendEffect, Publish, Authenticate}
      \<and> (c = Delete \<longrightarrow> allow_delete p)
      \<and> (c \<in> {Purchase, Transfer} \<longrightarrow> allow_financial p)
      \<and> (c \<in> {SecurityChange, PermissionChange} \<longrightarrow> allow_security_changes p)
      \<and> (c = UnknownEffect \<longrightarrow> \<not> require_confirmation_for_unknown p))
   \<and> (cls_decision (TransactionPolicy_classify p c rv) = Deny \<longleftrightarrow> c = Delete \<and> \<not> allow_delete p)"
  by (cases c) (auto simp: TransactionPolicy_classify_def)

theorem classify_decides_witness:
  "cls_decision (TransactionPolicy_classify TransactionPolicy_default Purchase RemoteIrreversible)
     \<noteq> Allow \<and>
   cls_decision (TransactionPolicy_classify TransactionPolicy_default Purchase RemoteIrreversible)
     \<noteq> Deny"
  using classify_decides [of TransactionPolicy_default Purchase RemoteIrreversible]
  by (simp add: TransactionPolicy_default_def)

text \<open>
  In every state a confirmation queue can reach, by any interleaving of enqueues, answers,
  expiries and drained logs, a request that is approved (or denied, or escalated) was answered
  by its own owner before its deadline, and the log holds that answer.
\<close>

theorem approvals_are_owned_and_timely:
  assumes "conf_step\<^sup>*\<^sup>* (ConfirmationQueue_default, []) (q, drained)"
    and "ConfirmationQueue_get q cid = Some r"
    and "conf_state r \<in> {Approved, DeniedByOwner, Escalated}"
  shows "\<exists>t. t < conf_expires_at_tick r \<and>
    \<lparr>cev_id = cid, cev_actor = Some (conf_owner r), cev_state = conf_state r, cev_tick = t\<rparr>
      \<in> set (drained @ cq_events q)"
proof -
  have "answers_logged (q, drained)"
    by (rule answered.reach_keeps [OF assms(1) answers_logged_default])
  with assms(2) have "answer_logged (drained @ cq_events q) cid r"
    by (simp add: answers_logged_def ConfirmationQueue_get_def full_log_def)
  with assms(3) show ?thesis unfolding answer_logged_def by blast
qed

definition sample_queue :: ConfirmationQueue where
  "sample_queue = snd (ConfirmationQueue_enqueue 7 ''ana'' ''buy''
     (TransactionPolicy_classify TransactionPolicy_default Purchase RemoteIrreversible) 5 10
     ConfirmationQueue_default)"

lemma sample_queue_approved:
  "ConfirmationQueue_get (snd (ConfirmationQueue_approve 7 ''ana'' 12 sample_queue)) 7
     = Some \<lparr>conf_id = 7, conf_owner = ''ana'', conf_summary = ''buy'',
         conf_classification = TransactionPolicy_classify TransactionPolicy_default Purchase RemoteIrreversible,
         conf_state = Approved, conf_expires_at_tick = 15\<rparr>"
  by (simp add: sample_queue_def ConfirmationQueue_get_def confirmation_ops transition_requests
      saturating_add_def ConfirmationQueue_default_def)

theorem approvals_are_owned_and_timely_witness:
  "\<exists>t < 15. \<lparr>cev_id = 7, cev_actor = Some ''ana'', cev_state = Approved, cev_tick = t\<rparr>
     \<in> set (cq_events (snd (ConfirmationQueue_approve 7 ''ana'' 12 sample_queue)))"
proof -
  have "conf_step (ConfirmationQueue_default, []) (sample_queue, [])"
    unfolding sample_queue_def by (rule conf_step.enqueue) (simp add: ConfirmationQueue_default_def)
  moreover have "conf_step (sample_queue, []) (snd (ConfirmationQueue_approve 7 ''ana'' 12 sample_queue), [])"
    by (rule conf_step.approve)
  ultimately have "conf_step\<^sup>*\<^sup>* (ConfirmationQueue_default, [])
      (snd (ConfirmationQueue_approve 7 ''ana'' 12 sample_queue), [])"
    by simp
  from approvals_are_owned_and_timely [OF this sample_queue_approved] show ?thesis by auto
qed

text \<open>
  A request that has left \<open>Pending\<close> keeps its state, owner and deadline for ever, and the
  log of confirmation events is never rewritten: an approval cannot be taken back, replayed
  into another state or revived after expiry.
\<close>

theorem settled_confirmations_are_final:
  assumes "conf_step\<^sup>*\<^sup>* (q, drained) (q', drained')"
    and "ConfirmationQueue_get q cid = Some r"
    and "conf_state r \<noteq> Pending"
  shows "ConfirmationQueue_get q' cid = Some r
    \<and> prefix (drained @ cq_events q) (drained' @ cq_events q')"
  using confirmation.reach_below [OF assms(1)] assms(2,3)
  by (auto simp: settled_below_def request_below_def full_log_def ConfirmationQueue_get_def)

theorem settled_confirmations_are_final_witness:
  "ConfirmationQueue_get (snd (ConfirmationQueue_deny 7 ''ana'' 13
     (snd (ConfirmationQueue_approve 7 ''ana'' 12 sample_queue)))) 7
   = ConfirmationQueue_get (snd (ConfirmationQueue_approve 7 ''ana'' 12 sample_queue)) 7"
proof -
  let ?q = "snd (ConfirmationQueue_approve 7 ''ana'' 12 sample_queue)"
  have "conf_step\<^sup>*\<^sup>* (?q, []) (snd (ConfirmationQueue_deny 7 ''ana'' 13 ?q), [])"
    by (rule r_into_rtranclp) (rule conf_step.deny)
  from settled_confirmations_are_final [OF this sample_queue_approved] sample_queue_approved
  show ?thesis by simp
qed

text \<open>
  An answer that comes at or after the deadline is refused and turns the request into an
  expired one, but unlike \<open>expire\<close> it leaves no trace in the event log: the expiry of that
  request is never reported, because \<open>expire\<close> later skips requests that are no longer pending.
\<close>

theorem late_answer_expires_silently:
  assumes "ConfirmationQueue_get q cid = Some r" and "conf_state r = Pending"
    and "conf_expires_at_tick r \<le> now"
    and "q' = snd (ConfirmationQueue_approve cid (conf_owner r) now q)"
  shows "ConfirmationQueue_get q' cid = Some (r\<lparr>conf_state := Expired\<rparr>)
    \<and> fst (ConfirmationQueue_approve cid (conf_owner r) now q) = False
    \<and> cq_events q' = cq_events q
    \<and> \<not> confirmation_due later (r\<lparr>conf_state := Expired\<rparr>)"
  using assms
  by (auto simp: ConfirmationQueue_get_def ConfirmationQueue_approve_def ConfirmationQueue_transition_def
      confirmation_due_def)

theorem late_answer_expires_silently_witness:
  "cq_events (snd (ConfirmationQueue_approve 7 ''ana'' 15 sample_queue)) = cq_events sample_queue"
proof -
  let ?r = "\<lparr>conf_id = 7, conf_owner = ''ana'', conf_summary = ''buy'',
      conf_classification = TransactionPolicy_classify TransactionPolicy_default Purchase RemoteIrreversible,
      conf_state = Pending, conf_expires_at_tick = 15\<rparr>"
  have "ConfirmationQueue_get sample_queue 7 = Some ?r"
    by (simp add: sample_queue_def ConfirmationQueue_get_def ConfirmationQueue_enqueue_def
        saturating_add_def)
  from late_answer_expires_silently [OF this _ _ refl, of 15] show ?thesis by simp
qed

end
