(* ===== verification/Vaults.thy ===== *)
theory Vaults
  imports SecretStore Transactions
begin

section \<open>Credential, password, identity and payment vaults\<close>

text \<open>
  The vaults of crates/credentials, crates/password-vault, crates/identity-vault and
  crates/payment-vault keep records that name a secret handle, a profile and an origin, and
  hand out one-time capabilities of the secret broker inside them after checking both. That
  common contract is the locale \<open>scoped_vault\<close>; each vault interprets it.

  New identifiers are arguments. \<open>IdentityVault::with_field\<close> can panic (\<open>expect\<close>); its model
  returns \<open>None\<close> for the panic.
\<close>

subsection \<open>Credentials (crates/credentials)\<close>

record CredentialRecord =
  cr_id :: uuid
  cr_profile :: ProfileId
  cr_origin :: string
  cr_username :: string
  cr_password_handle :: uuid

record CredentialSnapshot =
  cs_schema_version :: u32
  cs_records :: "CredentialRecord list"
  cs_secrets :: SecretStoreSnapshot

record CredentialBroker =
  crb_secrets :: SecretBroker
  crb_records :: "(uuid, CredentialRecord) BTreeMap"

definition CredentialBroker_new :: "string \<Rightarrow> CredentialBroker" where
  "CredentialBroker_new key = \<lparr>crb_secrets = SecretBroker_new key, crb_records = []\<rparr>"

definition CredentialBroker_export_snapshot ::
    "((uuid \<times> SecretRecord) list \<Rightarrow> (uuid \<times> SecretRecord) list) \<Rightarrow> (uuid set \<Rightarrow> uuid list)
     \<Rightarrow> CredentialBroker \<Rightarrow> CredentialSnapshot" where
  "CredentialBroker_export_snapshot iter enum v =
     \<lparr>cs_schema_version = SNAPSHOT_SCHEMA_VERSION, cs_records = bt_values (crb_records v),
      cs_secrets = SecretBroker_export_snapshot iter enum (crb_secrets v)\<rparr>"

definition CredentialBroker_from_snapshot ::
    "CredentialSnapshot \<Rightarrow> string \<Rightarrow> SecretError + CredentialBroker" where
  "CredentialBroker_from_snapshot snapshot key =
     (if cs_schema_version snapshot \<noteq> SNAPSHOT_SCHEMA_VERSION then Inl UnsupportedSnapshotVersion
      else (case SecretBroker_from_snapshot (cs_secrets snapshot) key of
          Inl e \<Rightarrow> Inl e
        | Inr secrets \<Rightarrow>
            Inr \<lparr>crb_secrets = secrets,
                 crb_records = bt_collect (map (\<lambda>r. (cr_id r, r)) (cs_records snapshot))\<rparr>))"

definition CredentialBroker_save_password ::
    "AeadCipher \<Rightarrow> uuid \<Rightarrow> uuid \<Rightarrow> ProfileId \<Rightarrow> string \<Rightarrow> string \<Rightarrow> string \<Rightarrow> CredentialBroker
     \<Rightarrow> uuid \<times> CredentialBroker" where
  "CredentialBroker_save_password C fresh_handle cid profile origin username password v =
     (let (handle, secrets) = SecretBroker_store C fresh_handle profile origin password (crb_secrets v)
      in (cid, \<lparr>crb_secrets = secrets,
                crb_records = bt_insert cid \<lparr>cr_id = cid, cr_profile = profile, cr_origin = origin,
                  cr_username = username, cr_password_handle = handle\<rparr> (crb_records v)\<rparr>))"

definition CredentialBroker_find :: "CredentialBroker \<Rightarrow> ProfileId \<Rightarrow> string \<Rightarrow> CredentialRecord list" where
  "CredentialBroker_find v profile origin =
     [r \<leftarrow> bt_values (crb_records v). cr_profile r = profile \<and> cr_origin r = origin]"

definition CredentialBroker_update_password ::
    "AeadCipher \<Rightarrow> uuid \<Rightarrow> uuid \<Rightarrow> string \<Rightarrow> CredentialBroker \<Rightarrow> (SecretError + unit) \<times> CredentialBroker" where
  "CredentialBroker_update_password C fresh_handle cid password v =
     (case bt_get (crb_records v) cid of
        None \<Rightarrow> (Inl UnknownHandle, v)
      | Some r \<Rightarrow>
          let old_handle = cr_password_handle r;
              (new_handle, secrets) =
                SecretBroker_store C fresh_handle (cr_profile r) (cr_origin r) password (crb_secrets v);
              secrets' = snd (SecretBroker_revoke old_handle secrets)
          in (Inr (), \<lparr>crb_secrets = secrets',
                       crb_records = bt_adjust cid (\<lambda>r. r\<lparr>cr_password_handle := new_handle\<rparr>) (crb_records v)\<rparr>))"

definition CredentialBroker_grant_password_with_consent ::
    "uuid \<Rightarrow> u64 \<Rightarrow> uuid \<Rightarrow> ProfileId \<Rightarrow> string \<Rightarrow> string \<Rightarrow> bool \<Rightarrow> CredentialBroker
     \<Rightarrow> (SecretError + SecretCapability) \<times> CredentialBroker" where
  "CredentialBroker_grant_password_with_consent fresh now cid profile origin purpose consent v =
     (case bt_get (crb_records v) cid of
        None \<Rightarrow> (Inl UnknownHandle, v)
      | Some r \<Rightarrow>
          if cr_profile r \<noteq> profile then (Inl ProfileMismatch, v)
          else if cr_origin r \<noteq> origin then (Inl OriginMismatch, v)
          else let (res, secrets) = SecretBroker_grant_with_consent fresh now (cr_password_handle r)
                     profile origin purpose True consent (crb_secrets v)
               in (res, v\<lparr>crb_secrets := secrets\<rparr>))"

definition CredentialBroker_grant_password ::
    "uuid \<Rightarrow> u64 \<Rightarrow> uuid \<Rightarrow> ProfileId \<Rightarrow> string \<Rightarrow> string \<Rightarrow> CredentialBroker
     \<Rightarrow> (SecretError + SecretCapability) \<times> CredentialBroker" where
  "CredentialBroker_grant_password fresh now cid profile origin purpose v =
     CredentialBroker_grant_password_with_consent fresh now cid profile origin purpose True v"

definition CredentialBroker_with_password ::
    "AeadCipher \<Rightarrow> u64 \<Rightarrow> SecretCapability \<Rightarrow> ProfileId \<Rightarrow> string \<Rightarrow> (string \<Rightarrow> 't) \<Rightarrow> CredentialBroker
     \<Rightarrow> (SecretError + 't) \<times> CredentialBroker" where
  "CredentialBroker_with_password C now capability profile origin use_password v =
     (let (res, secrets) = SecretBroker_with_secret C now capability profile origin use_password (crb_secrets v)
      in (res, v\<lparr>crb_secrets := secrets\<rparr>))"

subsection \<open>Password manager (crates/password-vault)\<close>

record LoginForm =
  lf_origin :: string
  lf_username_field :: string
  lf_password_field :: string

record PasswordManager =
  pwm_broker :: CredentialBroker

definition is_username_field :: "string \<times> string \<Rightarrow> bool" where
  "is_username_field f =
     (to_ascii_lowercase (fst f) \<in> {''username'', ''user'', ''email'', ''login''}
      \<or> to_ascii_lowercase (snd f) \<in> {''username'', ''email''})"

definition is_password_field :: "string \<times> string \<Rightarrow> bool" where
  "is_password_field f =
     (to_ascii_lowercase (fst f) = ''password'' \<or> to_ascii_lowercase (snd f) = ''password'')"

definition PasswordManager_detect_login_form :: "string \<Rightarrow> (string \<times> string) list \<Rightarrow> LoginForm option" where
  "PasswordManager_detect_login_form origin inputs =
     (case find is_username_field inputs of
        None \<Rightarrow> None
      | Some username \<Rightarrow>
          (case find is_password_field inputs of
             None \<Rightarrow> None
           | Some password \<Rightarrow>
               Some \<lparr>lf_origin = origin, lf_username_field = fst username, lf_password_field = fst password\<rparr>))"

definition PasswordManager_save ::
    "AeadCipher \<Rightarrow> uuid \<Rightarrow> uuid \<Rightarrow> ProfileId \<Rightarrow> string \<Rightarrow> string \<Rightarrow> string \<Rightarrow> PasswordManager
     \<Rightarrow> uuid \<times> PasswordManager" where
  "PasswordManager_save C fresh_handle cid profile origin username password p =
     (let (i, v) = CredentialBroker_save_password C fresh_handle cid profile origin username password (pwm_broker p)
      in (i, p\<lparr>pwm_broker := v\<rparr>))"

definition PasswordManager_plan_autofill ::
    "PasswordManager \<Rightarrow> ProfileId \<Rightarrow> LoginForm \<Rightarrow> (uuid \<times> string) option" where
  "PasswordManager_plan_autofill p profile form =
     (case CredentialBroker_find (pwm_broker p) profile (lf_origin form) of
        [] \<Rightarrow> None
      | r # _ \<Rightarrow> Some (cr_id r, cr_username r))"

definition PasswordManager_update ::
    "AeadCipher \<Rightarrow> uuid \<Rightarrow> uuid \<Rightarrow> string \<Rightarrow> PasswordManager \<Rightarrow> (SecretError + unit) \<times> PasswordManager" where
  "PasswordManager_update C fresh_handle cid password p =
     (let (r, v) = CredentialBroker_update_password C fresh_handle cid password (pwm_broker p)
      in (r, p\<lparr>pwm_broker := v\<rparr>))"

definition PasswordManager_authorize_password_with_consent ::
    "uuid \<Rightarrow> u64 \<Rightarrow> uuid \<Rightarrow> ProfileId \<Rightarrow> string \<Rightarrow> bool \<Rightarrow> PasswordManager
     \<Rightarrow> (SecretError + SecretCapability) \<times> PasswordManager" where
  "PasswordManager_authorize_password_with_consent fresh now cid profile origin consent p =
     (let (r, v) = CredentialBroker_grant_password_with_consent fresh now cid profile origin
            ''password-autofill'' consent (pwm_broker p)
      in (r, p\<lparr>pwm_broker := v\<rparr>))"

definition PasswordManager_authorize_password ::
    "uuid \<Rightarrow> u64 \<Rightarrow> uuid \<Rightarrow> ProfileId \<Rightarrow> string \<Rightarrow> PasswordManager
     \<Rightarrow> (SecretError + SecretCapability) \<times> PasswordManager" where
  "PasswordManager_authorize_password fresh now cid profile origin p =
     (let (r, v) = CredentialBroker_grant_password fresh now cid profile origin ''password-autofill'' (pwm_broker p)
      in (r, p\<lparr>pwm_broker := v\<rparr>))"

definition PasswordManager_with_password ::
    "AeadCipher \<Rightarrow> u64 \<Rightarrow> SecretCapability \<Rightarrow> ProfileId \<Rightarrow> string \<Rightarrow> (string \<Rightarrow> 't) \<Rightarrow> PasswordManager
     \<Rightarrow> (SecretError + 't) \<times> PasswordManager" where
  "PasswordManager_with_password C now capability profile origin use_password p =
     (let (r, v) = CredentialBroker_with_password C now capability profile origin use_password (pwm_broker p)
      in (r, p\<lparr>pwm_broker := v\<rparr>))"

subsection \<open>Identity vault (crates/identity-vault)\<close>

record IdentityProfile =
  ip_id :: uuid
  ip_profile :: ProfileId
  ip_origin :: string
  ip_fields :: "(string, uuid) BTreeMap"

record IdentityAuditEvent =
  iae_identity_id :: uuid
  iae_field :: "string option"
  iae_action :: string

record IdentityVault =
  iv_broker :: SecretBroker
  iv_profiles :: "(uuid, IdentityProfile) BTreeMap"
  iv_events :: "IdentityAuditEvent list"

definition IdentityVault_default :: "string \<Rightarrow> IdentityVault" where
  "IdentityVault_default key = \<lparr>iv_broker = SecretBroker_new key, iv_profiles = [], iv_events = []\<rparr>"

text \<open>The closure of \<open>create\<close> stores the fields in key order, each under a new handle.\<close>

fun store_fields ::
    "AeadCipher \<Rightarrow> (string \<Rightarrow> uuid) \<Rightarrow> ProfileId \<Rightarrow> string \<Rightarrow> (string \<times> string) list \<Rightarrow> SecretBroker
     \<Rightarrow> (string \<times> uuid) list \<times> SecretBroker" where
  "store_fields C fresh profile origin [] b = ([], b)"
| "store_fields C fresh profile origin ((name, val) # fs) b =
     (let (h, b') = SecretBroker_store C (fresh name) profile origin val b;
          (hs, b'') = store_fields C fresh profile origin fs b'
      in ((name, h) # hs, b''))"

definition IdentityVault_create ::
    "AeadCipher \<Rightarrow> (string \<Rightarrow> uuid) \<Rightarrow> uuid \<Rightarrow> ProfileId \<Rightarrow> string \<Rightarrow> (string, string) BTreeMap \<Rightarrow> IdentityVault
     \<Rightarrow> uuid \<times> IdentityVault" where
  "IdentityVault_create C fresh iid profile origin field_values v =
     (let (handles, b) = store_fields C fresh profile origin field_values (iv_broker v)
      in (iid, \<lparr>iv_broker = b,
                iv_profiles = bt_insert iid \<lparr>ip_id = iid, ip_profile = profile, ip_origin = origin,
                  ip_fields = bt_collect handles\<rparr> (iv_profiles v),
                iv_events = iv_events v @
                  [\<lparr>iae_identity_id = iid, iae_field = None, iae_action = ''created''\<rparr>]\<rparr>))"

definition IdentityVault_authorize_field_unchecked ::
    "uuid \<Rightarrow> u64 \<Rightarrow> uuid \<Rightarrow> string \<Rightarrow> ProfileId \<Rightarrow> string \<Rightarrow> IdentityVault
     \<Rightarrow> (SecretError + SecretCapability) \<times> IdentityVault" where
  "IdentityVault_authorize_field_unchecked fresh now iid field_name profile origin v =
     (case bt_get (iv_profiles v) iid of
        None \<Rightarrow> (Inl UnknownHandle, v)
      | Some r \<Rightarrow>
          if ip_profile r \<noteq> profile then (Inl ProfileMismatch, v)
          else if ip_origin r \<noteq> origin then (Inl OriginMismatch, v)
          else (case bt_get (ip_fields r) field_name of
              None \<Rightarrow> (Inl UnknownHandle, v)
            | Some handle \<Rightarrow>
                let (res, b) = SecretBroker_grant fresh now handle profile origin
                      (''identity:'' @ field_name) True (iv_broker v)
                in (res, v\<lparr>iv_broker := b\<rparr>)))"

definition IdentityVault_authorize_field_with_consent ::
    "uuid \<Rightarrow> u64 \<Rightarrow> uuid \<Rightarrow> string \<Rightarrow> ProfileId \<Rightarrow> string \<Rightarrow> bool \<Rightarrow> IdentityVault
     \<Rightarrow> (SecretError + SecretCapability) \<times> IdentityVault" where
  "IdentityVault_authorize_field_with_consent fresh now iid field_name profile origin consent v =
     (if \<not> consent then (Inl InvalidCapability, v)
      else (case IdentityVault_authorize_field_unchecked fresh now iid field_name profile origin v of
          (Inl e, v') \<Rightarrow> (Inl e, v')
        | (Inr capability, v') \<Rightarrow>
            (Inr capability, v'\<lparr>iv_events := iv_events v' @
               [\<lparr>iae_identity_id = iid, iae_field = Some field_name, iae_action = ''field_authorized''\<rparr>]\<rparr>)))"

definition IdentityVault_authorize_field ::
    "uuid \<Rightarrow> u64 \<Rightarrow> uuid \<Rightarrow> string \<Rightarrow> ProfileId \<Rightarrow> string \<Rightarrow> IdentityVault
     \<Rightarrow> (SecretError + SecretCapability) \<times> IdentityVault" where
  "IdentityVault_authorize_field fresh now iid field_name profile origin v =
     IdentityVault_authorize_field_with_consent fresh now iid field_name profile origin True v"

definition IdentityVault_with_field ::
    "AeadCipher \<Rightarrow> u64 \<Rightarrow> SecretCapability \<Rightarrow> ProfileId \<Rightarrow> string \<Rightarrow> (string \<Rightarrow> 't) \<Rightarrow> IdentityVault
     \<Rightarrow> (SecretError + 't) option \<times> IdentityVault" where
  "IdentityVault_with_field C now capability profile origin use_field v =
     (let (res, b) = SecretBroker_with_secret C now capability profile origin use_field (iv_broker v);
          v' = v\<lparr>iv_broker := b\<rparr>
      in case res of
           Inl e \<Rightarrow> (Some (Inl e), v')
         | Inr x \<Rightarrow>
             (case find (\<lambda>e. cap_handle capability \<in> set (bt_values (ip_fields (snd e)))) (iv_profiles v') of
                None \<Rightarrow> (None, v')
              | Some e \<Rightarrow> (Some (Inr x), v'\<lparr>iv_events := iv_events v' @
                  [\<lparr>iae_identity_id = fst e, iae_field = None, iae_action = ''field_released''\<rparr>]\<rparr>)))"

subsection \<open>Payment vault (crates/payment-vault)\<close>

record PaymentInstrument =
  pi_id :: uuid
  pi_profile :: ProfileId
  pi_merchant_origin :: string
  pi_number_handle :: uuid

record PaymentAuditEvent =
  pae_payment_id :: uuid
  pae_action :: string

record PaymentVault =
  pv_broker :: SecretBroker
  pv_instruments :: "(uuid, PaymentInstrument) BTreeMap"
  pv_events :: "PaymentAuditEvent list"

definition PaymentVault_default :: "string \<Rightarrow> PaymentVault" where
  "PaymentVault_default key = \<lparr>pv_broker = SecretBroker_new key, pv_instruments = [], pv_events = []\<rparr>"

definition PaymentVault_add_card ::
    "AeadCipher \<Rightarrow> uuid \<Rightarrow> uuid \<Rightarrow> ProfileId \<Rightarrow> string \<Rightarrow> string \<Rightarrow> PaymentVault \<Rightarrow> uuid \<times> PaymentVault" where
  "PaymentVault_add_card C fresh_handle pid profile merchant_origin card_number v =
     (let (handle, b) = SecretBroker_store C fresh_handle profile merchant_origin card_number (pv_broker v)
      in (pid, \<lparr>pv_broker = b,
                pv_instruments = bt_insert pid \<lparr>pi_id = pid, pi_profile = profile,
                  pi_merchant_origin = merchant_origin, pi_number_handle = handle\<rparr> (pv_instruments v),
                pv_events = pv_events v @ [\<lparr>pae_payment_id = pid, pae_action = ''card_added''\<rparr>]\<rparr>))"

definition PaymentVault_classify_purchase :: "TransactionPolicy \<Rightarrow> TransactionClassification" where
  "PaymentVault_classify_purchase policy = TransactionPolicy_classify policy Purchase RemoteIrreversible"

definition PaymentVault_authorize_with_confirmation ::
    "uuid \<Rightarrow> u64 \<Rightarrow> uuid \<Rightarrow> ProfileId \<Rightarrow> string \<Rightarrow> bool \<Rightarrow> PaymentVault
     \<Rightarrow> (SecretError + SecretCapability) \<times> PaymentVault" where
  "PaymentVault_authorize_with_confirmation fresh now pid profile merchant_origin confirmed v =
     (case bt_get (pv_instruments v) pid of
        None \<Rightarrow> (Inl UnknownHandle, v)
      | Some i \<Rightarrow>
          if pi_profile i \<noteq> profile then (Inl ProfileMismatch, v)
          else if pi_merchant_origin i \<noteq> merchant_origin then (Inl OriginMismatch, v)
          else if \<not> confirmed then (Inl InvalidCapability, v)
          else (case SecretBroker_grant fresh now (pi_number_handle i) profile merchant_origin
                       ''payment'' True (pv_broker v) of
              (Inl e, b) \<Rightarrow> (Inl e, v\<lparr>pv_broker := b\<rparr>)
            | (Inr capability, b) \<Rightarrow>
                (Inr capability, v\<lparr>pv_broker := b, pv_events := pv_events v @
                   [\<lparr>pae_payment_id = pid, pae_action = ''payment_authorized''\<rparr>]\<rparr>)))"

definition PaymentVault_authorize ::
    "uuid \<Rightarrow> u64 \<Rightarrow> uuid \<Rightarrow> ProfileId \<Rightarrow> string \<Rightarrow> PaymentVault
     \<Rightarrow> (SecretError + SecretCapability) \<times> PaymentVault" where
  "PaymentVault_authorize fresh now pid profile merchant_origin v =
     PaymentVault_authorize_with_confirmation fresh now pid profile merchant_origin False v"

definition PaymentVault_with_card_number ::
    "AeadCipher \<Rightarrow> u64 \<Rightarrow> SecretCapability \<Rightarrow> ProfileId \<Rightarrow> string \<Rightarrow> (string \<Rightarrow> 't) \<Rightarrow> PaymentVault
     \<Rightarrow> (SecretError + 't) \<times> PaymentVault" where
  "PaymentVault_with_card_number C now capability profile origin use_number v =
     (let (res, b) = SecretBroker_with_secret C now capability profile origin use_number (pv_broker v);
          v' = v\<lparr>pv_broker := b\<rparr>
      in if isl res then (res, v')
         else (case find (\<lambda>e. pi_number_handle (snd e) = cap_handle capability) (pv_instruments v') of
             None \<Rightarrow> (res, v')
           | Some e \<Rightarrow> (res, v'\<lparr>pv_events := pv_events v' @
               [\<lparr>pae_payment_id = fst e, pae_action = ''payment_released''\<rparr>]\<rparr>)))"

subsection \<open>The contract of a vault\<close>

definition same_secrets :: "SecretBroker \<Rightarrow> SecretBroker \<Rightarrow> bool" where
  "same_secrets b b' \<longleftrightarrow> sb_records b' = sb_records b \<and> sb_consumed b' = sb_consumed b \<and> sb_key b' = sb_key b"

lemma same_secrets_refl [simp]: "same_secrets b b"
  by (simp add: same_secrets_def)

lemma grant_same_secrets:
  "same_secrets b (snd (SecretBroker_grant_for_with_consent fresh now h p u q ot l consent b))"
  by (simp add: SecretBroker_grant_for_with_consent_def same_secrets_def split: option.split)

lemma grant_capability:
  "fst (SecretBroker_grant_for_with_consent fresh now h p u q ot None consent b) = Inr c \<Longrightarrow>
   consent \<and> c = \<lparr>cap_reference = fresh, cap_handle = h, cap_profile = p, cap_origin = u, cap_purpose = q,
     cap_one_time = ot, cap_expires_at_unix_seconds = None\<rparr>"
  by (auto simp: SecretBroker_grant_for_with_consent_def split: if_splits option.splits)

lemma grant_record:
  "fst (SecretBroker_grant_for_with_consent fresh now h p u q ot l consent b) = Inr c \<Longrightarrow>
   \<exists>r. bt_get (sb_records b) h = Some r \<and> srec_profile r = p \<and> srec_origin r = u"
  by (auto simp: SecretBroker_grant_for_with_consent_def split: if_splits option.splits)

lemmas grant_defs = SecretBroker_grant_def SecretBroker_grant_with_consent_def

locale scoped_vault =
  fixes broker_of :: "'v \<Rightarrow> SecretBroker"
    and scope_of :: "'v \<Rightarrow> 'k \<Rightarrow> (ProfileId \<times> string \<times> uuid) option"
    and authorize :: "uuid \<Rightarrow> u64 \<Rightarrow> 'k \<Rightarrow> ProfileId \<Rightarrow> string \<Rightarrow> 'v \<Rightarrow> (SecretError + SecretCapability) \<times> 'v"
  assumes authorized: "fst (authorize fresh now k p u v) = Inr c \<Longrightarrow>
      scope_of v k = Some (p, u, cap_handle c) \<and> cap_one_time c \<and> cap_profile c = p \<and> cap_origin c = u
      \<and> cap_expires_at_unix_seconds c = None \<and> cap_reference c = fresh
      \<and> (\<exists>r. bt_get (sb_records (broker_of v)) (cap_handle c) = Some r \<and> srec_profile r = p \<and> srec_origin r = u)"
    and authorize_keeps: "same_secrets (broker_of v) (broker_of (snd (authorize fresh now k p u v)))"
begin

text \<open>The capability is worthless anywhere but in its own profile and origin.\<close>

lemma other_scope_refused:
  assumes "fst (authorize fresh now k p u v) = Inr c" "p' \<noteq> p \<or> u' \<noteq> u"
  shows "isl (fst (SecretBroker_with_secret C now' c p' u' f b))"
  using authorized [OF assms(1)] assms(2) by (auto simp: SecretBroker_with_secret_def)

text \<open>Used at once it releases what the handle holds, and then nothing any more.\<close>

lemma released_once:
  assumes ok: "fst (authorize fresh now k p u v) = Inr c" and new: "fresh \<notin> sb_consumed (broker_of v)"
    and rec: "bt_get (sb_records (broker_of v)) (cap_handle c) = Some r"
    and plain: "dec C (sb_key (broker_of v)) (srec_nonce r) (srec_ciphertext r) = Some t"
    and b: "b = broker_of (snd (authorize fresh now k p u v))"
  shows "fst (SecretBroker_with_secret C now' c p u f b) = Inr (f t)"
    and "fst (SecretBroker_with_secret C now'' c p u g (snd (SecretBroker_with_secret C now' c p u f b)))
       = Inl AlreadyConsumed"
proof -
  from authorize_keeps [of v fresh now k p u] have "sb_records b = sb_records (broker_of v)"
    "sb_consumed b = sb_consumed (broker_of v)" "sb_key b = sb_key (broker_of v)"
    by (simp_all add: same_secrets_def b)
  with authorized [OF ok] new rec plain
  show "fst (SecretBroker_with_secret C now' c p u f b) = Inr (f t)"
    and "fst (SecretBroker_with_secret C now'' c p u g (snd (SecretBroker_with_secret C now' c p u f b)))
       = Inl AlreadyConsumed"
    by (auto simp: SecretBroker_with_secret_def)
qed

end

definition credential_scope :: "CredentialBroker \<Rightarrow> uuid \<Rightarrow> (ProfileId \<times> string \<times> uuid) option" where
  "credential_scope v k = map_option (\<lambda>r. (cr_profile r, cr_origin r, cr_password_handle r)) (bt_get (crb_records v) k)"

definition payment_scope :: "PaymentVault \<Rightarrow> uuid \<Rightarrow> (ProfileId \<times> string \<times> uuid) option" where
  "payment_scope v k = map_option (\<lambda>i. (pi_profile i, pi_merchant_origin i, pi_number_handle i)) (bt_get (pv_instruments v) k)"

definition identity_scope :: "IdentityVault \<Rightarrow> uuid \<times> string \<Rightarrow> (ProfileId \<times> string \<times> uuid) option" where
  "identity_scope v k =
     (case bt_get (iv_profiles v) (fst k) of
        None \<Rightarrow> None
      | Some r \<Rightarrow> map_option (\<lambda>h. (ip_profile r, ip_origin r, h)) (bt_get (ip_fields r) (snd k)))"

interpretation credentials: scoped_vault crb_secrets credential_scope
  "\<lambda>fresh now k p u. CredentialBroker_grant_password_with_consent fresh now k p u purpose consent"
  for purpose consent
proof
  show "same_secrets (crb_secrets v) (crb_secrets (snd (CredentialBroker_grant_password_with_consent fresh now k p u purpose consent v)))"
    for v fresh now k p u
    by (auto simp: CredentialBroker_grant_password_with_consent_def grant_defs grant_same_secrets
        case_prod_beta Let_def split: option.split)
  fix fresh :: uuid and now k p u v c
  assume "fst (CredentialBroker_grant_password_with_consent fresh now k p u purpose consent v) = Inr c"
  then obtain r where r: "bt_get (crb_records v) k = Some r" "cr_profile r = p" "cr_origin r = u"
    "fst (SecretBroker_grant_for_with_consent fresh now (cr_password_handle r) p u purpose True None consent
       (crb_secrets v)) = Inr c"
    by (auto simp: CredentialBroker_grant_password_with_consent_def grant_defs case_prod_beta Let_def
        split: option.splits if_splits)
  with grant_capability [OF r(4)] grant_record [OF r(4)]
  show "credential_scope v k = Some (p, u, cap_handle c) \<and> cap_one_time c \<and> cap_profile c = p \<and> cap_origin c = u
      \<and> cap_expires_at_unix_seconds c = None \<and> cap_reference c = fresh
      \<and> (\<exists>r. bt_get (sb_records (crb_secrets v)) (cap_handle c) = Some r \<and> srec_profile r = p \<and> srec_origin r = u)"
    by (auto simp: credential_scope_def)
qed

interpretation payments: scoped_vault pv_broker payment_scope
  "\<lambda>fresh now k p u. PaymentVault_authorize_with_confirmation fresh now k p u confirmed" for confirmed
proof
  show "same_secrets (pv_broker v) (pv_broker (snd (PaymentVault_authorize_with_confirmation fresh now k p u confirmed v)))"
    for v fresh now k p u
    using grant_same_secrets [of "pv_broker v" fresh now _ p u "''payment''" True None True]
    by (auto simp: PaymentVault_authorize_with_confirmation_def grant_defs split: option.split prod.split sum.split)
      (metis snd_conv)+
  fix fresh :: uuid and now k p u v c
  assume "fst (PaymentVault_authorize_with_confirmation fresh now k p u confirmed v) = Inr c"
  then obtain i where i: "bt_get (pv_instruments v) k = Some i" "pi_profile i = p" "pi_merchant_origin i = u"
    "fst (SecretBroker_grant_for_with_consent fresh now (pi_number_handle i) p u ''payment'' True None True
       (pv_broker v)) = Inr c"
    by (auto simp: PaymentVault_authorize_with_confirmation_def grant_defs
        split: option.splits if_splits prod.splits sum.splits)
  with grant_capability [OF i(4)] grant_record [OF i(4)]
  show "payment_scope v k = Some (p, u, cap_handle c) \<and> cap_one_time c \<and> cap_profile c = p \<and> cap_origin c = u
      \<and> cap_expires_at_unix_seconds c = None \<and> cap_reference c = fresh
      \<and> (\<exists>r. bt_get (sb_records (pv_broker v)) (cap_handle c) = Some r \<and> srec_profile r = p \<and> srec_origin r = u)"
    by (auto simp: payment_scope_def)
qed

lemma identity_unchecked_cases:
  assumes "fst (IdentityVault_authorize_field_unchecked fresh now iid field_name p u v) = Inr c"
  obtains r h where "bt_get (iv_profiles v) iid = Some r" "ip_profile r = p" "ip_origin r = u"
    "bt_get (ip_fields r) field_name = Some h"
    "fst (SecretBroker_grant_for_with_consent fresh now h p u (''identity:'' @ field_name) True None True
       (iv_broker v)) = Inr c"
  using assms
  by (auto simp: IdentityVault_authorize_field_unchecked_def grant_defs case_prod_beta Let_def
      split: option.splits if_splits)

lemma identity_unchecked_keeps:
  "same_secrets (iv_broker v) (iv_broker (snd (IdentityVault_authorize_field_unchecked fresh now iid field_name p u v)))"
  "iv_profiles (snd (IdentityVault_authorize_field_unchecked fresh now iid field_name p u v)) = iv_profiles v"
  by (auto simp: IdentityVault_authorize_field_unchecked_def grant_defs grant_same_secrets case_prod_beta Let_def
      split: option.split)

lemma identity_consent_keeps:
  "same_secrets (iv_broker v) (iv_broker (snd (IdentityVault_authorize_field_with_consent fresh now iid field_name p u consent v)))"
  "iv_profiles (snd (IdentityVault_authorize_field_with_consent fresh now iid field_name p u consent v)) = iv_profiles v"
  using identity_unchecked_keeps [where v = v and fresh = fresh and now = now and iid = iid and field_name = field_name and p = p and u = u]
  by (auto simp: IdentityVault_authorize_field_with_consent_def split: prod.split sum.split)

interpretation identities: scoped_vault iv_broker identity_scope
  "\<lambda>fresh now k p u. IdentityVault_authorize_field_with_consent fresh now (fst k) (snd k) p u consent" for consent
proof
  show "same_secrets (iv_broker v) (iv_broker (snd (IdentityVault_authorize_field_with_consent fresh now (fst k) (snd k) p u consent v)))"
    for v fresh now k p u by (rule identity_consent_keeps(1))
  fix fresh :: uuid and now k p u v c
  assume "fst (IdentityVault_authorize_field_with_consent fresh now (fst k) (snd k) p u consent v) = Inr c"
  then have "fst (IdentityVault_authorize_field_unchecked fresh now (fst k) (snd k) p u v) = Inr c"
    by (auto simp: IdentityVault_authorize_field_with_consent_def split: if_splits prod.splits sum.splits)
  then obtain r h where rh: "bt_get (iv_profiles v) (fst k) = Some r" "ip_profile r = p" "ip_origin r = u"
    "bt_get (ip_fields r) (snd k) = Some h"
    "fst (SecretBroker_grant_for_with_consent fresh now h p u (''identity:'' @ snd k) True None True
       (iv_broker v)) = Inr c" by (rule identity_unchecked_cases)
  with grant_capability [OF rh(5)] grant_record [OF rh(5)]
  show "identity_scope v k = Some (p, u, cap_handle c) \<and> cap_one_time c \<and> cap_profile c = p \<and> cap_origin c = u
      \<and> cap_expires_at_unix_seconds c = None \<and> cap_reference c = fresh
      \<and> (\<exists>r. bt_get (sb_records (iv_broker v)) (cap_handle c) = Some r \<and> srec_profile r = p \<and> srec_origin r = u)"
    by (auto simp: identity_scope_def)
qed

subsection \<open>Identities: every stored secret belongs to a field\<close>

inductive identity_step :: "AeadCipher \<Rightarrow> IdentityVault \<Rightarrow> IdentityVault \<Rightarrow> bool" for C where
  create: "bt_get (iv_profiles v) iid = None \<Longrightarrow> bt_ok fs \<Longrightarrow>
     identity_step C v (snd (IdentityVault_create C fresh iid profile origin fs v))"
| authorize: "identity_step C v (snd (IdentityVault_authorize_field_with_consent fresh now iid fname p u consent v))"
| release: "identity_step C v (snd (IdentityVault_with_field C now c p u (\<lambda>_. ()) v))"

definition owned :: "IdentityVault \<Rightarrow> bool" where
  "owned v \<longleftrightarrow> (\<forall>h. bt_get (sb_records (iv_broker v)) h \<noteq> None \<longrightarrow>
     (\<exists>iid r. bt_get (iv_profiles v) iid = Some r \<and> h \<in> set (bt_values (ip_fields r))))"

lemma store_fields_handles: "fst (store_fields C fresh p u fs b) = map (\<lambda>e. (fst e, fresh (fst e))) fs"
  by (induction fs arbitrary: b) (auto simp: SecretBroker_store_def case_prod_beta Let_def)

lemma store_fields_records:
  "bt_get (sb_records (snd (store_fields C fresh p u fs b))) h \<noteq> None \<longleftrightarrow>
   bt_get (sb_records b) h \<noteq> None \<or> h \<in> fresh ` fst ` set fs"
proof (induction fs arbitrary: b)
  case (Cons e fs)
  obtain name val where e: "e = (name, val)" by (cases e)
  show ?case using Cons.IH [of "snd (SecretBroker_store C (fresh name) p u val b)"]
    by (auto simp: e SecretBroker_store_def case_prod_beta Let_def)
qed simp

lemma with_secret_records: "sb_records (snd (SecretBroker_with_secret C now c p u f b)) = sb_records b"
  by (simp add: SecretBroker_with_secret_def split: option.split)

lemma with_field_keeps:
  "sb_records (iv_broker (snd (IdentityVault_with_field C now c p u f v))) = sb_records (iv_broker v)"
  "iv_profiles (snd (IdentityVault_with_field C now c p u f v)) = iv_profiles v"
  using with_secret_records [of C now c p u f "iv_broker v"]
  by (auto simp: IdentityVault_with_field_def Let_def split: prod.split sum.split option.split)

lemma owned_cong:
  "sb_records (iv_broker v') = sb_records (iv_broker v) \<Longrightarrow> iv_profiles v' = iv_profiles v \<Longrightarrow> owned v \<Longrightarrow> owned v'"
  by (simp add: owned_def)

lemma owned_create:
  assumes "owned v" "bt_get (iv_profiles v) iid = None" "bt_ok fs"
  shows "owned (snd (IdentityVault_create C fresh iid p u fs v))" (is "owned ?v")
  unfolding owned_def
proof (intro allI impI)
  let ?hs = "map (\<lambda>e. (fst e, fresh (fst e))) fs"
  let ?r = "\<lparr>ip_id = iid, ip_profile = p, ip_origin = u, ip_fields = bt_collect ?hs\<rparr>"
  have prof: "iv_profiles ?v = bt_insert iid ?r (iv_profiles v)"
    and recs: "iv_broker ?v = snd (store_fields C fresh p u fs (iv_broker v))"
    by (simp_all add: IdentityVault_create_def case_prod_beta Let_def store_fields_handles)
  fix h assume "bt_get (sb_records (iv_broker ?v)) h \<noteq> None"
  then consider (old) "bt_get (sb_records (iv_broker v)) h \<noteq> None" | (new) "h \<in> fresh ` fst ` set fs"
    unfolding recs store_fields_records by blast
  then show "\<exists>iid r. bt_get (iv_profiles ?v) iid = Some r \<and> h \<in> set (bt_values (ip_fields r))"
  proof cases
    case old
    with assms(1) obtain j r where "bt_get (iv_profiles v) j = Some r" "h \<in> set (bt_values (ip_fields r))"
      unfolding owned_def by blast
    with assms(2) show ?thesis unfolding prof by (intro exI [of _ j] exI [of _ r]) auto
  next
    case new
    have "map fst ?hs = map fst fs" by simp
    then have "bt_ok ?hs" using assms(3) by (simp only: bt_ok_def)
    then have "bt_collect ?hs = ?hs" by (rule bt_collect_id)
    moreover have "h \<in> set (bt_values ?hs)" using new by auto
    ultimately have "h \<in> set (bt_values (ip_fields ?r))" by (simp only: IdentityProfile.select_convs)
    then show ?thesis unfolding prof by (intro exI [of _ iid] exI [of _ ?r]) simp
  qed
qed

interpretation identity_owned: kept_invariant "identity_step C" owned for C
proof
  fix v v' assume "identity_step C v v'" "owned v"
  then show "owned v'"
  proof (induction rule: identity_step.induct)
    case (authorize v fresh now iid fname p u consent)
    then show ?case
      using identity_consent_keeps [where v = v and fresh = fresh and now = now and iid = iid and field_name = fname and p = p and u = u and consent = consent]
      by (auto simp: same_secrets_def intro: owned_cong)
  qed (auto intro: owned_create owned_cong [OF with_field_keeps])
qed

subsection \<open>Properties\<close>

text \<open>
  Updating a password cuts off the old one: no capability issued before for that credential
  releases anything after the update, and a capability granted afterwards for the credential
  releases exactly the new password, once.
\<close>

theorem updated_password_replaces_the_old_one:
  assumes "aead C" "bt_get (crb_records v) cid = Some r" "h \<noteq> cr_password_handle r"
    and "v' = snd (CredentialBroker_update_password C h cid password v)"
  shows "(cap_handle old = cr_password_handle r \<longrightarrow>
        isl (fst (CredentialBroker_with_password C now old p u f v')))
     \<and> (fst (CredentialBroker_grant_password fresh now cid p u purpose v') = Inr c \<and> fresh \<notin> sb_consumed (crb_secrets v') \<longrightarrow>
        fst (CredentialBroker_with_password C now' c p u f (snd (CredentialBroker_grant_password fresh now cid p u purpose v')))
          = Inr (f password))"
proof -
  have s: "crb_secrets v' = snd (SecretBroker_revoke (cr_password_handle r)
      (snd (SecretBroker_store C h (cr_profile r) (cr_origin r) password (crb_secrets v))))"
    and rec: "bt_get (crb_records v') cid = Some (r\<lparr>cr_password_handle := h\<rparr>)"
    using assms(2,4) by (simp_all add: CredentialBroker_update_password_def SecretBroker_store_def Let_def)
  have gone: "bt_get (sb_records (crb_secrets v')) (cr_password_handle r) = None"
    unfolding s by (simp add: SecretBroker_revoke_def split: option.split)
  have new: "bt_get (sb_records (crb_secrets v')) h = Some \<lparr>srec_profile = cr_profile r, srec_origin = cr_origin r,
      srec_nonce = nonce_for h, srec_ciphertext = enc C (sb_key (crb_secrets v)) (nonce_for h) password\<rparr>"
    and key: "sb_key (crb_secrets v') = sb_key (crb_secrets v)"
    unfolding s using assms(3) by (auto simp: SecretBroker_revoke_def SecretBroker_store_def split: option.split)
  have "isl (fst (CredentialBroker_with_password C now old p u f v'))" if "cap_handle old = cr_password_handle r"
    using gone that by (simp add: CredentialBroker_with_password_def SecretBroker_with_secret_def case_prod_beta Let_def)
  moreover have "fst (CredentialBroker_with_password C now' c p u f
      (snd (CredentialBroker_grant_password fresh now cid p u purpose v'))) = Inr (f password)"
    if g: "fst (CredentialBroker_grant_password_with_consent fresh now cid p u purpose True v') = Inr c"
      and n: "fresh \<notin> sb_consumed (crb_secrets v')"
  proof -
    from credentials.authorized [OF g] rec have h: "cap_handle c = h" by (simp add: credential_scope_def)
    have d: "dec C (sb_key (crb_secrets v')) (nonce_for h) (enc C (sb_key (crb_secrets v)) (nonce_for h) password)
        = Some password"
      using assms(1) key by (simp add: aead_def)
    from credentials.released_once(1) [OF g n, unfolded h, OF new _ refl, of C password now' f] d show ?thesis
      by (simp add: CredentialBroker_with_password_def CredentialBroker_grant_password_def case_prod_beta Let_def)
  qed
  ultimately show ?thesis by (simp add: CredentialBroker_grant_password_def)
qed

definition sample_credentials :: CredentialBroker where
  "sample_credentials = snd (CredentialBroker_save_password toy_cipher 5 2 1 ''https://a.test'' ''ann'' ''hunter2''
     (CredentialBroker_new ''key''))"

lemma sample_credential_record:
  "bt_get (crb_records sample_credentials) 2 = Some \<lparr>cr_id = 2, cr_profile = 1, cr_origin = ''https://a.test'',
     cr_username = ''ann'', cr_password_handle = 5\<rparr>"
  by (simp add: sample_credentials_def CredentialBroker_save_password_def CredentialBroker_new_def
      SecretBroker_store_def Let_def)

theorem updated_password_replaces_the_old_one_witness:
  "isl (fst (CredentialBroker_with_password toy_cipher 0 sample_capability 1 ''https://a.test'' length
     (snd (CredentialBroker_update_password toy_cipher 6 2 ''correct horse'' sample_credentials))))"
  using updated_password_replaces_the_old_one [OF aead_toy_cipher sample_credential_record _ refl,
      where h = 6 and old = sample_capability and password = "''correct horse''" and now = 0 and p = 1
        and u = "''https://a.test''" and f = length]
  by (simp add: sample_capability_def)

text \<open>
  A stored card number is released only after a confirmed authorisation for the very profile
  and merchant it was added for: the capability is refused at any other merchant and in any other
  profile, it releases the number once, and a second use is refused.
\<close>

theorem card_released_once_to_its_merchant:
  assumes "fst (PaymentVault_authorize_with_confirmation fresh now pid p u confirmed v) = Inr c"
    and "fresh \<notin> sb_consumed (pv_broker v)"
    and "v' = snd (PaymentVault_authorize_with_confirmation fresh now pid p u confirmed v)"
  shows "confirmed
     \<and> (\<exists>i. bt_get (pv_instruments v) pid = Some i \<and> pi_profile i = p \<and> pi_merchant_origin i = u)
     \<and> ((p', u') \<noteq> (p, u) \<longrightarrow> isl (fst (PaymentVault_with_card_number C now' c p' u' f w)))
     \<and> (fst (PaymentVault_with_card_number C now' c p u f v') = Inr y \<longrightarrow>
        fst (PaymentVault_with_card_number C now'' c p u f (snd (PaymentVault_with_card_number C now' c p u f v')))
          = Inl AlreadyConsumed)"
proof -
  have "confirmed" using assms(1)
    by (auto simp: PaymentVault_authorize_with_confirmation_def split: option.splits if_splits)
  moreover have "\<exists>i. bt_get (pv_instruments v) pid = Some i \<and> pi_profile i = p \<and> pi_merchant_origin i = u"
    using payments.authorized [OF assms(1)] by (auto simp: payment_scope_def)
  moreover have "isl (fst (PaymentVault_with_card_number C now' c p' u' f w))" if "(p', u') \<noteq> (p, u)"
    using payments.other_scope_refused [OF assms(1), of p' u' C now' f "pv_broker w"] that
    by (auto simp: PaymentVault_with_card_number_def Let_def split: prod.split option.split)
  moreover have "fst (PaymentVault_with_card_number C now'' c p u f (snd (PaymentVault_with_card_number C now' c p u f v')))
      = Inl AlreadyConsumed" if y: "fst (PaymentVault_with_card_number C now' c p u f v') = Inr y"
  proof -
    have b: "pv_broker (snd (PaymentVault_with_card_number C now' c p u f v')) =
        snd (SecretBroker_with_secret C now' c p u f (pv_broker v'))" for v'
      by (auto simp: PaymentVault_with_card_number_def Let_def case_prod_beta split: option.split)
    have "fst (SecretBroker_with_secret C now' c p u f (pv_broker v')) = Inr y"
      using y by (auto simp: PaymentVault_with_card_number_def Let_def case_prod_beta split: option.splits if_splits)
    then have "cap_reference c \<in> sb_consumed (snd (SecretBroker_with_secret C now' c p u f (pv_broker v')))"
      using payments.authorized [OF assms(1)]
      by (auto simp: SecretBroker_with_secret_def split: if_splits option.splits)
    then have "fst (SecretBroker_with_secret C now'' c p u f
        (snd (SecretBroker_with_secret C now' c p u f (pv_broker v')))) = Inl AlreadyConsumed"
      using payments.authorized [OF assms(1)]
      by (auto simp: SecretBroker_with_secret_def [of C now''])
    then show ?thesis
      using b [of v'] by (auto simp: PaymentVault_with_card_number_def [of C now''] Let_def case_prod_beta)
  qed
  ultimately show ?thesis by blast
qed

definition sample_payments :: PaymentVault where
  "sample_payments = snd (PaymentVault_add_card toy_cipher 5 2 1 ''https://shop.test'' ''4242'' (PaymentVault_default ''key''))"

lemmas sample_payment_simps =
  sample_payments_def PaymentVault_add_card_def PaymentVault_default_def SecretBroker_store_def SecretBroker_new_def
  PaymentVault_authorize_with_confirmation_def grant_defs SecretBroker_grant_for_with_consent_def
  SecretPolicy_default_def Let_def

theorem card_released_once_to_its_merchant_witness:
  "isl (fst (PaymentVault_with_card_number toy_cipher 0
     \<lparr>cap_reference = 9, cap_handle = 5, cap_profile = 1, cap_origin = ''https://shop.test'', cap_purpose = ''payment'',
      cap_one_time = True, cap_expires_at_unix_seconds = None\<rparr> 1 ''https://evil.test'' length sample_payments))"
proof -
  have a: "fst (PaymentVault_authorize_with_confirmation 9 0 2 1 ''https://shop.test'' True sample_payments) =
    Inr \<lparr>cap_reference = 9, cap_handle = 5, cap_profile = 1, cap_origin = ''https://shop.test'',
         cap_purpose = ''payment'', cap_one_time = True, cap_expires_at_unix_seconds = None\<rparr>"
    and n: "9 \<notin> sb_consumed (pv_broker sample_payments)"
    by (simp_all add: sample_payment_simps)
  from card_released_once_to_its_merchant [OF a n refl, of 1 "''https://evil.test''" toy_cipher 0 length sample_payments]
  show ?thesis by simp
qed

text \<open>
  Releasing an identity field never panics: in every vault built by its own operations, each
  stored secret is a field of some identity, so the lookup behind the audit entry of a release
  finds it, whatever capability is presented.
\<close>

theorem identity_release_never_panics:
  assumes "(identity_step C)\<^sup>*\<^sup>* (IdentityVault_default key) v"
  shows "\<exists>res. fst (IdentityVault_with_field C now c p u f v) = Some res"
proof (cases "fst (SecretBroker_with_secret C now c p u f (iv_broker v))")
  case (Inl e)
  then show ?thesis by (auto simp: IdentityVault_with_field_def case_prod_beta Let_def)
next
  case (Inr x)
  have "owned (IdentityVault_default key)"
    by (simp add: owned_def IdentityVault_default_def SecretBroker_new_def)
  with assms have "owned v" by (rule identity_owned.reach_keeps)
  moreover from Inr have "bt_get (sb_records (iv_broker v)) (cap_handle c) \<noteq> None"
    by (auto simp: SecretBroker_with_secret_def split: if_splits option.splits)
  ultimately obtain iid r where "bt_get (iv_profiles v) iid = Some r" "cap_handle c \<in> set (bt_values (ip_fields r))"
    unfolding owned_def by blast
  then have "(iid, r) \<in> set (iv_profiles v) \<and> cap_handle c \<in> set (bt_values (ip_fields (snd (iid, r))))"
    by (simp add: bt_get_Some_in)
  then have "find (\<lambda>e. cap_handle c \<in> set (bt_values (ip_fields (snd e)))) (iv_profiles v) \<noteq> None"
    unfolding find_None_iff by blast
  with Inr show ?thesis by (auto simp: IdentityVault_with_field_def case_prod_beta Let_def split: option.split)
qed

theorem identity_release_never_panics_witness:
  "\<exists>res. fst (IdentityVault_with_field toy_cipher 0 sample_capability 1 ''https://a.test'' length
     (snd (IdentityVault_create toy_cipher (\<lambda>_. 5) 2 1 ''https://a.test'' [(''email'', ''a@b.c'')]
       (IdentityVault_default ''key'')))) = Some res"
  by (rule identity_release_never_panics [where key = "''key''"], rule r_into_rtranclp, rule identity_step.create)
     (simp_all add: IdentityVault_default_def bt_ok_def)

end
