(* ===== verification/Authenticators.thy ===== *)
theory Authenticators
  imports Vaults Web Text
begin

section \<open>One-time codes and passkeys (crates/totp, crates/webauthn)\<close>

text \<open>
  The TOTP broker keeps seeds in a secret broker and computes RFC 6238 codes inside the release
  callback. HMAC-SHA1 (\<open>hmac\<close>) and the base32 decoder (\<open>base32\<close>) are arguments; what the code
  relies on is that a SHA-1 digest has twenty bytes.

  The WebAuthn broker binds passkeys to a profile and a relying party and hands out assertion
  challenges, each a new identifier followed by the user-verification flag.
\<close>

unbundle bit_operations_syntax

subsection \<open>TOTP (crates/totp)\<close>

record TotpRecord =
  tr_id :: uuid
  tr_profile :: ProfileId
  tr_origin :: string
  tr_handle :: uuid

record TotpBroker =
  tb_secrets :: SecretBroker
  tb_records :: "(uuid, TotpRecord) BTreeMap"

definition TotpBroker_default :: "string \<Rightarrow> TotpBroker" where
  "TotpBroker_default key = \<lparr>tb_secrets = SecretBroker_new key, tb_records = []\<rparr>"

definition TotpBroker_save_seed ::
    "AeadCipher \<Rightarrow> uuid \<Rightarrow> uuid \<Rightarrow> ProfileId \<Rightarrow> string \<Rightarrow> string \<Rightarrow> TotpBroker \<Rightarrow> uuid \<times> TotpBroker" where
  "TotpBroker_save_seed C fresh_handle tid profile origin seed_base32 b =
     (let (handle, secrets) = SecretBroker_store C fresh_handle profile origin seed_base32 (tb_secrets b)
      in (tid, \<lparr>tb_secrets = secrets,
                tb_records = bt_insert tid \<lparr>tr_id = tid, tr_profile = profile, tr_origin = origin,
                  tr_handle = handle\<rparr> (tb_records b)\<rparr>))"

definition TotpBroker_capability ::
    "uuid \<Rightarrow> u64 \<Rightarrow> uuid \<Rightarrow> ProfileId \<Rightarrow> string \<Rightarrow> TotpBroker \<Rightarrow> (SecretError + SecretCapability) \<times> TotpBroker" where
  "TotpBroker_capability fresh now tid profile origin b =
     (case bt_get (tb_records b) tid of
        None \<Rightarrow> (Inl UnknownHandle, b)
      | Some r \<Rightarrow>
          if tr_profile r \<noteq> profile then (Inl ProfileMismatch, b)
          else if tr_origin r \<noteq> origin then (Inl OriginMismatch, b)
          else let (res, secrets) = SecretBroker_grant fresh now (tr_handle r) profile origin ''totp'' True (tb_secrets b)
               in (res, b\<lparr>tb_secrets := secrets\<rparr>))"

text \<open>\<open>format!("{:06}", n)\<close>: the decimal digits, padded with zeros to at least six.\<close>

definition pad6 :: "nat \<Rightarrow> string" where
  "pad6 n = replicate (6 - length (decimal n)) (CHR ''0'') @ decimal n"

definition dynamic_truncation :: "u8 list \<Rightarrow> u32" where
  "dynamic_truncation digest =
     (let offset = unat (digest ! 19 AND 0x0f)
      in push_bit 24 (ucast (digest ! offset) AND 0x7f)
         OR push_bit 16 (ucast (digest ! (offset + 1)))
         OR push_bit 8 (ucast (digest ! (offset + 2)))
         OR ucast (digest ! (offset + 3)))"

text \<open>The closure \<open>with_code\<close> passes to the secret broker, up to the call of the caller's callback.\<close>

definition totp_code ::
    "(string \<Rightarrow> string option) \<Rightarrow> (string \<Rightarrow> string \<Rightarrow> u8 list) \<Rightarrow> u64 \<Rightarrow> string \<Rightarrow> SecretError + string" where
  "totp_code base32 hmac unix_seconds seed =
     (if \<not> utf8_valid seed then Inl InvalidSecret
      else (case base32 (to_ascii_uppercase seed) of
          None \<Rightarrow> Inl InvalidSecret
        | Some decoded \<Rightarrow>
            if decoded = [] then Inl InvalidSecret
            else
              let counter = unix_seconds div 30;
                  message = be_bytes 8 (unat counter);
                  binary = dynamic_truncation (hmac decoded message)
              in Inr (pad6 (unat (binary mod 1000000)))))"

definition TotpBroker_with_code ::
    "AeadCipher \<Rightarrow> (string \<Rightarrow> string option) \<Rightarrow> (string \<Rightarrow> string \<Rightarrow> u8 list) \<Rightarrow> u64 \<Rightarrow> SecretCapability
     \<Rightarrow> ProfileId \<Rightarrow> string \<Rightarrow> u64 \<Rightarrow> (string \<Rightarrow> 't) \<Rightarrow> TotpBroker \<Rightarrow> (SecretError + 't) \<times> TotpBroker" where
  "TotpBroker_with_code C base32 hmac now capability profile origin unix_seconds use_code b =
     (let (res, secrets) = SecretBroker_with_secret C now capability profile origin
            (\<lambda>seed. case totp_code base32 hmac unix_seconds seed of
                Inl e \<Rightarrow> Inl e | Inr code \<Rightarrow> Inr (use_code code)) (tb_secrets b)
      in (case res of Inl e \<Rightarrow> Inl e | Inr inner \<Rightarrow> inner, b\<lparr>tb_secrets := secrets\<rparr>))"

subsection \<open>Passkeys (crates/webauthn)\<close>

datatype WebAuthnError =
    InvalidRpOrigin
  | WaProfileMismatch
  | WaOriginMismatch
  | UnknownCredential
  | UnknownChallenge

record PasskeyRecord =
  pk_profile :: ProfileId
  pk_rp_origin :: string
  pk_user_handle :: string

record WebAuthnBroker =
  wa_credentials :: "(uuid, PasskeyRecord) BTreeMap"
  wa_challenges :: "string set"

definition WebAuthnBroker_default :: WebAuthnBroker where
  "WebAuthnBroker_default = \<lparr>wa_credentials = [], wa_challenges = {}\<rparr>"

definition validate_origin :: "(string \<Rightarrow> Url option) \<Rightarrow> string \<Rightarrow> WebAuthnError + unit" where
  "validate_origin parse origin =
     (case parse origin of
        None \<Rightarrow> Inl InvalidRpOrigin
      | Some url \<Rightarrow>
          if url_scheme url \<notin> {''https'', ''http''} \<or> url_host_str url = None \<or> url_path url \<noteq> ''/''
          then Inl InvalidRpOrigin else Inr ())"

definition WebAuthnBroker_register ::
    "(string \<Rightarrow> Url option) \<Rightarrow> uuid \<Rightarrow> ProfileId \<Rightarrow> string \<Rightarrow> string \<Rightarrow> WebAuthnBroker
     \<Rightarrow> (WebAuthnError + uuid) \<times> WebAuthnBroker" where
  "WebAuthnBroker_register parse handle profile rp_origin user_handle b =
     (case validate_origin parse rp_origin of
        Inl e \<Rightarrow> (Inl e, b)
      | Inr _ \<Rightarrow>
          (Inr handle, b\<lparr>wa_credentials := bt_insert handle
             \<lparr>pk_profile = profile, pk_rp_origin = rp_origin, pk_user_handle = user_handle\<rparr> (wa_credentials b)\<rparr>))"

definition challenge_bytes :: "uuid \<Rightarrow> bool \<Rightarrow> string" where
  "challenge_bytes u user_verification = be_bytes 16 (unat u) @ [char_of (if user_verification then 1 else 0 :: nat)]"

definition WebAuthnBroker_begin_assertion ::
    "(string \<Rightarrow> Url option) \<Rightarrow> uuid \<Rightarrow> uuid \<Rightarrow> ProfileId \<Rightarrow> string \<Rightarrow> bool \<Rightarrow> WebAuthnBroker
     \<Rightarrow> (WebAuthnError + string) \<times> WebAuthnBroker" where
  "WebAuthnBroker_begin_assertion parse fresh handle profile origin user_verification b =
     (case validate_origin parse origin of
        Inl e \<Rightarrow> (Inl e, b)
      | Inr _ \<Rightarrow>
          (case bt_get (wa_credentials b) handle of
             None \<Rightarrow> (Inl UnknownCredential, b)
           | Some r \<Rightarrow>
               if pk_profile r \<noteq> profile then (Inl WaProfileMismatch, b)
               else if pk_rp_origin r \<noteq> origin then (Inl WaOriginMismatch, b)
               else let challenge = challenge_bytes fresh user_verification
                    in (Inr challenge, b\<lparr>wa_challenges := insert challenge (wa_challenges b)\<rparr>)))"

definition WebAuthnBroker_complete_assertion ::
    "string \<Rightarrow> WebAuthnBroker \<Rightarrow> (WebAuthnError + unit) \<times> WebAuthnBroker" where
  "WebAuthnBroker_complete_assertion challenge b =
     (if challenge \<in> wa_challenges b
      then (Inr (), b\<lparr>wa_challenges := wa_challenges b - {challenge}\<rparr>)
      else (Inl UnknownChallenge, b))"

definition WebAuthnBroker_user_handle :: "WebAuthnBroker \<Rightarrow> uuid \<Rightarrow> string option" where
  "WebAuthnBroker_user_handle b handle = map_option pk_user_handle (bt_get (wa_credentials b) handle)"

subsection \<open>The vault contract for seeds\<close>

definition totp_scope :: "TotpBroker \<Rightarrow> uuid \<Rightarrow> (ProfileId \<times> string \<times> uuid) option" where
  "totp_scope b k = map_option (\<lambda>r. (tr_profile r, tr_origin r, tr_handle r)) (bt_get (tb_records b) k)"

interpretation seeds: scoped_vault tb_secrets totp_scope TotpBroker_capability
proof
  show "same_secrets (tb_secrets v) (tb_secrets (snd (TotpBroker_capability fresh now k p u v)))" for v fresh now k p u
    by (auto simp: TotpBroker_capability_def grant_defs grant_same_secrets case_prod_beta Let_def split: option.split)
  fix fresh :: uuid and now k p u v c
  assume "fst (TotpBroker_capability fresh now k p u v) = Inr c"
  then obtain r where r: "bt_get (tb_records v) k = Some r" "tr_profile r = p" "tr_origin r = u"
    "fst (SecretBroker_grant_for_with_consent fresh now (tr_handle r) p u ''totp'' True None True (tb_secrets v)) = Inr c"
    by (auto simp: TotpBroker_capability_def grant_defs case_prod_beta Let_def split: option.splits if_splits)
  with grant_capability [OF r(4)] grant_record [OF r(4)]
  show "totp_scope v k = Some (p, u, cap_handle c) \<and> cap_one_time c \<and> cap_profile c = p \<and> cap_origin c = u
      \<and> cap_expires_at_unix_seconds c = None \<and> cap_reference c = fresh
      \<and> (\<exists>r. bt_get (sb_records (tb_secrets v)) (cap_handle c) = Some r \<and> srec_profile r = p \<and> srec_origin r = u)"
    by (auto simp: totp_scope_def)
qed

subsection \<open>Codes\<close>

lemma foldl_zeros: "foldl (\<lambda>n c. 10 * n + (of_char c - 48)) 0 (replicate m (CHR ''0'')) = (0 :: nat)"
  by (induction m) simp_all

lemma pad6_six_digits:
  assumes "n < 1000000"
  shows "length (pad6 n) = 6 \<and> (\<forall>c \<in> set (pad6 n). digit c) \<and> digits_value (pad6 n) = n"
proof -
  have "length (decimal n) \<le> 6" using decimal_length [of 6 n] assms by simp
  moreover have "digits_value (pad6 n) = n"
    using decimal_value [of n] by (simp add: digits_value_def pad6_def foldl_zeros)
  ultimately show ?thesis using decimal_digits [of n] by (auto simp: pad6_def digit_def less_eq_char_def)
qed

lemma byte_parts_disjoint:
  fixes a b c d :: "u8"
  shows "push_bit 8 (ucast c) AND (ucast d :: u32) = 0"
    "push_bit 16 (ucast b) AND (push_bit 8 (ucast c) OR (ucast d :: u32)) = 0"
    "push_bit 24 (ucast a AND 0x7f) AND (push_bit 16 (ucast b) OR push_bit 8 (ucast c) OR (ucast d :: u32)) = 0"
  by (rule bit_eqI; auto simp: bit_simps dest: bit_imp_le_length)+

lemma unat_byte_parts:
  fixes c :: "u8"
  shows "unat (push_bit 8 (ucast c :: u32)) = unat c * 2 ^ 8"
    "unat (push_bit 16 (ucast c :: u32)) = unat c * 2 ^ 16"
    "unat (push_bit 24 (ucast c AND 0x7f :: u32)) = (unat c mod 128) * 2 ^ 24"
    "unat (ucast c :: u32) = unat c"
proof -
  have c: "unat c < 256" using unsigned_less [of c] by simp
  have m: "(ucast c AND 0x7f :: u32) = take_bit 7 (ucast c)"
    by (simp add: take_bit_eq_mask mask_eq_exp_minus_1)
  show "unat (ucast c :: u32) = unat c" using c by (simp add: unsigned_ucast_eq take_bit_eq_mod)
  show "unat (push_bit 8 (ucast c :: u32)) = unat c * 2 ^ 8"
    "unat (push_bit 16 (ucast c :: u32)) = unat c * 2 ^ 16"
    using c by (simp_all add: push_bit_eq_mult unat_word_ariths unsigned_ucast_eq take_bit_eq_mod)
  show "unat (push_bit 24 (ucast c AND 0x7f :: u32)) = (unat c mod 128) * 2 ^ 24"
    unfolding m using c by (simp add: push_bit_eq_mult unat_word_ariths unsigned_take_bit_eq unsigned_ucast_eq take_bit_eq_mod)
qed

lemma unat_or_add: "a AND b = 0 \<Longrightarrow> unat a + unat b < 2 ^ LENGTH('a) \<Longrightarrow> unat (a OR b :: 'a::len word) = unat a + unat b"
  by (simp add: unat_word_ariths flip: disjunctive_add_eq_or)

lemma unat_four_bytes:
  fixes a b c d :: "u8"
  shows "unat (push_bit 24 (ucast a AND 0x7f) OR push_bit 16 (ucast b) OR push_bit 8 (ucast c) OR ucast d :: u32)
    = (unat a mod 128) * 2 ^ 24 + unat b * 2 ^ 16 + unat c * 2 ^ 8 + unat d"
proof -
  have "unat b < 256" "unat c < 256" "unat d < 256" "unat a mod 128 < 128"
    using unsigned_less [of b] unsigned_less [of c] unsigned_less [of d] by simp_all
  moreover define A B C D where "A = push_bit 24 (ucast a AND 0x7f :: u32)" and "B = push_bit 16 (ucast b :: u32)"
    and "C = push_bit 8 (ucast c :: u32)" and "D = (ucast d :: u32)"
  moreover have "unat A = (unat a mod 128) * 2 ^ 24" "unat B = unat b * 2 ^ 16" "unat C = unat c * 2 ^ 8" "unat D = unat d"
    unfolding A_def B_def C_def D_def by (rule unat_byte_parts)+
  moreover have "C AND D = 0" "B AND (C OR D) = 0" "A AND (B OR C OR D) = 0"
    unfolding A_def B_def C_def D_def by (rule byte_parts_disjoint)+
  ultimately have "unat (A OR B OR C OR D) = (unat a mod 128) * 2 ^ 24 + unat b * 2 ^ 16 + unat c * 2 ^ 8 + unat d"
    by (simp add: unat_or_add)
  then show ?thesis by (simp only: A_def B_def C_def D_def)
qed

definition hotp_value :: "u8 list \<Rightarrow> nat" where
  "hotp_value digest =
     (let o4 = unat (digest ! 19) mod 16
      in (unat (digest ! o4) mod 128) * 2 ^ 24 + unat (digest ! (o4 + 1)) * 2 ^ 16
         + unat (digest ! (o4 + 2)) * 2 ^ 8 + unat (digest ! (o4 + 3)))"

lemma offset_mod: "unat (w AND 0x0f :: u8) = unat w mod 16"
proof -
  have "(w AND 0x0f :: u8) = take_bit 4 w" by (simp add: take_bit_eq_mask mask_eq_exp_minus_1)
  then show ?thesis by (simp add: take_bit_eq_mod unat_mod_distrib)
qed

lemma dynamic_truncation_value: "unat (dynamic_truncation digest) = hotp_value digest"
  by (simp only: dynamic_truncation_def hotp_value_def Let_def unat_four_bytes offset_mod)

lemma totp_code_defined:
  "utf8_valid seed \<Longrightarrow> base32 (to_ascii_uppercase seed) = Some key \<Longrightarrow> key \<noteq> [] \<Longrightarrow>
   \<exists>code. totp_code base32 hmac unix_seconds seed = Inr code"
  by (simp add: totp_code_def Let_def)

subsection \<open>Sequences of passkey operations\<close>

datatype WaOp =
    WaRegister uuid ProfileId string string
  | WaBegin uuid uuid ProfileId string bool
  | WaComplete string

fun wa_apply :: "(string \<Rightarrow> Url option) \<Rightarrow> WaOp \<Rightarrow> WebAuthnBroker \<Rightarrow> WebAuthnBroker" where
  "wa_apply parse (WaRegister h p u x) b = snd (WebAuthnBroker_register parse h p u x b)"
| "wa_apply parse (WaBegin f h p u uv) b = snd (WebAuthnBroker_begin_assertion parse f h p u uv b)"
| "wa_apply parse (WaComplete ch) b = snd (WebAuthnBroker_complete_assertion ch b)"

text \<open>A pending challenge was issued, and has not been completed since.\<close>

definition pending_since :: "(string \<Rightarrow> Url option) \<Rightarrow> WaOp list \<Rightarrow> string \<Rightarrow> bool" where
  "pending_since parse xs ch \<longleftrightarrow>
     (\<exists>as bs f h p u uv. xs = as @ WaBegin f h p u uv # bs
        \<and> fst (WebAuthnBroker_begin_assertion parse f h p u uv (fold (wa_apply parse) as WebAuthnBroker_default)) = Inr ch
        \<and> WaComplete ch \<notin> set bs)"

lemma pending_since_snoc:
  assumes "pending_since parse xs ch" "x \<noteq> WaComplete ch"
  shows "pending_since parse (xs @ [x]) ch"
proof -
  from assms(1) obtain as bs f h p u uv where "xs = as @ WaBegin f h p u uv # bs" "WaComplete ch \<notin> set bs"
    "fst (WebAuthnBroker_begin_assertion parse f h p u uv (fold (wa_apply parse) as WebAuthnBroker_default)) = Inr ch"
    unfolding pending_since_def by blast
  with assms(2) show ?thesis unfolding pending_since_def
    by (intro exI [of _ as] exI [of _ "bs @ [x]"] exI [of _ f] exI [of _ h] exI [of _ p] exI [of _ u] exI [of _ uv]) simp
qed

lemma wa_challenge_new:
  "ch \<in> wa_challenges (wa_apply parse x b) \<Longrightarrow> ch \<in> wa_challenges b \<and> x \<noteq> WaComplete ch
     \<or> (\<exists>f h p u uv. x = WaBegin f h p u uv \<and> fst (WebAuthnBroker_begin_assertion parse f h p u uv b) = Inr ch)"
  by (cases x)
     (auto simp: WebAuthnBroker_register_def WebAuthnBroker_begin_assertion_def WebAuthnBroker_complete_assertion_def
       Let_def split: sum.splits option.splits if_splits)

lemma challenge_pending_since:
  "ch \<in> wa_challenges (fold (wa_apply parse) xs WebAuthnBroker_default) \<Longrightarrow> pending_since parse xs ch"
proof (induction xs rule: rev_induct)
  case Nil
  then show ?case by (simp add: WebAuthnBroker_default_def)
next
  case (snoc x xs)
  then have "ch \<in> wa_challenges (wa_apply parse x (fold (wa_apply parse) xs WebAuthnBroker_default))" by simp
  from wa_challenge_new [OF this] show ?case
  proof
    assume "ch \<in> wa_challenges (fold (wa_apply parse) xs WebAuthnBroker_default) \<and> x \<noteq> WaComplete ch"
    with snoc.IH show ?thesis by (blast intro: pending_since_snoc)
  next
    assume "\<exists>f h p u uv. x = WaBegin f h p u uv
      \<and> fst (WebAuthnBroker_begin_assertion parse f h p u uv (fold (wa_apply parse) xs WebAuthnBroker_default)) = Inr ch"
    then obtain f h p u uv where "x = WaBegin f h p u uv"
      "fst (WebAuthnBroker_begin_assertion parse f h p u uv (fold (wa_apply parse) xs WebAuthnBroker_default)) = Inr ch"
      by blast
    then show ?thesis unfolding pending_since_def
      by (intro exI [of _ xs] exI [of _ "[]"] exI [of _ f] exI [of _ h] exI [of _ p] exI [of _ u] exI [of _ uv]) simp
  qed
qed

subsection \<open>Properties\<close>

text \<open>
  A generated code is the RFC 6238 value: six decimal digits, leading zeros kept, whose value is
  the dynamically truncated HMAC of the 30-second counter modulo a million; the truncation is the
  big-endian number of the four selected bytes without the sign bit.
\<close>

theorem totp_code_is_six_digits_of_hotp:
  assumes "totp_code base32 hmac unix_seconds seed = Inr code"
  shows "\<exists>key. base32 (to_ascii_uppercase seed) = Some key \<and> key \<noteq> []
    \<and> length code = 6 \<and> (\<forall>c \<in> set code. digit c)
    \<and> digits_value code = hotp_value (hmac key (be_bytes 8 (unat unix_seconds div 30))) mod 1000000"
proof -
  from assms obtain key where k: "base32 (to_ascii_uppercase seed) = Some key" "key \<noteq> []"
    "code = pad6 (unat (dynamic_truncation (hmac key (be_bytes 8 (unat (unix_seconds div 30)))) mod 1000000))"
    by (auto simp: totp_code_def Let_def split: if_splits option.splits)
  have "unat (w mod 1000000 :: u32) = unat w mod 1000000" for w by (simp add: unat_mod_distrib)
  moreover have "unat (unix_seconds div 30) = unat unix_seconds div 30" by (simp add: unat_div_distrib)
  ultimately have "code = pad6 (hotp_value (hmac key (be_bytes 8 (unat unix_seconds div 30))) mod 1000000)"
    using k(3) by (simp add: dynamic_truncation_value)
  with k(1,2) pad6_six_digits [of "hotp_value (hmac key (be_bytes 8 (unat unix_seconds div 30))) mod 1000000"]
  show ?thesis by simp
qed

definition sample_digest :: "u8 list" where
  "sample_digest = [31, 134, 152, 105, 14, 2, 202, 22, 97, 133, 80, 239, 127, 25, 218, 142, 148, 91, 85, 90]"

theorem totp_code_is_six_digits_of_hotp_witness:
  "\<exists>code. totp_code Some (\<lambda>k m. sample_digest) 59 ''gezd'' = Inr code \<and> length code = 6 \<and> digits_value code = 872921"
proof -
  have v: "hotp_value sample_digest mod 1000000 = 872921" by (simp add: hotp_value_def sample_digest_def)
  have "utf8_valid ''gezd''" "to_ascii_uppercase ''gezd'' \<noteq> []"
    by (simp_all add: in_range_def to_ascii_uppercase_def)
  from totp_code_defined [of "''gezd''" Some, OF this(1) refl this(2)]
  obtain code where c: "totp_code Some (\<lambda>k m. sample_digest) 59 ''gezd'' = Inr code" ..
  from totp_code_is_six_digits_of_hotp [OF this] v c show ?thesis by auto
qed

text \<open>
  An assertion completes only against a challenge the broker issued, to the profile and relying
  party the passkey was registered for, and at most once per challenge issued: between the issue
  and the completion no other completion of that challenge happened.
\<close>

theorem assertion_completes_a_pending_challenge:
  assumes "fst (WebAuthnBroker_complete_assertion ch (fold (wa_apply parse) xs WebAuthnBroker_default)) = Inr ()"
  shows "\<exists>as bs f h p u uv r. xs = as @ WaBegin f h p u uv # bs \<and> ch = challenge_bytes f uv
     \<and> bt_get (wa_credentials (fold (wa_apply parse) as WebAuthnBroker_default)) h = Some r
     \<and> pk_profile r = p \<and> pk_rp_origin r = u \<and> WaComplete ch \<notin> set bs"
proof -
  from assms have "ch \<in> wa_challenges (fold (wa_apply parse) xs WebAuthnBroker_default)"
    by (auto simp: WebAuthnBroker_complete_assertion_def split: if_splits)
  from challenge_pending_since [OF this] obtain as bs f h p u uv where
    x: "xs = as @ WaBegin f h p u uv # bs" "WaComplete ch \<notin> set bs"
    "fst (WebAuthnBroker_begin_assertion parse f h p u uv (fold (wa_apply parse) as WebAuthnBroker_default)) = Inr ch"
    unfolding pending_since_def by blast
  from x(3) obtain r where "bt_get (wa_credentials (fold (wa_apply parse) as WebAuthnBroker_default)) h = Some r"
    "pk_profile r = p" "pk_rp_origin r = u" "ch = challenge_bytes f uv"
    by (auto simp: WebAuthnBroker_begin_assertion_def Let_def split: sum.splits option.splits if_splits)
  with x show ?thesis by blast
qed

definition sample_rp :: "string \<Rightarrow> Url option" where
  "sample_rp s = Some \<lparr>url_as_str = s, url_scheme = ''https'', url_username = [], url_password = None,
     url_host_str = Some ''rp.test'', url_port_or_known_default = Some 443, url_path = ''/'',
     url_query = None, url_fragment = None,
     url_origin = TupleOrigin ''https'' ''rp.test'' 443, url_origin_ascii = ''https://rp.test''\<rparr>"

theorem assertion_completes_a_pending_challenge_witness:
  "\<exists>as bs f h p u uv r.
     [WaRegister 4 1 ''https://rp.test/'' ''user'', WaBegin 8 4 1 ''https://rp.test/'' True] = as @ WaBegin f h p u uv # bs
     \<and> challenge_bytes 8 True = challenge_bytes f uv
     \<and> bt_get (wa_credentials (fold (wa_apply sample_rp) as WebAuthnBroker_default)) h = Some r
     \<and> pk_profile r = p \<and> pk_rp_origin r = u \<and> WaComplete (challenge_bytes 8 True) \<notin> set bs"
  by (rule assertion_completes_a_pending_challenge)
     (simp add: sample_rp_def WebAuthnBroker_register_def WebAuthnBroker_begin_assertion_def validate_origin_def
       WebAuthnBroker_complete_assertion_def WebAuthnBroker_default_def Let_def)

end
