(* ===== verification/Storage.thy ===== *)
theory Storage
  imports BTreeMap
begin

section \<open>Origin storage (crates/storage)\<close>

text \<open>
  Local and session storage, partitioned by profile, origin, namespace and kind. Each partition
  has its items and a generation counter that counts the changes.

  Lengths are \<open>usize\<close> sums over strings that are all in memory at once, so they do not overflow
  and are natural numbers here; the quota is a \<open>usize\<close> argument and a natural number too.
\<close>

datatype StorageKind = Local | Session

primrec storage_kind_rank :: "StorageKind \<Rightarrow> nat" where
  "storage_kind_rank Local = 0"
| "storage_kind_rank Session = 1"

lemma storage_kind_rank_inj: "storage_kind_rank a = storage_kind_rank b \<Longrightarrow> a = b"
  by (cases a; cases b; simp)

instantiation StorageKind :: linorder
begin

definition less_eq_StorageKind :: "StorageKind \<Rightarrow> StorageKind \<Rightarrow> bool" where
  "less_eq_StorageKind a b = (storage_kind_rank a \<le> storage_kind_rank b)"

definition less_StorageKind :: "StorageKind \<Rightarrow> StorageKind \<Rightarrow> bool" where
  "less_StorageKind a b = (storage_kind_rank a < storage_kind_rank b)"

instance
  by standard (auto simp: less_eq_StorageKind_def less_StorageKind_def intro: storage_kind_rank_inj)

end

datatype StorageError = QuotaExceeded

type_synonym StorageKey = "ProfileId \<times> string \<times> string \<times> StorageKind"

record StorageWriteRequest =
  swr_profile :: ProfileId
  swr_origin :: string
  swr_namespace :: string
  swr_kind :: StorageKind
  swr_key :: string
  swr_value :: string
  swr_quota_bytes :: nat

datatype StorageEvent =
    StorageSet StorageKey string
  | StorageRemoved StorageKey string
  | SessionCloned ProfileId string string string

record OriginStorage =
  os_values :: "(StorageKey, (string, string) BTreeMap) BTreeMap"
  os_generations :: "(StorageKey, u64) BTreeMap"
  os_events :: "StorageEvent list"

definition OriginStorage_default :: OriginStorage where
  "OriginStorage_default = \<lparr>os_values = [], os_generations = [], os_events = []\<rparr>"

definition OriginStorage_key :: "ProfileId \<Rightarrow> string \<Rightarrow> string \<Rightarrow> StorageKind \<Rightarrow> StorageKey" where
  "OriginStorage_key profile origin namespace kind = (profile, origin, namespace, kind)"

definition bump :: "StorageKey \<Rightarrow> OriginStorage \<Rightarrow> OriginStorage" where
  "bump k s = s\<lparr>os_generations := bt_adjust k (\<lambda>g. g + 1) (bt_or_insert k 0 (os_generations s))\<rparr>"

definition write_item :: "StorageKey \<Rightarrow> string \<Rightarrow> string \<Rightarrow> OriginStorage \<Rightarrow> OriginStorage" where
  "write_item k item val s =
     (let s1 = s\<lparr>os_values := bt_adjust k (bt_insert item val) (bt_or_insert k [] (os_values s))\<rparr>;
          s2 = bump k s1
      in s2\<lparr>os_events := os_events s2 @ [StorageSet k item]\<rparr>)"

definition OriginStorage_set ::
    "ProfileId \<Rightarrow> string \<Rightarrow> string \<Rightarrow> StorageKind \<Rightarrow> string \<Rightarrow> string \<Rightarrow> OriginStorage \<Rightarrow> OriginStorage" where
  "OriginStorage_set profile origin namespace kind item val s =
     write_item (OriginStorage_key profile origin namespace kind) item val s"

definition items_bytes :: "(string \<times> string) list \<Rightarrow> nat" where
  "items_bytes es = sum_list (map (\<lambda>e. length (fst e) + length (snd e)) es)"

definition OriginStorage_set_with_quota ::
    "StorageWriteRequest \<Rightarrow> OriginStorage \<Rightarrow> (StorageError + unit) \<times> OriginStorage" where
  "OriginStorage_set_with_quota r s =
     (let k = OriginStorage_key (swr_profile r) (swr_origin r) (swr_namespace r) (swr_kind r);
          current = (case bt_get (os_values s) k of
              None \<Rightarrow> 0
            | Some vs \<Rightarrow> items_bytes [e \<leftarrow> vs. fst e \<noteq> swr_key r])
      in if current + length (swr_key r) + length (swr_value r) > swr_quota_bytes r
         then (Inl QuotaExceeded, s)
         else (Inr (), write_item k (swr_key r) (swr_value r) s))"

definition OriginStorage_clone_session_namespace ::
    "ProfileId \<Rightarrow> string \<Rightarrow> string \<Rightarrow> string \<Rightarrow> OriginStorage \<Rightarrow> bool \<times> OriginStorage" where
  "OriginStorage_clone_session_namespace profile origin source_namespace destination_namespace s =
     (let source = OriginStorage_key profile origin source_namespace Session in
      case bt_get (os_values s) source of
        None \<Rightarrow> (False, s)
      | Some vs \<Rightarrow>
          let destination = OriginStorage_key profile origin destination_namespace Session;
              source_generation = (case bt_get (os_generations s) source of None \<Rightarrow> 0 | Some g \<Rightarrow> g)
          in (True, \<lparr>os_values = bt_insert destination vs (os_values s),
                     os_generations = bt_insert destination source_generation (os_generations s),
                     os_events = os_events s @ [SessionCloned profile origin source_namespace destination_namespace]\<rparr>))"

definition OriginStorage_get ::
    "OriginStorage \<Rightarrow> ProfileId \<Rightarrow> string \<Rightarrow> string \<Rightarrow> StorageKind \<Rightarrow> string \<Rightarrow> string option" where
  "OriginStorage_get s profile origin namespace kind item =
     (case bt_get (os_values s) (OriginStorage_key profile origin namespace kind) of
        None \<Rightarrow> None
      | Some vs \<Rightarrow> bt_get vs item)"

definition OriginStorage_remove ::
    "ProfileId \<Rightarrow> string \<Rightarrow> string \<Rightarrow> StorageKind \<Rightarrow> string \<Rightarrow> OriginStorage \<Rightarrow> string option \<times> OriginStorage" where
  "OriginStorage_remove profile origin namespace kind item s =
     (let k = OriginStorage_key profile origin namespace kind;
          val = (case bt_get (os_values s) k of None \<Rightarrow> None | Some vs \<Rightarrow> bt_get vs item);
          s1 = s\<lparr>os_values := bt_adjust k (bt_remove item) (os_values s)\<rparr>
      in (val, if val \<noteq> None
               then (let s2 = bump k s1 in s2\<lparr>os_events := os_events s2 @ [StorageRemoved k item]\<rparr>)
               else s1))"

definition OriginStorage_generation ::
    "OriginStorage \<Rightarrow> ProfileId \<Rightarrow> string \<Rightarrow> string \<Rightarrow> StorageKind \<Rightarrow> u64" where
  "OriginStorage_generation s profile origin namespace kind =
     (case bt_get (os_generations s) (OriginStorage_key profile origin namespace kind) of None \<Rightarrow> 0 | Some g \<Rightarrow> g)"

definition OriginStorage_drain_events :: "OriginStorage \<Rightarrow> StorageEvent list \<times> OriginStorage" where
  "OriginStorage_drain_events s = (os_events s, s\<lparr>os_events := []\<rparr>)"

record StorageEntry =
  se_key :: StorageKey
  se_values :: "(string, string) BTreeMap"
  se_generation :: u64

definition OriginStorage_wire :: "OriginStorage \<Rightarrow> StorageEntry list" where
  "OriginStorage_wire s =
     map (\<lambda>k. \<lparr>se_key = k,
            se_values = (case bt_get (os_values s) k of None \<Rightarrow> [] | Some vs \<Rightarrow> vs),
            se_generation = (case bt_get (os_generations s) k of None \<Rightarrow> 0 | Some g \<Rightarrow> g)\<rparr>)
       (sort (remdups (bt_keys (os_values s) @ bt_keys (os_generations s))))"

definition OriginStorage_to_json ::
    "(StorageEntry list \<Rightarrow> 'err + 'text) \<Rightarrow> OriginStorage \<Rightarrow> 'err + 'text" where
  "OriginStorage_to_json encode s = encode (OriginStorage_wire s)"

definition load_storage_entry :: "StorageEntry \<Rightarrow> OriginStorage \<Rightarrow> OriginStorage" where
  "load_storage_entry e s =
     s\<lparr>os_values := (if se_values e = [] then os_values s
                     else bt_insert (se_key e) (se_values e) (os_values s)),
       os_generations := bt_insert (se_key e) (se_generation e) (os_generations s)\<rparr>"

definition OriginStorage_from_json ::
    "('text \<Rightarrow> 'err + StorageEntry list) \<Rightarrow> 'text \<Rightarrow> 'err + OriginStorage" where
  "OriginStorage_from_json decode txt =
     (case decode txt of
        Inl e \<Rightarrow> Inl e
      | Inr entries \<Rightarrow> Inr (fold load_storage_entry entries OriginStorage_default))"

subsection \<open>Operations as data\<close>

datatype StorageOp =
    StSet ProfileId string string StorageKind string string
  | StQuota StorageWriteRequest
  | StClone ProfileId string string string
  | StRemove ProfileId string string StorageKind string
  | StDrain

fun storage_apply :: "StorageOp \<Rightarrow> OriginStorage \<Rightarrow> OriginStorage" where
  "storage_apply (StSet p u n k i v) s = OriginStorage_set p u n k i v s"
| "storage_apply (StQuota r) s = snd (OriginStorage_set_with_quota r s)"
| "storage_apply (StClone p u a b) s = snd (OriginStorage_clone_session_namespace p u a b s)"
| "storage_apply (StRemove p u n k i) s = snd (OriginStorage_remove p u n k i s)"
| "storage_apply StDrain s = snd (OriginStorage_drain_events s)"

text \<open>The partition an operation may change.\<close>

fun storage_target :: "StorageOp \<Rightarrow> StorageKey option" where
  "storage_target (StSet p u n k i v) = Some (p, u, n, k)"
| "storage_target (StQuota r) = Some (swr_profile r, swr_origin r, swr_namespace r, swr_kind r)"
| "storage_target (StClone p u a b) = Some (p, u, b, Session)"
| "storage_target (StRemove p u n k i) = Some (p, u, n, k)"
| "storage_target StDrain = None"

lemmas storage_op_defs =
  OriginStorage_set_def OriginStorage_set_with_quota_def OriginStorage_clone_session_namespace_def
  OriginStorage_remove_def OriginStorage_drain_events_def OriginStorage_key_def write_item_def bump_def Let_def

definition partition_view :: "OriginStorage \<Rightarrow> StorageKey option \<Rightarrow> (string, string) BTreeMap option \<times> u64 option" where
  "partition_view s k =
     (case k of None \<Rightarrow> (None, None) | Some k \<Rightarrow> (bt_get (os_values s) k, bt_get (os_generations s) k))"

lemma storage_frame: "storage_target x \<noteq> Some k \<Longrightarrow> partition_view (storage_apply x s) (Some k) = partition_view s (Some k)"
  by (cases x) (auto simp: partition_view_def storage_op_defs split: option.split)

interpretation partitions: keyed_ops partition_view storage_target storage_apply
proof
  show "partition_view (storage_apply x s) k = partition_view s k" if "storage_target x \<noteq> k" for x k s
    using that storage_frame by (cases k) (auto simp: partition_view_def)
qed

subsection \<open>Quota\<close>

lemma items_bytes_filter_le: "items_bytes (filter P es) \<le> items_bytes es"
  by (induction es) (auto simp: items_bytes_def)

lemma items_bytes_split:
  "bt_ok vs \<Longrightarrow> items_bytes [e \<leftarrow> vs. fst e < k] + items_bytes [e \<leftarrow> vs. k < fst e] = items_bytes [e \<leftarrow> vs. fst e \<noteq> k]"
proof (induction vs)
  case (Cons e vs)
  then show ?case by (cases "fst e" k rule: linorder_cases) (auto simp: items_bytes_def bt_ok_Cons)
qed (simp add: items_bytes_def)

lemma items_bytes_insert:
  assumes "bt_ok vs"
  shows "items_bytes (bt_insert item val vs) = items_bytes [e \<leftarrow> vs. fst e \<noteq> item] + length item + length val"
proof -
  have "items_bytes (bt_insert item val vs)
      = items_bytes [e \<leftarrow> vs. fst e < item] + items_bytes [e \<leftarrow> vs. item < fst e] + length item + length val"
    by (simp add: items_bytes_def bt_insert_def)
  then show ?thesis by (simp add: items_bytes_split [OF assms])
qed

text \<open>Within quota \<open>q\<close>: every partition is, and its item map is well formed.\<close>

definition storage_in_quota :: "nat \<Rightarrow> OriginStorage \<Rightarrow> bool" where
  "storage_in_quota q s \<longleftrightarrow> (\<forall>k vs. bt_get (os_values s) k = Some vs \<longrightarrow> bt_ok vs \<and> items_bytes vs \<le> q)"

fun quota_op :: "nat \<Rightarrow> StorageOp \<Rightarrow> bool" where
  "quota_op q (StSet p u n k i v) = False"
| "quota_op q (StQuota r) = (swr_quota_bytes r \<le> q)"
| "quota_op q _ = True"

lemma storage_in_quota_apply: "storage_in_quota q s \<Longrightarrow> quota_op q x \<Longrightarrow> storage_in_quota q (storage_apply x s)"
proof (cases x)
  case (StQuota r)
  assume q: "storage_in_quota q s" and "quota_op q x"
  with StQuota have r: "swr_quota_bytes r \<le> q" by simp
  define k where "k = OriginStorage_key (swr_profile r) (swr_origin r) (swr_namespace r) (swr_kind r)"
  define vs where "vs = (case bt_get (os_values s) k of None \<Rightarrow> [] | Some vs \<Rightarrow> vs)"
  have ok: "bt_ok vs" using q
    by (auto simp: storage_in_quota_def vs_def simp del: split_paired_All split: option.split)
  have cur: "(case bt_get (os_values s) k of None \<Rightarrow> 0 | Some vs \<Rightarrow> items_bytes [e \<leftarrow> vs. fst e \<noteq> swr_key r])
      = items_bytes [e \<leftarrow> vs. fst e \<noteq> swr_key r]"
    by (simp add: vs_def items_bytes_def split: option.split)
  show ?thesis
  proof (cases "items_bytes [e \<leftarrow> vs. fst e \<noteq> swr_key r] + length (swr_key r) + length (swr_value r) > swr_quota_bytes r")
    case True
    then show ?thesis using q StQuota
      by (simp add: OriginStorage_set_with_quota_def Let_def cur flip: k_def)
  next
    case False
    have "bt_get (os_values (storage_apply x s)) j =
        (if j = k then Some (bt_insert (swr_key r) (swr_value r) vs) else bt_get (os_values s) j)" for j
      using False StQuota
      by (auto simp: OriginStorage_set_with_quota_def write_item_def bump_def Let_def cur vs_def
          simp flip: k_def split: option.split)
    then show ?thesis using q ok False r items_bytes_insert [OF ok, of "swr_key r" "swr_value r"]
      by (auto simp: storage_in_quota_def)
  qed
next
  case (StClone p u a b)
  assume "storage_in_quota q s"
  with StClone show ?thesis by (auto simp: storage_in_quota_def storage_op_defs split: option.split)
next
  case (StRemove p u n k i)
  assume "storage_in_quota q s"
  moreover have "items_bytes vs \<le> q \<Longrightarrow> items_bytes (bt_remove i vs) \<le> q" for vs
    unfolding bt_remove_def using items_bytes_filter_le order_trans by blast
  ultimately show ?thesis using StRemove
    by (auto simp: storage_in_quota_def storage_op_defs)
next
  case StDrain
  assume "storage_in_quota q s"
  with StDrain show ?thesis by (simp add: storage_in_quota_def storage_op_defs)
qed (simp_all)

lemma storage_in_quota_run:
  "storage_in_quota q s \<Longrightarrow> list_all (quota_op q) xs \<Longrightarrow> storage_in_quota q (fold storage_apply xs s)"
  by (induction xs arbitrary: s) (auto simp: storage_in_quota_apply)

subsection \<open>Serialisation\<close>

lemma load_entry_values:
  "distinct (map se_key es) \<Longrightarrow>
   bt_get (os_values (fold load_storage_entry es s)) k =
     (case find (\<lambda>e. se_key e = k) es of
        Some e \<Rightarrow> if se_values e = [] then bt_get (os_values s) k else Some (se_values e)
      | None \<Rightarrow> bt_get (os_values s) k)"
proof (induction es arbitrary: s)
  case (Cons e es)
  have "se_key e = k \<Longrightarrow> find (\<lambda>e. se_key e = k) es = None"
    using Cons.prems by (auto simp: find_None_iff) (metis imageI)
  with Cons show ?case by (auto simp: load_storage_entry_def split: option.split)
qed simp

lemma load_entry_generations:
  "distinct (map se_key es) \<Longrightarrow>
   bt_get (os_generations (fold load_storage_entry es s)) k =
     (case find (\<lambda>e. se_key e = k) es of
        Some e \<Rightarrow> Some (se_generation e) | None \<Rightarrow> bt_get (os_generations s) k)"
proof (induction es arbitrary: s)
  case (Cons e es)
  have "se_key e = k \<Longrightarrow> find (\<lambda>e. se_key e = k) es = None"
    using Cons.prems by (auto simp: find_None_iff) (metis imageI)
  with Cons show ?case by (auto simp: load_storage_entry_def split: option.split)
qed simp

lemma storage_wire_keys:
  "map se_key (OriginStorage_wire s) = sort (remdups (bt_keys (os_values s) @ bt_keys (os_generations s)))"
  by (simp add: OriginStorage_wire_def comp_def)

lemma find_mapped_key:
  "find (\<lambda>e. se_key e = k) (map f ks) = (if k \<in> set ks then Some (f k) else None)" if "\<And>j. se_key (f j) = j"
  using that by (induction ks) auto

lemma find_storage_wire:
  "find (\<lambda>e. se_key e = k) (OriginStorage_wire s) =
     (if bt_get (os_values s) k = None \<and> bt_get (os_generations s) k = None then None
      else Some \<lparr>se_key = k, se_values = (case bt_get (os_values s) k of None \<Rightarrow> [] | Some vs \<Rightarrow> vs),
             se_generation = (case bt_get (os_generations s) k of None \<Rightarrow> 0 | Some g \<Rightarrow> g)\<rparr>)"
  unfolding OriginStorage_wire_def
  by (subst find_mapped_key) (auto simp: bt_get_None_iff simp del: map_append)

lemma storage_reload:
  assumes "t = fold load_storage_entry (OriginStorage_wire s) OriginStorage_default"
  shows "OriginStorage_get t p u n kind item = OriginStorage_get s p u n kind item"
    and "OriginStorage_generation t p u n kind = OriginStorage_generation s p u n kind"
proof -
  have d: "distinct (map se_key (OriginStorage_wire s))" unfolding storage_wire_keys by simp
  show "OriginStorage_get t p u n kind item = OriginStorage_get s p u n kind item"
    by (auto simp: assms OriginStorage_get_def load_entry_values [OF d] find_storage_wire OriginStorage_default_def
        split: option.split)
  show "OriginStorage_generation t p u n kind = OriginStorage_generation s p u n kind"
    by (auto simp: assms OriginStorage_generation_def load_entry_generations [OF d] find_storage_wire
        OriginStorage_default_def split: option.split)
qed

subsection \<open>Properties\<close>

text \<open>
  Partitions are isolated: operations on other profiles, origins, namespaces or kinds, cloning
  into them included, change neither an item nor the generation of a partition; and an item that
  was set reads back until its own partition is written again.
\<close>

theorem storage_partitions_are_isolated:
  assumes "Some (p, u, n, kind) \<notin> storage_target ` set xs"
  shows "OriginStorage_get (fold storage_apply xs (OriginStorage_set p u n kind item val s)) p u n kind i =
      (if i = item then Some val else OriginStorage_get s p u n kind i)
    \<and> OriginStorage_generation (fold storage_apply xs s) p u n kind = OriginStorage_generation s p u n kind"
proof -
  have "partition_view (fold storage_apply xs s) (Some (p, u, n, kind)) = partition_view s (Some (p, u, n, kind))" for s
    by (rule partitions.ops_frame [OF assms])
  then have f: "bt_get (os_values (fold storage_apply xs s)) (p, u, n, kind) = bt_get (os_values s) (p, u, n, kind)"
    "bt_get (os_generations (fold storage_apply xs s)) (p, u, n, kind) = bt_get (os_generations s) (p, u, n, kind)" for s
    by (simp_all add: partition_view_def)
  show ?thesis
    by (auto simp: OriginStorage_get_def OriginStorage_generation_def OriginStorage_key_def f
        OriginStorage_set_def write_item_def bump_def Let_def split: option.split)
qed

theorem storage_partitions_are_isolated_witness:
  "OriginStorage_get (fold storage_apply [StSet 2 ''https://a.test'' ''tab'' Local ''theme'' ''light'']
     (OriginStorage_set 1 ''https://a.test'' ''tab'' Local ''theme'' ''dark'' OriginStorage_default))
     1 ''https://a.test'' ''tab'' Local ''theme'' = Some ''dark''"
proof -
  have t: "Some (1, ''https://a.test'', ''tab'', Local) \<notin>
      storage_target ` set [StSet 2 ''https://a.test'' ''tab'' Local ''theme'' ''light'']"
    by simp
  show ?thesis
    using storage_partitions_are_isolated [OF t, of "''theme''" "''dark''" OriginStorage_default "''theme''"] by simp
qed

text \<open>
  Quota: as long as pages write through \<open>set_with_quota\<close> with quotas of at most \<open>q\<close> bytes, every
  partition, cloned session namespaces included, stays within \<open>q\<close> bytes of keys and values, whatever
  is overwritten, removed or cloned in between; a refused write changes nothing.
\<close>

theorem storage_stays_within_quota:
  assumes "list_all (quota_op q) xs"
    and "bt_get (os_values (fold storage_apply xs OriginStorage_default)) k = Some vs"
  shows "sum_list (map (\<lambda>e. length (fst e) + length (snd e)) vs) \<le> q
    \<and> (\<forall>r s. fst (OriginStorage_set_with_quota r s) = Inl QuotaExceeded \<longrightarrow> snd (OriginStorage_set_with_quota r s) = s)"
proof -
  have "storage_in_quota q (fold storage_apply xs OriginStorage_default)"
    by (rule storage_in_quota_run [OF _ assms(1)]) (simp add: storage_in_quota_def OriginStorage_default_def)
  with assms(2) have "items_bytes vs \<le> q" unfolding storage_in_quota_def by blast
  then show ?thesis by (simp add: items_bytes_def OriginStorage_set_with_quota_def Let_def)
qed

definition sample_write :: "string \<Rightarrow> StorageWriteRequest" where
  "sample_write v = \<lparr>swr_profile = 1, swr_origin = ''https://a.test'', swr_namespace = ''tab'', swr_kind = Session,
     swr_key = ''k'', swr_value = v, swr_quota_bytes = 5\<rparr>"

theorem storage_stays_within_quota_witness:
  "sum_list (map (\<lambda>e. length (fst e) + length (snd e)) [(''k'', ''abcd'')]) \<le> (5::nat)"
proof -
  let ?xs = "[StQuota (sample_write ''abcd''), StClone 1 ''https://a.test'' ''tab'' ''copy'', StQuota (sample_write ''abcde'')]"
  have q: "list_all (quota_op 5) ?xs" by (simp add: sample_write_def)
  have g: "bt_get (os_values (fold storage_apply ?xs OriginStorage_default)) (1, ''https://a.test'', ''copy'', Session)
      = Some [(''k'', ''abcd'')]"
    by (simp add: storage_op_defs sample_write_def OriginStorage_default_def items_bytes_def
        bt_insert_def [of _ _ "[]"])
  from storage_stays_within_quota [OF q g] show ?thesis by simp
qed

text \<open>
  Storage written to JSON and read back answers every item lookup and reports every generation
  as before.
\<close>

theorem storage_round_trip:
  assumes "\<And>es. \<exists>t. encode es = Inr t \<and> decode t = Inr es"
  shows "\<exists>t s'. OriginStorage_to_json encode s = Inr t \<and> OriginStorage_from_json decode t = Inr s'
    \<and> (\<forall>p u n kind item. OriginStorage_get s' p u n kind item = OriginStorage_get s p u n kind item
         \<and> OriginStorage_generation s' p u n kind = OriginStorage_generation s p u n kind)"
proof -
  obtain t where t: "encode (OriginStorage_wire s) = Inr t" "decode t = Inr (OriginStorage_wire s)"
    using assms by blast
  then show ?thesis
    by (simp add: OriginStorage_to_json_def OriginStorage_from_json_def storage_reload [OF refl])
qed

theorem storage_round_trip_witness:
  "\<exists>t s'. OriginStorage_to_json (Inr :: _ \<Rightarrow> unit + _)
       (OriginStorage_set 1 ''https://a.test'' ''tab'' Local ''theme'' ''dark'' OriginStorage_default) = Inr t
     \<and> OriginStorage_from_json (Inr :: _ \<Rightarrow> unit + _) t = Inr s'
     \<and> OriginStorage_get s' 1 ''https://a.test'' ''tab'' Local ''theme'' = Some ''dark''"
proof -
  let ?s = "OriginStorage_set 1 ''https://a.test'' ''tab'' Local ''theme'' ''dark'' OriginStorage_default"
  have "\<And>es. \<exists>t. (Inr :: _ \<Rightarrow> unit + StorageEntry list) es = Inr t \<and> (Inr :: _ \<Rightarrow> unit + _) t = Inr es" by simp
  from storage_round_trip [OF this, of ?s] obtain t s' where
    t: "OriginStorage_to_json (Inr :: _ \<Rightarrow> unit + _) ?s = Inr t"
    "OriginStorage_from_json (Inr :: _ \<Rightarrow> unit + _) t = Inr s'"
    and eq: "\<forall>p u n kind item. OriginStorage_get s' p u n kind item = OriginStorage_get ?s p u n kind item
         \<and> OriginStorage_generation s' p u n kind = OriginStorage_generation ?s p u n kind" by blast
  have "OriginStorage_get ?s 1 ''https://a.test'' ''tab'' Local ''theme'' = Some ''dark''"
    by (simp add: OriginStorage_get_def storage_op_defs OriginStorage_default_def)
  with t eq show ?thesis by metis
qed

text \<open>
  The reloaded store is not the same in every respect: a namespace whose items were all removed is
  still cloned before a reload, and no longer after it.
\<close>

lemma emptied_namespace_lost_on_reload:
  "let s = storage_apply (StRemove 1 ''u'' ''a'' Session ''k'') (OriginStorage_set 1 ''u'' ''a'' Session ''k'' ''v'' OriginStorage_default)
   in fst (OriginStorage_clone_session_namespace 1 ''u'' ''a'' ''b'' s)
    \<and> \<not> fst (OriginStorage_clone_session_namespace 1 ''u'' ''a'' ''b''
          (fold load_storage_entry (OriginStorage_wire s) OriginStorage_default))"
  by (simp add: storage_op_defs OriginStorage_default_def OriginStorage_wire_def load_storage_entry_def
      bt_insert_def bt_remove_def bt_adjust_def bt_or_insert_def bt_contains_key_def)

end
