(* ===== verification/IndexedDatabase.thy ===== *)
theory IndexedDatabase
  imports BTreeMap
begin

section \<open>IndexedDB (crates/indexeddb)\<close>

text \<open>
  Databases per profile, origin and name with versioned upgrades, and transactions that collect
  writes and apply them on commit. A transaction borrows its database exclusively, so nothing
  else touches it in between: the model passes the database collection and the transaction
  side by side. \<open>commit\<close> first applies the writes to a clone, checks the size of the clone against
  the quota, and then applies them in place; both loops can stop at a missing store.

  Sizes are \<open>usize\<close> sums over data in memory and natural numbers here.
\<close>

type_synonym DatabaseKey = "ProfileId \<times> string \<times> string"

record DatabaseInfo =
  di_name :: string
  di_version :: u64
  di_stores :: "string list"

datatype IndexedDbError =
    IdbNotFound
  | VersionTooLow
  | StoreMissing
  | TransactionInactive
  | IdbQuotaExceeded

datatype IndexedDbEvent =
    IdbOpened DatabaseKey u64
  | IdbUpgraded DatabaseKey u64 u64
  | IdbCommitted DatabaseKey
  | IdbAborted DatabaseKey

type_synonym stores = "(string, (string, string) BTreeMap) BTreeMap"

record Database =
  db_version :: u64
  db_stores :: stores

definition Database_default :: Database where
  "Database_default = \<lparr>db_version = 0, db_stores = []\<rparr>"

record IndexedDb =
  idb_databases :: "(DatabaseKey, Database) BTreeMap"
  idb_max_bytes :: nat
  idb_events :: "IndexedDbEvent list"

record Transaction =
  tx_key :: DatabaseKey
  tx_writes :: "(string \<times> string, string option) BTreeMap"
  tx_active :: bool

definition IndexedDb_with_quota :: "nat \<Rightarrow> IndexedDb" where
  "IndexedDb_with_quota max_bytes = \<lparr>idb_databases = [], idb_max_bytes = max max_bytes 1, idb_events = []\<rparr>"

definition IndexedDb_default :: IndexedDb where
  "IndexedDb_default = IndexedDb_with_quota (16 * 1024 * 1024)"

definition IndexedDb_open ::
    "ProfileId \<Rightarrow> string \<Rightarrow> string \<Rightarrow> u64 \<Rightarrow> string list \<Rightarrow> IndexedDb
     \<Rightarrow> (IndexedDbError + DatabaseInfo) \<times> IndexedDb" where
  "IndexedDb_open profile origin name requested_version store_names d =
     (let key = (profile, origin, name);
          databases = bt_or_insert key Database_default (idb_databases d);
          database = the (bt_get databases key)
      in if requested_version < db_version database
         then (Inl VersionTooLow, d\<lparr>idb_databases := databases\<rparr>)
         else
           let previous_version = db_version database;
               version = max (max requested_version (db_version database)) 1;
               stores = fold (\<lambda>s m. bt_or_insert s [] m) store_names (db_stores database);
               event = (if version > previous_version
                        then IdbUpgraded key previous_version version else IdbOpened key version)
           in (Inr \<lparr>di_name = name, di_version = version, di_stores = bt_keys stores\<rparr>,
               d\<lparr>idb_databases := bt_insert key \<lparr>db_version = version, db_stores = stores\<rparr> databases,
                 idb_events := idb_events d @ [event]\<rparr>))"

definition IndexedDb_transaction ::
    "ProfileId \<Rightarrow> string \<Rightarrow> string \<Rightarrow> IndexedDb \<Rightarrow> IndexedDbError + Transaction" where
  "IndexedDb_transaction profile origin name d =
     (case bt_get (idb_databases d) (profile, origin, name) of
        None \<Rightarrow> Inl IdbNotFound
      | Some _ \<Rightarrow> Inr \<lparr>tx_key = (profile, origin, name), tx_writes = [], tx_active = True\<rparr>)"

definition IndexedDb_drain_events :: "IndexedDb \<Rightarrow> IndexedDbEvent list \<times> IndexedDb" where
  "IndexedDb_drain_events d = (idb_events d, d\<lparr>idb_events := []\<rparr>)"

text \<open>The database a transaction borrows.\<close>

definition tx_stores :: "IndexedDb \<Rightarrow> Transaction \<Rightarrow> stores" where
  "tx_stores d tx = (case bt_get (idb_databases d) (tx_key tx) of None \<Rightarrow> [] | Some db \<Rightarrow> db_stores db)"

definition Transaction_get :: "IndexedDb \<Rightarrow> Transaction \<Rightarrow> string \<Rightarrow> string \<Rightarrow> IndexedDbError + string option" where
  "Transaction_get d tx store key =
     (if \<not> tx_active tx then Inl TransactionInactive
      else (case bt_get (tx_stores d tx) store of
          None \<Rightarrow> Inl StoreMissing
        | Some vs \<Rightarrow> Inr (bt_get vs key)))"

definition Transaction_put ::
    "IndexedDb \<Rightarrow> string \<Rightarrow> string \<Rightarrow> string \<Rightarrow> Transaction \<Rightarrow> (IndexedDbError + unit) \<times> Transaction" where
  "Transaction_put d store key val tx =
     (if \<not> tx_active tx then (Inl TransactionInactive, tx)
      else if \<not> bt_contains_key (tx_stores d tx) store then (Inl StoreMissing, tx)
      else (Inr (), tx\<lparr>tx_writes := bt_insert (store, key) (Some val) (tx_writes tx)\<rparr>))"

definition Transaction_delete ::
    "IndexedDb \<Rightarrow> string \<Rightarrow> string \<Rightarrow> Transaction \<Rightarrow> (IndexedDbError + unit) \<times> Transaction" where
  "Transaction_delete d store key tx =
     (if \<not> tx_active tx then (Inl TransactionInactive, tx)
      else if \<not> bt_contains_key (tx_stores d tx) store then (Inl StoreMissing, tx)
      else (Inr (), tx\<lparr>tx_writes := bt_insert (store, key) None (tx_writes tx)\<rparr>))"

fun write_value :: "string \<Rightarrow> string option \<Rightarrow> (string, string) BTreeMap \<Rightarrow> (string, string) BTreeMap" where
  "write_value key (Some v) vs = bt_insert key v vs"
| "write_value key None vs = bt_remove key vs"

fun apply_writes :: "((string \<times> string) \<times> string option) list \<Rightarrow> stores \<Rightarrow> (IndexedDbError + unit) \<times> stores" where
  "apply_writes [] st = (Inr (), st)"
| "apply_writes (((store, key), v) # ws) st =
     (case bt_get st store of
        None \<Rightarrow> (Inl StoreMissing, st)
      | Some vs \<Rightarrow> apply_writes ws (bt_adjust store (write_value key v) st))"

definition stores_bytes :: "stores \<Rightarrow> nat" where
  "stores_bytes st = sum_list (map length (concat (map bt_values (bt_values st))))"

definition put_stores :: "DatabaseKey \<Rightarrow> stores \<Rightarrow> IndexedDb \<Rightarrow> IndexedDb" where
  "put_stores k st d = d\<lparr>idb_databases := bt_adjust k (\<lambda>db. db\<lparr>db_stores := st\<rparr>) (idb_databases d)\<rparr>"

definition Transaction_commit :: "IndexedDb \<Rightarrow> Transaction \<Rightarrow> (IndexedDbError + unit) \<times> IndexedDb" where
  "Transaction_commit d tx =
     (case apply_writes (tx_writes tx) (tx_stores d tx) of
        (Inl e, _) \<Rightarrow> (Inl e, d)
      | (Inr _, proposed) \<Rightarrow>
          if stores_bytes proposed > idb_max_bytes d then (Inl IdbQuotaExceeded, d)
          else (case apply_writes (tx_writes tx) (tx_stores d tx) of
              (Inl e, st) \<Rightarrow> (Inl e, put_stores (tx_key tx) st d)
            | (Inr _, st) \<Rightarrow>
                let d' = put_stores (tx_key tx) st d
                in (Inr (), d'\<lparr>idb_events := idb_events d' @ [IdbCommitted (tx_key tx)]\<rparr>)))"

definition Transaction_abort :: "IndexedDb \<Rightarrow> Transaction \<Rightarrow> IndexedDb" where
  "Transaction_abort d tx = d\<lparr>idb_events := idb_events d @ [IdbAborted (tx_key tx)]\<rparr>"

subsection \<open>Applying writes\<close>

definition cell :: "stores \<Rightarrow> string \<Rightarrow> string \<Rightarrow> string option" where
  "cell st store key = (case bt_get st store of None \<Rightarrow> None | Some vs \<Rightarrow> bt_get vs key)"

lemma write_value_get: "bt_get (write_value key v vs) k = (if k = key then v else bt_get vs k)"
  by (cases v) simp_all

lemma apply_writes_ok:
  "(\<And>s k v. ((s, k), v) \<in> set ws \<Longrightarrow> bt_contains_key st s) \<Longrightarrow> fst (apply_writes ws st) = Inr ()"
proof (induction ws arbitrary: st)
  case (Cons w ws)
  obtain s k v where w: "w = ((s, k), v)" by (metis prod.collapse)
  from Cons.prems [of s k v] obtain vs where vs: "bt_get st s = Some vs" by (auto simp: w bt_contains_key_def)
  have "fst (apply_writes ws (bt_adjust s (write_value k v) st)) = Inr ()"
  proof (rule Cons.IH)
    fix s' k' v' assume "((s', k'), v') \<in> set ws"
    with Cons.prems [of s' k' v'] show "bt_contains_key (bt_adjust s (write_value k v) st) s'"
      by (auto simp: bt_contains_key_def)
  qed
  with w vs show ?case by simp
qed simp

lemma apply_writes_keys: "bt_keys (snd (apply_writes ws st)) = bt_keys st"
  by (induction ws st rule: apply_writes.induct) (auto split: option.split)

lemma apply_writes_cell:
  assumes "fst (apply_writes ws st) = Inr ()" "distinct (map fst ws)"
  shows "cell (snd (apply_writes ws st)) s k =
    (case map_of ws (s, k) of None \<Rightarrow> cell st s k | Some v \<Rightarrow> v)"
  using assms
proof (induction ws arbitrary: st)
  case (Cons w ws)
  obtain s' k' v' where w: "w = ((s', k'), v')" by (metis prod.collapse)
  from Cons.prems obtain vs where vs: "bt_get st s' = Some vs"
    and ok: "fst (apply_writes ws (bt_adjust s' (write_value k' v') st)) = Inr ()"
    by (auto simp: w split: option.splits)
  have new: "cell (bt_adjust s' (write_value k' v') st) s k =
      (if (s, k) = (s', k') then v' else cell st s k)"
    using vs by (auto simp: cell_def write_value_get split: option.split)
  have fresh: "map_of ws (s', k') = None" using Cons.prems(2) by (simp add: w map_of_eq_None_iff)
  have "snd (apply_writes (w # ws) st) = snd (apply_writes ws (bt_adjust s' (write_value k' v') st))"
    using vs by (simp add: w)
  with Cons.IH [OF ok] Cons.prems(2) new fresh show ?case by (auto simp: w split: option.split)
qed simp

subsection \<open>Transactions as built by their own operations\<close>

datatype TxOp = TxPut string string string | TxDelete string string

fun tx_apply :: "IndexedDb \<Rightarrow> TxOp \<Rightarrow> Transaction \<Rightarrow> Transaction" where
  "tx_apply d (TxPut s k v) tx = snd (Transaction_put d s k v tx)"
| "tx_apply d (TxDelete s k) tx = snd (Transaction_delete d s k tx)"

text \<open>What the accepted operations say about a cell, the last one counting.\<close>

fun last_write :: "stores \<Rightarrow> TxOp list \<Rightarrow> string \<Rightarrow> string \<Rightarrow> string option option" where
  "last_write st [] s k = None"
| "last_write st (TxPut s' k' v # xs) s k =
     (case last_write st xs s k of
        Some w \<Rightarrow> Some w | None \<Rightarrow> if (s', k') = (s, k) \<and> bt_contains_key st s then Some (Some v) else None)"
| "last_write st (TxDelete s' k' # xs) s k =
     (case last_write st xs s k of
        Some w \<Rightarrow> Some w | None \<Rightarrow> if (s', k') = (s, k) \<and> bt_contains_key st s then Some None else None)"

definition tx_ok :: "IndexedDb \<Rightarrow> Transaction \<Rightarrow> bool" where
  "tx_ok d tx \<longleftrightarrow> tx_active tx \<and> bt_ok (tx_writes tx)
     \<and> (\<forall>s k v. ((s, k), v) \<in> set (tx_writes tx) \<longrightarrow> bt_contains_key (tx_stores d tx) s)"

lemma set_bt_insert: "e \<in> set (bt_insert k v m) \<Longrightarrow> e = (k, v) \<or> e \<in> set m"
  by (auto simp: bt_insert_def)

lemma tx_apply_key: "tx_key (tx_apply d x tx) = tx_key tx"
  by (cases x) (simp_all add: Transaction_put_def Transaction_delete_def)

lemma tx_stores_apply [simp]: "tx_stores d (tx_apply d x tx) = tx_stores d tx"
  by (simp add: tx_stores_def tx_apply_key)

lemma tx_ok_apply: "tx_ok d tx \<Longrightarrow> tx_ok d (tx_apply d x tx)"
proof (cases x)
  case (TxPut s k v)
  assume "tx_ok d tx"
  with TxPut tx_stores_apply [of d x tx] show ?thesis
    by (auto simp: tx_ok_def Transaction_put_def tx_stores_def dest: set_bt_insert)
next
  case (TxDelete s k)
  assume "tx_ok d tx"
  with TxDelete tx_stores_apply [of d x tx] show ?thesis
    by (auto simp: tx_ok_def Transaction_delete_def tx_stores_def dest: set_bt_insert)
qed

lemma tx_apply_writes:
  assumes "tx_active tx"
  shows "bt_get (tx_writes (tx_apply d x tx)) (s, k) =
     (case last_write (tx_stores d tx) [x] s k of None \<Rightarrow> bt_get (tx_writes tx) (s, k) | Some w \<Rightarrow> Some w)"
  using assms by (cases x) (auto simp: Transaction_put_def Transaction_delete_def)

lemma last_write_Cons:
  "last_write st (x # xs) s k = (case last_write st xs s k of Some w \<Rightarrow> Some w | None \<Rightarrow> last_write st [x] s k)"
  by (cases x) (simp_all split: option.split)

lemma tx_run:
  assumes "tx_ok d tx"
  shows "tx_ok d (fold (tx_apply d) xs tx) \<and> tx_key (fold (tx_apply d) xs tx) = tx_key tx
    \<and> bt_get (tx_writes (fold (tx_apply d) xs tx)) (s, k) =
       (case last_write (tx_stores d tx) xs s k of None \<Rightarrow> bt_get (tx_writes tx) (s, k) | Some w \<Rightarrow> Some w)"
  using assms
proof (induction xs arbitrary: tx)
  case (Cons x xs)
  have a: "tx_active tx" using Cons.prems by (simp add: tx_ok_def)
  show ?case
    using Cons.IH [OF tx_ok_apply [OF Cons.prems, of x]] tx_apply_writes [OF a, of d x s k]
    unfolding last_write_Cons [of _ x xs] by (simp add: tx_apply_key split: option.split)
qed simp

subsection \<open>Properties\<close>

text \<open>
  C10: commits are atomic: a transaction built by any puts and deletes commits or leaves the database
  collection exactly as it was; it fails only for exceeding the quota, never half-way; when it
  commits, every cell holds what the last accepted operation on it says, or its old value, the
  other databases, the version and the set of stores are unchanged, and the stored bytes are within
  the quota.
\<close>

theorem commit_is_atomic:
  assumes "IndexedDb_transaction profile origin name d = Inr tx0"
    and "tx = fold (tx_apply d) ops tx0" "Transaction_commit d tx = (res, d')"
    and "bt_get (idb_databases d) (profile, origin, name) = Some db"
  shows "case res of
      Inl e \<Rightarrow> e = IdbQuotaExceeded \<and> d' = d
    | Inr _ \<Rightarrow>
        (\<exists>db'. bt_get (idb_databases d') (profile, origin, name) = Some db'
           \<and> db_version db' = db_version db \<and> bt_keys (db_stores db') = bt_keys (db_stores db)
           \<and> stores_bytes (db_stores db') \<le> idb_max_bytes d
           \<and> (\<forall>s k. cell (db_stores db') s k =
                (case last_write (db_stores db) ops s k of None \<Rightarrow> cell (db_stores db) s k | Some w \<Rightarrow> w)))
        \<and> (\<forall>j. j \<noteq> (profile, origin, name) \<longrightarrow> bt_get (idb_databases d') j = bt_get (idb_databases d) j)"
proof -
  have tx0: "tx0 = \<lparr>tx_key = (profile, origin, name), tx_writes = [], tx_active = True\<rparr>"
    using assms(1) by (auto simp: IndexedDb_transaction_def split: option.splits)
  then have ok0: "tx_ok d tx0" by (simp add: tx_ok_def)
  have st0: "tx_stores d tx0 = db_stores db" using assms(4) by (simp add: tx_stores_def tx0)
  note run = tx_run [OF ok0, of ops, folded assms(2), unfolded st0]
  have st: "tx_stores d tx = db_stores db"
    using run [of undefined undefined] assms(4) by (simp add: tx_stores_def tx0)
  have key: "tx_key tx = (profile, origin, name)" using run [of undefined undefined] by (simp add: tx0)
  have fine: "fst (apply_writes (tx_writes tx) (db_stores db)) = Inr ()"
    using run [of undefined undefined] by (intro apply_writes_ok) (auto simp: tx_ok_def st)
  have "distinct (map fst (tx_writes tx))" using run [of undefined undefined] by (simp add: tx_ok_def bt_ok_distinct)
  note cells = apply_writes_cell [OF fine this]
  obtain st' where st': "apply_writes (tx_writes tx) (db_stores db) = (Inr (), st')"
    using fine by (metis prod.collapse)
  have new: "cell st' s k = (case last_write (db_stores db) ops s k of None \<Rightarrow> cell (db_stores db) s k | Some w \<Rightarrow> w)" for s k
    using cells [of s k] run [of s k] st' by (simp add: bt_get_def tx0 split: option.splits)
  have keys: "bt_keys st' = bt_keys (db_stores db)"
    using apply_writes_keys [of "tx_writes tx" "db_stores db"] st' by simp
  show ?thesis
    using assms(3,4) new keys
    by (auto simp: Transaction_commit_def st st' key put_stores_def Let_def not_less split: if_splits)
qed

definition sample_idb :: IndexedDb where
  "sample_idb = snd (IndexedDb_open 1 ''u'' ''db'' 1 [''notes''] (IndexedDb_with_quota 4))"

lemma sample_idb_db:
  "bt_get (idb_databases sample_idb) (1, ''u'', ''db'') = Some \<lparr>db_version = 1, db_stores = [(''notes'', [])]\<rparr>"
  by (simp add: sample_idb_def IndexedDb_open_def IndexedDb_with_quota_def Database_default_def Let_def
      bt_or_insert_def bt_contains_key_def bt_insert_def)

theorem commit_is_atomic_witness:
  "snd (Transaction_commit sample_idb
     (fold (tx_apply sample_idb) [TxPut ''notes'' ''a'' ''12345'']
       \<lparr>tx_key = (1, ''u'', ''db''), tx_writes = [], tx_active = True\<rparr>)) = sample_idb"
proof -
  let ?start = "\<lparr>tx_key = (1, ''u'', ''db''), tx_writes = [], tx_active = True\<rparr>"
  let ?tx = "fold (tx_apply sample_idb) [TxPut ''notes'' ''a'' ''12345''] ?start"
  have t: "IndexedDb_transaction 1 ''u'' ''db'' sample_idb = Inr ?start"
    by (simp add: IndexedDb_transaction_def sample_idb_db)
  have q: "idb_max_bytes sample_idb = 4"
    by (simp add: sample_idb_def IndexedDb_open_def IndexedDb_with_quota_def Let_def Database_default_def)
  have e: "fst (Transaction_commit sample_idb ?tx) = Inl IdbQuotaExceeded"
    by (simp add: Transaction_commit_def Transaction_put_def tx_stores_def sample_idb_db bt_contains_key_def
        bt_insert_def bt_adjust_def stores_bytes_def q)
  obtain res d' where c: "Transaction_commit sample_idb ?tx = (res, d')" by (cases "Transaction_commit sample_idb ?tx")
  from commit_is_atomic [OF t _ c sample_idb_db, of "[TxPut ''notes'' ''a'' ''12345'']"] c e show ?thesis by simp
qed

text \<open>Versions only go up.\<close>

lemma open_version_monotone:
  assumes "bt_get (idb_databases d) (profile, origin, name) = Some db"
  shows "\<exists>db'. bt_get (idb_databases (snd (IndexedDb_open profile origin name v stores d))) (profile, origin, name) = Some db'
    \<and> db_version db \<le> db_version db'"
  using assms by (auto simp: IndexedDb_open_def Let_def not_less le_max_iff_disj)

end
