(* ===== verification/Cookies.thy ===== *)
theory Cookies
  imports Web Text
begin

section \<open>Cookies (crates/cookies)\<close>

text \<open>
  Parsing of \<open>Set-Cookie\<close> headers, matching against request URLs, and the jar, which is partitioned
  by profile and top-level site. Times are \<open>i64\<close> seconds, modelled as integers with the
  saturation of the source written out; the clock and \<open>Url::parse\<close> are arguments.
\<close>

subsection \<open>Cookies\<close>

record Cookie =
  ck_name :: string
  ck_value :: string
  ck_domain :: string
  ck_host_only :: bool
  ck_path :: string
  ck_secure :: bool
  ck_http_only :: bool
  ck_same_site :: "string option"
  ck_expires :: "int option"

definition parse_attribute :: "int \<Rightarrow> string \<Rightarrow> Cookie \<Rightarrow> Cookie option" where
  "parse_attribute now part cookie =
     (let (key, val) = (case split_once (CHR ''='') part of None \<Rightarrow> (part, []) | Some p \<Rightarrow> p);
          k = to_ascii_lowercase key
      in if k = ''domain''
         then Some (cookie\<lparr>ck_domain := to_ascii_lowercase (trim_start_matches (CHR ''.'') val), ck_host_only := False\<rparr>)
         else if k = ''path'' \<and> val \<noteq> [] then Some (cookie\<lparr>ck_path := val\<rparr>)
         else if k = ''secure'' then Some (cookie\<lparr>ck_secure := True\<rparr>)
         else if k = ''httponly'' then Some (cookie\<lparr>ck_http_only := True\<rparr>)
         else if k = ''max-age''
         then (case parse_i64 val of
             None \<Rightarrow> None
           | Some seconds \<Rightarrow>
               Some (cookie\<lparr>ck_expires := Some (if seconds \<le> 0 then now else i64_saturating_add now seconds)\<rparr>))
         else if k = ''samesite'' \<and> val \<noteq> [] then Some (cookie\<lparr>ck_same_site := Some (to_ascii_lowercase val)\<rparr>)
         else Some cookie)"

fun parse_attributes :: "int \<Rightarrow> string list \<Rightarrow> Cookie \<Rightarrow> Cookie option" where
  "parse_attributes now [] cookie = Some cookie"
| "parse_attributes now (part # parts) cookie =
     (case parse_attribute now part cookie of None \<Rightarrow> None | Some c \<Rightarrow> parse_attributes now parts c)"

definition Cookie_parse_at :: "string \<Rightarrow> Url \<Rightarrow> int \<Rightarrow> Cookie option" where
  "Cookie_parse_at header request now =
     (case map str_trim (split_on (CHR '';'') header) of
        [] \<Rightarrow> None
      | first # parts \<Rightarrow>
          (case split_once (CHR ''='') first of
             None \<Rightarrow> None
           | Some (name, val) \<Rightarrow>
               (case url_host_str request of
                  None \<Rightarrow> None
                | Some host \<Rightarrow>
                    parse_attributes now parts
                      \<lparr>ck_name = name, ck_value = val, ck_domain = host, ck_host_only = True, ck_path = ''/'',
                       ck_secure = False, ck_http_only = False, ck_same_site = None, ck_expires = None\<rparr>)))"

definition Cookie_matches :: "Cookie \<Rightarrow> Url \<Rightarrow> bool" where
  "Cookie_matches c url =
     (case url_host_str url of
        None \<Rightarrow> False
      | Some h \<Rightarrow>
          let host = to_ascii_lowercase h;
              domain = to_ascii_lowercase (ck_domain c);
              domain_match = (if ck_host_only c then host = domain
                              else host = domain \<or> suffix (CHR ''.'' # domain) host);
              path_match = (if ck_path c = ''/'' then True
                            else url_path url = ck_path c
                              \<or> prefix (trim_end_matches (CHR ''/'') (ck_path c) @ ''/'') (url_path url))
          in domain_match \<and> path_match \<and> (\<not> ck_secure c \<or> url_scheme url = ''https''))"

definition unexpired_at :: "int \<Rightarrow> Cookie \<Rightarrow> bool" where
  "unexpired_at now c = (case ck_expires c of None \<Rightarrow> True | Some expires \<Rightarrow> expires > now)"

definition Cookie_matches_at :: "Cookie \<Rightarrow> Url \<Rightarrow> int \<Rightarrow> bool \<Rightarrow> bool" where
  "Cookie_matches_at c url now same_site =
     (Cookie_matches c url \<and> unexpired_at now c
      \<and> (case ck_same_site c of
           None \<Rightarrow> True
         | Some policy \<Rightarrow>
             if policy = ''strict'' \<or> policy = ''lax'' then same_site
             else if policy = ''none'' then ck_secure c else True))"

subsection \<open>The jar\<close>

type_synonym CookieKey = "ProfileId \<times> string \<times> string \<times> string"

record CookieJar =
  cj_values :: "(CookieKey, Cookie) BTreeMap"

definition CookieJar_default :: CookieJar where
  "CookieJar_default = \<lparr>cj_values = []\<rparr>"

definition CookieJar_set :: "ProfileId \<Rightarrow> string \<Rightarrow> Cookie \<Rightarrow> CookieJar \<Rightarrow> CookieJar" where
  "CookieJar_set profile top_level_site cookie j =
     \<lparr>cj_values = bt_insert (profile, top_level_site, ck_domain cookie, ck_name cookie) cookie (cj_values j)\<rparr>"

definition same_site_request :: "(string \<Rightarrow> Url option) \<Rightarrow> string \<Rightarrow> Url \<Rightarrow> bool" where
  "same_site_request parse top_level_site url =
     (case parse top_level_site of None \<Rightarrow> False | Some site \<Rightarrow> url_host_str site = url_host_str url)"

definition selected_cookies ::
    "(string \<Rightarrow> Url option) \<Rightarrow> CookieJar \<Rightarrow> ProfileId \<Rightarrow> string \<Rightarrow> Url \<Rightarrow> int \<Rightarrow> (CookieKey \<times> Cookie) list" where
  "selected_cookies parse j profile top_level_site url now =
     [e \<leftarrow> cj_values j. fst (fst e) = profile \<and> fst (snd (fst e)) = top_level_site
        \<and> Cookie_matches_at (snd e) url now (same_site_request parse top_level_site url)]"

definition CookieJar_header_for_at ::
    "(string \<Rightarrow> Url option) \<Rightarrow> CookieJar \<Rightarrow> ProfileId \<Rightarrow> string \<Rightarrow> Url \<Rightarrow> int \<Rightarrow> string" where
  "CookieJar_header_for_at parse j profile top_level_site url now =
     join ''; '' (map (\<lambda>e. snd (snd (snd (fst e))) @ ''='' @ ck_value (snd e))
       (selected_cookies parse j profile top_level_site url now))"

definition CookieJar_purge_expired :: "int \<Rightarrow> CookieJar \<Rightarrow> nat \<times> CookieJar" where
  "CookieJar_purge_expired now j =
     (let j' = \<lparr>cj_values = bt_retain (\<lambda>_ c. unexpired_at now c) (cj_values j)\<rparr>
      in (length (cj_values j) - length (cj_values j'), j'))"

record CookieEntry =
  ce_profile :: ProfileId
  ce_top_level_site :: string
  ce_cookie :: Cookie

definition CookieJar_wire :: "CookieJar \<Rightarrow> CookieEntry list" where
  "CookieJar_wire j = map (\<lambda>e. \<lparr>ce_profile = fst (fst e), ce_top_level_site = fst (snd (fst e)), ce_cookie = snd e\<rparr>) (cj_values j)"

definition CookieJar_to_json :: "(CookieEntry list \<Rightarrow> 'err + 'text) \<Rightarrow> CookieJar \<Rightarrow> 'err + 'text" where
  "CookieJar_to_json encode j = encode (CookieJar_wire j)"

definition CookieJar_from_json :: "('text \<Rightarrow> 'err + CookieEntry list) \<Rightarrow> 'text \<Rightarrow> 'err + CookieJar" where
  "CookieJar_from_json decode txt =
     (case decode txt of
        Inl e \<Rightarrow> Inl e
      | Inr entries \<Rightarrow> Inr (fold (\<lambda>e. CookieJar_set (ce_profile e) (ce_top_level_site e) (ce_cookie e)) entries CookieJar_default))"

subsection \<open>What is in a jar\<close>

datatype CookieOp = CkSet ProfileId string Cookie | CkPurge int

fun cookie_apply :: "CookieOp \<Rightarrow> CookieJar \<Rightarrow> CookieJar" where
  "cookie_apply (CkSet p site c) j = CookieJar_set p site c j"
| "cookie_apply (CkPurge now) j = snd (CookieJar_purge_expired now j)"

text \<open>The last cookie set for a key.\<close>

fun last_set :: "CookieKey \<Rightarrow> CookieOp list \<Rightarrow> Cookie option" where
  "last_set k [] = None"
| "last_set k (CkPurge n # xs) = last_set k xs"
| "last_set k (CkSet p site c # xs) =
     (case last_set k xs of Some c' \<Rightarrow> Some c'
      | None \<Rightarrow> if (p, site, ck_domain c, ck_name c) = k then Some c else None)"

definition jar_ok :: "CookieJar \<Rightarrow> bool" where
  "jar_ok j \<longleftrightarrow> bt_ok (cj_values j)
     \<and> (\<forall>p site d n c. bt_get (cj_values j) (p, site, d, n) = Some c \<longrightarrow> d = ck_domain c \<and> n = ck_name c)"

lemma jar_ok_default: "jar_ok CookieJar_default"
  by (simp add: jar_ok_def CookieJar_default_def)

lemma jar_ok_apply: "jar_ok j \<Longrightarrow> jar_ok (cookie_apply x j)"
  by (cases x)
     (auto simp: jar_ok_def CookieJar_set_def CookieJar_purge_expired_def Let_def bt_get_retain split: option.splits if_splits)

lemma jar_ok_run: "jar_ok j \<Longrightarrow> jar_ok (fold cookie_apply xs j)"
  by (induction xs arbitrary: j) (simp_all add: jar_ok_apply)

lemma last_set_snoc:
  "last_set k (xs @ [x]) = (case x of
     CkPurge n \<Rightarrow> last_set k xs
   | CkSet p site c \<Rightarrow> if (p, site, ck_domain c, ck_name c) = k then Some c else last_set k xs)"
proof (induction xs)
  case Nil
  then show ?case by (cases x) simp_all
next
  case (Cons a xs)
  then show ?case by (cases a; cases x) (simp_all split: option.split)
qed

text \<open>A jar holds the last cookie set for a key, unless a purge found it expired.\<close>

fun purge_at_most :: "int \<Rightarrow> CookieOp \<Rightarrow> bool" where
  "purge_at_most now (CkPurge n) = (n \<le> now)"
| "purge_at_most now _ = True"

lemma unexpired_mono: "unexpired_at now c \<Longrightarrow> n \<le> now \<Longrightarrow> unexpired_at n c"
  by (auto simp: unexpired_at_def split: option.splits)

lemma matches_at_unexpired: "Cookie_matches_at c url now same_site \<Longrightarrow> unexpired_at now c"
  by (simp add: Cookie_matches_at_def)

lemma jar_lookup:
  assumes "list_all (purge_at_most now) xs"
  shows "(bt_get (cj_values (fold cookie_apply xs CookieJar_default)) k = Some c \<and> unexpired_at now c)
     \<longleftrightarrow> (last_set k xs = Some c \<and> unexpired_at now c)"
  using assms
proof (induction xs rule: rev_induct)
  case Nil
  then show ?case by (simp add: CookieJar_default_def)
next
  case (snoc x xs)
  let ?j = "fold cookie_apply xs CookieJar_default"
  have bt: "bt_ok (cj_values ?j)" using jar_ok_run [OF jar_ok_default] by (simp add: jar_ok_def)
  show ?case
  proof (cases x)
    case (CkPurge n)
    with snoc bt show ?thesis
      by (auto simp: CookieJar_purge_expired_def Let_def bt_get_retain last_set_snoc
          dest: unexpired_mono split: option.splits if_splits)
  next
    case (CkSet p site c')
    with snoc show ?thesis by (auto simp: CookieJar_set_def last_set_snoc)
  qed
qed

subsection \<open>Properties\<close>

text \<open>
  C11: a request carries exactly the cookies it should: after any sequence of cookies set and
  purges, a cookie is selected for a request if and only if it is the last one set for its profile,
  top-level site, domain and name, it has not expired, and its domain, path, security and same-site
  rules match the request; earlier purges and other partitions make no difference.
\<close>

theorem cookies_sent_are_exactly_the_live_matching_ones:
  assumes "list_all (purge_at_most now) xs"
  shows "((p, site, d, n), c) \<in> set (selected_cookies parse (fold cookie_apply xs CookieJar_default) profile tls url now)
     \<longleftrightarrow> p = profile \<and> site = tls \<and> last_set (p, site, d, n) xs = Some c \<and> unexpired_at now c
       \<and> Cookie_matches_at c url now (same_site_request parse tls url)"
proof -
  let ?j = "fold cookie_apply xs CookieJar_default"
  have bt: "bt_ok (cj_values ?j)" using jar_ok_run [OF jar_ok_default] by (simp add: jar_ok_def)
  have "((p, site, d, n), c) \<in> set (cj_values ?j) \<longleftrightarrow> bt_get (cj_values ?j) (p, site, d, n) = Some c"
    by (simp add: bt_get_iff_in [OF bt])
  then show ?thesis
    using jar_lookup [OF assms, of "(p, site, d, n)" c] by (auto simp: selected_cookies_def dest: matches_at_unexpired)
qed

definition sample_cookie_url :: "string \<Rightarrow> Url" where
  "sample_cookie_url host = \<lparr>url_as_str = ''https://'' @ host @ ''/'', url_scheme = ''https'', url_username = [],
     url_password = None, url_host_str = Some host, url_port_or_known_default = Some 443, url_path = ''/'',
     url_query = None, url_fragment = None, url_origin = TupleOrigin ''https'' host 443,
     url_origin_ascii = ''https://'' @ host\<rparr>"

definition sample_cookie :: Cookie where
  "sample_cookie = \<lparr>ck_name = ''sid'', ck_value = ''1'', ck_domain = ''a.test'', ck_host_only = True, ck_path = ''/'',
     ck_secure = True, ck_http_only = False, ck_same_site = None, ck_expires = Some 100\<rparr>"

theorem cookies_sent_are_exactly_the_live_matching_ones_witness:
  "((1, ''https://a.test/'', ''a.test'', ''sid''), sample_cookie) \<in> set (selected_cookies (\<lambda>_. Some (sample_cookie_url ''a.test''))
     (fold cookie_apply [CkSet 1 ''https://a.test/'' sample_cookie, CkPurge 99] CookieJar_default)
     1 ''https://a.test/'' (sample_cookie_url ''a.test'') 99)"
proof -
  have "list_all (purge_at_most 99) [CkSet 1 ''https://a.test/'' sample_cookie, CkPurge 99]" by simp
  from cookies_sent_are_exactly_the_live_matching_ones [OF this] show ?thesis
    by (simp add: sample_cookie_def unexpired_at_def Cookie_matches_at_def Cookie_matches_def sample_cookie_url_def)
qed

text \<open>A jar written out and read back is the same jar.\<close>

lemma jar_wire_round_trip:
  assumes "jar_ok j"
  shows "fold (\<lambda>e. CookieJar_set (ce_profile e) (ce_top_level_site e) (ce_cookie e)) (CookieJar_wire j) CookieJar_default = j"
proof -
  have ok: "bt_ok (cj_values j)"
    and keyed: "bt_get (cj_values j) (p, site, d, n) = Some c \<Longrightarrow> d = ck_domain c \<and> n = ck_name c" for p site d n c
    using assms by (simp_all add: jar_ok_def)
  have key: "((p, site, d, n), c) \<in> set (cj_values j) \<Longrightarrow> d = ck_domain c \<and> n = ck_name c" for p site d n c
    by (intro keyed bt_in_get [OF ok])
  have "fold (\<lambda>e. CookieJar_set (ce_profile e) (ce_top_level_site e) (ce_cookie e))
      (map (\<lambda>e. \<lparr>ce_profile = fst (fst e), ce_top_level_site = fst (snd (fst e)), ce_cookie = snd e\<rparr>) es) \<lparr>cj_values = m\<rparr>
    = \<lparr>cj_values = fold (\<lambda>e m. bt_insert (fst e) (snd e) m) es m\<rparr>"
    if "set es \<subseteq> set (cj_values j)" for es m
    using that
  proof (induction es arbitrary: m)
    case (Cons e es)
    obtain k c where kc: "e = (k, c)" by (cases e)
    obtain p site d n where "k = (p, site, d, n)" by (cases k)
    with kc have e: "e = ((p, site, d, n), c)" by simp
    with Cons.prems key [of p site d n c] have "d = ck_domain c" "n = ck_name c" by auto
    with Cons e show ?case by (simp add: CookieJar_set_def)
  qed simp
  from this [of "cj_values j" "[]"] show ?thesis
    using assms bt_collect_id [of "cj_values j"]
    by (simp add: CookieJar_wire_def CookieJar_default_def jar_ok_def bt_collect_def)
qed

text \<open>
  A response can set a cookie for a host it does not belong to: the \<open>Domain\<close> attribute is taken as
  it is, without comparing it with the host that answered, so a header from one host yields a cookie
  that is then sent to an unrelated one.
\<close>

theorem domain_attribute_is_not_checked:
  assumes "url_host_str request = Some host" "split_once (CHR ''='') name_value = Some (name, val)"
    and "split_on (CHR '';'') header = [name_value, attribute]" "str_trim name_value = name_value"
    and "str_trim attribute = ''Domain='' @ domain" "domain \<noteq> []" "hd domain \<noteq> CHR ''.''"
    and "url_host_str victim = Some domain" "url_path victim = ''/''"
  shows "\<exists>c. Cookie_parse_at header request now = Some c \<and> ck_name c = name \<and> ck_value c = val
     \<and> Cookie_matches_at c victim now same_site"
proof -
  have "split_once (CHR ''='') (''Domain='' @ domain) = Some (''Domain'', domain)" by simp
  moreover have "to_ascii_lowercase ''Domain'' = ''domain''" by code_simp
  moreover have "trim_start_matches (CHR ''.'') domain = domain"
    using assms(6,7) by (cases domain) (simp_all add: trim_start_matches_def)
  moreover have "to_ascii_lowercase (to_ascii_lowercase domain) = to_ascii_lowercase domain"
    by (simp add: to_ascii_lowercase_def)
  ultimately show ?thesis using assms
    by (simp add: Cookie_parse_at_def parse_attribute_def Cookie_matches_at_def Cookie_matches_def unexpired_at_def)
qed

theorem domain_attribute_is_not_checked_witness:
  "\<exists>c. Cookie_parse_at ''sid=evil; Domain=bank.test'' (sample_cookie_url ''evil.test'') 0 = Some c
     \<and> Cookie_matches_at c (sample_cookie_url ''bank.test'') 0 False"
proof -
  have t: "str_trim ''sid=evil'' = ''sid=evil''" "str_trim '' Domain=bank.test'' = ''Domain='' @ ''bank.test''"
    by code_simp+
  show ?thesis
    using domain_attribute_is_not_checked [of "sample_cookie_url ''evil.test''" "''evil.test''" "''sid=evil''" "''sid''"
        "''evil''" "''sid=evil; Domain=bank.test''" "'' Domain=bank.test''" "''bank.test''"
        "sample_cookie_url ''bank.test''" 0 False] t
    by (auto simp: sample_cookie_url_def)
qed

end
