(* ===== verification/FileBroker.thy ===== *)
theory FileBroker
  imports Permissions Text
begin

section \<open>File broker (crates/file-broker)\<close>

text \<open>
  A capability names a root directory; paths below it are resolved lexically, and existing ones
  again after symlink expansion. \<open>std::path\<close> is modelled as on Unix: a path is its bytes, and
  \<open>components\<close> splits it at slashes, drops empty parts, drops dots except a leading one and keeps
  double dots. (\<open>Component::Prefix\<close> occurs on Windows only.) What the operating system answers
  (\<open>canonicalize\<close>, creating a directory or file, listing a directory) is an argument.
\<close>

datatype Component = RootDir | CurDir | ParentDir | Normal string

definition to_component :: "string \<Rightarrow> Component" where
  "to_component s = (if s = ''..'' then ParentDir else Normal s)"

definition path_parts :: "string \<Rightarrow> Component list" where
  "path_parts p = map to_component [s \<leftarrow> split_on (CHR ''/'') p. s \<noteq> [] \<and> s \<noteq> ''.'']"

definition path_lead :: "string \<Rightarrow> Component list" where
  "path_lead p =
     (case p of
        [] \<Rightarrow> []
      | c # _ \<Rightarrow> if c = CHR ''/'' then [RootDir]
                else if hd (split_on (CHR ''/'') p) = ''.'' then [CurDir] else [])"

definition path_components :: "string \<Rightarrow> Component list" where
  "path_components p = path_lead p @ path_parts p"

text \<open>\<open>PathBuf::join\<close>: an absolute right-hand side replaces the left one.\<close>

definition path_join :: "string \<Rightarrow> string \<Rightarrow> string" where
  "path_join base rel =
     (if rel \<noteq> [] \<and> hd rel = CHR ''/'' then rel
      else if base \<noteq> [] \<and> last base \<noteq> CHR ''/'' then base @ ''/'' @ rel
      else base @ rel)"

definition path_starts_with :: "string \<Rightarrow> string \<Rightarrow> bool" where
  "path_starts_with p base = prefix (path_components base) (path_components p)"

record FileCapability =
  fc_reference :: uuid
  fc_profile :: ProfileId
  fc_origin :: string
  fc_root :: string

datatype FileError = FilePermission PermissionDecision | InvalidPath | EmptyRoot | Io

definition grant_root ::
    "uuid \<Rightarrow> PermissionManager \<Rightarrow> ProfileId \<Rightarrow> string \<Rightarrow> string \<Rightarrow> u64 \<Rightarrow> FileError + FileCapability" where
  "grant_root fresh permissions profile origin root now =
     (let decision = PermissionManager_check permissions profile origin Files now in
      if decision \<noteq> PermGranted then Inl (FilePermission decision)
      else if root = [] then Inl EmptyRoot
      else Inr \<lparr>fc_reference = fresh, fc_profile = profile, fc_origin = origin, fc_root = root\<rparr>)"

definition resolve :: "FileCapability \<Rightarrow> string \<Rightarrow> FileError + string" where
  "resolve capability rel =
     (if list_ex (\<lambda>c. c = ParentDir \<or> c = RootDir) (path_components rel) then Inl InvalidPath
      else Inr (path_join (fc_root capability) rel))"

definition resolve_existing ::
    "(string \<Rightarrow> string option) \<Rightarrow> FileCapability \<Rightarrow> string \<Rightarrow> FileError + string" where
  "resolve_existing canonicalize capability rel =
     (case resolve capability rel of
        Inl e \<Rightarrow> Inl e
      | Inr candidate \<Rightarrow>
          (case canonicalize (fc_root capability) of
             None \<Rightarrow> Inl InvalidPath
           | Some root \<Rightarrow>
               (case canonicalize candidate of
                  None \<Rightarrow> Inl InvalidPath
                | Some resolved \<Rightarrow> if \<not> path_starts_with resolved root then Inl InvalidPath else Inr resolved)))"

text \<open>
  A directory as \<open>read_dir\<close> and \<open>symlink_metadata\<close> report it: whether it can be listed, and its
  entries in listing order, one of which may fail to be read.
\<close>

datatype FsEntry = FsFile u64 | FsDir bool "FsEntry list" | FsOther | FsUnreadable

fun listing_size :: "FsEntry list \<Rightarrow> u64 \<Rightarrow> FileError + u64" where
  "listing_size [] acc = Inr acc"
| "listing_size (FsUnreadable # es) acc = Inl Io"
| "listing_size (FsOther # es) acc = listing_size es acc"
| "listing_size (FsFile n # es) acc = listing_size es (saturating_add acc n)"
| "listing_size (FsDir readable sub # es) acc =
     (if \<not> readable then Inl Io
      else (case listing_size sub 0 of
          Inl e \<Rightarrow> Inl e
        | Inr n \<Rightarrow> listing_size es (saturating_add acc n)))"

definition directory_size :: "bool \<Rightarrow> FsEntry list \<Rightarrow> FileError + u64" where
  "directory_size readable entries = (if \<not> readable then Inl Io else listing_size entries 0)"

definition within_quota :: "bool \<Rightarrow> FsEntry list \<Rightarrow> u64 \<Rightarrow> FileError + bool" where
  "within_quota readable entries max_bytes =
     (case directory_size readable entries of Inl e \<Rightarrow> Inl e | Inr n \<Rightarrow> Inr (n \<le> max_bytes))"

text \<open>\<open>uuid_text\<close> is the printed form of a new \<open>Uuid\<close>; \<open>dir_ok\<close> and \<open>open_ok\<close> are the outcomes of the two calls.\<close>

definition create_temporary :: "string \<Rightarrow> bool \<Rightarrow> bool \<Rightarrow> FileCapability \<Rightarrow> string \<Rightarrow> FileError + string" where
  "create_temporary uuid_text dir_ok open_ok capability name_prefix =
     (if name_prefix = [] \<or> has_control name_prefix \<or> CHR ''/'' \<in> set name_prefix then Inl InvalidPath
      else if \<not> dir_ok then Inl Io
      else let path = path_join (fc_root capability) (''.'' @ name_prefix @ ''-'' @ uuid_text)
           in if \<not> open_ok then Inl Io else Inr path)"

definition cleanup_temporary :: "bool \<Rightarrow> FileError + unit" where
  "cleanup_temporary remove_ok = (if \<not> remove_ok then Inl Io else Inr ())"

interpretation file_gate: permission_gate
  "\<lambda>m now. grant_root fresh m profile origin root now" FilePermission profile origin Files
  for fresh profile origin root
  by unfold_locales (simp add: grant_root_def Let_def)

subsection \<open>Joining paths\<close>

lemma path_parts_append: "path_parts (a @ CHR ''/'' # b) = path_parts a @ path_parts b"
  by (simp add: path_parts_def split_on_append)

lemma hd_split_on_append: "hd (split_on c (a @ c # b)) = hd (split_on c a)"
  by (simp add: split_on_append)

lemma path_lead_append: "a \<noteq> [] \<Longrightarrow> path_lead (a @ CHR ''/'' # b) = path_lead a"
  unfolding path_lead_def hd_split_on_append by (cases a) simp_all

lemma path_parts_no_lead:
  "RootDir \<notin> set (path_parts p)" "CurDir \<notin> set (path_parts p)"
  by (auto simp: path_parts_def to_component_def split: if_splits)

lemma path_components_slash: "b \<noteq> [] \<Longrightarrow> path_components (b @ ''/'') = path_components b"
  using path_lead_append [of b "[]"] path_parts_append [of b "[]"]
  by (simp add: path_components_def path_parts_def)

lemma root_lead:
  "path_components (CHR ''/'' # b) = RootDir # path_parts b"
  using path_parts_append [of "[]" b] by (simp add: path_components_def path_lead_def path_parts_def)

text \<open>Below a root that is not empty, a relative path only adds components.\<close>

lemma path_join_components:
  assumes "base \<noteq> []" "RootDir \<notin> set (path_components rel)"
  shows "path_components (path_join base rel) = path_components base @ path_parts rel"
proof -
  have rel: "\<not> (rel \<noteq> [] \<and> hd rel = CHR ''/'')"
    using assms(2) by (cases rel) (auto simp: path_components_def path_lead_def)
  show ?thesis
  proof (cases "last base = CHR ''/''")
    case False
    with rel assms(1) have "path_join base rel = base @ CHR ''/'' # rel" by (auto simp: path_join_def)
    then show ?thesis
      using path_lead_append [OF assms(1)] by (simp add: path_components_def path_parts_append)
  next
    case True
    then obtain b where b: "base = b @ ''/''" using assms(1) by (metis append_butlast_last_id)
    with rel True have j: "path_join base rel = b @ CHR ''/'' # rel" by (auto simp: path_join_def)
    show ?thesis
    proof (cases "b = []")
      case True
      then show ?thesis using j b root_lead [of rel] root_lead [of "[]"] by (simp add: path_parts_def)
    next
      case False
      then show ?thesis
        unfolding j using path_components_slash [OF False] b path_lead_append [OF False]
        by (simp add: path_components_def path_parts_append)
    qed
  qed
qed

subsection \<open>Sizes\<close>

fun total_bytes :: "FsEntry list \<Rightarrow> nat" where
  "total_bytes [] = 0"
| "total_bytes (FsFile n # es) = unat n + total_bytes es"
| "total_bytes (FsDir readable sub # es) = total_bytes sub + total_bytes es"
| "total_bytes (_ # es) = total_bytes es"

fun all_readable :: "FsEntry list \<Rightarrow> bool" where
  "all_readable [] = True"
| "all_readable (FsUnreadable # es) = False"
| "all_readable (FsDir readable sub # es) = (readable \<and> all_readable sub \<and> all_readable es)"
| "all_readable (_ # es) = all_readable es"

lemma unat_saturating_add64: "unat (saturating_add a (b :: u64)) = min (unat a + unat b) (2 ^ 64 - 1)"
  by (simp add: unat_saturating_add)

lemma listing_size_total:
  "case listing_size es t of
     Inr n \<Rightarrow> all_readable es \<and> unat n = min (unat t + total_bytes es) (2 ^ 64 - 1)
   | Inl e \<Rightarrow> \<not> all_readable es \<and> e = Io"
proof (induction es t rule: listing_size.induct)
  case (1 acc)
  have "unat acc < 2 ^ LENGTH(64)" by (rule unsigned_less)
  then show ?case by simp
next
  case (4 n es acc)
  then show ?case by (auto simp: unat_saturating_add64 split: sum.splits)
next
  case (5 readable sub es acc)
  then show ?case
    by (auto simp: unat_saturating_add64 split: sum.splits)
qed (auto split: sum.splits)

subsection \<open>Properties\<close>

text \<open>
  C12: a file capability confines paths: a path resolved under it lies below its root, component by
  component, adding no parent or root step; a resolved existing path lies below the real root
  after symlinks are expanded; and capabilities are issued only under a standing file permission.
\<close>

theorem file_capability_confines_paths:
  assumes "list_all (clock_at_most now) xs"
    and "grant_root fresh (fold perm_apply xs PermissionManager_default) profile origin root now = Inr capability"
  shows "(\<exists>ex. fold (spec_step (profile, origin, Files)) xs NoStanding = Allowed ex
        \<and> (case ex of None \<Rightarrow> True | Some t \<Rightarrow> now < t))
     \<and> (resolve capability rel = Inr p \<longrightarrow>
          (\<exists>below. path_components p = path_components root @ below \<and> ParentDir \<notin> set below \<and> RootDir \<notin> set below))
     \<and> (resolve_existing canonicalize capability rel = Inr q \<longrightarrow>
          (\<exists>real. canonicalize root = Some real \<and> prefix (path_components real) (path_components q)))"
proof -
  from assms(2) have root: "fc_root capability = root" "root \<noteq> []"
    by (auto simp: grant_root_def Let_def split: if_splits)
  have "\<exists>below. path_components p = path_components root @ below \<and> ParentDir \<notin> set below \<and> RootDir \<notin> set below"
    if "resolve capability rel = Inr p"
  proof (intro exI conjI)
    from that have c: "ParentDir \<notin> set (path_components rel)" "RootDir \<notin> set (path_components rel)"
      and p: "p = path_join root rel"
      by (auto simp: resolve_def root list_ex_iff split: if_splits)
    show "path_components p = path_components root @ path_parts rel"
      unfolding p by (rule path_join_components [OF root(2) c(2)])
    show "ParentDir \<notin> set (path_parts rel)" "RootDir \<notin> set (path_parts rel)"
      using c by (simp_all add: path_components_def)
  qed
  moreover have "\<exists>real. canonicalize root = Some real \<and> prefix (path_components real) (path_components q)"
    if "resolve_existing canonicalize capability rel = Inr q"
    using that by (auto simp: resolve_existing_def root path_starts_with_def split: sum.splits option.splits if_splits)
  ultimately show ?thesis using file_gate.success_needs_standing [OF assms] by blast
qed

theorem file_capability_confines_paths_witness:
  "\<exists>below. path_components ''/srv/data/a/b'' = path_components ''/srv/data'' @ below \<and> ParentDir \<notin> set below \<and> RootDir \<notin> set below"
proof -
  let ?xs = "[PermSet 1 ''u'' Files True]"
  let ?cap = "\<lparr>fc_reference = 3, fc_profile = 1, fc_origin = ''u'', fc_root = ''/srv/data''\<rparr>"
  have c: "list_all (clock_at_most 0) ?xs" by simp
  have g: "grant_root 3 (fold perm_apply ?xs PermissionManager_default) 1 ''u'' ''/srv/data'' 0 = Inr ?cap"
    by (simp add: grant_root_def PermissionManager_check_def PermissionManager_set_def PermissionManager_default_def Let_def)
  have r: "resolve ?cap ''a/b'' = Inr ''/srv/data/a/b''" by code_simp
  from file_capability_confines_paths [OF c g] r show ?thesis by blast
qed

text \<open>
  The size of a directory tree is exact up to saturation: when every directory and entry below
  it can be read, it is the sum of all file sizes at every depth, capped at the largest \<open>u64\<close>, and
  otherwise it is an error, never a partial sum.
\<close>

theorem directory_size_is_the_saturated_sum:
  "directory_size readable entries =
     (if readable \<and> all_readable entries
      then Inr (of_nat (min (total_bytes entries) (2 ^ 64 - 1))) else Inl Io)"
proof (cases "listing_size entries 0")
  case (Inl e)
  with listing_size_total [of entries 0] show ?thesis by (simp add: directory_size_def)
next
  case (Inr n)
  with listing_size_total [of entries 0] have "all_readable entries"
    "unat n = min (total_bytes entries) (2 ^ 64 - 1)" by simp_all
  moreover from this(2) have "n = of_nat (min (total_bytes entries) (2 ^ 64 - 1))"
    by (metis of_nat_unat ucast_id)
  ultimately show ?thesis using Inr by (simp add: directory_size_def)
qed

text \<open>A temporary file is a direct child of the capability's root.\<close>

lemma temporary_is_a_child:
  assumes "create_temporary uuid_text dir_ok open_ok capability name = Inr p" "fc_root capability \<noteq> []"
    and "CHR ''/'' \<notin> set uuid_text"
  shows "path_components p = path_components (fc_root capability) @ [Normal (''.'' @ name @ ''-'' @ uuid_text)]"
proof -
  let ?n = "''.'' @ name @ ''-'' @ uuid_text"
  from assms(1) have p: "p = path_join (fc_root capability) ?n" and s: "CHR ''/'' \<notin> set ?n"
    using assms(3) by (auto simp: create_temporary_def Let_def split: if_splits)
  have n: "?n \<noteq> ''..''" "?n \<noteq> ''.''"
    by (cases name; simp)+
  have "path_parts ?n = [Normal ?n]"
    unfolding path_parts_def split_on_no_sep [OF s] using n by (simp add: to_component_def)
  moreover have "RootDir \<notin> set (path_components ?n)"
    using s path_parts_no_lead(1) [of ?n] by (auto simp: path_components_def path_lead_def)
  ultimately show ?thesis unfolding p using path_join_components [OF assms(2)] by metis
qed

end
