(* ===== verification/Descent.thy ===== *)
theory Descent
  imports Prelude
begin

section \<open>Recursion through child lists\<close>

text \<open>
  Frames and DOM nodes are kept in tables whose entries list their children, and both crates walk
  such a table with the same recursion: descend into a child, then append it, without looking at
  what was visited before. On a table with a cycle it never returns, so the depth is explicit: the
  first argument of \<open>walk\<close> is the number of nested calls, and \<open>None\<close> is a recursion deeper than that.

  \<open>kids\<close> lists the children of a node, none for a node that is not in the table. A forest is a table
  whose links are those of trees; there the walk ends within the size of the table and lists every
  node below its start exactly once.
\<close>

fun walk :: "nat \<Rightarrow> ('k \<Rightarrow> 'k list) \<Rightarrow> 'k \<Rightarrow> 'k list \<Rightarrow> 'k list option"
  and walk_all :: "nat \<Rightarrow> ('k \<Rightarrow> 'k list) \<Rightarrow> 'k list \<Rightarrow> 'k list \<Rightarrow> 'k list option" where
  "walk 0 kids i acc = None"
| "walk (Suc n) kids i acc = walk_all n kids (kids i) acc"
| "walk_all n kids [] acc = Some acc"
| "walk_all n kids (c # cs) acc =
     (case walk n kids c acc of
        None \<Rightarrow> None
      | Some acc' \<Rightarrow> walk_all n kids cs (acc' @ [c]))"

definition kid :: "('k \<Rightarrow> 'k list) \<Rightarrow> 'k \<Rightarrow> 'k \<Rightarrow> bool" where
  "kid kids p c \<longleftrightarrow> c \<in> set (kids p)"

abbreviation under :: "('k \<Rightarrow> 'k list) \<Rightarrow> 'k \<Rightarrow> 'k \<Rightarrow> bool" where
  "under kids \<equiv> (kid kids)\<^sup>+\<^sup>+"

abbreviation well_grounded :: "('k \<Rightarrow> 'k list) \<Rightarrow> 'k \<Rightarrow> bool" where
  "well_grounded kids \<equiv> Wellfounded.accp (\<lambda>c p. kid kids p c)"

lemma under_iff: "under kids i x \<longleftrightarrow> (\<exists>c \<in> set (kids i). x = c \<or> under kids c x)"
proof
  assume "under kids i x"
  then show "\<exists>c \<in> set (kids i). x = c \<or> under kids c x" by (rule converse_tranclpE) (auto simp: kid_def)
next
  assume "\<exists>c \<in> set (kids i). x = c \<or> under kids c x"
  then obtain c where "kid kids i c" "x = c \<or> under kids c x" by (auto simp: kid_def)
  then show "under kids i x" by (auto intro: tranclp_into_tranclp2)
qed

subsection \<open>What a walk appends\<close>

lemma walk_appends:
  "walk n kids i acc = Some r \<Longrightarrow> \<exists>ds. r = acc @ ds \<and> set ds = {x. under kids i x}"
  "walk_all n kids cs acc = Some r \<Longrightarrow>
     \<exists>ds. r = acc @ ds \<and> set ds = {x. \<exists>c \<in> set cs. x = c \<or> under kids c x}"
proof (induction n kids i acc and n kids cs acc arbitrary: r and r rule: walk_walk_all.induct)
  case (2 n kids i acc)
  then show ?case using under_iff [of kids i] by simp
next
  case (4 n kids c cs acc)
  from 4(3) obtain s where s: "walk n kids c acc = Some s" "walk_all n kids cs (s @ [c]) = Some r"
    by (auto split: option.splits)
  from 4(1) [OF s(1)] obtain d where d: "s = acc @ d" "set d = {x. under kids c x}" by blast
  from 4(2) [OF s] obtain e where e: "r = (s @ [c]) @ e" "set e = {x. \<exists>c \<in> set cs. x = c \<or> under kids c x}"
    by blast
  have "r = acc @ (d @ c # e)" "set (d @ c # e) = {x. \<exists>c' \<in> set (c # cs). x = c' \<or> under kids c' x}"
    using d e by auto
  then show ?case by blast
qed auto

subsection \<open>When a walk ends\<close>

lemma walk_returns_grounded:
  "walk n kids i acc = Some r \<Longrightarrow> well_grounded kids i"
  "walk_all n kids cs acc = Some r \<Longrightarrow> \<forall>c \<in> set cs. well_grounded kids c"
proof (induction n kids i acc and n kids cs acc arbitrary: r and r rule: walk_walk_all.induct)
  case (2 n kids i acc)
  show ?case
  proof (rule accpI)
    show "well_grounded kids c" if "kid kids i c" for c using 2 that by (simp add: kid_def)
  qed
qed (auto split: option.splits)

lemma grounded_not_under_self: "well_grounded kids i \<Longrightarrow> \<not> under kids i i"
proof (induction rule: accp.induct)
  case (accI x)
  show ?case
  proof
    assume "under kids x x"
    then obtain c where c: "kid kids x c" "c = x \<or> under kids c x" using under_iff [of kids x x] by (auto simp: kid_def)
    then have "under kids c c" by (auto intro: tranclp.trancl_into_trancl)
    with accI c(1) show False by blast
  qed
qed

text \<open>
  Along a branch no node repeats, so the number of nodes not yet on the branch bounds the
  remaining depth.
\<close>

lemma walk_all_returns:
  "(\<And>c acc. c \<in> set cs \<Longrightarrow> \<exists>r. walk n kids c acc = Some r) \<Longrightarrow> \<exists>r. walk_all n kids cs acc = Some r"
proof (induction cs arbitrary: acc)
  case (Cons c cs)
  then obtain s where "walk n kids c acc = Some s" by fastforce
  with Cons show ?case by simp
qed simp

lemma walk_bounded:
  assumes "well_grounded kids i" and "finite D" and "\<forall>p. kids p = [] \<or> p \<in> D"
    and "A \<subseteq> D" and "\<forall>a \<in> A. under kids a i" and "card (D - A) < n"
  shows "\<exists>r. walk n kids i acc = Some r"
  using assms(1,4,5,6)
proof (induction i arbitrary: A n acc rule: accp.induct)
  case (accI i)
  obtain m where n: "n = Suc m" using accI.prems(3) by (cases n) auto
  show ?case
  proof (cases "kids i = []")
    case True
    then show ?thesis by (simp add: n)
  next
    case False
    then have i: "i \<in> D" using assms(3) by blast
    have "well_grounded kids i" using accI.hyps by (rule accpI)
    then have "i \<notin> A" using accI.prems(2) grounded_not_under_self [of kids i] by auto
    with i have eq: "D - A = insert i (D - insert i A)" by auto
    have "finite (D - insert i A)" "i \<notin> D - insert i A" using assms(2) by simp_all
    from card_insert_disjoint [OF this] have "card (D - A) = Suc (card (D - insert i A))" by (simp only: eq [symmetric])
    with accI.prems(3) have less: "card (D - insert i A) < m" unfolding n by linarith
    have "\<exists>r. walk m kids c acc = Some r" if c: "c \<in> set (kids i)" for c acc
    proof (rule accI.IH [OF _ _ _ less])
      show "kid kids i c" using c by (simp add: kid_def)
      then show "\<forall>a \<in> insert i A. under kids a c"
        using accI.prems(2) by (auto intro: tranclp.trancl_into_trancl)
      show "insert i A \<subseteq> D" using i accI.prems(1) by blast
    qed
    then show ?thesis using walk_all_returns [of "kids i" m kids acc] by (simp add: n)
  qed
qed

lemma walk_returns_iff:
  assumes "\<forall>p. kids p = [] \<or> p \<in> set D" and "length D < b"
  shows "(\<exists>n r. walk n kids i acc = Some r) \<longleftrightarrow> (\<exists>r. walk b kids i acc = Some r)"
proof
  assume "\<exists>n r. walk n kids i acc = Some r"
  then have "well_grounded kids i" by (auto dest: walk_returns_grounded)
  moreover have "card (set D) < b" using card_length [of D] assms(2) by linarith
  ultimately show "\<exists>r. walk b kids i acc = Some r"
    using walk_bounded [of kids i "set D" "{}" b acc] assms(1) by simp
qed blast

subsection \<open>Forests\<close>

definition layered :: "('k \<Rightarrow> 'k list) \<Rightarrow> bool" where
  "layered kids \<longleftrightarrow> (\<exists>d. \<forall>p c. kid kids p c \<longrightarrow> d p < (d c :: nat))"

definition forest :: "'k list \<Rightarrow> ('k \<Rightarrow> 'k list) \<Rightarrow> ('k \<Rightarrow> 'k option) \<Rightarrow> bool" where
  "forest D kids par \<longleftrightarrow> (\<forall>p. kids p = [] \<or> p \<in> set D) \<and> (\<forall>p c. kid kids p c \<longrightarrow> par c = Some p)
     \<and> (\<forall>p. distinct (kids p)) \<and> layered kids"

lemma layered_grounded:
  assumes "layered kids" and "\<forall>p. kids p = [] \<or> p \<in> set D"
  shows "well_grounded kids i"
proof -
  obtain d where d: "\<And>p c. kid kids p c \<Longrightarrow> d p < (d c :: nat)" using assms(1) by (auto simp: layered_def)
  define m where "m = Max (d ` set D)"
  have bound: "d p \<le> m" if "kid kids p c" for p c
  proof -
    have "p \<in> set D" using that assms(2) [rule_format, of p] by (auto simp: kid_def)
    then show ?thesis unfolding m_def by (intro Max_ge) auto
  qed
  show ?thesis
  proof (induction "Suc m - d i" arbitrary: i rule: less_induct)
    case less
    show ?case
    proof (rule accpI)
      fix c assume c: "kid kids i c"
      then have "Suc m - d c < Suc m - d i" using d [OF c] bound [OF c] by linarith
      then show "well_grounded kids c" by (rule less)
    qed
  qed
qed

lemma forest_grounded: "forest D kids par \<Longrightarrow> well_grounded kids i"
  by (rule layered_grounded [of _ D]) (simp_all add: forest_def)

lemma forest_not_under_self: "forest D kids par \<Longrightarrow> \<not> under kids i i"
  using forest_grounded grounded_not_under_self by fast

lemma forest_parent: "forest D kids par \<Longrightarrow> kid kids p c \<Longrightarrow> par c = Some p"
  by (simp add: forest_def)

lemma forest_parent_unique: "forest D kids par \<Longrightarrow> kid kids p c \<Longrightarrow> kid kids q c \<Longrightarrow> p = q"
  using forest_parent [of D kids par p c] forest_parent [of D kids par q c] by simp

text \<open>Two nodes above a common one are above one another; siblings never are.\<close>

lemma forest_chain:
  assumes "forest D kids par" "under kids a x" "under kids b x"
  shows "a = b \<or> under kids a b \<or> under kids b a"
  using assms(2,3)
proof (induction rule: tranclp.induct)
  case (r_into_trancl a x)
  from r_into_trancl(2) show ?case
  proof (cases rule: tranclp.cases)
    case (trancl_into_trancl y)
    then have "y = a" using forest_parent_unique [OF assms(1)] r_into_trancl(1) by blast
    with trancl_into_trancl show ?thesis by simp
  qed (use forest_parent_unique [OF assms(1)] r_into_trancl(1) in blast)
next
  case (trancl_into_trancl a y x)
  from trancl_into_trancl(4) show ?case
  proof (cases rule: tranclp.cases)
    case r_into_trancl
    then have "b = y" using forest_parent_unique [OF assms(1)] trancl_into_trancl(2) by blast
    with trancl_into_trancl(1) show ?thesis by simp
  next
    case z: (trancl_into_trancl z)
    then have "z = y" using forest_parent_unique [OF assms(1)] trancl_into_trancl(2) by blast
    with z trancl_into_trancl(3) show ?thesis by simp
  qed
qed

lemma forest_siblings:
  assumes "forest D kids par" "kid kids p a" "kid kids p b"
  shows "\<not> under kids a b"
proof
  assume "under kids a b"
  then show False
  proof (cases rule: tranclp.cases)
    case r_into_trancl
    then have "a = p" using forest_parent_unique [OF assms(1)] assms(3) by blast
    then show False using assms(2) forest_not_under_self [OF assms(1), of p] by blast
  next
    case (trancl_into_trancl y)
    then have "y = p" using forest_parent_unique [OF assms(1)] assms(3) by blast
    with trancl_into_trancl assms(2) have "under kids p p" by (auto intro: tranclp_into_tranclp2)
    then show False using forest_not_under_self [OF assms(1)] by blast
  qed
qed

lemma forest_siblings_disjoint:
  assumes "forest D kids par" "kid kids p a" "kid kids p b" "a \<noteq> b"
    and "x = a \<or> under kids a x" "x = b \<or> under kids b x"
  shows False
  using assms forest_chain [OF assms(1), of a x b] forest_siblings [OF assms(1)] by blast

lemma forest_walk_distinct:
  "walk n kids i acc = Some (acc @ ds) \<Longrightarrow> forest D kids par \<Longrightarrow> distinct ds"
  "walk_all n kids cs acc = Some (acc @ ds) \<Longrightarrow> forest D kids par \<Longrightarrow> distinct cs \<Longrightarrow>
     \<forall>c \<in> set cs. kid kids p c \<Longrightarrow> distinct ds"
proof (induction n kids i acc and n kids cs acc arbitrary: ds and ds p rule: walk_walk_all.induct)
  case (2 n kids i acc)
  then show ?case by (auto simp: kid_def forest_def)
next
  case (4 n kids c cs acc)
  note t = 4(4)
  from 4(3) obtain s where s: "walk n kids c acc = Some s" "walk_all n kids cs (s @ [c]) = Some (acc @ ds)"
    by (auto split: option.splits)
  from walk_appends(1) [OF s(1)] obtain d where d: "s = acc @ d" "set d = {x. under kids c x}" by blast
  from walk_appends(2) [OF s(2)] obtain e where e: "acc @ ds = (s @ [c]) @ e"
    "set e = {x. \<exists>c' \<in> set cs. x = c' \<or> under kids c' x}" by blast
  have ds: "ds = d @ c # e" using d(1) e(1) by simp
  have "distinct d" using 4(1) [OF _ t] s(1) d(1) by simp
  moreover have "distinct e" using 4(2) [OF s(1) _ t] s(2) e(1) 4(5,6) by auto
  moreover have "c \<notin> set d" using d(2) forest_not_under_self [OF t] by simp
  moreover have "x \<notin> set e" if "x = c \<or> under kids c x" for x
    using forest_siblings_disjoint [OF t, of p c _ x] that e(2) 4(5,6) by auto
  ultimately show ?case unfolding ds using d(2) by auto
qed auto

theorem forest_walk_ends:
  assumes "forest D kids par" and "length D < n"
  shows "\<exists>ds. walk n kids i acc = Some (acc @ ds) \<and> set ds = {x. under kids i x} \<and> distinct ds"
proof -
  have "card (set D) < n" using card_length [of D] assms(2) by linarith
  moreover have "\<forall>p. kids p = [] \<or> p \<in> set D" using assms(1) by (simp add: forest_def)
  ultimately have "\<exists>r. walk n kids i acc = Some r"
    using walk_bounded [where D = "set D" and A = "{}" and kids = kids and i = i and acc = acc and n = n]
      forest_grounded [OF assms(1)] by simp
  then obtain r where r: "walk n kids i acc = Some r" ..
  from walk_appends(1) [OF r] r forest_walk_distinct(1) [OF _ assms(1)] show ?thesis by blast
qed

theorem forest_walk_all_ends:
  assumes "forest D kids par" and "length D < n"
  shows "\<exists>ds. walk_all n kids (kids i) acc = Some (acc @ ds) \<and> set ds = {x. under kids i x} \<and> distinct ds"
  using forest_walk_ends [OF assms(1), of "Suc n" i acc] assms(2) by simp

end
