(* ===== verification/Frames.thy ===== *)
theory Frames
  imports Web BTreeMap Descent
begin

section \<open>Frame trees\<close>

text \<open>
  The crate \<open>crates/frames\<close>: the tree of frames of a page, the scope of frames an agent sees, the
  same-origin test between frames, and navigation of a frame, which unloads everything below it.

  \<open>collect_descendants\<close> recurses through the child lists without looking at what it has visited, so
  on a table with a cycle it never returns. The model makes the recursion depth explicit: the first
  argument bounds the depth and \<open>None\<close> stands for a recursion that is still running there.
  \<open>collect_returns_iff\<close> shows that the bound used by the operations, one more than the number of
  frames, decides exactly whether the recursion ends at all, so that \<open>None\<close> in \<open>scoped_ids\<close> and
  \<open>navigate\<close> is non-termination and nothing else.

  A fresh frame identifier is an argument; \<open>url_origin_ascii\<close> is what
  \<open>url.origin().ascii_serialization()\<close> returns.
\<close>

type_synonym FrameId = uuid

record Frame =
  fr_id :: FrameId
  fr_parent :: "FrameId option"
  fr_url :: Url
  fr_origin :: string
  fr_children :: "FrameId list"

record AgentFrameScope =
  fs_frame :: FrameId
  fs_origin :: string
  fs_parent :: "FrameId option"
  fs_descendants :: "FrameId list"

datatype FrameError = MissingFrame | CrossOriginDenied | DuplicateFrame | InvalidSnapshot

record FrameTree =
  ft_frames :: "(FrameId, Frame) BTreeMap"
  ft_root :: FrameId

definition FrameTree_new :: "FrameId \<Rightarrow> Url \<Rightarrow> FrameTree" where
  "FrameTree_new fresh url =
     \<lparr>ft_frames = bt_insert fresh
        \<lparr>fr_id = fresh, fr_parent = None, fr_url = url, fr_origin = url_origin_ascii url, fr_children = []\<rparr> [],
      ft_root = fresh\<rparr>"

definition FrameTree_add_child ::
    "FrameId \<Rightarrow> FrameId \<Rightarrow> Url \<Rightarrow> FrameTree \<Rightarrow> (FrameError + FrameId) \<times> FrameTree" where
  "FrameTree_add_child fresh parent url t =
     (if \<not> bt_contains_key (ft_frames t) parent then (Inl MissingFrame, t)
      else
        let frame = \<lparr>fr_id = fresh, fr_parent = Some parent, fr_url = url,
                     fr_origin = url_origin_ascii url, fr_children = []\<rparr>;
            linked = bt_adjust parent (\<lambda>f. f\<lparr>fr_children := fr_children f @ [fresh]\<rparr>) (ft_frames t);
            t' = t\<lparr>ft_frames := bt_insert fresh frame linked\<rparr>
        in if bt_contains_key linked fresh then (Inl DuplicateFrame, t') else (Inr fresh, t'))"

definition FrameTree_get :: "FrameTree \<Rightarrow> FrameId \<Rightarrow> Frame option" where
  "FrameTree_get t i = bt_get (ft_frames t) i"

text \<open>The validation of \<open>from_json\<close>; the decoder itself is an argument.\<close>

definition dangling_frame :: "FrameTree \<Rightarrow> Frame \<Rightarrow> bool" where
  "dangling_frame t f =
     ((case fr_parent f of None \<Rightarrow> False | Some p \<Rightarrow> \<not> bt_contains_key (ft_frames t) p)
      \<or> list_ex (\<lambda>c. \<not> bt_contains_key (ft_frames t) c) (fr_children f))"

definition FrameTree_from_json :: "('text \<Rightarrow> FrameTree option) \<Rightarrow> 'text \<Rightarrow> FrameError + FrameTree" where
  "FrameTree_from_json decode val =
     (case decode val of
        None \<Rightarrow> Inl InvalidSnapshot
      | Some t \<Rightarrow>
          if \<not> bt_contains_key (ft_frames t) (ft_root t) \<or> list_ex (dangling_frame t) (bt_values (ft_frames t))
          then Inl InvalidSnapshot else Inr t)"

definition frame_kids :: "FrameTree \<Rightarrow> FrameId \<Rightarrow> FrameId list" where
  "frame_kids t i = (case bt_get (ft_frames t) i of None \<Rightarrow> [] | Some f \<Rightarrow> fr_children f)"

definition collect_descendants :: "nat \<Rightarrow> FrameTree \<Rightarrow> FrameId \<Rightarrow> FrameId list \<Rightarrow> FrameId list option" where
  "collect_descendants n t i acc = walk n (frame_kids t) i acc"

definition collect_children :: "nat \<Rightarrow> FrameTree \<Rightarrow> FrameId list \<Rightarrow> FrameId list \<Rightarrow> FrameId list option" where
  "collect_children n t cs acc = walk_all n (frame_kids t) cs acc"

definition depth_bound :: "FrameTree \<Rightarrow> nat" where
  "depth_bound t = Suc (length (ft_frames t))"

definition FrameTree_scoped_ids :: "FrameTree \<Rightarrow> FrameId \<Rightarrow> (FrameError + FrameId list) option" where
  "FrameTree_scoped_ids t root =
     (if \<not> bt_contains_key (ft_frames t) root then Some (Inl MissingFrame)
      else map_option Inr (collect_descendants (depth_bound t) t root [root]))"

definition FrameTree_agent_scope :: "FrameTree \<Rightarrow> FrameId \<Rightarrow> (FrameError + AgentFrameScope) option" where
  "FrameTree_agent_scope t root =
     (case bt_get (ft_frames t) root of
        None \<Rightarrow> Some (Inl MissingFrame)
      | Some f \<Rightarrow>
          (case FrameTree_scoped_ids t root of
             None \<Rightarrow> None
           | Some (Inl e) \<Rightarrow> Some (Inl e)
           | Some (Inr ids) \<Rightarrow>
               Some (Inr \<lparr>fs_frame = fr_id f, fs_origin = fr_origin f, fs_parent = fr_parent f,
                          fs_descendants = drop 1 ids\<rparr>)))"

definition FrameTree_can_access :: "FrameTree \<Rightarrow> FrameId \<Rightarrow> FrameId \<Rightarrow> FrameError + bool" where
  "FrameTree_can_access t a b =
     (case bt_get (ft_frames t) a of
        None \<Rightarrow> Inl MissingFrame
      | Some f \<Rightarrow> (case bt_get (ft_frames t) b of
          None \<Rightarrow> Inl MissingFrame
        | Some g \<Rightarrow> Inr (fr_origin f = fr_origin g)))"

definition FrameTree_require_access :: "FrameTree \<Rightarrow> FrameId \<Rightarrow> FrameId \<Rightarrow> FrameError + unit" where
  "FrameTree_require_access t a b =
     (case FrameTree_can_access t a b of
        Inl e \<Rightarrow> Inl e
      | Inr ok \<Rightarrow> if ok then Inr () else Inl CrossOriginDenied)"

definition FrameTree_can_query :: "FrameTree \<Rightarrow> FrameId \<Rightarrow> FrameId \<Rightarrow> FrameError + unit" where
  "FrameTree_can_query t a b = FrameTree_require_access t a b"

definition FrameTree_can_action :: "FrameTree \<Rightarrow> FrameId \<Rightarrow> FrameId \<Rightarrow> FrameError + unit" where
  "FrameTree_can_action t a b = FrameTree_require_access t a b"

text \<open>The loop of \<open>navigate\<close> over the children is \<open>collect_children\<close> started on an empty vector.\<close>

definition FrameTree_navigate ::
    "FrameId \<Rightarrow> Url \<Rightarrow> FrameTree \<Rightarrow> ((FrameError + unit) \<times> FrameTree) option" where
  "FrameTree_navigate i url t =
     (case bt_get (ft_frames t) i of
        None \<Rightarrow> Some (Inl MissingFrame, t)
      | Some f \<Rightarrow>
          (case collect_children (depth_bound t) t (fr_children f) [] of
             None \<Rightarrow> None
           | Some ds \<Rightarrow>
               let fs = fold bt_remove ds (ft_frames t) in
               if \<not> bt_contains_key fs i then Some (Inl MissingFrame, t\<lparr>ft_frames := fs\<rparr>)
               else Some (Inr (), t\<lparr>ft_frames := bt_adjust i
                 (\<lambda>f. f\<lparr>fr_url := url, fr_origin := url_origin_ascii url, fr_children := []\<rparr>) fs\<rparr>)))"

subsection \<open>When the recursion ends\<close>

abbreviation child :: "FrameTree \<Rightarrow> FrameId \<Rightarrow> FrameId \<Rightarrow> bool" where
  "child t \<equiv> kid (frame_kids t)"

abbreviation below :: "FrameTree \<Rightarrow> FrameId \<Rightarrow> FrameId \<Rightarrow> bool" where
  "below t \<equiv> under (frame_kids t)"

lemma child_def: "child t p c \<longleftrightarrow> (\<exists>f. bt_get (ft_frames t) p = Some f \<and> c \<in> set (fr_children f))"
  by (cases "bt_get (ft_frames t) p") (simp_all add: kid_def frame_kids_def)

lemma no_frame_below: "bt_get (ft_frames t) i = None \<Longrightarrow> \<not> below t i x"
  by (subst under_iff) (simp add: frame_kids_def)

lemma frame_kids_listed: "\<forall>p. frame_kids t p = [] \<or> p \<in> set (bt_keys (ft_frames t))"
proof
  show "frame_kids t p = [] \<or> p \<in> set (bt_keys (ft_frames t))" for p
    using bt_get_None_iff [of "ft_frames t" p] by (cases "bt_get (ft_frames t) p") (simp_all add: frame_kids_def)
qed

lemma depth_bound_less: "length (bt_keys (ft_frames t)) < depth_bound t"
  by (simp add: depth_bound_def)

theorem collect_returns_iff:
  "(\<exists>n r. collect_descendants n t i acc = Some r) \<longleftrightarrow>
   (\<exists>r. collect_descendants (depth_bound t) t i acc = Some r)"
  unfolding collect_descendants_def by (rule walk_returns_iff [OF frame_kids_listed depth_bound_less])

subsection \<open>Trees\<close>

text \<open>
  The shape every tree built by the operations has: parent and child links agree, siblings are
  distinct, depths increase along the links, and the recorded origin is the origin of the URL.
\<close>

definition linked :: "FrameTree \<Rightarrow> bool" where
  "linked t = (\<forall>p c. child t p c \<longrightarrow>
     (\<exists>g. bt_get (ft_frames t) c = Some g \<and> fr_parent g = Some p))"

definition frame_ok :: "FrameId \<Rightarrow> Frame \<Rightarrow> bool" where
  "frame_ok k f = (fr_id f = k \<and> distinct (fr_children f) \<and> fr_origin f = url_origin_ascii (fr_url f))"

definition tree_ok :: "FrameTree \<Rightarrow> bool" where
  "tree_ok t = (bt_ok (ft_frames t)
     \<and> (\<exists>f. bt_get (ft_frames t) (ft_root t) = Some f \<and> fr_parent f = None)
     \<and> linked t \<and> layered (frame_kids t)
     \<and> (\<forall>k f. bt_get (ft_frames t) k = Some f \<longrightarrow> frame_ok k f))"

lemma tree_okD:
  assumes "tree_ok t"
  shows "bt_ok (ft_frames t)" "\<exists>f. bt_get (ft_frames t) (ft_root t) = Some f \<and> fr_parent f = None" "linked t" "layered (frame_kids t)"
    and "\<And>k f. bt_get (ft_frames t) k = Some f \<Longrightarrow> frame_ok k f"
  using assms by (auto simp: tree_ok_def)

lemma below_is_frame: "linked t \<Longrightarrow> below t i x \<Longrightarrow> bt_get (ft_frames t) x \<noteq> None"
  by (erule tranclp.cases) (auto simp: linked_def)

definition frame_parent :: "FrameTree \<Rightarrow> FrameId \<Rightarrow> FrameId option" where
  "frame_parent t c = Option.bind (bt_get (ft_frames t) c) fr_parent"

lemma tree_forest: "tree_ok t \<Longrightarrow> forest (bt_keys (ft_frames t)) (frame_kids t) (frame_parent t)"
proof -
  assume t: "tree_ok t"
  have "frame_parent t c = Some p" if "child t p c" for p c
    using tree_okD(3) [OF t] that unfolding linked_def frame_parent_def by (metis Option.bind.bind_lunit)
  moreover have "distinct (frame_kids t p)" for p
    using tree_okD(5) [OF t, of p] by (auto simp: frame_kids_def frame_ok_def split: option.split)
  ultimately show ?thesis unfolding forest_def using frame_kids_listed [of t] tree_okD(4) [OF t] by simp
qed

lemmas not_below_self = forest_not_under_self [OF tree_forest]

subsection \<open>The operations keep the shape\<close>

inductive frame_step :: "FrameTree \<Rightarrow> FrameTree \<Rightarrow> bool" where
  add: "bt_get (ft_frames t) fresh = None \<Longrightarrow>
        frame_step t (snd (FrameTree_add_child fresh parent url t))"
| navigate: "FrameTree_navigate i url t = Some (res, t') \<Longrightarrow> frame_step t t'"

inductive_cases frame_stepE: "frame_step t t'"

lemma tree_ok_new: "tree_ok (FrameTree_new fresh url)"
  by (auto simp: tree_ok_def FrameTree_new_def linked_def layered_def child_def frame_ok_def split: if_splits)

lemma linked_frame: "linked t \<Longrightarrow> child t p c \<Longrightarrow> bt_get (ft_frames t) c \<noteq> None"
  by (auto simp: linked_def)

lemma add_child_get:
  assumes "bt_get (ft_frames t) parent = Some f" "bt_get (ft_frames t) fresh = None"
  shows "FrameTree_add_child fresh parent url t = (Inr fresh, snd (FrameTree_add_child fresh parent url t))"
    and "bt_get (ft_frames (snd (FrameTree_add_child fresh parent url t))) k =
      (if k = fresh then Some \<lparr>fr_id = fresh, fr_parent = Some parent, fr_url = url,
                     fr_origin = url_origin_ascii url, fr_children = []\<rparr>
       else if k = parent then Some (f\<lparr>fr_children := fr_children f @ [fresh]\<rparr>)
       else bt_get (ft_frames t) k)"
    and "ft_root (snd (FrameTree_add_child fresh parent url t)) = ft_root t"
    and "bt_ok (ft_frames t) \<Longrightarrow> bt_ok (ft_frames (snd (FrameTree_add_child fresh parent url t)))"
  using assms by (auto simp: FrameTree_add_child_def bt_contains_key_def Let_def)

lemma add_child_child:
  assumes "bt_get (ft_frames t) parent = Some f" "bt_get (ft_frames t) fresh = None"
  shows "child (snd (FrameTree_add_child fresh parent url t)) p c \<longleftrightarrow>
    child t p c \<or> p = parent \<and> c = fresh"
  using assms by (auto simp: child_def add_child_get(2) [OF assms])

lemma tree_ok_add:
  assumes t: "tree_ok t" and new: "bt_get (ft_frames t) fresh = None"
  shows "tree_ok (snd (FrameTree_add_child fresh parent url t))"
proof (cases "bt_get (ft_frames t) parent")
  case None
  then show ?thesis using t by (simp add: FrameTree_add_child_def bt_contains_key_def)
next
  case (Some f)
  let ?t = "snd (FrameTree_add_child fresh parent url t)"
  note get = add_child_get(2) [OF Some new, of url] and ch = add_child_child [OF Some new, of url]
  have old: "c \<noteq> fresh" if "child t p c" for p c
    using linked_frame [OF tree_okD(3) [OF t] that] new by auto
  have "linked ?t"
    unfolding linked_def ch
  proof (intro allI impI, elim disjE)
    fix p c assume c: "child t p c"
    then obtain g where "bt_get (ft_frames t) c = Some g" "fr_parent g = Some p"
      using tree_okD(3) [OF t] by (auto simp: linked_def)
    then show "\<exists>g. bt_get (ft_frames ?t) c = Some g \<and> fr_parent g = Some p"
      using old [OF c] Some by (auto simp: get)
  qed (simp add: get)
  moreover have "layered (frame_kids ?t)"
  proof -
    from tree_okD(4) [OF t] obtain d where d: "\<And>p c. child t p c \<Longrightarrow> d p < (d c :: nat)"
      by (auto simp: layered_def)
    have "child t p c \<Longrightarrow> p \<noteq> fresh" for p c using new by (auto simp: child_def)
    then have "\<forall>p c. child ?t p c \<longrightarrow> (d(fresh := Suc (d parent))) p < (d(fresh := Suc (d parent))) c"
      using d old Some new unfolding ch by auto
    then show ?thesis unfolding layered_def by blast
  qed
  moreover have "fresh \<notin> set (fr_children f)" using old [of parent fresh] Some by (auto simp: child_def)
  then have "frame_ok k g" if "bt_get (ft_frames ?t) k = Some g" for k g
    using that tree_okD(5) [OF t] Some by (auto simp: get frame_ok_def split: if_splits)
  moreover have "\<exists>g. bt_get (ft_frames ?t) (ft_root ?t) = Some g \<and> fr_parent g = None"
    using tree_okD(2) [OF t] new Some unfolding get add_child_get(3) [OF Some new] by auto
  ultimately show ?thesis
    using tree_okD(1) [OF t] add_child_get(4) [OF Some new] by (simp add: tree_ok_def)
qed

lemma navigate_returns:
  assumes t: "tree_ok t" and i: "bt_get (ft_frames t) i = Some f"
  shows "\<exists>t'. FrameTree_navigate i url t = Some (Inr (), t') \<and> ft_root t' = ft_root t \<and> bt_ok (ft_frames t') \<and>
    (\<forall>k. bt_get (ft_frames t') k =
       (if k = i then Some (f\<lparr>fr_url := url, fr_origin := url_origin_ascii url, fr_children := []\<rparr>)
        else if below t i k then None else bt_get (ft_frames t) k))"
proof -
  from forest_walk_all_ends [OF tree_forest [OF t] depth_bound_less, of i "[]"] obtain ds where
    ds: "collect_children (depth_bound t) t (fr_children f) [] = Some ds" "set ds = {x. below t i x}"
    using i by (auto simp: collect_children_def frame_kids_def)
  then have below: "k \<in> set ds \<longleftrightarrow> below t i k" for k by simp
  have "i \<notin> set ds" unfolding below by (rule not_below_self [OF t])
  then show ?thesis
    using i ds tree_okD(1) [OF t]
    by (auto simp: FrameTree_navigate_def bt_contains_key_def bt_get_fold_remove below bt_ok_fold_remove Let_def)
qed

lemma root_not_below: "tree_ok t \<Longrightarrow> \<not> below t i (ft_root t)"
proof
  assume t: "tree_ok t" and b: "below t i (ft_root t)"
  from b obtain p where "child t p (ft_root t)" by (auto elim: tranclp.cases)
  with tree_okD(2,3) [OF t] show False unfolding linked_def by (metis option.distinct(1) option.inject)
qed

lemma tree_ok_navigate:
  assumes t: "tree_ok t" and n: "FrameTree_navigate i url t = Some (res, t')"
  shows "tree_ok t'"
proof (cases "bt_get (ft_frames t) i")
  case None
  then show ?thesis using t n by (simp add: FrameTree_navigate_def)
next
  case (Some f)
  from navigate_returns [OF t Some, of url] n
  have root: "ft_root t' = ft_root t" and ok: "bt_ok (ft_frames t')" and
    get: "\<And>k. bt_get (ft_frames t') k =
       (if k = i then Some (f\<lparr>fr_url := url, fr_origin := url_origin_ascii url, fr_children := []\<rparr>)
        else if below t i k then None else bt_get (ft_frames t) k)" by auto
  have ch: "child t' p c \<longleftrightarrow> child t p c \<and> p \<noteq> i \<and> \<not> below t i p" for p c
    by (auto simp: child_def get)
  have "linked t'"
    unfolding linked_def ch
  proof (intro allI impI, elim conjE)
    fix p c assume c: "child t p c" and p: "p \<noteq> i" "\<not> below t i p"
    then obtain g where g: "bt_get (ft_frames t) c = Some g" "fr_parent g = Some p"
      using tree_okD(3) [OF t] by (auto simp: linked_def)
    have "\<not> below t i c"
    proof
      assume "below t i c"
      then obtain q where "child t q c" "q = i \<or> below t i q" by (auto elim: tranclp.cases)
      then show False using forest_parent_unique [OF tree_forest [OF t] c] p by blast
    qed
    then show "\<exists>g. bt_get (ft_frames t') c = Some g \<and> fr_parent g = Some p"
      using g Some by (auto simp: get)
  qed
  moreover have "layered (frame_kids t')" using tree_okD(4) [OF t] unfolding layered_def ch by blast
  moreover have "frame_ok k g" if "bt_get (ft_frames t') k = Some g" for k g
    using that tree_okD(5) [OF t] Some by (auto simp: get frame_ok_def split: if_splits)
  moreover have "\<exists>g. bt_get (ft_frames t') (ft_root t') = Some g \<and> fr_parent g = None"
    using tree_okD(2) [OF t] root_not_below [OF t, of i] Some by (auto simp: get root)
  ultimately show ?thesis using ok by (simp add: tree_ok_def)
qed

interpretation frame_tree: kept_invariant frame_step tree_ok
  by unfold_locales (auto elim!: frame_stepE intro: tree_ok_add tree_ok_navigate)

lemmas built_tree_ok = frame_tree.reach_keeps [OF _ tree_ok_new]

lemma collect_ends:
  "tree_ok t \<Longrightarrow> \<exists>ds. collect_descendants (depth_bound t) t i acc = Some (acc @ ds) \<and>
     set ds = {x. below t i x} \<and> distinct ds"
  unfolding collect_descendants_def by (rule forest_walk_ends [OF tree_forest depth_bound_less])

subsection \<open>Properties\<close>

text \<open>
  C15: in every tree built by adding child frames and navigating, the recursion over the child lists
  terminates, and the scope of a frame is that frame followed by every frame below it exactly once,
  its descendants in particular never containing the frame itself.
\<close>

theorem frame_scope_is_the_subtree:
  assumes "frame_step\<^sup>*\<^sup>* (FrameTree_new fresh url) t" and "FrameTree_get t i = Some f"
  shows "\<exists>ds. FrameTree_scoped_ids t i = Some (Inr (i # ds)) \<and> distinct (i # ds) \<and>
           (\<forall>x. x \<in> set ds \<longleftrightarrow> below t i x) \<and>
           FrameTree_agent_scope t i = Some (Inr \<lparr>fs_frame = i, fs_origin = url_origin_ascii (fr_url f),
             fs_parent = fr_parent f, fs_descendants = ds\<rparr>)"
proof -
  have t: "tree_ok t" using assms(1) by (rule built_tree_ok)
  from assms(2) have i: "bt_get (ft_frames t) i = Some f" by (simp add: FrameTree_get_def)
  from collect_ends [OF t, of i "[i]"] obtain ds where ds:
    "collect_descendants (depth_bound t) t i [i] = Some (i # ds)" "set ds = {x. below t i x}" "distinct ds"
    by auto
  have "FrameTree_scoped_ids t i = Some (Inr (i # ds))"
    using i ds(1) by (simp add: FrameTree_scoped_ids_def bt_contains_key_def)
  then show ?thesis
    using i ds(2,3) not_below_self [OF t, of i] tree_okD(5) [OF t i]
    by (simp add: FrameTree_agent_scope_def frame_ok_def)
qed

definition sample_frame_url :: "string \<Rightarrow> Url" where
  "sample_frame_url ori = \<lparr>url_as_str = ori @ ''/'', url_scheme = ''https'', url_username = [],
     url_password = None, url_host_str = None, url_port_or_known_default = None, url_path = ''/'',
     url_query = None, url_fragment = None, url_origin = Opaque, url_origin_ascii = ori\<rparr>"

definition sample_frames :: FrameTree where
  "sample_frames = snd (FrameTree_add_child 3 2 (sample_frame_url ''c'')
     (snd (FrameTree_add_child 2 1 (sample_frame_url ''b'') (FrameTree_new 1 (sample_frame_url ''a'')))))"

lemma sample_frames_built: "frame_step\<^sup>*\<^sup>* (FrameTree_new 1 (sample_frame_url ''a'')) sample_frames"
proof -
  let ?root = "FrameTree_new 1 (sample_frame_url ''a'')"
  let ?two = "snd (FrameTree_add_child 2 1 (sample_frame_url ''b'') ?root)"
  have "bt_get (ft_frames ?root) 2 = None" "bt_get (ft_frames ?two) 3 = None" by code_simp+
  then have "frame_step ?root ?two" "frame_step ?two sample_frames"
    unfolding sample_frames_def by (simp_all only: frame_step.add)
  then show ?thesis by (metis rtranclp.simps)
qed

theorem frame_scope_is_the_subtree_witness:
  "\<exists>ds. FrameTree_scoped_ids sample_frames 1 = Some (Inr (1 # ds)) \<and> distinct (1 # ds)"
proof -
  have "FrameTree_get sample_frames 1 \<noteq> None" by code_simp
  then show ?thesis using frame_scope_is_the_subtree [OF sample_frames_built, of 1] by blast
qed

text \<open>
  Navigating a frame of such a tree succeeds and unloads exactly the frames below it: the frame
  keeps its identity and parent with the new URL and origin and no children, every frame below it is
  gone, and every other frame is unchanged; the result is again a tree.
\<close>

theorem navigation_unloads_exactly_the_subtree:
  assumes "frame_step\<^sup>*\<^sup>* (FrameTree_new fresh url) t" and "FrameTree_get t i = Some f"
  shows "\<exists>t'. FrameTree_navigate i url' t = Some (Inr (), t') \<and> tree_ok t' \<and>
    (\<forall>k. FrameTree_get t' k =
       (if k = i then Some (f\<lparr>fr_url := url', fr_origin := url_origin_ascii url', fr_children := []\<rparr>)
        else if below t i k then None else FrameTree_get t k))"
proof -
  have t: "tree_ok t" using assms(1) by (rule built_tree_ok)
  from navigate_returns [OF t, of i f url'] assms(2) tree_ok_navigate [OF t, of i url']
  show ?thesis unfolding FrameTree_get_def by metis
qed

theorem navigation_unloads_exactly_the_subtree_witness:
  "\<exists>t'. FrameTree_navigate 2 (sample_frame_url ''d'') sample_frames = Some (Inr (), t') \<and>
     FrameTree_get t' 3 = None"
proof -
  have "map_option fr_children (FrameTree_get sample_frames 2) = Some [3]" by code_simp
  then obtain f where "FrameTree_get sample_frames 2 = Some f" "(3 :: uuid) \<in> set (fr_children f)"
    by auto
  moreover from this have "below sample_frames 2 3"
    by (auto simp: FrameTree_get_def child_def)
  ultimately show ?thesis
    using navigation_unloads_exactly_the_subtree [OF sample_frames_built, of 2 f "sample_frame_url ''d''"]
    by auto
qed

text \<open>
  \<open>from_json\<close> checks only that linked frames exist. Whatever the decoder, a decoded table in which
  a frame lies below itself and every link leads to a frame of the table is accepted, and the scope
  of that frame is then never returned, at no recursion depth.
\<close>

theorem cyclic_snapshot_is_accepted_and_diverges:
  assumes "decode val = Some t" "bt_contains_key (ft_frames t) (ft_root t)"
    and "\<forall>f \<in> set (bt_values (ft_frames t)). \<not> dangling_frame t f" and "below t i i"
  shows "FrameTree_from_json decode val = Inr t \<and> (\<forall>n acc. collect_descendants n t i acc = None) \<and>
    FrameTree_scoped_ids t i = None"
proof (intro conjI allI)
  show "FrameTree_from_json decode val = Inr t"
    using assms(1-3) by (auto simp: FrameTree_from_json_def list_ex_iff)
  have diverges: "collect_descendants n t i acc = None" for n acc
    unfolding collect_descendants_def
    using walk_returns_grounded(1) grounded_not_under_self assms(4) by (metis not_None_eq)
  then show "collect_descendants n t i acc = None" for n acc .
  have "bt_get (ft_frames t) i \<noteq> None" using assms(4) no_frame_below by blast
  then show "FrameTree_scoped_ids t i = None"
    by (simp add: FrameTree_scoped_ids_def bt_contains_key_def diverges)
qed

definition cyclic_frames :: FrameTree where
  "cyclic_frames = \<lparr>ft_frames = [(1, \<lparr>fr_id = 1, fr_parent = None, fr_url = sample_frame_url ''a'',
     fr_origin = ''a'', fr_children = [1]\<rparr>)], ft_root = 1\<rparr>"

theorem cyclic_snapshot_is_accepted_and_diverges_witness:
  "FrameTree_from_json (\<lambda>_ :: unit. Some cyclic_frames) () = Inr cyclic_frames \<and>
   FrameTree_scoped_ids cyclic_frames 1 = None"
proof -
  have "below cyclic_frames 1 1" by (auto simp: child_def cyclic_frames_def)
  moreover have "bt_contains_key (ft_frames cyclic_frames) (ft_root cyclic_frames)" by code_simp
  moreover have "\<forall>f \<in> set (bt_values (ft_frames cyclic_frames)). \<not> dangling_frame cyclic_frames f"
    by code_simp
  ultimately show ?thesis
    using cyclic_snapshot_is_accepted_and_diverges
      [of "\<lambda>_ :: unit. Some cyclic_frames" "()" cyclic_frames 1] by simp
qed

text \<open>
  Frames may query and act on one another exactly when both exist and the serialised origins of
  their URLs agree. Every opaque origin is serialised alike, so two frames without a tuple origin
  reach one another although their origins are not the same.
\<close>

lemma frame_access_compares_serialised_origins:
  assumes "frame_step\<^sup>*\<^sup>* (FrameTree_new fresh url) t"
  shows "FrameTree_can_query t a b = Inr () \<longleftrightarrow>
    (\<exists>f g. FrameTree_get t a = Some f \<and> FrameTree_get t b = Some g \<and>
       url_origin_ascii (fr_url f) = url_origin_ascii (fr_url g))"
    and "FrameTree_can_action t a b = FrameTree_can_query t a b"
  using tree_okD(5) [OF built_tree_ok [OF assms]]
  by (auto simp: FrameTree_can_query_def FrameTree_can_action_def FrameTree_require_access_def
      FrameTree_can_access_def FrameTree_get_def frame_ok_def split: option.splits)

lemma opaque_origins_reach_one_another:
  assumes "frame_step\<^sup>*\<^sup>* (FrameTree_new fresh url) t"
    and "FrameTree_get t a = Some f" "FrameTree_get t b = Some g"
    and "url_origin (fr_url f) = Opaque" "url_origin (fr_url g) = Opaque"
    and "\<And>u :: Url. url_origin u = Opaque \<Longrightarrow> url_origin_ascii u = ''null''"
  shows "FrameTree_can_query t a b = Inr () \<and> \<not> origin_eq (url_origin (fr_url f)) (url_origin (fr_url g))"
  using assms(2-5) assms(6) [OF assms(4)] assms(6) [OF assms(5)]
    frame_access_compares_serialised_origins(1) [OF assms(1), of a b] by simp

end
