(* ===== verification/Navigation.thy ===== *)
theory Navigation
  imports Web
begin

section \<open>Navigation history of a tab\<close>

text \<open>
  The crate \<open>crates/navigation\<close>: the history of one tab, an array with an index into it, its loading
  status and a generation counter. The abstract history is a zipper, the URLs behind, the current
  one and the URLs ahead; \<open>nav_abs\<close> relates the two and the lemmas \<open>start_refines\<close>, \<open>back_refines\<close>
  and \<open>forward_refines\<close> say that the array implements it.

  \<open>start\<close>, \<open>back\<close> and \<open>forward\<close> index the history; an index outside it is a panic, the outer \<open>None\<close>
  of their results. The operations never get there from \<open>new\<close> (\<open>nav_ok\<close> is kept).
\<close>

datatype NavigationStatus = Idle | Loading | Stopped | Failed string

record HistoryEntry =
  he_url :: Url
  he_title :: "string option"

record NavigationState =
  nav_current :: Url
  nav_history :: "HistoryEntry list"
  nav_index :: nat
  nav_status :: NavigationStatus
  nav_generation :: u64

definition NavigationState_new :: "Url \<Rightarrow> NavigationState" where
  "NavigationState_new url =
     \<lparr>nav_current = url, nav_history = [\<lparr>he_url = url, he_title = None\<rparr>], nav_index = 0,
      nav_status = Idle, nav_generation = 0\<rparr>"

definition same_document :: "Url \<Rightarrow> Url \<Rightarrow> bool" where
  "same_document current url =
     (origin_eq (url_origin current) (url_origin url) \<and> url_path current = url_path url
      \<and> url_query current = url_query url \<and> url_fragment current \<noteq> url_fragment url)"

text \<open>\<open>self.history[self.index].url = url\<close>\<close>

definition set_entry_url :: "Url \<Rightarrow> NavigationState \<Rightarrow> NavigationState option" where
  "set_entry_url url s =
     (if nav_index s < length (nav_history s)
      then Some (s\<lparr>nav_history := (nav_history s)[nav_index s := (nav_history s ! nav_index s)\<lparr>he_url := url\<rparr>]\<rparr>)
      else None)"

definition push_entry :: "Url \<Rightarrow> NavigationState \<Rightarrow> NavigationState" where
  "push_entry url s =
     s\<lparr>nav_history := take (nav_index s + 1) (nav_history s) @ [\<lparr>he_url = url, he_title = None\<rparr>],
       nav_index := nav_index s + 1\<rparr>"

definition NavigationState_start :: "Url \<Rightarrow> NavigationState \<Rightarrow> NavigationState option" where
  "NavigationState_start url s =
     (let s = s\<lparr>nav_status := Loading\<rparr>;
          moved = (if url_eq (nav_current s) url then set_entry_url url s
                   else if \<not> same_document (nav_current s) url then Some (push_entry url s)
                   else set_entry_url url s)
      in map_option (\<lambda>s. s\<lparr>nav_current := url, nav_generation := nav_generation s + 1\<rparr>) moved)"

definition NavigationState_complete :: "NavigationState \<Rightarrow> NavigationState" where
  "NavigationState_complete s = s\<lparr>nav_status := Idle\<rparr>"

definition NavigationState_fail :: "string \<Rightarrow> NavigationState \<Rightarrow> NavigationState" where
  "NavigationState_fail reason s = s\<lparr>nav_status := Failed reason\<rparr>"

definition NavigationState_reload :: "NavigationState \<Rightarrow> Url \<times> NavigationState" where
  "NavigationState_reload s =
     (nav_current s, s\<lparr>nav_status := Loading, nav_generation := nav_generation s + 1\<rparr>)"

definition NavigationState_stop :: "NavigationState \<Rightarrow> NavigationState" where
  "NavigationState_stop s = (if nav_status s = Loading then s\<lparr>nav_status := Stopped\<rparr> else s)"

text \<open>The common end of \<open>back\<close> and \<open>forward\<close>: go to an entry, or panic when there is none.\<close>

definition go_to :: "nat \<Rightarrow> NavigationState \<Rightarrow> (Url option \<times> NavigationState) option" where
  "go_to i s =
     (if i < length (nav_history s)
      then let url = he_url (nav_history s ! i)
           in Some (Some url, s\<lparr>nav_index := i, nav_current := url, nav_status := Loading,
                                nav_generation := nav_generation s + 1\<rparr>)
      else None)"

definition NavigationState_back :: "NavigationState \<Rightarrow> (Url option \<times> NavigationState) option" where
  "NavigationState_back s = (if nav_index s = 0 then Some (None, s) else go_to (nav_index s - 1) s)"

definition NavigationState_forward :: "NavigationState \<Rightarrow> (Url option \<times> NavigationState) option" where
  "NavigationState_forward s =
     (if nav_index s + 1 \<ge> length (nav_history s) then Some (None, s) else go_to (nav_index s + 1) s)"

definition NavigationState_can_back :: "NavigationState \<Rightarrow> bool" where
  "NavigationState_can_back s = (nav_index s > 0)"

definition NavigationState_can_forward :: "NavigationState \<Rightarrow> bool" where
  "NavigationState_can_forward s = (nav_index s + 1 < length (nav_history s))"

definition NavigationState_is_cross_origin :: "NavigationState \<Rightarrow> Url \<Rightarrow> bool" where
  "NavigationState_is_cross_origin s url = (\<not> origin_eq (url_origin (nav_current s)) (url_origin url))"

subsection \<open>The abstract history\<close>

definition nav_ok :: "NavigationState \<Rightarrow> bool" where
  "nav_ok s = (nav_index s < length (nav_history s) \<and> nav_current s = he_url (nav_history s ! nav_index s))"

type_synonym zipper = "Url list \<times> Url \<times> Url list"

definition nav_abs :: "NavigationState \<Rightarrow> zipper" where
  "nav_abs s =
     (rev (map he_url (take (nav_index s) (nav_history s))), nav_current s,
      map he_url (drop (nav_index s + 1) (nav_history s)))"

definition visit :: "Url \<Rightarrow> zipper \<Rightarrow> zipper" where
  "visit url z = (case z of (behind, cur, ahead) \<Rightarrow>
     if url_eq cur url \<or> same_document cur url then (behind, url, ahead) else (cur # behind, url, []))"

fun step_back :: "zipper \<Rightarrow> Url option \<times> zipper" where
  "step_back ([], cur, ahead) = (None, [], cur, ahead)"
| "step_back (b # behind, cur, ahead) = (Some b, behind, b, cur # ahead)"

fun step_forward :: "zipper \<Rightarrow> Url option \<times> zipper" where
  "step_forward (behind, cur, []) = (None, behind, cur, [])"
| "step_forward (behind, cur, a # ahead) = (Some a, cur # behind, a, ahead)"

lemma nav_split:
  assumes "i < length h"
  shows "take (Suc i) h = take i h @ [h ! i]" "drop i h = h ! i # drop (Suc i) h"
  using assms by (simp_all add: take_Suc_conv_app_nth Cons_nth_drop_Suc)

lemma new_refines [keeps]:
  "nav_ok (NavigationState_new url)" "nav_abs (NavigationState_new url) = ([], url, [])"
  by (simp_all add: nav_ok_def nav_abs_def NavigationState_new_def)

lemma start_refines:
  assumes "nav_ok s"
  shows "\<exists>s'. NavigationState_start url s = Some s' \<and> nav_ok s' \<and> nav_status s' = Loading \<and>
    nav_generation s' = nav_generation s + 1 \<and> nav_abs s' = visit url (nav_abs s)"
proof (cases "url_eq (nav_current s) url \<or> same_document (nav_current s) url")
  case True
  then show ?thesis
    using assms
    by (auto simp: NavigationState_start_def set_entry_url_def nav_ok_def nav_abs_def visit_def Let_def)
next
  case False
  then show ?thesis
    using assms nav_split(1) [of "nav_index s" "nav_history s"]
    by (auto simp: NavigationState_start_def push_entry_def nav_ok_def nav_abs_def visit_def Let_def nth_append)
qed

lemma back_refines:
  assumes "nav_ok s"
  shows "\<exists>u s'. NavigationState_back s = Some (u, s') \<and> nav_ok s' \<and> (u, nav_abs s') = step_back (nav_abs s)"
proof (cases "nav_index s")
  case 0
  then show ?thesis using assms by (simp add: NavigationState_back_def nav_abs_def)
next
  case (Suc i)
  then have i: "i < length (nav_history s)" "Suc i < length (nav_history s)"
    using assms by (auto simp: nav_ok_def)
  show ?thesis
    using assms Suc i nav_split(1) [OF i(1)] nav_split(2) [OF i(2)]
    by (auto simp: NavigationState_back_def go_to_def nav_ok_def nav_abs_def Let_def)
qed

lemma forward_refines:
  assumes "nav_ok s"
  shows "\<exists>u s'. NavigationState_forward s = Some (u, s') \<and> nav_ok s' \<and>
    (u, nav_abs s') = step_forward (nav_abs s)"
proof (cases "nav_index s + 1 \<ge> length (nav_history s)")
  case True
  then show ?thesis using assms by (simp add: NavigationState_forward_def nav_abs_def)
next
  case False
  then have i: "nav_index s < length (nav_history s)" "Suc (nav_index s) < length (nav_history s)" by auto
  show ?thesis
    using assms False nav_split(1) [OF i(1)] nav_split(2) [OF i(2)]
    by (auto simp: NavigationState_forward_def go_to_def nav_ok_def nav_abs_def Let_def)
qed

lemma nav_ok_status [keeps]:
  "nav_ok s \<Longrightarrow> nav_ok (NavigationState_complete s)"
  "nav_ok s \<Longrightarrow> nav_ok (NavigationState_fail reason s)"
  "nav_ok s \<Longrightarrow> nav_ok (snd (NavigationState_reload s))"
  "nav_ok s \<Longrightarrow> nav_ok (NavigationState_stop s)"
  by (simp_all add: nav_ok_def NavigationState_complete_def NavigationState_fail_def
      NavigationState_reload_def NavigationState_stop_def)

lemma nav_abs_status [simp]:
  "nav_abs (NavigationState_complete s) = nav_abs s"
  "nav_abs (NavigationState_fail reason s) = nav_abs s"
  "nav_abs (snd (NavigationState_reload s)) = nav_abs s"
  "nav_abs (NavigationState_stop s) = nav_abs s"
  by (simp_all add: nav_abs_def NavigationState_complete_def NavigationState_fail_def
      NavigationState_reload_def NavigationState_stop_def)

subsection \<open>Runs\<close>

datatype NavOp = NavStart Url | NavBack | NavForward | NavReload | NavComplete | NavFail string | NavStop

fun nav_apply :: "NavOp \<Rightarrow> NavigationState \<Rightarrow> (Url option \<times> NavigationState) option" where
  "nav_apply (NavStart url) s = map_option (Pair None) (NavigationState_start url s)"
| "nav_apply NavBack s = NavigationState_back s"
| "nav_apply NavForward s = NavigationState_forward s"
| "nav_apply NavReload s = (case NavigationState_reload s of (u, s') \<Rightarrow> Some (Some u, s'))"
| "nav_apply NavComplete s = Some (None, NavigationState_complete s)"
| "nav_apply (NavFail reason) s = Some (None, NavigationState_fail reason s)"
| "nav_apply NavStop s = Some (None, NavigationState_stop s)"

fun nav_run :: "NavOp list \<Rightarrow> NavigationState \<Rightarrow> (Url option list \<times> NavigationState) option" where
  "nav_run [] s = Some ([], s)"
| "nav_run (x # xs) s =
     (case nav_apply x s of
        None \<Rightarrow> None
      | Some (u, s') \<Rightarrow> map_option (\<lambda>(us, s). (u # us, s)) (nav_run xs s'))"

fun zip_apply :: "NavOp \<Rightarrow> zipper \<Rightarrow> Url option \<times> zipper" where
  "zip_apply (NavStart url) z = (None, visit url z)"
| "zip_apply NavBack z = step_back z"
| "zip_apply NavForward z = step_forward z"
| "zip_apply NavReload z = (Some (fst (snd z)), z)"
| "zip_apply _ z = (None, z)"

fun zip_run :: "NavOp list \<Rightarrow> zipper \<Rightarrow> Url option list \<times> zipper" where
  "zip_run [] z = ([], z)"
| "zip_run (x # xs) z =
     (let (u, z') = zip_apply x z; (us, z'') = zip_run xs z' in (u # us, z''))"

lemma nav_apply_refines:
  "nav_ok s \<Longrightarrow> \<exists>u s'. nav_apply x s = Some (u, s') \<and> nav_ok s' \<and> (u, nav_abs s') = zip_apply x (nav_abs s)"
proof (cases x)
  case (NavStart url)
  assume "nav_ok s"
  from start_refines [OF this, of url] show ?thesis by (auto simp: NavStart)
next
  case NavReload
  assume "nav_ok s"
  then show ?thesis
    using nav_ok_status(3) [of s] nav_abs_status(3) [of s]
    by (simp add: NavReload NavigationState_reload_def nav_abs_def)
qed (simp_all add: back_refines forward_refines nav_ok_status)

lemma nav_run_refines:
  "nav_ok s \<Longrightarrow> \<exists>us s'. nav_run xs s = Some (us, s') \<and> nav_ok s' \<and> (us, nav_abs s') = zip_run xs (nav_abs s)"
proof (induction xs arbitrary: s)
  case (Cons x xs)
  from nav_apply_refines [OF Cons(2), of x] obtain u t where t: "nav_apply x s = Some (u, t)" "nav_ok t"
    "zip_apply x (nav_abs s) = (u, nav_abs t)" by auto
  from Cons(1) [OF t(2)] obtain us r where "nav_run xs t = Some (us, r)" "nav_ok r"
    "zip_run xs (nav_abs t) = (us, nav_abs r)" by auto
  with t show ?case by simp
qed simp

text \<open>
  C16: from a new tab, any sequence of navigations, steps back and forward, reloads, completions,
  failures and stops runs without an index out of range, answers exactly what the zipper of URLs
  answers, and ends in the zipper's history, with the current URL the one at the index.
\<close>

theorem navigation_implements_the_history_zipper:
  "\<exists>us s. nav_run xs (NavigationState_new url) = Some (us, s) \<and> nav_ok s \<and>
     zip_run xs ([], url, []) = (us, nav_abs s)"
proof -
  from nav_run_refines [OF new_refines(1) [of url], of xs] show ?thesis
    unfolding new_refines(2) by (metis)
qed

end
