(* ===== verification/Tabs.thy ===== *)
theory Tabs
  imports Navigation
begin

section \<open>Tabs\<close>

text \<open>
  The crate \<open>crates/tabs\<close>: the tabs of a workspace in identifier order, which one is active, and the
  scheduling policy that follows from it. The manager's own record of the active tab and the three
  fields of every tab that depend on it must agree; \<open>flags_ok\<close> says so and every operation keeps it.

  A fresh identifier is an argument of \<open>open\<close>. \<open>get_mut\<close> hands out a mutable reference: it takes the
  function the borrower applies. \<open>navigate\<close>, \<open>back\<close> and \<open>forward\<close> inherit the panic of the history
  index as an outer \<open>None\<close>. The serde decoder of \<open>from_json\<close> is an argument.
\<close>

type_synonym TabId = uuid

record TabExecutionPolicy =
  max_tasks_per_tick :: u32
  minimum_timer_interval_millis :: u32

record Tab =
  tab_id :: TabId
  tab_profile :: ProfileId
  tab_navigation :: NavigationState
  tab_active :: bool
  tab_background :: bool
  tab_generation :: u64
  tab_execution :: TabExecutionPolicy

definition TabExecutionPolicy_foreground :: TabExecutionPolicy where
  "TabExecutionPolicy_foreground = \<lparr>max_tasks_per_tick = 1000, minimum_timer_interval_millis = 16\<rparr>"

definition TabExecutionPolicy_background :: TabExecutionPolicy where
  "TabExecutionPolicy_background = \<lparr>max_tasks_per_tick = 50, minimum_timer_interval_millis = 1000\<rparr>"

record TabSnapshot =
  ts_id :: TabId
  ts_profile :: ProfileId
  ts_url :: Url
  ts_generation :: u64
  ts_active :: bool
  ts_background :: bool
  ts_execution :: TabExecutionPolicy

record TabManager =
  tm_tabs :: "(TabId, Tab) BTreeMap"
  tm_active :: "TabId option"

definition TabManager_default :: TabManager where
  "TabManager_default = \<lparr>tm_tabs = [], tm_active = None\<rparr>"

definition TabManager_open :: "TabId \<Rightarrow> ProfileId \<Rightarrow> Url \<Rightarrow> TabManager \<Rightarrow> TabId \<times> TabManager" where
  "TabManager_open fresh profile url m =
     (let active = (tm_active m = None);
          m' = (if active then m\<lparr>tm_active := Some fresh\<rparr> else m);
          tab = \<lparr>tab_id = fresh, tab_profile = profile, tab_navigation = NavigationState_new url,
                 tab_active = active, tab_background = \<not> active, tab_generation = 0,
                 tab_execution = (if active then TabExecutionPolicy_foreground
                                  else TabExecutionPolicy_background)\<rparr>
      in (fresh, m'\<lparr>tm_tabs := bt_insert fresh tab (tm_tabs m')\<rparr>))"

definition TabManager_get :: "TabManager \<Rightarrow> TabId \<Rightarrow> Tab option" where
  "TabManager_get m i = bt_get (tm_tabs m) i"

definition TabManager_get_mut :: "TabId \<Rightarrow> (Tab \<Rightarrow> Tab) \<Rightarrow> TabManager \<Rightarrow> TabManager" where
  "TabManager_get_mut i f m = m\<lparr>tm_tabs := bt_adjust i f (tm_tabs m)\<rparr>"

text \<open>The common end of the navigating operations: complete, and count a generation.\<close>

definition moved_to :: "NavigationState \<Rightarrow> Tab \<Rightarrow> Tab" where
  "moved_to nav tab = tab\<lparr>tab_navigation := NavigationState_complete nav, tab_generation := tab_generation tab + 1\<rparr>"

definition TabManager_navigate :: "TabId \<Rightarrow> Url \<Rightarrow> TabManager \<Rightarrow> (Url option \<times> TabManager) option" where
  "TabManager_navigate i url m =
     (case bt_get (tm_tabs m) i of
        None \<Rightarrow> Some (None, m)
      | Some tab \<Rightarrow>
          (case NavigationState_start url (tab_navigation tab) of
             None \<Rightarrow> None
           | Some nav \<Rightarrow> Some (Some url, TabManager_get_mut i (moved_to nav) m)))"

definition TabManager_back :: "TabId \<Rightarrow> TabManager \<Rightarrow> (Url option \<times> TabManager) option" where
  "TabManager_back i m =
     (case bt_get (tm_tabs m) i of
        None \<Rightarrow> Some (None, m)
      | Some tab \<Rightarrow>
          (case NavigationState_back (tab_navigation tab) of
             None \<Rightarrow> None
           | Some (None, nav) \<Rightarrow> Some (None, m)
           | Some (Some url, nav) \<Rightarrow> Some (Some url, TabManager_get_mut i (moved_to nav) m)))"

definition TabManager_forward :: "TabId \<Rightarrow> TabManager \<Rightarrow> (Url option \<times> TabManager) option" where
  "TabManager_forward i m =
     (case bt_get (tm_tabs m) i of
        None \<Rightarrow> Some (None, m)
      | Some tab \<Rightarrow>
          (case NavigationState_forward (tab_navigation tab) of
             None \<Rightarrow> None
           | Some (None, nav) \<Rightarrow> Some (None, m)
           | Some (Some url, nav) \<Rightarrow> Some (Some url, TabManager_get_mut i (moved_to nav) m)))"

definition set_flags :: "bool \<Rightarrow> Tab \<Rightarrow> Tab" where
  "set_flags active tab =
     tab\<lparr>tab_active := active, tab_background := \<not> active,
         tab_execution := (if active then TabExecutionPolicy_foreground else TabExecutionPolicy_background)\<rparr>"

definition TabManager_activate :: "TabId \<Rightarrow> TabManager \<Rightarrow> bool \<times> TabManager" where
  "TabManager_activate i m =
     (if \<not> bt_contains_key (tm_tabs m) i then (False, m)
      else (True, m\<lparr>tm_tabs := bt_adjust i (set_flags True) (bt_map_values (set_flags False) (tm_tabs m)),
                   tm_active := Some i\<rparr>))"

definition TabManager_close :: "TabId \<Rightarrow> TabManager \<Rightarrow> Tab option \<times> TabManager" where
  "TabManager_close i m =
     (let removed = bt_get (tm_tabs m) i;
          m' = m\<lparr>tm_tabs := bt_remove i (tm_tabs m)\<rparr>
      in if tm_active m' = Some i
         then let m'' = m'\<lparr>tm_active := bt_first_key (tm_tabs m')\<rparr>
              in (case tm_active m'' of
                    None \<Rightarrow> (removed, m'')
                  | Some active \<Rightarrow> (removed, snd (TabManager_activate active m'')))
         else (removed, m'))"

definition TabManager_active :: "TabManager \<Rightarrow> Tab option" where
  "TabManager_active m = Option.bind (tm_active m) (bt_get (tm_tabs m))"

definition TabManager_list :: "TabManager \<Rightarrow> Tab list" where
  "TabManager_list m = bt_values (tm_tabs m)"

definition TabManager_for_profile :: "TabManager \<Rightarrow> ProfileId \<Rightarrow> Tab list" where
  "TabManager_for_profile m profile = [tab \<leftarrow> bt_values (tm_tabs m). tab_profile tab = profile]"

definition TabManager_active_id :: "TabManager \<Rightarrow> TabId option" where
  "TabManager_active_id m = tm_active m"

definition TabManager_snapshot :: "TabManager \<Rightarrow> TabId \<Rightarrow> TabSnapshot option" where
  "TabManager_snapshot m i =
     map_option (\<lambda>tab. \<lparr>ts_id = tab_id tab, ts_profile = tab_profile tab,
        ts_url = nav_current (tab_navigation tab), ts_generation = tab_generation tab,
        ts_active = tab_active tab, ts_background = tab_background tab,
        ts_execution = tab_execution tab\<rparr>) (bt_get (tm_tabs m) i)"

definition TabManager_agent_scope :: "TabManager \<Rightarrow> ProfileId \<Rightarrow> TabSnapshot list" where
  "TabManager_agent_scope m profile =
     List.map_filter (\<lambda>tab. TabManager_snapshot m (tab_id tab)) (TabManager_for_profile m profile)"

definition TabManager_normalize_active :: "TabManager \<Rightarrow> TabManager" where
  "TabManager_normalize_active m =
     (let kept = (case tm_active m of None \<Rightarrow> None
                  | Some i \<Rightarrow> if bt_contains_key (tm_tabs m) i then Some i else None);
          active = (case kept of None \<Rightarrow> bt_first_key (tm_tabs m) | Some i \<Rightarrow> Some i)
      in m\<lparr>tm_active := active,
           tm_tabs := bt_map_values (\<lambda>tab. set_flags (active = Some (tab_id tab)) tab) (tm_tabs m)\<rparr>)"

definition TabManager_from_json :: "('text \<Rightarrow> 'err + TabManager) \<Rightarrow> 'text \<Rightarrow> 'err + TabManager" where
  "TabManager_from_json decode val =
     (case decode val of Inl e \<Rightarrow> Inl e | Inr m \<Rightarrow> Inr (TabManager_normalize_active m))"

subsection \<open>One active tab\<close>

definition keyed_tabs :: "TabManager \<Rightarrow> bool" where
  "keyed_tabs m = (bt_ok (tm_tabs m) \<and> (\<forall>k tab. bt_get (tm_tabs m) k = Some tab \<longrightarrow> tab_id tab = k))"

definition flags_ok :: "TabManager \<Rightarrow> bool" where
  "flags_ok m =
     ((\<forall>i. tm_active m = Some i \<longrightarrow> bt_contains_key (tm_tabs m) i)
      \<and> (tm_active m = None \<longrightarrow> tm_tabs m = [])
      \<and> (\<forall>k tab. bt_get (tm_tabs m) k = Some tab \<longrightarrow> tab = set_flags (tm_active m = Some k) tab))"

definition navs_ok :: "TabManager \<Rightarrow> bool" where
  "navs_ok m = (\<forall>k tab. bt_get (tm_tabs m) k = Some tab \<longrightarrow> nav_ok (tab_navigation tab))"

definition tabs_ok :: "TabManager \<Rightarrow> bool" where
  "tabs_ok m = (keyed_tabs m \<and> flags_ok m \<and> navs_ok m)"

lemma set_flags_simps [simp]:
  "tab_id (set_flags b tab) = tab_id tab"
  "tab_profile (set_flags b tab) = tab_profile tab"
  "tab_navigation (set_flags b tab) = tab_navigation tab"
  "tab_active (set_flags b tab) = b"
  "set_flags b (set_flags c tab) = set_flags b tab"
  by (simp_all add: set_flags_def)

lemma first_key_in: "bt_first_key m = Some k \<Longrightarrow> bt_contains_key m k"
  by (cases m) (auto simp: bt_first_key_def bt_contains_key_iff)

lemma first_key_None [simp]: "bt_first_key m = None \<longleftrightarrow> m = []"
  by (cases m) (auto simp: bt_first_key_def)

lemma first_key_empty [simp]: "bt_first_key [] = None"
  by simp

lemma map_values_empty [simp]: "bt_map_values f m = [] \<longleftrightarrow> m = []"
  by (simp add: bt_map_values_def)

lemma adjust_empty [simp]: "bt_adjust k f m = [] \<longleftrightarrow> m = []"
  by (simp add: bt_adjust_def)

lemma remove_empty [simp]: "bt_remove k [] = []"
  by (simp add: bt_remove_def)

lemma tabs_ok_default [keeps]: "tabs_ok TabManager_default"
  by (simp add: tabs_ok_def keyed_tabs_def flags_ok_def navs_ok_def TabManager_default_def)

lemma activate_get:
  "bt_contains_key (tm_tabs m) i \<Longrightarrow>
   bt_get (tm_tabs (snd (TabManager_activate i m))) k = map_option (set_flags (i = k)) (bt_get (tm_tabs m) k)"
  by (auto simp: TabManager_activate_def option.map_comp comp_def)

lemma activate_active: "bt_contains_key (tm_tabs m) i \<Longrightarrow> tm_active (snd (TabManager_activate i m)) = Some i"
  by (simp add: TabManager_activate_def)

lemma tabs_ok_activated:
  assumes "keyed_tabs m" "navs_ok m" "bt_contains_key (tm_tabs m) i"
  shows "tabs_ok (snd (TabManager_activate i m))"
proof -
  note get = activate_get [OF assms(3)] and act = activate_active [OF assms(3)]
  have "bt_ok (tm_tabs (snd (TabManager_activate i m)))"
    using assms(1,3) by (simp add: TabManager_activate_def keyed_tabs_def)
  then have "keyed_tabs (snd (TabManager_activate i m))"
    using assms(1) by (auto simp: keyed_tabs_def get)
  moreover have "flags_ok (snd (TabManager_activate i m))"
    using assms(3) by (auto simp: flags_ok_def get act bt_contains_key_def)
  moreover have "navs_ok (snd (TabManager_activate i m))"
    using assms(2) by (auto simp: navs_ok_def get)
  ultimately show ?thesis by (simp add: tabs_ok_def)
qed

lemma tabs_ok_activate [keeps]: "tabs_ok m \<Longrightarrow> tabs_ok (snd (TabManager_activate i m))"
proof (cases "bt_contains_key (tm_tabs m) i")
  case True
  assume "tabs_ok m"
  then show ?thesis using True by (intro tabs_ok_activated) (simp_all add: tabs_ok_def)
qed (simp add: TabManager_activate_def)

lemma tabs_ok_close [keeps]: "tabs_ok m \<Longrightarrow> tabs_ok (snd (TabManager_close i m))"
proof -
  assume m: "tabs_ok m"
  let ?rest = "m\<lparr>tm_tabs := bt_remove i (tm_tabs m)\<rparr>"
  have rest: "keyed_tabs (?rest\<lparr>tm_active := a\<rparr>)" "navs_ok (?rest\<lparr>tm_active := a\<rparr>)" for a
    using m by (auto simp: tabs_ok_def keyed_tabs_def navs_ok_def)
  show ?thesis
  proof (cases "tm_active m = Some i")
    case False
    then have "flags_ok ?rest"
      using m by (auto simp: tabs_ok_def flags_ok_def bt_contains_key_def)
    moreover have "keyed_tabs ?rest" "navs_ok ?rest"
      using m by (auto simp: tabs_ok_def keyed_tabs_def navs_ok_def)
    ultimately show ?thesis using False by (simp add: TabManager_close_def tabs_ok_def)
  next
    case True
    show ?thesis
    proof (cases "bt_first_key (bt_remove i (tm_tabs m))")
      case None
      then show ?thesis
        using True rest [of None] by (simp add: TabManager_close_def tabs_ok_def flags_ok_def Let_def)
    next
      case (Some k)
      then show ?thesis
        using True tabs_ok_activated [OF rest [of "Some k"], of k] first_key_in [OF Some]
        by (simp add: TabManager_close_def Let_def)
    qed
  qed
qed

lemma tabs_ok_open [keeps]:
  "tabs_ok m \<Longrightarrow> bt_get (tm_tabs m) fresh = None \<Longrightarrow> tabs_ok (snd (TabManager_open fresh profile url m))"
proof -
  assume m: "tabs_ok m" and new: "bt_get (tm_tabs m) fresh = None"
  let ?m = "snd (TabManager_open fresh profile url m)"
  have "keyed_tabs ?m" "navs_ok ?m"
    using m by (auto simp: tabs_ok_def keyed_tabs_def navs_ok_def TabManager_open_def Let_def new_refines
        split: if_splits)
  moreover have "flags_ok ?m"
  proof (cases "tm_active m")
    case None
    then have "tm_tabs m = []" using m by (simp add: tabs_ok_def flags_ok_def)
    then show ?thesis
      using None by (simp add: flags_ok_def TabManager_open_def Let_def bt_contains_key_def set_flags_def)
  next
    case (Some a)
    then show ?thesis
      using m new
      by (auto simp: tabs_ok_def flags_ok_def TabManager_open_def Let_def bt_contains_key_def set_flags_def
          split: if_splits)
  qed
  ultimately show ?thesis by (simp add: tabs_ok_def)
qed

text \<open>A borrower that keeps identity and flags and leaves the history well-formed.\<close>

definition tab_respects :: "Tab \<Rightarrow> Tab \<Rightarrow> bool" where
  "tab_respects tab tab' =
     (tab_id tab' = tab_id tab \<and> tab_active tab' = tab_active tab \<and> tab_background tab' = tab_background tab
      \<and> tab_execution tab' = tab_execution tab \<and> nav_ok (tab_navigation tab'))"

lemma set_flags_respects: "tab_respects tab tab' \<Longrightarrow> tab = set_flags b tab \<Longrightarrow> tab' = set_flags b tab'"
  by (cases tab; cases tab') (auto simp: tab_respects_def set_flags_def)

lemma tabs_ok_get_mut [keeps]:
  assumes "tabs_ok m" "\<And>tab. bt_get (tm_tabs m) i = Some tab \<Longrightarrow> tab_respects tab (f tab)"
  shows "tabs_ok (TabManager_get_mut i f m)"
proof -
  have "keyed_tabs (TabManager_get_mut i f m)" "navs_ok (TabManager_get_mut i f m)"
    using assms by (auto simp: tabs_ok_def keyed_tabs_def navs_ok_def TabManager_get_mut_def tab_respects_def)
  moreover have "flags_ok (TabManager_get_mut i f m)"
    unfolding flags_ok_def
  proof (intro conjI allI impI)
    fix k tab assume k: "bt_get (tm_tabs (TabManager_get_mut i f m)) k = Some tab"
    then obtain old where old: "bt_get (tm_tabs m) k = Some old" "tab = (if k = i then f old else old)"
      by (auto simp: TabManager_get_mut_def split: if_splits)
    with assms(1) have "old = set_flags (tm_active m = Some k) old" by (simp add: tabs_ok_def flags_ok_def)
    with old assms(2) show "tab = set_flags (tm_active (TabManager_get_mut i f m) = Some k) tab"
      using set_flags_respects by (auto simp: TabManager_get_mut_def)
  qed (use assms(1) in \<open>auto simp: tabs_ok_def flags_ok_def TabManager_get_mut_def bt_contains_key_def\<close>)
  ultimately show ?thesis by (simp add: tabs_ok_def)
qed

text \<open>The three navigating operations never panic and are such borrowers.\<close>

lemma respects_moved: "nav_ok nav \<Longrightarrow> tab_respects tab (moved_to nav tab)"
  by (simp add: tab_respects_def moved_to_def nav_ok_status)

lemma tabs_ok_moved: "tabs_ok m \<Longrightarrow> nav_ok nav \<Longrightarrow> tabs_ok (TabManager_get_mut i (moved_to nav) m)"
  by (intro tabs_ok_get_mut respects_moved)

lemma tab_nav_ok: "tabs_ok m \<Longrightarrow> bt_get (tm_tabs m) i = Some tab \<Longrightarrow> nav_ok (tab_navigation tab)"
  by (simp add: tabs_ok_def navs_ok_def)

lemma tabs_ok_navigate:
  assumes "tabs_ok m"
  shows "\<exists>u m'. TabManager_navigate i url m = Some (u, m') \<and> tabs_ok m'"
proof (cases "bt_get (tm_tabs m) i")
  case (Some tab)
  from start_refines [OF tab_nav_ok [OF assms Some], of url] Some tabs_ok_moved [OF assms] show ?thesis
    by (auto simp: TabManager_navigate_def)
qed (simp add: assms TabManager_navigate_def)

lemma tabs_ok_back:
  assumes "tabs_ok m"
  shows "\<exists>u m'. TabManager_back i m = Some (u, m') \<and> tabs_ok m'"
proof (cases "bt_get (tm_tabs m) i")
  case (Some tab)
  from back_refines [OF tab_nav_ok [OF assms Some]] obtain u nav where
    "NavigationState_back (tab_navigation tab) = Some (u, nav)" "nav_ok nav" by blast
  with Some tabs_ok_moved [OF assms] show ?thesis
    by (cases u) (auto simp: assms TabManager_back_def)
qed (simp add: assms TabManager_back_def)

lemma tabs_ok_forward:
  assumes "tabs_ok m"
  shows "\<exists>u m'. TabManager_forward i m = Some (u, m') \<and> tabs_ok m'"
proof (cases "bt_get (tm_tabs m) i")
  case (Some tab)
  from forward_refines [OF tab_nav_ok [OF assms Some]] obtain u nav where
    "NavigationState_forward (tab_navigation tab) = Some (u, nav)" "nav_ok nav" by blast
  with Some tabs_ok_moved [OF assms] show ?thesis
    by (cases u) (auto simp: assms TabManager_forward_def)
qed (simp add: assms TabManager_forward_def)

lemma tabs_ok_normalize [keeps]:
  assumes "keyed_tabs m" "navs_ok m"
  shows "tabs_ok (TabManager_normalize_active m)"
proof -
  let ?n = "TabManager_normalize_active m"
  have get: "bt_get (tm_tabs ?n) k =
      map_option (\<lambda>tab. set_flags (tm_active ?n = Some (tab_id tab)) tab) (bt_get (tm_tabs m) k)" for k
    by (simp add: TabManager_normalize_active_def Let_def)
  have "tm_active ?n = Some i \<Longrightarrow> bt_contains_key (tm_tabs m) i" for i
    by (auto simp: TabManager_normalize_active_def Let_def split: option.splits if_splits dest: first_key_in)
  moreover have "tm_active ?n = None \<Longrightarrow> tm_tabs m = []"
    by (auto simp: TabManager_normalize_active_def Let_def split: option.splits if_splits)
  moreover have "tab_id tab = k" if "bt_get (tm_tabs m) k = Some tab" for k tab
    using assms(1) that by (simp add: keyed_tabs_def)
  ultimately have "flags_ok ?n" using get
    by (fastforce simp: flags_ok_def bt_contains_key_def bt_get_None_iff TabManager_normalize_active_def Let_def)
  moreover have "bt_ok (tm_tabs ?n)"
    using assms(1) by (simp add: keyed_tabs_def TabManager_normalize_active_def Let_def)
  ultimately show ?thesis
    using assms by (auto simp: tabs_ok_def keyed_tabs_def navs_ok_def get)
qed

subsection \<open>Properties\<close>

inductive tab_step :: "TabManager \<Rightarrow> TabManager \<Rightarrow> bool" where
  opened: "bt_get (tm_tabs m) fresh = None \<Longrightarrow> tab_step m (snd (TabManager_open fresh profile url m))"
| navigated: "TabManager_navigate i url m = Some (u, m') \<Longrightarrow> tab_step m m'"
| went_back: "TabManager_back i m = Some (u, m') \<Longrightarrow> tab_step m m'"
| went_forward: "TabManager_forward i m = Some (u, m') \<Longrightarrow> tab_step m m'"
| activated: "tab_step m (snd (TabManager_activate i m))"
| closed: "tab_step m (snd (TabManager_close i m))"
| borrowed: "(\<And>tab. bt_get (tm_tabs m) i = Some tab \<Longrightarrow> tab_respects tab (f tab)) \<Longrightarrow>
    tab_step m (TabManager_get_mut i f m)"

inductive_cases tab_stepE: "tab_step m m'"

lemma tab_step_keeps: "tab_step m m' \<Longrightarrow> tabs_ok m \<Longrightarrow> tabs_ok m'"
proof (induction rule: tab_step.induct)
  case (navigated i url m u m')
  with tabs_ok_navigate [of m i url] show ?case by auto
next
  case (went_back i m u m')
  with tabs_ok_back [of m i] show ?case by auto
next
  case (went_forward i m u m')
  with tabs_ok_forward [of m i] show ?case by auto
qed (simp_all add: tabs_ok_open tabs_ok_activate tabs_ok_close tabs_ok_get_mut)

interpretation tab_manager: kept_invariant tab_step tabs_ok
  by unfold_locales (rule tab_step_keeps)


definition sample_tab_url :: Url where
  "sample_tab_url = \<lparr>url_as_str = ''about:blank'', url_scheme = ''about'', url_username = [],
     url_password = None, url_host_str = None, url_port_or_known_default = None, url_path = ''blank'',
     url_query = None, url_fragment = None, url_origin = Opaque, url_origin_ascii = ''null''\<rparr>"

definition sample_tabs :: TabManager where
  "sample_tabs = snd (TabManager_open 1 7 sample_tab_url TabManager_default)"


text \<open>Closing the active tab makes the first remaining tab in identifier order the active one.\<close>

lemma close_activates_the_first_remaining:
  "tm_active m = Some i \<Longrightarrow> tm_active (snd (TabManager_close i m)) = bt_first_key (bt_remove i (tm_tabs m))"
  by (auto simp: TabManager_close_def Let_def activate_active first_key_in split: option.split)

text \<open>An agent scoped to a profile sees exactly that profile's tabs.\<close>

lemma agent_scope_is_the_profile:
  assumes "tabs_ok m"
  shows "snap \<in> set (TabManager_agent_scope m profile) \<longleftrightarrow>
    (\<exists>i. TabManager_snapshot m i = Some snap \<and> ts_profile snap = profile)"
proof -
  have keyed: "bt_get (tm_tabs m) (tab_id tab) = Some tab"
    if "tab \<in> set (bt_values (tm_tabs m))" for tab
  proof -
    from that obtain k where k: "(k, tab) \<in> set (tm_tabs m)" by auto
    with assms have "bt_get (tm_tabs m) k = Some tab" by (simp add: tabs_ok_def keyed_tabs_def bt_in_get)
    with assms show ?thesis by (simp add: tabs_ok_def keyed_tabs_def)
  qed
  have in_vals: "tab \<in> set (bt_values (tm_tabs m)) \<and> tab_id tab = i"
    if "bt_get (tm_tabs m) i = Some tab" for tab i
    using assms that bt_get_Some_in [OF that] by (force simp: tabs_ok_def keyed_tabs_def)
  have "snap \<in> set (TabManager_agent_scope m profile) \<longleftrightarrow>
    (\<exists>tab \<in> set (bt_values (tm_tabs m)). tab_profile tab = profile \<and> TabManager_snapshot m (tab_id tab) = Some snap)"
    by (force simp: TabManager_agent_scope_def TabManager_for_profile_def List.map_filter_def)
  also have "\<dots> \<longleftrightarrow> (\<exists>i tab. bt_get (tm_tabs m) i = Some tab \<and> tab_profile tab = profile \<and>
      TabManager_snapshot m i = Some snap)"
    using keyed in_vals by metis
  also have "\<dots> \<longleftrightarrow> (\<exists>i. TabManager_snapshot m i = Some snap \<and> ts_profile snap = profile)"
  proof -
    have "TabManager_snapshot m i = Some snap \<Longrightarrow>
      (\<exists>tab. bt_get (tm_tabs m) i = Some tab \<and> tab_profile tab = profile) \<longleftrightarrow> ts_profile snap = profile" for i
      by (cases "bt_get (tm_tabs m) i") (auto simp: TabManager_snapshot_def)
    then show ?thesis by blast
  qed
  finally show ?thesis .
qed

text \<open>
  \<open>from_json\<close> sets the flags from the identifier inside each tab and not from the key it is filed
  under: a snapshot that repeats an identifier comes out with two focused tabs.
\<close>

definition twin_tabs :: TabManager where
  "twin_tabs = sample_tabs\<lparr>tm_tabs := map (\<lambda>k. (k, snd (hd (tm_tabs sample_tabs)))) [1, 2]\<rparr>"

lemma normalize_can_focus_two_tabs:
  "length [tab \<leftarrow> TabManager_list (TabManager_normalize_active twin_tabs). tab_active tab] = 2"
  by code_simp

end
