(* ===== verification/Workspace.thy ===== *)
theory Workspace
  imports Tabs
begin

section \<open>Workspaces\<close>

text \<open>
  The crate \<open>crates/workspace\<close>: the windows of a profile's workspace with the tabs attached to them,
  named locks and permissions, and checkpoints. The field \<open>tabs\<close> is public, so the steps of a
  workspace are its own operations and those of its tab manager, taken in any order.

  A \<open>BTreeSet<String>\<close> of which only membership is observed is a set. Fresh identifiers are arguments.
\<close>

type_synonym WorkspaceId = uuid
type_synonym WindowId = uuid

record Window =
  win_id :: WindowId
  win_tabs :: "TabId list"
  win_width :: u32
  win_height :: u32
  win_focused :: bool

record Workspace =
  ws_id :: WorkspaceId
  ws_profile :: ProfileId
  ws_tabs :: TabManager
  ws_windows :: "(WindowId, Window) BTreeMap"
  ws_locks :: "string set"
  ws_permissions :: "string set"

record WorkspaceCheckpoint =
  cp_id :: WorkspaceId
  cp_profile :: ProfileId
  cp_tabs :: TabManager
  cp_windows :: "(WindowId, Window) BTreeMap"
  cp_locks :: "string set"
  cp_permissions :: "string set"

datatype WorkspaceError = ProfileMismatch | TabProfileMismatch | InvalidCheckpoint | DuplicateTab

definition Workspace_new :: "WorkspaceId \<Rightarrow> ProfileId \<Rightarrow> Workspace" where
  "Workspace_new fresh profile =
     \<lparr>ws_id = fresh, ws_profile = profile, ws_tabs = TabManager_default, ws_windows = [],
      ws_locks = {}, ws_permissions = {}\<rparr>"

definition Workspace_create_window :: "WindowId \<Rightarrow> u32 \<Rightarrow> u32 \<Rightarrow> Workspace \<Rightarrow> WindowId \<times> Workspace" where
  "Workspace_create_window fresh width height w =
     (fresh, w\<lparr>ws_windows := bt_insert fresh
        \<lparr>win_id = fresh, win_tabs = [], win_width = width, win_height = height,
         win_focused = (ws_windows w = [])\<rparr> (ws_windows w)\<rparr>)"

definition attached :: "Workspace \<Rightarrow> TabId \<Rightarrow> bool" where
  "attached w tab = list_ex (\<lambda>window. list_ex (\<lambda>i. i = tab) (win_tabs window)) (bt_values (ws_windows w))"

definition Workspace_attach_tab :: "WindowId \<Rightarrow> TabId \<Rightarrow> Workspace \<Rightarrow> bool \<times> Workspace" where
  "Workspace_attach_tab window tab w =
     (case TabManager_get (ws_tabs w) tab of
        None \<Rightarrow> (False, w)
      | Some tab_record \<Rightarrow>
          if tab_profile tab_record \<noteq> ws_profile w then (False, w)
          else if attached w tab then (False, w)
          else if bt_contains_key (ws_windows w) window
               then (True, w\<lparr>ws_windows := bt_adjust window
                       (\<lambda>win. win\<lparr>win_tabs := win_tabs win @ [tab]\<rparr>) (ws_windows w)\<rparr>)
               else (False, w))"

definition Workspace_focus_window :: "WindowId \<Rightarrow> Workspace \<Rightarrow> bool \<times> Workspace" where
  "Workspace_focus_window i w =
     (if \<not> bt_contains_key (ws_windows w) i then (False, w)
      else (True, w\<lparr>ws_windows := bt_adjust i (\<lambda>win. win\<lparr>win_focused := True\<rparr>)
              (bt_map_values (\<lambda>win. win\<lparr>win_focused := False\<rparr>) (ws_windows w))\<rparr>))"

definition Workspace_close_window :: "WindowId \<Rightarrow> Workspace \<Rightarrow> Window option \<times> Workspace" where
  "Workspace_close_window i w =
     (let removed = bt_get (ws_windows w) i;
          w' = w\<lparr>ws_windows := bt_remove i (ws_windows w)\<rparr>
      in if (case removed of None \<Rightarrow> False | Some win \<Rightarrow> win_focused win)
         then (case bt_first_key (ws_windows w') of
                 None \<Rightarrow> (removed, w')
               | Some next \<Rightarrow> (removed, snd (Workspace_focus_window next w')))
         else (removed, w'))"

definition Workspace_acquire_lock :: "string \<Rightarrow> Workspace \<Rightarrow> bool \<times> Workspace" where
  "Workspace_acquire_lock resource w = (resource \<notin> ws_locks w, w\<lparr>ws_locks := insert resource (ws_locks w)\<rparr>)"

definition Workspace_release_lock :: "string \<Rightarrow> Workspace \<Rightarrow> bool \<times> Workspace" where
  "Workspace_release_lock resource w = (resource \<in> ws_locks w, w\<lparr>ws_locks := ws_locks w - {resource}\<rparr>)"

definition Workspace_is_locked :: "Workspace \<Rightarrow> string \<Rightarrow> bool" where
  "Workspace_is_locked w resource = (resource \<in> ws_locks w)"

definition Workspace_grant_permission :: "string \<Rightarrow> Workspace \<Rightarrow> bool \<times> Workspace" where
  "Workspace_grant_permission permission w =
     (permission \<notin> ws_permissions w, w\<lparr>ws_permissions := insert permission (ws_permissions w)\<rparr>)"

definition Workspace_revoke_permission :: "string \<Rightarrow> Workspace \<Rightarrow> bool \<times> Workspace" where
  "Workspace_revoke_permission permission w =
     (permission \<in> ws_permissions w, w\<lparr>ws_permissions := ws_permissions w - {permission}\<rparr>)"

definition Workspace_has_permission :: "Workspace \<Rightarrow> string \<Rightarrow> bool" where
  "Workspace_has_permission w permission = (permission \<in> ws_permissions w)"

definition Workspace_checkpoint :: "Workspace \<Rightarrow> WorkspaceCheckpoint" where
  "Workspace_checkpoint w =
     \<lparr>cp_id = ws_id w, cp_profile = ws_profile w, cp_tabs = ws_tabs w, cp_windows = ws_windows w,
      cp_locks = ws_locks w, cp_permissions = ws_permissions w\<rparr>"

text \<open>The nested loops of \<open>from_checkpoint\<close> over windows and their tabs, \<open>None\<close> on the early return.\<close>

fun attach_tabs :: "TabId set \<Rightarrow> TabId list \<Rightarrow> TabId set \<Rightarrow> TabId set option" where
  "attach_tabs tab_ids [] seen = Some seen"
| "attach_tabs tab_ids (tab # tabs) seen =
     (if tab \<notin> tab_ids \<or> tab \<in> seen then None else attach_tabs tab_ids tabs (insert tab seen))"

fun attach_windows :: "TabId set \<Rightarrow> Window list \<Rightarrow> TabId set \<Rightarrow> TabId set option" where
  "attach_windows tab_ids [] seen = Some seen"
| "attach_windows tab_ids (window # windows) seen =
     (case attach_tabs tab_ids (win_tabs window) seen of
        None \<Rightarrow> None
      | Some seen' \<Rightarrow> attach_windows tab_ids windows seen')"

definition Workspace_from_checkpoint :: "WorkspaceCheckpoint \<Rightarrow> ProfileId \<Rightarrow> WorkspaceError + Workspace" where
  "Workspace_from_checkpoint cp expected_profile =
     (if cp_profile cp \<noteq> expected_profile then Inl ProfileMismatch
      else if list_ex (\<lambda>tab. tab_profile tab \<noteq> expected_profile) (TabManager_list (cp_tabs cp))
      then Inl TabProfileMismatch
      else let tab_ids = set (map tab_id (TabManager_list (cp_tabs cp))) in
        if attach_windows tab_ids (bt_values (cp_windows cp)) {} = None then Inl InvalidCheckpoint
        else let focused = length [win \<leftarrow> bt_values (cp_windows cp). win_focused win] in
          if focused > 1 \<or> (focused = 0 \<and> cp_windows cp \<noteq> []) then Inl InvalidCheckpoint
          else Inr \<lparr>ws_id = cp_id cp, ws_profile = cp_profile cp, ws_tabs = cp_tabs cp,
                    ws_windows = cp_windows cp, ws_locks = cp_locks cp, ws_permissions = cp_permissions cp\<rparr>)"

subsection \<open>Counting in ordered maps\<close>

lemma bt_count_one:
  assumes "bt_ok m"
  shows "length (filter P (bt_values m)) = 1 \<longleftrightarrow> (\<exists>!k. \<exists>v. bt_get m k = Some v \<and> P v)"
proof -
  have "length (filter P (bt_values m)) = length (map fst [e \<leftarrow> m. P (snd e)])"
    by (induction m) auto
  also have "\<dots> = card (fst ` set [e \<leftarrow> m. P (snd e)])"
    using bt_ok_distinct [OF assms] by (metis distinct_card distinct_map_filter set_map)
  also have "fst ` set [e \<leftarrow> m. P (snd e)] = {k. \<exists>v. bt_get m k = Some v \<and> P v}"
    using assms by (force simp: bt_get_iff_in)
  finally show ?thesis by (simp add: card_1_singleton_iff Ex1_def set_eq_iff) blast
qed

text \<open>No tab is listed twice: neither within a window nor in two of them.\<close>

definition single_homes :: "(WindowId, Window) BTreeMap \<Rightarrow> bool" where
  "single_homes ws =
     ((\<forall>k win. bt_get ws k = Some win \<longrightarrow> distinct (win_tabs win)) \<and>
      (\<forall>k j win win' t. bt_get ws k = Some win \<longrightarrow> bt_get ws j = Some win' \<longrightarrow>
         t \<in> set (win_tabs win) \<longrightarrow> t \<in> set (win_tabs win') \<longrightarrow> k = j))"

lemma single_homesD:
  assumes "single_homes ws" "bt_get ws k = Some win"
  shows "distinct (win_tabs win)"
    and "bt_get ws j = Some win' \<Longrightarrow> t \<in> set (win_tabs win) \<Longrightarrow> t \<in> set (win_tabs win') \<Longrightarrow> k = j"
  using assms unfolding single_homes_def by blast+

lemma single_homes_Cons:
  assumes "single_homes ((i, w) # ws)" "bt_get ws i = None"
  shows "single_homes ws" "distinct (win_tabs w)"
    and "bt_get ws j = Some win \<Longrightarrow> t \<in> set (win_tabs w) \<Longrightarrow> t \<notin> set (win_tabs win)"
proof -
  have old: "bt_get ((i, w) # ws) k = Some win" if "bt_get ws k = Some win" for k win
    using that assms(2) by auto
  have new: "bt_get ((i, w) # ws) i = Some w" by simp
  show "distinct (win_tabs w)" using single_homesD(1) [OF assms(1) new] .
  show "single_homes ws"
    unfolding single_homes_def
  proof (intro conjI allI impI)
    show "distinct (win_tabs win)" if "bt_get ws k = Some win" for k win
      by (rule single_homesD(1) [OF assms(1) old [OF that]])
    show "k = j" if "bt_get ws k = Some win" "bt_get ws j = Some win'" "t \<in> set (win_tabs win)"
      "t \<in> set (win_tabs win')" for k j win win' t
      by (rule single_homesD(2) [OF assms(1) old [OF that(1)] old [OF that(2)] that(3,4)])
  qed
  show "bt_get ws j = Some win \<Longrightarrow> t \<in> set (win_tabs w) \<Longrightarrow> t \<notin> set (win_tabs win)"
    using single_homesD(2) [OF assms(1) new old] assms(2) by fastforce
qed

lemma bt_value_iff: "bt_ok m \<Longrightarrow> v \<in> set (bt_values m) \<longleftrightarrow> (\<exists>k. bt_get m k = Some v)"
  by (force simp: bt_get_iff_in)

lemma single_homes_distinct:
  "bt_ok ws \<Longrightarrow> single_homes ws \<Longrightarrow> distinct (concat (map win_tabs (bt_values ws)))"
proof (induction ws)
  case (Cons e ws)
  obtain i w where e: "e = (i, w)" by (cases e)
  have ok: "bt_ok ws" and new: "bt_get ws i = None" using Cons(2) by (auto simp: e bt_ok_Cons bt_get_None_iff)
  note home = single_homes_Cons [OF Cons(3) [unfolded e] new]
  have "set (win_tabs w) \<inter> set (win_tabs win) = {}" if "win \<in> set (bt_values ws)" for win
  proof -
    obtain k where "bt_get ws k = Some win" using \<open>win \<in> _\<close> bt_value_iff [OF ok] by blast
    then show ?thesis using home(3) by blast
  qed
  then have "set (win_tabs w) \<inter> set (concat (map win_tabs (bt_values ws))) = {}" by fastforce
  with Cons(1) [OF ok home(1)] home(2) show ?case by (simp add: e)
qed simp

lemma attached_iff:
  "bt_ok (ws_windows w) \<Longrightarrow>
   attached w tab \<longleftrightarrow> (\<exists>k win. bt_get (ws_windows w) k = Some win \<and> tab \<in> set (win_tabs win))"
  unfolding attached_def list_ex_iff using bt_value_iff [of "ws_windows w"] by blast

lemma attach_tabs_iff:
  "attach_tabs ids tabs seen =
     (if distinct tabs \<and> set tabs \<subseteq> ids \<and> set tabs \<inter> seen = {} then Some (set tabs \<union> seen) else None)"
  by (induction tabs arbitrary: seen) auto

lemma attach_windows_iff:
  "attach_windows ids ws seen =
     (let tabs = concat (map win_tabs ws)
      in if distinct tabs \<and> set tabs \<subseteq> ids \<and> set tabs \<inter> seen = {} then Some (set tabs \<union> seen) else None)"
  by (induction ws arbitrary: seen) (auto simp: attach_tabs_iff Let_def)

subsection \<open>Windows\<close>

definition one_focused :: "(WindowId, Window) BTreeMap \<Rightarrow> bool" where
  "one_focused ws = (ws \<noteq> [] \<longrightarrow> (\<exists>!k. \<exists>win. bt_get ws k = Some win \<and> win_focused win))"

definition windows_ok :: "(WindowId, Window) BTreeMap \<Rightarrow> bool" where
  "windows_ok ws = (bt_ok ws \<and> single_homes ws \<and> one_focused ws)"

definition workspace_ok :: "ProfileId \<Rightarrow> Workspace \<Rightarrow> bool" where
  "workspace_ok profile w = (ws_profile w = profile \<and> tabs_ok (ws_tabs w) \<and> windows_ok (ws_windows w))"

lemma bt_nonempty_iff: "m \<noteq> [] \<longleftrightarrow> (\<exists>k. bt_get m k \<noteq> None)"
  by (cases m) (auto simp: bt_get_None_iff)

lemma single_homes_tabs:
  "single_homes ws \<longleftrightarrow>
     (\<forall>k ts. map_option win_tabs (bt_get ws k) = Some ts \<longrightarrow> distinct ts) \<and>
     (\<forall>k j ts us t. map_option win_tabs (bt_get ws k) = Some ts \<longrightarrow> map_option win_tabs (bt_get ws j) = Some us \<longrightarrow>
        t \<in> set ts \<longrightarrow> t \<in> set us \<longrightarrow> k = j)"
  unfolding single_homes_def by (auto 0 4)

lemma single_homes_cong:
  "(\<And>k. map_option win_tabs (bt_get a k) = map_option win_tabs (bt_get b k)) \<Longrightarrow>
   single_homes a = single_homes b"
  by (simp only: single_homes_tabs)

lemma one_focused_same:
  assumes "one_focused a" "a \<noteq> []"
    and "\<And>k. (\<exists>win. bt_get b k = Some win \<and> win_focused win) \<longleftrightarrow> (\<exists>win. bt_get a k = Some win \<and> win_focused win)"
  shows "one_focused b"
  using assms(1,2) by (simp add: one_focused_def assms(3))

lemma focus_get:
  "bt_contains_key (ws_windows w) i \<Longrightarrow>
   bt_get (ws_windows (snd (Workspace_focus_window i w))) k =
     map_option (\<lambda>win. win\<lparr>win_focused := (k = i)\<rparr>) (bt_get (ws_windows w) k)"
  by (auto simp: Workspace_focus_window_def option.map_comp comp_def)

lemma windows_ok_focused:
  assumes "bt_ok (ws_windows w)" "single_homes (ws_windows w)" "bt_contains_key (ws_windows w) i"
  shows "windows_ok (ws_windows (snd (Workspace_focus_window i w)))"
proof -
  note get = focus_get [OF assms(3)]
  have "bt_ok (ws_windows (snd (Workspace_focus_window i w)))"
    using assms(1) by (simp add: Workspace_focus_window_def)
  moreover have "single_homes (ws_windows (snd (Workspace_focus_window i w)))"
    using assms(2) by (subst single_homes_cong [of _ "ws_windows w"]) (simp_all add: get option.map_comp comp_def)
  moreover have "one_focused (ws_windows (snd (Workspace_focus_window i w)))"
    unfolding one_focused_def
    by (rule impI, rule ex1I [of _ i]) (use assms(3) in \<open>auto simp: get bt_contains_key_def\<close>)
  ultimately show ?thesis by (simp add: windows_ok_def)
qed

lemma windows_ok_focus [keeps]:
  "windows_ok (ws_windows w) \<Longrightarrow> windows_ok (ws_windows (snd (Workspace_focus_window i w)))"
proof (cases "bt_contains_key (ws_windows w) i")
  case True
  assume "windows_ok (ws_windows w)"
  with True show ?thesis by (simp add: windows_ok_def windows_ok_focused [unfolded windows_ok_def])
qed (simp add: Workspace_focus_window_def)

lemma windows_ok_create [keeps]:
  assumes "windows_ok (ws_windows w)" "bt_get (ws_windows w) fresh = None"
  shows "windows_ok (ws_windows (snd (Workspace_create_window fresh width height w)))"
proof -
  let ?ws = "ws_windows (snd (Workspace_create_window fresh width height w))"
  have get: "bt_get ?ws k = (if k = fresh then Some \<lparr>win_id = fresh, win_tabs = [], win_width = width,
      win_height = height, win_focused = (ws_windows w = [])\<rparr> else bt_get (ws_windows w) k)" for k
    by (simp add: Workspace_create_window_def)
  have "bt_ok ?ws" using assms(1) by (simp add: Workspace_create_window_def windows_ok_def)
  moreover have "single_homes ?ws"
    using assms(1) single_homesD [of "ws_windows w"]
    unfolding windows_ok_def single_homes_def [of ?ws] get by (auto split: if_splits)
  moreover have "one_focused ?ws"
  proof (cases "ws_windows w = []")
    case True
    then show ?thesis unfolding one_focused_def get by (auto split: if_splits)
  next
    case False
    then show ?thesis
      using assms unfolding windows_ok_def by (rule_tac one_focused_same [of "ws_windows w"]) (simp_all add: get)
  qed
  ultimately show ?thesis by (simp add: windows_ok_def)
qed

lemma windows_ok_close [keeps]:
  assumes "windows_ok (ws_windows w)"
  shows "windows_ok (ws_windows (snd (Workspace_close_window i w)))"
proof -
  let ?rest = "w\<lparr>ws_windows := bt_remove i (ws_windows w)\<rparr>"
  have rest: "bt_ok (ws_windows ?rest)" "single_homes (ws_windows ?rest)"
    using assms by (auto simp: windows_ok_def single_homes_def)
  show ?thesis
  proof (cases "\<exists>win. bt_get (ws_windows w) i = Some win \<and> win_focused win")
    case True
    show ?thesis
    proof (cases "bt_first_key (bt_remove i (ws_windows w))")
      case None
      with True show ?thesis
        by (auto simp: Workspace_close_window_def Let_def windows_ok_def one_focused_def single_homes_def)
    next
      case (Some k)
      with True show ?thesis
        using windows_ok_focused [OF rest, of k] first_key_in [OF Some]
        by (auto simp: Workspace_close_window_def Let_def)
    qed
  next
    case False
    have "one_focused (ws_windows ?rest)"
    proof (cases "ws_windows w = []")
      case True
      then show ?thesis by (simp add: one_focused_def)
    next
      case nonempty: False
      show ?thesis
        using assms nonempty False unfolding windows_ok_def
        by (rule_tac one_focused_same [of "ws_windows w"]) auto
    qed
    with False rest show ?thesis
      by (auto simp: Workspace_close_window_def Let_def windows_ok_def split: option.split)
  qed
qed

lemma windows_ok_attach [keeps]:
  assumes "windows_ok (ws_windows w)"
  shows "windows_ok (ws_windows (snd (Workspace_attach_tab i tab w)))"
proof (cases "Workspace_attach_tab i tab w = (False, w)")
  case True
  then show ?thesis using assms by simp
next
  case False
  then have new: "\<not> attached w tab" and eq: "snd (Workspace_attach_tab i tab w) =
      w\<lparr>ws_windows := bt_adjust i (\<lambda>win. win\<lparr>win_tabs := win_tabs win @ [tab]\<rparr>) (ws_windows w)\<rparr>"
    by (auto simp: Workspace_attach_tab_def split: option.splits if_splits)
  have home: "tab \<notin> set (win_tabs win)" if "bt_get (ws_windows w) k = Some win" for k win
    using new assms that by (auto simp: attached_iff windows_ok_def)
  have "single_homes (bt_adjust i (\<lambda>win. win\<lparr>win_tabs := win_tabs win @ [tab]\<rparr>) (ws_windows w))"
    unfolding single_homes_def
  proof (intro conjI allI impI)
    fix k win assume "bt_get (bt_adjust i (\<lambda>win. win\<lparr>win_tabs := win_tabs win @ [tab]\<rparr>) (ws_windows w)) k = Some win"
    then show "distinct (win_tabs win)"
      using home assms single_homesD(1) [of "ws_windows w"] by (auto simp: windows_ok_def split: if_splits)
  next
    fix k j win win' t
    assume get: "bt_get (bt_adjust i (\<lambda>win. win\<lparr>win_tabs := win_tabs win @ [tab]\<rparr>) (ws_windows w)) k = Some win"
      "bt_get (bt_adjust i (\<lambda>win. win\<lparr>win_tabs := win_tabs win @ [tab]\<rparr>) (ws_windows w)) j = Some win'"
      and t: "t \<in> set (win_tabs win)" "t \<in> set (win_tabs win')"
    from get obtain u u' where u: "bt_get (ws_windows w) k = Some u" "bt_get (ws_windows w) j = Some u'"
      "win_tabs win = (if k = i then win_tabs u @ [tab] else win_tabs u)"
      "win_tabs win' = (if j = i then win_tabs u' @ [tab] else win_tabs u')"
      by (auto split: if_splits)
    show "k = j"
      using t u(3,4) home [OF u(1)] home [OF u(2)] assms single_homesD(2) [OF _ u(1) u(2), of t]
      by (auto simp: windows_ok_def split: if_splits)
  qed
  moreover have "one_focused (bt_adjust i (\<lambda>win. win\<lparr>win_tabs := win_tabs win @ [tab]\<rparr>) (ws_windows w))"
  proof (cases "ws_windows w = []")
    case True
    then show ?thesis by (simp add: one_focused_def)
  next
    case False
    then show ?thesis
      using assms unfolding windows_ok_def by (rule_tac one_focused_same [of "ws_windows w"]) auto
  qed
  ultimately show ?thesis using assms by (simp add: windows_ok_def eq)
qed

subsection \<open>Properties\<close>

text \<open>
  The steps of a workspace: its own operations, and any step of the tab manager it exposes.
\<close>

inductive workspace_step :: "Workspace \<Rightarrow> Workspace \<Rightarrow> bool" where
  tabs: "tab_step (ws_tabs w) m \<Longrightarrow> workspace_step w (w\<lparr>ws_tabs := m\<rparr>)"
| create_window: "bt_get (ws_windows w) fresh = None \<Longrightarrow>
    workspace_step w (snd (Workspace_create_window fresh width height w))"
| attach: "workspace_step w (snd (Workspace_attach_tab i tab w))"
| focus: "workspace_step w (snd (Workspace_focus_window i w))"
| close_window: "workspace_step w (snd (Workspace_close_window i w))"
| acquire: "workspace_step w (snd (Workspace_acquire_lock resource w))"
| release: "workspace_step w (snd (Workspace_release_lock resource w))"
| grant: "workspace_step w (snd (Workspace_grant_permission permission w))"
| revoke: "workspace_step w (snd (Workspace_revoke_permission permission w))"

lemma workspace_frame [simp]:
  "ws_profile (snd (Workspace_create_window fresh width height w)) = ws_profile w"
  "ws_tabs (snd (Workspace_create_window fresh width height w)) = ws_tabs w"
  "ws_profile (snd (Workspace_attach_tab i tab w)) = ws_profile w"
  "ws_tabs (snd (Workspace_attach_tab i tab w)) = ws_tabs w"
  "ws_profile (snd (Workspace_focus_window i w)) = ws_profile w"
  "ws_tabs (snd (Workspace_focus_window i w)) = ws_tabs w"
  "ws_profile (snd (Workspace_close_window i w)) = ws_profile w"
  "ws_tabs (snd (Workspace_close_window i w)) = ws_tabs w"
  by (simp_all add: Workspace_create_window_def Workspace_attach_tab_def Workspace_focus_window_def
      Workspace_close_window_def Let_def split: option.split)

lemma workspace_step_keeps: "workspace_step w w' \<Longrightarrow> workspace_ok profile w \<Longrightarrow> workspace_ok profile w'"
proof (induction rule: workspace_step.induct)
  case (tabs w m)
  then show ?case using tab_step_keeps by (auto simp: workspace_ok_def)
qed (simp_all add: workspace_ok_def windows_ok_create windows_ok_attach windows_ok_focus windows_ok_close
    Workspace_acquire_lock_def Workspace_release_lock_def Workspace_grant_permission_def
    Workspace_revoke_permission_def)

interpretation workspaces: kept_invariant workspace_step "workspace_ok profile" for profile
  by unfold_locales (rule workspace_step_keeps)

lemma workspace_ok_new: "workspace_ok profile (Workspace_new fresh profile)"
  by (simp add: workspace_ok_def Workspace_new_def tabs_ok_default windows_ok_def single_homes_def one_focused_def)

text \<open>The focus test of \<open>from_checkpoint\<close> never fails on windows that are in order.\<close>

lemma windows_ok_focus_count:
  assumes "windows_ok ws"
  shows "\<not> (length [win \<leftarrow> bt_values ws. win_focused win] > 1
    \<or> (length [win \<leftarrow> bt_values ws. win_focused win] = 0 \<and> ws \<noteq> []))"
proof (cases "ws = []")
  case False
  then have "length [win \<leftarrow> bt_values ws. win_focused win] = 1"
    using assms bt_count_one [of ws win_focused] by (simp add: windows_ok_def one_focused_def)
  then show ?thesis by simp
qed simp

lemma tab_ids_iff:
  assumes "tabs_ok m"
  shows "i \<in> set (map tab_id (TabManager_list m)) \<longleftrightarrow> TabManager_get m i \<noteq> None"
proof -
  have ok: "bt_ok (tm_tabs m)" and keyed: "\<And>k tab. bt_get (tm_tabs m) k = Some tab \<Longrightarrow> tab_id tab = k"
    using assms by (auto simp: tabs_ok_def keyed_tabs_def)
  have "i \<in> set (map tab_id (TabManager_list m)) \<longleftrightarrow> (\<exists>tab \<in> set (bt_values (tm_tabs m)). tab_id tab = i)"
    by (auto simp: TabManager_list_def)
  also have "\<dots> \<longleftrightarrow> (\<exists>k tab. bt_get (tm_tabs m) k = Some tab \<and> tab_id tab = i)"
    by (rule bt_ex_value [OF ok])
  finally show ?thesis using keyed by (auto simp: TabManager_get_def)
qed

text \<open>
  C18: what restoring a workspace from its own checkpoint gives, for every workspace reached by any
  mixture of window, tab, lock and permission operations: the same workspace again, unless it holds a
  tab of another profile or a window lists a tab that is closed in the tab manager, and these two
  are the only refusals; a checkpoint offered under another profile is always refused. In
  particular every reached workspace has its focus on exactly one window and lists no tab twice.
\<close>

theorem checkpoint_round_trip:
  assumes "workspace_step\<^sup>*\<^sup>* (Workspace_new fresh profile) w"
  shows "Workspace_from_checkpoint (Workspace_checkpoint w) expected =
    (if expected \<noteq> profile then Inl ProfileMismatch
     else if \<exists>tab \<in> set (TabManager_list (ws_tabs w)). tab_profile tab \<noteq> profile then Inl TabProfileMismatch
     else if \<exists>tab. attached w tab \<and> TabManager_get (ws_tabs w) tab = None then Inl InvalidCheckpoint
     else Inr w)"
proof -
  from workspaces.reach_keeps [OF assms workspace_ok_new]
  have w: "ws_profile w = profile" "tabs_ok (ws_tabs w)" "windows_ok (ws_windows w)"
    by (simp_all add: workspace_ok_def)
  let ?tabs = "concat (map win_tabs (bt_values (ws_windows w)))"
  have "distinct ?tabs" using w(3) unfolding windows_ok_def by (blast intro: single_homes_distinct)
  moreover have "set ?tabs \<subseteq> set (map tab_id (TabManager_list (ws_tabs w))) \<longleftrightarrow>
      \<not> (\<exists>tab. attached w tab \<and> TabManager_get (ws_tabs w) tab = None)"
    unfolding subset_iff tab_ids_iff [OF w(2)] by (auto simp: attached_def list_ex_iff)
  ultimately have "attach_windows (set (map tab_id (TabManager_list (ws_tabs w)))) (bt_values (ws_windows w)) {} = None
      \<longleftrightarrow> (\<exists>tab. attached w tab \<and> TabManager_get (ws_tabs w) tab = None)"
    by (simp add: attach_windows_iff Let_def del: set_map)
  then show ?thesis
    using w(1) windows_ok_focus_count [OF w(3)]
    by (auto simp: Workspace_from_checkpoint_def Workspace_checkpoint_def Let_def list_ex_iff)
qed

text \<open>
  The witness also shows the defect the theorem describes: a workspace with one window and one tab
  attached to it, the tab closed through the public tab manager, refuses its own checkpoint.
\<close>

definition sample_workspace :: Workspace where
  "sample_workspace =
     (let w = Workspace_new 1 7;
          w = w\<lparr>ws_tabs := snd (TabManager_open 2 7 sample_tab_url (ws_tabs w))\<rparr>;
          w = snd (Workspace_create_window 3 800 600 w)
      in snd (Workspace_attach_tab 3 2 w))"

definition stale_workspace :: Workspace where
  "stale_workspace = sample_workspace\<lparr>ws_tabs := snd (TabManager_close 2 (ws_tabs sample_workspace))\<rparr>"

lemma sample_workspace_reached: "workspace_step\<^sup>*\<^sup>* (Workspace_new 1 7) sample_workspace"
proof -
  let ?a = "Workspace_new 1 7"
  let ?b = "?a\<lparr>ws_tabs := snd (TabManager_open 2 7 sample_tab_url (ws_tabs ?a))\<rparr>"
  let ?c = "snd (Workspace_create_window 3 800 600 ?b)"
  have "workspace_step ?a ?b"
    by (intro workspace_step.tabs tab_step.opened) (simp add: Workspace_new_def TabManager_default_def)
  moreover have "workspace_step ?b ?c"
    by (rule workspace_step.create_window) (simp add: Workspace_new_def)
  moreover have "workspace_step ?c sample_workspace"
    unfolding sample_workspace_def Let_def by (rule workspace_step.attach)
  ultimately show ?thesis by (meson converse_rtranclp_into_rtranclp rtranclp.rtrancl_refl)
qed

theorem checkpoint_round_trip_witness:
  "Workspace_from_checkpoint (Workspace_checkpoint sample_workspace) 7 = Inr sample_workspace \<and>
   Workspace_from_checkpoint (Workspace_checkpoint stale_workspace) 7 = Inl InvalidCheckpoint"
proof -
  have "workspace_step sample_workspace stale_workspace"
    unfolding stale_workspace_def by (intro workspace_step.tabs tab_step.closed)
  with sample_workspace_reached have stale: "workspace_step\<^sup>*\<^sup>* (Workspace_new 1 7) stale_workspace" by simp
  have tabs: "list_all (\<lambda>t. tab_profile t = 7) (TabManager_list (ws_tabs sample_workspace))"
    "TabManager_list (ws_tabs stale_workspace) = []"
    "TabManager_get (ws_tabs sample_workspace) 2 \<noteq> None" by code_simp+
  have "bt_values (map (\<lambda>e. (fst e, win_tabs (snd e))) (ws_windows sample_workspace)) = [[2]]"
    "bt_values (map (\<lambda>e. (fst e, win_tabs (snd e))) (ws_windows stale_workspace)) = [[2]]" by code_simp+
  then have att: "attached sample_workspace t \<longleftrightarrow> t = 2" "attached stale_workspace t \<longleftrightarrow> t = 2" for t
    by (auto simp: attached_def list_ex_iff comp_def)
  have "TabManager_get (ws_tabs stale_workspace) 2 = None" by code_simp
  then show ?thesis
    using checkpoint_round_trip [OF sample_workspace_reached, of 7] checkpoint_round_trip [OF stale, of 7]
      tabs att by (auto simp: list_all_iff)
qed

end
