(* ===== verification/Floats.thy ===== *)
theory Floats
  imports Complex_Main "HOL-Library.Log_Nat"
begin

section \<open>Floating-point numbers\<close>

text \<open>
  A value of \<open>f32\<close> or \<open>f64\<close> is a special value or a finite rational; both zeros are the same value,
  as they compare equal, and the payload and sign of a \<open>NaN\<close> are not kept. \<open>ieee_eq\<close> is the equality
  of the language, by which \<open>NaN\<close> differs from itself. The source computes with \<open>f64\<close> only: every
  operation rounds the exact result to the nearest binary64 number, ties to even.
\<close>

datatype ieee = NaN | NegInf | PosInf | Finite rat

type_synonym f32 = ieee
type_synonym f64 = ieee

fun ieee_less :: "ieee \<Rightarrow> ieee \<Rightarrow> bool" where
  "ieee_less NaN _ = False"
| "ieee_less _ NaN = False"
| "ieee_less (Finite a) (Finite b) = (a < b)"
| "ieee_less NegInf b = (b \<noteq> NegInf)"
| "ieee_less PosInf _ = False"
| "ieee_less (Finite _) PosInf = True"
| "ieee_less (Finite _) NegInf = False"

definition ieee_eq :: "ieee \<Rightarrow> ieee \<Rightarrow> bool" where
  "ieee_eq a b = (a = b \<and> a \<noteq> NaN)"

definition ieee_le :: "ieee \<Rightarrow> ieee \<Rightarrow> bool" where
  "ieee_le a b = (ieee_less a b \<or> ieee_eq a b)"

definition ieee_clamp :: "ieee \<Rightarrow> ieee \<Rightarrow> ieee \<Rightarrow> ieee" where
  "ieee_clamp lo hi x = (if ieee_less x lo then lo else if ieee_less hi x then hi else x)"

text \<open>\<open>total_cmp\<close>, with \<open>NaN\<close> above everything.\<close>

definition ieee_total_le :: "ieee \<Rightarrow> ieee \<Rightarrow> bool" where
  "ieee_total_le a b = (b = NaN \<or> a \<noteq> NaN \<and> ieee_le a b)"

text \<open>\<open>f64::max\<close> ignores a \<open>NaN\<close>.\<close>

definition ieee_max :: "ieee \<Rightarrow> ieee \<Rightarrow> ieee" where
  "ieee_max a b = (if a = NaN then b else if b = NaN then a else if ieee_less a b then b else a)"

subsection \<open>Rounding\<close>

definition pow2 :: "int \<Rightarrow> rat" where
  "pow2 e = (if e \<ge> 0 then 2 ^ nat e else 1 / 2 ^ nat (- e))"

definition round_half_even :: "rat \<Rightarrow> int" where
  "round_half_even q =
     (let f = \<lfloor>q\<rfloor>; r = q - of_int f
      in if r < 1 / 2 then f else if r > 1 / 2 then f + 1 else if even f then f else f + 1)"

text \<open>The largest \<open>e\<close> with \<open>2 ^ e \<le> q\<close> of a positive \<open>q\<close>.\<close>

definition exponent_of :: "rat \<Rightarrow> int" where
  "exponent_of q =
     (let (p, d) = quotient_of q; e = bitlen p - bitlen d
      in if pow2 e \<le> q then e else e - 1)"

definition f64_round :: "rat \<Rightarrow> f64" where
  "f64_round q =
     (if q = 0 then Finite 0
      else let e = max (exponent_of \<bar>q\<bar>) (- 1022);
               u = pow2 (e - 52);
               r = of_int (round_half_even (q / u)) * u
           in if \<bar>r\<bar> \<ge> pow2 1024 then (if q > 0 then PosInf else NegInf) else Finite r)"

text \<open>The number of binary32 nearest to a literal.\<close>

definition f32_round :: "rat \<Rightarrow> f32" where
  "f32_round q =
     (if q = 0 then Finite 0
      else let e = max (exponent_of \<bar>q\<bar>) (- 126);
               u = pow2 (e - 23);
               r = of_int (round_half_even (q / u)) * u
           in if \<bar>r\<bar> \<ge> pow2 128 then (if q > 0 then PosInf else NegInf) else Finite r)"

fun f64_neg :: "f64 \<Rightarrow> f64" where
  "f64_neg NaN = NaN"
| "f64_neg PosInf = NegInf"
| "f64_neg NegInf = PosInf"
| "f64_neg (Finite a) = Finite (- a)"

fun f64_add :: "f64 \<Rightarrow> f64 \<Rightarrow> f64" where
  "f64_add (Finite a) (Finite b) = f64_round (a + b)"
| "f64_add NaN _ = NaN"
| "f64_add _ NaN = NaN"
| "f64_add PosInf NegInf = NaN"
| "f64_add NegInf PosInf = NaN"
| "f64_add PosInf _ = PosInf"
| "f64_add NegInf _ = NegInf"
| "f64_add _ PosInf = PosInf"
| "f64_add _ NegInf = NegInf"

definition f64_sub :: "f64 \<Rightarrow> f64 \<Rightarrow> f64" where
  "f64_sub a b = f64_add a (f64_neg b)"

definition f64_sign_inf :: "rat \<Rightarrow> f64" where
  "f64_sign_inf a = (if a > 0 then PosInf else if a < 0 then NegInf else NaN)"

fun f64_mul :: "f64 \<Rightarrow> f64 \<Rightarrow> f64" where
  "f64_mul (Finite a) (Finite b) = f64_round (a * b)"
| "f64_mul NaN _ = NaN"
| "f64_mul _ NaN = NaN"
| "f64_mul PosInf PosInf = PosInf"
| "f64_mul NegInf NegInf = PosInf"
| "f64_mul PosInf NegInf = NegInf"
| "f64_mul NegInf PosInf = NegInf"
| "f64_mul PosInf (Finite a) = f64_sign_inf a"
| "f64_mul NegInf (Finite a) = f64_sign_inf (- a)"
| "f64_mul (Finite a) PosInf = f64_sign_inf a"
| "f64_mul (Finite a) NegInf = f64_sign_inf (- a)"

text \<open>A zero has no sign here; as a divisor it counts as positive. The source never divides by zero.\<close>

fun f64_div :: "f64 \<Rightarrow> f64 \<Rightarrow> f64" where
  "f64_div (Finite a) (Finite b) = (if b = 0 then f64_sign_inf a else f64_round (a / b))"
| "f64_div NaN _ = NaN"
| "f64_div _ NaN = NaN"
| "f64_div (Finite a) _ = Finite 0"
| "f64_div PosInf (Finite b) = (if b < 0 then NegInf else PosInf)"
| "f64_div NegInf (Finite b) = (if b < 0 then PosInf else NegInf)"
| "f64_div _ _ = NaN"

fun f64_half :: "f64 \<Rightarrow> f64" where
  "f64_half (Finite a) = f64_round (a / 2)"
| "f64_half x = x"

text \<open>
  The square root is correctly rounded. A number of the format times \<open>4 ^ 600\<close> is an integer with at least 126
  binary digits, so the integer part of its root has more digits than a rounding boundary, and half a
  unit stands for what the integer part leaves.
\<close>

function nat_sqrt :: "nat \<Rightarrow> nat" where
  "nat_sqrt n = (if n = 0 then 0 else let r = 2 * nat_sqrt (n div 4) in if (r + 1) * (r + 1) \<le> n then r + 1 else r)"
  by pat_completeness auto
termination by (relation "measure id") auto

declare nat_sqrt.simps [simp del]

fun f64_sqrt :: "f64 \<Rightarrow> f64" where
  "f64_sqrt (Finite q) =
     (if q < 0 then NaN
      else let m = nat \<lfloor>q * 4 ^ 600\<rfloor>; s = nat_sqrt m
           in f64_round ((if s * s = m then of_nat s else of_nat s + 1 / 2) / 2 ^ 600))"
| "f64_sqrt PosInf = PosInf"
| "f64_sqrt _ = NaN"

definition f64_of_nat :: "nat \<Rightarrow> f64" where
  "f64_of_nat n = f64_round (of_nat n)"

subsection \<open>Exact results\<close>

lemma pow2_pos [simp]: "0 < pow2 e"
  by (simp add: pow2_def)

lemma round_half_even_int [simp]: "round_half_even (of_int i) = i"
  by (simp add: round_half_even_def)

lemma round_half_even_near: "\<bar>q - of_int (round_half_even q)\<bar> \<le> 1 / 2"
proof -
  have "0 \<le> q - of_int \<lfloor>q\<rfloor>" "q - of_int \<lfloor>q\<rfloor> < 1"
    using of_int_floor_le [of q] floor_correct [of q] by linarith+
  then show ?thesis by (simp add: round_half_even_def Let_def abs_le_iff)
qed

lemma f64_round_zero [simp]: "f64_round 0 = Finite 0"
  by (simp add: f64_round_def)

text \<open>A number with a multiple of the spacing at its own exponent is not changed by rounding.\<close>

lemma f64_round_exact:
  assumes "q = of_int m * pow2 (max (exponent_of \<bar>q\<bar>) (- 1022) - 52)" and "\<bar>q\<bar> < pow2 1024"
  shows "f64_round q = Finite q"
proof (cases "q = 0")
  case False
  let ?u = "pow2 (max (exponent_of \<bar>q\<bar>) (- 1022) - 52)"
  have "q / ?u = of_int m" using assms(1) pow2_pos [of "max (exponent_of \<bar>q\<bar>) (- 1022) - 52"]
    by (metis less_numeral_extra(3) nonzero_mult_div_cancel_right)
  then have "of_int (round_half_even (q / ?u)) * ?u = q" using assms(1) by simp
  then show ?thesis using False assms(2) by (simp add: f64_round_def Let_def)
qed simp

lemma pow2_nonneg [simp]: "0 \<le> pow2 e" "pow2 e \<noteq> 0"
  using pow2_pos [of e] by linarith+

lemma pow2_add: "pow2 (a + b) = pow2 a * pow2 b"
proof -
  have "pow2 e = 2 powi e" for e by (simp add: pow2_def power_int_def divide_simps)
  then show ?thesis by (simp add: power_int_add)
qed

lemma pow2_mono: "a \<le> b \<Longrightarrow> pow2 a \<le> pow2 b"
proof -
  assume "a \<le> b"
  then have "pow2 b = pow2 a * 2 ^ nat (b - a)" using pow2_add [of a "b - a"] by (simp add: pow2_def)
  moreover have "pow2 a * 1 \<le> pow2 a * 2 ^ nat (b - a)" by (intro mult_left_mono) (simp_all add: less_imp_le)
  ultimately show ?thesis by simp
qed

lemma bitlen_pow2: "0 < p \<Longrightarrow> pow2 (bitlen p - 1) \<le> of_int p \<and> of_int p < pow2 (bitlen p)"
proof -
  assume p: "0 < p"
  then have b: "2 ^ nat (bitlen p - 1) \<le> p" "p < 2 ^ nat (bitlen p)" "0 < bitlen p"
    using bitlen_bounds [of p] bitlen_eq_zero_iff [of p] bitlen_nonneg [of p] by auto
  then have "(of_int (2 ^ nat (bitlen p - 1)) :: rat) \<le> of_int p" "(of_int p :: rat) < of_int (2 ^ nat (bitlen p))"
    unfolding of_int_le_iff of_int_less_iff by simp_all
  then show ?thesis using b(3) by (simp add: pow2_def)
qed

lemma exponent_of_bounds:
  assumes "0 < q"
  shows "pow2 (exponent_of q) \<le> q \<and> q < pow2 (exponent_of q + 1)"
proof -
  obtain p d where pd: "quotient_of q = (p, d)" by fastforce
  then have d: "0 < d" and q: "q = of_int p / of_int d" using quotient_of_denom_pos quotient_of_div by blast+
  with assms have p: "0 < p" by (simp add: zero_less_divide_iff)
  let ?e = "bitlen p - bitlen d"
  note bp = bitlen_pow2 [OF p] and bd = bitlen_pow2 [OF d]
  have "q < pow2 (bitlen p) / of_int d" unfolding q using bp d by (simp add: divide_strict_right_mono)
  also have "\<dots> \<le> pow2 (bitlen p) / pow2 (bitlen d - 1)" using bd by (intro divide_left_mono) (simp_all add: d)
  also have "\<dots> = pow2 (?e + 1)"
    using pow2_add [of "?e + 1" "bitlen d - 1"] by (simp add: divide_simps)
  finally have up: "q < pow2 (?e + 1)" .
  have "pow2 (?e - 1) = pow2 (bitlen p - 1) / pow2 (bitlen d)"
    using pow2_add [of "?e - 1" "bitlen d"] by (simp add: divide_simps)
  also have "\<dots> \<le> pow2 (bitlen p - 1) / of_int d" using bd d by (intro divide_left_mono) simp_all
  also have "\<dots> \<le> q" unfolding q using bp d by (simp add: divide_right_mono)
  finally show ?thesis using up by (simp add: exponent_of_def pd Let_def not_le)
qed

text \<open>Integers below \<open>2 ^ 53\<close> times a power of two in range are numbers of the format.\<close>

lemma f64_round_dyadic:
  assumes i: "\<bar>i\<bar> < 2 ^ 53" and e: "- 1074 \<le> e" "e \<le> 971"
  shows "f64_round (of_int i * pow2 e) = Finite (of_int i * pow2 e)"
proof (cases "i = 0")
  case False
  let ?q = "\<bar>of_int i * pow2 e\<bar>" let ?E = "exponent_of ?q"
  have q: "?q = of_int \<bar>i\<bar> * pow2 e" by (simp add: abs_mult abs_of_pos)
  have "of_int \<bar>i\<bar> < (of_int (2 ^ 53) :: rat)" using i unfolding of_int_less_iff .
  then have "?q < of_int (2 ^ 53) * pow2 e" unfolding q by (rule mult_strict_right_mono) simp
  then have lt: "?q < pow2 (53 + e)" by (simp add: pow2_add) (simp add: pow2_def)
  have "0 < ?q" using False by simp
  then have "pow2 ?E \<le> ?q" using exponent_of_bounds by blast
  with lt have "pow2 ?E < pow2 (53 + e)" by simp
  then have "?E < 53 + e" using pow2_mono [of "53 + e" ?E] by (meson not_le)
  then have k: "0 \<le> e - (max ?E (- 1022) - 52)" (is "0 \<le> ?k") using e(1) by simp
  have "pow2 e = pow2 ?k * pow2 (max ?E (- 1022) - 52)" using pow2_add [of ?k "max ?E (- 1022) - 52"] by simp
  also have "pow2 ?k = of_int (2 ^ nat ?k)" using k by (simp add: pow2_def)
  finally have "of_int i * pow2 e = of_int (i * 2 ^ nat ?k) * pow2 (max ?E (- 1022) - 52)" by simp
  moreover have "?q < pow2 1024" using lt pow2_mono [of "53 + e" 1024] e(2) by simp
  ultimately show ?thesis by (intro f64_round_exact)
qed simp

lemma f64_round_int: "\<bar>i\<bar> < 2 ^ 53 \<Longrightarrow> f64_round (of_int i) = Finite (of_int i)"
  using f64_round_dyadic [of i 0] by (simp add: pow2_def)

lemma nat_sqrt_bounds: "nat_sqrt n * nat_sqrt n \<le> n \<and> n < (nat_sqrt n + 1) * (nat_sqrt n + 1)"
proof (induction n rule: nat_sqrt.induct)
  case (1 n)
  show ?case
  proof (cases "n = 0")
    case False
    let ?s = "nat_sqrt (n div 4)"
    have "?s * ?s \<le> n div 4" "n div 4 < (?s + 1) * (?s + 1)" using 1 [OF False] by simp_all
    then have "4 * (?s * ?s) \<le> n" "n div 4 + 1 \<le> (?s + 1) * (?s + 1)" by linarith+
    moreover have "n < 4 * (n div 4 + 1)" by presburger
    ultimately have "(2 * ?s) * (2 * ?s) \<le> n" "n < (2 * ?s + 2) * (2 * ?s + 2)"
      by (simp_all add: algebra_simps)
    then show ?thesis using False by (subst (1 2 3 4) nat_sqrt.simps) (auto simp: Let_def)
  qed (simp add: nat_sqrt.simps)
qed

end
