(* ===== verification/AgentTree.thy ===== *)
theory AgentTree
  imports Transactions Web Floats
begin

section \<open>Provenance and the agent render tree\<close>

text \<open>
  The crates \<open>crates/provenance\<close> and \<open>crates/agent-tree\<close>: where a piece of information comes from and
  how sure it is, and the tree of nodes an agent sees of a page.

  The floating-point numbers of these crates are stored, compared and clamped but never computed
  with; the values are those of \<open>Floats\<close>.
\<close>

subsection \<open>Provenance\<close>

datatype SourceKind =
    Dom | Accessibility | Layout | ComputedStyle | SourceText | EventHandler | JavaScript
  | NetworkRequest | NetworkResponse | SourceStorage | SourceUrl | VisualInference | AgentInference

record ProvenanceSource =
  ps_kind :: SourceKind
  ps_reference :: string
  ps_detail :: "string option"

datatype Confidence = Confidence f32

definition Confidence_new :: "f32 \<Rightarrow> Confidence" where
  "Confidence_new v = (if v = NaN then Confidence (Finite 0) else Confidence (ieee_clamp (Finite 0) (Finite 1) v))"

definition Confidence_DIRECT :: Confidence where "Confidence_DIRECT = Confidence (Finite 1)"
definition Confidence_STRONG :: Confidence where "Confidence_STRONG = Confidence (f32_round (9 / 10))"
definition Confidence_PROBABLE :: Confidence where "Confidence_PROBABLE = Confidence (Finite (3 / 4))"
definition Confidence_AMBIGUOUS :: Confidence where "Confidence_AMBIGUOUS = Confidence (Finite (1 / 2))"

fun Confidence_is_inferred :: "Confidence \<Rightarrow> bool" where
  "Confidence_is_inferred (Confidence c) = ieee_less c (Finite 1)"

record EvidenceRecord =
  er_source :: ProvenanceSource
  er_confidence :: Confidence
  er_observed_at_millis :: u64
  er_detail :: "string option"
  er_redacted :: bool

record ExplainabilityReport =
  xr_subject :: string
  xr_summary :: string
  xr_evidence :: "EvidenceRecord list"

definition ExplainabilityReport_new :: "string \<Rightarrow> string \<Rightarrow> ExplainabilityReport" where
  "ExplainabilityReport_new subject summary = \<lparr>xr_subject = subject, xr_summary = summary, xr_evidence = []\<rparr>"

definition ExplainabilityReport_add ::
    "ProvenanceSource \<Rightarrow> Confidence \<Rightarrow> u64 \<Rightarrow> string option \<Rightarrow> bool \<Rightarrow> ExplainabilityReport \<Rightarrow> ExplainabilityReport" where
  "ExplainabilityReport_add source confidence observed detail redacted r =
     r\<lparr>xr_evidence := xr_evidence r @
        [\<lparr>er_source = source, er_confidence = confidence, er_observed_at_millis = observed,
          er_detail = map_option (\<lambda>v. if redacted then ''[REDACTED]'' else v) detail,
          er_redacted = redacted\<rparr>]\<rparr>"

definition ExplainabilityReport_inferred :: "ExplainabilityReport \<Rightarrow> bool" where
  "ExplainabilityReport_inferred r = list_ex (\<lambda>e. Confidence_is_inferred (er_confidence e)) (xr_evidence r)"

definition ExplainabilityReport_redact_text :: "string \<Rightarrow> string" where
  "ExplainabilityReport_redact_text v =
     (if contains_any [''password'', ''secret'', ''token'', ''private key'', ''card number'']
           (to_ascii_lowercase v)
      then ''[REDACTED]'' else v)"

record ActionProvenance =
  ap_action_id :: string
  ap_agent_intent :: string
  ap_target_reference :: string
  ap_resolved_node_id :: "string option"
  ap_native_event_count :: u32
  ap_consequence :: Consequence
  ap_reversibility :: Reversibility
  ap_policy_decision :: PolicyDecision
  ap_capability_reference :: "string option"
  ap_audit_id :: "string option"
  ap_actor_id :: "string option"
  ap_user_id :: "string option"

subsection \<open>The tree\<close>

type_synonym AgentNodeId = string

datatype StructuralRole =
    RolePage | Region | Heading | Paragraph | RoleText | Button | Link | Textbox | Checkbox | Radio | RoleSelect
  | RoleList | ListItem | Table | Row | Cell | Dialog | Menu | RoleTab | Image | Canvas | Video | Form
  | RoleFrame | RoleShadowRoot | UnknownRole

datatype SemanticRole =
    SearchField | SubmitAction | LoginAction | LogoutAction | Pagination | PrimaryNavigation | AccountMenu
  | ConfirmationDialog | FilePicker | PaymentForm | DatePicker | SearchResults | Challenge | ProfileInconsistency

datatype ApplicationType =
    Customer | Invoice | AppOrder | Message | Conversation | Payment | Property | Lead | Document | Project
  | Task | Account | User | Product | Reservation

datatype AgentValue =
    TextValue string
  | NumberValue f64
  | BooleanValue bool
  | UrlValue string
  | SecretReference string

record NodeState =
  ns_visible :: bool
  ns_enabled :: bool
  ns_focused :: bool
  ns_selected :: bool
  ns_expanded :: "bool option"

record Geometry =
  geo_x :: f64
  geo_y :: f64
  geo_width :: f64
  geo_height :: f64

record Relationship =
  rel_kind :: string
  rel_target :: AgentNodeId

record ActionDescriptor =
  ad_name :: string
  ad_consequence :: string

record AgentNode =
  an_id :: AgentNodeId
  an_origin :: "string option"
  an_identity_key :: "string option"
  an_structural_role :: StructuralRole
  an_semantic_role :: "SemanticRole option"
  an_application_type :: "ApplicationType option"
  an_name :: "string option"
  an_value :: "AgentValue option"
  an_description :: "string option"
  an_state :: NodeState
  an_geometry :: "Geometry option"
  an_relationships :: "Relationship list"
  an_actions :: "ActionDescriptor list"
  an_children :: "AgentNodeId list"
  an_provenance :: "ProvenanceSource list"
  an_confidence :: Confidence
  an_generation :: u64

record AgentRenderTree =
  art_root :: AgentNodeId
  art_nodes :: "AgentNode list"
  art_generation :: u64
  art_truncated :: bool

definition AgentRenderTree_new_page :: "string \<Rightarrow> string \<Rightarrow> AgentRenderTree" where
  "AgentRenderTree_new_page uuid_text page_name =
     (let i = ''page:'' @ uuid_text;
          node = \<lparr>an_id = i, an_origin = None, an_identity_key = Some ''page'', an_structural_role = RolePage,
                  an_semantic_role = None, an_application_type = None, an_name = Some page_name,
                  an_value = None, an_description = None,
                  an_state = \<lparr>ns_visible = True, ns_enabled = True, ns_focused = False, ns_selected = False,
                              ns_expanded = None\<rparr>,
                  an_geometry = None, an_relationships = [], an_actions = [], an_children = [],
                  an_provenance = [], an_confidence = Confidence (Finite 1), an_generation = 0\<rparr>
      in \<lparr>art_root = i, art_nodes = [node], art_generation = 0, art_truncated = False\<rparr>)"

definition AgentRenderTree_find :: "AgentRenderTree \<Rightarrow> string \<Rightarrow> AgentNode option" where
  "AgentRenderTree_find t i = find (\<lambda>node. an_id node = i) (art_nodes t)"

definition AgentRenderTree_find_identity :: "AgentRenderTree \<Rightarrow> string \<Rightarrow> AgentNode list" where
  "AgentRenderTree_find_identity t key = [node \<leftarrow> art_nodes t. an_identity_key node = Some key]"

text \<open>
  The derived equality of nodes compares their numbers with the equality of the language: two nodes
  are equal when they agree in every field and hold no \<open>NaN\<close>.
\<close>

definition node_has_nan :: "AgentNode \<Rightarrow> bool" where
  "node_has_nan n =
     (an_value n = Some (NumberValue NaN) \<or> an_confidence n = Confidence NaN \<or>
      (case an_geometry n of None \<Rightarrow> False
       | Some g \<Rightarrow> geo_x g = NaN \<or> geo_y g = NaN \<or> geo_width g = NaN \<or> geo_height g = NaN))"

definition node_eq :: "AgentNode \<Rightarrow> AgentNode \<Rightarrow> bool" where
  "node_eq a b = (a = b \<and> \<not> node_has_nan a)"

subsection \<open>Facts\<close>

text \<open>A confidence built by \<open>new\<close> lies between 0 and 1, and is inferred unless it is 1.\<close>

lemma confidence_in_range:
  "\<exists>q. Confidence_new v = Confidence (Finite q) \<and> 0 \<le> q \<and> q \<le> 1 \<and>
     (Confidence_is_inferred (Confidence_new v) \<longleftrightarrow> q \<noteq> 1)"
  by (cases v) (auto simp: Confidence_new_def ieee_clamp_def)

lemma redacted_evidence_is_masked:
  "e \<in> set (xr_evidence (ExplainabilityReport_add s c t d True r)) \<Longrightarrow> e \<notin> set (xr_evidence r) \<Longrightarrow>
   er_detail e \<in> {None, Some ''[REDACTED]''}"
  by (cases d) (auto simp: ExplainabilityReport_add_def)

end
