(* ===== verification/AuditLog.thy ===== *)
theory AuditLog
  imports AgentTree
begin

section \<open>The audit journal\<close>

text \<open>
  The crate \<open>crates/audit\<close>, with the action kinds of \<open>crates/input\<close> that an
  audit event names. A journal chains its records: each holds the integrity value of the one before
  it and a hash over its own fields. The hash, \<open>DefaultHasher\<close> over the JSON bytes of the record, is
  an argument of the operations; nothing is assumed of it. A 64-bit hash cannot be injective, so
  tamper evidence is stated the way it can hold: two different journals that both verify, have
  the same length and end in the same integrity value exhibit a collision of the hash.
\<close>

subsection \<open>The journal\<close>

datatype ActionType =
    Activate | Click | DoubleClick | ContextClick | Hover | Focus | Blur | Type | ReplaceText | KeyPress
  | Select | Toggle | Scroll | Drag | Drop | ActUpload | ActDownload | ActNavigate | Back | Forward | Reload
  | Submit | ActAuthenticate

text \<open>The derived \<open>Debug\<close> text of an action kind is its name.\<close>

fun action_type_debug :: "ActionType \<Rightarrow> string" where
  "action_type_debug Activate = ''Activate''"
| "action_type_debug Click = ''Click''"
| "action_type_debug DoubleClick = ''DoubleClick''"
| "action_type_debug ContextClick = ''ContextClick''"
| "action_type_debug Hover = ''Hover''"
| "action_type_debug Focus = ''Focus''"
| "action_type_debug Blur = ''Blur''"
| "action_type_debug Type = ''Type''"
| "action_type_debug ReplaceText = ''ReplaceText''"
| "action_type_debug KeyPress = ''KeyPress''"
| "action_type_debug Select = ''Select''"
| "action_type_debug Toggle = ''Toggle''"
| "action_type_debug Scroll = ''Scroll''"
| "action_type_debug Drag = ''Drag''"
| "action_type_debug Drop = ''Drop''"
| "action_type_debug ActUpload = ''Upload''"
| "action_type_debug ActDownload = ''Download''"
| "action_type_debug ActNavigate = ''Navigate''"
| "action_type_debug Back = ''Back''"
| "action_type_debug Forward = ''Forward''"
| "action_type_debug Reload = ''Reload''"
| "action_type_debug Submit = ''Submit''"
| "action_type_debug ActAuthenticate = ''Authenticate''"

datatype AuditEvent =
    AuAction ActionProvenance TransactionClassification "string list" u32
  | AuCapabilityUsed string string
  | AuPermissionDecision string string string
  | AuSecretBrokerOperation string string
  | AuNavigation string
  | AuDownload string
  | AuUpload string
  | AuRecovery string string

record AuditRecord =
  au_sequence :: u64
  au_audit_id :: string
  au_event :: AuditEvent
  au_previous_integrity :: u64
  au_integrity :: u64

record AuditJournal =
  aj_records :: "AuditRecord list"
  aj_next_sequence :: u64

datatype AuditError = AuditSerialization | AuditIntegrity

definition AuditJournal_default :: AuditJournal where
  "AuditJournal_default = \<lparr>aj_records = [], aj_next_sequence = 0\<rparr>"

type_synonym hash = "u64 \<times> string \<times> AuditEvent \<times> u64 \<Rightarrow> u64"

definition hashed_fields :: "AuditRecord \<Rightarrow> u64 \<times> string \<times> AuditEvent \<times> u64" where
  "hashed_fields r = (au_sequence r, au_audit_id r, au_event r, au_previous_integrity r)"

definition integrity :: "hash \<Rightarrow> AuditRecord \<Rightarrow> u64" where
  "integrity h r = h (hashed_fields r)"

definition last_integrity :: "AuditRecord list \<Rightarrow> u64" where
  "last_integrity rs = (if rs = [] then 0 else au_integrity (last rs))"

definition AuditJournal_append :: "hash \<Rightarrow> string \<Rightarrow> AuditEvent \<Rightarrow> AuditJournal \<Rightarrow> AuditRecord \<times> AuditJournal" where
  "AuditJournal_append h audit_id event j =
     (let r = \<lparr>au_sequence = aj_next_sequence j, au_audit_id = audit_id, au_event = event,
               au_previous_integrity = last_integrity (aj_records j), au_integrity = 0\<rparr>;
          r = r\<lparr>au_integrity := integrity h r\<rparr>
      in (r, j\<lparr>aj_next_sequence := aj_next_sequence j + 1, aj_records := aj_records j @ [r]\<rparr>))"

definition AuditJournal_records_for :: "AuditJournal \<Rightarrow> string \<Rightarrow> AuditRecord list" where
  "AuditJournal_records_for j audit_id = [r \<leftarrow> aj_records j. au_audit_id r = audit_id]"

text \<open>The loops of \<open>verify_integrity\<close> and \<open>retain_last\<close> with their running counter and previous value.\<close>

fun verify_from :: "hash \<Rightarrow> nat \<Rightarrow> u64 \<Rightarrow> AuditRecord list \<Rightarrow> bool" where
  "verify_from h n previous [] = True"
| "verify_from h n previous (r # rs) =
     (if au_sequence r \<noteq> of_nat n \<or> au_previous_integrity r \<noteq> previous \<or> integrity h r \<noteq> au_integrity r
      then False else verify_from h (n + 1) (au_integrity r) rs)"

definition AuditJournal_verify_integrity :: "hash \<Rightarrow> AuditJournal \<Rightarrow> bool" where
  "AuditJournal_verify_integrity h j =
     (verify_from h 0 0 (aj_records j) \<and> aj_next_sequence j = of_nat (length (aj_records j)))"

fun rechain :: "hash \<Rightarrow> nat \<Rightarrow> u64 \<Rightarrow> AuditRecord list \<Rightarrow> AuditRecord list" where
  "rechain h n previous [] = []"
| "rechain h n previous (r # rs) =
     (let r = r\<lparr>au_sequence := of_nat n, au_previous_integrity := previous\<rparr>;
          r = r\<lparr>au_integrity := integrity h r\<rparr>
      in r # rechain h (n + 1) (au_integrity r) rs)"

definition AuditJournal_retain_last :: "hash \<Rightarrow> nat \<Rightarrow> AuditJournal \<Rightarrow> nat \<times> AuditJournal" where
  "AuditJournal_retain_last h max_records j =
     (let removed = length (aj_records j) - max_records in
      if removed = 0 then (0, j)
      else let rs = rechain h 0 0 (drop removed (aj_records j))
           in (removed, j\<lparr>aj_records := rs, aj_next_sequence := of_nat (length rs)\<rparr>))"

definition AuditJournal_replay ::
    "hash \<Rightarrow> (AuditRecord \<Rightarrow> 's \<Rightarrow> 's) \<Rightarrow> AuditJournal \<Rightarrow> 's \<Rightarrow> (AuditError + unit) \<times> 's" where
  "AuditJournal_replay h receive j s =
     (if \<not> AuditJournal_verify_integrity h j then (Inl AuditIntegrity, s)
      else (Inr (), fold receive (aj_records j) s))"

definition AuditJournal_to_json :: "(AuditJournal \<Rightarrow> 'text option) \<Rightarrow> AuditJournal \<Rightarrow> AuditError + 'text" where
  "AuditJournal_to_json encode j = ok_or AuditSerialization (encode j)"

definition AuditJournal_from_json ::
    "hash \<Rightarrow> ('text \<Rightarrow> AuditJournal option) \<Rightarrow> 'text \<Rightarrow> AuditError + AuditJournal" where
  "AuditJournal_from_json h decode val =
     (case decode val of
        None \<Rightarrow> Inl AuditSerialization
      | Some j \<Rightarrow> if \<not> AuditJournal_verify_integrity h j then Inl AuditIntegrity else Inr j)"

fun safe_parameter_names :: "Json \<Rightarrow> string list" where
  "safe_parameter_names (JObject fs) = map fst fs"
| "safe_parameter_names _ = []"

definition action_event ::
    "ActionProvenance \<Rightarrow> TransactionClassification \<Rightarrow> ActionType \<Rightarrow> Json \<Rightarrow> u32 \<Rightarrow> AuditEvent" where
  "action_event provenance classification action_type parameters native_event_count =
     AuAction provenance classification
       (safe_parameter_names parameters @ [''action:'' @ action_type_debug action_type]) native_event_count"

subsection \<open>Chains\<close>

lemma verify_from_snoc:
  "verify_from h n p (rs @ [r]) \<longleftrightarrow>
     verify_from h n p rs \<and> au_sequence r = of_nat (n + length rs) \<and>
     au_previous_integrity r = (if rs = [] then p else au_integrity (last rs)) \<and> integrity h r = au_integrity r"
  by (induction rs arbitrary: n p) auto

lemma verify_append:
  "AuditJournal_verify_integrity h j \<Longrightarrow> AuditJournal_verify_integrity h (snd (AuditJournal_append h audit_id event j))"
  by (auto simp: AuditJournal_verify_integrity_def AuditJournal_append_def Let_def verify_from_snoc
      last_integrity_def integrity_def hashed_fields_def)

lemma verify_rechain: "verify_from h n p (rechain h n p rs)"
  by (induction rs arbitrary: n p) (auto simp: Let_def integrity_def hashed_fields_def)

lemma verify_retain_last:
  "AuditJournal_verify_integrity h j \<Longrightarrow> AuditJournal_verify_integrity h (snd (AuditJournal_retain_last h n j))"
  by (simp add: AuditJournal_retain_last_def Let_def) (simp add: AuditJournal_verify_integrity_def verify_rechain)

lemma rechain_content:
  "map (\<lambda>r. (au_audit_id r, au_event r)) (rechain h n p rs) = map (\<lambda>r. (au_audit_id r, au_event r)) rs"
  by (induction rs arbitrary: n p) (auto simp: Let_def)

datatype AuditOp = AuditAppend string AuditEvent | AuditRetain nat

fun audit_apply :: "hash \<Rightarrow> AuditOp \<Rightarrow> AuditJournal \<Rightarrow> AuditJournal" where
  "audit_apply h (AuditAppend audit_id event) j = snd (AuditJournal_append h audit_id event j)"
| "audit_apply h (AuditRetain n) j = snd (AuditJournal_retain_last h n j)"

fun audit_spec :: "AuditOp \<Rightarrow> (string \<times> AuditEvent) list \<Rightarrow> (string \<times> AuditEvent) list" where
  "audit_spec (AuditAppend audit_id event) es = es @ [(audit_id, event)]"
| "audit_spec (AuditRetain n) es = drop (length es - n) es"

definition audit_content :: "AuditJournal \<Rightarrow> (string \<times> AuditEvent) list" where
  "audit_content j = map (\<lambda>r. (au_audit_id r, au_event r)) (aj_records j)"

lemma audit_apply_content: "audit_content (audit_apply h x j) = audit_spec x (audit_content j)"
  by (cases x) (auto simp: audit_content_def AuditJournal_append_def AuditJournal_retain_last_def Let_def
      rechain_content drop_map)

lemma audit_run_content: "audit_content (fold (audit_apply h) xs j) = fold audit_spec xs (audit_content j)"
  by (induction xs arbitrary: j) (simp_all add: audit_apply_content)

lemma audit_run_verifies:
  "AuditJournal_verify_integrity h j \<Longrightarrow> AuditJournal_verify_integrity h (fold (audit_apply h) xs j)"
proof (induction xs arbitrary: j)
  case (Cons x xs)
  have "AuditJournal_verify_integrity h (audit_apply h x j)"
    using Cons(2) by (cases x) (simp_all add: verify_append verify_retain_last)
  then show ?case by (simp add: Cons(1))
qed simp

lemma chain_collision:
  assumes "verify_from h n p rs" "verify_from h n p rs'" "length rs = length rs'" "rs \<noteq> rs'"
    and "last_integrity rs = last_integrity rs'"
  shows "\<exists>r \<in> set rs. \<exists>r' \<in> set rs'. hashed_fields r \<noteq> hashed_fields r' \<and> h (hashed_fields r) = h (hashed_fields r')"
  using assms
proof (induction rs arbitrary: rs' rule: rev_induct)
  case (snoc r rs)
  from snoc.prems(3) obtain r' qs where rs': "rs' = qs @ [r']" "length rs = length qs"
    by (cases rs' rule: rev_cases) auto
  have v: "verify_from h n p rs" "verify_from h n p qs"
    and i: "integrity h r = au_integrity r" "integrity h r' = au_integrity r'"
    and prev: "au_previous_integrity r = (if rs = [] then p else au_integrity (last rs))"
      "au_previous_integrity r' = (if qs = [] then p else au_integrity (last qs))"
    using snoc.prems(1,2) by (simp_all add: rs' verify_from_snoc)
  have same: "au_integrity r = au_integrity r'" using snoc.prems(5) by (simp add: rs' last_integrity_def)
  show ?case
  proof (cases "hashed_fields r = hashed_fields r'")
    case False
    then show ?thesis using i same by (auto simp: rs' integrity_def)
  next
    case True
    then have "r = r'" using same by (cases r; cases r') (simp add: hashed_fields_def)
    with snoc.prems(4) have "rs \<noteq> qs" by (simp add: rs')
    moreover from this rs'(2) have "rs \<noteq> []" "qs \<noteq> []" by auto
    with True prev have "last_integrity rs = last_integrity qs"
      by (simp add: hashed_fields_def last_integrity_def)
    ultimately show ?thesis using snoc.IH [OF v rs'(2)] by (auto simp: rs')
  qed
qed simp

subsection \<open>Properties\<close>

text \<open>
  C19: a journal written only by its operations always verifies, whatever the hash, and holds exactly
  the appended events with their identifiers in order, less those that retention dropped from the
  front.
\<close>

theorem audit_journal_records_faithfully:
  "AuditJournal_verify_integrity h (fold (audit_apply h) xs AuditJournal_default) \<and>
   audit_content (fold (audit_apply h) xs AuditJournal_default) = fold audit_spec xs []"
proof -
  have "AuditJournal_verify_integrity h AuditJournal_default" "audit_content AuditJournal_default = []"
    by (simp_all add: AuditJournal_verify_integrity_def AuditJournal_default_def audit_content_def)
  then show ?thesis by (simp add: audit_run_verifies audit_run_content)
qed

text \<open>
  C20: the chain is tamper evident up to collisions of the hash: two journals that differ, both
  accepted from their serialised forms, with the same number of records and the same final integrity
  value contain two records whose hashed fields differ and have the same hash.
\<close>

theorem tampering_needs_a_collision:
  assumes "AuditJournal_from_json h decode a = Inr j" "AuditJournal_from_json h decode b = Inr k"
    and "length (aj_records j) = length (aj_records k)"
    and "last_integrity (aj_records j) = last_integrity (aj_records k)" and "j \<noteq> k"
  shows "\<exists>r \<in> set (aj_records j). \<exists>r' \<in> set (aj_records k).
     hashed_fields r \<noteq> hashed_fields r' \<and> h (hashed_fields r) = h (hashed_fields r')"
proof -
  have v: "AuditJournal_verify_integrity h j" "AuditJournal_verify_integrity h k"
    using assms(1,2) by (auto simp: AuditJournal_from_json_def split: option.splits if_splits)
  then have "aj_next_sequence j = aj_next_sequence k" using assms(3) by (simp add: AuditJournal_verify_integrity_def)
  with assms(5) have "aj_records j \<noteq> aj_records k" by (cases j; cases k) simp
  with v assms(3,4) show ?thesis
    using chain_collision [of h 0 0 "aj_records j" "aj_records k"] by (simp add: AuditJournal_verify_integrity_def)
qed

definition sample_journal :: "string \<Rightarrow> AuditJournal" where
  "sample_journal url = snd (AuditJournal_append (\<lambda>_. 7) ''a'' (AuNavigation url) AuditJournal_default)"

theorem tampering_needs_a_collision_witness:
  "\<exists>r \<in> set (aj_records (sample_journal ''x'')). \<exists>r' \<in> set (aj_records (sample_journal ''y'')).
     hashed_fields r \<noteq> hashed_fields r'"
proof -
  have "AuditJournal_from_json (\<lambda>_. 7) (\<lambda>u. Some (sample_journal u)) u = Inr (sample_journal u)" for u
    by (simp add: AuditJournal_from_json_def sample_journal_def verify_append)
       (simp add: AuditJournal_verify_integrity_def AuditJournal_append_def AuditJournal_default_def Let_def
         last_integrity_def integrity_def)
  moreover have "sample_journal ''x'' \<noteq> sample_journal ''y''"
    by (simp add: sample_journal_def AuditJournal_append_def AuditJournal_default_def Let_def)
  ultimately show ?thesis
    using tampering_needs_a_collision [of "\<lambda>_. 7" "\<lambda>u. Some (sample_journal u)" "''x''" "sample_journal ''x''"
        "''y''" "sample_journal ''y''"]
    by (simp add: sample_journal_def AuditJournal_append_def AuditJournal_default_def Let_def last_integrity_def
        integrity_def)
qed

text \<open>
  Retention rewrites what it keeps: the surviving records get new sequence numbers and integrity
  values, so the journal is not append-only and a value noted before no longer occurs in it.
\<close>

lemma retention_rewrites_records:
  assumes "length (aj_records j) > n" "n > 0"
  shows "au_sequence (hd (aj_records (snd (AuditJournal_retain_last h n j)))) = 0"
    and "au_previous_integrity (hd (aj_records (snd (AuditJournal_retain_last h n j)))) = 0"
proof -
  from assms obtain r rs where "drop (length (aj_records j) - n) (aj_records j) = r # rs"
    by (cases "drop (length (aj_records j) - n) (aj_records j)") auto
  then show "au_sequence (hd (aj_records (snd (AuditJournal_retain_last h n j)))) = 0"
    and "au_previous_integrity (hd (aj_records (snd (AuditJournal_retain_last h n j)))) = 0"
    using assms by (auto simp: AuditJournal_retain_last_def Let_def)
qed

text \<open>No parameter value reaches an action event: it depends on the parameters' names alone.\<close>

lemma action_event_hides_values:
  "map fst fs = map fst gs \<Longrightarrow>
   action_event p c a (JObject fs) n = action_event p c a (JObject gs) n"
  by (simp add: action_event_def)

end
