(* ===== verification/Cache.thy ===== *)
theory Cache
  imports Web
begin

section \<open>HTTP cache and cache storage\<close>

text \<open>
  The crate \<open>crates/cache\<close>: responses by profile, partition and URL text, and the named caches of the
  Cache API. A full cache grows instead of evicting. The growth saturates at the largest \<open>usize\<close>,
  which is written out because it is the only arithmetic of the crate. Encoders, decoders and
  \<open>Url::parse\<close> are arguments.
\<close>

record CachedResponse =
  cr_status :: u16
  cr_headers :: "(string, string) BTreeMap"
  cr_body :: string

type_synonym CacheKey = "ProfileId \<times> string \<times> string"

record HttpCache =
  hc_values :: "(CacheKey, CachedResponse) BTreeMap"
  hc_max_entries :: nat

definition HttpCache_with_capacity :: "nat \<Rightarrow> HttpCache" where
  "HttpCache_with_capacity max_entries = \<lparr>hc_values = [], hc_max_entries = max max_entries 1\<rparr>"

definition HttpCache_default :: HttpCache where
  "HttpCache_default = HttpCache_with_capacity 256"

definition HttpCache_put :: "ProfileId \<Rightarrow> string \<Rightarrow> Url \<Rightarrow> CachedResponse \<Rightarrow> HttpCache \<Rightarrow> HttpCache" where
  "HttpCache_put profile part url response c =
     (let key = (profile, part, url_as_str url);
          c' = (if \<not> bt_contains_key (hc_values c) key \<and> length (hc_values c) \<ge> hc_max_entries c
                then c\<lparr>hc_max_entries := max (min (hc_max_entries c * 2) usize_max)
                                            (min (length (hc_values c) + 1) usize_max)\<rparr>
                else c)
      in c'\<lparr>hc_values := bt_insert key response (hc_values c')\<rparr>)"

definition HttpCache_get :: "HttpCache \<Rightarrow> ProfileId \<Rightarrow> string \<Rightarrow> Url \<Rightarrow> CachedResponse option" where
  "HttpCache_get c profile part url = bt_get (hc_values c) (profile, part, url_as_str url)"

definition HttpCache_invalidate :: "ProfileId \<Rightarrow> string \<Rightarrow> Url \<Rightarrow> HttpCache \<Rightarrow> HttpCache" where
  "HttpCache_invalidate profile part url c =
     c\<lparr>hc_values := bt_remove (profile, part, url_as_str url) (hc_values c)\<rparr>"

definition HttpCache_invalidate_partition :: "ProfileId \<Rightarrow> string \<Rightarrow> HttpCache \<Rightarrow> HttpCache" where
  "HttpCache_invalidate_partition profile part c =
     c\<lparr>hc_values := bt_retain (\<lambda>(p, q, _) _. p \<noteq> profile \<or> q \<noteq> part) (hc_values c)\<rparr>"

definition HttpCache_len :: "HttpCache \<Rightarrow> nat" where
  "HttpCache_len c = length (hc_values c)"

record CacheEntry =
  ce_profile :: ProfileId
  ce_partition :: string
  ce_url :: string
  ce_response :: CachedResponse

record CacheWire =
  cw_max_entries :: nat
  cw_entries :: "CacheEntry list"

definition to_entry :: "CacheKey \<times> CachedResponse \<Rightarrow> CacheEntry" where
  "to_entry e = (case e of ((profile, part, url), response) \<Rightarrow>
     \<lparr>ce_profile = profile, ce_partition = part, ce_url = url, ce_response = response\<rparr>)"

definition HttpCache_to_json :: "(CacheWire \<Rightarrow> 'err + 'text) \<Rightarrow> HttpCache \<Rightarrow> 'err + 'text" where
  "HttpCache_to_json encode c =
     encode \<lparr>cw_max_entries = hc_max_entries c, cw_entries = map to_entry (hc_values c)\<rparr>"

definition HttpCache_from_json :: "('text \<Rightarrow> 'err + CacheWire) \<Rightarrow> 'text \<Rightarrow> 'err + HttpCache" where
  "HttpCache_from_json decode val =
     (case decode val of
        Inl e \<Rightarrow> Inl e
      | Inr wire \<Rightarrow>
          let values = bt_collect (map (\<lambda>e. ((ce_profile e, ce_partition e, ce_url e), ce_response e)) (cw_entries wire))
          in Inr \<lparr>hc_values = values, hc_max_entries = max (max (cw_max_entries wire) 1) (length values)\<rparr>)"

record CacheStorage =
  cs_caches :: "(CacheKey, HttpCache) BTreeMap"

definition CacheStorage_default :: CacheStorage where
  "CacheStorage_default = \<lparr>cs_caches = []\<rparr>"

definition CacheStorage_open :: "ProfileId \<Rightarrow> string \<Rightarrow> string \<Rightarrow> nat \<Rightarrow> CacheStorage \<Rightarrow> CacheStorage" where
  "CacheStorage_open profile part name max_entries s =
     s\<lparr>cs_caches := bt_or_insert (profile, part, name) (HttpCache_with_capacity max_entries) (cs_caches s)\<rparr>"

definition CacheStorage_put ::
    "ProfileId \<Rightarrow> string \<Rightarrow> string \<Rightarrow> Url \<Rightarrow> CachedResponse \<Rightarrow> CacheStorage \<Rightarrow> bool \<times> CacheStorage" where
  "CacheStorage_put profile part name url response s =
     (if bt_contains_key (cs_caches s) (profile, part, name)
      then (True, s\<lparr>cs_caches := bt_adjust (profile, part, name)
                     (HttpCache_put profile part url response) (cs_caches s)\<rparr>)
      else (False, s))"

definition CacheStorage_match_response ::
    "CacheStorage \<Rightarrow> ProfileId \<Rightarrow> string \<Rightarrow> string \<Rightarrow> Url \<Rightarrow> CachedResponse option" where
  "CacheStorage_match_response s profile part name url =
     (case bt_get (cs_caches s) (profile, part, name) of
        None \<Rightarrow> None
      | Some c \<Rightarrow> HttpCache_get c profile part url)"

definition CacheStorage_delete_response ::
    "ProfileId \<Rightarrow> string \<Rightarrow> string \<Rightarrow> Url \<Rightarrow> CacheStorage \<Rightarrow> bool \<times> CacheStorage" where
  "CacheStorage_delete_response profile part name url s =
     (case bt_get (cs_caches s) (profile, part, name) of
        None \<Rightarrow> (False, s)
      | Some c \<Rightarrow> (HttpCache_get c profile part url \<noteq> None,
                  s\<lparr>cs_caches := bt_adjust (profile, part, name)
                     (HttpCache_invalidate profile part url) (cs_caches s)\<rparr>))"

definition CacheStorage_delete_cache :: "ProfileId \<Rightarrow> string \<Rightarrow> string \<Rightarrow> CacheStorage \<Rightarrow> bool \<times> CacheStorage" where
  "CacheStorage_delete_cache profile part name s =
     (bt_contains_key (cs_caches s) (profile, part, name),
      s\<lparr>cs_caches := bt_remove (profile, part, name) (cs_caches s)\<rparr>)"

definition CacheStorage_names :: "CacheStorage \<Rightarrow> ProfileId \<Rightarrow> string \<Rightarrow> string list" where
  "CacheStorage_names s profile part =
     map (\<lambda>(_, _, name). name) [k \<leftarrow> bt_keys (cs_caches s). fst k = profile \<and> fst (snd k) = part]"

record NamedCache =
  nc_profile :: ProfileId
  nc_partition :: string
  nc_name :: string
  nc_max_entries :: nat
  nc_entries :: "CacheEntry list"

text \<open>The entries of a named cache are written with the profile and partition of the cache.\<close>

definition to_named :: "CacheKey \<times> HttpCache \<Rightarrow> NamedCache" where
  "to_named e = (case e of ((profile, part, name), c) \<Rightarrow>
     \<lparr>nc_profile = profile, nc_partition = part, nc_name = name, nc_max_entries = hc_max_entries c,
      nc_entries = map (\<lambda>((_, _, url), response). to_entry ((profile, part, url), response)) (hc_values c)\<rparr>)"

lemma to_named_simps [simp]:
  "nc_profile (to_named ((p, q, n), c)) = p" "nc_partition (to_named ((p, q, n), c)) = q"
  "nc_name (to_named ((p, q, n), c)) = n" "nc_max_entries (to_named ((p, q, n), c)) = hc_max_entries c"
  "nc_entries (to_named ((p, q, n), c)) = map (\<lambda>((_, _, url), response). to_entry ((p, q, url), response)) (hc_values c)"
  by (simp_all add: to_named_def)

definition CacheStorage_to_json :: "(NamedCache list \<Rightarrow> 'err + 'text) \<Rightarrow> CacheStorage \<Rightarrow> 'err + 'text" where
  "CacheStorage_to_json encode s = encode (map to_named (cs_caches s))"

fun put_entries :: "(string \<Rightarrow> 'err + Url) \<Rightarrow> CacheEntry list \<Rightarrow> HttpCache \<Rightarrow> 'err + HttpCache" where
  "put_entries parse [] c = Inr c"
| "put_entries parse (e # es) c =
     (case parse (ce_url e) of
        Inl err \<Rightarrow> Inl err
      | Inr url \<Rightarrow> put_entries parse es (HttpCache_put (ce_profile e) (ce_partition e) url (ce_response e) c))"

fun load_caches :: "(string \<Rightarrow> 'err + Url) \<Rightarrow> NamedCache list \<Rightarrow> CacheStorage \<Rightarrow> 'err + CacheStorage" where
  "load_caches parse [] s = Inr s"
| "load_caches parse (n # ns) s =
     (case put_entries parse (nc_entries n) (HttpCache_with_capacity (nc_max_entries n)) of
        Inl err \<Rightarrow> Inl err
      | Inr restored \<Rightarrow> load_caches parse ns
          (s\<lparr>cs_caches := bt_insert (nc_profile n, nc_partition n, nc_name n) restored (cs_caches s)\<rparr>))"

definition CacheStorage_from_json ::
    "('text \<Rightarrow> 'err + NamedCache list) \<Rightarrow> (string \<Rightarrow> 'err + Url) \<Rightarrow> 'text \<Rightarrow> 'err + CacheStorage" where
  "CacheStorage_from_json decode parse val =
     (case decode val of Inl e \<Rightarrow> Inl e | Inr wire \<Rightarrow> load_caches parse wire CacheStorage_default)"

subsection \<open>Capacity\<close>

lemma bt_length: "bt_ok m \<Longrightarrow> length m = card (set (bt_keys m))"
  by (metis bt_ok_distinct distinct_card length_map)

lemma bt_keys_insert: "set (bt_keys (bt_insert k v m)) = insert k (set (bt_keys m))"
proof (rule set_eqI)
  fix j
  have "j \<in> set (bt_keys n) \<longleftrightarrow> bt_get n j \<noteq> None" for n :: "('a, 'b) BTreeMap"
    by (simp add: bt_get_None_iff)
  then show "j \<in> set (bt_keys (bt_insert k v m)) \<longleftrightarrow> j \<in> insert k (set (bt_keys m))" by simp
qed

lemma bt_length_insert:
  "bt_ok m \<Longrightarrow> length (bt_insert k v m) = (if bt_contains_key m k then length m else Suc (length m))"
proof -
  assume m: "bt_ok m"
  have "length (bt_insert k v m) = card (insert k (set (bt_keys m)))"
    unfolding bt_length [OF bt_ok_insert [OF m]] bt_keys_insert by (rule refl)
  then show ?thesis unfolding bt_length [OF m] by (simp add: bt_contains_key_iff card_insert_if)
qed

text \<open>A cache in order: its entries fit the limit, up to the largest \<open>usize\<close>, and the limit is positive.\<close>

definition cache_ok :: "HttpCache \<Rightarrow> bool" where
  "cache_ok c = (bt_ok (hc_values c) \<and> min (length (hc_values c)) usize_max \<le> hc_max_entries c \<and> hc_max_entries c \<ge> 1)"

lemma cache_ok_empty [keeps]: "cache_ok (HttpCache_with_capacity n)"
  by (simp add: cache_ok_def HttpCache_with_capacity_def)

lemma cache_ok_put [keeps]: "cache_ok c \<Longrightarrow> cache_ok (HttpCache_put p q url r c)"
  by (auto simp: cache_ok_def HttpCache_put_def Let_def bt_length_insert usize_max_def)

lemma cache_ok_invalidate [keeps]: "cache_ok c \<Longrightarrow> cache_ok (HttpCache_invalidate p q url c)"
proof -
  assume c: "cache_ok c"
  have "length (bt_remove (p, q, url_as_str url) (hc_values c)) \<le> length (hc_values c)"
    by (simp add: bt_remove_def)
  with c show ?thesis unfolding cache_ok_def HttpCache_invalidate_def by auto
qed

lemma put_get:
  "HttpCache_get (HttpCache_put p q url r c) p' q' url' =
     (if p' = p \<and> q' = q \<and> url_eq url' url then Some r else HttpCache_get c p' q' url')"
  by (auto simp: HttpCache_get_def HttpCache_put_def Let_def url_eq_def)

subsection \<open>Restoring\<close>

text \<open>
  A storage in order: every cache is in order, its entries carry the profile and partition of the
  cache, and their URL texts are among \<open>U\<close>.
\<close>

definition named_ok :: "string set \<Rightarrow> CacheKey \<Rightarrow> HttpCache \<Rightarrow> bool" where
  "named_ok U k c = (cache_ok c \<and> (\<forall>p q u. (p, q, u) \<in> set (bt_keys (hc_values c)) \<longrightarrow>
     p = fst k \<and> q = fst (snd k) \<and> u \<in> U))"

definition storage_ok :: "string set \<Rightarrow> CacheStorage \<Rightarrow> bool" where
  "storage_ok U s = (bt_ok (cs_caches s) \<and> (\<forall>k c. (k, c) \<in> set (cs_caches s) \<longrightarrow> named_ok U k c))"

datatype CacheOp =
    CacheOpen ProfileId string string nat
  | CachePut ProfileId string string Url CachedResponse
  | CacheDelete ProfileId string string Url
  | CacheDrop ProfileId string string

fun cache_apply :: "CacheOp \<Rightarrow> CacheStorage \<Rightarrow> CacheStorage" where
  "cache_apply (CacheOpen p q n m) s = CacheStorage_open p q n m s"
| "cache_apply (CachePut p q n u r) s = snd (CacheStorage_put p q n u r s)"
| "cache_apply (CacheDelete p q n u) s = snd (CacheStorage_delete_response p q n u s)"
| "cache_apply (CacheDrop p q n) s = snd (CacheStorage_delete_cache p q n s)"

fun op_urls :: "CacheOp \<Rightarrow> string set" where
  "op_urls (CachePut p q n u r) = {url_as_str u}"
| "op_urls _ = {}"

lemma named_ok_put: "named_ok U (p, q, n) c \<Longrightarrow> url_as_str u \<in> U \<Longrightarrow> named_ok U (p, q, n) (HttpCache_put p q u r c)"
proof -
  assume c: "named_ok U (p, q, n) c" and u: "url_as_str u \<in> U"
  have keys: "set (bt_keys (hc_values (HttpCache_put p q u r c))) =
      insert (p, q, url_as_str u) (set (bt_keys (hc_values c)))"
    by (simp add: HttpCache_put_def Let_def bt_keys_insert [simplified])
  show ?thesis unfolding named_ok_def keys using c u by (auto simp: named_ok_def cache_ok_put)
qed

lemma named_ok_invalidate: "named_ok U k c \<Longrightarrow> named_ok U k (HttpCache_invalidate p q u c)"
  by (simp add: named_ok_def cache_ok_invalidate) (auto simp: HttpCache_invalidate_def bt_remove_def)

lemma storage_ok_get:
  "storage_ok U s \<longleftrightarrow> bt_ok (cs_caches s) \<and> (\<forall>k c. bt_get (cs_caches s) k = Some c \<longrightarrow> named_ok U k c)"
proof (cases "bt_ok (cs_caches s)")
  case True
  show ?thesis unfolding storage_ok_def by (simp only: True bt_get_iff_in [OF True])
qed (simp add: storage_ok_def)

lemma storage_ok_apply:
  assumes "storage_ok U s" "op_urls x \<subseteq> U"
  shows "storage_ok U (cache_apply x s)"
proof -
  have ok: "bt_ok (cs_caches s)" and named: "\<And>k c. bt_get (cs_caches s) k = Some c \<Longrightarrow> named_ok U k c"
    using assms(1) by (auto simp: storage_ok_get)
  have "bt_ok (cs_caches (cache_apply x s))"
    using ok by (cases x) (simp_all add: CacheStorage_open_def CacheStorage_put_def
        CacheStorage_delete_response_def CacheStorage_delete_cache_def split: option.split)
  moreover have "named_ok U k c" if "bt_get (cs_caches (cache_apply x s)) k = Some c" for k c
  proof (cases x)
    case (CacheOpen p q n m)
    have "named_ok U k (HttpCache_with_capacity m)"
      using cache_ok_empty [of m] by (simp add: named_ok_def HttpCache_with_capacity_def)
    with that named show ?thesis
      by (auto simp: CacheOpen CacheStorage_open_def split: if_splits option.splits)
  next
    case (CachePut p q n u r)
    with that named named_ok_put [of U p q n _ u r] assms(2) show ?thesis
      by (auto simp: CacheStorage_put_def split: if_splits)
  next
    case (CacheDelete p q n u)
    with that named named_ok_invalidate show ?thesis
      by (auto simp: CacheStorage_delete_response_def split: if_splits option.splits)
  next
    case (CacheDrop p q n)
    with that named show ?thesis by (auto simp: CacheStorage_delete_cache_def split: if_splits)
  qed
  ultimately show ?thesis by (simp add: storage_ok_get)
qed

lemma storage_ok_run:
  "storage_ok U s \<Longrightarrow> \<forall>x \<in> set xs. op_urls x \<subseteq> U \<Longrightarrow> storage_ok U (fold cache_apply xs s)"
  by (induction xs arbitrary: s) (simp_all add: storage_ok_apply)

text \<open>Putting the entries of a cache back in key order never meets the limit.\<close>

lemma bt_insert_last: "bt_ok (m @ [(k, v)]) \<Longrightarrow> bt_insert k v m = m @ [(k, v)]"
proof -
  assume "bt_ok (m @ [(k, v)])"
  then have "\<forall>e \<in> set m. fst e < k" by (auto simp: bt_ok_def sorted_wrt_append)
  then have "[e \<leftarrow> m. fst e < k] = m" "[e \<leftarrow> m. k < fst e] = []" by (auto simp: filter_id_conv filter_empty_conv)
  then show ?thesis by (simp add: bt_insert_def)
qed

lemma put_entries_restores:
  assumes "\<And>u. u \<in> U \<Longrightarrow> \<exists>url. parse u = Inr url \<and> url_as_str url = u"
    and "bt_ok (done @ rest)" "length (done @ rest) \<le> limit"
    and "\<forall>p' q' u. (p', q', u) \<in> set (bt_keys rest) \<longrightarrow> p' = p \<and> q' = q \<and> u \<in> U"
  shows "put_entries parse (map (\<lambda>((_, _, u), r). to_entry ((p, q, u), r)) rest)
      \<lparr>hc_values = done, hc_max_entries = limit\<rparr> = Inr \<lparr>hc_values = done @ rest, hc_max_entries = limit\<rparr>"
  using assms(2-)
proof (induction rest arbitrary: "done")
  case (Cons e rest)
  obtain p' q' u r where e': "e = ((p', q', u), r)" by (cases e) auto
  then have "(p', q', u) \<in> set (bt_keys (e # rest))" by simp
  then have e: "e = ((p, q, u), r)" "u \<in> U" using Cons.prems(3) e' by blast+
  from assms(1) [OF e(2)] obtain url where url: "parse u = Inr url" "url_as_str url = u" by blast
  have ok: "bt_ok (done @ [e])"
    using Cons.prems(1) by (auto simp: bt_ok_def sorted_wrt_append)
  then have "HttpCache_put p q url r \<lparr>hc_values = done, hc_max_entries = limit\<rparr>
      = \<lparr>hc_values = done @ [e], hc_max_entries = limit\<rparr>"
    using Cons.prems(2) bt_insert_last [of "done" "(p, q, u)" r] by (simp add: e HttpCache_put_def Let_def url(2))
  moreover have "put_entries parse (map (\<lambda>((_, _, u), r). to_entry ((p, q, u), r)) rest)
      \<lparr>hc_values = done @ [e], hc_max_entries = limit\<rparr> = Inr \<lparr>hc_values = (done @ [e]) @ rest, hc_max_entries = limit\<rparr>"
    using Cons.prems by (intro Cons.IH) auto
  ultimately show ?case by (simp add: e to_entry_def url(1))
qed simp

lemma load_caches_restores:
  assumes "\<And>u. u \<in> U \<Longrightarrow> \<exists>url. parse u = Inr url \<and> url_as_str url = u"
    and "bt_ok (done @ rest)" "\<forall>k c. (k, c) \<in> set rest \<longrightarrow> named_ok U k c \<and> HttpCache_len c \<le> usize_max"
  shows "load_caches parse (map to_named rest) \<lparr>cs_caches = done\<rparr> = Inr \<lparr>cs_caches = done @ rest\<rparr>"
  using assms(2-)
proof (induction rest arbitrary: "done")
  case (Cons e rest)
  obtain p q n c where e: "e = ((p, q, n), c)" by (cases e) auto
  with Cons.prems(2) have c: "named_ok U (p, q, n) c" "HttpCache_len c \<le> usize_max" by auto
  then have limit: "max (hc_max_entries c) 1 = hc_max_entries c" "length (hc_values c) \<le> hc_max_entries c"
    "bt_ok (hc_values c)"
    by (auto simp: named_ok_def cache_ok_def HttpCache_len_def)
  have "put_entries parse (nc_entries (to_named e)) (HttpCache_with_capacity (nc_max_entries (to_named e))) = Inr c"
    using put_entries_restores [of U parse "[]" "hc_values c" "hc_max_entries c" p q] assms(1) c(1) limit
    by (simp add: e HttpCache_with_capacity_def named_ok_def)
  moreover have "bt_ok (done @ [e])"
    using Cons.prems(1) by (auto simp: bt_ok_def sorted_wrt_append)
  then have "bt_insert (p, q, n) c done = done @ [e]" unfolding e by (rule bt_insert_last)
  moreover have "load_caches parse (map to_named rest) \<lparr>cs_caches = done @ [e]\<rparr> = Inr \<lparr>cs_caches = (done @ [e]) @ rest\<rparr>"
    using Cons.prems by (intro Cons.IH) auto
  ultimately show ?case by (simp add: e)
qed simp

subsection \<open>Properties\<close>

text \<open>
  A cache storage survives being saved and restored unchanged, caches, entries and limits alike,
  after any sequence of its operations: provided the codec restores what it encoded, \<open>Url::parse\<close>
  gives back a URL with the same text for every URL that was stored, and the number of entries of
  a cache fits in a \<open>usize\<close>.
\<close>

theorem cache_storage_round_trip:
  assumes "\<And>x. x \<in> set xs \<Longrightarrow> op_urls x \<subseteq> U"
    and "\<And>u. u \<in> U \<Longrightarrow> \<exists>url. parse u = Inr url \<and> url_as_str url = u"
    and "\<And>wire. decode (encode wire) = Inr wire"
    and "\<And>k c. (k, c) \<in> set (cs_caches (fold cache_apply xs CacheStorage_default)) \<Longrightarrow> HttpCache_len c \<le> usize_max"
  shows "\<exists>text. CacheStorage_to_json (Inr \<circ> encode) (fold cache_apply xs CacheStorage_default) = Inr text \<and>
    CacheStorage_from_json decode parse text = Inr (fold cache_apply xs CacheStorage_default)"
proof -
  let ?s = "fold cache_apply xs CacheStorage_default"
  have "storage_ok U CacheStorage_default" by (simp add: storage_ok_def CacheStorage_default_def)
  then have "storage_ok U ?s" using assms(1) by (intro storage_ok_run) auto
  then have "load_caches parse (map to_named (cs_caches ?s)) CacheStorage_default = Inr ?s"
    using load_caches_restores [OF assms(2), of U "[]" "cs_caches ?s"] assms(4)
    by (simp add: storage_ok_def CacheStorage_default_def)
  then show ?thesis by (simp add: CacheStorage_to_json_def CacheStorage_from_json_def assms(3))
qed

definition sample_cache_url :: Url where
  "sample_cache_url = \<lparr>url_as_str = ''https://a/'', url_scheme = ''https'', url_username = [],
     url_password = None, url_host_str = Some ''a'', url_port_or_known_default = Some 443, url_path = ''/'',
     url_query = None, url_fragment = None, url_origin = TupleOrigin ''https'' ''a'' 443,
     url_origin_ascii = ''https://a''\<rparr>"

definition sample_cache_ops :: "CacheOp list" where
  "sample_cache_ops = [CacheOpen 1 ''p'' ''n'' 0,
     CachePut 1 ''p'' ''n'' sample_cache_url \<lparr>cr_status = 200, cr_headers = [], cr_body = ''b''\<rparr>]"

theorem cache_storage_round_trip_witness:
  "\<exists>text. CacheStorage_to_json (Inr \<circ> id) (fold cache_apply sample_cache_ops CacheStorage_default) = Inr text \<and>
    CacheStorage_from_json Inr (\<lambda>_. Inr sample_cache_url :: unit + Url) text
      = Inr (fold cache_apply sample_cache_ops CacheStorage_default)"
proof (rule cache_storage_round_trip [where U = "{''https://a/''}"])
  show "op_urls x \<subseteq> {''https://a/''}" if "x \<in> set sample_cache_ops" for x
    using that by (auto simp: sample_cache_ops_def sample_cache_url_def)
  have "list_all (\<lambda>e. length (hc_values (snd e)) \<le> 1) (cs_caches (fold cache_apply sample_cache_ops CacheStorage_default))"
    by code_simp
  then show "HttpCache_len c \<le> usize_max"
    if "(k, c) \<in> set (cs_caches (fold cache_apply sample_cache_ops CacheStorage_default))" for k c
    using that by (force simp: list_all_iff HttpCache_len_def usize_max_def)
qed (simp_all add: sample_cache_url_def)

text \<open>
  A full cache grows instead of evicting: a put changes the answer for its own key only, and the
  entries stay within the limit as long as their number is a \<open>usize\<close>.
\<close>

lemma put_never_evicts:
  assumes "cache_ok c" "Suc (HttpCache_len c) \<le> usize_max"
  shows "HttpCache_get (HttpCache_put p q url r c) p' q' url' =
      (if p' = p \<and> q' = q \<and> url_eq url' url then Some r else HttpCache_get c p' q' url')"
    and "HttpCache_len (HttpCache_put p q url r c) \<le> hc_max_entries (HttpCache_put p q url r c)"
proof -
  have "HttpCache_len (HttpCache_put p q url r c) \<le> usize_max"
    using assms by (auto simp: HttpCache_len_def HttpCache_put_def Let_def bt_length_insert cache_ok_def)
  with cache_ok_put [OF assms(1), of p q url r]
  show "HttpCache_len (HttpCache_put p q url r c) \<le> hc_max_entries (HttpCache_put p q url r c)"
    by (simp add: cache_ok_def HttpCache_len_def)
qed (rule put_get)

end
