(* ===== verification/ServiceWorkers.thy ===== *)
theory ServiceWorkers
  imports Web Text
begin

section \<open>Service workers and shadow trees\<close>

text \<open>
  The crates \<open>crates/service-worker\<close> and \<open>crates/shadow-dom\<close>, two registries of page components: the
  workers of a scope with their life cycle and the responses they intercept, and the shadow roots of
  hosts with the children and selectors an agent may see. \<open>Url::parse\<close> and fresh identifiers are
  arguments.
\<close>

subsection \<open>Workers\<close>

datatype WorkerState = Installing | Installed | Activating | Activated | Redundant

record Registration =
  reg_scope :: Url
  reg_script_url :: Url
  reg_state :: WorkerState

record FetchResponse =
  fres_status :: u16
  fres_body :: string

record ServiceWorkerRegistry =
  sw_registrations :: "(string, Registration) BTreeMap"
  sw_responses :: "(string, FetchResponse) BTreeMap"

definition ServiceWorkerRegistry_default :: ServiceWorkerRegistry where
  "ServiceWorkerRegistry_default = \<lparr>sw_registrations = [], sw_responses = []\<rparr>"

definition ServiceWorkerRegistry_register ::
    "Url \<Rightarrow> Url \<Rightarrow> ServiceWorkerRegistry \<Rightarrow> Registration \<times> ServiceWorkerRegistry" where
  "ServiceWorkerRegistry_register scope script_url s =
     (let r = \<lparr>reg_scope = scope, reg_script_url = script_url, reg_state = Activated\<rparr>
      in (r, s\<lparr>sw_registrations := bt_insert (url_as_str scope) r (sw_registrations s)\<rparr>))"

definition ServiceWorkerRegistry_get :: "ServiceWorkerRegistry \<Rightarrow> Url \<Rightarrow> Registration option" where
  "ServiceWorkerRegistry_get s scope = bt_get (sw_registrations s) (url_as_str scope)"

fun valid_transition :: "WorkerState \<Rightarrow> WorkerState \<Rightarrow> bool" where
  "valid_transition Installing Installed = True"
| "valid_transition Installing Redundant = True"
| "valid_transition Installed Activating = True"
| "valid_transition Installed Redundant = True"
| "valid_transition Activating Activated = True"
| "valid_transition Activating Redundant = True"
| "valid_transition Activated Redundant = True"
| "valid_transition _ _ = False"

definition ServiceWorkerRegistry_transition ::
    "Url \<Rightarrow> WorkerState \<Rightarrow> ServiceWorkerRegistry \<Rightarrow> Registration option \<times> ServiceWorkerRegistry" where
  "ServiceWorkerRegistry_transition scope next s =
     (case bt_get (sw_registrations s) (url_as_str scope) of
        None \<Rightarrow> (None, s)
      | Some r \<Rightarrow>
          if \<not> valid_transition (reg_state r) next then (None, s)
          else (Some (r\<lparr>reg_state := next\<rparr>),
                s\<lparr>sw_registrations := bt_adjust (url_as_str scope) (\<lambda>r. r\<lparr>reg_state := next\<rparr>) (sw_registrations s)\<rparr>))"

definition scope_contains :: "Url \<Rightarrow> Url \<Rightarrow> bool" where
  "scope_contains scope url =
     (let scope_path = url_path scope;
          path_matches = (if suffix ''/'' scope_path then prefix scope_path (url_path url)
                          else url_path url = scope_path \<or> prefix (scope_path @ ''/'') (url_path url))
      in url_scheme scope = url_scheme url \<and> url_host_str scope = url_host_str url
         \<and> url_port_or_known_default scope = url_port_or_known_default url \<and> path_matches)"

definition ServiceWorkerRegistry_unregister ::
    "(string \<Rightarrow> Url option) \<Rightarrow> Url \<Rightarrow> ServiceWorkerRegistry \<Rightarrow> bool \<times> ServiceWorkerRegistry" where
  "ServiceWorkerRegistry_unregister parse scope s =
     (let removed = bt_contains_key (sw_registrations s) (url_as_str scope);
          s' = s\<lparr>sw_registrations := bt_remove (url_as_str scope) (sw_registrations s)\<rparr>
      in (removed,
          if removed
          then s'\<lparr>sw_responses := bt_retain (\<lambda>url _. case parse url of None \<Rightarrow> True
                     | Some candidate \<Rightarrow> \<not> scope_contains scope candidate) (sw_responses s')\<rparr>
          else s'))"

definition ServiceWorkerRegistry_intercept ::
    "Url \<Rightarrow> FetchResponse \<Rightarrow> ServiceWorkerRegistry \<Rightarrow> ServiceWorkerRegistry" where
  "ServiceWorkerRegistry_intercept url response s =
     s\<lparr>sw_responses := bt_insert (url_as_str url) response (sw_responses s)\<rparr>"

text \<open>\<open>max_by_key\<close> keeps the last of several maximal elements.\<close>

definition max_by_key :: "('a \<Rightarrow> nat) \<Rightarrow> 'a list \<Rightarrow> 'a option" where
  "max_by_key f xs = fold (\<lambda>x best. case best of None \<Rightarrow> Some x
     | Some b \<Rightarrow> if f x \<ge> f b then Some x else Some b) xs None"

definition ServiceWorkerRegistry_controller :: "ServiceWorkerRegistry \<Rightarrow> Url \<Rightarrow> Registration option" where
  "ServiceWorkerRegistry_controller s url =
     max_by_key (\<lambda>r. length (url_as_str (reg_scope r)))
       [r \<leftarrow> bt_values (sw_registrations s). reg_state r = Activated \<and> scope_contains (reg_scope r) url]"

definition ServiceWorkerRegistry_fetch :: "ServiceWorkerRegistry \<Rightarrow> Url \<Rightarrow> FetchResponse option" where
  "ServiceWorkerRegistry_fetch s url =
     (case ServiceWorkerRegistry_controller s url of
        None \<Rightarrow> None
      | Some _ \<Rightarrow> bt_get (sw_responses s) (url_as_str url))"

lemma max_by_key_fold:
  "fold (\<lambda>x best. case best of None \<Rightarrow> Some x
     | Some b \<Rightarrow> if f x \<ge> f b then Some x else Some (b :: 'a)) xs (Some b) = Some m \<Longrightarrow>
   m \<in> insert b (set xs) \<and> (\<forall>x \<in> insert b (set xs). f x \<le> (f m :: nat))"
proof (induction xs arbitrary: b)
  case (Cons x xs)
  show ?case
  proof (cases "f x \<ge> f b")
    case True
    with Cons.prems have "fold (\<lambda>x best. case best of None \<Rightarrow> Some x
      | Some b \<Rightarrow> if f x \<ge> f b then Some x else Some b) xs (Some x) = Some m" by simp
    from Cons.IH [OF this] True show ?thesis by auto
  next
    case False
    with Cons.prems have "fold (\<lambda>x best. case best of None \<Rightarrow> Some x
      | Some b \<Rightarrow> if f x \<ge> f b then Some x else Some b) xs (Some b) = Some m" by simp
    from Cons.IH [OF this] False show ?thesis by auto
  qed
qed simp

lemma max_by_key_is_max:
  "max_by_key f xs = Some m \<Longrightarrow> m \<in> set xs \<and> (\<forall>x \<in> set xs. f x \<le> f m)"
  unfolding max_by_key_def using max_by_key_fold [of f "tl xs" "hd xs" m] by (cases xs) auto

text \<open>
  A page is controlled by an activated worker whose scope contains it, the one with the longest
  scope, and answered only then.
\<close>

lemma controller_is_the_longest_active_scope:
  assumes "bt_ok (sw_registrations s)" "ServiceWorkerRegistry_controller s url = Some r"
  shows "\<exists>k. bt_get (sw_registrations s) k = Some r"
    and "reg_state r = Activated" "scope_contains (reg_scope r) url"
    and "bt_get (sw_registrations s) j = Some q \<Longrightarrow> reg_state q = Activated \<Longrightarrow> scope_contains (reg_scope q) url \<Longrightarrow>
      length (url_as_str (reg_scope q)) \<le> length (url_as_str (reg_scope r))"
proof -
  note m = max_by_key_is_max [OF assms(2) [unfolded ServiceWorkerRegistry_controller_def]]
  from m show "reg_state r = Activated" "scope_contains (reg_scope r) url" by auto
  from m obtain k where "(k, r) \<in> set (sw_registrations s)" by auto
  then show "\<exists>k. bt_get (sw_registrations s) k = Some r" using bt_in_get [OF assms(1)] by blast
  show "length (url_as_str (reg_scope q)) \<le> length (url_as_str (reg_scope r))"
    if "bt_get (sw_registrations s) j = Some q" "reg_state q = Activated" "scope_contains (reg_scope q) url"
    using m that bt_get_Some_in [OF that(1)] by force
qed

text \<open>A redundant worker never leaves that state but by a new registration of its scope.\<close>

datatype WorkerOp =
    SwRegister Url Url
  | SwTransition Url WorkerState
  | SwUnregister Url
  | SwIntercept Url FetchResponse

fun worker_apply :: "(string \<Rightarrow> Url option) \<Rightarrow> WorkerOp \<Rightarrow> ServiceWorkerRegistry \<Rightarrow> ServiceWorkerRegistry" where
  "worker_apply parse (SwRegister scope script) s = snd (ServiceWorkerRegistry_register scope script s)"
| "worker_apply parse (SwTransition scope next) s = snd (ServiceWorkerRegistry_transition scope next s)"
| "worker_apply parse (SwUnregister scope) s = snd (ServiceWorkerRegistry_unregister parse scope s)"
| "worker_apply parse (SwIntercept url response) s = ServiceWorkerRegistry_intercept url response s"

fun registers :: "string \<Rightarrow> WorkerOp \<Rightarrow> bool" where
  "registers k (SwRegister scope script) = (url_as_str scope = k)"
| "registers k _ = False"

definition not_active :: "string \<Rightarrow> ServiceWorkerRegistry \<Rightarrow> bool" where
  "not_active k s = (\<forall>r. bt_get (sw_registrations s) k = Some r \<longrightarrow> reg_state r = Redundant)"

lemma redundant_transition [simp]: "\<not> valid_transition Redundant next"
  by (cases "next") simp_all

lemma not_active_apply: "not_active k s \<Longrightarrow> \<not> registers k x \<Longrightarrow> not_active k (worker_apply parse x s)"
  by (cases x) (auto simp: not_active_def ServiceWorkerRegistry_register_def ServiceWorkerRegistry_transition_def
      ServiceWorkerRegistry_unregister_def ServiceWorkerRegistry_intercept_def Let_def split: option.splits if_splits)

lemma redundant_worker_stays_redundant:
  "not_active k s \<Longrightarrow> \<forall>x \<in> set xs. \<not> registers k x \<Longrightarrow> not_active k (fold (worker_apply parse) xs s)"
  by (induction xs arbitrary: s) (simp_all add: not_active_apply)

text \<open>Unregistering a scope forgets every intercepted response inside it.\<close>

lemma unregister_forgets_scope:
  assumes "bt_ok (sw_responses s)" "bt_contains_key (sw_registrations s) (url_as_str scope)"
    and "parse (url_as_str url) = Some url" "scope_contains scope url"
  shows "ServiceWorkerRegistry_fetch (snd (ServiceWorkerRegistry_unregister parse scope s)) url = None"
  using assms by (auto simp: ServiceWorkerRegistry_fetch_def ServiceWorkerRegistry_unregister_def Let_def bt_get_retain
      split: option.split)

subsection \<open>Shadow trees\<close>

datatype ShadowRootMode = OpenRoot | ClosedRoot

record ShadowRoot =
  sr_id :: uuid
  sr_host_node :: u64
  sr_mode :: ShadowRootMode
  sr_children :: "u64 list"

datatype ShadowEvent =
    RootAttached uuid u64
  | ChildAdded uuid u64
  | ChildRemoved uuid u64

record ShadowDomRegistry =
  sd_roots :: "(uuid, ShadowRoot) BTreeMap"
  sd_selectors :: "(uuid \<times> u64, string list) BTreeMap"
  sd_events :: "ShadowEvent list"

definition ShadowDomRegistry_default :: ShadowDomRegistry where
  "ShadowDomRegistry_default = \<lparr>sd_roots = [], sd_selectors = [], sd_events = []\<rparr>"

definition ShadowDomRegistry_root_for_host :: "ShadowDomRegistry \<Rightarrow> u64 \<Rightarrow> ShadowRoot option" where
  "ShadowDomRegistry_root_for_host s host_node = find (\<lambda>r. sr_host_node r = host_node) (bt_values (sd_roots s))"

definition ShadowDomRegistry_attach ::
    "uuid \<Rightarrow> u64 \<Rightarrow> ShadowRootMode \<Rightarrow> ShadowDomRegistry \<Rightarrow> uuid \<times> ShadowDomRegistry" where
  "ShadowDomRegistry_attach fresh host_node mode s =
     (case find (\<lambda>r. sr_host_node r = host_node) (bt_values (sd_roots s)) of
        Some existing \<Rightarrow> (sr_id existing, s)
      | None \<Rightarrow>
          (fresh, s\<lparr>sd_roots := bt_insert fresh \<lparr>sr_id = fresh, sr_host_node = host_node, sr_mode = mode,
                                sr_children = []\<rparr> (sd_roots s),
                    sd_events := sd_events s @ [RootAttached fresh host_node]\<rparr>))"

definition ShadowDomRegistry_add_child :: "uuid \<Rightarrow> u64 \<Rightarrow> ShadowDomRegistry \<Rightarrow> bool \<times> ShadowDomRegistry" where
  "ShadowDomRegistry_add_child root node s =
     (case bt_get (sd_roots s) root of
        None \<Rightarrow> (False, s)
      | Some r \<Rightarrow>
          if node \<in> set (sr_children r) then (False, s)
          else (True, s\<lparr>sd_roots := bt_adjust root (\<lambda>r. r\<lparr>sr_children := sr_children r @ [node]\<rparr>) (sd_roots s),
                        sd_events := sd_events s @ [ChildAdded root node]\<rparr>))"

definition ShadowDomRegistry_remove_child :: "uuid \<Rightarrow> u64 \<Rightarrow> ShadowDomRegistry \<Rightarrow> bool \<times> ShadowDomRegistry" where
  "ShadowDomRegistry_remove_child root node s =
     (case bt_get (sd_roots s) root of
        None \<Rightarrow> (False, s)
      | Some r \<Rightarrow>
          let kept = [c \<leftarrow> sr_children r. c \<noteq> node];
              s' = s\<lparr>sd_roots := bt_adjust root (\<lambda>r. r\<lparr>sr_children := kept\<rparr>) (sd_roots s)\<rparr>;
              removed = (length kept \<noteq> length (sr_children r))
          in (removed,
              if removed
              then s'\<lparr>sd_selectors := bt_remove (root, node) (sd_selectors s'),
                      sd_events := sd_events s' @ [ChildRemoved root node]\<rparr>
              else s'))"

definition ShadowDomRegistry_exposed_children :: "ShadowDomRegistry \<Rightarrow> uuid \<Rightarrow> bool \<Rightarrow> u64 list option" where
  "ShadowDomRegistry_exposed_children s root privileged =
     (case bt_get (sd_roots s) root of
        None \<Rightarrow> None
      | Some r \<Rightarrow> if sr_mode r = OpenRoot \<or> privileged then Some (sr_children r) else Some [])"

definition ShadowDomRegistry_add_selector ::
    "uuid \<Rightarrow> u64 \<Rightarrow> string \<Rightarrow> ShadowDomRegistry \<Rightarrow> bool \<times> ShadowDomRegistry" where
  "ShadowDomRegistry_add_selector root node selector s =
     (case bt_get (sd_roots s) root of
        None \<Rightarrow> (False, s)
      | Some r \<Rightarrow>
          if node \<notin> set (sr_children r) then (False, s)
          else
            let sels = bt_or_insert (root, node) [] (sd_selectors s);
                s' = s\<lparr>sd_selectors := sels\<rparr>
            in (case bt_get sels (root, node) of
                  None \<Rightarrow> (False, s')
                | Some selectors \<Rightarrow>
                    if selector \<in> set selectors then (False, s')
                    else (True, s'\<lparr>sd_selectors := bt_adjust (root, node) (\<lambda>ss. ss @ [selector]) sels\<rparr>)))"

definition ShadowDomRegistry_query_selector ::
    "ShadowDomRegistry \<Rightarrow> uuid \<Rightarrow> string \<Rightarrow> bool \<Rightarrow> u64 list option" where
  "ShadowDomRegistry_query_selector s root selector privileged =
     (case ShadowDomRegistry_exposed_children s root privileged of
        None \<Rightarrow> None
      | Some children \<Rightarrow>
          Some [node \<leftarrow> children. (case bt_get (sd_selectors s) (root, node) of
                  None \<Rightarrow> False | Some selectors \<Rightarrow> selector \<in> set selectors)])"

definition ShadowDomRegistry_drain_events :: "ShadowDomRegistry \<Rightarrow> ShadowEvent list \<times> ShadowDomRegistry" where
  "ShadowDomRegistry_drain_events s = (sd_events s, s\<lparr>sd_events := []\<rparr>)"

text \<open>
  A host has one root, a child occurs once, and selectors exist only for children that are attached:
  a child that is removed and added again starts without them.
\<close>

definition shadow_ok :: "ShadowDomRegistry \<Rightarrow> bool" where
  "shadow_ok s =
     (bt_ok (sd_roots s)
      \<and> (\<forall>k r. bt_get (sd_roots s) k = Some r \<longrightarrow> sr_id r = k \<and> distinct (sr_children r))
      \<and> (\<forall>k j r q. bt_get (sd_roots s) k = Some r \<longrightarrow> bt_get (sd_roots s) j = Some q \<longrightarrow>
           sr_host_node r = sr_host_node q \<longrightarrow> k = j)
      \<and> (\<forall>k n ss. bt_get (sd_selectors s) (k, n) = Some ss \<longrightarrow>
           (\<exists>r. bt_get (sd_roots s) k = Some r \<and> n \<in> set (sr_children r)) \<and> distinct ss))"

lemma shadow_okD:
  assumes "shadow_ok s"
  shows "bt_ok (sd_roots s)"
    and "bt_get (sd_roots s) k = Some r \<Longrightarrow> sr_id r = k" "bt_get (sd_roots s) k = Some r \<Longrightarrow> distinct (sr_children r)"
    and "bt_get (sd_roots s) k = Some r \<Longrightarrow> bt_get (sd_roots s) j = Some q \<Longrightarrow> sr_host_node r = sr_host_node q \<Longrightarrow> k = j"
    and "bt_get (sd_selectors s) (k, n) = Some ss \<Longrightarrow> \<exists>r. bt_get (sd_roots s) k = Some r \<and> n \<in> set (sr_children r)"
    and "bt_get (sd_selectors s) (k, n) = Some ss \<Longrightarrow> distinct ss"
  using assms unfolding shadow_ok_def by blast+

lemma shadow_okI:
  assumes "bt_ok (sd_roots s)"
    and "\<And>k r. bt_get (sd_roots s) k = Some r \<Longrightarrow> sr_id r = k \<and> distinct (sr_children r)"
    and "\<And>k j r q. bt_get (sd_roots s) k = Some r \<Longrightarrow> bt_get (sd_roots s) j = Some q \<Longrightarrow>
      sr_host_node r = sr_host_node q \<Longrightarrow> k = j"
    and "\<And>k n ss. bt_get (sd_selectors s) (k, n) = Some ss \<Longrightarrow>
      (\<exists>r. bt_get (sd_roots s) k = Some r \<and> n \<in> set (sr_children r)) \<and> distinct ss"
  shows "shadow_ok s"
  unfolding shadow_ok_def using assms by blast

lemma shadow_ok_attach [keeps]:
  assumes s: "shadow_ok s" and new: "bt_get (sd_roots s) fresh = None"
  shows "shadow_ok (snd (ShadowDomRegistry_attach fresh host mode s))"
proof (cases "find (\<lambda>r. sr_host_node r = host) (bt_values (sd_roots s))")
  case None
  let ?s = "snd (ShadowDomRegistry_attach fresh host mode s)"
  have get: "bt_get (sd_roots ?s) k = (if k = fresh then Some \<lparr>sr_id = fresh, sr_host_node = host, sr_mode = mode,
      sr_children = []\<rparr> else bt_get (sd_roots s) k)" and sel: "sd_selectors ?s = sd_selectors s" for k
    using None by (simp_all add: ShadowDomRegistry_attach_def)
  have host: "sr_host_node r \<noteq> host" if "bt_get (sd_roots s) k = Some r" for k r
    using None bt_get_Some_in [OF that] by (force simp: find_None_iff)
  show ?thesis
  proof (rule shadow_okI)
    show "bt_ok (sd_roots ?s)" using None shadow_okD(1) [OF s] by (simp add: ShadowDomRegistry_attach_def)
    show "sr_id r = k \<and> distinct (sr_children r)" if "bt_get (sd_roots ?s) k = Some r" for k r
      using that shadow_okD(2,3) [OF s] by (auto simp: get split: if_splits)
    show "k = j" if "bt_get (sd_roots ?s) k = Some r" "bt_get (sd_roots ?s) j = Some q"
      "sr_host_node r = sr_host_node q" for k j r q
    proof -
      have "(k = fresh) = (j = fresh)" using that host by (fastforce simp: get split: if_splits)
      then show ?thesis using that shadow_okD(4) [OF s, of k r j q] by (auto simp: get split: if_splits)
    qed
    show "(\<exists>r. bt_get (sd_roots ?s) k = Some r \<and> n \<in> set (sr_children r)) \<and> distinct ss"
      if "bt_get (sd_selectors ?s) (k, n) = Some ss" for k n ss
      using that new shadow_okD(5,6) [OF s, of k n ss] by (auto simp: get sel)
  qed
qed (simp add: s ShadowDomRegistry_attach_def)

text \<open>The child operations rewrite the children of one root.\<close>

lemma shadow_ok_children:
  assumes s: "shadow_ok s" and dist: "distinct cs"
    and roots: "sd_roots t = bt_adjust root (\<lambda>r. r\<lparr>sr_children := cs\<rparr>) (sd_roots s)"
    and sels: "\<And>k n ss. bt_get (sd_selectors t) (k, n) = Some ss \<Longrightarrow>
      bt_get (sd_selectors s) (k, n) = Some ss \<and> (k = root \<longrightarrow> n \<in> set cs)"
  shows "shadow_ok t"
proof (rule shadow_okI)
  show "bt_ok (sd_roots t)" using shadow_okD(1) [OF s] by (simp add: roots)
  show "sr_id r = k \<and> distinct (sr_children r)" if "bt_get (sd_roots t) k = Some r" for k r
    using that dist shadow_okD(2,3) [OF s] by (auto simp: roots split: if_splits)
  show "k = j" if kj: "bt_get (sd_roots t) k = Some r" "bt_get (sd_roots t) j = Some q"
    "sr_host_node r = sr_host_node q" for k j r q
  proof -
    have old: "\<exists>old. bt_get (sd_roots s) k = Some old \<and> sr_host_node old = sr_host_node r"
      if "bt_get (sd_roots t) k = Some r" for k r
      using that by (auto simp: roots split: if_splits)
    from old [OF kj(1)] old [OF kj(2)] kj(3) show ?thesis using shadow_okD(4) [OF s] by metis
  qed
  show "(\<exists>r. bt_get (sd_roots t) k = Some r \<and> n \<in> set (sr_children r)) \<and> distinct ss"
    if "bt_get (sd_selectors t) (k, n) = Some ss" for k n ss
    using sels [OF that] shadow_okD(5,6) [OF s, of k n ss] by (auto simp: roots)
qed

lemma shadow_ok_add_child [keeps]:
  assumes s: "shadow_ok s"
  shows "shadow_ok (snd (ShadowDomRegistry_add_child root node s))"
proof (cases "bt_get (sd_roots s) root")
  case (Some r)
  show ?thesis
  proof (cases "node \<in> set (sr_children r)")
    case False
    let ?s = "snd (ShadowDomRegistry_add_child root node s)"
    have eq: "sd_roots ?s = bt_adjust root (\<lambda>q. q\<lparr>sr_children := sr_children r @ [node]\<rparr>) (sd_roots s)"
    proof -
      have "bt_adjust root (\<lambda>q. q\<lparr>sr_children := sr_children q @ [node]\<rparr>) (sd_roots s) =
          bt_adjust root (\<lambda>q. q\<lparr>sr_children := sr_children r @ [node]\<rparr>) (sd_roots s)"
        using Some shadow_okD(1) [OF s] by (intro bt_ext) auto
      then show ?thesis using Some False by (simp add: ShadowDomRegistry_add_child_def)
    qed
    have sel: "sd_selectors ?s = sd_selectors s" using Some False by (simp add: ShadowDomRegistry_add_child_def)
    show ?thesis
    proof (rule shadow_ok_children [OF s _ eq])
      show "distinct (sr_children r @ [node])" using False shadow_okD(3) [OF s Some] by simp
      show "bt_get (sd_selectors s) (k, n) = Some ss \<and> (k = root \<longrightarrow> n \<in> set (sr_children r @ [node]))"
        if "bt_get (sd_selectors ?s) (k, n) = Some ss" for k n ss
        using that Some shadow_okD(5) [OF s, of k n ss] by (auto simp: sel)
    qed
  qed (simp add: s Some ShadowDomRegistry_add_child_def)
qed (simp add: s ShadowDomRegistry_add_child_def)

lemma shadow_ok_remove_child [keeps]:
  assumes s: "shadow_ok s"
  shows "shadow_ok (snd (ShadowDomRegistry_remove_child root node s))"
proof (cases "bt_get (sd_roots s) root")
  case (Some r)
  let ?s = "snd (ShadowDomRegistry_remove_child root node s)"
  let ?kept = "[c \<leftarrow> sr_children r. c \<noteq> node]"
  have eq: "sd_roots ?s = bt_adjust root (\<lambda>r. r\<lparr>sr_children := ?kept\<rparr>) (sd_roots s)"
    using Some by (simp add: ShadowDomRegistry_remove_child_def Let_def)
  have gone: "length ?kept \<noteq> length (sr_children r) \<longleftrightarrow> node \<in> set (sr_children r)"
    using length_filter_less [of node "sr_children r" "\<lambda>c. c \<noteq> node"]
    by (cases "node \<in> set (sr_children r)") (auto simp: filter_id_conv intro: arg_cong [of _ _ length])
  have sel: "sd_selectors ?s = (if node \<in> set (sr_children r) then bt_remove (root, node) (sd_selectors s)
      else sd_selectors s)"
    using Some gone by (simp add: ShadowDomRegistry_remove_child_def Let_def)
  show ?thesis
  proof (rule shadow_ok_children [OF s _ eq])
    show "distinct ?kept" using shadow_okD(3) [OF s Some] by simp
    show "bt_get (sd_selectors s) (k, n) = Some ss \<and> (k = root \<longrightarrow> n \<in> set ?kept)"
      if "bt_get (sd_selectors ?s) (k, n) = Some ss" for k n ss
      using that Some shadow_okD(5) [OF s, of k n ss] by (auto simp: sel split: if_splits)
  qed
qed (simp add: s ShadowDomRegistry_remove_child_def)

lemma shadow_ok_add_selector [keeps]:
  assumes s: "shadow_ok s"
  shows "shadow_ok (snd (ShadowDomRegistry_add_selector root node selector s))"
proof (cases "\<exists>r. bt_get (sd_roots s) root = Some r \<and> node \<in> set (sr_children r)")
  case True
  let ?s = "snd (ShadowDomRegistry_add_selector root node selector s)"
  have roots: "sd_roots ?s = sd_roots s"
    by (simp add: ShadowDomRegistry_add_selector_def Let_def split: option.split)
  have sel: "bt_get (sd_selectors ?s) (k, n) = Some ss \<Longrightarrow>
      bt_get (sd_selectors s) (k, n) = Some ss \<or> k = root \<and> n = node \<and>
        (ss = [] \<or> (\<exists>ts. bt_get (sd_selectors s) (k, n) = Some ts \<and> selector \<notin> set ts \<and> ss = ts @ [selector])
         \<or> ss = [selector])" for k n ss
    using True by (auto simp: ShadowDomRegistry_add_selector_def Let_def split: option.splits if_splits)
  show ?thesis
  proof (rule shadow_okI)
    show "(\<exists>r. bt_get (sd_roots ?s) k = Some r \<and> n \<in> set (sr_children r)) \<and> distinct ss"
      if "bt_get (sd_selectors ?s) (k, n) = Some ss" for k n ss
      using sel [OF that] True shadow_okD(5,6) [OF s, of k n] unfolding roots by fastforce
  qed (use shadow_okD [OF s] in \<open>auto simp: roots\<close>)
qed (auto simp: s ShadowDomRegistry_add_selector_def split: option.splits)

text \<open>An unprivileged query finds nothing in a closed root, and never more than the selector names.\<close>

lemma closed_roots_expose_nothing:
  "bt_get (sd_roots s) root = Some r \<Longrightarrow> sr_mode r = ClosedRoot \<Longrightarrow>
   ShadowDomRegistry_query_selector s root selector False = Some []"
  by (simp add: ShadowDomRegistry_query_selector_def ShadowDomRegistry_exposed_children_def)

lemma query_finds_the_selected_children:
  assumes "bt_get (sd_roots s) root = Some r" "sr_mode r = OpenRoot \<or> privileged"
  shows "\<exists>nodes. ShadowDomRegistry_query_selector s root selector privileged = Some nodes \<and>
    set nodes = {n \<in> set (sr_children r). \<exists>ss. bt_get (sd_selectors s) (root, n) = Some ss \<and> selector \<in> set ss}"
  using assms
  by (auto simp: ShadowDomRegistry_query_selector_def ShadowDomRegistry_exposed_children_def split: option.splits)

end
