(* ===== verification/Snapshots.thy ===== *)
theory Snapshots
  imports AgentTree Text
begin

section \<open>Page state, snapshots and diffs\<close>

text \<open>
  The crates \<open>crates/state\<close> and \<open>crates/diff\<close>: the runtime state of a page, the bounded store of
  snapshots, the pages in which an agent reads a large tree, the difference of two snapshots and
  the bounded stream of incremental differences.

  The JSON length of a node, its JSON value and that of a URL are arguments.
\<close>

subsection \<open>Runtime state\<close>

record NavigationRecord =
  nr_url :: Url
  nr_observed_at_millis :: u64

record PageRuntimeState =
  prs_normalized_values :: "(string, string) BTreeMap"
  prs_autocomplete :: "string list"
  prs_focused_node :: "string option"
  prs_scroll_x :: f64
  prs_scroll_y :: f64
  prs_history :: "NavigationRecord list"
  prs_logical_time_millis :: u64
  prs_page_locks :: "string set"

definition PageRuntimeState_default :: PageRuntimeState where
  "PageRuntimeState_default =
     \<lparr>prs_normalized_values = [], prs_autocomplete = [], prs_focused_node = None, prs_scroll_x = Finite 0,
      prs_scroll_y = Finite 0, prs_history = [], prs_logical_time_millis = 0, prs_page_locks = {}\<rparr>"

definition PageRuntimeState_set_value :: "string \<Rightarrow> string \<Rightarrow> PageRuntimeState \<Rightarrow> PageRuntimeState" where
  "PageRuntimeState_set_value key val s = s\<lparr>prs_normalized_values := bt_insert key val (prs_normalized_values s)\<rparr>"

definition PageRuntimeState_record_autocomplete :: "string \<Rightarrow> nat \<Rightarrow> PageRuntimeState \<Rightarrow> PageRuntimeState" where
  "PageRuntimeState_record_autocomplete val max_entries s =
     (let entries = [e \<leftarrow> prs_autocomplete s. e \<noteq> val] @ [val]
      in s\<lparr>prs_autocomplete := (if length entries > max_entries then drop (length entries - max_entries) entries
                                else entries)\<rparr>)"

definition PageRuntimeState_focus :: "string option \<Rightarrow> PageRuntimeState \<Rightarrow> PageRuntimeState" where
  "PageRuntimeState_focus node_id s = s\<lparr>prs_focused_node := node_id\<rparr>"

definition PageRuntimeState_scroll_to :: "f64 \<Rightarrow> f64 \<Rightarrow> PageRuntimeState \<Rightarrow> PageRuntimeState" where
  "PageRuntimeState_scroll_to x y s =
     s\<lparr>prs_scroll_x := ieee_max x (Finite 0), prs_scroll_y := ieee_max y (Finite 0)\<rparr>"

definition PageRuntimeState_record_navigation :: "Url \<Rightarrow> PageRuntimeState \<Rightarrow> PageRuntimeState" where
  "PageRuntimeState_record_navigation url s =
     s\<lparr>prs_history := prs_history s @ [\<lparr>nr_url = url, nr_observed_at_millis = prs_logical_time_millis s\<rparr>]\<rparr>"

definition PageRuntimeState_advance_time :: "u64 \<Rightarrow> PageRuntimeState \<Rightarrow> PageRuntimeState" where
  "PageRuntimeState_advance_time millis s =
     s\<lparr>prs_logical_time_millis := saturating_add (prs_logical_time_millis s) millis\<rparr>"

definition PageRuntimeState_acquire_lock :: "string \<Rightarrow> PageRuntimeState \<Rightarrow> bool \<times> PageRuntimeState" where
  "PageRuntimeState_acquire_lock lock s =
     (lock \<notin> prs_page_locks s, s\<lparr>prs_page_locks := insert lock (prs_page_locks s)\<rparr>)"

definition PageRuntimeState_release_lock :: "string \<Rightarrow> PageRuntimeState \<Rightarrow> bool \<times> PageRuntimeState" where
  "PageRuntimeState_release_lock lock s =
     (lock \<in> prs_page_locks s, s\<lparr>prs_page_locks := prs_page_locks s - {lock}\<rparr>)"

definition PageRuntimeState_is_locked :: "PageRuntimeState \<Rightarrow> string \<Rightarrow> bool" where
  "PageRuntimeState_is_locked s lock = (lock \<in> prs_page_locks s)"

record StabilityState =
  ss_pending_network :: u32
  ss_pending_tasks :: u32
  ss_last_mutation_generation :: u64
  ss_quiet_generations :: u64

definition StabilityState_is_stable :: "StabilityState \<Rightarrow> u64 \<Rightarrow> bool" where
  "StabilityState_is_stable s required =
     (ss_pending_network s = 0 \<and> ss_pending_tasks s = 0 \<and> ss_quiet_generations s \<ge> required)"

definition StabilityState_mutation :: "u64 \<Rightarrow> StabilityState \<Rightarrow> StabilityState" where
  "StabilityState_mutation generation s = s\<lparr>ss_last_mutation_generation := generation, ss_quiet_generations := 0\<rparr>"

definition StabilityState_tick_quiet :: "StabilityState \<Rightarrow> StabilityState" where
  "StabilityState_tick_quiet s = s\<lparr>ss_quiet_generations := ss_quiet_generations s + 1\<rparr>"

subsection \<open>Snapshots and pages\<close>

record PageSnapshot =
  sn_schema_version :: u32
  sn_id :: u64
  sn_url :: Url
  sn_tree :: AgentRenderTree
  sn_focused_node :: "string option"
  sn_scroll_x :: f64
  sn_scroll_y :: f64
  sn_pending_network :: u32
  sn_storage_generation :: u64
  sn_semantic_generation :: u64

record PageState =
  pst_url :: Url
  pst_tree :: AgentRenderTree
  pst_generation :: u64

definition SNAPSHOT_SCHEMA_VERSION :: u32 where
  "SNAPSHOT_SCHEMA_VERSION = 1"

definition PageState_snapshot :: "PageState \<Rightarrow> u64 \<Rightarrow> PageSnapshot" where
  "PageState_snapshot s i =
     \<lparr>sn_schema_version = SNAPSHOT_SCHEMA_VERSION, sn_id = i, sn_url = pst_url s, sn_tree = pst_tree s,
      sn_focused_node = None, sn_scroll_x = Finite 0, sn_scroll_y = Finite 0, sn_pending_network = 0,
      sn_storage_generation = 0, sn_semantic_generation = art_generation (pst_tree s)\<rparr>"

datatype SnapshotError = Stale | SnSerialization

record SnapshotPage =
  pg_snapshot_id :: u64
  pg_offset :: nat
  pg_nodes :: "AgentNode list"
  pg_next_offset :: "nat option"
  pg_cursor :: nat
  pg_limit :: nat
  pg_truncated :: bool
  pg_next_cursor :: "string option"
  pg_estimated_tokens :: nat

text \<open>The loop of \<open>page\<close>: the bytes used and the nodes taken so far, \<open>break\<close> as the early result.\<close>

fun page_loop :: "(AgentNode \<Rightarrow> nat option) \<Rightarrow> nat option \<Rightarrow> AgentNode list \<Rightarrow> nat \<Rightarrow> AgentNode list
    \<Rightarrow> SnapshotError + nat \<times> AgentNode list" where
  "page_loop json_len token_limit [] used nodes = Inr (used, nodes)"
| "page_loop json_len token_limit (node # rest) used nodes =
     (case json_len node of
        None \<Rightarrow> Inl SnSerialization
      | Some sz \<Rightarrow>
          if (case token_limit of None \<Rightarrow> False | Some limit \<Rightarrow> nodes \<noteq> [] \<and> used + sz > limit)
          then Inr (used, nodes)
          else page_loop json_len token_limit rest (used + sz) (nodes @ [node]))"

definition PageState_page ::
    "(AgentNode \<Rightarrow> nat option) \<Rightarrow> PageState \<Rightarrow> nat \<Rightarrow> nat \<Rightarrow> nat option \<Rightarrow> u64 option \<Rightarrow> SnapshotError + SnapshotPage" where
  "PageState_page json_len s offset limit max_tokens expected_generation =
     (if (case expected_generation of None \<Rightarrow> False | Some g \<Rightarrow> g \<noteq> art_generation (pst_tree s))
      then Inl Stale
      else
        let all_nodes = art_nodes (pst_tree s);
            start = min offset (length all_nodes);
            effective_limit = max limit 1;
            token_limit = map_option (\<lambda>t. min (t * 4) usize_max) max_tokens
        in (case page_loop json_len token_limit (take effective_limit (drop start all_nodes)) 0 [] of
              Inl e \<Rightarrow> Inl e
            | Inr (used, nodes) \<Rightarrow>
                let next_offset = min (start + length nodes) (length all_nodes);
                    more = (next_offset < length all_nodes)
                in Inr \<lparr>pg_snapshot_id = art_generation (pst_tree s), pg_offset = start, pg_nodes = nodes,
                        pg_next_offset = (if more then Some next_offset else None), pg_cursor = start,
                        pg_limit = effective_limit, pg_truncated = more,
                        pg_next_cursor = (if more then Some (decimal next_offset) else None),
                        pg_estimated_tokens = used div 4 + (if used mod 4 \<noteq> 0 then 1 else 0)\<rparr>))"

record SnapshotStore =
  sst_capacity :: nat
  sst_snapshots :: "(u64, PageSnapshot) BTreeMap"

definition SnapshotStore_new :: "nat \<Rightarrow> SnapshotStore" where
  "SnapshotStore_new capacity = \<lparr>sst_capacity = max capacity 1, sst_snapshots = []\<rparr>"

lemma bt_remove_first_shorter: "bt_first_key m = Some k \<Longrightarrow> length (bt_remove k m) < length m"
  by (cases m) (auto simp: bt_first_key_def bt_remove_def intro: le_imp_less_Suc)

function evict :: "nat \<Rightarrow> ('k, 'v) BTreeMap \<Rightarrow> ('k, 'v) BTreeMap" where
  "evict capacity m =
     (if length m > capacity
      then (case bt_first_key m of None \<Rightarrow> m | Some oldest \<Rightarrow> evict capacity (bt_remove oldest m))
      else m)"
  by auto

termination
  by (relation "measure (\<lambda>(capacity, m). length m)") (simp_all add: bt_remove_first_shorter)

declare evict.simps [simp del]

definition SnapshotStore_insert :: "PageSnapshot \<Rightarrow> SnapshotStore \<Rightarrow> SnapshotStore" where
  "SnapshotStore_insert snapshot s =
     s\<lparr>sst_snapshots := evict (sst_capacity s) (bt_insert (sn_id snapshot) snapshot (sst_snapshots s))\<rparr>"

definition SnapshotStore_get :: "SnapshotStore \<Rightarrow> u64 \<Rightarrow> PageSnapshot option" where
  "SnapshotStore_get s i = bt_get (sst_snapshots s) i"

definition SnapshotStore_from_json :: "('text \<Rightarrow> 'err + SnapshotStore) \<Rightarrow> 'err \<Rightarrow> 'text \<Rightarrow> 'err + SnapshotStore" where
  "SnapshotStore_from_json decode invalid val =
     (case decode val of
        Inl e \<Rightarrow> Inl e
      | Inr s \<Rightarrow>
          if sst_capacity s = 0
             \<or> list_ex (\<lambda>snapshot. sn_schema_version snapshot \<noteq> SNAPSHOT_SCHEMA_VERSION) (bt_values (sst_snapshots s))
          then Inl invalid else Inr s)"

subsection \<open>Differences\<close>

datatype DiffOp =
    DiffAdd string Json
  | DiffRemove string Json
  | DiffReplace string Json Json

record NodeChange =
  ch_node_id :: AgentNodeId
  ch_before :: AgentNode
  ch_after :: AgentNode

record SemanticTreeDiff =
  sd_added :: "AgentNode list"
  sd_removed :: "AgentNode list"
  sd_changed :: "NodeChange list"

definition node_key :: "AgentNode \<Rightarrow> string" where
  "node_key node = (case an_identity_key node of None \<Rightarrow> an_id node | Some k \<Rightarrow> k)"

definition keyed_nodes :: "PageSnapshot \<Rightarrow> (string, AgentNode) BTreeMap" where
  "keyed_nodes s = bt_collect (map (\<lambda>node. (node_key node, node)) (art_nodes (sn_tree s)))"

definition diff_tree :: "PageSnapshot \<Rightarrow> PageSnapshot \<Rightarrow> SemanticTreeDiff" where
  "diff_tree before after =
     (let left = keyed_nodes before; right = keyed_nodes after
      in \<lparr>sd_added = map snd [e \<leftarrow> right. \<not> bt_contains_key left (fst e)],
          sd_removed = map snd [e \<leftarrow> left. \<not> bt_contains_key right (fst e)],
          sd_changed = List.map_filter (\<lambda>(key, after_node).
            case bt_get left key of
              None \<Rightarrow> None
            | Some before_node \<Rightarrow>
                if \<not> node_eq before_node after_node
                then Some \<lparr>ch_node_id = an_id after_node, ch_before = before_node, ch_after = after_node\<rparr>
                else None) right\<rparr>)"

definition diff :: "(AgentNode \<Rightarrow> Json) \<Rightarrow> (Url \<Rightarrow> Json) \<Rightarrow> PageSnapshot \<Rightarrow> PageSnapshot \<Rightarrow> DiffOp list" where
  "diff node_value url_value a b =
     (let semantic = diff_tree a b
      in map (\<lambda>node. DiffAdd (''/tree/nodes/'' @ an_id node) (node_value node)) (sd_added semantic)
         @ map (\<lambda>node. DiffRemove (''/tree/nodes/'' @ an_id node) (node_value node)) (sd_removed semantic)
         @ map (\<lambda>change. DiffReplace (''/tree/nodes/'' @ ch_node_id change) (node_value (ch_before change))
                           (node_value (ch_after change))) (sd_changed semantic)
         @ (if \<not> url_eq (sn_url a) (sn_url b)
            then [DiffReplace ''/url'' (url_value (sn_url a)) (url_value (sn_url b))] else []))"

record IncrementalDiff =
  inc_sequence :: u64
  inc_generation :: u64
  inc_operations :: "DiffOp list"

datatype DiffStreamError = DiffStreamError u64

record DiffBatch =
  dbt_entries :: "IncrementalDiff list"
  dbt_dropped :: u64

record DiffStream =
  ds_capacity :: nat
  ds_next_sequence :: u64
  ds_dropped :: u64
  ds_entries :: "IncrementalDiff list"

definition DiffStream_bounded :: "nat \<Rightarrow> DiffStream" where
  "DiffStream_bounded capacity =
     \<lparr>ds_capacity = max capacity 1, ds_next_sequence = 0, ds_dropped = 0, ds_entries = []\<rparr>"

definition DiffStream_publish :: "u64 \<Rightarrow> DiffOp list \<Rightarrow> DiffStream \<Rightarrow> u64 \<times> DiffStream" where
  "DiffStream_publish generation operations s =
     (let sequence = ds_next_sequence s;
          s = s\<lparr>ds_next_sequence := ds_next_sequence s + 1\<rparr>
      in if ds_entries s \<noteq> [] \<and> inc_generation (last (ds_entries s)) = generation
         then let previous = last (ds_entries s)
              in (inc_sequence previous,
                  s\<lparr>ds_entries := butlast (ds_entries s) @
                     [previous\<lparr>inc_operations := inc_operations previous @ operations\<rparr>]\<rparr>)
         else
           let s = (if length (ds_entries s) = ds_capacity s
                    then s\<lparr>ds_entries := tl (ds_entries s), ds_dropped := ds_dropped s + 1\<rparr> else s)
           in (sequence, s\<lparr>ds_entries := ds_entries s @
                 [\<lparr>inc_sequence = sequence, inc_generation = generation, inc_operations = operations\<rparr>]\<rparr>))"

definition DiffStream_drain :: "DiffStream \<Rightarrow> (DiffStreamError + IncrementalDiff list) \<times> DiffStream" where
  "DiffStream_drain s =
     (let entries = ds_entries s; s' = s\<lparr>ds_entries := []\<rparr>
      in if ds_dropped s' = 0 then (Inr entries, s')
         else (Inl (DiffStreamError (ds_dropped s')), s'\<lparr>ds_dropped := 0\<rparr>))"

definition DiffStream_drain_with_loss :: "DiffStream \<Rightarrow> DiffBatch \<times> DiffStream" where
  "DiffStream_drain_with_loss s =
     (\<lparr>dbt_entries = ds_entries s, dbt_dropped = ds_dropped s\<rparr>, s\<lparr>ds_entries := [], ds_dropped := 0\<rparr>)"

definition DiffStream_replay :: "DiffStream \<Rightarrow> IncrementalDiff list" where
  "DiffStream_replay s = ds_entries s"

subsection \<open>Reading a tree in pages\<close>

lemma page_loop_prefix:
  "page_loop json_len token_limit rest used nodes = Inr (used', nodes') \<Longrightarrow>
   \<exists>k. nodes' = nodes @ take k rest \<and> k \<le> length rest \<and> (nodes = [] \<longrightarrow> rest \<noteq> [] \<longrightarrow> 0 < k)"
proof (induction json_len token_limit rest used nodes rule: page_loop.induct)
  case (2 json_len token_limit node rest used nodes)
  then obtain sz where sz: "json_len node = Some sz" by (cases "json_len node") auto
  show ?case
  proof (cases "case token_limit of None \<Rightarrow> False | Some limit \<Rightarrow> nodes \<noteq> [] \<and> used + sz > limit")
    case True
    with 2 sz have "nodes' = nodes @ take 0 (node # rest)" by simp
    moreover have "nodes \<noteq> []" using True by (auto split: option.splits)
    ultimately show ?thesis by blast
  next
    case False
    with 2 sz obtain k where "nodes' = (nodes @ [node]) @ take k rest" "k \<le> length rest" by auto
    then have "nodes' = nodes @ take (Suc k) (node # rest)" "Suc k \<le> length (node # rest)" by simp_all
    then show ?thesis by blast
  qed
qed simp

lemma page_loop_serialises:
  "(\<And>n. n \<in> set rest \<Longrightarrow> json_len n \<noteq> None) \<Longrightarrow> \<exists>r. page_loop json_len token_limit rest used nodes = Inr r"
  by (induction json_len token_limit rest used nodes rule: page_loop.induct) (auto split: option.split)

lemma page_loop_used:
  "page_loop json_len token_limit rest used nodes = Inr (used', nodes') \<Longrightarrow>
   used = sum_list (map (the \<circ> json_len) nodes) \<Longrightarrow>
   (case token_limit of None \<Rightarrow> True | Some limit \<Rightarrow> used \<le> limit \<or> length nodes \<le> 1) \<Longrightarrow>
   used' = sum_list (map (the \<circ> json_len) nodes') \<and>
   (case token_limit of None \<Rightarrow> True | Some limit \<Rightarrow> used' \<le> limit \<or> length nodes' \<le> 1)"
  by (induction json_len token_limit rest used nodes rule: page_loop.induct)
     (auto split: option.splits if_splits)

text \<open>
  A reader that follows \<open>next_offset\<close> until there is none. The fuel bounds the number of pages it asks
  for; running out of it is \<open>None\<close>.
\<close>

fun read_pages :: "nat \<Rightarrow> (AgentNode \<Rightarrow> nat option) \<Rightarrow> PageState \<Rightarrow> nat \<Rightarrow> nat \<Rightarrow> nat option
    \<Rightarrow> (SnapshotError + AgentNode list) option" where
  "read_pages 0 json_len s offset limit max_tokens = None"
| "read_pages (Suc n) json_len s offset limit max_tokens =
     (case PageState_page json_len s offset limit max_tokens (Some (art_generation (pst_tree s))) of
        Inl e \<Rightarrow> Some (Inl e)
      | Inr pg \<Rightarrow>
          (case pg_next_offset pg of
             None \<Rightarrow> Some (Inr (pg_nodes pg))
           | Some next \<Rightarrow> map_option (map_sum (\<lambda>e. e) (\<lambda>nodes. pg_nodes pg @ nodes))
                            (read_pages n json_len s next limit max_tokens)))"

lemma page_step:
  assumes "\<forall>n \<in> set (art_nodes (pst_tree s)). json_len n \<noteq> None"
    and "offset \<le> length (art_nodes (pst_tree s))"
  shows "\<exists>pg k. PageState_page json_len s offset limit max_tokens (Some (art_generation (pst_tree s))) = Inr pg \<and>
    pg_nodes pg = take k (drop offset (art_nodes (pst_tree s))) \<and>
    offset + k \<le> length (art_nodes (pst_tree s)) \<and> (offset < length (art_nodes (pst_tree s)) \<longrightarrow> 0 < k) \<and>
    pg_next_offset pg = (if offset + k < length (art_nodes (pst_tree s)) then Some (offset + k) else None)"
proof -
  let ?all = "art_nodes (pst_tree s)" and ?limit = "map_option (\<lambda>t. min (t * 4) usize_max) max_tokens"
  let ?cand = "take (max limit 1) (drop offset ?all)"
  have "json_len n \<noteq> None" if "n \<in> set ?cand" for n
    using that assms(1) by (meson in_set_dropD in_set_takeD)
  then obtain used nodes where loop: "page_loop json_len ?limit ?cand 0 [] = Inr (used, nodes)"
    using page_loop_serialises [of ?cand json_len ?limit 0 "[]"] by (metis prod.exhaust)
  from page_loop_prefix [OF loop] obtain k where k: "nodes = take k ?cand" "k \<le> length ?cand"
    "?cand \<noteq> [] \<Longrightarrow> 0 < k" by auto
  have nodes: "nodes = take k (drop offset ?all)" 
  proof -
    have "k \<le> max limit 1" using k(2) by simp
    then show ?thesis using k(1) by (simp add: min_absorb1)
  qed
  have len: "length nodes = k" using k(1,2) by simp
  have bound: "offset + k \<le> length ?all" using k(2) assms(2) by auto
  have pos: "offset < length ?all \<Longrightarrow> 0 < k" using k(3) by auto
  have start: "min offset (length ?all) = offset" and stop: "min (offset + length nodes) (length ?all) = offset + k"
    using assms(2) bound len by (simp_all add: min_def)
  obtain pg where "PageState_page json_len s offset limit max_tokens (Some (art_generation (pst_tree s))) = Inr pg"
    "pg_nodes pg = nodes" "pg_next_offset pg = (if offset + k < length ?all then Some (offset + k) else None)"
    unfolding PageState_page_def Let_def start loop by (simp add: stop)
  with nodes bound pos show ?thesis by blast
qed

lemma read_pages_complete:
  assumes "\<forall>n \<in> set (art_nodes (pst_tree s)). json_len n \<noteq> None"
    and "offset \<le> length (art_nodes (pst_tree s))" "length (art_nodes (pst_tree s)) - offset < fuel"
  shows "read_pages fuel json_len s offset limit max_tokens = Some (Inr (drop offset (art_nodes (pst_tree s))))"
  using assms(2,3)
proof (induction fuel arbitrary: offset)
  case (Suc n)
  let ?all = "art_nodes (pst_tree s)"
  from page_step [OF assms(1) Suc.prems(1), of limit max_tokens] obtain pg k where
    pg: "PageState_page json_len s offset limit max_tokens (Some (art_generation (pst_tree s))) = Inr pg"
      "pg_nodes pg = take k (drop offset ?all)" "offset + k \<le> length ?all" "offset < length ?all \<longrightarrow> 0 < k"
      "pg_next_offset pg = (if offset + k < length ?all then Some (offset + k) else None)" by blast
  show ?case
  proof (cases "offset + k < length ?all")
    case True
    then have "read_pages n json_len s (offset + k) limit max_tokens = Some (Inr (drop (offset + k) ?all))"
      using Suc pg(4) by simp
    with True pg show ?thesis by (simp add: add.commute flip: drop_drop)
  next
    case False
    with pg(3) have "k = length (drop offset ?all)" by simp
    with False pg show ?thesis by simp
  qed
qed simp

subsection \<open>The snapshot store\<close>

lemma bt_remove_first: "bt_ok ((k, v) # m) \<Longrightarrow> bt_remove k ((k, v) # m) = m"
  by (auto simp: bt_remove_def bt_ok_Cons filter_id_conv)

lemma evict_drops: "bt_ok m \<Longrightarrow> evict n m = drop (length m - n) m"
proof (induction m)
  case (Cons e m)
  obtain k v where e: "e = (k, v)" by (cases e)
  have ok: "bt_ok m" using Cons(2) by (simp add: bt_ok_Cons)
  show ?case
  proof (cases "length (e # m) > n")
    case True
    then have "evict n (e # m) = evict n m"
      using Cons(2) by (subst evict.simps) (simp add: e bt_first_key_def bt_remove_first)
    with Cons(1) [OF ok] True show ?thesis by (simp add: Suc_diff_le)
  qed (simp add: evict.simps)
qed (simp add: evict.simps)

lemma bt_ok_drop: "bt_ok m \<Longrightarrow> bt_ok (drop n m)"
  by (simp add: bt_ok_def sorted_wrt_drop flip: drop_map)

definition store_ok :: "SnapshotStore \<Rightarrow> bool" where
  "store_ok s = (bt_ok (sst_snapshots s) \<and> length (sst_snapshots s) \<le> sst_capacity s \<and> 1 \<le> sst_capacity s)"

lemma store_ok_insert [keeps]: "store_ok s \<Longrightarrow> store_ok (SnapshotStore_insert snapshot s)"
  by (simp add: store_ok_def SnapshotStore_insert_def evict_drops bt_ok_drop)

text \<open>
  The store evicts the smallest identifiers, which are the oldest ones only while identifiers grow:
  a snapshot with a smaller identifier than a full store holds is evicted by its own insertion.
\<close>

lemma full_store_rejects_old_snapshots:
  assumes "store_ok s" "length (sst_snapshots s) = sst_capacity s"
    and "\<forall>k \<in> set (bt_keys (sst_snapshots s)). sn_id snapshot < k"
  shows "SnapshotStore_insert snapshot s = s"
proof -
  have "[e \<leftarrow> sst_snapshots s. fst e < sn_id snapshot] = []" "[e \<leftarrow> sst_snapshots s. sn_id snapshot < fst e] = sst_snapshots s"
    using assms(3) by (force simp: filter_empty_conv filter_id_conv)+
  then have "bt_insert (sn_id snapshot) snapshot (sst_snapshots s) = (sn_id snapshot, snapshot) # sst_snapshots s"
    by (simp add: bt_insert_def)
  moreover have "bt_ok ((sn_id snapshot, snapshot) # sst_snapshots s)"
    using assms(1,3) by (simp add: bt_ok_Cons store_ok_def)
  ultimately show ?thesis using assms(2) by (simp add: SnapshotStore_insert_def evict_drops)
qed

subsection \<open>Patching\<close>

definition apply_diff :: "SemanticTreeDiff \<Rightarrow> (string, AgentNode) BTreeMap \<Rightarrow> (string, AgentNode) BTreeMap" where
  "apply_diff d m =
     fold (\<lambda>n. bt_insert (node_key n) n) (sd_added d @ map ch_after (sd_changed d))
       (fold (\<lambda>n. bt_remove (node_key n)) (sd_removed d) m)"

lemma keyed_nodes_key: "bt_get (keyed_nodes s) k = Some n \<Longrightarrow> node_key n = k"
  by (auto simp: keyed_nodes_def bt_get_collect dest!: bt_get_Some_in)

lemma bt_ok_keyed [simp]: "bt_ok (keyed_nodes s)"
  by (simp add: keyed_nodes_def)

lemma keyed_nodes_entry: "(k, n) \<in> set (keyed_nodes s) \<longleftrightarrow> bt_get (keyed_nodes s) k = Some n"
  by (simp add: bt_get_iff_in)

lemma fold_insert_nodes:
  "(\<And>n. n \<in> set ns \<Longrightarrow> F (node_key n) = Some n) \<Longrightarrow>
   bt_get (fold (\<lambda>n. bt_insert (node_key n) n) ns m) k = (if k \<in> node_key ` set ns then F k else bt_get m k)"
  by (induction ns arbitrary: m) auto

lemma fold_remove_nodes:
  "bt_get (fold (\<lambda>n. bt_remove (node_key n)) ns m) k = (if k \<in> node_key ` set ns then None else bt_get m k)"
  by (induction ns arbitrary: m) auto

lemma fold_bt_ok:
  "bt_ok m \<Longrightarrow> bt_ok (fold (\<lambda>n. bt_insert (node_key n) n) ns m)"
  "bt_ok m \<Longrightarrow> bt_ok (fold (\<lambda>n. bt_remove (node_key n)) ns m)"
  by (induction ns arbitrary: m) simp_all

lemma diff_tree_added:
  "n \<in> set (sd_added (diff_tree a b)) \<longleftrightarrow>
     bt_get (keyed_nodes b) (node_key n) = Some n \<and> bt_get (keyed_nodes a) (node_key n) = None"
  by (auto simp: diff_tree_def Let_def bt_contains_key_def keyed_nodes_entry image_iff dest: keyed_nodes_key)

lemma diff_tree_removed:
  "n \<in> set (sd_removed (diff_tree a b)) \<longleftrightarrow>
     bt_get (keyed_nodes a) (node_key n) = Some n \<and> bt_get (keyed_nodes b) (node_key n) = None"
  by (auto simp: diff_tree_def Let_def bt_contains_key_def keyed_nodes_entry image_iff dest: keyed_nodes_key)

lemma diff_tree_changed:
  "n \<in> ch_after ` set (sd_changed (diff_tree a b)) \<longleftrightarrow>
     (\<exists>m. bt_get (keyed_nodes b) (node_key n) = Some n \<and> bt_get (keyed_nodes a) (node_key n) = Some m \<and> \<not> node_eq m n)"
proof -
  have "n \<in> ch_after ` set (sd_changed (diff_tree a b)) \<longleftrightarrow>
    (\<exists>k m. (k, n) \<in> set (keyed_nodes b) \<and> bt_get (keyed_nodes a) k = Some m \<and> \<not> node_eq m n)"
    by (force simp: diff_tree_def Let_def List.map_filter_def split: option.splits if_splits)
  then show ?thesis unfolding keyed_nodes_entry using keyed_nodes_key by blast
qed

subsection \<open>The stream\<close>

abbreviation publish_all :: "(u64 \<times> DiffOp list) list \<Rightarrow> DiffStream \<Rightarrow> DiffStream" where
  "publish_all xs s \<equiv> fold (\<lambda>(g, ops) s. snd (DiffStream_publish g ops s)) xs s"

abbreviation held :: "IncrementalDiff list \<Rightarrow> DiffOp list" where
  "held es \<equiv> concat (map inc_operations es)"

lemma held_butlast: "es \<noteq> [] \<Longrightarrow> held es = held (butlast es) @ inc_operations (last es)"
  by (cases es rule: rev_cases) simp_all

lemma publish_step:
  assumes "es = ds_entries s" "1 \<le> ds_capacity s" "length es \<le> ds_capacity s"
  shows "\<exists>lost d. ds_dropped (snd (DiffStream_publish g ops s)) = ds_dropped s + of_nat d \<and> d \<le> 1 \<and>
    (d = 0 \<longrightarrow> lost = []) \<and> held es @ ops = lost @ held (ds_entries (snd (DiffStream_publish g ops s))) \<and>
    ds_capacity (snd (DiffStream_publish g ops s)) = ds_capacity s \<and>
    length (ds_entries (snd (DiffStream_publish g ops s))) \<le> ds_capacity s"
proof (cases "es \<noteq> [] \<and> inc_generation (last es) = g")
  case True
  then show ?thesis
    using assms held_butlast [of es]
    by (intro exI [of _ "[]"] exI [of _ 0]) (simp add: DiffStream_publish_def Let_def)
next
  case False
  show ?thesis
  proof (cases "length es = ds_capacity s")
    case True
    then obtain e rest where es: "es = e # rest" using assms(2) by (cases es) auto
    with assms(1) have "ds_entries s = e # rest" by simp
    with False True es show ?thesis
      by (intro exI [of _ "inc_operations e"] exI [of _ 1]) (auto simp: DiffStream_publish_def Let_def)
  next
    case len: False
    with False assms show ?thesis
      by (intro exI [of _ "[]"] exI [of _ 0]) (auto simp: DiffStream_publish_def Let_def)
  qed
qed

lemma publish_run:
  "\<exists>lost d. ds_dropped (publish_all xs (DiffStream_bounded n)) = of_nat d \<and> d \<le> length xs \<and> (d = 0 \<longrightarrow> lost = []) \<and>
     concat (map snd xs) = lost @ held (ds_entries (publish_all xs (DiffStream_bounded n))) \<and>
     ds_capacity (publish_all xs (DiffStream_bounded n)) = max n 1 \<and>
     length (ds_entries (publish_all xs (DiffStream_bounded n))) \<le> max n 1"
proof (induction xs rule: rev_induct)
  case Nil
  show ?case by (intro exI [of _ "[]"] exI [of _ 0]) (simp add: DiffStream_bounded_def)
next
  case (snoc x xs)
  obtain g ops where x: "x = (g, ops)" by (cases x)
  let ?s = "publish_all xs (DiffStream_bounded n)"
  from snoc obtain lost d where IH: "ds_dropped ?s = of_nat d" "d \<le> length xs" "d = 0 \<longrightarrow> lost = []"
    "concat (map snd xs) = lost @ held (ds_entries ?s)" "ds_capacity ?s = max n 1" "length (ds_entries ?s) \<le> max n 1"
    by blast
  then obtain lost' d' where step: "ds_dropped (snd (DiffStream_publish g ops ?s)) = ds_dropped ?s + of_nat d'"
    "d' \<le> 1" "d' = 0 \<longrightarrow> lost' = []" "held (ds_entries ?s) @ ops = lost' @ held (ds_entries (snd (DiffStream_publish g ops ?s)))"
    "ds_capacity (snd (DiffStream_publish g ops ?s)) = ds_capacity ?s"
    "length (ds_entries (snd (DiffStream_publish g ops ?s))) \<le> ds_capacity ?s"
    using publish_step [of "ds_entries ?s" ?s g ops] by auto
  show ?case
    using IH step by (intro exI [of _ "lost @ lost'"] exI [of _ "d + d'"]) (simp add: x)
qed

subsection \<open>Properties\<close>

text \<open>
  C21: a reader that follows the offsets of the pages of a tree, with any page limit and any token
  budget, terminates after at most one page per node and one more, and has then read every node of the
  tree exactly once and in order, provided every node can be serialised.
\<close>

theorem pages_reassemble_the_tree:
  assumes "\<forall>n \<in> set (art_nodes (pst_tree s)). json_len n \<noteq> None"
  shows "read_pages (Suc (length (art_nodes (pst_tree s)))) json_len s 0 limit max_tokens =
    Some (Inr (art_nodes (pst_tree s)))"
  using read_pages_complete [OF assms, of 0 "Suc (length (art_nodes (pst_tree s)))" limit max_tokens] by simp

definition sample_page_state :: PageState where
  "sample_page_state = \<lparr>pst_url = \<lparr>url_as_str = ''about:blank'', url_scheme = ''about'', url_username = [],
     url_password = None, url_host_str = None, url_port_or_known_default = None, url_path = ''blank'',
     url_query = None, url_fragment = None, url_origin = Opaque, url_origin_ascii = ''null''\<rparr>,
     pst_tree = AgentRenderTree_new_page ''0'' ''home'', pst_generation = 0\<rparr>"

theorem pages_reassemble_the_tree_witness:
  "read_pages 2 (\<lambda>_. Some 100) sample_page_state 0 0 (Some 1) = Some (Inr (art_nodes (pst_tree sample_page_state)))"
proof -
  have "length (art_nodes (pst_tree sample_page_state)) = 1" by code_simp
  then show ?thesis
    using pages_reassemble_the_tree [of sample_page_state "\<lambda>_. Some 100" 0 "Some 1"]
    by (simp add: numeral_2_eq_2)
qed

text \<open>
  C22: the difference of two snapshots is exact: removing its removed nodes from the keyed nodes of the
  first and inserting its added and changed ones gives the keyed nodes of the second.
\<close>

theorem diff_patches_the_tree:
  "apply_diff (diff_tree a b) (keyed_nodes a) = keyed_nodes b"
proof (rule bt_ext)
  let ?d = "diff_tree a b"
  show "bt_ok (apply_diff ?d (keyed_nodes a))" by (simp add: apply_diff_def fold_bt_ok)
  fix k
  have set_new: "set (sd_added ?d @ map ch_after (sd_changed ?d)) = set (sd_added ?d) \<union> ch_after ` set (sd_changed ?d)"
    by simp
  have get: "bt_get (apply_diff ?d (keyed_nodes a)) k =
      (if k \<in> node_key ` set (sd_added ?d @ map ch_after (sd_changed ?d)) then bt_get (keyed_nodes b) k
       else if k \<in> node_key ` set (sd_removed ?d) then None else bt_get (keyed_nodes a) k)"
    unfolding apply_diff_def
    by (subst fold_insert_nodes [where F = "bt_get (keyed_nodes b)"])
       (auto simp: fold_remove_nodes diff_tree_added dest: diff_tree_changed [THEN iffD1, OF imageI])
  show "bt_get (apply_diff ?d (keyed_nodes a)) k = bt_get (keyed_nodes b) k"
  proof (cases "bt_get (keyed_nodes b) k")
    case None
    have "k \<notin> node_key ` set (sd_added ?d @ map ch_after (sd_changed ?d))"
    proof
      assume "k \<in> node_key ` set (sd_added ?d @ map ch_after (sd_changed ?d))"
      then obtain n where "n \<in> set (sd_added ?d) \<or> n \<in> ch_after ` set (sd_changed ?d)" "k = node_key n"
        unfolding set_new by blast
      then show False using None unfolding diff_tree_added diff_tree_changed by auto
    qed
    moreover have "k \<in> node_key ` set (sd_removed ?d)" if "bt_get (keyed_nodes a) k = Some n" for n
      using that None keyed_nodes_key [OF that] by (auto simp: diff_tree_removed image_iff intro!: bexI [of _ n])
    ultimately show ?thesis unfolding get using None by (cases "bt_get (keyed_nodes a) k") auto
  next
    case (Some n)
    note key = keyed_nodes_key [OF Some]
    show ?thesis
    proof (cases "k \<in> node_key ` set (sd_added ?d @ map ch_after (sd_changed ?d))")
      case False
      then have "n \<notin> set (sd_added ?d)" "n \<notin> ch_after ` set (sd_changed ?d)"
        unfolding set_new using key by auto
      then obtain m where "bt_get (keyed_nodes a) k = Some m" "node_eq m n"
        unfolding diff_tree_added diff_tree_changed key using Some by auto
      moreover have "k \<notin> node_key ` set (sd_removed ?d)"
        using Some by (auto simp: diff_tree_removed)
      ultimately show ?thesis unfolding get using False Some by (simp add: node_eq_def)
    qed (simp add: get)
  qed
qed simp

text \<open>
  The bounded stream of differences never loses an operation silently: after any sequence of
  publications (fewer than \<open>2 ^ 64\<close>) it holds at most its capacity of entries, the operations it holds
  are the most recent ones in order, and if it reports nothing dropped it holds all of them.
\<close>

theorem diff_stream_reports_every_loss:
  assumes "length xs < 2 ^ 64"
    and "fst (DiffStream_drain_with_loss (publish_all xs (DiffStream_bounded n))) = batch"
  shows "length (dbt_entries batch) \<le> max n 1 \<and>
    (\<exists>lost. concat (map snd xs) = lost @ held (dbt_entries batch) \<and> (dbt_dropped batch = 0 \<longrightarrow> lost = []))"
proof -
  from publish_run [of xs n] obtain lost d where run: "ds_dropped (publish_all xs (DiffStream_bounded n)) = of_nat d"
    "d \<le> length xs" "d = 0 \<longrightarrow> lost = []"
    "concat (map snd xs) = lost @ held (ds_entries (publish_all xs (DiffStream_bounded n)))"
    "length (ds_entries (publish_all xs (DiffStream_bounded n))) \<le> max n 1" by blast
  have "d = 0" if "(of_nat d :: u64) = 0"
  proof -
    have "(2 ^ 64 :: nat) dvd d" using that by (simp add: word_of_nat_eq_0_iff)
    moreover have "d < 2 ^ 64" using run(2) assms(1) by simp
    ultimately show ?thesis using dvd_imp_le [of "2 ^ 64" d] by linarith
  qed
  with run assms(2) show ?thesis by (auto simp: DiffStream_drain_with_loss_def)
qed

theorem diff_stream_reports_every_loss_witness:
  "\<exists>lost. concat (map snd [(1, [DiffAdd ''p'' JNull]), (2, [DiffAdd ''q'' JNull])]) =
     lost @ held (dbt_entries (fst (DiffStream_drain_with_loss
       (publish_all [(1, [DiffAdd ''p'' JNull]), (2, [DiffAdd ''q'' JNull])] (DiffStream_bounded 1)))))"
  using diff_stream_reports_every_loss [of "[(1, [DiffAdd ''p'' JNull]), (2, [DiffAdd ''q'' JNull])]" 1, OF _ refl]
  by auto

text \<open>\<open>drain\<close>, unlike \<open>drain_with_loss\<close>, throws the retained entries away when something was dropped.\<close>

lemma drain_discards_on_loss:
  "ds_dropped s \<noteq> 0 \<Longrightarrow>
   fst (DiffStream_drain s) = Inl (DiffStreamError (ds_dropped s)) \<and> ds_entries (snd (DiffStream_drain s)) = []"
  by (simp add: DiffStream_drain_def Let_def)

end
