(* ===== verification/Recovery.thy ===== *)
theory Recovery
  imports BTreeMap Text
begin

section \<open>Crash recovery\<close>

text \<open>
  The crate \<open>crates/recovery\<close>: checkpoints of a session without secrets, the order in which a session is
  restored, the checksummed store in memory and the one in files with its lock, its temporary file
  and its rotation of backups.

  The file store works on an explicit file system, a map from paths to contents, so that the
  order of its writes, copies and renames is visible. Every path it uses is \<open>path.with_extension\<close> of
  the same file; the model takes them as different files, which they are unless the session file itself
  is named with one of these extensions. Any operation of the file system may fail: the argument
  \<open>faults\<close> says of every operation, counted from the start, whether it does, and all patterns of
  failures are considered. The hash behind \<open>checksum\<close> and the JSON codec are arguments.
\<close>

record CrashReport =
  crp_process :: string
  crp_reason :: string
  crp_restart_count :: u32

record RecoveryResource =
  rr_id :: string
  rr_generation :: u64
  rr_metadata :: "(string, string) BTreeMap"
  rr_opaque_reference :: "string option"

record SessionRecoveryState =
  srs_profiles :: "RecoveryResource list"
  srs_tabs :: "RecoveryResource list"
  srs_cookies :: "RecoveryResource list"
  srs_storage :: "RecoveryResource list"
  srs_downloads :: "RecoveryResource list"
  srs_workspaces :: "RecoveryResource list"
  srs_agent_sessions :: "RecoveryResource list"
  srs_locks :: "RecoveryResource list"
  srs_pending_confirmations :: "RecoveryResource list"

record SessionCheckpoint =
  sc_id :: uuid
  sc_schema_version :: u16
  sc_profiles :: "string list"
  sc_windows :: "string list"
  sc_tabs :: "string list"
  sc_locks :: "string list"
  sc_pending_confirmations :: "string list"
  sc_state :: SessionRecoveryState

datatype RecoveryPhase =
    PhProfiles | PhWorkspaces | PhTabs | PhNavigation | PhStorage | PhAgentSessions | PhLocks
  | PhPendingConfirmations

record RecoveryStep =
  rst_phase :: RecoveryPhase
  rst_resource :: RecoveryResource

record RecoveryPlan =
  rp_steps :: "RecoveryStep list"

datatype RecoveryError = CorruptCheckpoint | UnsupportedVersion | RecIo | LockHeld | RecSerialization | InvalidState

subsection \<open>Validation and planning\<close>

definition recovery_markers :: "string list" where
  "recovery_markers = [''password'', ''secret'', ''token'', ''seed'', ''privatekey'', ''cardnumber'']"

definition normalize_key :: "string \<Rightarrow> string" where
  "normalize_key key = [c \<leftarrow> to_ascii_lowercase key. c \<notin> {CHR ''_'', CHR ''-'', CHR ''.''}]"

definition bad_resource :: "RecoveryResource \<Rightarrow> bool" where
  "bad_resource r =
     (str_trim (rr_id r) = [] \<or> list_ex (\<lambda>key. str_trim key = []) (bt_keys (rr_metadata r))
      \<or> list_ex (\<lambda>(key, val). list_ex (\<lambda>marker. str_contains (normalize_key key) marker
             \<or> str_contains (to_ascii_lowercase val) marker) recovery_markers) (rr_metadata r))"

definition collections :: "SessionRecoveryState \<Rightarrow> RecoveryResource list list" where
  "collections s =
     [srs_profiles s, srs_tabs s, srs_cookies s, srs_storage s, srs_downloads s, srs_workspaces s,
      srs_agent_sessions s, srs_locks s, srs_pending_confirmations s]"

definition SessionRecoveryState_validate :: "SessionRecoveryState \<Rightarrow> RecoveryError + unit" where
  "SessionRecoveryState_validate s =
     (if list_ex bad_resource (concat (collections s)) then Inl InvalidState else Inr ())"

definition plan_steps :: "RecoveryPhase \<Rightarrow> RecoveryResource list \<Rightarrow> RecoveryStep list" where
  "plan_steps phase resources = map (\<lambda>r. \<lparr>rst_phase = phase, rst_resource = r\<rparr>) resources"

definition SessionRecoveryState_plan :: "SessionRecoveryState \<Rightarrow> RecoveryError + RecoveryPlan" where
  "SessionRecoveryState_plan s =
     (case SessionRecoveryState_validate s of
        Inl e \<Rightarrow> Inl e
      | Inr _ \<Rightarrow> Inr \<lparr>rp_steps =
            plan_steps PhProfiles (srs_profiles s) @ plan_steps PhWorkspaces (srs_workspaces s)
            @ plan_steps PhTabs (srs_tabs s) @ plan_steps PhNavigation (srs_tabs s)
            @ plan_steps PhStorage (srs_storage s) @ plan_steps PhAgentSessions (srs_agent_sessions s)
            @ plan_steps PhLocks (srs_locks s)
            @ plan_steps PhPendingConfirmations (srs_pending_confirmations s)\<rparr>)"

text \<open>
  The target of a restore is a trait with one method per phase: the model is one function from the
  phase and the resource to the effect on the target's state.
\<close>

record RestoreReport =
  rep_restored :: nat
  rep_phases :: "RecoveryPhase list"

definition note_phase :: "RecoveryPhase \<Rightarrow> RestoreReport \<Rightarrow> RestoreReport" where
  "note_phase phase report =
     (let report = report\<lparr>rep_restored := rep_restored report + 1\<rparr>
      in if rep_phases report = [] \<or> last (rep_phases report) \<noteq> phase
         then report\<lparr>rep_phases := rep_phases report @ [phase]\<rparr> else report)"

fun restore_steps ::
    "(RecoveryPhase \<Rightarrow> RecoveryResource \<Rightarrow> 's \<Rightarrow> ('err + unit) \<times> 's) \<Rightarrow> RecoveryStep list \<Rightarrow> RestoreReport \<Rightarrow> 's
     \<Rightarrow> ('err + RestoreReport) \<times> 's" where
  "restore_steps target [] report s = (Inr report, s)"
| "restore_steps target (step # steps) report s =
     (case target (rst_phase step) (rst_resource step) s of
        (Inl e, s') \<Rightarrow> (Inl e, s')
      | (Inr _, s') \<Rightarrow> restore_steps target steps (note_phase (rst_phase step) report) s')"

definition RecoveryPlan_restore ::
    "(RecoveryPhase \<Rightarrow> RecoveryResource \<Rightarrow> 's \<Rightarrow> ('err + unit) \<times> 's) \<Rightarrow> RecoveryPlan \<Rightarrow> 's
     \<Rightarrow> ('err + RestoreReport) \<times> 's" where
  "RecoveryPlan_restore target plan s = restore_steps target (rp_steps plan) \<lparr>rep_restored = 0, rep_phases = []\<rparr> s"

subsection \<open>The store in memory\<close>

record CheckpointEnvelope =
  env_checkpoint :: SessionCheckpoint
  env_checksum :: u64

record RecoveryStore =
  rs_envelope :: "CheckpointEnvelope option"

definition RecoveryStore_default :: RecoveryStore where
  "RecoveryStore_default = \<lparr>rs_envelope = None\<rparr>"

definition RecoveryStore_save :: "(SessionCheckpoint \<Rightarrow> u64) \<Rightarrow> SessionCheckpoint \<Rightarrow> RecoveryStore \<Rightarrow> RecoveryStore" where
  "RecoveryStore_save checksum cp s =
     (case SessionRecoveryState_validate (sc_state cp) of
        Inl _ \<Rightarrow> s
      | Inr _ \<Rightarrow> s\<lparr>rs_envelope := Some \<lparr>env_checkpoint = cp, env_checksum = checksum cp\<rparr>\<rparr>)"

text \<open>The checks every load makes of an envelope, in their order.\<close>

definition open_envelope :: "(SessionCheckpoint \<Rightarrow> u64) \<Rightarrow> u16 \<Rightarrow> CheckpointEnvelope \<Rightarrow> RecoveryError + SessionCheckpoint" where
  "open_envelope checksum supported_version e =
     (if sc_schema_version (env_checkpoint e) > supported_version then Inl UnsupportedVersion
      else if checksum (env_checkpoint e) \<noteq> env_checksum e then Inl CorruptCheckpoint
      else (case SessionRecoveryState_validate (sc_state (env_checkpoint e)) of
              Inl err \<Rightarrow> Inl err
            | Inr _ \<Rightarrow> Inr (env_checkpoint e)))"

definition RecoveryStore_load ::
    "(SessionCheckpoint \<Rightarrow> u64) \<Rightarrow> RecoveryStore \<Rightarrow> u16 \<Rightarrow> RecoveryError + SessionCheckpoint option" where
  "RecoveryStore_load checksum s supported_version =
     (case rs_envelope s of
        None \<Rightarrow> Inr None
      | Some e \<Rightarrow> (case open_envelope checksum supported_version e of Inl err \<Rightarrow> Inl err | Inr cp \<Rightarrow> Inr (Some cp)))"

definition RecoveryStore_clear :: "RecoveryStore \<Rightarrow> RecoveryStore" where
  "RecoveryStore_clear s = s\<lparr>rs_envelope := None\<rparr>"

subsection \<open>The store in files\<close>

record RecoveryFileOptions =
  opt_supported_version :: u16
  opt_backup_retention :: nat

definition RecoveryFileOptions_default :: RecoveryFileOptions where
  "RecoveryFileOptions_default = \<lparr>opt_supported_version = 1, opt_backup_retention = 2\<rparr>"

datatype RecPath = MainFile | LockFile | TmpFile | RestoreTmpFile | BackupFile nat

record FsState =
  fs_files :: "RecPath \<Rightarrow> string option"
  fs_clock :: nat

type_synonym 'a fs_result = "(RecoveryError + 'a) \<times> FsState"

definition fs_op :: "(nat \<Rightarrow> bool) \<Rightarrow> ((RecPath \<Rightarrow> string option) \<Rightarrow> RecPath \<Rightarrow> string option) \<Rightarrow> FsState \<Rightarrow> unit fs_result" where
  "fs_op faults eff s =
     (let s' = s\<lparr>fs_clock := fs_clock s + 1\<rparr>
      in if faults (fs_clock s) then (Inl RecIo, s') else (Inr (), s'\<lparr>fs_files := eff (fs_files s)\<rparr>))"

definition fs_bind :: "'a fs_result \<Rightarrow> ('a \<Rightarrow> FsState \<Rightarrow> 'b fs_result) \<Rightarrow> 'b fs_result" where
  "fs_bind m f = (case m of (Inl e, s) \<Rightarrow> (Inl e, s) | (Inr a, s) \<Rightarrow> f a s)"

definition fs_exists :: "FsState \<Rightarrow> RecPath \<Rightarrow> bool" where
  "fs_exists s p = (fs_files s p \<noteq> None)"

definition fs_rename :: "RecPath \<Rightarrow> RecPath \<Rightarrow> (RecPath \<Rightarrow> string option) \<Rightarrow> RecPath \<Rightarrow> string option" where
  "fs_rename src dst files = files(dst := files src, src := None)"

definition fs_copy :: "RecPath \<Rightarrow> RecPath \<Rightarrow> (RecPath \<Rightarrow> string option) \<Rightarrow> RecPath \<Rightarrow> string option" where
  "fs_copy src dst files = files(dst := files src)"

definition fs_write :: "RecPath \<Rightarrow> string \<Rightarrow> (RecPath \<Rightarrow> string option) \<Rightarrow> RecPath \<Rightarrow> string option" where
  "fs_write p content files = files(p := Some content)"

definition FileRecoveryStore_lock :: "(nat \<Rightarrow> bool) \<Rightarrow> FsState \<Rightarrow> unit fs_result" where
  "FileRecoveryStore_lock faults s =
     (if fs_exists s LockFile then (Inl LockHeld, s) else fs_op faults (fs_write LockFile []) s)"

fun rotate_loop :: "(nat \<Rightarrow> bool) \<Rightarrow> nat list \<Rightarrow> FsState \<Rightarrow> unit fs_result" where
  "rotate_loop faults [] s = (Inr (), s)"
| "rotate_loop faults (i # is) s =
     (if fs_exists s (BackupFile (i - 1))
      then fs_bind (fs_op faults (fs_rename (BackupFile (i - 1)) (BackupFile i)) s) (\<lambda>_. rotate_loop faults is)
      else rotate_loop faults is s)"

definition FileRecoveryStore_rotate_backups :: "(nat \<Rightarrow> bool) \<Rightarrow> RecoveryFileOptions \<Rightarrow> FsState \<Rightarrow> unit fs_result" where
  "FileRecoveryStore_rotate_backups faults opts s =
     (if opt_backup_retention opts = 0 then (Inr (), s)
      else fs_bind (rotate_loop faults (rev [1 ..< opt_backup_retention opts]) s)
        (\<lambda>_ s. if fs_exists s MainFile then fs_op faults (fs_copy MainFile (BackupFile 0)) s else (Inr (), s)))"

definition FileRecoveryStore_save_locked ::
    "(nat \<Rightarrow> bool) \<Rightarrow> (SessionCheckpoint \<Rightarrow> u64) \<Rightarrow> (CheckpointEnvelope \<Rightarrow> string option) \<Rightarrow> RecoveryFileOptions
     \<Rightarrow> SessionCheckpoint \<Rightarrow> FsState \<Rightarrow> unit fs_result" where
  "FileRecoveryStore_save_locked faults checksum encode opts cp s =
     (if sc_schema_version cp > opt_supported_version opts then (Inl UnsupportedVersion, s)
      else (case SessionRecoveryState_validate (sc_state cp) of
          Inl e \<Rightarrow> (Inl e, s)
        | Inr _ \<Rightarrow>
            fs_bind (fs_op faults (\<lambda>files. files) s) (\<lambda>_ s.
            (case encode \<lparr>env_checkpoint = cp, env_checksum = checksum cp\<rparr> of
               None \<Rightarrow> (Inl RecSerialization, s)
             | Some content \<Rightarrow>
                 fs_bind (fs_op faults (fs_write TmpFile []) s) (\<lambda>_ s.
                 fs_bind (fs_op faults (fs_write TmpFile content) s) (\<lambda>_ s.
                 fs_bind (fs_op faults (\<lambda>files. files) s) (\<lambda>_ s.
                 fs_bind (if fs_exists s MainFile then FileRecoveryStore_rotate_backups faults opts s else (Inr (), s))
                   (\<lambda>_ s. fs_op faults (fs_rename TmpFile MainFile) s))))))))"

definition FileRecoveryStore_save ::
    "(nat \<Rightarrow> bool) \<Rightarrow> (SessionCheckpoint \<Rightarrow> u64) \<Rightarrow> (CheckpointEnvelope \<Rightarrow> string option) \<Rightarrow> RecoveryFileOptions
     \<Rightarrow> SessionCheckpoint \<Rightarrow> FsState \<Rightarrow> unit fs_result" where
  "FileRecoveryStore_save faults checksum encode opts cp s =
     fs_bind (FileRecoveryStore_lock faults s) (\<lambda>_ s.
       (case FileRecoveryStore_save_locked faults checksum encode opts cp s of
          (result, s') \<Rightarrow> (result, snd (fs_op faults (\<lambda>files. files(LockFile := None)) s'))))"

text \<open>Opening and reading a file is one operation that may fail.\<close>

definition read_envelope ::
    "(nat \<Rightarrow> bool) \<Rightarrow> (SessionCheckpoint \<Rightarrow> u64) \<Rightarrow> (string \<Rightarrow> CheckpointEnvelope option) \<Rightarrow> RecoveryFileOptions
     \<Rightarrow> RecPath \<Rightarrow> FsState \<Rightarrow> (string \<times> SessionCheckpoint) fs_result" where
  "read_envelope faults checksum decode opts p s =
     fs_bind (fs_op faults (\<lambda>files. files) s) (\<lambda>_ s.
       (case fs_files s p of
          None \<Rightarrow> (Inl RecIo, s)
        | Some content \<Rightarrow>
            (case decode content of
               None \<Rightarrow> (Inl RecSerialization, s)
             | Some e \<Rightarrow> (case open_envelope checksum (opt_supported_version opts) e of
                 Inl err \<Rightarrow> (Inl err, s)
               | Inr cp \<Rightarrow> (Inr (content, cp), s)))))"

definition FileRecoveryStore_load ::
    "(nat \<Rightarrow> bool) \<Rightarrow> (SessionCheckpoint \<Rightarrow> u64) \<Rightarrow> (string \<Rightarrow> CheckpointEnvelope option) \<Rightarrow> RecoveryFileOptions
     \<Rightarrow> FsState \<Rightarrow> SessionCheckpoint option fs_result" where
  "FileRecoveryStore_load faults checksum decode opts s =
     (if \<not> fs_exists s MainFile then (Inr None, s)
      else fs_bind (read_envelope faults checksum decode opts MainFile s) (\<lambda>(_, cp) s. (Inr (Some cp), s)))"

definition FileRecoveryStore_restore_backup ::
    "(nat \<Rightarrow> bool) \<Rightarrow> (SessionCheckpoint \<Rightarrow> u64) \<Rightarrow> (string \<Rightarrow> CheckpointEnvelope option) \<Rightarrow> RecoveryFileOptions
     \<Rightarrow> FsState \<Rightarrow> bool fs_result" where
  "FileRecoveryStore_restore_backup faults checksum decode opts s =
     (if \<not> fs_exists s (BackupFile 0) then (Inr False, s)
      else
        fs_bind (read_envelope faults checksum decode opts (BackupFile 0) s) (\<lambda>(content, _) s.
        fs_bind (fs_op faults (\<lambda>files. files) s) (\<lambda>_ s.
        fs_bind (fs_op faults (fs_write RestoreTmpFile []) s) (\<lambda>_ s.
        fs_bind (fs_op faults (fs_write RestoreTmpFile content) s) (\<lambda>_ s.
        fs_bind (fs_op faults (\<lambda>files. files) s) (\<lambda>_ s.
        fs_bind (fs_op faults (fs_rename RestoreTmpFile MainFile) s) (\<lambda>_ s. (Inr True, s))))))))"

subsection \<open>What file operations leave alone\<close>

text \<open>
  An operation \<open>keeps\<close> a path when it leaves its content as it was, whatever fails.
\<close>

definition keeps_file :: "RecPath \<Rightarrow> FsState \<Rightarrow> 'a fs_result \<Rightarrow> bool" where
  "keeps_file p s r = (fs_files (snd r) p = fs_files s p)"

lemma fs_op_cases:
  obtains (fails) s' where "fs_op faults eff s = (Inl RecIo, s')" "fs_files s' = fs_files s"
  | (works) s' where "fs_op faults eff s = (Inr (), s')" "fs_files s' = eff (fs_files s)"
  unfolding fs_op_def Let_def by (cases "faults (fs_clock s)") auto

lemma fs_bind_simps [simp]:
  "fs_bind (Inl e, s) f = (Inl e, s)"
  "fs_bind (Inr a, s) f = f a s"
  by (simp_all add: fs_bind_def)

lemma keeps_fs_op: "(\<And>files. eff files p = files p) \<Longrightarrow> keeps_file p s (fs_op faults eff s)"
  by (cases faults eff s rule: fs_op_cases) (simp_all add: keeps_file_def)

lemma keeps_bind:
  "keeps_file p s m \<Longrightarrow> (\<And>a s'. m = (Inr a, s') \<Longrightarrow> keeps_file p s' (f a s')) \<Longrightarrow> keeps_file p s (fs_bind m f)"
  by (cases m; cases "fst m") (auto simp: keeps_file_def)

lemma keeps_refl: "keeps_file p s (r, s)"
  by (simp add: keeps_file_def)

lemma rotate_loop_keeps: "(\<And>i. p \<noteq> BackupFile i) \<Longrightarrow> keeps_file p s (rotate_loop faults is s)"
proof (induction "is" arbitrary: s)
  case (Cons i "is")
  then have "keeps_file p s (fs_op faults (fs_rename (BackupFile (i - 1)) (BackupFile i)) s)"
    by (intro keeps_fs_op) (simp add: fs_rename_def)
  with Cons show ?case by (auto intro: keeps_bind)
qed (simp add: keeps_refl)

lemma rotate_backups_keeps:
  "(\<And>i. p \<noteq> BackupFile i) \<Longrightarrow> keeps_file p s (FileRecoveryStore_rotate_backups faults opts s)"
  unfolding FileRecoveryStore_rotate_backups_def
  by (auto intro!: keeps_bind rotate_loop_keeps keeps_fs_op simp: keeps_refl fs_copy_def)

definition kept_on_error :: "RecPath \<Rightarrow> FsState \<Rightarrow> 'a fs_result \<Rightarrow> bool" where
  "kept_on_error p s r = (\<forall>e s'. r = (Inl e, s') \<longrightarrow> fs_files s' p = fs_files s p)"

lemma kept_on_error_op: "kept_on_error p s (fs_op faults eff s)"
  by (cases faults eff s rule: fs_op_cases) (auto simp: kept_on_error_def)

lemma kept_on_error_refl: "kept_on_error p s (r, s)"
  by (simp add: kept_on_error_def)

lemma kept_on_error_bind:
  "keeps_file p s m \<Longrightarrow> (\<And>a s'. m = (Inr a, s') \<Longrightarrow> kept_on_error p s' (f a s')) \<Longrightarrow>
   kept_on_error p s (fs_bind m f)"
  by (cases m; cases "fst m") (auto simp: keeps_file_def kept_on_error_def)

lemma fs_bind_Inr:
  "fs_bind m f = (Inr b, s') \<longleftrightarrow> (\<exists>a t. m = (Inr a, t) \<and> f a t = (Inr b, s'))"
  by (cases m; cases "fst m") auto

lemma fs_op_Inr: "fs_op faults eff s = (Inr u, s') \<Longrightarrow> fs_files s' = eff (fs_files s)"
  by (cases faults eff s rule: fs_op_cases) auto

lemma keeps_fileD: "keeps_file p s (r, s') \<Longrightarrow> fs_files s' p = fs_files s p"
  by (simp add: keeps_file_def)

lemma save_locked_kept_on_error:
  "kept_on_error MainFile s (FileRecoveryStore_save_locked faults checksum encode opts cp s)"
  unfolding FileRecoveryStore_save_locked_def
  by (auto intro!: kept_on_error_bind keeps_fs_op kept_on_error_op kept_on_error_refl rotate_backups_keeps keeps_refl
      simp: fs_write_def split: option.split sum.split)

lemma save_locked_ok:
  assumes "FileRecoveryStore_save_locked faults checksum encode opts cp s = (Inr (), s')"
  shows "\<exists>content. encode \<lparr>env_checkpoint = cp, env_checksum = checksum cp\<rparr> = Some content \<and>
    fs_files s' MainFile = Some content \<and> sc_schema_version cp \<le> opt_supported_version opts \<and>
    SessionRecoveryState_validate (sc_state cp) = Inr () \<and>
    (\<exists>a b. fs_files a = (fs_files s)(TmpFile := Some content) \<and>
       (if fs_exists s MainFile then FileRecoveryStore_rotate_backups faults opts a = (Inr (), b) else b = a) \<and>
       fs_files s' = fs_rename TmpFile MainFile (fs_files b))"
proof -
  let ?e = "\<lparr>env_checkpoint = cp, env_checksum = checksum cp\<rparr>"
  have ver: "sc_schema_version cp \<le> opt_supported_version opts"
    and valid: "SessionRecoveryState_validate (sc_state cp) = Inr ()"
    using assms by (auto simp: FileRecoveryStore_save_locked_def split: if_splits sum.splits)
  with assms obtain t1 content t2 t3 t4 t5 where
    t1: "fs_op faults (\<lambda>files. files) s = (Inr (), t1)" and c: "encode ?e = Some content" and
    t2: "fs_op faults (fs_write TmpFile []) t1 = (Inr (), t2)" and
    t3: "fs_op faults (fs_write TmpFile content) t2 = (Inr (), t3)" and
    t4: "fs_op faults (\<lambda>files. files) t3 = (Inr (), t4)" and
    t5: "(if fs_exists t4 MainFile then FileRecoveryStore_rotate_backups faults opts t4 else (Inr (), t4)) = (Inr (), t5)" and
    t6: "fs_op faults (fs_rename TmpFile MainFile) t5 = (Inr (), s')"
    by (auto simp: FileRecoveryStore_save_locked_def fs_bind_Inr not_less [symmetric] split: option.splits)
  have f4: "fs_files t4 = (fs_files s)(TmpFile := Some content)"
    using fs_op_Inr [OF t1] fs_op_Inr [OF t2] fs_op_Inr [OF t3] fs_op_Inr [OF t4] by (simp add: fs_write_def)
  have "keeps_file TmpFile t4 (Inr (), t5)"
    using t5 rotate_backups_keeps [of TmpFile t4 faults opts] by (auto simp: keeps_refl split: if_splits)
  then have "fs_files t5 TmpFile = Some content" using f4 by (simp add: keeps_file_def)
  then have "fs_files s' MainFile = Some content" using fs_op_Inr [OF t6] by (simp add: fs_rename_def)
  moreover have "if fs_exists s MainFile then FileRecoveryStore_rotate_backups faults opts t4 = (Inr (), t5) else t5 = t4"
    using t5 f4 by (auto simp: fs_exists_def split: if_splits)
  ultimately show ?thesis using c ver valid f4 fs_op_Inr [OF t6] by blast
qed

text \<open>What rotation does to the backups \<open>0, 1, ...\<close>: each moves up by one, the last one falls off.\<close>

definition shifted :: "nat \<Rightarrow> (nat \<Rightarrow> string option) \<Rightarrow> nat \<Rightarrow> string option" where
  "shifted n b i = (if 1 \<le> i \<and> i < n \<and> b (i - 1) \<noteq> None then b (i - 1)
     else if i + 1 < n then None else b i)"

lemma rotate_loop_shifts:
  "rotate_loop faults (rev [1 ..< n]) s = (Inr (), s') \<Longrightarrow>
   fs_files s' (BackupFile i) = shifted n (\<lambda>j. fs_files s (BackupFile j)) i"
proof (induction n arbitrary: s s' i)
  case (Suc n)
  show ?case
  proof (cases "1 \<le> n")
    case False
    with Suc.prems show ?thesis by (auto simp: shifted_def)
  next
    case True
    then have upt: "rev [1 ..< Suc n] = n # rev [1 ..< n]" by simp
    show ?thesis
    proof (cases "fs_exists s (BackupFile (n - 1))")
      case exists: True
      with Suc.prems upt obtain t where t: "fs_op faults (fs_rename (BackupFile (n - 1)) (BackupFile n)) s = (Inr (), t)"
        "rotate_loop faults (rev [1 ..< n]) t = (Inr (), s')" by (auto simp: fs_bind_Inr)
      have moved: "fs_files t (BackupFile j) = (if j = n - 1 then None
          else if j = n then fs_files s (BackupFile (n - 1)) else fs_files s (BackupFile j))" for j
        using fs_op_Inr [OF t(1)] True by (simp add: fs_rename_def)
      consider "i < n" | "i = n" | "n < i" by linarith
      then show ?thesis
      proof cases
        case 1
        then have "i - 1 \<noteq> n - 1 \<or> i = 0" "i - 1 \<noteq> n" by auto
        with 1 show ?thesis unfolding Suc.IH [OF t(2), of i] shifted_def moved by auto
      next
        case 2
        with True exists show ?thesis
          unfolding Suc.IH [OF t(2), of i] shifted_def moved by (auto simp: fs_exists_def)
      next
        case 3
        then show ?thesis unfolding Suc.IH [OF t(2), of i] shifted_def moved by auto
      qed
    next
      case gap: False
      with Suc.prems upt have "rotate_loop faults (rev [1 ..< n]) s = (Inr (), s')" by simp
      note IH = Suc.IH [OF this, of i]
      have none: "fs_files s (BackupFile (n - 1)) = None" using gap by (simp add: fs_exists_def)
      consider "i + 1 < n" | "i = n - 1" | "i = n" | "n < i" using True by linarith
      then show ?thesis
      proof cases
        case 2
        with True none IH show ?thesis by (auto simp: shifted_def)
      qed (use True none IH in \<open>auto simp: shifted_def\<close>)
    qed
  qed
qed (simp add: shifted_def)

lemma rotate_backups_shifts:
  assumes "FileRecoveryStore_rotate_backups faults opts s = (Inr (), s')" "fs_exists s MainFile"
    and "opt_backup_retention opts > 0"
  shows "fs_files s' (BackupFile 0) = fs_files s MainFile"
    and "0 < i \<Longrightarrow> fs_files s' (BackupFile i) =
      shifted (opt_backup_retention opts) (\<lambda>j. fs_files s (BackupFile j)) i"
proof -
  from assms(1,3) obtain t where t: "rotate_loop faults (rev [1 ..< opt_backup_retention opts]) s = (Inr (), t)"
    "(if fs_exists t MainFile then fs_op faults (fs_copy MainFile (BackupFile 0)) t else (Inr (), t)) = (Inr (), s')"
    by (auto simp: FileRecoveryStore_rotate_backups_def fs_bind_Inr)
  have main: "fs_files t MainFile = fs_files s MainFile"
    using rotate_loop_keeps [of MainFile s faults "rev [1 ..< opt_backup_retention opts]"] t(1) by (simp add: keeps_file_def)
  then have s': "fs_files s' = fs_copy MainFile (BackupFile 0) (fs_files t)"
    using t(2) assms(2) fs_op_Inr by (auto simp: fs_exists_def split: if_splits)
  show "fs_files s' (BackupFile 0) = fs_files s MainFile" by (simp add: s' fs_copy_def main)
  show "fs_files s' (BackupFile i) = shifted (opt_backup_retention opts) (\<lambda>j. fs_files s (BackupFile j)) i"
    if "0 < i" using that rotate_loop_shifts [OF t(1), of i] by (simp add: s' fs_copy_def)
qed

subsection \<open>Properties\<close>

lemma save_cases:
  assumes "FileRecoveryStore_save faults checksum encode opts cp s = (r, s')"
  obtains (unlocked) e where "r = Inl e" "fs_files s' MainFile = fs_files s MainFile"
  | (locked) a b where "fs_files a = (fs_files s)(LockFile := Some [])"
      "FileRecoveryStore_save_locked faults checksum encode opts cp a = (r, b)"
      "\<And>p. p \<noteq> LockFile \<Longrightarrow> fs_files s' p = fs_files b p"
proof (cases "FileRecoveryStore_lock faults s")
  case (Pair l a)
  show ?thesis
  proof (cases l)
    case (Inl e)
    have "keeps_file MainFile s (FileRecoveryStore_lock faults s)"
      unfolding FileRecoveryStore_lock_def by (auto intro: keeps_fs_op simp: keeps_refl fs_write_def)
    with Pair Inl assms show ?thesis
      by (intro unlocked) (auto simp: FileRecoveryStore_save_def keeps_file_def)
  next
    case (Inr u)
    then have a: "fs_files a = (fs_files s)(LockFile := Some [])"
      using Pair fs_op_Inr [of faults "fs_write LockFile []" s] 
      by (auto simp: FileRecoveryStore_lock_def fs_write_def split: if_splits)
    obtain q b where b: "FileRecoveryStore_save_locked faults checksum encode opts cp a = (q, b)"
      by (cases "FileRecoveryStore_save_locked faults checksum encode opts cp a")
    have "keeps_file p b (fs_op faults (\<lambda>files. files(LockFile := None)) b)" if "p \<noteq> LockFile" for p
      using that by (intro keeps_fs_op) simp
    with assms Pair Inr b a show ?thesis
      by (intro locked [of a b]) (auto simp: FileRecoveryStore_save_def keeps_file_def)
  qed
qed

lemma load_from_main:
  "fs_files s MainFile = fs_files t MainFile \<Longrightarrow>
   fst (FileRecoveryStore_load (\<lambda>_. False) checksum decode opts s) =
   fst (FileRecoveryStore_load (\<lambda>_. False) checksum decode opts t)"
  by (simp add: FileRecoveryStore_load_def read_envelope_def fs_exists_def fs_op_def Let_def
      split: option.split sum.split)

lemma load_written:
  assumes "fs_files s MainFile = Some content" "decode content = Some \<lparr>env_checkpoint = cp, env_checksum = checksum cp\<rparr>"
    and "sc_schema_version cp \<le> opt_supported_version opts" "SessionRecoveryState_validate (sc_state cp) = Inr ()"
  shows "fst (FileRecoveryStore_load (\<lambda>_. False) checksum decode opts s) = Inr (Some cp)"
  using assms
  by (simp add: FileRecoveryStore_load_def read_envelope_def open_envelope_def fs_exists_def fs_op_def Let_def not_less)

text \<open>
  C13: saving a checkpoint to its file is atomic under every pattern of file system failures: when it
  succeeds a later load returns exactly that checkpoint, and when it fails at any point a later load
  returns what it would have returned before, given a codec that restores what it encoded.
\<close>

theorem checkpoint_save_is_atomic:
  assumes "\<And>e content. encode e = Some content \<Longrightarrow> decode content = Some e"
    and "FileRecoveryStore_save faults checksum encode opts cp s = (r, s')"
  shows "fst (FileRecoveryStore_load (\<lambda>_. False) checksum decode opts s') =
    (case r of Inr _ \<Rightarrow> Inr (Some cp)
     | Inl _ \<Rightarrow> fst (FileRecoveryStore_load (\<lambda>_. False) checksum decode opts s))"
  using assms(2)
proof (cases rule: save_cases)
  case (unlocked e)
  then show ?thesis using load_from_main [OF unlocked(2)] by simp
next
  case (locked a b)
  have main: "fs_files s' MainFile = fs_files b MainFile" "fs_files a MainFile = fs_files s MainFile"
    using locked(1,3) by simp_all
  show ?thesis
  proof (cases r)
    case (Inl e)
    then have "fs_files b MainFile = fs_files a MainFile"
      using save_locked_kept_on_error [of a faults checksum encode opts cp] locked(2)
      by (simp add: kept_on_error_def)
    with main have "fs_files s' MainFile = fs_files s MainFile" by simp
    from load_from_main [OF this] Inl show ?thesis by simp
  next
    case (Inr u)
    with locked(2) have "FileRecoveryStore_save_locked faults checksum encode opts cp a = (Inr (), b)" by simp
    from save_locked_ok [OF this] obtain content where c: "encode \<lparr>env_checkpoint = cp, env_checksum = checksum cp\<rparr> = Some content"
      "fs_files b MainFile = Some content" "sc_schema_version cp \<le> opt_supported_version opts"
      "SessionRecoveryState_validate (sc_state cp) = Inr ()"
      by blast
    with main(1) Inr show ?thesis using load_written [of s' content decode cp checksum opts] assms(1) [OF c(1)] by simp
  qed
qed

definition sample_checkpoint :: SessionCheckpoint where
  "sample_checkpoint = \<lparr>sc_id = 1, sc_schema_version = 1, sc_profiles = [], sc_windows = [], sc_tabs = [''t''],
     sc_locks = [], sc_pending_confirmations = [],
     sc_state = \<lparr>srs_profiles = [], srs_tabs = [], srs_cookies = [], srs_storage = [], srs_downloads = [],
       srs_workspaces = [], srs_agent_sessions = [], srs_locks = [], srs_pending_confirmations = []\<rparr>\<rparr>"

theorem checkpoint_save_is_atomic_witness:
  "fst (FileRecoveryStore_load (\<lambda>_. False) (\<lambda>_. 5)
     (\<lambda>content. if content = ''c'' then Some \<lparr>env_checkpoint = sample_checkpoint, env_checksum = 5\<rparr> else None)
     RecoveryFileOptions_default
     (snd (FileRecoveryStore_save (\<lambda>_. False) (\<lambda>_. 5)
        (\<lambda>e. if e = \<lparr>env_checkpoint = sample_checkpoint, env_checksum = 5\<rparr> then Some ''c'' else None)
        RecoveryFileOptions_default sample_checkpoint \<lparr>fs_files = (\<lambda>_. None), fs_clock = 0\<rparr>)))
   = Inr (Some sample_checkpoint)"
proof -
  let ?e = "\<lparr>env_checkpoint = sample_checkpoint, env_checksum = 5\<rparr>"
  let ?enc = "\<lambda>e. if e = ?e then Some ''c'' else None"
  let ?dec = "\<lambda>content. if content = ''c'' then Some ?e else None"
  let ?run = "FileRecoveryStore_save (\<lambda>_. False) (\<lambda>_. 5) ?enc RecoveryFileOptions_default sample_checkpoint
    \<lparr>fs_files = (\<lambda>_. None), fs_clock = 0\<rparr>"
  have ok: "fst ?run = Inr ()"
    by (simp add: FileRecoveryStore_save_def FileRecoveryStore_lock_def FileRecoveryStore_save_locked_def
        fs_op_def fs_exists_def Let_def fs_write_def RecoveryFileOptions_default_def sample_checkpoint_def
        SessionRecoveryState_validate_def collections_def)
  have "fst (FileRecoveryStore_load (\<lambda>_. False) (\<lambda>_. 5) ?dec RecoveryFileOptions_default (snd ?run)) =
    (case fst ?run of Inr _ \<Rightarrow> Inr (Some sample_checkpoint)
     | Inl _ \<Rightarrow> fst (FileRecoveryStore_load (\<lambda>_. False) (\<lambda>_. 5) ?dec RecoveryFileOptions_default
          \<lparr>fs_files = (\<lambda>_. None), fs_clock = 0\<rparr>))"
    by (rule checkpoint_save_is_atomic [where encode = ?enc and faults = "\<lambda>_. False"]) (auto split: if_splits)
  with ok show ?thesis by simp
qed

text \<open>
  C14: after a successful save over an existing checkpoint, restoring the newest backup brings that
  previous checkpoint back: a load then returns what it returned before the save, and the older
  backups have moved up by one.
\<close>

theorem backup_restores_the_previous_checkpoint:
  assumes "FileRecoveryStore_save faults checksum encode opts cp s = (Inr (), s')"
    and "fst (FileRecoveryStore_load (\<lambda>_. False) checksum decode opts s) = Inr (Some old)"
    and "opt_backup_retention opts > 0"
    and "FileRecoveryStore_restore_backup (\<lambda>_. False) checksum decode opts s' = (r, s'')"
  shows "r = Inr True \<and> fst (FileRecoveryStore_load (\<lambda>_. False) checksum decode opts s'') = Inr (Some old) \<and>
    (\<forall>i > 0. fs_files s'' (BackupFile i) =
       shifted (opt_backup_retention opts) (\<lambda>j. fs_files s (BackupFile j)) i)"
proof -
  from assms(2) have main: "fs_exists s MainFile"
    by (cases "fs_exists s MainFile") (simp_all add: FileRecoveryStore_load_def)
  then obtain content where content: "fs_files s MainFile = Some content" by (auto simp: fs_exists_def)
  with assms(2) obtain e where e: "decode content = Some e" "open_envelope checksum (opt_supported_version opts) e = Inr old"
    by (auto simp: FileRecoveryStore_load_def read_envelope_def fs_exists_def fs_op_def Let_def
        split: option.splits sum.splits)
  from assms(1) obtain a b where ab: "fs_files a = (fs_files s)(LockFile := Some [])"
    "FileRecoveryStore_save_locked faults checksum encode opts cp a = (Inr (), b)"
    "\<And>p. p \<noteq> LockFile \<Longrightarrow> fs_files s' p = fs_files b p"
    by (cases rule: save_cases) auto
  from save_locked_ok [OF ab(2)] main ab(1) obtain c t u where
    tu: "fs_files t = (fs_files a)(TmpFile := Some c)" "FileRecoveryStore_rotate_backups faults opts t = (Inr (), u)"
      "fs_files b = fs_rename TmpFile MainFile (fs_files u)"
    by (auto simp: fs_exists_def)
  have "fs_exists t MainFile" using main ab(1) tu(1) by (simp add: fs_exists_def)
  note rot = rotate_backups_shifts [OF tu(2) this assms(3)]
  have newest: "fs_files s' (BackupFile 0) = Some content"
    using rot(1) ab(1,3) tu(1,3) content by (simp add: fs_rename_def)
  have older: "fs_files s' (BackupFile i) = shifted (opt_backup_retention opts) (\<lambda>j. fs_files s (BackupFile j)) i"
    if "0 < i" for i using rot(2) [OF that] ab(1,3) tu(1,3) by (simp add: fs_rename_def)
  have "r = Inr True" "fs_files s'' MainFile = Some content"
    "\<And>i. fs_files s'' (BackupFile i) = fs_files s' (BackupFile i)"
    using assms(4) newest e
    by (auto simp: FileRecoveryStore_restore_backup_def read_envelope_def fs_exists_def fs_op_def Let_def
        fs_write_def fs_rename_def)
  then show ?thesis
    using older content assms(2) load_from_main [of s'' s checksum decode opts] by simp
qed

theorem backup_restores_the_previous_checkpoint_witness:
  "\<exists>r s''. FileRecoveryStore_restore_backup (\<lambda>_. False) (\<lambda>_. 5)
       (\<lambda>_. Some \<lparr>env_checkpoint = sample_checkpoint, env_checksum = 5\<rparr>) RecoveryFileOptions_default
       (snd (FileRecoveryStore_save (\<lambda>_. False) (\<lambda>_. 5) (\<lambda>_. Some ''n'') RecoveryFileOptions_default sample_checkpoint
          \<lparr>fs_files = (\<lambda>_. None)(MainFile := Some ''m''), fs_clock = 0\<rparr>)) = (r, s'') \<and> r = Inr True"
proof -
  let ?s = "\<lparr>fs_files = (\<lambda>_. None)(MainFile := Some ''m''), fs_clock = 0\<rparr>"
  let ?dec = "\<lambda>_. Some \<lparr>env_checkpoint = sample_checkpoint, env_checksum = 5\<rparr>"
  let ?run = "FileRecoveryStore_save (\<lambda>_. False) (\<lambda>_. 5) (\<lambda>_. Some ''n'') RecoveryFileOptions_default sample_checkpoint ?s"
  let ?restored = "FileRecoveryStore_restore_backup (\<lambda>_. False) (\<lambda>_. 5) ?dec RecoveryFileOptions_default (snd ?run)"
  have "[Suc 0 ..< 2] = [1]" by (simp add: upt_rec)
  then have "fst ?run = Inr ()"
    by (simp add: FileRecoveryStore_save_def FileRecoveryStore_lock_def FileRecoveryStore_save_locked_def
        FileRecoveryStore_rotate_backups_def fs_op_def fs_exists_def Let_def fs_write_def fs_copy_def
        RecoveryFileOptions_default_def sample_checkpoint_def SessionRecoveryState_validate_def collections_def)
  then have "?run = (Inr (), snd ?run)" by (metis prod.collapse)
  moreover have "fst (FileRecoveryStore_load (\<lambda>_. False) (\<lambda>_. 5) ?dec RecoveryFileOptions_default ?s) = Inr (Some sample_checkpoint)"
    by (rule load_written [of _ "''m''"])
       (simp_all add: RecoveryFileOptions_default_def sample_checkpoint_def SessionRecoveryState_validate_def collections_def)
  moreover have "opt_backup_retention RecoveryFileOptions_default > 0" by (simp add: RecoveryFileOptions_default_def)
  moreover have "?restored = (fst ?restored, snd ?restored)" by simp
  ultimately have "fst ?restored = Inr True" using backup_restores_the_previous_checkpoint by blast
  then show ?thesis by (metis prod.collapse)
qed

text \<open>
  A plan restores profiles before workspaces before tabs, and so on, in the order of the phases. It has
  no phase for cookies and downloads: they are validated and saved but never restored.
\<close>

fun phase_rank :: "RecoveryPhase \<Rightarrow> nat" where
  "phase_rank PhProfiles = 0"
| "phase_rank PhWorkspaces = 1"
| "phase_rank PhTabs = 2"
| "phase_rank PhNavigation = 3"
| "phase_rank PhStorage = 4"
| "phase_rank PhAgentSessions = 5"
| "phase_rank PhLocks = 6"
| "phase_rank PhPendingConfirmations = 7"

lemma plan_steps_ranks:
  "map (\<lambda>st. phase_rank (rst_phase st)) (plan_steps ph rs) = replicate (length rs) (phase_rank ph)"
  by (simp add: plan_steps_def comp_def map_replicate_const)

lemma plan_in_phase_order:
  "SessionRecoveryState_plan s = Inr p \<Longrightarrow> sorted (map (\<lambda>st. phase_rank (rst_phase st)) (rp_steps p))"
proof -
  assume "SessionRecoveryState_plan s = Inr p"
  then have "map (\<lambda>st. phase_rank (rst_phase st)) (rp_steps p) =
      replicate (length (srs_profiles s)) 0 @ replicate (length (srs_workspaces s)) 1
      @ replicate (length (srs_tabs s)) 2 @ replicate (length (srs_tabs s)) 3 @ replicate (length (srs_storage s)) 4
      @ replicate (length (srs_agent_sessions s)) 5 @ replicate (length (srs_locks s)) 6
      @ replicate (length (srs_pending_confirmations s)) 7"
    by (auto simp: SessionRecoveryState_plan_def plan_steps_ranks split: sum.splits)
  then show ?thesis by (auto simp: sorted_append sorted_replicate set_replicate_conv_if)
qed

lemma plan_omits_cookies_and_downloads:
  "SessionRecoveryState_plan s = Inr p \<Longrightarrow>
   SessionRecoveryState_plan (s\<lparr>srs_cookies := [], srs_downloads := []\<rparr>) = Inr p"
  by (auto simp: SessionRecoveryState_plan_def SessionRecoveryState_validate_def collections_def list_ex_iff
      split: sum.splits if_splits)

lemma restore_counts_every_step:
  "restore_steps target steps report s = (Inr report', s') \<Longrightarrow>
   rep_restored report' = rep_restored report + length steps"
  by (induction target steps report s rule: restore_steps.induct)
     (auto simp: note_phase_def Let_def split: prod.splits sum.splits if_splits)

text \<open>An invalid checkpoint is not saved, without an error: a later load still returns the old one.\<close>

lemma invalid_checkpoint_is_dropped_silently:
  "SessionRecoveryState_validate (sc_state cp) \<noteq> Inr () \<Longrightarrow> RecoveryStore_save checksum cp s = s"
  by (simp add: RecoveryStore_save_def split: sum.split)

end
