(* ===== verification/Identity.thy ===== *)
theory Identity
  imports Text
begin

section \<open>The identity a browser reports\<close>

text \<open>
  The part of \<open>crates/engine-api\<close> with behaviour of its own: the identity of a profile with its
  client hint headers, the presets of the HTTP/2 settings, the feature set of an engine, and the
  guards that every engine puts before the evaluation of a page script. The engine itself, behind
  the trait \<open>BrowserEngine\<close>, is an argument.
\<close>

subsection \<open>Profile identities\<close>

record SecChUaBrand =
  scb_brand :: string
  scb_version :: string

record IdentityViewport =
  ivp_width :: u32
  ivp_height :: u32
  ivp_device_scale_factor :: u32

record ProfileIdentity =
  pid_user_agent :: string
  pid_locale :: string
  pid_timezone :: string
  pid_viewport :: IdentityViewport
  pid_platform :: string
  pid_brands :: "SecChUaBrand list"
  pid_accept_language :: string
  pid_hardware_concurrency :: u8
  pid_device_memory :: u8
  pid_max_touch_points :: u8
  pid_color_depth :: u8

definition ProfileIdentity_sec_ch_ua :: "ProfileIdentity \<Rightarrow> string" where
  "ProfileIdentity_sec_ch_ua i =
     join '', '' (map (\<lambda>b. ''\"'' @ [c \<leftarrow> scb_brand b. c \<noteq> CHR 0x00] @ ''\";v=\"'' @ scb_version b @ ''\"'') (pid_brands i))"

definition ProfileIdentity_ua_claims_touch :: "ProfileIdentity \<Rightarrow> bool" where
  "ProfileIdentity_ua_claims_touch i =
     (let platform = to_ascii_lowercase (pid_platform i)
      in str_contains platform ''android'' \<or> str_contains platform ''iphone'' \<or> str_contains platform ''ipad'')"

definition ProfileIdentity_sec_ch_ua_mobile :: "ProfileIdentity \<Rightarrow> string" where
  "ProfileIdentity_sec_ch_ua_mobile i =
     (if str_contains (to_ascii_lowercase (pid_platform i)) ''android''
         \<or> str_contains (to_ascii_lowercase (pid_platform i)) ''iphone''
         \<or> str_contains (to_ascii_lowercase (pid_platform i)) ''ipad'' then ''?1'' else ''?0'')"

definition ProfileIdentity_sec_ch_ua_platform :: "ProfileIdentity \<Rightarrow> string" where
  "ProfileIdentity_sec_ch_ua_platform i = ''\"'' @ pid_platform i @ ''\"''"

definition default_brands :: "SecChUaBrand list" where
  "default_brands =
     [\<lparr>scb_brand = '' Not A;Brand'', scb_version = ''99''\<rparr>,
      \<lparr>scb_brand = ''Chromium'', scb_version = ''140''\<rparr>,
      \<lparr>scb_brand = ''Google Chrome'', scb_version = ''140''\<rparr>]"

definition IdentityViewport_default :: IdentityViewport where
  "IdentityViewport_default = \<lparr>ivp_width = 1280, ivp_height = 720, ivp_device_scale_factor = 1\<rparr>"

definition chrome_linux_user_agent :: string where
  "chrome_linux_user_agent = ''Mozilla/5.0 (X11; Linux x86_64) AppleWebKit/537.36 (KHTML, like Gecko) Chrome/140.0.0.0 Safari/537.36''"

definition ProfileIdentity_default_for_servo :: ProfileIdentity where
  "ProfileIdentity_default_for_servo =
     \<lparr>pid_user_agent = chrome_linux_user_agent, pid_locale = ''en-US'', pid_timezone = ''UTC'',
      pid_viewport = IdentityViewport_default, pid_platform = ''Linux x86_64'', pid_brands = default_brands,
      pid_accept_language = ''en-US,en;q=0.9'', pid_hardware_concurrency = 8, pid_device_memory = 8,
      pid_max_touch_points = 0, pid_color_depth = 24\<rparr>"

datatype Http2Profile = Firefox130 | Chrome140 | Edge

fun Http2Profile_as_str :: "Http2Profile \<Rightarrow> string" where
  "Http2Profile_as_str Firefox130 = ''firefox-130''"
| "Http2Profile_as_str Chrome140 = ''chrome-140''"
| "Http2Profile_as_str Edge = ''edge''"

lemma http2_profile_names_differ: "inj Http2Profile_as_str"
proof (rule injI)
  show "x = y" if "Http2Profile_as_str x = Http2Profile_as_str y" for x y
    using that by (cases x; cases y) simp_all
qed

lemma mobile_hint_follows_touch_claim:
  "ProfileIdentity_sec_ch_ua_mobile i = (if ProfileIdentity_ua_claims_touch i then ''?1'' else ''?0'')"
  by (simp add: ProfileIdentity_sec_ch_ua_mobile_def ProfileIdentity_ua_claims_touch_def Let_def)

subsection \<open>Engine features and page evaluation\<close>

datatype EngineFeature =
    FeatNavigation | FeatSnapshots | FeatNativeInput | FeatPageEvaluation
  | FeatNetworkObservation | FeatLayoutObservation | FeatRuntimeObservation

record EngineCapabilities =
  ecap_engine_name :: string
  ecap_engine_version :: "string option"
  ecap_features :: "EngineFeature set"
  ecap_live_browser_compiled :: bool

definition EngineCapabilities_supports :: "EngineCapabilities \<Rightarrow> EngineFeature \<Rightarrow> bool" where
  "EngineCapabilities_supports c feature \<longleftrightarrow> feature \<in> ecap_features c"

datatype EngineError =
    ContextNotFound u64 | PageNotFound u64 | Unsupported string | OtherEngineError string
  | EvaluationDenied | EvaluationTimeout | MissingProvenance

record PageEvaluationRequest =
  per_source :: string
  per_origin :: string
  per_capability_granted :: bool
  per_timeout_millis :: u64
  per_max_timeout_millis :: u64
  per_provenance_reference :: string

text \<open>\<open>evaluate_page_script\<close> of the engine is the argument \<open>evaluate\<close>.\<close>

definition BrowserEngine_evaluate_page_script_checked ::
    "(u64 \<Rightarrow> string \<Rightarrow> 'eng \<Rightarrow> (EngineError + 'v) \<times> 'eng) \<Rightarrow> u64 \<Rightarrow> PageEvaluationRequest \<Rightarrow> 'eng
     \<Rightarrow> (EngineError + 'v) \<times> 'eng" where
  "BrowserEngine_evaluate_page_script_checked evaluate page r e =
     (if per_origin r = [] \<or> \<not> per_capability_granted r then (Inl EvaluationDenied, e)
      else if per_provenance_reference r = [] then (Inl MissingProvenance, e)
      else if per_timeout_millis r = 0 \<or> per_timeout_millis r > per_max_timeout_millis r
      then (Inl EvaluationTimeout, e)
      else evaluate page (per_source r) e)"

definition BrowserEngine_advance_time_default :: "u64 \<Rightarrow> u64 \<Rightarrow> EngineError + u64" where
  "BrowserEngine_advance_time_default c millis =
     Inl (Unsupported ''deterministic clock is unavailable for this context'')"

definition BrowserEngine_wait_for_network_idle_default :: "u64 \<Rightarrow> u64 \<Rightarrow> u64 \<Rightarrow> u64 \<Rightarrow> EngineError + unit" where
  "BrowserEngine_wait_for_network_idle_default page idle_ms grace_ms max_ms =
     Inl (Unsupported ''network-idle wait is unavailable for this engine'')"

text \<open>A script reaches the engine only with a capability, an origin, provenance and a timeout within the policy.\<close>

lemma unchecked_scripts_never_run:
  assumes "\<not> (per_capability_granted r \<and> per_origin r \<noteq> [] \<and> per_provenance_reference r \<noteq> []
      \<and> 0 < per_timeout_millis r \<and> per_timeout_millis r \<le> per_max_timeout_millis r)"
  shows "\<exists>err. BrowserEngine_evaluate_page_script_checked evaluate page r e = (Inl err, e)"
  using assms
  by (auto simp: BrowserEngine_evaluate_page_script_checked_def not_le word_gt_0)

end
