(* ===== verification/Network.thy ===== *)
theory Network
  imports Cookies Cache ServiceWorkers Identity
begin

section \<open>The network stack\<close>

text \<open>
  The crate \<open>crates/network\<close>, with the request headers set from the profile identity of
  \<open>Identity\<close>. A fetch passes the guards, attaches cookies and identity headers, and is answered by a
  service worker, by the cache of its profile and site, or by the route table, following redirects;
  then cookies and cache are updated and the outcome is counted, logged and audited. The three
  components it composes are those of \<open>Cookies\<close>, \<open>Cache\<close> and \<open>ServiceWorkers\<close>.

  \<open>Url::parse\<close>, \<open>Url::join\<close> and the two readings of the system clock are arguments.
\<close>

subsection \<open>Identity headers\<close>

definition has_header :: "(string, string) BTreeMap \<Rightarrow> string \<Rightarrow> bool" where
  "has_header headers name = list_ex (\<lambda>key. eq_ignore_ascii_case key name) (bt_keys headers)"

definition identity_entries :: "(string, string) BTreeMap \<Rightarrow> ProfileIdentity \<Rightarrow> (string \<times> string) list" where
  "identity_entries headers i =
     (if \<not> has_header headers ''user-agent'' then [(''user-agent'', pid_user_agent i)] else [])
     @ (if \<not> has_header headers ''accept-language'' then [(''accept-language'', pid_accept_language i)] else [])
     @ (if \<not> has_header headers ''sec-ch-ua'' \<and> pid_brands i \<noteq> []
        then [(''sec-ch-ua'', ProfileIdentity_sec_ch_ua i)] else [])
     @ (if \<not> has_header headers ''sec-ch-ua-mobile'' then [(''sec-ch-ua-mobile'', ProfileIdentity_sec_ch_ua_mobile i)] else [])
     @ (if \<not> has_header headers ''sec-ch-ua-platform''
        then [(''sec-ch-ua-platform'', ProfileIdentity_sec_ch_ua_platform i)] else [])"

definition NetworkStack_apply_profile_headers ::
    "ProfileIdentity option \<Rightarrow> (string, string) BTreeMap \<Rightarrow> (string, string) BTreeMap" where
  "NetworkStack_apply_profile_headers identity headers =
     (case identity of
        None \<Rightarrow> headers
      | Some i \<Rightarrow> fold (\<lambda>e. bt_insert (fst e) (snd e)) (identity_entries headers i) headers)"

subsection \<open>Requests, errors and events\<close>

record NetworkRequest =
  nrq_id :: uuid
  nrq_profile :: ProfileId
  nrq_top_level_site :: string
  nrq_url :: Url
  nrq_method :: string
  nrq_headers :: "(string, string) BTreeMap"
  nrq_body :: "string option"
  nrq_initiator :: "string option"

record NetworkResponse =
  nrs_request_id :: uuid
  nrs_status :: u16
  nrs_headers :: "(string, string) BTreeMap"
  nrs_body :: string

datatype NetworkEvent =
    RequestStarted uuid Url
  | RequestInitiator uuid string
  | ResponseReceived uuid u16 nat
  | Timing uuid u64
  | RequestCompleted uuid u16
  | RequestFailed uuid string
  | Mutation uuid string

datatype NetworkError =
    UnsupportedScheme | UntrustedCertificate | NoRoute | InvalidMethod | RequestLimit | ResponseTooLarge
  | NetTimeout | RedirectLimit | InvalidRedirect | WebSocketDisabled | WebSocketNoRoute | WorkersDisabled

datatype NormalizedNetworkError =
    NormUnsupportedScheme | NormUntrustedCertificate | NormInvalidMethod | NormNoRoute | NormRequestLimit
  | NormResponseTooLarge | NormTimeout | NormRedirectLimit | NormInvalidRedirect | NormWebSocketDisabled
  | NormWebSocketNoRoute | NormWorkersDisabled

datatype NetworkAuditEvent =
    NetCompleted uuid u16 nat
  | NetFailed uuid NormalizedNetworkError
  | CookieStored uuid string

fun normalized_from :: "NetworkError \<Rightarrow> NormalizedNetworkError" where
  "normalized_from UnsupportedScheme = NormUnsupportedScheme"
| "normalized_from UntrustedCertificate = NormUntrustedCertificate"
| "normalized_from InvalidMethod = NormInvalidMethod"
| "normalized_from NoRoute = NormNoRoute"
| "normalized_from RequestLimit = NormRequestLimit"
| "normalized_from ResponseTooLarge = NormResponseTooLarge"
| "normalized_from NetTimeout = NormTimeout"
| "normalized_from RedirectLimit = NormRedirectLimit"
| "normalized_from InvalidRedirect = NormInvalidRedirect"
| "normalized_from WebSocketDisabled = NormWebSocketDisabled"
| "normalized_from WebSocketNoRoute = NormWebSocketNoRoute"
| "normalized_from WorkersDisabled = NormWorkersDisabled"

text \<open>The derived \<open>Debug\<close> text of an error is its name.\<close>

fun network_error_debug :: "NetworkError \<Rightarrow> string" where
  "network_error_debug UnsupportedScheme = ''UnsupportedScheme''"
| "network_error_debug UntrustedCertificate = ''UntrustedCertificate''"
| "network_error_debug NoRoute = ''NoRoute''"
| "network_error_debug InvalidMethod = ''InvalidMethod''"
| "network_error_debug RequestLimit = ''RequestLimit''"
| "network_error_debug ResponseTooLarge = ''ResponseTooLarge''"
| "network_error_debug NetTimeout = ''Timeout''"
| "network_error_debug RedirectLimit = ''RedirectLimit''"
| "network_error_debug InvalidRedirect = ''InvalidRedirect''"
| "network_error_debug WebSocketDisabled = ''WebSocketDisabled''"
| "network_error_debug WebSocketNoRoute = ''WebSocketNoRoute''"
| "network_error_debug WorkersDisabled = ''WorkersDisabled''"

subsection \<open>WebSockets\<close>

datatype WebSocketFrame = WsText string | WsBinary string | WsClose

record WebSocketConnection =
  wsc_url :: Url
  wsc_incoming :: "WebSocketFrame list"
  wsc_sent :: "WebSocketFrame list"
  wsc_closed :: bool

definition WebSocketConnection_send ::
    "WebSocketFrame \<Rightarrow> WebSocketConnection \<Rightarrow> (NetworkError + unit) \<times> WebSocketConnection" where
  "WebSocketConnection_send frame c =
     (if wsc_closed c then (Inl WebSocketNoRoute, c)
      else let c' = (if frame = WsClose then c\<lparr>wsc_closed := True\<rparr> else c)
           in (Inr (), c'\<lparr>wsc_sent := wsc_sent c' @ [frame]\<rparr>))"

definition WebSocketConnection_receive :: "WebSocketConnection \<Rightarrow> WebSocketFrame option \<times> WebSocketConnection" where
  "WebSocketConnection_receive c =
     (case wsc_incoming c of [] \<Rightarrow> (None, c) | f # fs \<Rightarrow> (Some f, c\<lparr>wsc_incoming := fs\<rparr>))"

subsection \<open>The stack\<close>

record NetworkLimits =
  nl_max_requests :: u64
  nl_max_response_bytes :: nat
  nl_timeout_millis :: u64
  nl_max_redirects :: u8

definition NetworkLimits_default :: NetworkLimits where
  "NetworkLimits_default = \<lparr>nl_max_requests = 10000, nl_max_response_bytes = 16 * 1024 * 1024,
     nl_timeout_millis = 30000, nl_max_redirects = 10\<rparr>"

record NetworkConfig =
  nc_proxy :: "Url option"
  nc_trusted_certificates :: "string list"
  nc_websocket_enabled :: bool
  nc_workers_enabled :: bool
  nc_service_workers_enabled :: bool
  nc_profile_identity :: "ProfileIdentity option"

record NetworkMetrics =
  nm_requests_started :: u64
  nm_requests_completed :: u64
  nm_requests_failed :: u64
  nm_bytes_received :: u64

record NetworkStack =
  nw_routes :: "(string \<times> string, NetworkResponse) BTreeMap"
  nw_websocket_routes :: "(string, WebSocketFrame list) BTreeMap"
  nw_events :: "NetworkEvent list"
  nw_cookies :: CookieJar
  nw_cache :: HttpCache
  nw_service_workers :: ServiceWorkerRegistry
  nw_limits :: NetworkLimits
  nw_metrics :: NetworkMetrics
  nw_config :: NetworkConfig
  nw_logical_time_millis :: u64
  nw_audit_events :: "NetworkAuditEvent list"

definition NetworkStack_default :: NetworkStack where
  "NetworkStack_default =
     \<lparr>nw_routes = [], nw_websocket_routes = [], nw_events = [], nw_cookies = CookieJar_default,
      nw_cache = HttpCache_default, nw_service_workers = ServiceWorkerRegistry_default,
      nw_limits = NetworkLimits_default,
      nw_metrics = \<lparr>nm_requests_started = 0, nm_requests_completed = 0, nm_requests_failed = 0, nm_bytes_received = 0\<rparr>,
      nw_config = \<lparr>nc_proxy = None, nc_trusted_certificates = [], nc_websocket_enabled = False,
                   nc_workers_enabled = False, nc_service_workers_enabled = False, nc_profile_identity = None\<rparr>,
      nw_logical_time_millis = 0, nw_audit_events = []\<rparr>"

definition NetworkStack_set_profile_identity :: "ProfileIdentity \<Rightarrow> NetworkStack \<Rightarrow> NetworkStack" where
  "NetworkStack_set_profile_identity identity s =
     s\<lparr>nw_config := (nw_config s)\<lparr>nc_profile_identity := Some identity\<rparr>\<rparr>"

definition NetworkStack_correlate_response :: "uuid \<Rightarrow> NetworkResponse \<Rightarrow> NetworkResponse" where
  "NetworkStack_correlate_response request_id response = response\<lparr>nrs_request_id := request_id\<rparr>"

definition NetworkStack_route :: "string \<Rightarrow> Url \<Rightarrow> NetworkResponse \<Rightarrow> NetworkStack \<Rightarrow> NetworkStack" where
  "NetworkStack_route method url response s =
     s\<lparr>nw_routes := bt_insert (to_ascii_uppercase method, url_as_str url) response (nw_routes s)\<rparr>"

definition NetworkStack_route_websocket :: "Url \<Rightarrow> WebSocketFrame list \<Rightarrow> NetworkStack \<Rightarrow> NetworkStack" where
  "NetworkStack_route_websocket url incoming s =
     s\<lparr>nw_websocket_routes := bt_insert (url_as_str url) incoming (nw_websocket_routes s)\<rparr>"

definition NetworkStack_register_service_worker :: "Url \<Rightarrow> Url \<Rightarrow> NetworkStack \<Rightarrow> Registration \<times> NetworkStack" where
  "NetworkStack_register_service_worker scope script_url s =
     (case ServiceWorkerRegistry_register scope script_url (nw_service_workers s) of
        (r, sw) \<Rightarrow> (r, s\<lparr>nw_service_workers := sw\<rparr>))"

definition NetworkStack_transition_service_worker ::
    "Url \<Rightarrow> WorkerState \<Rightarrow> NetworkStack \<Rightarrow> Registration option \<times> NetworkStack" where
  "NetworkStack_transition_service_worker scope next s =
     (case ServiceWorkerRegistry_transition scope next (nw_service_workers s) of
        (r, sw) \<Rightarrow> (r, s\<lparr>nw_service_workers := sw\<rparr>))"

definition NetworkStack_unregister_service_worker ::
    "(string \<Rightarrow> Url option) \<Rightarrow> Url \<Rightarrow> NetworkStack \<Rightarrow> bool \<times> NetworkStack" where
  "NetworkStack_unregister_service_worker parse scope s =
     (case ServiceWorkerRegistry_unregister parse scope (nw_service_workers s) of
        (r, sw) \<Rightarrow> (r, s\<lparr>nw_service_workers := sw\<rparr>))"

definition NetworkStack_intercept_service_worker :: "Url \<Rightarrow> FetchResponse \<Rightarrow> NetworkStack \<Rightarrow> NetworkStack" where
  "NetworkStack_intercept_service_worker url response s =
     s\<lparr>nw_service_workers := ServiceWorkerRegistry_intercept url response (nw_service_workers s)\<rparr>"

definition NetworkStack_advance_time :: "u64 \<Rightarrow> NetworkStack \<Rightarrow> NetworkStack" where
  "NetworkStack_advance_time millis s =
     s\<lparr>nw_logical_time_millis := saturating_add (nw_logical_time_millis s) millis\<rparr>"

definition NetworkStack_invalidate_cache :: "ProfileId \<Rightarrow> string \<Rightarrow> Url \<Rightarrow> NetworkStack \<Rightarrow> NetworkStack" where
  "NetworkStack_invalidate_cache profile part url s =
     s\<lparr>nw_cache := HttpCache_invalidate profile part url (nw_cache s)\<rparr>"

definition NetworkStack_invalidate_cache_partition :: "ProfileId \<Rightarrow> string \<Rightarrow> NetworkStack \<Rightarrow> NetworkStack" where
  "NetworkStack_invalidate_cache_partition profile part s =
     s\<lparr>nw_cache := HttpCache_invalidate_partition profile part (nw_cache s)\<rparr>"

definition NetworkStack_export_cookie_snapshot ::
    "(CookieEntry list \<Rightarrow> 'err + 'text) \<Rightarrow> NetworkStack \<Rightarrow> 'err + 'text" where
  "NetworkStack_export_cookie_snapshot encode s = CookieJar_to_json encode (nw_cookies s)"

definition NetworkStack_restore_cookie_snapshot ::
    "('text \<Rightarrow> 'err + CookieEntry list) \<Rightarrow> 'text \<Rightarrow> NetworkStack \<Rightarrow> ('err + unit) \<times> NetworkStack" where
  "NetworkStack_restore_cookie_snapshot decode val s =
     (case CookieJar_from_json decode val of
        Inl e \<Rightarrow> (Inl e, s)
      | Inr jar \<Rightarrow> (Inr (), s\<lparr>nw_cookies := jar\<rparr>))"

definition NetworkStack_connect_websocket :: "NetworkStack \<Rightarrow> Url \<Rightarrow> NetworkError + WebSocketConnection" where
  "NetworkStack_connect_websocket s url =
     (if \<not> nc_websocket_enabled (nw_config s) then Inl WebSocketDisabled
      else if url_scheme url \<notin> {''ws'', ''wss''} then Inl UnsupportedScheme
      else (case bt_get (nw_websocket_routes s) (url_as_str url) of
              None \<Rightarrow> Inl WebSocketNoRoute
            | Some incoming \<Rightarrow> Inr \<lparr>wsc_url = url, wsc_incoming = incoming, wsc_sent = [], wsc_closed = False\<rparr>))"

definition NetworkStack_audit_completed :: "uuid \<Rightarrow> u16 \<Rightarrow> nat \<Rightarrow> NetworkStack \<Rightarrow> NetworkStack" where
  "NetworkStack_audit_completed request_id status bytes s =
     s\<lparr>nw_audit_events := nw_audit_events s @ [NetCompleted request_id status bytes]\<rparr>"

definition NetworkStack_audit_failure :: "uuid \<Rightarrow> NetworkError \<Rightarrow> NetworkStack \<Rightarrow> NetworkStack" where
  "NetworkStack_audit_failure request_id error s =
     s\<lparr>nw_audit_events := nw_audit_events s @ [NetFailed request_id (normalized_from error)]\<rparr>"

subsection \<open>Fetching\<close>

text \<open>The four guards before anything is counted, in their order.\<close>

definition fetch_guard :: "NetworkStack \<Rightarrow> NetworkRequest \<Rightarrow> NetworkError option" where
  "fetch_guard s r =
     (if nm_requests_started (nw_metrics s) \<ge> nl_max_requests (nw_limits s) then Some RequestLimit
      else if url_scheme (nrq_url r) \<notin> {''http'', ''https''} then Some UnsupportedScheme
      else if url_scheme (nrq_url r) = ''https'' \<and> nc_trusted_certificates (nw_config s) \<noteq> []
        \<and> (case url_host_str (nrq_url r) of None \<Rightarrow> True
            | Some host \<Rightarrow> \<not> list_ex (\<lambda>t. eq_ignore_ascii_case t host) (nc_trusted_certificates (nw_config s)))
      then Some UntrustedCertificate
      else if nrq_method r = [] then Some InvalidMethod else None)"

definition count_started :: "NetworkStack \<Rightarrow> NetworkStack" where
  "count_started s = s\<lparr>nw_metrics := (nw_metrics s)\<lparr>nm_requests_started := nm_requests_started (nw_metrics s) + 1\<rparr>\<rparr>"

definition count_failed :: "NetworkStack \<Rightarrow> NetworkStack" where
  "count_failed s = s\<lparr>nw_metrics := (nw_metrics s)\<lparr>nm_requests_failed := nm_requests_failed (nw_metrics s) + 1\<rparr>\<rparr>"

definition log_events :: "NetworkEvent list \<Rightarrow> NetworkStack \<Rightarrow> NetworkStack" where
  "log_events es s = s\<lparr>nw_events := nw_events s @ es\<rparr>"

text \<open>The end of every answered fetch: counted, logged and audited.\<close>

definition finish_ok :: "uuid \<Rightarrow> u64 \<Rightarrow> NetworkResponse \<Rightarrow> NetworkStack \<Rightarrow> NetworkStack" where
  "finish_ok request_id started_at response s =
     NetworkStack_audit_completed request_id (nrs_status response) (length (nrs_body response))
       (log_events [ResponseReceived request_id (nrs_status response) (length (nrs_body response)),
                    Timing request_id (saturating_sub (nw_logical_time_millis s) started_at),
                    RequestCompleted request_id (nrs_status response)]
         (s\<lparr>nw_metrics := (nw_metrics s)
             \<lparr>nm_requests_completed := nm_requests_completed (nw_metrics s) + 1,
              nm_bytes_received := nm_bytes_received (nw_metrics s) + of_nat (length (nrs_body response))\<rparr>\<rparr>))"

definition lookup_route :: "NetworkStack \<Rightarrow> NetworkRequest \<Rightarrow> NetworkResponse option" where
  "lookup_route s r =
     (let direct = bt_get (nw_routes s) (nrq_method r, url_as_str (nrq_url r));
          proxied = Option.bind (nc_proxy (nw_config s)) (\<lambda>p. bt_get (nw_routes s) (nrq_method r, url_as_str p))
      in (case proxied of None \<Rightarrow> direct | Some x \<Rightarrow> Some x))"

text \<open>The redirect loop. It ends because a redirect is only followed below the limit.\<close>

function follow ::
    "(Url \<Rightarrow> string \<Rightarrow> Url option) \<Rightarrow> NetworkStack \<Rightarrow> u8 \<Rightarrow> NetworkRequest \<Rightarrow> (NetworkError + NetworkResponse) \<times> NetworkRequest" where
  "follow url_join s redirects r =
     (case lookup_route s r of
        None \<Rightarrow> (Inl NoRoute, r)
      | Some response \<Rightarrow>
          if 300 \<le> nrs_status response \<and> nrs_status response < 400
          then (case bt_get (nrs_headers response) ''location'' of
                  None \<Rightarrow> (Inr response, r)
                | Some location \<Rightarrow>
                    if redirects \<ge> nl_max_redirects (nw_limits s) then (Inl RedirectLimit, r)
                    else (case url_join (nrq_url r) location of
                            None \<Rightarrow> (Inl InvalidRedirect, r)
                          | Some next \<Rightarrow> follow url_join s (redirects + 1) (r\<lparr>nrq_url := next\<rparr>)))
          else (Inr response, r))"
  by pat_completeness auto

termination
proof (relation "measure (\<lambda>(_, s, redirects, _). unat (nl_max_redirects (nw_limits s)) - unat redirects)")
  fix s :: NetworkStack and redirects :: u8
  assume "\<not> nl_max_redirects (nw_limits s) \<le> redirects"
  then have less: "redirects < nl_max_redirects (nw_limits s)" by simp
  then show "((url_join, s, redirects + 1, r\<lparr>nrq_url := next\<rparr>), (url_join, s, redirects, r))
      \<in> measure (\<lambda>(_, s, redirects, _). unat (nl_max_redirects (nw_limits s)) - unat redirects)"
    for url_join :: "Url \<Rightarrow> string \<Rightarrow> Url option" and r :: NetworkRequest and "next" :: Url
    using unat_add_one [OF less] by (simp add: word_nat)
qed simp

declare follow.simps [simp del]

text \<open>What a response from the route table does to cookies and cache.\<close>

definition store_cookie :: "int \<Rightarrow> NetworkRequest \<Rightarrow> NetworkResponse \<Rightarrow> NetworkStack \<Rightarrow> NetworkStack" where
  "store_cookie now r response s =
     (case find (\<lambda>e. eq_ignore_ascii_case (fst e) ''set-cookie'') (nrs_headers response) of
        None \<Rightarrow> s
      | Some (_, set_cookie) \<Rightarrow>
          (case Cookie_parse_at set_cookie (nrq_url r) now of
             None \<Rightarrow> s
           | Some cookie \<Rightarrow>
               s\<lparr>nw_cookies := CookieJar_set (nrq_profile r) (nrq_top_level_site r) cookie (nw_cookies s),
                 nw_audit_events := nw_audit_events s @ [CookieStored (nrq_id r) (ck_domain cookie)]\<rparr>))"

definition update_cache :: "NetworkRequest \<Rightarrow> NetworkResponse \<Rightarrow> NetworkStack \<Rightarrow> NetworkStack" where
  "update_cache r response s =
     (if nrq_method r = ''GET'' \<and> 200 \<le> nrs_status response \<and> nrs_status response < 400
      then s\<lparr>nw_cache := HttpCache_put (nrq_profile r) (nrq_top_level_site r) (nrq_url r)
               \<lparr>cr_status = nrs_status response, cr_headers = nrs_headers response, cr_body = nrs_body response\<rparr>
               (nw_cache s)\<rparr>
      else if nrq_method r \<noteq> ''GET''
      then log_events [Mutation (nrq_id r) ''cacheInvalidated'']
             (s\<lparr>nw_cache := HttpCache_invalidate (nrq_profile r) (nrq_top_level_site r) (nrq_url r) (nw_cache s)\<rparr>)
      else s)"

definition prepare_request ::
    "(string \<Rightarrow> Url option) \<Rightarrow> int \<Rightarrow> NetworkStack \<Rightarrow> NetworkRequest \<Rightarrow> NetworkRequest" where
  "prepare_request parse now s r =
     (let r = r\<lparr>nrq_method := to_ascii_uppercase (nrq_method r)\<rparr>;
          cookie_header = CookieJar_header_for_at parse (nw_cookies s) (nrq_profile r) (nrq_top_level_site r) (nrq_url r) now;
          r = (if cookie_header \<noteq> [] then r\<lparr>nrq_headers := bt_insert ''cookie'' cookie_header (nrq_headers r)\<rparr> else r)
      in r\<lparr>nrq_headers := NetworkStack_apply_profile_headers (nc_profile_identity (nw_config s)) (nrq_headers r)\<rparr>)"

definition fetch_routed ::
    "(Url \<Rightarrow> string \<Rightarrow> Url option) \<Rightarrow> int \<Rightarrow> u64 \<Rightarrow> NetworkRequest \<Rightarrow> NetworkStack \<Rightarrow> (NetworkError + NetworkResponse) \<times> NetworkStack" where
  "fetch_routed url_join now started_at r s =
     (case follow url_join s 0 r of
        (Inr response, r) \<Rightarrow>
          let response = NetworkStack_correlate_response (nrq_id r) response in
          if length (nrs_body response) > nl_max_response_bytes (nw_limits s)
          then (Inl ResponseTooLarge,
                NetworkStack_audit_failure (nrq_id r) ResponseTooLarge
                  (log_events [RequestFailed (nrq_id r) (network_error_debug ResponseTooLarge)] (count_failed s)))
          else (Inr response, finish_ok (nrq_id r) started_at response
                  (update_cache r response (store_cookie now r response s)))
      | (Inl error, r) \<Rightarrow>
          (Inl error,
           NetworkStack_audit_failure (nrq_id r) error
             (log_events [Timing (nrq_id r) (saturating_sub (nw_logical_time_millis s) started_at),
                          RequestFailed (nrq_id r) (network_error_debug error)] (count_failed s))))"

definition NetworkStack_fetch ::
    "(string \<Rightarrow> Url option) \<Rightarrow> (Url \<Rightarrow> string \<Rightarrow> Url option) \<Rightarrow> int \<Rightarrow> int \<Rightarrow> NetworkRequest \<Rightarrow> NetworkStack
     \<Rightarrow> (NetworkError + NetworkResponse) \<times> NetworkStack" where
  "NetworkStack_fetch parse url_join now now' request s =
     (case fetch_guard s request of
        Some error \<Rightarrow> (Inl error, NetworkStack_audit_failure (nrq_id request) error s)
      | None \<Rightarrow>
          let r = prepare_request parse now s request;
              started_at = nw_logical_time_millis s;
              s = count_started (log_events (RequestStarted (nrq_id r) (nrq_url r)
                    # (case nrq_initiator r of None \<Rightarrow> [] | Some i \<Rightarrow> [RequestInitiator (nrq_id r) i])) s)
          in if nl_timeout_millis (nw_limits s) = 0
             then (Inl NetTimeout, NetworkStack_audit_failure (nrq_id r) NetTimeout
                     (log_events [RequestFailed (nrq_id r) (network_error_debug NetTimeout)] (count_failed s)))
             else
               let intercepted = (if nc_service_workers_enabled (nw_config s)
                                  then ServiceWorkerRegistry_fetch (nw_service_workers s) (nrq_url r) else None);
                   cached = (if nrq_method r = ''GET''
                             then HttpCache_get (nw_cache s) (nrq_profile r) (nrq_top_level_site r) (nrq_url r) else None)
               in (case intercepted of
                     Some f \<Rightarrow>
                       let response = NetworkStack_correlate_response (nrq_id r)
                             \<lparr>nrs_request_id = nrq_id r, nrs_status = fres_status f, nrs_headers = [], nrs_body = fres_body f\<rparr>
                       in (Inr response, finish_ok (nrq_id r) started_at response s)
                   | None \<Rightarrow>
                       (case cached of
                          Some c \<Rightarrow>
                            let response = NetworkStack_correlate_response (nrq_id r)
                                  \<lparr>nrs_request_id = nrq_id r, nrs_status = cr_status c, nrs_headers = cr_headers c, nrs_body = cr_body c\<rparr>
                            in (Inr response, finish_ok (nrq_id r) started_at response s)
                        | None \<Rightarrow> fetch_routed url_join now' started_at r s)))"

definition NetworkStack_fetch_worker ::
    "(string \<Rightarrow> Url option) \<Rightarrow> (Url \<Rightarrow> string \<Rightarrow> Url option) \<Rightarrow> int \<Rightarrow> int \<Rightarrow> NetworkRequest \<Rightarrow> NetworkStack
     \<Rightarrow> (NetworkError + NetworkResponse) \<times> NetworkStack" where
  "NetworkStack_fetch_worker parse url_join now now' request s =
     (if \<not> nc_workers_enabled (nw_config s)
      then (Inl WorkersDisabled, NetworkStack_audit_failure (nrq_id request) WorkersDisabled s)
      else NetworkStack_fetch parse url_join now now' (request\<lparr>nrq_initiator := Some ''worker''\<rparr>) s)"

definition NetworkStack_drain_events :: "NetworkStack \<Rightarrow> NetworkEvent list \<times> NetworkStack" where
  "NetworkStack_drain_events s = (nw_events s, s\<lparr>nw_events := []\<rparr>)"

definition NetworkStack_drain_audit_events :: "NetworkStack \<Rightarrow> NetworkAuditEvent list \<times> NetworkStack" where
  "NetworkStack_drain_audit_events s = (nw_audit_events s, s\<lparr>nw_audit_events := []\<rparr>)"


subsection \<open>One fetch\<close>

lemmas net_defs = fetch_routed_def finish_ok_def log_events_def count_started_def count_failed_def
  NetworkStack_audit_completed_def NetworkStack_audit_failure_def NetworkStack_correlate_response_def Let_def

lemma follow_keeps_request:
  "follow url_join s n r = (res, r') \<Longrightarrow>
     nrq_id r' = nrq_id r \<and> nrq_profile r' = nrq_profile r \<and> nrq_top_level_site r' = nrq_top_level_site r
     \<and> nrq_method r' = nrq_method r"
proof (induction url_join s n r rule: follow.induct)
  case (1 url_join s n r)
  show ?case
    using "1.prems" "1.IH"
    by (subst (asm) follow.simps) (fastforce split: option.splits if_splits)
qed

lemma prepare_keeps_request [simp]:
  "nrq_id (prepare_request parse now s r) = nrq_id r"
  "nrq_profile (prepare_request parse now s r) = nrq_profile r"
  "nrq_top_level_site (prepare_request parse now s r) = nrq_top_level_site r"
  by (simp_all add: prepare_request_def Let_def)

lemma store_cookie_frame [simp]:
  "nw_metrics (store_cookie now r x s) = nw_metrics s"
  "nw_limits (store_cookie now r x s) = nw_limits s"
  "nw_cache (store_cookie now r x s) = nw_cache s"
  by (simp_all add: store_cookie_def split: option.split)

lemma update_cache_frame [simp]:
  "nw_metrics (update_cache r x s) = nw_metrics s"
  "nw_limits (update_cache r x s) = nw_limits s"
  "nw_cookies (update_cache r x s) = nw_cookies s"
  "nw_audit_events (update_cache r x s) = nw_audit_events s"
  by (simp_all add: update_cache_def log_events_def)

text \<open>The audit record of an outcome.\<close>

fun outcome_event :: "uuid \<Rightarrow> NetworkError + NetworkResponse \<Rightarrow> NetworkAuditEvent" where
  "outcome_event request_id (Inl e) = NetFailed request_id (normalized_from e)"
| "outcome_event request_id (Inr x) = NetCompleted request_id (nrs_status x) (length (nrs_body x))"

text \<open>The audit trail of one fetch: at most one stored cookie, then the outcome.\<close>

definition audited_as :: "uuid \<Rightarrow> NetworkError + NetworkResponse \<Rightarrow> NetworkStack \<Rightarrow> NetworkStack \<Rightarrow> bool" where
  "audited_as request_id res s t \<longleftrightarrow>
     (\<exists>stored. nw_audit_events t = nw_audit_events s @ stored @ [outcome_event request_id res]
        \<and> (stored = [] \<or> (\<exists>d. stored = [CookieStored request_id d] \<and> \<not> isl res)))"

text \<open>What a fetch that passed the guards adds to the counters.\<close>

fun counted_as :: "NetworkError + NetworkResponse \<Rightarrow> NetworkMetrics \<Rightarrow> NetworkMetrics" where
  "counted_as (Inl _) m = m\<lparr>nm_requests_started := nm_requests_started m + 1, nm_requests_failed := nm_requests_failed m + 1\<rparr>"
| "counted_as (Inr x) m = m\<lparr>nm_requests_started := nm_requests_started m + 1,
     nm_requests_completed := nm_requests_completed m + 1,
     nm_bytes_received := nm_bytes_received m + of_nat (length (nrs_body x))\<rparr>"

lemma store_cookie_audit:
  "\<exists>stored. nw_audit_events (store_cookie now r x s) = nw_audit_events s @ stored
     \<and> (stored = [] \<or> (\<exists>d. stored = [CookieStored (nrq_id r) d]))"
  by (auto simp: store_cookie_def split: option.splits)

lemma fetch_routed_shape:
  assumes "fetch_routed url_join now started_at r s = (res, t)"
  shows "nw_limits t = nw_limits s"
    and "\<forall>m. nw_metrics s = m\<lparr>nm_requests_started := nm_requests_started m + 1\<rparr> \<longrightarrow> nw_metrics t = counted_as res m"
    and "audited_as (nrq_id r) res s t"
    and "case res of Inl _ \<Rightarrow> True | Inr x \<Rightarrow> nrs_request_id x = nrq_id r"
proof -
  obtain o' r' where f: "follow url_join s 0 r = (o', r')" by (cases "follow url_join s 0 r") auto
  note keep = follow_keeps_request [OF f]
  show "nw_limits t = nw_limits s"
    and "\<forall>m. nw_metrics s = m\<lparr>nm_requests_started := nm_requests_started m + 1\<rparr> \<longrightarrow> nw_metrics t = counted_as res m"
    and "case res of Inl _ \<Rightarrow> True | Inr x \<Rightarrow> nrs_request_id x = nrq_id r"
    using assms f keep by (auto simp: net_defs split: sum.splits if_splits)
  show "audited_as (nrq_id r) res s t"
    using assms f keep store_cookie_audit [of now r' "NetworkStack_correlate_response (nrq_id r') (projr o')" s]
    by (auto simp: net_defs audited_as_def split: sum.splits if_splits)
qed

lemma fetch_refused:
  "fetch_guard s r = Some e \<Longrightarrow>
     NetworkStack_fetch parse url_join now now' r s = (Inl e, NetworkStack_audit_failure (nrq_id r) e s)"
  by (simp add: NetworkStack_fetch_def)

text \<open>The state in which a fetch that passed the guards is answered.\<close>

definition started_state :: "NetworkRequest \<Rightarrow> NetworkStack \<Rightarrow> NetworkStack" where
  "started_state r s = count_started (log_events (RequestStarted (nrq_id r) (nrq_url r)
     # (case nrq_initiator r of None \<Rightarrow> [] | Some i \<Rightarrow> [RequestInitiator (nrq_id r) i])) s)"

lemma started_state_frame [simp]:
  "nw_limits (started_state r s) = nw_limits s"
  "nw_cookies (started_state r s) = nw_cookies s"
  "nw_cache (started_state r s) = nw_cache s"
  "nw_audit_events (started_state r s) = nw_audit_events s"
  "nw_metrics (started_state r s) = (nw_metrics s)\<lparr>nm_requests_started := nm_requests_started (nw_metrics s) + 1\<rparr>"
  by (simp_all add: started_state_def count_started_def log_events_def)

text \<open>What answers a fetch before the route table: a service worker, then the cache.\<close>

definition stored_answer :: "NetworkStack \<Rightarrow> NetworkRequest \<Rightarrow> NetworkResponse option" where
  "stored_answer s r =
     (case (if nc_service_workers_enabled (nw_config s)
            then ServiceWorkerRegistry_fetch (nw_service_workers s) (nrq_url r) else None) of
        Some f \<Rightarrow> Some \<lparr>nrs_request_id = nrq_id r, nrs_status = fres_status f, nrs_headers = [], nrs_body = fres_body f\<rparr>
      | None \<Rightarrow>
          (case (if nrq_method r = ''GET''
                 then HttpCache_get (nw_cache s) (nrq_profile r) (nrq_top_level_site r) (nrq_url r) else None) of
             Some c \<Rightarrow> Some \<lparr>nrs_request_id = nrq_id r, nrs_status = cr_status c, nrs_headers = cr_headers c, nrs_body = cr_body c\<rparr>
           | None \<Rightarrow> None))"

lemma stored_answer_id: "stored_answer s r = Some x \<Longrightarrow> nrs_request_id x = nrq_id r"
  by (auto simp: stored_answer_def split: option.splits if_splits)

lemma fetch_passed:
  assumes "fetch_guard s r = None"
  shows "NetworkStack_fetch parse url_join now now' r s =
    (let r' = prepare_request parse now s r; s' = started_state r' s
     in if nl_timeout_millis (nw_limits s) = 0
        then (Inl NetTimeout, NetworkStack_audit_failure (nrq_id r) NetTimeout
                (log_events [RequestFailed (nrq_id r) (network_error_debug NetTimeout)] (count_failed s')))
        else (case stored_answer s' r' of
                Some x \<Rightarrow> (Inr x, finish_ok (nrq_id r) (nw_logical_time_millis s) x s')
              | None \<Rightarrow> fetch_routed url_join now' (nw_logical_time_millis s) r' s'))"
proof -
  let ?r = "prepare_request parse now s r"
  have limits: "nw_limits (count_started (log_events es s)) = nw_limits s" for es
    by (simp add: count_started_def log_events_def)
  show ?thesis
    using assms
    by (simp only: NetworkStack_fetch_def Let_def started_state_def limits stored_answer_def option.case
        prepare_keeps_request NetworkStack_correlate_response_def NetworkResponse.update_convs)
       (simp split: option.split)
qed

text \<open>The ways in which a fetch that passed the guards ends.\<close>

lemma fetch_cases:
  assumes "fetch_guard s r = None" and "NetworkStack_fetch parse url_join now now' r s = (res, t)"
  obtains (timeout) "res = Inl NetTimeout"
      "t = NetworkStack_audit_failure (nrq_id r) NetTimeout
             (log_events [RequestFailed (nrq_id r) (network_error_debug NetTimeout)]
               (count_failed (started_state (prepare_request parse now s r) s)))"
    | (answered) x where "res = Inr x" "nrs_request_id x = nrq_id r"
      "t = finish_ok (nrq_id r) (nw_logical_time_millis s) x (started_state (prepare_request parse now s r) s)"
    | (routed) "fetch_routed url_join now' (nw_logical_time_millis s) (prepare_request parse now s r)
        (started_state (prepare_request parse now s r) s) = (res, t)"
proof (cases "nl_timeout_millis (nw_limits s) = 0")
  case True
  with fetch_passed [OF assms(1)] assms(2) show ?thesis by (intro timeout) simp_all
next
  case False
  let ?r = "prepare_request parse now s r"
  note go = fetch_passed [OF assms(1), of parse url_join now now', unfolded assms(2) Let_def if_not_P [OF False]]
  show ?thesis
  proof (cases "stored_answer (started_state ?r s) ?r")
    case None
    with go show ?thesis by (intro routed) simp
  next
    case (Some x)
    with go stored_answer_id [OF Some] show ?thesis by (intro answered [of x]) simp_all
  qed
qed

lemma fetch_shape:
  assumes "NetworkStack_fetch parse url_join now now' r s = (res, t)"
  shows fetch_limits: "nw_limits t = nw_limits s"
    and fetch_metrics: "nw_metrics t = (if fetch_guard s r = None then counted_as res (nw_metrics s) else nw_metrics s)"
    and fetch_audit: "audited_as (nrq_id r) res s t"
    and fetch_answer: "case res of Inl _ \<Rightarrow> True | Inr x \<Rightarrow> nrs_request_id x = nrq_id r"
proof -
  have "nw_limits t = nw_limits s
      \<and> nw_metrics t = (if fetch_guard s r = None then counted_as res (nw_metrics s) else nw_metrics s)
      \<and> audited_as (nrq_id r) res s t \<and> (case res of Inl _ \<Rightarrow> True | Inr x \<Rightarrow> nrs_request_id x = nrq_id r)"
  proof (cases "fetch_guard s r")
    case None
    from None assms show ?thesis
    proof (cases rule: fetch_cases)
      case routed
      from fetch_routed_shape [OF routed] None show ?thesis
        by (simp add: audited_as_def split: sum.splits)
    qed (simp_all add: None net_defs audited_as_def)
  next
    case (Some e)
    with fetch_refused [OF Some] assms show ?thesis
      by (auto simp: NetworkStack_audit_failure_def audited_as_def)
  qed
  then show "nw_limits t = nw_limits s"
    and "nw_metrics t = (if fetch_guard s r = None then counted_as res (nw_metrics s) else nw_metrics s)"
    and "audited_as (nrq_id r) res s t"
    and "case res of Inl _ \<Rightarrow> True | Inr x \<Rightarrow> nrs_request_id x = nrq_id r" by blast+
qed

subsection \<open>Redirects\<close>

text \<open>
  The reference for the redirect loop: the requests sent after \<open>k\<close> redirects, and where a request is
  redirected to. A request whose answer redirects nowhere ends the chain.
\<close>

definition redirect_target :: "(Url \<Rightarrow> string \<Rightarrow> Url option) \<Rightarrow> NetworkStack \<Rightarrow> NetworkRequest \<Rightarrow> NetworkRequest option" where
  "redirect_target url_join s r =
     (case lookup_route s r of
        None \<Rightarrow> None
      | Some x \<Rightarrow>
          if 300 \<le> nrs_status x \<and> nrs_status x < 400
          then (case bt_get (nrs_headers x) ''location'' of
                  None \<Rightarrow> None
                | Some location \<Rightarrow> map_option (\<lambda>u. r\<lparr>nrq_url := u\<rparr>) (url_join (nrq_url r) location))
          else None)"

fun redirected :: "(Url \<Rightarrow> string \<Rightarrow> Url option) \<Rightarrow> NetworkStack \<Rightarrow> nat \<Rightarrow> NetworkRequest \<Rightarrow> NetworkRequest option" where
  "redirected url_join s 0 r = Some r"
| "redirected url_join s (Suc k) r = Option.bind (redirect_target url_join s r) (redirected url_join s k)"

definition redirect_answer :: "NetworkStack \<Rightarrow> NetworkRequest \<Rightarrow> bool" where
  "redirect_answer s r = (case lookup_route s r of None \<Rightarrow> False
     | Some x \<Rightarrow> 300 \<le> nrs_status x \<and> nrs_status x < 400 \<and> bt_get (nrs_headers x) ''location'' \<noteq> None)"

text \<open>How the chain ends at the request that was sent last.\<close>

definition chain_end :: "(Url \<Rightarrow> string \<Rightarrow> Url option) \<Rightarrow> NetworkStack \<Rightarrow> nat \<Rightarrow> NetworkRequest \<Rightarrow> NetworkError + NetworkResponse \<Rightarrow> bool" where
  "chain_end url_join s n r res \<longleftrightarrow>
     (case res of
        Inr x \<Rightarrow> lookup_route s r = Some x \<and> \<not> redirect_answer s r
      | Inl e \<Rightarrow> e = NoRoute \<and> lookup_route s r = None
          \<or> e = RedirectLimit \<and> redirect_answer s r \<and> n = unat (nl_max_redirects (nw_limits s))
          \<or> e = InvalidRedirect \<and> redirect_answer s r \<and> redirect_target url_join s r = None)"

lemma follow_follows:
  assumes "n \<le> nl_max_redirects (nw_limits s)"
  shows "\<exists>k r'. redirected url_join s k r = Some r' \<and> unat n + k \<le> unat (nl_max_redirects (nw_limits s))
    \<and> snd (follow url_join s n r) = r' \<and> chain_end url_join s (unat n + k) r' (fst (follow url_join s n r))"
  using assms
proof (induction url_join s n r rule: follow.induct)
  case (1 url_join s n r)
  show ?case
  proof (cases "redirect_answer s r \<and> n < nl_max_redirects (nw_limits s) \<and> redirect_target url_join s r \<noteq> None")
    case True
    then obtain x location u where x: "lookup_route s r = Some x" "300 \<le> nrs_status x \<and> nrs_status x < 400"
        "bt_get (nrs_headers x) ''location'' = Some location" "url_join (nrq_url r) location = Some u"
        "\<not> n \<ge> nl_max_redirects (nw_limits s)"
      by (auto simp: redirect_answer_def redirect_target_def split: option.splits)
    then have less: "n < nl_max_redirects (nw_limits s)" by simp
    from "1.IH" [OF x(1,2,3,5,4)] obtain k r' where
      "redirected url_join s k (r\<lparr>nrq_url := u\<rparr>) = Some r'" "unat (n + 1) + k \<le> unat (nl_max_redirects (nw_limits s))"
      "snd (follow url_join s (n + 1) (r\<lparr>nrq_url := u\<rparr>)) = r'"
      "chain_end url_join s (unat (n + 1) + k) r' (fst (follow url_join s (n + 1) (r\<lparr>nrq_url := u\<rparr>)))"
      using less word_succ_le_bound [OF less] by blast
    with x show ?thesis
      by (intro exI [of _ "Suc k"] exI [of _ r'])
         (simp add: unat_add_one [OF less] redirect_target_def follow.simps [of url_join s n r])
  next
    case False
    then have "snd (follow url_join s n r) = r \<and> chain_end url_join s (unat n) r (fst (follow url_join s n r))"
      using "1.prems" by (auto simp: follow.simps [of url_join s n r] chain_end_def redirect_answer_def
          redirect_target_def not_less order.antisym split: option.splits)
    then show ?thesis using "1.prems" by (intro exI [of _ 0] exI [of _ r]) (simp add: word_le_nat_alt)
  qed
qed

subsection \<open>Partitions\<close>

text \<open>The cookies and cached responses of one profile under one top level site.\<close>

definition net_view :: "NetworkStack \<Rightarrow> ProfileId \<times> string \<Rightarrow> (string \<times> string \<Rightarrow> Cookie option) \<times> (string \<Rightarrow> CachedResponse option)" where
  "net_view s k = (\<lambda>(d, n). bt_get (cj_values (nw_cookies s)) (fst k, snd k, d, n),
                   \<lambda>u. bt_get (hc_values (nw_cache s)) (fst k, snd k, u))"

datatype NetOp =
    FetchOp int int NetworkRequest
  | FetchWorkerOp int int NetworkRequest
  | InvalidateOp ProfileId string Url
  | InvalidatePartitionOp ProfileId string

fun net_op_key :: "NetOp \<Rightarrow> ProfileId \<times> string" where
  "net_op_key (FetchOp _ _ r) = (nrq_profile r, nrq_top_level_site r)"
| "net_op_key (FetchWorkerOp _ _ r) = (nrq_profile r, nrq_top_level_site r)"
| "net_op_key (InvalidateOp p site _) = (p, site)"
| "net_op_key (InvalidatePartitionOp p site) = (p, site)"

fun net_apply :: "(string \<Rightarrow> Url option) \<Rightarrow> (Url \<Rightarrow> string \<Rightarrow> Url option) \<Rightarrow> NetOp \<Rightarrow> NetworkStack \<Rightarrow> NetworkStack" where
  "net_apply parse url_join (FetchOp now now' r) s = snd (NetworkStack_fetch parse url_join now now' r s)"
| "net_apply parse url_join (FetchWorkerOp now now' r) s = snd (NetworkStack_fetch_worker parse url_join now now' r s)"
| "net_apply parse url_join (InvalidateOp p site u) s = NetworkStack_invalidate_cache p site u s"
| "net_apply parse url_join (InvalidatePartitionOp p site) s = NetworkStack_invalidate_cache_partition p site s"

lemma net_view_cong: "nw_cookies t = nw_cookies s \<Longrightarrow> nw_cache t = nw_cache s \<Longrightarrow> net_view t k = net_view s k"
  by (simp add: net_view_def)

lemma store_cookie_view:
  "(nrq_profile r, nrq_top_level_site r) \<noteq> k \<Longrightarrow> net_view (store_cookie now r x s) k = net_view s k"
  by (cases k) (auto simp: store_cookie_def net_view_def CookieJar_set_def fun_eq_iff split: option.split)

lemma update_cache_view:
  "(nrq_profile r, nrq_top_level_site r) \<noteq> k \<Longrightarrow> net_view (update_cache r x s) k = net_view s k"
  by (cases k) (auto simp: update_cache_def net_view_def HttpCache_put_def HttpCache_invalidate_def Let_def log_events_def fun_eq_iff)

lemma fetch_routed_view:
  assumes "(nrq_profile r, nrq_top_level_site r) \<noteq> k" and "fetch_routed url_join now started_at r s = (res, t)"
  shows "net_view t k = net_view s k"
proof -
  obtain out r' where f: "follow url_join s 0 r = (out, r')" by (cases "follow url_join s 0 r") auto
  have "(nrq_profile r', nrq_top_level_site r') \<noteq> k" using follow_keeps_request [OF f] assms(1) by simp
  note view = update_cache_view [OF this] store_cookie_view [OF this]
  show ?thesis
    using assms(2) f view(1) [of "NetworkStack_correlate_response (nrq_id r') (projr out)" "store_cookie now r' _ s"] view(2)
    by (auto simp: net_defs net_view_def split: sum.splits if_splits)
qed

lemma fetch_view:
  assumes "(nrq_profile r, nrq_top_level_site r) \<noteq> k" and "NetworkStack_fetch parse url_join now now' r s = (res, t)"
  shows "net_view t k = net_view s k"
proof (cases "fetch_guard s r")
  case None
  from None assms(2) show ?thesis
  proof (cases rule: fetch_cases)
    case routed
    from fetch_routed_view [OF _ routed] assms(1) show ?thesis by (simp add: net_view_def)
  qed (auto intro!: net_view_cong simp: net_defs)
next
  case (Some e)
  with assms(2) show ?thesis by (auto simp: fetch_refused NetworkStack_audit_failure_def net_view_def)
qed

lemma invalidate_partition_frame:
  assumes "(p, site) \<noteq> (p', site')"
  shows "bt_get (hc_values (HttpCache_invalidate_partition p site c)) (p', site', u) = bt_get (hc_values c) (p', site', u)"
proof -
  have "hc_values (HttpCache_invalidate_partition p site c)
      = [e \<leftarrow> hc_values c. (\<lambda>k. fst k \<noteq> p \<or> fst (snd k) \<noteq> site) (fst e)]"
    by (simp add: HttpCache_invalidate_partition_def bt_retain_def case_prod_beta)
  then have "bt_get (hc_values (HttpCache_invalidate_partition p site c)) k
      = (if fst k \<noteq> p \<or> fst (snd k) \<noteq> site then bt_get (hc_values c) k else None)" for k
    using bt_get_filter_key [of "\<lambda>k. fst k \<noteq> p \<or> fst (snd k) \<noteq> site" "hc_values c" k] by simp
  from this [of "(p', site', u)"] show ?thesis using assms by auto
qed

lemma net_apply_frame: "net_op_key x \<noteq> k \<Longrightarrow> net_view (net_apply parse url_join x s) k = net_view s k"
proof (cases x)
  case (FetchOp now now' r)
  then show "net_op_key x \<noteq> k \<Longrightarrow> ?thesis"
    by (cases "NetworkStack_fetch parse url_join now now' r s") (simp add: fetch_view)
next
  case (FetchWorkerOp now now' r)
  obtain res t where f: "NetworkStack_fetch parse url_join now now' (r\<lparr>nrq_initiator := Some ''worker''\<rparr>) s = (res, t)"
    by fastforce
  show "net_op_key x \<noteq> k \<Longrightarrow> ?thesis"
    using FetchWorkerOp fetch_view [OF _ f, of k]
    by (auto simp: NetworkStack_fetch_worker_def NetworkStack_audit_failure_def f intro: net_view_cong)
next
  case (InvalidatePartitionOp p site)
  then show "net_op_key x \<noteq> k \<Longrightarrow> ?thesis"
    by (cases k) (auto simp: NetworkStack_invalidate_cache_partition_def net_view_def invalidate_partition_frame)
qed (auto simp: NetworkStack_invalidate_cache_def HttpCache_invalidate_def net_view_def fun_eq_iff)

interpretation net_partitions: keyed_ops net_view net_op_key "net_apply parse url_join" for parse url_join
  by unfold_locales (rule net_apply_frame)

subsection \<open>Every run\<close>

text \<open>
  A step of the stack: any of its operations, with limits and metrics left to the stack (both
  fields are public; the statements below are about stacks whose owner does not rewrite them).
\<close>

inductive net_step :: "NetworkStack \<Rightarrow> NetworkStack \<Rightarrow> bool" where
  fetch: "net_step s (snd (NetworkStack_fetch parse url_join now now' r s))"
| worker: "net_step s (snd (NetworkStack_fetch_worker parse url_join now now' r s))"
| route: "net_step s (NetworkStack_route m u x s)"
| route_websocket: "net_step s (NetworkStack_route_websocket u fs s)"
| identity: "net_step s (NetworkStack_set_profile_identity i s)"
| register: "net_step s (snd (NetworkStack_register_service_worker u u' s))"
| transition: "net_step s (snd (NetworkStack_transition_service_worker u w s))"
| unregister: "net_step s (snd (NetworkStack_unregister_service_worker parse u s))"
| intercept: "net_step s (NetworkStack_intercept_service_worker u f s)"
| advance: "net_step s (NetworkStack_advance_time ms s)"
| invalidate: "net_step s (NetworkStack_invalidate_cache p site u s)"
| invalidate_partition: "net_step s (NetworkStack_invalidate_cache_partition p site s)"
| restore: "net_step s (s\<lparr>nw_cookies := jar\<rparr>)"
| configure: "net_step s (s\<lparr>nw_config := c\<rparr>)"
| drain: "net_step s (snd (NetworkStack_drain_events s))"
| drain_audit: "net_step s (snd (NetworkStack_drain_audit_events s))"

definition metrics_ok :: "NetworkLimits \<Rightarrow> NetworkMetrics \<Rightarrow> bool" where
  "metrics_ok l m \<longleftrightarrow> nm_requests_started m \<le> nl_max_requests l
     \<and> nm_requests_started m = nm_requests_completed m + nm_requests_failed m"

definition balanced :: "NetworkLimits \<Rightarrow> NetworkStack \<Rightarrow> bool" where
  "balanced l s \<longleftrightarrow> nw_limits s = l \<and> metrics_ok l (nw_metrics s)"

lemma guard_below: "fetch_guard s r = None \<Longrightarrow> nm_requests_started (nw_metrics s) < nl_max_requests (nw_limits s)"
  by (simp add: fetch_guard_def split: if_splits)

lemma counted_ok: "metrics_ok l m \<Longrightarrow> nm_requests_started m < nl_max_requests l \<Longrightarrow> metrics_ok l (counted_as res m)"
  by (cases res) (auto simp: metrics_ok_def word_succ_le_bound)

lemma fetch_balanced:
  assumes "balanced l s"
  shows "balanced l (snd (NetworkStack_fetch parse url_join now now' r s))"
proof -
  obtain res t where f: "NetworkStack_fetch parse url_join now now' r s = (res, t)" by fastforce
  show ?thesis
    using assms guard_below [of s r] by (auto simp: f fetch_limits [OF f] fetch_metrics [OF f] balanced_def counted_ok)
qed

lemma balanced_cong: "balanced l s \<Longrightarrow> nw_limits t = nw_limits s \<Longrightarrow> nw_metrics t = nw_metrics s \<Longrightarrow> balanced l t"
  by (simp only: balanced_def)

lemma net_step_balanced: "net_step s t \<Longrightarrow> balanced l s \<Longrightarrow> balanced l t"
proof (induction rule: net_step.induct)
  case (worker s parse url_join now now' r)
  then show ?case
    by (auto simp: NetworkStack_fetch_worker_def NetworkStack_audit_failure_def fetch_balanced elim: balanced_cong)
next
  case (fetch s parse url_join now now' r)
  then show ?case by (rule fetch_balanced)
qed (auto elim!: balanced_cong simp: NetworkStack_route_def NetworkStack_route_websocket_def
      NetworkStack_set_profile_identity_def NetworkStack_register_service_worker_def
      NetworkStack_transition_service_worker_def NetworkStack_unregister_service_worker_def
      NetworkStack_intercept_service_worker_def NetworkStack_advance_time_def NetworkStack_invalidate_cache_def
      NetworkStack_invalidate_cache_partition_def NetworkStack_drain_events_def NetworkStack_drain_audit_events_def
      split: prod.split)

interpretation net_budget: kept_invariant net_step "balanced l" for l
  by unfold_locales (rule net_step_balanced)

subsection \<open>Properties\<close>

definition sample_net_url :: Url where
  "sample_net_url = \<lparr>url_as_str = ''https://a/'', url_scheme = ''https'', url_username = [], url_password = None,
     url_host_str = Some ''a'', url_port_or_known_default = Some 443, url_path = ''/'', url_query = None,
     url_fragment = None, url_origin = TupleOrigin ''https'' ''a'' 443, url_origin_ascii = ''https://a''\<rparr>"

definition sample_limits :: NetworkLimits where
  "sample_limits = \<lparr>nl_max_requests = 1, nl_max_response_bytes = 8, nl_timeout_millis = 10, nl_max_redirects = 2\<rparr>"

definition sample_stack :: NetworkStack where
  "sample_stack =
     \<lparr>nw_routes = [((''GET'', ''https://a/''), \<lparr>nrs_request_id = 0, nrs_status = 200, nrs_headers = [(''set-cookie'', ''k=v'')], nrs_body = ''ok''\<rparr>)],
      nw_websocket_routes = [], nw_events = [], nw_cookies = CookieJar_default,
      nw_cache = \<lparr>hc_values = [], hc_max_entries = 2\<rparr>, nw_service_workers = ServiceWorkerRegistry_default,
      nw_limits = sample_limits,
      nw_metrics = \<lparr>nm_requests_started = 0, nm_requests_completed = 0, nm_requests_failed = 0, nm_bytes_received = 0\<rparr>,
      nw_config = \<lparr>nc_proxy = None, nc_trusted_certificates = [], nc_websocket_enabled = False,
                   nc_workers_enabled = False, nc_service_workers_enabled = False, nc_profile_identity = None\<rparr>,
      nw_logical_time_millis = 0, nw_audit_events = []\<rparr>"

definition sample_request :: NetworkRequest where
  "sample_request = \<lparr>nrq_id = 7, nrq_profile = 1, nrq_top_level_site = ''https://a'', nrq_url = sample_net_url,
     nrq_method = ''get'', nrq_headers = [], nrq_body = None, nrq_initiator = None\<rparr>"


text \<open>
  C24: in every state a fresh stack reaches, the requests started are those completed and those
  failed, and they never exceed the limit the stack was created with.
\<close>

theorem request_budget_is_kept:
  assumes "nw_metrics s = nw_metrics NetworkStack_default" and "net_step\<^sup>*\<^sup>* s t"
  shows "nm_requests_started (nw_metrics t) = nm_requests_completed (nw_metrics t) + nm_requests_failed (nw_metrics t)
    \<and> nm_requests_started (nw_metrics t) \<le> nl_max_requests (nw_limits s) \<and> nw_limits t = nw_limits s"
proof -
  have "balanced (nw_limits s) s" using assms(1) by (simp add: balanced_def metrics_ok_def NetworkStack_default_def)
  from net_budget.reach_keeps [OF assms(2) this] show ?thesis by (auto simp only: balanced_def metrics_ok_def)
qed

theorem request_budget_is_kept_witness:
  "let t = snd (NetworkStack_fetch (\<lambda>_. None) (\<lambda>_ _. None) 0 0 sample_request sample_stack)
   in nm_requests_started (nw_metrics t) = nm_requests_completed (nw_metrics t) + nm_requests_failed (nw_metrics t)
    \<and> nm_requests_started (nw_metrics t) \<le> 1 \<and> nm_requests_completed (nw_metrics t) = 1"
proof -
  let ?t = "snd (NetworkStack_fetch (\<lambda>_. None) (\<lambda>_ _. None) 0 0 sample_request sample_stack)"
  have fresh: "nw_metrics sample_stack = nw_metrics NetworkStack_default"
    by (simp add: sample_stack_def NetworkStack_default_def)
  have run: "net_step\<^sup>*\<^sup>* sample_stack ?t" by (rule r_into_rtranclp) (rule net_step.fetch)
  have one: "nm_requests_completed (nw_metrics ?t) = 1" by code_simp
  have limit: "nl_max_requests (nw_limits sample_stack) = 1" by (simp add: sample_stack_def sample_limits_def)
  from request_budget_is_kept [OF fresh run, unfolded limit] one show ?thesis unfolding Let_def by blast
qed

text \<open>
  C25: the redirect loop ends for every route table, cyclic ones too, after at most
  \<open>max_redirects\<close> redirects: it answers with what the route table holds for the last
  request of the redirect chain, and otherwise fails at that request, for the reason it reports.
\<close>

theorem redirects_are_bounded:
  "\<exists>k r'. redirected url_join s k r = Some r' \<and> k \<le> unat (nl_max_redirects (nw_limits s))
     \<and> follow url_join s 0 r = (fst (follow url_join s 0 r), r')
     \<and> chain_end url_join s k r' (fst (follow url_join s 0 r))"
  using follow_follows [of 0 s url_join r] by (auto simp: prod_eq_iff)

text \<open>
  C26: fetches, worker fetches and invalidations under other profiles or other top level sites, in
  any number and order, redirects and \<open>Set-Cookie\<close> headers included, leave the cookies and the
  cached responses of a profile under a top level site exactly as they are.
\<close>

theorem fetches_stay_in_their_partition:
  assumes "(p, site) \<notin> net_op_key ` set xs"
  shows "bt_get (cj_values (nw_cookies (fold (net_apply parse url_join) xs s))) (p, site, d, n)
      = bt_get (cj_values (nw_cookies s)) (p, site, d, n)
    \<and> HttpCache_get (nw_cache (fold (net_apply parse url_join) xs s)) p site u = HttpCache_get (nw_cache s) p site u"
  using net_partitions.ops_frame [OF assms, of parse url_join s]
  by (auto simp: net_view_def HttpCache_get_def fun_eq_iff)


theorem fetches_stay_in_their_partition_witness:
  "bt_get (cj_values (nw_cookies (fold (net_apply (\<lambda>_. None) (\<lambda>_ _. None)) [FetchOp 0 0 sample_request]
      sample_stack))) (2, ''https://a'', ''a'', ''k'') = None
    \<and> bt_get (cj_values (nw_cookies (fold (net_apply (\<lambda>_. None) (\<lambda>_ _. None)) [FetchOp 0 0 sample_request]
      sample_stack))) (1, ''https://a'', ''a'', ''k'') \<noteq> None"
proof
  have "(2, ''https://a'') \<notin> net_op_key ` set [FetchOp 0 0 sample_request]" by (simp add: sample_request_def)
  from fetches_stay_in_their_partition [OF this]
  show "bt_get (cj_values (nw_cookies (fold (net_apply (\<lambda>_. None) (\<lambda>_ _. None)) [FetchOp 0 0 sample_request]
      sample_stack))) (2, ''https://a'', ''a'', ''k'') = None"
    by (simp add: sample_stack_def CookieJar_default_def)
qed code_simp

text \<open>
  The guards are checked for the URL of the request only. A trusted host can redirect to a host
  that is not trusted, and the fetch that the guard refuses for that URL is answered.
\<close>

definition trusting_stack :: "Url \<Rightarrow> NetworkStack" where
  "trusting_stack u = sample_stack
     \<lparr>nw_config := (nw_config sample_stack)\<lparr>nc_trusted_certificates := [''a'']\<rparr>,
      nw_routes := [((''GET'', ''https://a/''), \<lparr>nrs_request_id = 0, nrs_status = 302, nrs_headers = [(''location'', url_as_str u)], nrs_body = []\<rparr>),
                    ((''GET'', url_as_str u), \<lparr>nrs_request_id = 0, nrs_status = 200, nrs_headers = [], nrs_body = ''ok''\<rparr>)]\<rparr>"

lemma redirect_leaves_the_trusted_hosts:
  "let u = sample_net_url\<lparr>url_as_str := ''https://b/'', url_host_str := Some ''b''\<rparr>
   in fetch_guard (trusting_stack u) (sample_request\<lparr>nrq_url := u\<rparr>) = Some UntrustedCertificate
      \<and> map_sum (\<lambda>_. ()) nrs_body
          (fst (NetworkStack_fetch (\<lambda>_. None) (\<lambda>_ _. Some u) 0 0 sample_request (trusting_stack u))) = Inr ''ok''"
  by code_simp

end
