(* ===== verification/Fingerprints.thy ===== *)
theory Fingerprints
  imports Identity BTreeMap
begin

section \<open>Browser fingerprints\<close>

text \<open>
  The crate \<open>crates/fingerprint\<close>: a fingerprint bundles every value that identifies a browser, the
  catalog admits the consistent ones. The tables of the default catalog are definitions of their
  own, one for each entry of \<open>default_catalog_entries\<close>.
\<close>

record Fingerprint =
  fp_id :: string
  fp_user_agent :: string
  fp_locale :: string
  fp_timezone :: string
  fp_viewport :: IdentityViewport
  fp_platform :: string
  fp_brands :: "SecChUaBrand list"
  fp_accept_language :: string
  fp_webgl_vendor :: string
  fp_webgl_renderer :: string
  fp_canvas_noise_seed :: u32
  fp_font_set :: "string list"
  fp_hardware_concurrency :: u8
  fp_device_memory :: u8
  fp_max_touch_points :: u8
  fp_color_depth :: u8

definition Fingerprint_into_profile_identity :: "Fingerprint \<Rightarrow> ProfileIdentity" where
  "Fingerprint_into_profile_identity f =
     \<lparr>pid_user_agent = fp_user_agent f, pid_locale = fp_locale f, pid_timezone = fp_timezone f,
      pid_viewport = fp_viewport f, pid_platform = fp_platform f, pid_brands = fp_brands f,
      pid_accept_language = fp_accept_language f, pid_hardware_concurrency = fp_hardware_concurrency f,
      pid_device_memory = fp_device_memory f, pid_max_touch_points = fp_max_touch_points f,
      pid_color_depth = fp_color_depth f\<rparr>"

datatype FingerprintInconsistency =
    UserAgentClaimsBrowser string string
  | PlatformMismatch string string
  | WebglMismatch string string

definition Fingerprint_navigator_is_consistent :: "Fingerprint \<Rightarrow> FingerprintInconsistency + unit" where
  "Fingerprint_navigator_is_consistent f =
     (let platform_lower = to_ascii_lowercase (fp_platform f);
          touch_device = (fp_max_touch_points f \<ge> 5);
          is_ios = (str_contains platform_lower ''iphone'' \<or> str_contains platform_lower ''ipad'');
          is_android_ua_claim = str_contains (to_ascii_lowercase (fp_user_agent f)) ''android''
      in if touch_device \<and> fp_hardware_concurrency f > 8
         then Inl (PlatformMismatch ''touch'' (''hardwareConcurrency='' @ decimal (unat (fp_hardware_concurrency f))))
         else if touch_device \<and> fp_device_memory f > 16
         then Inl (PlatformMismatch ''touch'' (''deviceMemory='' @ decimal (unat (fp_device_memory f))))
         else if fp_color_depth f > 32
         then Inl (PlatformMismatch (fp_platform f) (''colorDepth='' @ decimal (unat (fp_color_depth f))))
         else if \<not> touch_device \<and> (is_ios \<or> is_android_ua_claim \<or> str_contains platform_lower ''android'')
         then Inl (PlatformMismatch ''touch'' (''maxTouchPoints='' @ decimal (unat (fp_max_touch_points f))))
         else Inr ())"

definition detect_user_agent_family :: "string \<Rightarrow> string option" where
  "detect_user_agent_family ua =
     (let lower = to_ascii_lowercase ua
      in if str_contains lower ''firefox/'' \<and> \<not> str_contains lower ''seamonkey'' then Some ''firefox''
         else if str_contains lower ''edg/'' then Some ''edge''
         else if str_contains lower ''chrome/'' then Some ''chrome''
         else if str_contains lower ''safari/'' then Some ''safari''
         else None)"

definition detect_user_agent_platform :: "string \<Rightarrow> string option" where
  "detect_user_agent_platform ua =
     (if str_contains ua ''Android'' then Some ''android''
      else if contains_any [''iPhone'', ''iPad'', ''iPod''] ua then Some ''ios''
      else if contains_any [''Macintosh'', ''Mac OS X''] ua then Some ''macos''
      else if str_contains ua ''Windows NT'' then Some ''windows''
      else if str_contains ua ''Linux'' then Some ''linux''
      else None)"

text \<open>The two checks that the fingerprint and the profile crates both make, first the brands.\<close>

definition brand_like :: "string list \<Rightarrow> SecChUaBrand list \<Rightarrow> bool" where
  "brand_like words brands = list_ex (\<lambda>b. contains_any words (to_ascii_lowercase (scb_brand b))) brands"

definition brands_conflict :: "string \<Rightarrow> SecChUaBrand list \<Rightarrow> (string \<times> string) option" where
  "brands_conflict ua brands =
     (let chrome_like = brand_like [''chrome'', ''chromium'', ''edge''] brands;
          firefox_like = brand_like [''firefox''] brands;
          safari_like = brand_like [''safari''] brands
      in case detect_user_agent_family ua of
           None \<Rightarrow> None
         | Some family \<Rightarrow>
             if family \<in> {''chrome'', ''edge''}
             then (if firefox_like \<or> safari_like then Some (family, ''firefox/safari brands'') else None)
             else if family = ''firefox''
             then (if chrome_like \<or> safari_like then Some (''firefox'', ''chrome/safari brands'') else None)
             else if family = ''safari''
             then (if chrome_like \<or> firefox_like then Some (''safari'', ''chrome/firefox brands'') else None)
             else None)"

definition platform_matches :: "string \<Rightarrow> string \<Rightarrow> bool" where
  "platform_matches platform platform_lower =
     (if platform = ''android'' then contains_any [''android'', ''linux''] platform_lower
      else if platform = ''ios'' then contains_any [''iphone'', ''ipad'', ''ios''] platform_lower
      else if platform = ''macos'' then str_contains platform_lower ''mac''
      else if platform = ''windows'' then str_contains platform_lower ''windows''
      else if platform = ''linux'' then str_contains platform_lower ''linux''
      else True)"

definition platform_conflict :: "string \<Rightarrow> string \<Rightarrow> (string \<times> string) option" where
  "platform_conflict ua platform =
     (case detect_user_agent_platform ua of
        None \<Rightarrow> None
      | Some p \<Rightarrow> if platform_matches p (to_ascii_lowercase platform) then None else Some (p, platform))"

definition webgl_conflict :: "Fingerprint \<Rightarrow> (string \<times> string) option" where
  "webgl_conflict f =
     (case detect_user_agent_family (fp_user_agent f) of
        None \<Rightarrow> None
      | Some family \<Rightarrow>
          let vendor_lower = to_ascii_lowercase (fp_webgl_vendor f);
              renderer_lower = to_ascii_lowercase (fp_webgl_renderer f);
              expects_chrome = (family \<in> {''chrome'', ''edge''});
              chrome_marker = (str_contains vendor_lower ''google'' \<or> str_contains renderer_lower ''angle''
                \<or> str_contains vendor_lower ''intel'' \<or> str_contains renderer_lower ''mesa''
                \<or> str_contains renderer_lower ''apple'')
          in if expects_chrome \<and> \<not> chrome_marker \<and> vendor_lower \<noteq> [] then Some (family, fp_webgl_vendor f) else None)"

definition Fingerprint_is_consistent :: "Fingerprint \<Rightarrow> FingerprintInconsistency + unit" where
  "Fingerprint_is_consistent f =
     (case brands_conflict (fp_user_agent f) (fp_brands f) of
        Some (claimed, declared) \<Rightarrow> Inl (UserAgentClaimsBrowser claimed declared)
      | None \<Rightarrow>
          (case platform_conflict (fp_user_agent f) (fp_platform f) of
             Some (p, declared) \<Rightarrow> Inl (PlatformMismatch p declared)
           | None \<Rightarrow>
               (case webgl_conflict f of
                  Some (family, vendor) \<Rightarrow> Inl (WebglMismatch family vendor)
                | None \<Rightarrow> Fingerprint_navigator_is_consistent f)))"

subsection \<open>The catalog\<close>

record FingerprintCatalog =
  fc_entries :: "(string, Fingerprint) BTreeMap"

definition FingerprintCatalog_default :: FingerprintCatalog where
  "FingerprintCatalog_default = \<lparr>fc_entries = []\<rparr>"

definition FingerprintCatalog_get :: "FingerprintCatalog \<Rightarrow> string \<Rightarrow> Fingerprint option" where
  "FingerprintCatalog_get c i = bt_get (fc_entries c) i"

definition FingerprintCatalog_insert ::
    "Fingerprint \<Rightarrow> FingerprintCatalog \<Rightarrow> (FingerprintInconsistency + unit) \<times> FingerprintCatalog" where
  "FingerprintCatalog_insert f c =
     (case Fingerprint_is_consistent f of
        Inl e \<Rightarrow> (Inl e, c)
      | Inr _ \<Rightarrow> (Inr (), \<lparr>fc_entries = bt_insert (fp_id f) f (fc_entries c)\<rparr>))"

definition FingerprintCatalog_list :: "FingerprintCatalog \<Rightarrow> Fingerprint list" where
  "FingerprintCatalog_list c = map snd (fc_entries c)"

definition FingerprintCatalog_ids :: "FingerprintCatalog \<Rightarrow> string list" where
  "FingerprintCatalog_ids c = map fst (fc_entries c)"

definition firefox_linux_user_agent :: string where
  "firefox_linux_user_agent = ''Mozilla/5.0 (X11; Linux x86_64; rv:130.0) Gecko/20100101 Firefox/130.0''"

definition safari_macos_user_agent :: string where
  "safari_macos_user_agent = ''Mozilla/5.0 (Macintosh; Intel Mac OS X 14_6) AppleWebKit/605.1.15 (KHTML, like Gecko) Version/17.6 Safari/605.1.15''"

definition chrome_android_user_agent :: string where
  "chrome_android_user_agent = ''Mozilla/5.0 (Linux; Android 14; Pixel 8) AppleWebKit/537.36 (KHTML, like Gecko) Chrome/140.0.0.0 Mobile Safari/537.36''"

definition safari_ios_user_agent :: string where
  "safari_ios_user_agent = ''Mozilla/5.0 (iPhone; CPU iPhone OS 17_6 like Mac OS X) AppleWebKit/605.1.15 (KHTML, like Gecko) Version/17.6 Mobile/15E148 Safari/604.1''"

definition linux_desktop_fonts :: "string list" where
  "linux_desktop_fonts =
     [''Andale Mono'', ''Arial'', ''Arial Black'', ''Comic Sans MS'', ''Courier'', ''Courier New'',
      ''DejaVu Sans'', ''Georgia'', ''Helvetica'', ''Impact'', ''Liberation Sans'', ''Noto Sans'',
      ''Times'', ''Times New Roman'', ''Trebuchet MS'', ''Verdana'']"

definition macos_safari_fonts :: "string list" where
  "macos_safari_fonts =
     [''American Typewriter'', ''Avenir'', ''Avenir Next'', ''Courier'', ''Courier New'',
      ''Geneva'', ''Georgia'', ''Helvetica'', ''Helvetica Neue'', ''Impact'', ''Lucida Grande'',
      ''Monaco'', ''Optima'', ''Palatino'', ''Times'', ''Times New Roman'', ''Verdana'']"

definition android_chrome_fonts :: "string list" where
  "android_chrome_fonts =
     [''Roboto'', ''Roboto Condensed'', ''Roboto Mono'', ''Noto Sans'', ''Noto Sans CJK'',
      ''Noto Color Emoji'', ''Droid Sans'']"

definition ios_safari_fonts :: "string list" where
  "ios_safari_fonts =
     [''Helvetica Neue'', ''Helvetica'', ''Arial'', ''Courier'', ''Courier New'', ''Georgia'',
      ''Times'', ''Times New Roman'', ''Verdana'']"

definition fp_chrome_140_linux_x86_64 :: Fingerprint where
  "fp_chrome_140_linux_x86_64 =
     \<lparr>fp_id = ''chrome-140-linux-x86_64'', fp_user_agent = chrome_linux_user_agent, fp_locale = ''en-US'',
      fp_timezone = ''America/Los_Angeles'',
      fp_viewport = \<lparr>ivp_width = 1920, ivp_height = 1080, ivp_device_scale_factor = 1\<rparr>,
      fp_platform = ''Linux x86_64'', fp_brands = default_brands, fp_accept_language = ''en-US,en;q=0.9'',
      fp_webgl_vendor = ''Google Inc. (Intel)'',
      fp_webgl_renderer = ''ANGLE (Intel, Mesa Intel(R) UHD Graphics 620 (KBL GT2), OpenGL 4.5)'',
      fp_canvas_noise_seed = 0, fp_font_set = linux_desktop_fonts,
      fp_hardware_concurrency = 8, fp_device_memory = 8, fp_max_touch_points = 0, fp_color_depth = 24\<rparr>"

definition fp_firefox_130_linux_x86_64 :: Fingerprint where
  "fp_firefox_130_linux_x86_64 =
     \<lparr>fp_id = ''firefox-130-linux-x86_64'', fp_user_agent = firefox_linux_user_agent, fp_locale = ''en-US'',
      fp_timezone = ''America/Los_Angeles'',
      fp_viewport = \<lparr>ivp_width = 1920, ivp_height = 1080, ivp_device_scale_factor = 1\<rparr>,
      fp_platform = ''Linux x86_64'', fp_brands = [], fp_accept_language = ''en-US,en;q=0.5'',
      fp_webgl_vendor = ''Mozilla'',
      fp_webgl_renderer = ''Mesa Intel(R) UHD Graphics 620 (KBL GT2)'',
      fp_canvas_noise_seed = 0, fp_font_set = linux_desktop_fonts,
      fp_hardware_concurrency = 8, fp_device_memory = 8, fp_max_touch_points = 0, fp_color_depth = 24\<rparr>"

definition fp_safari_17_macos_arm64 :: Fingerprint where
  "fp_safari_17_macos_arm64 =
     \<lparr>fp_id = ''safari-17-macos-arm64'', fp_user_agent = safari_macos_user_agent, fp_locale = ''en-US'',
      fp_timezone = ''America/Los_Angeles'',
      fp_viewport = \<lparr>ivp_width = 2560, ivp_height = 1440, ivp_device_scale_factor = 2\<rparr>,
      fp_platform = ''MacIntel'', fp_brands = [], fp_accept_language = ''en-US,en;q=0.9'',
      fp_webgl_vendor = ''WebKit Inc.'',
      fp_webgl_renderer = ''Apple M1 Pro'',
      fp_canvas_noise_seed = 0, fp_font_set = macos_safari_fonts,
      fp_hardware_concurrency = 10, fp_device_memory = 16, fp_max_touch_points = 0, fp_color_depth = 30\<rparr>"

definition fp_chrome_android_140_pixel8 :: Fingerprint where
  "fp_chrome_android_140_pixel8 =
     \<lparr>fp_id = ''chrome-android-140-pixel8'', fp_user_agent = chrome_android_user_agent, fp_locale = ''en-US'',
      fp_timezone = ''America/Los_Angeles'',
      fp_viewport = \<lparr>ivp_width = 412, ivp_height = 915, ivp_device_scale_factor = 2\<rparr>,
      fp_platform = ''Linux armv81'', fp_brands = default_brands, fp_accept_language = ''en-US,en;q=0.9'',
      fp_webgl_vendor = ''Google Inc. (ARM)'',
      fp_webgl_renderer = ''ANGLE (ARM, Mali-G715, OpenGL 4.5)'',
      fp_canvas_noise_seed = 0, fp_font_set = android_chrome_fonts,
      fp_hardware_concurrency = 8, fp_device_memory = 8, fp_max_touch_points = 5, fp_color_depth = 24\<rparr>"

definition fp_safari_ios_17_iphone :: Fingerprint where
  "fp_safari_ios_17_iphone =
     \<lparr>fp_id = ''safari-ios-17-iphone'', fp_user_agent = safari_ios_user_agent, fp_locale = ''en-US'',
      fp_timezone = ''America/Los_Angeles'',
      fp_viewport = \<lparr>ivp_width = 393, ivp_height = 852, ivp_device_scale_factor = 3\<rparr>,
      fp_platform = ''iPhone'', fp_brands = [], fp_accept_language = ''en-US,en;q=0.9'',
      fp_webgl_vendor = ''WebKit Inc.'',
      fp_webgl_renderer = ''Apple A16 GPU'',
      fp_canvas_noise_seed = 0, fp_font_set = ios_safari_fonts,
      fp_hardware_concurrency = 6, fp_device_memory = 4, fp_max_touch_points = 5, fp_color_depth = 24\<rparr>"

definition fp_chrome_140_linux_1280x720 :: Fingerprint where
  "fp_chrome_140_linux_1280x720 =
     \<lparr>fp_id = ''chrome-140-linux-1280x720'', fp_user_agent = chrome_linux_user_agent, fp_locale = ''en-US'',
      fp_timezone = ''America/Los_Angeles'',
      fp_viewport = \<lparr>ivp_width = 1280, ivp_height = 720, ivp_device_scale_factor = 1\<rparr>,
      fp_platform = ''Linux x86_64'', fp_brands = default_brands, fp_accept_language = ''en-US,en;q=0.9'',
      fp_webgl_vendor = ''Google Inc. (NVIDIA)'',
      fp_webgl_renderer = ''ANGLE (NVIDIA, NVIDIA GeForce GTX 1660 Ti, OpenGL 4.5)'',
      fp_canvas_noise_seed = 1, fp_font_set = linux_desktop_fonts,
      fp_hardware_concurrency = 12, fp_device_memory = 16, fp_max_touch_points = 0, fp_color_depth = 24\<rparr>"

definition fp_firefox_130_linux_832x512 :: Fingerprint where
  "fp_firefox_130_linux_832x512 =
     \<lparr>fp_id = ''firefox-130-linux-832x512'', fp_user_agent = firefox_linux_user_agent, fp_locale = ''en-US'',
      fp_timezone = ''America/Los_Angeles'',
      fp_viewport = \<lparr>ivp_width = 832, ivp_height = 512, ivp_device_scale_factor = 1\<rparr>,
      fp_platform = ''Linux x86_64'', fp_brands = [], fp_accept_language = ''en-US,en;q=0.5'',
      fp_webgl_vendor = ''Mozilla'',
      fp_webgl_renderer = ''Mesa AMD Radeon RX 580 (POLARIS10)'',
      fp_canvas_noise_seed = 2, fp_font_set = linux_desktop_fonts,
      fp_hardware_concurrency = 16, fp_device_memory = 32, fp_max_touch_points = 0, fp_color_depth = 24\<rparr>"

definition fp_chrome_140_linux_1432x1068 :: Fingerprint where
  "fp_chrome_140_linux_1432x1068 =
     \<lparr>fp_id = ''chrome-140-linux-1432x1068'', fp_user_agent = chrome_linux_user_agent, fp_locale = ''en-US'',
      fp_timezone = ''America/Los_Angeles'',
      fp_viewport = \<lparr>ivp_width = 1432, ivp_height = 1068, ivp_device_scale_factor = 1\<rparr>,
      fp_platform = ''Linux x86_64'', fp_brands = default_brands, fp_accept_language = ''en-US,en;q=0.9'',
      fp_webgl_vendor = ''Google Inc. (Intel)'',
      fp_webgl_renderer = ''ANGLE (Intel, Intel(R) UHD Graphics 630, OpenGL 4.5)'',
      fp_canvas_noise_seed = 3, fp_font_set = linux_desktop_fonts,
      fp_hardware_concurrency = 4, fp_device_memory = 8, fp_max_touch_points = 0, fp_color_depth = 24\<rparr>"

definition fp_firefox_130_linux_1680x945 :: Fingerprint where
  "fp_firefox_130_linux_1680x945 =
     \<lparr>fp_id = ''firefox-130-linux-1680x945'', fp_user_agent = firefox_linux_user_agent, fp_locale = ''en-US'',
      fp_timezone = ''America/Los_Angeles'',
      fp_viewport = \<lparr>ivp_width = 1680, ivp_height = 945, ivp_device_scale_factor = 1\<rparr>,
      fp_platform = ''Linux x86_64'', fp_brands = [], fp_accept_language = ''en-US,en;q=0.5'',
      fp_webgl_vendor = ''Mozilla'',
      fp_webgl_renderer = ''Mesa Intel(R) Iris Xe Graphics'',
      fp_canvas_noise_seed = 4, fp_font_set = linux_desktop_fonts,
      fp_hardware_concurrency = 8, fp_device_memory = 16, fp_max_touch_points = 0, fp_color_depth = 24\<rparr>"

definition fp_chrome_140_linux_1366x727 :: Fingerprint where
  "fp_chrome_140_linux_1366x727 =
     \<lparr>fp_id = ''chrome-140-linux-1366x727'', fp_user_agent = chrome_linux_user_agent, fp_locale = ''en-US'',
      fp_timezone = ''America/Los_Angeles'',
      fp_viewport = \<lparr>ivp_width = 1366, ivp_height = 727, ivp_device_scale_factor = 1\<rparr>,
      fp_platform = ''Linux x86_64'', fp_brands = default_brands, fp_accept_language = ''en-US,en;q=0.9'',
      fp_webgl_vendor = ''Google Inc. (Intel)'',
      fp_webgl_renderer = ''ANGLE (Intel, Intel(R) HD Graphics 4400, OpenGL 4.5)'',
      fp_canvas_noise_seed = 5, fp_font_set = linux_desktop_fonts,
      fp_hardware_concurrency = 4, fp_device_memory = 4, fp_max_touch_points = 0, fp_color_depth = 24\<rparr>"

definition fp_firefox_130_linux_1024x600 :: Fingerprint where
  "fp_firefox_130_linux_1024x600 =
     \<lparr>fp_id = ''firefox-130-linux-1024x600'', fp_user_agent = firefox_linux_user_agent, fp_locale = ''en-US'',
      fp_timezone = ''America/Los_Angeles'',
      fp_viewport = \<lparr>ivp_width = 1024, ivp_height = 600, ivp_device_scale_factor = 1\<rparr>,
      fp_platform = ''Linux x86_64'', fp_brands = [], fp_accept_language = ''en-US,en;q=0.5'',
      fp_webgl_vendor = ''Mozilla'',
      fp_webgl_renderer = ''Mesa AMD Radeon Vega (VEGA10)'',
      fp_canvas_noise_seed = 6, fp_font_set = linux_desktop_fonts,
      fp_hardware_concurrency = 4, fp_device_memory = 4, fp_max_touch_points = 0, fp_color_depth = 24\<rparr>"

definition fp_chrome_140_linux_1600x900 :: Fingerprint where
  "fp_chrome_140_linux_1600x900 =
     \<lparr>fp_id = ''chrome-140-linux-1600x900'', fp_user_agent = chrome_linux_user_agent, fp_locale = ''en-US'',
      fp_timezone = ''America/Los_Angeles'',
      fp_viewport = \<lparr>ivp_width = 1600, ivp_height = 900, ivp_device_scale_factor = 1\<rparr>,
      fp_platform = ''Linux x86_64'', fp_brands = default_brands, fp_accept_language = ''en-US,en;q=0.9'',
      fp_webgl_vendor = ''Google Inc. (AMD)'',
      fp_webgl_renderer = ''ANGLE (AMD, AMD Radeon Pro 560X, OpenGL 4.5)'',
      fp_canvas_noise_seed = 7, fp_font_set = linux_desktop_fonts,
      fp_hardware_concurrency = 12, fp_device_memory = 32, fp_max_touch_points = 0, fp_color_depth = 24\<rparr>"

definition fp_firefox_130_linux_1440x810 :: Fingerprint where
  "fp_firefox_130_linux_1440x810 =
     \<lparr>fp_id = ''firefox-130-linux-1440x810'', fp_user_agent = firefox_linux_user_agent, fp_locale = ''en-US'',
      fp_timezone = ''America/Los_Angeles'',
      fp_viewport = \<lparr>ivp_width = 1440, ivp_height = 810, ivp_device_scale_factor = 1\<rparr>,
      fp_platform = ''Linux x86_64'', fp_brands = [], fp_accept_language = ''en-US,en;q=0.5'',
      fp_webgl_vendor = ''Mozilla'',
      fp_webgl_renderer = ''Mesa NVIDIA GeForce RTX 2060'',
      fp_canvas_noise_seed = 8, fp_font_set = linux_desktop_fonts,
      fp_hardware_concurrency = 16, fp_device_memory = 32, fp_max_touch_points = 0, fp_color_depth = 24\<rparr>"

definition fp_chrome_140_linux_1280x800 :: Fingerprint where
  "fp_chrome_140_linux_1280x800 =
     \<lparr>fp_id = ''chrome-140-linux-1280x800'', fp_user_agent = chrome_linux_user_agent, fp_locale = ''en-US'',
      fp_timezone = ''America/Los_Angeles'',
      fp_viewport = \<lparr>ivp_width = 1280, ivp_height = 800, ivp_device_scale_factor = 1\<rparr>,
      fp_platform = ''Linux x86_64'', fp_brands = default_brands, fp_accept_language = ''en-US,en;q=0.9'',
      fp_webgl_vendor = ''Google Inc. (Intel)'',
      fp_webgl_renderer = ''ANGLE (Intel, Intel(R) UHD Graphics 770, OpenGL 4.5)'',
      fp_canvas_noise_seed = 9, fp_font_set = linux_desktop_fonts,
      fp_hardware_concurrency = 8, fp_device_memory = 16, fp_max_touch_points = 0, fp_color_depth = 24\<rparr>"

definition fp_firefox_130_linux_1536x864 :: Fingerprint where
  "fp_firefox_130_linux_1536x864 =
     \<lparr>fp_id = ''firefox-130-linux-1536x864'', fp_user_agent = firefox_linux_user_agent, fp_locale = ''en-US'',
      fp_timezone = ''America/Los_Angeles'',
      fp_viewport = \<lparr>ivp_width = 1536, ivp_height = 864, ivp_device_scale_factor = 2\<rparr>,
      fp_platform = ''Linux x86_64'', fp_brands = [], fp_accept_language = ''en-US,en;q=0.5'',
      fp_webgl_vendor = ''Mozilla'',
      fp_webgl_renderer = ''Mesa Intel(R) HD Graphics 530'',
      fp_canvas_noise_seed = 10, fp_font_set = linux_desktop_fonts,
      fp_hardware_concurrency = 8, fp_device_memory = 8, fp_max_touch_points = 0, fp_color_depth = 24\<rparr>"

definition default_catalog_entries :: "Fingerprint list" where
  "default_catalog_entries =
     [fp_chrome_140_linux_x86_64,
      fp_firefox_130_linux_x86_64,
      fp_safari_17_macos_arm64,
      fp_chrome_android_140_pixel8,
      fp_safari_ios_17_iphone,
      fp_chrome_140_linux_1280x720,
      fp_firefox_130_linux_832x512,
      fp_chrome_140_linux_1432x1068,
      fp_firefox_130_linux_1680x945,
      fp_chrome_140_linux_1366x727,
      fp_firefox_130_linux_1024x600,
      fp_chrome_140_linux_1600x900,
      fp_firefox_130_linux_1440x810,
      fp_chrome_140_linux_1280x800,
      fp_firefox_130_linux_1536x864]"

definition FingerprintCatalog_default_catalog :: FingerprintCatalog where
  "FingerprintCatalog_default_catalog =
     fold (\<lambda>e c. \<lparr>fc_entries = bt_insert (fp_id e) e (fc_entries c)\<rparr>) default_catalog_entries FingerprintCatalog_default"

subsection \<open>What a catalog holds\<close>

definition catalog_ok :: "FingerprintCatalog \<Rightarrow> bool" where
  "catalog_ok c \<longleftrightarrow> bt_ok (fc_entries c)
     \<and> (\<forall>i f. bt_get (fc_entries c) i = Some f \<longrightarrow> fp_id f = i \<and> Fingerprint_is_consistent f = Inr ())"

lemma catalog_ok_put:
  "catalog_ok c \<Longrightarrow> Fingerprint_is_consistent f = Inr () \<Longrightarrow> catalog_ok \<lparr>fc_entries = bt_insert (fp_id f) f (fc_entries c)\<rparr>"
  by (auto simp: catalog_ok_def split: if_splits)

lemma catalog_ok_insert: "catalog_ok c \<Longrightarrow> catalog_ok (snd (FingerprintCatalog_insert f c))"
  by (auto simp: FingerprintCatalog_insert_def catalog_ok_put split: sum.split)

lemma catalog_ok_inserts: "catalog_ok c \<Longrightarrow> catalog_ok (fold (\<lambda>f c. snd (FingerprintCatalog_insert f c)) fs c)"
  by (induction fs arbitrary: c) (simp_all add: catalog_ok_insert)

lemma catalog_ok_puts:
  "catalog_ok c \<Longrightarrow> list_all (\<lambda>f. Fingerprint_is_consistent f = Inr ()) fs \<Longrightarrow>
     catalog_ok (fold (\<lambda>e c. \<lparr>fc_entries = bt_insert (fp_id e) e (fc_entries c)\<rparr>) fs c)"
  by (induction fs arbitrary: c) (simp_all add: catalog_ok_put)

text \<open>
  Every entry of the table passes the checks. The long user agent strings are searched once each;
  \<open>consistent_given\<close> is the check with the results of those searches.
\<close>

definition consistent_given :: "string option \<Rightarrow> string option \<Rightarrow> bool \<Rightarrow> Fingerprint \<Rightarrow> bool" where
  "consistent_given family platform android f =
     ((case family of None \<Rightarrow> True | Some x \<Rightarrow>
         \<not> brand_like (if x \<in> {''chrome'', ''edge''} then [''firefox'', ''safari'']
                      else if x = ''firefox'' then [''chrome'', ''chromium'', ''edge'', ''safari'']
                      else if x = ''safari'' then [''chrome'', ''chromium'', ''edge'', ''firefox''] else []) (fp_brands f)
         \<and> (x \<notin> {''chrome'', ''edge''} \<or> fp_webgl_vendor f = []
             \<or> contains_any [''google'', ''intel''] (to_ascii_lowercase (fp_webgl_vendor f))
             \<or> contains_any [''angle'', ''mesa'', ''apple''] (to_ascii_lowercase (fp_webgl_renderer f))))
      \<and> (case platform of None \<Rightarrow> True | Some p \<Rightarrow> platform_matches p (to_ascii_lowercase (fp_platform f)))
      \<and> fp_color_depth f \<le> 32
      \<and> (if fp_max_touch_points f \<ge> 5 then fp_hardware_concurrency f \<le> 8 \<and> fp_device_memory f \<le> 16
         else \<not> android \<and> \<not> contains_any [''iphone'', ''ipad'', ''android''] (to_ascii_lowercase (fp_platform f))))"

lemma brand_like_Nil: "\<not> brand_like [] bs"
  by (simp add: brand_like_def contains_any_def list_ex_iff)

lemma brand_like_append: "brand_like (ws @ vs) bs \<longleftrightarrow> brand_like ws bs \<or> brand_like vs bs"
  by (auto simp: brand_like_def contains_any_def list_ex_iff)

lemma brands_conflict_None:
  "brands_conflict ua bs = None \<longleftrightarrow> (case detect_user_agent_family ua of None \<Rightarrow> True | Some x \<Rightarrow>
     \<not> brand_like (if x \<in> {''chrome'', ''edge''} then [''firefox''] @ [''safari'']
        else if x = ''firefox'' then [''chrome'', ''chromium'', ''edge''] @ [''safari'']
        else if x = ''safari'' then [''chrome'', ''chromium'', ''edge''] @ [''firefox''] else []) bs)"
  unfolding brands_conflict_def Let_def
  by (cases "detect_user_agent_family ua") (simp_all only: option.case brand_like_append split: if_split, auto simp: brand_like_Nil)

lemma navigator_ok:
  "Fingerprint_navigator_is_consistent f = Inr () \<longleftrightarrow>
     fp_color_depth f \<le> 32
     \<and> (if fp_max_touch_points f \<ge> 5 then fp_hardware_concurrency f \<le> 8 \<and> fp_device_memory f \<le> 16
        else \<not> str_contains (to_ascii_lowercase (fp_user_agent f)) ''android''
          \<and> \<not> contains_any [''iphone'', ''ipad'', ''android''] (to_ascii_lowercase (fp_platform f)))"
  by (auto simp: Fingerprint_navigator_is_consistent_def Let_def contains_any_def not_less)

lemma consistent_iff:
  "Fingerprint_is_consistent f = Inr () \<longleftrightarrow>
     consistent_given (detect_user_agent_family (fp_user_agent f)) (detect_user_agent_platform (fp_user_agent f))
       (str_contains (to_ascii_lowercase (fp_user_agent f)) ''android'') f"
proof -
  have "Fingerprint_is_consistent f = Inr () \<longleftrightarrow> brands_conflict (fp_user_agent f) (fp_brands f) = None
      \<and> platform_conflict (fp_user_agent f) (fp_platform f) = None \<and> webgl_conflict f = None
      \<and> Fingerprint_navigator_is_consistent f = Inr ()"
    by (auto simp: Fingerprint_is_consistent_def split: option.splits)
  moreover have "webgl_conflict f = None \<longleftrightarrow> (case detect_user_agent_family (fp_user_agent f) of None \<Rightarrow> True | Some x \<Rightarrow>
      x \<notin> {''chrome'', ''edge''} \<or> fp_webgl_vendor f = []
      \<or> contains_any [''google'', ''intel''] (to_ascii_lowercase (fp_webgl_vendor f))
      \<or> contains_any [''angle'', ''mesa'', ''apple''] (to_ascii_lowercase (fp_webgl_renderer f)))"
    unfolding webgl_conflict_def contains_any_def Let_def
    by (auto simp: to_ascii_lowercase_def split: option.split)
  moreover have "platform_conflict (fp_user_agent f) (fp_platform f) = None \<longleftrightarrow>
      (case detect_user_agent_platform (fp_user_agent f) of None \<Rightarrow> True
       | Some p \<Rightarrow> platform_matches p (to_ascii_lowercase (fp_platform f)))"
    by (auto simp: platform_conflict_def split: option.split)
  ultimately show ?thesis
    unfolding consistent_given_def
    by (cases "detect_user_agent_family (fp_user_agent f)"; cases "detect_user_agent_platform (fp_user_agent f)")
       (simp_all only: brands_conflict_None navigator_ok append.simps option.case simp_thms conj_ac)
qed

lemma user_agent_facts:
  "detect_user_agent_family chrome_linux_user_agent = Some ''chrome''"
  "detect_user_agent_platform chrome_linux_user_agent = Some ''linux''"
  "\<not> str_contains (to_ascii_lowercase chrome_linux_user_agent) ''android''"
  "detect_user_agent_family firefox_linux_user_agent = Some ''firefox''"
  "detect_user_agent_platform firefox_linux_user_agent = Some ''linux''"
  "\<not> str_contains (to_ascii_lowercase firefox_linux_user_agent) ''android''"
  "detect_user_agent_family safari_macos_user_agent = Some ''safari''"
  "detect_user_agent_platform safari_macos_user_agent = Some ''macos''"
  "\<not> str_contains (to_ascii_lowercase safari_macos_user_agent) ''android''"
  "detect_user_agent_family chrome_android_user_agent = Some ''chrome''"
  "detect_user_agent_platform chrome_android_user_agent = Some ''android''"
  "str_contains (to_ascii_lowercase chrome_android_user_agent) ''android''"
  "detect_user_agent_family safari_ios_user_agent = Some ''safari''"
  "detect_user_agent_platform safari_ios_user_agent = Some ''ios''"
  "\<not> str_contains (to_ascii_lowercase safari_ios_user_agent) ''android''"
  by code_simp+

lemma default_entries_given:
  "list_all (consistent_given (Some ''chrome'') (Some ''linux'') False)
     [fp_chrome_140_linux_x86_64, fp_chrome_140_linux_1280x720, fp_chrome_140_linux_1432x1068,
      fp_chrome_140_linux_1366x727, fp_chrome_140_linux_1600x900, fp_chrome_140_linux_1280x800]"
  "list_all (consistent_given (Some ''firefox'') (Some ''linux'') False)
     [fp_firefox_130_linux_x86_64, fp_firefox_130_linux_832x512, fp_firefox_130_linux_1680x945,
      fp_firefox_130_linux_1024x600, fp_firefox_130_linux_1440x810, fp_firefox_130_linux_1536x864]"
  "consistent_given (Some ''safari'') (Some ''macos'') False fp_safari_17_macos_arm64"
  "consistent_given (Some ''chrome'') (Some ''android'') True fp_chrome_android_140_pixel8"
  "consistent_given (Some ''safari'') (Some ''ios'') False fp_safari_ios_17_iphone"
  by code_simp+

lemmas default_entry_user_agents =
  fp_chrome_140_linux_x86_64_def fp_chrome_140_linux_1280x720_def fp_chrome_140_linux_1432x1068_def
  fp_chrome_140_linux_1366x727_def fp_chrome_140_linux_1600x900_def fp_chrome_140_linux_1280x800_def
  fp_firefox_130_linux_x86_64_def fp_firefox_130_linux_832x512_def fp_firefox_130_linux_1680x945_def
  fp_firefox_130_linux_1024x600_def fp_firefox_130_linux_1440x810_def fp_firefox_130_linux_1536x864_def
  fp_safari_17_macos_arm64_def fp_chrome_android_140_pixel8_def fp_safari_ios_17_iphone_def

lemma default_entries_user_agent:
  "list_all (\<lambda>f. fp_user_agent f = chrome_linux_user_agent)
     [fp_chrome_140_linux_x86_64, fp_chrome_140_linux_1280x720, fp_chrome_140_linux_1432x1068,
      fp_chrome_140_linux_1366x727, fp_chrome_140_linux_1600x900, fp_chrome_140_linux_1280x800]"
  "list_all (\<lambda>f. fp_user_agent f = firefox_linux_user_agent)
     [fp_firefox_130_linux_x86_64, fp_firefox_130_linux_832x512, fp_firefox_130_linux_1680x945,
      fp_firefox_130_linux_1024x600, fp_firefox_130_linux_1440x810, fp_firefox_130_linux_1536x864]"
  "fp_user_agent fp_safari_17_macos_arm64 = safari_macos_user_agent"
  "fp_user_agent fp_chrome_android_140_pixel8 = chrome_android_user_agent"
  "fp_user_agent fp_safari_ios_17_iphone = safari_ios_user_agent"
  by (simp_all add: default_entry_user_agents)

lemma default_entries_consistent: "list_all (\<lambda>f. Fingerprint_is_consistent f = Inr ()) default_catalog_entries"
  using default_entries_given default_entries_user_agent
  by (simp add: default_catalog_entries_def consistent_iff user_agent_facts)

lemma catalog_ok_default: "catalog_ok FingerprintCatalog_default_catalog"
  unfolding FingerprintCatalog_default_catalog_def
  by (rule catalog_ok_puts [OF _ default_entries_consistent]) (simp add: catalog_ok_def FingerprintCatalog_default_def)

text \<open>
  Whatever is inserted into the default catalog, a fingerprint it hands out passes the
  consistency checks and is the one of the name asked for; the table the catalog starts from is
  itself consistent.
\<close>

theorem catalog_hands_out_consistent_fingerprints:
  assumes "FingerprintCatalog_get (fold (\<lambda>f c. snd (FingerprintCatalog_insert f c)) fs FingerprintCatalog_default_catalog) i = Some f"
  shows "Fingerprint_is_consistent f = Inr () \<and> fp_id f = i"
  using assms catalog_ok_inserts [OF catalog_ok_default, of fs]
  by (simp add: catalog_ok_def FingerprintCatalog_get_def)

theorem catalog_hands_out_consistent_fingerprints_witness:
  "Fingerprint_is_consistent fp_safari_17_macos_arm64 = Inr () \<and> fp_id fp_safari_17_macos_arm64 = ''safari-17-macos-arm64''"
proof (rule catalog_hands_out_consistent_fingerprints [where fs = "[fp_safari_17_macos_arm64]"])
  have "Fingerprint_is_consistent fp_safari_17_macos_arm64 = Inr ()"
    using default_entries_consistent by (simp add: default_catalog_entries_def)
  moreover have "fp_id fp_safari_17_macos_arm64 = ''safari-17-macos-arm64''" by (simp add: fp_safari_17_macos_arm64_def)
  ultimately show "FingerprintCatalog_get (fold (\<lambda>f c. snd (FingerprintCatalog_insert f c)) [fp_safari_17_macos_arm64]
      FingerprintCatalog_default_catalog) ''safari-17-macos-arm64'' = Some fp_safari_17_macos_arm64"
    by (simp add: FingerprintCatalog_insert_def FingerprintCatalog_get_def)
qed

text \<open>
  The Android entry is a touch device, and its platform, as in real browsers, has no
  \<open>Android\<close> in it; the client hint \<open>Sec-CH-UA-Mobile\<close>, computed from the platform alone, says \<open>?0\<close>.
\<close>

lemma android_entry_claims_not_mobile:
  "ProfileIdentity_sec_ch_ua_mobile (Fingerprint_into_profile_identity fp_chrome_android_140_pixel8) = ''?0''
    \<and> 5 \<le> fp_max_touch_points fp_chrome_android_140_pixel8"
  by code_simp

end
