(* ===== verification/Profiles.thy ===== *)
theory Profiles
  imports Fingerprints
begin

section \<open>Profiles\<close>

text \<open>
  The crate \<open>crates/profiles\<close>: the profile manager with its limits, its snapshot with the migration
  of the first schema, the built-in variants, the consistency check and the application of a
  fingerprint of \<open>Fingerprints\<close> to a profile.

  \<open>detect_user_agent_family\<close> and \<open>detect_user_agent_platform\<close> are copied word for word in both
  crates, and so are the brand and platform checks: the definitions of \<open>Fingerprints\<close> serve both.
  \<open>ProfileId::new\<close> is an argument; so are the encoder and decoder of the snapshot.
\<close>

subsection \<open>Configurations\<close>

record HistoryEntry =
  he_url :: string
  he_title :: "string option"
  he_visited_at_unix_seconds :: u64

record AutocompleteEntry =
  ae_field :: string
  ae_value :: string
  ae_last_used_unix_seconds :: u64

record ProfileViewport =
  pvp_width :: u32
  pvp_height :: u32
  pvp_device_scale_factor :: u32

record ProfileConfig =
  pc_user_agent :: "string option"
  pc_locale :: string
  pc_timezone :: string
  pc_homepage :: "string option"
  pc_extensions :: "string list"
  pc_history :: "HistoryEntry list"
  pc_autocomplete :: "AutocompleteEntry list"
  pc_viewport :: ProfileViewport
  pc_platform :: string
  pc_brands :: "SecChUaBrand list"
  pc_accept_language :: string
  pc_hardware_concurrency :: u8
  pc_device_memory :: u8
  pc_max_touch_points :: u8
  pc_color_depth :: u8

record Profile =
  pr_id :: ProfileId
  pr_name :: string
  pr_generation :: u64
  pr_config :: ProfileConfig

record ProfileLimits =
  pl_max_profiles :: nat
  pl_max_history_entries :: nat
  pl_max_autocomplete_entries :: nat
  pl_max_extensions :: nat

definition ProfileLimits_default :: ProfileLimits where
  "ProfileLimits_default = \<lparr>pl_max_profiles = 32, pl_max_history_entries = 1000,
     pl_max_autocomplete_entries = 100, pl_max_extensions = 64\<rparr>"

definition ProfileViewport_default :: ProfileViewport where
  "ProfileViewport_default = \<lparr>pvp_width = 1280, pvp_height = 720, pvp_device_scale_factor = 1\<rparr>"

definition ProfileConfig_default :: ProfileConfig where
  "ProfileConfig_default =
     \<lparr>pc_user_agent = None, pc_locale = ''en-US'', pc_timezone = ''UTC'', pc_homepage = None,
      pc_extensions = [], pc_history = [], pc_autocomplete = [], pc_viewport = ProfileViewport_default,
      pc_platform = ''Linux x86_64'', pc_brands = default_brands, pc_accept_language = ''en-US,en;q=0.9'',
      pc_hardware_concurrency = 8, pc_device_memory = 8, pc_max_touch_points = 0, pc_color_depth = 24\<rparr>"

text \<open>\<open>drain(..len - limit)\<close> of a list that is too long.\<close>

definition keep_last :: "nat \<Rightarrow> 'a list \<Rightarrow> 'a list" where
  "keep_last limit xs = (if limit > 0 \<and> length xs > limit then drop (length xs - limit) xs else xs)"

definition normalize_config :: "ProfileLimits \<Rightarrow> ProfileConfig \<Rightarrow> ProfileConfig" where
  "normalize_config l c =
     c\<lparr>pc_history := keep_last (pl_max_history_entries l) (pc_history c),
       pc_autocomplete := keep_last (pl_max_autocomplete_entries l) (pc_autocomplete c),
       pc_extensions := (if pl_max_extensions l > 0 \<and> length (pc_extensions c) > pl_max_extensions l
                         then take (pl_max_extensions l) (pc_extensions c) else pc_extensions c)\<rparr>"

definition migrate_v1_to_v2 :: "ProfileConfig \<Rightarrow> ProfileConfig" where
  "migrate_v1_to_v2 c =
     (let d = ProfileConfig_default;
          c = (if pvp_width (pc_viewport c) = 0 \<or> pvp_height (pc_viewport c) = 0 then c\<lparr>pc_viewport := pc_viewport d\<rparr> else c);
          c = (if pc_platform c = [] then c\<lparr>pc_platform := pc_platform d\<rparr> else c);
          c = (if pc_brands c = [] then c\<lparr>pc_brands := pc_brands d\<rparr> else c)
      in if pc_accept_language c = [] then c\<lparr>pc_accept_language := pc_accept_language d\<rparr> else c)"

definition ProfileIdentity_from_config :: "ProfileConfig \<Rightarrow> ProfileIdentity" where
  "ProfileIdentity_from_config c =
     (let d = ProfileConfig_default in
      \<lparr>pid_user_agent = (case pc_user_agent c of Some ua \<Rightarrow> ua | None \<Rightarrow> (case pc_user_agent d of Some ua \<Rightarrow> ua | None \<Rightarrow> [])),
       pid_locale = pc_locale c, pid_timezone = pc_timezone c,
       pid_viewport = \<lparr>ivp_width = pvp_width (pc_viewport c), ivp_height = pvp_height (pc_viewport c),
                       ivp_device_scale_factor = pvp_device_scale_factor (pc_viewport c)\<rparr>,
       pid_platform = (if pc_platform c = [] then pc_platform d else pc_platform c),
       pid_brands = pc_brands c,
       pid_accept_language = (if pc_accept_language c = [] then pc_accept_language d else pc_accept_language c),
       pid_hardware_concurrency = pc_hardware_concurrency c, pid_device_memory = pc_device_memory c,
       pid_max_touch_points = pc_max_touch_points c, pid_color_depth = pc_color_depth c\<rparr>)"

subsection \<open>Consistency\<close>

datatype ProfileInconsistency =
    ProfUserAgentClaimsBrowser string string
  | ProfPlatformMismatch string string

fun ProfileInconsistency_text :: "ProfileInconsistency \<Rightarrow> string" where
  "ProfileInconsistency_text (ProfUserAgentClaimsBrowser claimed declared) =
     ''user agent advertises '' @ claimed @ '' but profile declares '' @ declared"
| "ProfileInconsistency_text (ProfPlatformMismatch ua_platform declared) =
     ''user agent platform '' @ ua_platform @ '' does not match declared '' @ declared"

definition check_profile_consistency :: "ProfileConfig \<Rightarrow> ProfileInconsistency + unit" where
  "check_profile_consistency c =
     (case pc_user_agent c of
        None \<Rightarrow> Inr ()
      | Some ua \<Rightarrow>
          (case brands_conflict ua (pc_brands c) of
             Some (claimed, declared) \<Rightarrow> Inl (ProfUserAgentClaimsBrowser claimed declared)
           | None \<Rightarrow>
               (case platform_conflict ua (pc_platform c) of
                  Some (p, declared) \<Rightarrow> Inl (ProfPlatformMismatch p declared)
                | None \<Rightarrow> Inr ())))"

subsection \<open>The manager\<close>

record ProfileManager =
  pm_profiles :: "(ProfileId, Profile) BTreeMap"
  pm_selected :: "ProfileId option"
  pm_limits :: ProfileLimits

definition ProfileManager_default :: ProfileManager where
  "ProfileManager_default = \<lparr>pm_profiles = [], pm_selected = None, pm_limits = ProfileLimits_default\<rparr>"

text \<open>Inserting a new profile, the common end of \<open>create\<close> and \<open>create_with_variant\<close>.\<close>

definition add_profile :: "ProfileId \<Rightarrow> string \<Rightarrow> ProfileConfig \<Rightarrow> ProfileManager \<Rightarrow> ProfileManager" where
  "add_profile i name config m =
     m\<lparr>pm_profiles := bt_insert i \<lparr>pr_id = i, pr_name = name, pr_generation = 0, pr_config = config\<rparr> (pm_profiles m),
       pm_selected := (case pm_selected m of None \<Rightarrow> Some i | Some j \<Rightarrow> Some j)\<rparr>"

definition ProfileManager_create :: "ProfileId \<Rightarrow> string \<Rightarrow> ProfileManager \<Rightarrow> ProfileId \<times> ProfileManager" where
  "ProfileManager_create i name m = (i, add_profile i name ProfileConfig_default m)"

definition ProfileManager_try_create :: "ProfileId \<Rightarrow> string \<Rightarrow> ProfileManager \<Rightarrow> ProfileId option \<times> ProfileManager" where
  "ProfileManager_try_create i name m =
     (if length (pm_profiles m) \<ge> pl_max_profiles (pm_limits m) then (None, m)
      else (case ProfileManager_create i name m of (j, m) \<Rightarrow> (Some j, m)))"

definition map_configs :: "(ProfileConfig \<Rightarrow> ProfileConfig) \<Rightarrow> (ProfileId, Profile) BTreeMap \<Rightarrow> (ProfileId, Profile) BTreeMap" where
  "map_configs f ps = bt_map_values (\<lambda>p. p\<lparr>pr_config := f (pr_config p)\<rparr>) ps"

definition ProfileManager_set_limits :: "ProfileLimits \<Rightarrow> ProfileManager \<Rightarrow> ProfileManager" where
  "ProfileManager_set_limits l m =
     m\<lparr>pm_limits := l, pm_profiles := map_configs (normalize_config l) (pm_profiles m)\<rparr>"

definition ProfileManager_delete :: "ProfileId \<Rightarrow> ProfileManager \<Rightarrow> bool \<times> ProfileManager" where
  "ProfileManager_delete i m =
     (let removed = bt_contains_key (pm_profiles m) i;
          m' = m\<lparr>pm_profiles := bt_remove i (pm_profiles m)\<rparr>
      in (removed, if removed \<and> pm_selected m' = Some i then m'\<lparr>pm_selected := bt_first_key (pm_profiles m')\<rparr> else m'))"

definition ProfileManager_select :: "ProfileId \<Rightarrow> ProfileManager \<Rightarrow> bool \<times> ProfileManager" where
  "ProfileManager_select i m =
     (if bt_contains_key (pm_profiles m) i then (True, m\<lparr>pm_selected := Some i\<rparr>) else (False, m))"

definition ProfileManager_selected :: "ProfileManager \<Rightarrow> Profile option" where
  "ProfileManager_selected m = Option.bind (pm_selected m) (bt_get (pm_profiles m))"

text \<open>
  \<open>get_mut\<close> of a profile that exists, with the change of its configuration that every update
  makes and the generation that counts it.
\<close>

definition change_config :: "ProfileId \<Rightarrow> (ProfileConfig \<Rightarrow> ProfileConfig) \<Rightarrow> ProfileManager \<Rightarrow> bool \<times> ProfileManager" where
  "change_config i f m =
     (if bt_contains_key (pm_profiles m) i
      then (True, m\<lparr>pm_profiles := bt_adjust i
             (\<lambda>p. p\<lparr>pr_config := f (pr_config p), pr_generation := pr_generation p + 1\<rparr>) (pm_profiles m)\<rparr>)
      else (False, m))"

definition ProfileManager_update_config :: "ProfileId \<Rightarrow> ProfileConfig \<Rightarrow> ProfileManager \<Rightarrow> bool \<times> ProfileManager" where
  "ProfileManager_update_config i config m = change_config i (\<lambda>_. normalize_config (pm_limits m) config) m"

definition ProfileManager_record_history ::
    "ProfileId \<Rightarrow> HistoryEntry \<Rightarrow> nat \<Rightarrow> ProfileManager \<Rightarrow> bool \<times> ProfileManager" where
  "ProfileManager_record_history i entry max_entries m =
     change_config i (\<lambda>c. c\<lparr>pc_history :=
       keep_last (min max_entries (pl_max_history_entries (pm_limits m))) (pc_history c @ [entry])\<rparr>) m"

definition ProfileManager_record_autocomplete ::
    "ProfileId \<Rightarrow> AutocompleteEntry \<Rightarrow> nat \<Rightarrow> ProfileManager \<Rightarrow> bool \<times> ProfileManager" where
  "ProfileManager_record_autocomplete i entry max_entries m =
     change_config i (\<lambda>c. c\<lparr>pc_autocomplete :=
       keep_last (min max_entries (pl_max_autocomplete_entries (pm_limits m)))
         ([e \<leftarrow> pc_autocomplete c. ae_field e \<noteq> ae_field entry \<or> ae_value e \<noteq> ae_value entry] @ [entry])\<rparr>) m"

definition ProfileManager_try_update_config ::
    "ProfileId \<Rightarrow> ProfileConfig \<Rightarrow> ProfileManager \<Rightarrow> (ProfileInconsistency + bool) \<times> ProfileManager" where
  "ProfileManager_try_update_config i config m =
     (case check_profile_consistency config of
        Inl e \<Rightarrow> (Inl e, m)
      | Inr _ \<Rightarrow> (case change_config i (\<lambda>_. normalize_config (pm_limits m) config) m of (b, m) \<Rightarrow> (Inr b, m)))"

subsection \<open>Snapshots\<close>

record ProfileManagerWire =
  pmw_schema_version :: u16
  pmw_profiles :: "Profile list"
  pmw_selected :: "ProfileId option"
  pmw_limits :: ProfileLimits

definition ProfileManager_SCHEMA_VERSION :: u16 where
  "ProfileManager_SCHEMA_VERSION = 2"

definition ProfileManager_to_json :: "(ProfileManagerWire \<Rightarrow> 'err + 'text) \<Rightarrow> ProfileManager \<Rightarrow> 'err + 'text" where
  "ProfileManager_to_json encode m =
     encode \<lparr>pmw_schema_version = ProfileManager_SCHEMA_VERSION, pmw_profiles = map snd (pm_profiles m),
             pmw_selected = pm_selected m, pmw_limits = pm_limits m\<rparr>"

definition ProfileManager_from_json ::
    "(string \<Rightarrow> 'err) \<Rightarrow> ('text \<Rightarrow> 'err + ProfileManagerWire) \<Rightarrow> 'text \<Rightarrow> 'err + ProfileManager" where
  "ProfileManager_from_json custom decode val =
     (case decode val of
        Inl e \<Rightarrow> Inl e
      | Inr wire \<Rightarrow>
          if pmw_schema_version wire > ProfileManager_SCHEMA_VERSION
          then Inl (custom ''unsupported profile schema version'')
          else
            let migrated = (if pmw_schema_version wire < 2
                  then map (\<lambda>p. p\<lparr>pr_config := migrate_v1_to_v2 (pr_config p)\<rparr>) (pmw_profiles wire)
                  else pmw_profiles wire);
                profiles = bt_collect (map (\<lambda>p. (pr_id p, p)) migrated);
                selected = (case pmw_selected wire of
                    Some i \<Rightarrow> if bt_contains_key profiles i then Some i else bt_first_key profiles
                  | None \<Rightarrow> bt_first_key profiles)
            in Inr \<lparr>pm_profiles = map_configs (normalize_config (pmw_limits wire)) profiles,
                    pm_selected = selected, pm_limits = pmw_limits wire\<rparr>)"

subsection \<open>Variants and fingerprints\<close>

datatype ProfileVariant = ChromeDesktop | FirefoxDesktop | SafariDesktop | ChromeAndroid | SafariIos

definition variant_config ::
    "string \<Rightarrow> ProfileViewport \<Rightarrow> string \<Rightarrow> SecChUaBrand list \<Rightarrow> string \<Rightarrow> u8 \<Rightarrow> u8 \<Rightarrow> u8 \<Rightarrow> u8 \<Rightarrow> ProfileConfig" where
  "variant_config ua viewport platform brands accept concurrency memory touch depth =
     \<lparr>pc_user_agent = Some ua, pc_locale = ''en-US'', pc_timezone = ''America/Los_Angeles'', pc_homepage = None,
      pc_extensions = [], pc_history = [], pc_autocomplete = [], pc_viewport = viewport,
      pc_platform = platform, pc_brands = brands, pc_accept_language = accept,
      pc_hardware_concurrency = concurrency, pc_device_memory = memory, pc_max_touch_points = touch,
      pc_color_depth = depth\<rparr>"

fun ProfileVariant_default_config :: "ProfileVariant \<Rightarrow> ProfileConfig" where
  "ProfileVariant_default_config ChromeDesktop =
     variant_config chrome_linux_user_agent \<lparr>pvp_width = 1920, pvp_height = 1080, pvp_device_scale_factor = 1\<rparr>
       ''Linux x86_64'' default_brands ''en-US,en;q=0.9'' 8 8 0 24"
| "ProfileVariant_default_config FirefoxDesktop =
     variant_config firefox_linux_user_agent \<lparr>pvp_width = 1920, pvp_height = 1080, pvp_device_scale_factor = 1\<rparr>
       ''Linux x86_64'' [] ''en-US,en;q=0.5'' 8 8 0 24"
| "ProfileVariant_default_config SafariDesktop =
     variant_config safari_macos_user_agent \<lparr>pvp_width = 2560, pvp_height = 1440, pvp_device_scale_factor = 2\<rparr>
       ''MacIntel'' [] ''en-US,en;q=0.9'' 10 16 0 30"
| "ProfileVariant_default_config ChromeAndroid =
     variant_config chrome_android_user_agent \<lparr>pvp_width = 412, pvp_height = 915, pvp_device_scale_factor = 2\<rparr>
       ''Linux armv81'' default_brands ''en-US,en;q=0.9'' 8 8 5 24"
| "ProfileVariant_default_config SafariIos =
     variant_config safari_ios_user_agent \<lparr>pvp_width = 393, pvp_height = 852, pvp_device_scale_factor = 3\<rparr>
       ''iPhone'' [] ''en-US,en;q=0.9'' 6 4 5 24"

definition ProfileManager_create_with_variant ::
    "ProfileId \<Rightarrow> string \<Rightarrow> ProfileVariant \<Rightarrow> ProfileManager \<Rightarrow> ProfileId option \<times> ProfileManager" where
  "ProfileManager_create_with_variant i name variant m =
     (if length (pm_profiles m) \<ge> pl_max_profiles (pm_limits m) then (None, m)
      else (Some i, add_profile i name (ProfileVariant_default_config variant) m))"

definition config_of_identity :: "ProfileIdentity \<Rightarrow> ProfileConfig" where
  "config_of_identity i =
     \<lparr>pc_user_agent = Some (pid_user_agent i), pc_locale = pid_locale i, pc_timezone = pid_timezone i, pc_homepage = None,
      pc_extensions = [], pc_history = [], pc_autocomplete = [],
      pc_viewport = \<lparr>pvp_width = ivp_width (pid_viewport i), pvp_height = ivp_height (pid_viewport i),
                     pvp_device_scale_factor = ivp_device_scale_factor (pid_viewport i)\<rparr>,
      pc_platform = pid_platform i, pc_brands = pid_brands i, pc_accept_language = pid_accept_language i,
      pc_hardware_concurrency = pid_hardware_concurrency i, pc_device_memory = pid_device_memory i,
      pc_max_touch_points = pid_max_touch_points i, pc_color_depth = pid_color_depth i\<rparr>"

definition ProfileManager_apply_fingerprint ::
    "ProfileId \<Rightarrow> FingerprintCatalog \<Rightarrow> string \<Rightarrow> ProfileManager \<Rightarrow> (FingerprintInconsistency + bool) \<times> ProfileManager" where
  "ProfileManager_apply_fingerprint i catalog fid m =
     (case FingerprintCatalog_get catalog fid of
        None \<Rightarrow> (Inl (UserAgentClaimsBrowser ''fingerprint-not-found'' fid), m)
      | Some f \<Rightarrow>
          (case Fingerprint_is_consistent f of
             Inl e \<Rightarrow> (Inl e, m)
           | Inr _ \<Rightarrow>
               (case ProfileManager_try_update_config i (config_of_identity (Fingerprint_into_profile_identity f)) m of
                  (Inl _, m) \<Rightarrow> (Inl (UserAgentClaimsBrowser ''profile-rejected'' fid), m)
                | (Inr b, m) \<Rightarrow> (Inr b, m))))"

subsection \<open>Every reachable manager\<close>

text \<open>
  A step is any operation. The caller's own bound on the history or the autocomplete list is
  positive here: with the bound \<open>0\<close> nothing is cut, see \<open>unbounded_history\<close> below.
\<close>

inductive profile_step :: "ProfileManager \<Rightarrow> ProfileManager \<Rightarrow> bool" where
  create: "profile_step m (snd (ProfileManager_create i name m))"
| try_create: "profile_step m (snd (ProfileManager_try_create i name m))"
| create_with_variant: "profile_step m (snd (ProfileManager_create_with_variant i name v m))"
| set_limits: "profile_step m (ProfileManager_set_limits l m)"
| delete: "profile_step m (snd (ProfileManager_delete i m))"
| select: "profile_step m (snd (ProfileManager_select i m))"
| update_config: "profile_step m (snd (ProfileManager_update_config i c m))"
| try_update_config: "profile_step m (snd (ProfileManager_try_update_config i c m))"
| apply_fingerprint: "profile_step m (snd (ProfileManager_apply_fingerprint i catalog fid m))"
| record_history: "0 < n \<Longrightarrow> profile_step m (snd (ProfileManager_record_history i h n m))"
| record_autocomplete: "0 < n \<Longrightarrow> profile_step m (snd (ProfileManager_record_autocomplete i a n m))"

definition short :: "nat \<Rightarrow> 'a list \<Rightarrow> bool" where
  "short limit xs \<longleftrightarrow> limit = 0 \<or> length xs \<le> limit"

definition config_within :: "ProfileLimits \<Rightarrow> ProfileConfig \<Rightarrow> bool" where
  "config_within l c \<longleftrightarrow> short (pl_max_history_entries l) (pc_history c)
     \<and> short (pl_max_autocomplete_entries l) (pc_autocomplete c) \<and> short (pl_max_extensions l) (pc_extensions c)"

definition profiles_within :: "ProfileLimits \<Rightarrow> (ProfileId, Profile) BTreeMap \<Rightarrow> bool" where
  "profiles_within l ps \<longleftrightarrow> bt_ok ps \<and> (\<forall>i p. bt_get ps i = Some p \<longrightarrow> pr_id p = i \<and> config_within l (pr_config p))"

definition selected_ok :: "ProfileManager \<Rightarrow> bool" where
  "selected_ok m \<longleftrightarrow> (case pm_selected m of None \<Rightarrow> bt_keys (pm_profiles m) = [] | Some i \<Rightarrow> bt_contains_key (pm_profiles m) i)"

definition manager_ok :: "ProfileManager \<Rightarrow> bool" where
  "manager_ok m \<longleftrightarrow> profiles_within (pm_limits m) (pm_profiles m) \<and> selected_ok m"

lemma short_keep_last [simp]: "short limit (keep_last limit xs)"
  by (simp add: short_def keep_last_def)

lemma short_keep_last_min: "0 < n \<Longrightarrow> short limit (keep_last (min n limit) xs)"
  by (auto simp: short_def keep_last_def min_def)

lemma keep_last_short: "short limit xs \<Longrightarrow> keep_last limit xs = xs"
  by (auto simp: short_def keep_last_def)

lemma normalize_within [simp]: "config_within l (normalize_config l c)"
  by (simp add: config_within_def normalize_config_def) (simp add: short_def)

lemma normalize_id: "config_within l c \<Longrightarrow> normalize_config l c = c"
  by (auto simp: config_within_def normalize_config_def keep_last_short) (auto simp: short_def)

lemma map_configs_simps [simp]:
  "bt_get (map_configs f ps) i = map_option (\<lambda>p. p\<lparr>pr_config := f (pr_config p)\<rparr>) (bt_get ps i)"
  "bt_keys (map_configs f ps) = bt_keys ps"
  "bt_ok (map_configs f ps) = bt_ok ps"
  by (simp_all add: map_configs_def)

lemma profiles_within_map [simp]:
  "profiles_within k ps \<Longrightarrow> profiles_within l (map_configs (normalize_config l) ps)"
  by (auto simp: profiles_within_def)

lemma map_configs_id:
  assumes "profiles_within l ps"
  shows "map_configs (normalize_config l) ps = ps"
proof (rule bt_ext)
  show "bt_get (map_configs (normalize_config l) ps) i = bt_get ps i" for i
    using assms by (cases "bt_get ps i") (auto simp: profiles_within_def normalize_id)
qed (use assms in \<open>simp_all add: profiles_within_def\<close>)

lemma profiles_within_insert:
  "profiles_within l ps \<Longrightarrow> config_within l (pr_config p) \<Longrightarrow> profiles_within l (bt_insert (pr_id p) p ps)"
  by (auto simp: profiles_within_def split: if_splits)

lemma empty_within: "pc_history c = [] \<Longrightarrow> pc_autocomplete c = [] \<Longrightarrow> pc_extensions c = [] \<Longrightarrow> config_within l c"
  by (simp add: config_within_def short_def)

lemma variant_within: "config_within l (ProfileVariant_default_config v)"
  by (cases v) (simp_all add: empty_within variant_config_def)

lemma default_within: "config_within l ProfileConfig_default"
  by (simp add: empty_within ProfileConfig_default_def)

lemma first_key_ok: "case bt_first_key ps of None \<Rightarrow> bt_keys ps = [] | Some i \<Rightarrow> bt_contains_key ps i"
  by (cases ps) (auto simp: bt_first_key_def bt_contains_key_def)

lemma manager_ok_add: "manager_ok m \<Longrightarrow> config_within (pm_limits m) c \<Longrightarrow> manager_ok (add_profile i name c m)"
  using profiles_within_insert [of "pm_limits m" "pm_profiles m" "\<lparr>pr_id = i, pr_name = name, pr_generation = 0, pr_config = c\<rparr>"]
  by (auto simp: manager_ok_def add_profile_def selected_ok_def bt_contains_key_def split: option.splits)

lemma manager_ok_change:
  assumes "manager_ok m" and "\<And>c. config_within (pm_limits m) c \<Longrightarrow> config_within (pm_limits m) (f c)"
  shows "manager_ok (snd (change_config i f m))"
  using assms by (auto simp: manager_ok_def change_config_def profiles_within_def selected_ok_def bt_contains_key_def
      simp del: map_is_Nil_conv split: option.splits if_splits)

lemma manager_ok_delete: "manager_ok m \<Longrightarrow> manager_ok (snd (ProfileManager_delete i m))"
  using first_key_ok [of "bt_remove i (pm_profiles m)"]
  by (auto simp: manager_ok_def ProfileManager_delete_def Let_def profiles_within_def selected_ok_def bt_contains_key_def
      bt_remove_def [of i "[]"] split: option.splits if_splits)

lemma manager_ok_set_limits: "manager_ok m \<Longrightarrow> manager_ok (ProfileManager_set_limits l m)"
  by (auto simp: manager_ok_def ProfileManager_set_limits_def selected_ok_def bt_contains_key_def
      intro: profiles_within_map simp del: map_is_Nil_conv split: option.splits)

lemma try_update_cases:
  "snd (ProfileManager_try_update_config i c m) = m
   \<or> snd (ProfileManager_try_update_config i c m) = snd (change_config i (\<lambda>_. normalize_config (pm_limits m) c) m)"
  by (auto simp: ProfileManager_try_update_config_def split: sum.split prod.split)

lemma manager_ok_try_update: "manager_ok m \<Longrightarrow> manager_ok (snd (ProfileManager_try_update_config i c m))"
  using try_update_cases [of i c m] manager_ok_change [of m "\<lambda>_. normalize_config (pm_limits m) c" i] by auto

lemma manager_ok_history: "manager_ok m \<Longrightarrow> 0 < n \<Longrightarrow> manager_ok (snd (ProfileManager_record_history i h n m))"
  unfolding ProfileManager_record_history_def
  by (rule manager_ok_change) (simp_all add: config_within_def short_keep_last_min)

lemma manager_ok_autocomplete:
  "manager_ok m \<Longrightarrow> 0 < n \<Longrightarrow> manager_ok (snd (ProfileManager_record_autocomplete i a n m))"
  unfolding ProfileManager_record_autocomplete_def
  by (rule manager_ok_change) (simp_all add: config_within_def short_keep_last_min)

lemma apply_fingerprint_state:
  "snd (ProfileManager_apply_fingerprint i catalog fid m) = m
   \<or> (\<exists>c. snd (ProfileManager_apply_fingerprint i catalog fid m) = snd (ProfileManager_try_update_config i c m))"
proof (cases "FingerprintCatalog_get catalog fid")
  case (Some f)
  let ?c = "config_of_identity (Fingerprint_into_profile_identity f)"
  have "snd (ProfileManager_apply_fingerprint i catalog fid m) = m
      \<or> snd (ProfileManager_apply_fingerprint i catalog fid m) = snd (ProfileManager_try_update_config i ?c m)"
    using Some by (auto simp: ProfileManager_apply_fingerprint_def split: sum.split prod.split)
  then show ?thesis by blast
qed (simp add: ProfileManager_apply_fingerprint_def)

lemma manager_ok_select: "manager_ok m \<Longrightarrow> bt_contains_key (pm_profiles m) i \<Longrightarrow> manager_ok (m\<lparr>pm_selected := Some i\<rparr>)"
  by (simp add: manager_ok_def selected_ok_def)

lemma profile_step_keeps: "profile_step m m' \<Longrightarrow> manager_ok m \<Longrightarrow> manager_ok m'"
proof (induction rule: profile_step.induct)
  case (apply_fingerprint m i catalog fid)
  then show ?case using apply_fingerprint_state [of i catalog fid m] by (auto simp: manager_ok_try_update)
qed (auto simp: ProfileManager_create_def ProfileManager_try_create_def ProfileManager_create_with_variant_def
      ProfileManager_select_def ProfileManager_update_config_def default_within variant_within
      manager_ok_delete manager_ok_set_limits manager_ok_try_update manager_ok_history manager_ok_autocomplete
      intro: manager_ok_add manager_ok_change manager_ok_select)

interpretation profile_manager: kept_invariant profile_step manager_ok
  by unfold_locales (rule profile_step_keeps)

lemma manager_ok_initial: "manager_ok ProfileManager_default"
  by (simp add: manager_ok_def ProfileManager_default_def profiles_within_def selected_ok_def)



text \<open>With the bound \<open>0\<close> of its caller the history grows past the limit of the manager.\<close>

lemma unbounded_history:
  assumes "bt_get (pm_profiles m) i = Some p"
  shows "\<exists>q. bt_get (pm_profiles (snd (ProfileManager_record_history i h 0 m))) i = Some q
    \<and> pc_history (pr_config q) = pc_history (pr_config p) @ [h]"
  using assms by (simp add: ProfileManager_record_history_def change_config_def bt_contains_key_def keep_last_def)

text \<open>
  A snapshot of a reachable manager is restored to the manager it was taken from: profiles,
  selection, limits and generations.
\<close>

theorem profile_snapshot_round_trip:
  assumes "profile_step\<^sup>*\<^sup>* ProfileManager_default m" and "\<forall>w. \<exists>text. encode w = Inr text \<and> decode text = Inr w"
  shows "\<exists>text. ProfileManager_to_json encode m = Inr text \<and> ProfileManager_from_json custom decode text = Inr m"
proof -
  have ok: "manager_ok m" by (rule profile_manager.reach_keeps [OF assms(1) manager_ok_initial])
  let ?w = "\<lparr>pmw_schema_version = ProfileManager_SCHEMA_VERSION, pmw_profiles = map snd (pm_profiles m),
             pmw_selected = pm_selected m, pmw_limits = pm_limits m\<rparr>"
  obtain out where out: "encode ?w = Inr out" "decode out = Inr ?w" using assms(2) by blast
  have within: "profiles_within (pm_limits m) (pm_profiles m)" and sel: "selected_ok m"
    using ok by (simp_all add: manager_ok_def)
  have "map (\<lambda>p. (pr_id p, p)) (map snd (pm_profiles m)) = pm_profiles m"
    using within by (auto simp: profiles_within_def o_def dest: bt_in_get intro!: map_idI)
  then have "bt_collect (map (\<lambda>p. (pr_id p, p)) (map snd (pm_profiles m))) = pm_profiles m"
    using within bt_collect_id by (auto simp: profiles_within_def)
  moreover have "map_configs (normalize_config (pm_limits m)) (pm_profiles m) = pm_profiles m"
    by (rule map_configs_id [OF within])
  ultimately have "ProfileManager_from_json custom decode out = Inr m"
    using out sel
    by (cases m) (auto simp: ProfileManager_from_json_def ProfileManager_SCHEMA_VERSION_def Let_def selected_ok_def
        bt_first_key_def bt_contains_key_def split: option.splits)
  with out show ?thesis by (auto simp: ProfileManager_to_json_def)
qed

theorem profile_snapshot_round_trip_witness:
  "\<exists>text. ProfileManager_to_json Inr (snd (ProfileManager_create_with_variant 7 ''x'' SafariIos ProfileManager_default)) = Inr text
    \<and> ProfileManager_from_json (\<lambda>e. e) (Inr :: ProfileManagerWire \<Rightarrow> string + ProfileManagerWire) text
        = Inr (snd (ProfileManager_create_with_variant 7 ''x'' SafariIos ProfileManager_default))"
  by (rule profile_snapshot_round_trip) (rule r_into_rtranclp, rule profile_step.create_with_variant, simp)

subsection \<open>Applying fingerprints\<close>

text \<open>The checks of a fingerprint include those of the configuration made of it.\<close>

lemma fingerprint_config_passes:
  "Fingerprint_is_consistent f = Inr () \<Longrightarrow>
     check_profile_consistency (config_of_identity (Fingerprint_into_profile_identity f)) = Inr ()"
  by (auto simp: Fingerprint_is_consistent_def check_profile_consistency_def config_of_identity_def
      Fingerprint_into_profile_identity_def split: option.splits)

lemma normalize_fresh: "normalize_config l (config_of_identity i) = config_of_identity i"
  by (rule normalize_id) (simp add: empty_within config_of_identity_def)

lemma identity_of_config_of_identity:
  "pid_platform i \<noteq> [] \<Longrightarrow> pid_accept_language i \<noteq> [] \<Longrightarrow> ProfileIdentity_from_config (config_of_identity i) = i"
  by (simp add: ProfileIdentity_from_config_def config_of_identity_def Let_def)

lemma apply_fingerprint_eq:
  "ProfileManager_apply_fingerprint i catalog fid m =
     (case FingerprintCatalog_get catalog fid of
        None \<Rightarrow> (Inl (UserAgentClaimsBrowser ''fingerprint-not-found'' fid), m)
      | Some f \<Rightarrow>
          (case Fingerprint_is_consistent f of
             Inl e \<Rightarrow> (Inl e, m)
           | Inr _ \<Rightarrow> map_prod Inr id
               (change_config i (\<lambda>_. config_of_identity (Fingerprint_into_profile_identity f)) m)))"
  by (auto simp: ProfileManager_apply_fingerprint_def ProfileManager_try_update_config_def fingerprint_config_passes
      normalize_fresh split: option.split sum.split prod.split)

text \<open>
  A fingerprint of a catalog that only the catalog's own operations built is applied to every
  existing profile without any of the rejections of \<open>apply_fingerprint\<close>. The identity that the
  engine then gets from the profile is the fingerprint's, value for value; the generation of the
  profile counts the change and no other profile is touched.
\<close>

theorem applied_fingerprint_is_the_identity:
  assumes "FingerprintCatalog_get (fold (\<lambda>f c. snd (FingerprintCatalog_insert f c)) fs FingerprintCatalog_default_catalog) fid = Some f"
    and "fp_platform f \<noteq> []" and "fp_accept_language f \<noteq> []" and "bt_get (pm_profiles m) i = Some p"
  shows "\<exists>m' q. ProfileManager_apply_fingerprint i
        (fold (\<lambda>f c. snd (FingerprintCatalog_insert f c)) fs FingerprintCatalog_default_catalog) fid m = (Inr True, m')
      \<and> bt_get (pm_profiles m') i = Some q
      \<and> ProfileIdentity_from_config (pr_config q) = Fingerprint_into_profile_identity f
      \<and> pr_id q = pr_id p \<and> pr_name q = pr_name p \<and> pr_generation q = pr_generation p + 1
      \<and> (\<forall>j. j = i \<or> bt_get (pm_profiles m') j = bt_get (pm_profiles m) j)"
proof -
  have "Fingerprint_is_consistent f = Inr ()"
    using assms(1) catalog_ok_inserts [OF catalog_ok_default, of fs] by (simp add: catalog_ok_def FingerprintCatalog_get_def)
  moreover have "ProfileIdentity_from_config (config_of_identity (Fingerprint_into_profile_identity f))
      = Fingerprint_into_profile_identity f"
    using assms(2,3) by (intro identity_of_config_of_identity) (simp_all add: Fingerprint_into_profile_identity_def)
  ultimately show ?thesis
    using assms(1,4) by (auto simp: apply_fingerprint_eq change_config_def bt_contains_key_def)
qed

theorem applied_fingerprint_is_the_identity_witness:
  "\<exists>m' q. ProfileManager_apply_fingerprint 1
        (fold (\<lambda>f c. snd (FingerprintCatalog_insert f c)) [fp_safari_ios_17_iphone] FingerprintCatalog_default_catalog)
        ''safari-ios-17-iphone'' (snd (ProfileManager_create 1 ''phone'' ProfileManager_default)) = (Inr True, m')
      \<and> bt_get (pm_profiles m') 1 = Some q
      \<and> ProfileIdentity_from_config (pr_config q) = Fingerprint_into_profile_identity fp_safari_ios_17_iphone"
proof -
  have "Fingerprint_is_consistent fp_safari_ios_17_iphone = Inr ()"
    using default_entries_consistent by (simp add: default_catalog_entries_def)
  moreover have "fp_id fp_safari_ios_17_iphone = ''safari-ios-17-iphone''" by (simp add: fp_safari_ios_17_iphone_def)
  ultimately have get: "FingerprintCatalog_get (fold (\<lambda>f c. snd (FingerprintCatalog_insert f c)) [fp_safari_ios_17_iphone]
      FingerprintCatalog_default_catalog) ''safari-ios-17-iphone'' = Some fp_safari_ios_17_iphone"
    by (simp add: FingerprintCatalog_insert_def FingerprintCatalog_get_def)
  have "bt_get (pm_profiles (snd (ProfileManager_create 1 ''phone'' ProfileManager_default))) 1
      = Some \<lparr>pr_id = 1, pr_name = ''phone'', pr_generation = 0, pr_config = ProfileConfig_default\<rparr>"
    by (simp add: ProfileManager_create_def add_profile_def)
  from applied_fingerprint_is_the_identity [OF get _ _ this] show ?thesis
    by (auto simp: fp_safari_ios_17_iphone_def)
qed

text \<open>
  Besides the fields of the identity the whole configuration is replaced: history, autocomplete
  list, extensions and homepage of the profile are gone.
\<close>

lemma fingerprint_clears_user_data:
  assumes "FingerprintCatalog_get catalog fid = Some f" and "Fingerprint_is_consistent f = Inr ()"
    and "bt_get (pm_profiles m) i = Some p"
  shows "\<exists>q. bt_get (pm_profiles (snd (ProfileManager_apply_fingerprint i catalog fid m))) i = Some q
    \<and> pc_history (pr_config q) = [] \<and> pc_autocomplete (pr_config q) = [] \<and> pc_extensions (pr_config q) = []
    \<and> pc_homepage (pr_config q) = None"
  using assms by (simp add: apply_fingerprint_eq change_config_def bt_contains_key_def config_of_identity_def)

text \<open>A profile without a user agent of its own, such as every new one, has the empty one.\<close>

lemma default_identity_has_no_user_agent: "pid_user_agent (ProfileIdentity_from_config ProfileConfig_default) = []"
  by (simp add: ProfileIdentity_from_config_def ProfileConfig_default_def Let_def)

text \<open>The migration gives the brands of Chrome to a Firefox profile that, rightly, had none.\<close>

lemma migration_breaks_firefox_profiles:
  assumes "pc_user_agent c = Some firefox_linux_user_agent" and "pc_brands c = []" and "pc_platform c = ''Linux x86_64''"
  shows "check_profile_consistency c = Inr () \<and> check_profile_consistency (migrate_v1_to_v2 c) \<noteq> Inr ()"
proof -
  have "platform_matches ''linux'' (to_ascii_lowercase ''Linux x86_64'')" by code_simp
  moreover have "brand_like [''chrome'', ''chromium'', ''edge''] default_brands" by code_simp
  moreover have "pc_user_agent (migrate_v1_to_v2 c) = pc_user_agent c" "pc_brands (migrate_v1_to_v2 c) = default_brands"
    using assms by (simp_all add: migrate_v1_to_v2_def Let_def ProfileConfig_default_def)
  ultimately show ?thesis
    using assms by (simp add: check_profile_consistency_def brands_conflict_def platform_conflict_def user_agent_facts
        brand_like_def [of _ "[]"])
qed

text \<open>The built-in variants are consistent.\<close>

lemma variants_are_consistent: "check_profile_consistency (ProfileVariant_default_config v) = Inr ()"
proof (cases v)
  case ChromeDesktop
  have "\<not> brand_like [''firefox''] default_brands" "\<not> brand_like [''safari''] default_brands"
    "platform_matches ''linux'' (to_ascii_lowercase ''Linux x86_64'')" by code_simp+
  then show ?thesis
    by (simp add: ChromeDesktop variant_config_def check_profile_consistency_def brands_conflict_def platform_conflict_def
        user_agent_facts)
next
  case ChromeAndroid
  have "\<not> brand_like [''firefox''] default_brands" "\<not> brand_like [''safari''] default_brands"
    "platform_matches ''android'' (to_ascii_lowercase ''Linux armv81'')" by code_simp+
  then show ?thesis
    by (simp add: ChromeAndroid variant_config_def check_profile_consistency_def brands_conflict_def platform_conflict_def
        user_agent_facts)
next
  case FirefoxDesktop
  have "platform_matches ''linux'' (to_ascii_lowercase ''Linux x86_64'')" by code_simp
  then show ?thesis
    by (simp add: FirefoxDesktop variant_config_def check_profile_consistency_def brands_conflict_def platform_conflict_def
        user_agent_facts brand_like_def)
next
  case SafariDesktop
  have "platform_matches ''macos'' (to_ascii_lowercase ''MacIntel'')" by code_simp
  then show ?thesis
    by (simp add: SafariDesktop variant_config_def check_profile_consistency_def brands_conflict_def platform_conflict_def
        user_agent_facts brand_like_def)
next
  case SafariIos
  have "platform_matches ''ios'' (to_ascii_lowercase ''iPhone'')" by code_simp
  then show ?thesis
    by (simp add: SafariIos variant_config_def check_profile_consistency_def brands_conflict_def platform_conflict_def
        user_agent_facts brand_like_def)
qed

end
