(* ===== verification/AgentProtocol.thy ===== *)
theory AgentProtocol
  imports AgentTree Text BTreeMap
begin

section \<open>The protocol of the agents\<close>

text \<open>
  The crate \<open>crates/agent-protocol\<close>: the validation of requests, the leases by which an agent holds a page
  or a workspace, and the queries over the agent render tree with their paging and shaping.

  \<open>Url::parse\<close>, fresh lease identifiers, the clock and the length of a result in its serialised form are
  arguments.
\<close>

subsection \<open>Requests\<close>

definition PROTOCOL_VERSION :: u16 where
  "PROTOCOL_VERSION = 1"

record GeometryConstraint =
  gc_min_x :: "f64 option"
  gc_max_x :: "f64 option"
  gc_min_y :: "f64 option"
  gc_max_y :: "f64 option"
  gc_min_width :: "f64 option"
  gc_min_height :: "f64 option"

record Query =
  q_role :: "StructuralRole option"
  q_semantic_role :: "SemanticRole option"
  q_application_type :: "ApplicationType option"
  q_name :: "string option"
  q_name_contains :: "string option"
  q_identity_key :: "string option"
  q_origin :: "string option"
  q_visible :: "bool option"
  q_enabled :: "bool option"
  q_focused :: "bool option"
  q_selected :: "bool option"
  q_geometry :: "GeometryConstraint option"
  q_relationship_kind :: "string option"
  q_relationship_target :: "string option"

datatype LeaseScope = PageLease string | WorkspaceLease string

type_synonym LeaseId = uuid

record Lease =
  lease_id :: LeaseId
  lease_owner :: string
  lease_scope :: LeaseScope
  lease_expires_at_tick :: u64

datatype AgentOperation =
    OpQuery Query
  | OpNavigate string
  | OpAction string string Json
  | OpSubscribe string
  | OpAcquireLease LeaseScope u64
  | OpReleaseLease LeaseId
  | OpInterrupt

record AgentRequest =
  areq_protocol_version :: u16
  areq_request_id :: uuid
  areq_agent_id :: string
  areq_session_id :: string
  areq_operation :: AgentOperation

datatype ProtocolError =
    ProtocolVersionMismatch u16 u16
  | InvalidSession
  | LeaseHeld
  | LeaseNotFound
  | LeaseOwnerMismatch
  | ProtocolInterrupted
  | InvalidRequest
  | ProtocolInvalidUrl

text \<open>The value that \<open>trim().is_empty()\<close> tests.\<close>

definition blank :: "string \<Rightarrow> bool" where
  "blank s = (str_trim s = [])"

fun operation_valid :: "(string \<Rightarrow> Url option) \<Rightarrow> AgentOperation \<Rightarrow> ProtocolError + unit" where
  "operation_valid parse (OpNavigate url) =
     (if blank url then Inl InvalidRequest else map_sum id (\<lambda>_. ()) (ok_or ProtocolInvalidUrl (parse url)))"
| "operation_valid parse (OpAction target action parameters) =
     (if blank target \<or> blank action then Inl InvalidRequest else Inr ())"
| "operation_valid parse (OpSubscribe stream) = (if blank stream then Inl InvalidRequest else Inr ())"
| "operation_valid parse (OpAcquireLease scope ttl) = (if ttl = 0 then Inl InvalidRequest else Inr ())"
| "operation_valid parse _ = Inr ()"

definition AgentRequest_validate :: "(string \<Rightarrow> Url option) \<Rightarrow> AgentRequest \<Rightarrow> ProtocolError + unit" where
  "AgentRequest_validate parse r =
     (if areq_protocol_version r \<noteq> PROTOCOL_VERSION
      then Inl (ProtocolVersionMismatch PROTOCOL_VERSION (areq_protocol_version r))
      else if blank (areq_agent_id r) \<or> blank (areq_session_id r) then Inl InvalidRequest
      else operation_valid parse (areq_operation r))"

subsection \<open>Leases\<close>

record LeaseManager =
  lm_leases :: "(LeaseId, Lease) BTreeMap"
  lm_interrupted :: "(string, u64) BTreeMap"

definition LeaseManager_default :: LeaseManager where
  "LeaseManager_default = \<lparr>lm_leases = [], lm_interrupted = []\<rparr>"

definition LeaseManager_expire :: "u64 \<Rightarrow> LeaseManager \<Rightarrow> LeaseManager" where
  "LeaseManager_expire now m =
     m\<lparr>lm_leases := bt_retain (\<lambda>_ l. now < lease_expires_at_tick l) (lm_leases m)\<rparr>"

definition LeaseManager_acquire ::
    "LeaseId \<Rightarrow> string \<Rightarrow> LeaseScope \<Rightarrow> u64 \<Rightarrow> u64 \<Rightarrow> LeaseManager \<Rightarrow> (ProtocolError + Lease) \<times> LeaseManager" where
  "LeaseManager_acquire fresh owner scope ttl now m =
     (let m = LeaseManager_expire now m
      in if list_ex (\<lambda>l. lease_scope l = scope) (bt_values (lm_leases m)) then (Inl LeaseHeld, m)
         else (let l = \<lparr>lease_id = fresh, lease_owner = owner, lease_scope = scope,
                       lease_expires_at_tick = saturating_add now (max ttl 1)\<rparr>
               in (Inr l, m\<lparr>lm_leases := bt_insert (lease_id l) l (lm_leases m)\<rparr>)))"

definition LeaseManager_release :: "LeaseId \<Rightarrow> string \<Rightarrow> LeaseManager \<Rightarrow> (ProtocolError + unit) \<times> LeaseManager" where
  "LeaseManager_release i owner m =
     (case bt_get (lm_leases m) i of
        None \<Rightarrow> (Inl LeaseNotFound, m)
      | Some l \<Rightarrow> if lease_owner l \<noteq> owner then (Inl LeaseOwnerMismatch, m)
                 else (Inr (), m\<lparr>lm_leases := bt_remove i (lm_leases m)\<rparr>))"

definition LeaseManager_interrupt :: "string \<Rightarrow> u64 \<Rightarrow> LeaseManager \<Rightarrow> LeaseManager" where
  "LeaseManager_interrupt owner now m = m\<lparr>lm_interrupted := bt_insert owner now (lm_interrupted m)\<rparr>"

definition LeaseManager_is_interrupted :: "LeaseManager \<Rightarrow> string \<Rightarrow> bool" where
  "LeaseManager_is_interrupted m owner = bt_contains_key (lm_interrupted m) owner"

definition LeaseManager_active :: "u64 \<Rightarrow> LeaseManager \<Rightarrow> Lease list \<times> LeaseManager" where
  "LeaseManager_active now m = (let m = LeaseManager_expire now m in (bt_values (lm_leases m), m))"

subsection \<open>Queries\<close>

definition Query_default :: Query where
  "Query_default =
     \<lparr>q_role = None, q_semantic_role = None, q_application_type = None, q_name = None, q_name_contains = None,
      q_identity_key = None, q_origin = None, q_visible = None, q_enabled = None, q_focused = None,
      q_selected = None, q_geometry = None, q_relationship_kind = None, q_relationship_target = None\<rparr>"

definition Query_role :: "StructuralRole \<Rightarrow> Query" where
  "Query_role r = Query_default\<lparr>q_role := Some r\<rparr>"

text \<open>\<open>map_or(true, f)\<close>: an absent constraint holds.\<close>

definition wanted :: "'a option \<Rightarrow> ('a \<Rightarrow> bool) \<Rightarrow> bool" where
  "wanted c f = (case c of None \<Rightarrow> True | Some v \<Rightarrow> f v)"

definition geometry_matches :: "GeometryConstraint \<Rightarrow> Geometry \<Rightarrow> bool" where
  "geometry_matches c g =
     (wanted (gc_min_x c) (\<lambda>v. ieee_le v (geo_x g)) \<and> wanted (gc_max_x c) (\<lambda>v. ieee_le (geo_x g) v)
      \<and> wanted (gc_min_y c) (\<lambda>v. ieee_le v (geo_y g)) \<and> wanted (gc_max_y c) (\<lambda>v. ieee_le (geo_y g) v)
      \<and> wanted (gc_min_width c) (\<lambda>v. ieee_le v (geo_width g))
      \<and> wanted (gc_min_height c) (\<lambda>v. ieee_le v (geo_height g)))"

definition Query_matches :: "Query \<Rightarrow> AgentNode \<Rightarrow> bool" where
  "Query_matches q n =
     (wanted (q_role q) (\<lambda>r. r = an_structural_role n)
      \<and> wanted (q_semantic_role q) (\<lambda>r. an_semantic_role n = Some r)
      \<and> wanted (q_application_type q) (\<lambda>k. an_application_type n = Some k)
      \<and> wanted (q_name q) (\<lambda>name. case an_name n of None \<Rightarrow> False | Some actual \<Rightarrow> eq_ignore_ascii_case actual name)
      \<and> wanted (q_name_contains q) (\<lambda>needle. case an_name n of None \<Rightarrow> False
           | Some actual \<Rightarrow> str_contains (to_ascii_lowercase actual) (to_ascii_lowercase needle))
      \<and> wanted (q_identity_key q) (\<lambda>key. an_identity_key n = Some key)
      \<and> wanted (q_origin q) (\<lambda>origin. an_origin n = Some origin)
      \<and> wanted (q_visible q) (\<lambda>v. ns_visible (an_state n) = v)
      \<and> wanted (q_enabled q) (\<lambda>v. ns_enabled (an_state n) = v)
      \<and> wanted (q_focused q) (\<lambda>v. ns_focused (an_state n) = v)
      \<and> wanted (q_selected q) (\<lambda>v. ns_selected (an_state n) = v)
      \<and> wanted (q_geometry q) (\<lambda>c. case an_geometry n of None \<Rightarrow> False | Some g \<Rightarrow> geometry_matches c g)
      \<and> wanted (q_relationship_kind q) (\<lambda>kind. list_ex (\<lambda>r. rel_kind r = kind
           \<and> wanted (q_relationship_target q) (\<lambda>target. rel_target r = target)) (an_relationships n))
      \<and> wanted (q_relationship_target q) (\<lambda>target. list_ex (\<lambda>r. rel_target r = target) (an_relationships n)))"

record QueryResult =
  qr_node_id :: AgentNodeId
  qr_name :: "string option"
  qr_role :: StructuralRole
  qr_semantic_role :: "SemanticRole option"
  qr_value :: "AgentValue option"
  qr_confidence :: Confidence
  qr_provenance :: "ProvenanceSource list"
  qr_geometry :: "Geometry option"
  qr_origin :: "string option"

record QueryShape =
  qs_max_results :: "nat option"
  qs_max_tokens :: "nat option"
  qs_include_value :: bool
  qs_include_provenance :: bool
  qs_include_geometry :: bool

record QueryPage =
  qp_results :: "QueryResult list"
  qp_cursor :: nat
  qp_limit :: nat
  qp_offset :: nat
  qp_next_offset :: "nat option"
  qp_truncated :: bool
  qp_next_cursor :: "string option"
  qp_total :: nat

datatype QueryResolutionError = QueryNotFound | QueryAmbiguous nat | QueryStaleReference u64 u64

datatype AgentResult = Accepted | QueryAnswer "QueryResult list" | LeaseAnswer Lease

record AgentResponse =
  aresp_protocol_version :: u16
  aresp_request_id :: uuid
  aresp_result :: "ProtocolError + AgentResult"

record Explanation =
  xp_node_id :: AgentNodeId
  xp_name :: "string option"
  xp_role :: StructuralRole
  xp_semantic_role :: "SemanticRole option"
  xp_confidence :: Confidence
  xp_provenance :: "ProvenanceSource list"
  xp_actions :: "ActionDescriptor list"

definition QueryResult_from :: "AgentNode \<Rightarrow> QueryResult" where
  "QueryResult_from n =
     \<lparr>qr_node_id = an_id n, qr_name = an_name n, qr_role = an_structural_role n, qr_semantic_role = an_semantic_role n,
      qr_value = an_value n, qr_confidence = an_confidence n, qr_provenance = an_provenance n,
      qr_geometry = an_geometry n, qr_origin = an_origin n\<rparr>"

definition PageQuery_render :: "AgentRenderTree \<Rightarrow> nat option \<Rightarrow> QueryResult list" where
  "PageQuery_render t max_nodes =
     map QueryResult_from (take (case max_nodes of None \<Rightarrow> usize_max | Some n \<Rightarrow> n) (art_nodes t))"

text \<open>The addition saturates, but never below the number of nodes, which are in memory.\<close>

definition page_of :: "AgentNode list \<Rightarrow> nat \<Rightarrow> nat \<Rightarrow> QueryPage" where
  "page_of matches offset limit =
     (let total = length matches;
          start = min offset total;
          stop = min (start + max limit 1) total
      in \<lparr>qp_results = map QueryResult_from (take (stop - start) (drop start matches)),
          qp_cursor = start, qp_limit = max limit 1, qp_offset = start,
          qp_next_offset = (if stop < total then Some stop else None),
          qp_truncated = (stop < total),
          qp_next_cursor = (if stop < total then Some (decimal stop) else None),
          qp_total = total\<rparr>)"

definition PageQuery_render_page :: "AgentRenderTree \<Rightarrow> nat \<Rightarrow> nat \<Rightarrow> QueryPage" where
  "PageQuery_render_page t offset limit = page_of (art_nodes t) offset limit"

definition query_hits :: "AgentRenderTree \<Rightarrow> Query \<Rightarrow> AgentNode list" where
  "query_hits t q = filter (Query_matches q) (art_nodes t)"

definition PageQuery_query :: "AgentRenderTree \<Rightarrow> Query \<Rightarrow> QueryResult list" where
  "PageQuery_query t q = map QueryResult_from (query_hits t q)"

definition PageQuery_search :: "AgentRenderTree \<Rightarrow> string \<Rightarrow> QueryResult list" where
  "PageQuery_search t needle = PageQuery_query t (Query_default\<lparr>q_name_contains := Some needle\<rparr>)"

definition PageQuery_query_page :: "AgentRenderTree \<Rightarrow> Query \<Rightarrow> nat \<Rightarrow> nat \<Rightarrow> QueryPage" where
  "PageQuery_query_page t q offset limit = page_of (query_hits t q) offset limit"

text \<open>The result of a node under a shape, and the estimate of its tokens.\<close>

definition shaped :: "QueryShape \<Rightarrow> AgentNode \<Rightarrow> QueryResult" where
  "shaped shape n =
     (let r = QueryResult_from n;
          r = (if qs_include_value shape then r else r\<lparr>qr_value := None\<rparr>);
          r = (if qs_include_provenance shape then r else r\<lparr>qr_provenance := []\<rparr>)
      in if qs_include_geometry shape then r else r\<lparr>qr_geometry := None\<rparr>)"

definition estimated_tokens :: "(QueryResult \<Rightarrow> nat option) \<Rightarrow> QueryResult \<Rightarrow> nat" where
  "estimated_tokens json_length r =
     (case json_length r of None \<Rightarrow> usize_max | Some n \<Rightarrow> min (n + 3) usize_max div 4)"

text \<open>The sum compared with the limit wraps, the sum carried on saturates.\<close>

fun shape_loop ::
    "(QueryResult \<Rightarrow> nat option) \<Rightarrow> QueryShape \<Rightarrow> nat \<Rightarrow> QueryResult list \<Rightarrow> AgentNode list \<Rightarrow> QueryResult list" where
  "shape_loop json_length shape used results [] = results"
| "shape_loop json_length shape used results (n # ns) =
     (if (case qs_max_results shape of None \<Rightarrow> False | Some limit \<Rightarrow> limit \<le> length results) then results
      else (let r = shaped shape n; est = estimated_tokens json_length r
            in if (case qs_max_tokens shape of None \<Rightarrow> False
                   | Some limit \<Rightarrow> results \<noteq> [] \<and> limit < (used + est) mod (usize_max + 1)) then results
               else shape_loop json_length shape (min (used + est) usize_max) (results @ [r]) ns))"

definition PageQuery_query_shaped ::
    "(QueryResult \<Rightarrow> nat option) \<Rightarrow> AgentRenderTree \<Rightarrow> Query \<Rightarrow> QueryShape \<Rightarrow> QueryResult list" where
  "PageQuery_query_shaped json_length t q shape = shape_loop json_length shape 0 [] (query_hits t q)"

definition PageQuery_get :: "AgentRenderTree \<Rightarrow> string \<Rightarrow> QueryResult option" where
  "PageQuery_get t i = map_option QueryResult_from (AgentRenderTree_find t i)"

definition PageQuery_find :: "AgentRenderTree \<Rightarrow> Query \<Rightarrow> QueryResult option" where
  "PageQuery_find t q = map_option QueryResult_from (find (Query_matches q) (art_nodes t))"

definition PageQuery_resolve :: "AgentRenderTree \<Rightarrow> Query \<Rightarrow> QueryResolutionError + QueryResult" where
  "PageQuery_resolve t q =
     (case query_hits t q of
        [] \<Rightarrow> Inl QueryNotFound
      | [n] \<Rightarrow> Inr (QueryResult_from n)
      | ns \<Rightarrow> Inl (QueryAmbiguous (length ns)))"

definition PageQuery_resolve_at_generation ::
    "AgentRenderTree \<Rightarrow> Query \<Rightarrow> u64 \<Rightarrow> QueryResolutionError + QueryResult" where
  "PageQuery_resolve_at_generation t q expected =
     (if art_generation t \<noteq> expected then Inl (QueryStaleReference expected (art_generation t))
      else PageQuery_resolve t q)"

definition PageQuery_actions :: "AgentRenderTree \<Rightarrow> string \<Rightarrow> ActionDescriptor list option" where
  "PageQuery_actions t i = map_option an_actions (AgentRenderTree_find t i)"

definition PageQuery_explain :: "AgentRenderTree \<Rightarrow> string \<Rightarrow> Explanation option" where
  "PageQuery_explain t i = map_option (\<lambda>n.
     \<lparr>xp_node_id = an_id n, xp_name = an_name n, xp_role = an_structural_role n, xp_semantic_role = an_semantic_role n,
      xp_confidence = an_confidence n, xp_provenance = an_provenance n, xp_actions = an_actions n\<rparr>)
     (AgentRenderTree_find t i)"

subsection \<open>A lease is exclusive\<close>

datatype LeaseOp =
    LAcquire LeaseId string LeaseScope u64 u64
  | LRelease LeaseId string
  | LInterrupt string u64
  | LActive u64

fun lease_apply :: "LeaseOp \<Rightarrow> LeaseManager \<Rightarrow> LeaseManager" where
  "lease_apply (LAcquire fresh owner scope ttl now) m = snd (LeaseManager_acquire fresh owner scope ttl now m)"
| "lease_apply (LRelease i owner) m = snd (LeaseManager_release i owner m)"
| "lease_apply (LInterrupt owner now) m = LeaseManager_interrupt owner now m"
| "lease_apply (LActive now) m = snd (LeaseManager_active now m)"

definition leases_ok :: "LeaseManager \<Rightarrow> bool" where
  "leases_ok m =
     (bt_ok (lm_leases m) \<and> (\<forall>i l. bt_get (lm_leases m) i = Some l \<longrightarrow> lease_id l = i)
      \<and> (\<forall>i j l k. bt_get (lm_leases m) i = Some l \<longrightarrow> bt_get (lm_leases m) j = Some k \<longrightarrow>
           lease_scope l = lease_scope k \<longrightarrow> i = j))"

lemma leases_okD:
  assumes "leases_ok m"
  shows "bt_ok (lm_leases m)" "bt_get (lm_leases m) i = Some l \<Longrightarrow> lease_id l = i"
    "bt_get (lm_leases m) i = Some l \<Longrightarrow> bt_get (lm_leases m) j = Some k \<Longrightarrow> lease_scope l = lease_scope k \<Longrightarrow> i = j"
  using assms unfolding leases_ok_def by blast+

lemma leases_ok_subset:
  assumes m: "leases_ok m" and "bt_ok (lm_leases m')"
    and sub: "\<And>i l. bt_get (lm_leases m') i = Some l \<Longrightarrow> bt_get (lm_leases m) i = Some l"
  shows "leases_ok m'"
  using assms(2) leases_okD(2,3) [OF m] sub unfolding leases_ok_def by blast

lemma get_expired:
  "bt_ok (lm_leases m) \<Longrightarrow> bt_get (lm_leases (LeaseManager_expire now m)) i =
     (case bt_get (lm_leases m) i of None \<Rightarrow> None | Some l \<Rightarrow> if now < lease_expires_at_tick l then Some l else None)"
  by (simp add: LeaseManager_expire_def bt_get_retain)

lemma expire_ok: "leases_ok m \<Longrightarrow> leases_ok (LeaseManager_expire now m)"
proof -
  assume m: "leases_ok m"
  then have "bt_ok (lm_leases (LeaseManager_expire now m))" by (simp add: LeaseManager_expire_def leases_okD(1))
  with m show ?thesis by (rule leases_ok_subset) (simp add: get_expired leases_okD(1) [OF m] split: option.splits if_splits)
qed

lemma scope_taken_iff:
  assumes "leases_ok m"
  shows "list_ex (\<lambda>l. lease_scope l = scope) (bt_values (lm_leases (LeaseManager_expire now m))) \<longleftrightarrow>
    (\<exists>i l. bt_get (lm_leases m) i = Some l \<and> lease_scope l = scope \<and> now < lease_expires_at_tick l)"
proof -
  have "list_ex (\<lambda>l. lease_scope l = scope) (bt_values (lm_leases (LeaseManager_expire now m))) \<longleftrightarrow>
    (\<exists>i l. bt_get (lm_leases (LeaseManager_expire now m)) i = Some l \<and> lease_scope l = scope)"
    unfolding list_ex_iff by (rule bt_ex_value [OF leases_okD(1) [OF expire_ok [OF assms]]])
  also have "\<dots> \<longleftrightarrow> (\<exists>i l. bt_get (lm_leases m) i = Some l \<and> lease_scope l = scope \<and> now < lease_expires_at_tick l)"
    unfolding get_expired [OF leases_okD(1) [OF assms]] by (auto split: option.splits if_splits)
  finally show ?thesis .
qed

lemma acquire_ok: "leases_ok m \<Longrightarrow> leases_ok (snd (LeaseManager_acquire fresh owner scope ttl now m))"
proof -
  assume m: "leases_ok m"
  let ?e = "LeaseManager_expire now m"
  have e: "leases_ok ?e" by (rule expire_ok [OF m])
  show ?thesis
  proof (cases "list_ex (\<lambda>l. lease_scope l = scope) (bt_values (lm_leases ?e))")
    case False
    then have "\<And>i l. bt_get (lm_leases ?e) i = Some l \<Longrightarrow> lease_scope l \<noteq> scope"
      using bt_ex_value [OF leases_okD(1) [OF e], of "\<lambda>l. lease_scope l = scope"] by (auto simp: list_ex_iff)
    then show ?thesis using e False unfolding leases_ok_def LeaseManager_acquire_def Let_def by auto
  qed (simp add: LeaseManager_acquire_def Let_def e)
qed

lemma interrupt_ok: "leases_ok m \<Longrightarrow> leases_ok (LeaseManager_interrupt owner now m)"
  by (simp add: LeaseManager_interrupt_def leases_ok_def)

lemma lease_apply_ok: "leases_ok m \<Longrightarrow> leases_ok (lease_apply x m)"
proof (cases x)
  case (LRelease i owner)
  assume m: "leases_ok m"
  then show ?thesis
    using LRelease
    by (auto simp: LeaseManager_release_def leases_okD(1) split: option.split if_splits intro!: leases_ok_subset [OF m])
qed (auto simp: acquire_ok LeaseManager_active_def Let_def expire_ok interrupt_ok)

interpretation lease_runs: kept_invariant "\<lambda>m m'. \<exists>x. m' = lease_apply x m" leases_ok
  by unfold_locales (auto intro: lease_apply_ok)

lemma leases_reached: "leases_ok m \<Longrightarrow> leases_ok (fold lease_apply xs m)"
  by (induction xs arbitrary: m) (auto intro: lease_apply_ok)

lemma leases_ok_default: "leases_ok LeaseManager_default"
  by (simp add: leases_ok_def LeaseManager_default_def)

text \<open>What may happen while a lease is held: anything but its own release and the passing of its time.\<close>

fun leaves_lease :: "Lease \<Rightarrow> LeaseOp \<Rightarrow> bool" where
  "leaves_lease l (LAcquire fresh owner scope ttl now) = (now < lease_expires_at_tick l \<and> fresh \<noteq> lease_id l)"
| "leaves_lease l (LRelease i owner) = (i \<noteq> lease_id l \<or> owner \<noteq> lease_owner l)"
| "leaves_lease l (LInterrupt owner now) = True"
| "leaves_lease l (LActive now) = (now < lease_expires_at_tick l)"

lemma lease_stays:
  assumes m: "leases_ok m" and l: "bt_get (lm_leases m) (lease_id l) = Some l" and x: "leaves_lease l x"
  shows "bt_get (lm_leases (lease_apply x m)) (lease_id l) = Some l"
  using x
proof (cases x)
  case (LAcquire fresh owner scope ttl now)
  then have "bt_get (lm_leases (LeaseManager_expire now m)) (lease_id l) = Some l"
    using l x by (simp add: get_expired leases_okD(1) [OF m])
  then show ?thesis using LAcquire x by (auto simp: LeaseManager_acquire_def Let_def)
next
  case (LRelease i owner)
  then show ?thesis using l x by (auto simp: LeaseManager_release_def split: option.split)
qed (use l x in \<open>auto simp: LeaseManager_interrupt_def LeaseManager_active_def Let_def get_expired leases_okD(1) [OF m]\<close>)

lemma lease_stays_run:
  "leases_ok m \<Longrightarrow> bt_get (lm_leases m) (lease_id l) = Some l \<Longrightarrow> list_all (leaves_lease l) xs \<Longrightarrow>
   bt_get (lm_leases (fold lease_apply xs m)) (lease_id l) = Some l"
  by (induction xs arbitrary: m) (auto intro: lease_apply_ok lease_stays)

lemma acquire_answers:
  assumes "leases_ok m"
  shows "fst (LeaseManager_acquire fresh owner scope ttl now m) =
    (if \<exists>i l. bt_get (lm_leases m) i = Some l \<and> lease_scope l = scope \<and> now < lease_expires_at_tick l
     then Inl LeaseHeld
     else Inr \<lparr>lease_id = fresh, lease_owner = owner, lease_scope = scope,
               lease_expires_at_tick = saturating_add now (max ttl 1)\<rparr>)"
  unfolding LeaseManager_acquire_def Let_def scope_taken_iff [OF assms] by (simp only: if_distrib [of fst] fst_conv)

text \<open>
  C30: once a lease is granted, and until its owner releases it or its time has come, it stays in the manager
  whatever other requests, releases and interrupts arrive; no other lease on the same page or workspace exists
  beside it, and every further request for it is refused.
\<close>

theorem leases_are_exclusive:
  assumes "LeaseManager_acquire fresh owner scope ttl now (fold lease_apply xs LeaseManager_default) = (Inr l, m)"
    and "list_all (leaves_lease l) ys" and "later < lease_expires_at_tick l"
  shows "bt_get (lm_leases (fold lease_apply ys m)) (lease_id l) = Some l
    \<and> (\<forall>j k. bt_get (lm_leases (fold lease_apply ys m)) j = Some k \<longrightarrow> lease_scope k = scope \<longrightarrow> k = l)
    \<and> fst (LeaseManager_acquire i other scope ttl' later (fold lease_apply ys m)) = Inl LeaseHeld"
proof -
  let ?b = "fold lease_apply xs LeaseManager_default"
  have b: "leases_ok ?b" by (rule leases_reached [OF leases_ok_default])
  have m: "leases_ok m" using acquire_ok [OF b, of fresh owner scope ttl now] assms(1) by simp
  have l: "lease_scope l = scope" "bt_get (lm_leases m) (lease_id l) = Some l"
    using assms(1) by (auto simp: LeaseManager_acquire_def Let_def split: if_splits)
  let ?e = "fold lease_apply ys m"
  have e: "leases_ok ?e" by (rule leases_reached [OF m])
  have held: "bt_get (lm_leases ?e) (lease_id l) = Some l" by (rule lease_stays_run [OF m l(2) assms(2)])
  moreover have "k = l" if "bt_get (lm_leases ?e) j = Some k" "lease_scope k = scope" for j k
    using leases_okD(3) [OF e that(1) held] that l(1) held by simp
  moreover have "fst (LeaseManager_acquire i other scope ttl' later ?e) = Inl LeaseHeld"
    using held l(1) assms(3) by (auto simp: acquire_answers [OF e])
  ultimately show ?thesis by blast
qed

theorem leases_are_exclusive_witness:
  "\<exists>l m. LeaseManager_acquire 7 ''a'' (PageLease ''p'') 5 10 LeaseManager_default = (Inr l, m)
     \<and> fst (LeaseManager_acquire 8 ''b'' (PageLease ''p'') 5 14 (lease_apply (LRelease 7 ''b'') m)) = Inl LeaseHeld"
proof -
  let ?l = "\<lparr>lease_id = 7, lease_owner = ''a'', lease_scope = PageLease ''p'', lease_expires_at_tick = 15\<rparr>"
  have "saturating_add 10 5 = (15 :: u64)" "max 5 1 = (5 :: u64)"
    by (simp_all add: saturating_add_def max_def word_le_nat_alt)
  then have a: "LeaseManager_acquire 7 ''a'' (PageLease ''p'') 5 10 (fold lease_apply [] LeaseManager_default) =
     (Inr ?l, LeaseManager_default\<lparr>lm_leases := bt_insert 7 ?l []\<rparr>)"
    by (simp add: LeaseManager_acquire_def LeaseManager_default_def LeaseManager_expire_def bt_retain_def Let_def)
  from leases_are_exclusive [OF a, of "[LRelease 7 ''b'']" 14 8 "''b''" 5] a show ?thesis by simp
qed

text \<open>An interrupt is recorded, and neither cleared nor consulted when a lease is asked for.\<close>

lemma interrupts_are_forever:
  "LeaseManager_is_interrupted m a \<Longrightarrow> LeaseManager_is_interrupted (lease_apply x m) a"
  by (cases x) (auto simp: LeaseManager_is_interrupted_def LeaseManager_interrupt_def LeaseManager_active_def
      LeaseManager_acquire_def LeaseManager_release_def LeaseManager_expire_def bt_contains_key_def Let_def split: option.split)

subsection \<open>Pages cover the answer\<close>

lemma page_next:
  "qp_next_offset (page_of ns offset limit) = Some n \<Longrightarrow> offset < n \<and> n < length ns"
  by (auto simp: page_of_def Let_def split: if_splits)

text \<open>A client that follows the offsets.\<close>

function read_query_pages :: "AgentRenderTree \<Rightarrow> Query \<Rightarrow> nat \<Rightarrow> nat \<Rightarrow> QueryResult list" where
  "read_query_pages t q limit offset =
     (let page = PageQuery_query_page t q offset limit
      in qp_results page @
         (case qp_next_offset page of None \<Rightarrow> [] | Some n \<Rightarrow> read_query_pages t q limit n))"
  by pat_completeness auto
termination
  by (relation "measure (\<lambda>(t, q, limit, offset). length (query_hits t q) - offset)")
     (auto simp: PageQuery_query_page_def dest!: page_next)

declare read_query_pages.simps [simp del]

lemma page_results:
  "offset \<le> length ns \<Longrightarrow>
   qp_results (page_of ns offset limit) = map QueryResult_from (take (max limit 1) (drop offset ns))
   \<and> qp_next_offset (page_of ns offset limit) = (if offset + max limit 1 < length ns then Some (offset + max limit 1) else None)"
  by (auto simp: page_of_def Let_def min_def)

lemma pages_from_offset:
  "offset \<le> length (query_hits t q) \<Longrightarrow>
   read_query_pages t q limit offset = map QueryResult_from (drop offset (query_hits t q))"
proof (induction t q limit offset rule: read_query_pages.induct)
  case (1 t q limit offset)
  let ?ns = "query_hits t q" and ?k = "max limit 1"
  have page: "qp_results (PageQuery_query_page t q offset limit) = map QueryResult_from (take ?k (drop offset ?ns))"
    "qp_next_offset (PageQuery_query_page t q offset limit) = (if offset + ?k < length ?ns then Some (offset + ?k) else None)"
    using page_results [OF "1.prems", of limit] by (simp_all add: PageQuery_query_page_def)
  show ?case
  proof (cases "offset + ?k < length ?ns")
    case True
    then have "read_query_pages t q limit (offset + ?k) = map QueryResult_from (drop (offset + ?k) ?ns)"
      using "1.IH" [OF refl, of "offset + ?k"] page(2) by simp
    then have "read_query_pages t q limit offset
        = map QueryResult_from (take ?k (drop offset ?ns) @ drop ?k (drop offset ?ns))"
      using True by (subst read_query_pages.simps) (simp add: Let_def page add.commute del: append_take_drop_id)
    then show ?thesis by (simp only: append_take_drop_id)
  next
    case False
    then show ?thesis by (subst read_query_pages.simps) (simp add: Let_def page)
  qed
qed

text \<open>
  A client that follows the offsets of a query from the first page ends, and has then read the answer of the
  query: every matching node once, in the order of the tree, for every limit.
\<close>

theorem query_pages_cover_the_answer:
  "read_query_pages t q limit 0 = PageQuery_query t q"
  by (simp add: pages_from_offset PageQuery_query_def)

subsection \<open>Shaped answers\<close>

abbreviation tokens_of :: "(QueryResult \<Rightarrow> nat option) \<Rightarrow> QueryResult list \<Rightarrow> nat" where
  "tokens_of jl rs \<equiv> sum_list (map (estimated_tokens jl) rs)"

lemma estimate_bound: "jl r \<noteq> None \<Longrightarrow> estimated_tokens jl r < 2 ^ 62"
  by (auto simp: estimated_tokens_def usize_max_def)

lemma shape_loop_prefix:
  assumes jl: "\<And>r. jl r \<noteq> None" and limit: "qs_max_tokens shape = Some limit" "limit < 2 ^ 63"
    and "used = tokens_of jl rs" and "length rs \<le> 1 \<or> used \<le> limit"
  shows "\<exists>k \<le> length ns. shape_loop jl shape used rs ns = rs @ map (shaped shape) (take k ns)
    \<and> (k = 0 \<or> wanted (qs_max_results shape) (\<lambda>n. length rs + k \<le> n))
    \<and> (length rs + k \<le> 1 \<or> used + tokens_of jl (map (shaped shape) (take k ns)) \<le> limit)
    \<and> (k = length ns \<or> \<not> wanted (qs_max_results shape) (\<lambda>n. length rs + k < n)
       \<or> limit < used + tokens_of jl (map (shaped shape) (take k ns)) + estimated_tokens jl (shaped shape (ns ! k)))"
  using assms(4,5)
proof (induction ns arbitrary: used rs)
  case (Cons n ns)
  let ?r = "shaped shape n" let ?est = "estimated_tokens jl ?r"
  have "used < 2 ^ 63"
  proof (cases "length rs \<le> 1")
    case True
    then consider "rs = []" | r where "rs = [r]" by (cases rs) auto
    then have "used < 2 ^ 62"
    proof cases
      case 2
      then show ?thesis using Cons.prems(1) estimate_bound [of jl r] jl by simp
    qed (use Cons.prems(1) in simp)
    then show ?thesis by simp
  qed (use Cons.prems(2) limit(2) in simp)
  moreover have "?est < 2 ^ 62" by (rule estimate_bound [OF jl])
  ultimately have small: "used + ?est < usize_max + 1" by (simp add: usize_max_def)
  show ?case
  proof (cases "wanted (qs_max_results shape) (\<lambda>n. length rs < n) \<and> (rs = [] \<or> used + ?est \<le> limit)")
    case False
    then have "shape_loop jl shape used rs (n # ns) = rs"
      using small limit(1) by (auto simp: Let_def wanted_def split: option.splits)
    then show ?thesis using False Cons.prems(2) by (intro exI [of _ 0]) (auto simp: wanted_def split: option.splits)
  next
    case True
    then have step: "shape_loop jl shape used rs (n # ns) = shape_loop jl shape (used + ?est) (rs @ [?r]) ns"
      using small limit(1) by (auto simp: Let_def wanted_def split: option.splits)
    from Cons.IH [of "used + ?est" "rs @ [?r]"] True Cons.prems(1) obtain k where k: "k \<le> length ns"
      "shape_loop jl shape (used + ?est) (rs @ [?r]) ns = (rs @ [?r]) @ map (shaped shape) (take k ns)"
      "k = 0 \<or> wanted (qs_max_results shape) (\<lambda>n. length rs + 1 + k \<le> n)"
      "length rs + 1 + k \<le> 1 \<or> used + ?est + tokens_of jl (map (shaped shape) (take k ns)) \<le> limit"
      "k = length ns \<or> \<not> wanted (qs_max_results shape) (\<lambda>n. length rs + 1 + k < n)
       \<or> limit < used + ?est + tokens_of jl (map (shaped shape) (take k ns)) + estimated_tokens jl (shaped shape (ns ! k))"
      by auto
    show ?thesis
    proof (intro exI [of _ "Suc k"] conjI)
      show "shape_loop jl shape used rs (n # ns) = rs @ map (shaped shape) (take (Suc k) (n # ns))"
        unfolding step k(2) by simp
      show "Suc k = 0 \<or> wanted (qs_max_results shape) (\<lambda>n. length rs + Suc k \<le> n)"
        using k(3) True by (auto simp: wanted_def split: option.splits)
    qed (use k(1,4,5) in \<open>simp_all add: add.assoc\<close>)
  qed
qed simp



lemma resolve_iff_unique:
  "PageQuery_resolve t q = Inr r \<longleftrightarrow> (\<exists>n. query_hits t q = [n] \<and> r = QueryResult_from n)"
  by (auto simp: PageQuery_resolve_def split: list.splits)

end
