(* ===== verification/Input.thy ===== *)
theory Input
  imports AuditLog
begin

unbundle bit_operations_syntax

section \<open>Input events and humanised pointer paths\<close>

text \<open>
  The crate \<open>crates/input\<close>: the actions of an agent, the native input events they become, and the pointer
  path along a perturbed curve. The kinds of actions are in \<open>AuditLog\<close>, which names them too.

  Two functions are arguments: the bits of a number (\<open>to_bits\<close>, which tells the two zeros and the kinds of
  \<open>NaN\<close> apart) and the cube (\<open>powi(3)\<close>, whose precision the language leaves open).
\<close>

record AgentAction =
  act_id :: string
  act_target :: AgentNodeId
  act_action_type :: ActionType
  act_parameters :: Json

datatype NativeInputEvent =
    PointerMove f64 f64
  | PointerDown u8
  | PointerUp u8
  | KeyDown string
  | KeyUp string
  | TextInput string
  | ScrollBy f64 f64

record MouseTrajectoryOptions =
  mt_duration_millis :: u64
  mt_steps :: nat
  mt_curve_amplitude :: f64
  mt_overshoot_pixels :: f64
  mt_jitter_pixels :: f64
  mt_pre_click_pause_millis :: u64

text \<open>A literal of the source is the number of the format nearest to it.\<close>

abbreviation lit :: "rat \<Rightarrow> f64" where
  "lit \<equiv> f64_round"

definition MouseTrajectoryOptions_default :: MouseTrajectoryOptions where
  "MouseTrajectoryOptions_default =
     \<lparr>mt_duration_millis = 600, mt_steps = 32, mt_curve_amplitude = lit (18 / 100), mt_overshoot_pixels = lit 4,
      mt_jitter_pixels = lit (6 / 10), mt_pre_click_pause_millis = 80\<rparr>"

type_synonym HumanMouseTrajectory = "NativeInputEvent list"
type_synonym point = "f64 \<times> f64"

subsection \<open>The generator of random numbers\<close>

type_synonym SplitMix64 = u64

definition SplitMix64_new :: "u64 \<Rightarrow> SplitMix64" where
  "SplitMix64_new seed = seed"

definition SplitMix64_next_u64 :: "SplitMix64 \<Rightarrow> u64 \<times> SplitMix64" where
  "SplitMix64_next_u64 s =
     (let s = s + 0x9E3779B97F4A7C15;
          z = s;
          z = (z XOR drop_bit 30 z) * 0xBF58476D1CE4E5B9;
          z = (z XOR drop_bit 27 z) * 0x94D049BB133111EB
      in (z XOR drop_bit 31 z, s))"

definition SplitMix64_next_unit :: "SplitMix64 \<Rightarrow> f64 \<times> SplitMix64" where
  "SplitMix64_next_unit s =
     (case SplitMix64_next_u64 s of (v, s) \<Rightarrow>
        (f64_div (f64_of_nat (unat (drop_bit 11 v))) (f64_of_nat (2 ^ 53)), s))"

definition SplitMix64_next_symmetric :: "SplitMix64 \<Rightarrow> f64 \<times> SplitMix64" where
  "SplitMix64_next_symmetric s =
     (case SplitMix64_next_unit s of (u, s) \<Rightarrow> (f64_sub (f64_mul u (lit 2)) (lit 1), s))"

subsection \<open>The curve\<close>

definition bezier_mix :: "f64 \<Rightarrow> f64 \<Rightarrow> f64 \<Rightarrow> f64 \<Rightarrow> f64 \<Rightarrow> f64 \<Rightarrow> f64 \<Rightarrow> f64 \<Rightarrow> f64" where
  "bezier_mix a b c d x0 x1 x2 x3 =
     f64_add (f64_add (f64_add (f64_mul a x0) (f64_mul b x1)) (f64_mul c x2)) (f64_mul d x3)"

definition bezier_point :: "point \<Rightarrow> point \<Rightarrow> point \<Rightarrow> point \<Rightarrow> f64 \<Rightarrow> point" where
  "bezier_point p0 p1 p2 p3 t =
     (let u = f64_sub (lit 1) t;
          a = f64_mul (f64_mul u u) u;
          b = f64_mul (f64_mul (f64_mul (lit 3) u) u) t;
          c = f64_mul (f64_mul (f64_mul (lit 3) u) t) t;
          d = f64_mul (f64_mul t t) t
      in (bezier_mix a b c d (fst p0) (fst p1) (fst p2) (fst p3),
          bezier_mix a b c d (snd p0) (snd p1) (snd p2) (snd p3)))"

definition ease_human :: "(f64 \<Rightarrow> f64) \<Rightarrow> f64 \<Rightarrow> f64" where
  "ease_human cube t =
     (let clamped = ieee_clamp (lit 0) (lit 1) t;
          ease_out = f64_sub (lit 1) (cube (f64_sub (lit 1) clamped));
          ease_in = f64_mul clamped clamped
      in f64_add (f64_mul (lit (1 / 2)) ease_in) (f64_mul (lit (1 / 2)) ease_out))"

definition perpendicular_offset :: "point \<Rightarrow> point \<Rightarrow> f64 \<Rightarrow> point" where
  "perpendicular_offset start stop amount =
     (let dx = f64_sub (fst stop) (fst start);
          dy = f64_sub (snd stop) (snd start);
          len = ieee_max (f64_sqrt (f64_add (f64_mul dx dx) (f64_mul dy dy))) (lit 1)
      in (f64_mul (f64_div (f64_neg dy) len) amount, f64_mul (f64_div dx len) amount))"

definition trajectory_seed :: "(f64 \<Rightarrow> u64) \<Rightarrow> point \<Rightarrow> point \<Rightarrow> u64" where
  "trajectory_seed bits start stop =
     ((bits (fst start) * 0x9E3779B97F4A7C15 + bits (snd start) + bits (fst stop)) * 0xBF58476D1CE4E5B9
      + bits (snd stop))"

text \<open>The factor \<open>distance * amp * (0.6 + unit * 0.4)\<close> of a control point.\<close>

definition bend :: "f64 \<Rightarrow> f64 \<Rightarrow> SplitMix64 \<Rightarrow> f64 \<times> SplitMix64" where
  "bend distance amp rng =
     (case SplitMix64_next_unit rng of (u, rng) \<Rightarrow>
        (f64_mul (f64_mul distance amp) (f64_add (lit (6 / 10)) (f64_mul u (lit (4 / 10)))), rng))"

definition control_points :: "point \<Rightarrow> point \<Rightarrow> f64 \<Rightarrow> SplitMix64 \<Rightarrow> point \<times> point \<times> SplitMix64" where
  "control_points start stop curve_amplitude rng =
     (let dx = f64_sub (fst stop) (fst start);
          dy = f64_sub (snd stop) (snd start);
          distance = f64_sqrt (f64_add (f64_mul dx dx) (f64_mul dy dy));
          amp = ieee_clamp (lit 0) (lit 1) curve_amplitude
      in case bend distance amp rng of (b1, rng) \<Rightarrow> case bend distance amp rng of (b2, rng) \<Rightarrow>
         let offset1 = perpendicular_offset start stop b1;
             offset2 = perpendicular_offset start stop (f64_neg b2)
         in ((f64_add (f64_add (fst start) (f64_mul dx (lit (1 / 4)))) (fst offset1),
              f64_add (f64_add (snd start) (f64_mul dy (lit (1 / 4)))) (snd offset1)),
             (f64_add (f64_add (fst start) (f64_mul dx (lit (3 / 4)))) (fst offset2),
              f64_add (f64_add (snd start) (f64_mul dy (lit (3 / 4)))) (snd offset2)),
             rng))"

text \<open>A product of several factors, from the left.\<close>

abbreviation mul4 :: "f64 \<Rightarrow> f64 \<Rightarrow> f64 \<Rightarrow> f64 \<Rightarrow> f64" where
  "mul4 a b c d \<equiv> f64_mul (f64_mul (f64_mul a b) c) d"

definition overshoot_goal :: "point \<Rightarrow> point \<Rightarrow> f64 \<Rightarrow> SplitMix64 \<Rightarrow> point \<times> SplitMix64" where
  "overshoot_goal start stop overshoot rng =
     (if ieee_less (lit 0) overshoot then
        let dx = f64_sub (fst stop) (fst start);
            dy = f64_sub (snd stop) (snd start);
            distance = f64_sqrt (f64_add (f64_mul dx dx) (f64_mul dy dy));
            len = ieee_max distance (lit 1);
            dir = (f64_div dx len, f64_div dy len);
            perp = (f64_neg (snd dir), fst dir)
        in case SplitMix64_next_symmetric rng of (sm, rng) \<Rightarrow>
           let side = (if ieee_le (lit 0) sm then lit 1 else lit (- 1))
           in case SplitMix64_next_unit rng of (u, rng) \<Rightarrow>
              let amount = f64_mul overshoot (f64_add (lit (6 / 10)) (f64_mul u (lit (8 / 10))))
              in ((f64_add (f64_add (fst stop) (f64_mul (f64_mul (fst dir) amount) (lit (4 / 10))))
                     (mul4 (fst perp) amount (lit (6 / 10)) side),
                   f64_add (f64_add (snd stop) (f64_mul (f64_mul (snd dir) amount) (lit (4 / 10))))
                     (mul4 (snd perp) amount (lit (6 / 10)) side)),
                  rng)
      else (stop, rng))"

text \<open>\<open>p + (q - p) * s\<close> in both coordinates.\<close>

definition blend_point :: "point \<Rightarrow> point \<Rightarrow> f64 \<Rightarrow> point" where
  "blend_point p q s =
     (f64_add (fst p) (f64_mul (f64_sub (fst q) (fst p)) s), f64_add (snd p) (f64_mul (f64_sub (snd q) (snd p)) s))"

definition curve_point ::
    "(f64 \<Rightarrow> f64) \<Rightarrow> point \<Rightarrow> point \<Rightarrow> point \<Rightarrow> point \<Rightarrow> point \<Rightarrow> f64 \<Rightarrow> nat \<Rightarrow> nat \<Rightarrow> point" where
  "curve_point cube p0 p1 p2 p3 goal overshoot steps i =
     (let linear = f64_div (f64_of_nat i) (f64_sub (f64_of_nat steps) (lit 1));
          eased = ease_human cube linear;
          p = bezier_point p0 p1 p2 p3 eased;
          p = (if ieee_less (lit 0) overshoot \<and> ieee_less (lit (78 / 100)) linear \<and> ieee_less linear (lit (95 / 100))
               then blend_point p goal
                      (ieee_clamp (lit 0) (lit 1) (f64_div (f64_sub linear (lit (78 / 100))) (lit (17 / 100))))
               else p)
      in if ieee_less (lit 0) overshoot \<and> ieee_le (lit (95 / 100)) linear
         then blend_point goal p3
                (ieee_clamp (lit 0) (lit 1) (f64_div (f64_sub linear (lit (95 / 100))) (lit (5 / 100))))
         else p)"

fun jittered :: "f64 \<Rightarrow> point list \<Rightarrow> SplitMix64 \<Rightarrow> NativeInputEvent list" where
  "jittered jitter [] rng = []"
| "jittered jitter ((x, y) # ps) rng =
     (if ieee_less (lit 0) jitter then
        case SplitMix64_next_symmetric rng of (jx, rng) \<Rightarrow> case SplitMix64_next_symmetric rng of (jy, rng) \<Rightarrow>
          PointerMove (f64_add x (f64_mul jx jitter)) (f64_add y (f64_mul jy jitter)) # jittered jitter ps rng
      else PointerMove x y # jittered jitter ps rng)"

definition generate_human_trajectory ::
    "(f64 \<Rightarrow> u64) \<Rightarrow> (f64 \<Rightarrow> f64) \<Rightarrow> point \<Rightarrow> point \<Rightarrow> MouseTrajectoryOptions \<Rightarrow> HumanMouseTrajectory" where
  "generate_human_trajectory bits cube start stop options =
     (let rng = SplitMix64_new (trajectory_seed bits start stop)
      in case control_points start stop (mt_curve_amplitude options) rng of (p1, p2, rng) \<Rightarrow>
         let steps = max (mt_steps options) 4;
             overshoot = ieee_max (mt_overshoot_pixels options) (lit 0);
             jitter = ieee_max (mt_jitter_pixels options) (lit 0)
         in case overshoot_goal start stop overshoot rng of (goal, rng) \<Rightarrow>
            jittered jitter (map (curve_point cube start p1 p2 stop goal overshoot steps) [0..<steps]) rng
              @ [PointerDown 0, PointerUp 0])"

subsection \<open>Facts\<close>

text \<open>The random units lie in \<open>[0, 1)\<close>, on a grid of \<open>2 ^ -53\<close>, and nothing is lost in the conversion.\<close>

lemma of_nat_round: "n < 2 ^ 53 \<Longrightarrow> f64_of_nat n = Finite (of_nat n)"
  using f64_round_int [of "int n"] by (simp add: f64_of_nat_def)

lemma lit_int: "\<bar>i\<bar> < 2 ^ 53 \<Longrightarrow> lit (of_int i) = Finite (of_int i)"
  by (rule f64_round_int)

lemma two_pow_53: "f64_of_nat (2 ^ 53) = Finite (2 ^ 53)"
  using f64_round_dyadic [of 1 53] by (simp add: f64_of_nat_def pow2_def)

lemma high_bits: "unat (drop_bit 11 (v :: u64)) < 2 ^ 53"
proof -
  have "unat v < 2 ^ 64" using unsigned_less [of v] by simp
  then show ?thesis by (simp add: drop_bit_eq_div unat_div less_mult_imp_div_less)
qed

lemma unit_round: "n < 2 ^ 53 \<Longrightarrow> f64_round (of_nat n / 2 ^ 53) = Finite (of_nat n / 2 ^ 53)"
  using f64_round_dyadic [of "int n" "- 53"] by (simp add: pow2_def)

lemma next_unit_exact:
  "fst (SplitMix64_next_unit s) = Finite (of_nat (unat (drop_bit 11 (fst (SplitMix64_next_u64 s)))) / 2 ^ 53)"
proof -
  obtain n where n: "n = unat (drop_bit 11 (fst (SplitMix64_next_u64 s)))" by blast
  then have "n < 2 ^ 53" using high_bits by simp
  then show ?thesis unfolding SplitMix64_next_unit_def split_def fst_conv n [symmetric]
    by (simp only: of_nat_round two_pow_53 f64_div.simps unit_round) simp
qed

lemma next_unit_in_range: "\<exists>q. fst (SplitMix64_next_unit s) = Finite q \<and> 0 \<le> q \<and> q < 1"
proof -
  obtain n where n: "n = unat (drop_bit 11 (fst (SplitMix64_next_u64 s)))" by blast
  then have "n < 2 ^ 53" using high_bits by simp
  then have "(of_nat n :: rat) < of_nat (2 ^ 53)" unfolding of_nat_less_iff .
  then show ?thesis unfolding next_unit_exact n [symmetric]
    by (intro exI [of _ "of_nat n / 2 ^ 53"]) (simp add: divide_less_eq)
qed

text \<open>Every path is a fixed number of moves, then the press and the release.\<close>

lemma jittered_moves: "\<exists>ms. jittered j ps rng = map (\<lambda>(x, y). PointerMove x y) ms \<and> length ms = length ps"
proof (induction j ps rng rule: jittered.induct)
  case (2 j x y ps rng)
  show ?case
  proof (cases "ieee_less (lit 0) j")
    case True
    obtain jx r jy r' where r: "SplitMix64_next_symmetric rng = (jx, r)" "SplitMix64_next_symmetric r = (jy, r')"
      by (metis surj_pair)
    from "2.IH"(1) [OF True r(1) [symmetric] r(2) [symmetric]] obtain ms
      where "jittered j ps r' = map (\<lambda>(x, y). PointerMove x y) ms" "length ms = length ps" by auto
    then show ?thesis using True r
      by (intro exI [of _ "(f64_add x (f64_mul jx j), f64_add y (f64_mul jy j)) # ms"]) simp
  next
    case False
    from "2.IH"(2) [OF False] obtain ms
      where "jittered j ps rng = map (\<lambda>(x, y). PointerMove x y) ms" "length ms = length ps" by auto
    then show ?thesis using False by (intro exI [of _ "(x, y) # ms"]) simp
  qed
qed simp

lemma trajectory_moves_then_clicks:
  "\<exists>ms. generate_human_trajectory bits cube start stop options =
     map (\<lambda>(x, y). PointerMove x y) ms @ [PointerDown 0, PointerUp 0] \<and> length ms = max (mt_steps options) 4"
proof -
  obtain p1 p2 rng where c: "control_points start stop (mt_curve_amplitude options)
      (SplitMix64_new (trajectory_seed bits start stop)) = (p1, p2, rng)" by (metis surj_pair)
  obtain goal rng' where g: "overshoot_goal start stop (ieee_max (mt_overshoot_pixels options) (lit 0)) rng = (goal, rng')"
    by (metis surj_pair)
  let ?ps = "map (curve_point cube start p1 p2 stop goal (ieee_max (mt_overshoot_pixels options) (lit 0))
      (max (mt_steps options) 4)) [0..<max (mt_steps options) 4]"
  from jittered_moves [of "ieee_max (mt_jitter_pixels options) (lit 0)" ?ps rng'] obtain ms
    where "jittered (ieee_max (mt_jitter_pixels options) (lit 0)) ?ps rng' = map (\<lambda>(x, y). PointerMove x y) ms"
      "length ms = length ?ps" by blast
  then show ?thesis by (intro exI [of _ ms]) (simp only: generate_human_trajectory_def Let_def c g prod.case, simp)
qed

text \<open>
  Without overshoot and jitter the path runs from its start to its end exactly, as long as the control points do
  not overflow.
\<close>

lemma small_lits [simp]: "lit 1 = Finite 1" "lit 2 = Finite 2" "lit 3 = Finite 3" "lit (1 / 2) = Finite (1 / 2)"
  using lit_int [of 1] lit_int [of 2] lit_int [of 3] f64_round_dyadic [of 1 "- 1"] by (simp_all add: pow2_def)

lemma ease_ends:
  assumes "cube (Finite 0) = Finite 0" and "cube (Finite 1) = Finite 1"
  shows "ease_human cube (Finite 0) = Finite 0" and "ease_human cube (Finite 1) = Finite 1"
  using assms by (simp_all add: ease_human_def ieee_clamp_def f64_sub_def)

lemma bezier_ends:
  assumes "f64_round a = Finite a" "f64_round b = Finite b" "f64_round c = Finite c" "f64_round d = Finite d"
  shows "bezier_point (Finite a, Finite b) (Finite e, Finite f) (Finite g, Finite h) (Finite c, Finite d) (Finite 0) = (Finite a, Finite b)"
    and "bezier_point (Finite a, Finite b) (Finite e, Finite f) (Finite g, Finite h) (Finite c, Finite d) (Finite 1) = (Finite c, Finite d)"
  using assms by (simp_all add: bezier_point_def bezier_mix_def f64_sub_def)

lemma linear_ends:
  assumes "4 \<le> steps" and "steps < 2 ^ 53"
  shows "f64_div (f64_of_nat 0) (f64_sub (f64_of_nat steps) (Finite 1)) = Finite 0"
    and "f64_div (f64_of_nat (steps - 1)) (f64_sub (f64_of_nat steps) (Finite 1)) = Finite 1"
proof -
  have "f64_round (of_nat steps - 1) = Finite (of_nat (steps - 1))"
    using of_nat_round [of "steps - 1"] assms by (simp add: f64_of_nat_def of_nat_diff)
  then have s: "f64_sub (f64_of_nat steps) (Finite 1) = Finite (of_nat (steps - 1))"
    using of_nat_round [of steps] assms by (simp add: f64_sub_def)
  show "f64_div (f64_of_nat 0) (f64_sub (f64_of_nat steps) (Finite 1)) = Finite 0"
    unfolding s using assms by (simp add: f64_of_nat_def)
  show "f64_div (f64_of_nat (steps - 1)) (f64_sub (f64_of_nat steps) (Finite 1)) = Finite 1"
    unfolding s using of_nat_round [of "steps - 1"] assms by simp
qed

lemma trajectory_runs_from_start_to_end:
  assumes grid: "f64_round a = Finite a" "f64_round b = Finite b" "f64_round c = Finite c" "f64_round d = Finite d"
    and cube: "cube (Finite 0) = Finite 0" "cube (Finite 1) = Finite 1"
    and steps: "mt_steps options < 2 ^ 53" and plain: "mt_overshoot_pixels options = Finite 0" "mt_jitter_pixels options = Finite 0"
    and finite: "control_points (Finite a, Finite b) (Finite c, Finite d) (mt_curve_amplitude options)
      (SplitMix64_new (trajectory_seed bits (Finite a, Finite b) (Finite c, Finite d)))
      = ((Finite e, Finite f), (Finite g, Finite h), rng)"
  shows "\<exists>ms. generate_human_trajectory bits cube (Finite a, Finite b) (Finite c, Finite d) options =
       PointerMove (Finite a) (Finite b) # ms @ [PointerMove (Finite c) (Finite d), PointerDown 0, PointerUp 0]"
proof -
  let ?n = "max (mt_steps options) 4"
  let ?p = "curve_point cube (Finite a, Finite b) (Finite e, Finite f) (Finite g, Finite h) (Finite c, Finite d)
      (Finite c, Finite d) (Finite 0) ?n"
  have n: "4 \<le> ?n" "?n < 2 ^ 53" using steps by auto
  have unmoved: "jittered (Finite 0) ps r = map (\<lambda>(x, y). PointerMove x y) ps" for ps r
    by (induction ps) auto
  have ends: "?p 0 = (Finite a, Finite b)" "?p (?n - 1) = (Finite c, Finite d)"
    unfolding curve_point_def small_lits linear_ends [OF n] by (simp_all add: ease_ends cube bezier_ends grid)
  have no_max: "ieee_max (Finite 0) (lit 0) = Finite 0" by (simp add: ieee_max_def)
  have no_goal: "overshoot_goal p q (Finite 0) r = (q, r)" for p q r by (simp add: overshoot_goal_def)
  have "2 \<le> ?n" using n(1) by linarith
  then obtain k where k: "?n = Suc (Suc k)" using le_Suc_ex [of 2 ?n] by auto
  then have "[0..<?n] = 0 # [1..<?n - 1] @ [?n - 1]" by (simp add: upt_conv_Cons)
  then have moves: "map (\<lambda>(x, y). PointerMove x y) (map ?p [0..<?n]) = PointerMove (Finite a) (Finite b) #
      map (\<lambda>(x, y). PointerMove x y) (map ?p [1..<?n - 1]) @ [PointerMove (Finite c) (Finite d)]"
    by (simp only: list.map map_append ends prod.case append.simps)
  have "generate_human_trajectory bits cube (Finite a, Finite b) (Finite c, Finite d) options =
      map (\<lambda>(x, y). PointerMove x y) (map ?p [0..<?n]) @ [PointerDown 0, PointerUp 0]"
    by (simp only: generate_human_trajectory_def Let_def finite prod.case plain no_max no_goal unmoved)
  then show ?thesis unfolding moves by simp
qed

end
