(* ===== verification/DomObserver.thy ===== *)
theory DomObserver
  imports AgentTree BTreeMap Descent
begin

section \<open>The observed DOM\<close>

text \<open>
  The crate \<open>crates/dom-observer\<close>: the table of raw nodes of a document, the mutations an engine
  reports, and references to nodes that a change of the document invalidates.

  Removing a node walks its subtree with the recursion of \<open>Descent\<close>; a removal that never returns
  is \<open>None\<close>.
\<close>

type_synonym EngineNodeId = u64

datatype DocumentLifecycle = Initial | Loading | Interactive | Complete | Destroyed

record NodeReference =
  nref_node :: EngineNodeId
  nref_generation :: u64

datatype NodeKind = KindDocument | KindElement | KindText | KindComment | KindShadowRoot | KindFrame

record RawNode =
  rn_id :: EngineNodeId
  rn_kind :: NodeKind
  rn_name :: "string option"
  rn_attributes :: "(string, string) BTreeMap"
  rn_text :: "string option"
  rn_parent :: "EngineNodeId option"
  rn_children :: "EngineNodeId list"
  rn_event_listeners :: "string set"
  rn_provenance :: "ProvenanceSource list"

record ObservedSignals =
  os_form :: bool
  os_dialog :: bool
  os_frame :: bool
  os_shadow_root :: bool
  os_canvas :: bool
  os_media :: "string option"
  os_accessibility_role :: "string option"
  os_accessible_name :: "string option"
  os_disabled :: bool
  os_focused :: bool

definition RawNode_document :: "EngineNodeId \<Rightarrow> RawNode" where
  "RawNode_document i = \<lparr>rn_id = i, rn_kind = KindDocument, rn_name = None, rn_attributes = [], rn_text = None,
     rn_parent = None, rn_children = [], rn_event_listeners = {}, rn_provenance = []\<rparr>"

definition RawNode_element :: "EngineNodeId \<Rightarrow> string \<Rightarrow> EngineNodeId option \<Rightarrow> RawNode" where
  "RawNode_element i name parent = \<lparr>rn_id = i, rn_kind = KindElement, rn_name = Some name, rn_attributes = [], rn_text = None,
     rn_parent = parent, rn_children = [], rn_event_listeners = {}, rn_provenance = []\<rparr>"

definition RawNode_text :: "EngineNodeId \<Rightarrow> string \<Rightarrow> EngineNodeId option \<Rightarrow> RawNode" where
  "RawNode_text i val parent = \<lparr>rn_id = i, rn_kind = KindText, rn_name = None, rn_attributes = [], rn_text = Some val,
     rn_parent = parent, rn_children = [], rn_event_listeners = {}, rn_provenance = []\<rparr>"

definition RawNode_observed_signals :: "RawNode \<Rightarrow> ObservedSignals" where
  "RawNode_observed_signals n =
     (let tag = to_ascii_lowercase (case rn_name n of None \<Rightarrow> [] | Some t \<Rightarrow> t);
          media = (if tag = ''audio'' then Some ''audio'' else if tag = ''video'' then Some ''video''
                   else if tag = ''track'' then Some ''track'' else None)
      in \<lparr>os_form = (tag = ''form''), os_dialog = (tag = ''dialog''),
          os_frame = (rn_kind n = KindFrame \<or> tag = ''iframe'' \<or> tag = ''frame''),
          os_shadow_root = (rn_kind n = KindShadowRoot), os_canvas = (tag = ''canvas''), os_media = media,
          os_accessibility_role = bt_get (rn_attributes n) ''role'',
          os_accessible_name = (case bt_get (rn_attributes n) ''aria-label'' of
              Some v \<Rightarrow> Some v | None \<Rightarrow> bt_get (rn_attributes n) ''title''),
          os_disabled = bt_contains_key (rn_attributes n) ''disabled'',
          os_focused = (bt_get (rn_attributes n) ''data-focused'' = Some ''true'')\<rparr>)"

datatype DomMutation =
    DomInsert RawNode
  | DomRemove EngineNodeId
  | SetAttribute EngineNodeId string string
  | RemoveAttribute EngineNodeId string
  | SetText EngineNodeId string
  | AddEventListener EngineNodeId string
  | RemoveEventListener EngineNodeId string

record RawDocument =
  rd_url :: string
  rd_generation :: u64
  rd_lifecycle :: DocumentLifecycle
  rd_root :: "EngineNodeId option"
  rd_nodes :: "(EngineNodeId, RawNode) BTreeMap"

datatype DomObserverError =
    MissingNode EngineNodeId | DuplicateNode EngineNodeId | MissingParent EngineNodeId
  | RootAlreadySet | DomStaleReference | DocumentDestroyed

definition RawDocument_new :: "string \<Rightarrow> RawDocument" where
  "RawDocument_new url = \<lparr>rd_url = url, rd_generation = 0, rd_lifecycle = Initial, rd_root = None, rd_nodes = []\<rparr>"

definition node_kids :: "RawDocument \<Rightarrow> EngineNodeId \<Rightarrow> EngineNodeId list" where
  "node_kids d i = (case bt_get (rd_nodes d) i of None \<Rightarrow> [] | Some n \<Rightarrow> rn_children n)"

definition RawDocument_collect_descendants :: "nat \<Rightarrow> RawDocument \<Rightarrow> EngineNodeId \<Rightarrow> EngineNodeId list \<Rightarrow> EngineNodeId list option" where
  "RawDocument_collect_descendants n d i descendants = walk n (node_kids d) i descendants"

definition dom_depth :: "RawDocument \<Rightarrow> nat" where
  "dom_depth d = Suc (length (rd_nodes d))"

text \<open>Insertion of a node and removal of a subtree.\<close>

definition dom_insert :: "RawNode \<Rightarrow> RawDocument \<Rightarrow> (DomObserverError + unit) \<times> RawDocument" where
  "dom_insert n d =
     (if bt_contains_key (rd_nodes d) (rn_id n) then (Inl (DuplicateNode (rn_id n)), d)
      else (case rn_parent n of
          Some p \<Rightarrow>
            if \<not> bt_contains_key (rd_nodes d) p then (Inl (MissingParent p), d)
            else (Inr (), d\<lparr>rd_nodes := bt_insert (rn_id n) n
                     (bt_adjust p (\<lambda>q. q\<lparr>rn_children := rn_children q @ [rn_id n]\<rparr>) (rd_nodes d))\<rparr>)
        | None \<Rightarrow>
            if rd_root d \<noteq> None then (Inl RootAlreadySet, d)
            else (Inr (), d\<lparr>rd_root := Some (rn_id n), rd_nodes := bt_insert (rn_id n) n (rd_nodes d)\<rparr>)))"

definition dom_remove :: "EngineNodeId \<Rightarrow> RawDocument \<Rightarrow> ((DomObserverError + unit) \<times> RawDocument) option" where
  "dom_remove i d =
     (case bt_get (rd_nodes d) i of
        None \<Rightarrow> Some (Inl (MissingNode i), d)
      | Some removed \<Rightarrow>
          (case RawDocument_collect_descendants (dom_depth d) d i [] of
             None \<Rightarrow> None
           | Some ids \<Rightarrow>
               let nodes = fold bt_remove (ids @ [i]) (rd_nodes d);
                   nodes = (case rn_parent removed of
                       None \<Rightarrow> nodes
                     | Some p \<Rightarrow> bt_adjust p (\<lambda>q. q\<lparr>rn_children := [c \<leftarrow> rn_children q. c \<noteq> i]\<rparr>) nodes)
               in Some (Inr (), d\<lparr>rd_nodes := nodes, rd_root := (if rd_root d = Some i then None else rd_root d)\<rparr>)))"

definition dom_change :: "EngineNodeId \<Rightarrow> (RawNode \<Rightarrow> RawNode) \<Rightarrow> RawDocument \<Rightarrow> (DomObserverError + unit) \<times> RawDocument" where
  "dom_change i f d =
     (if bt_contains_key (rd_nodes d) i then (Inr (), d\<lparr>rd_nodes := bt_adjust i f (rd_nodes d)\<rparr>)
      else (Inl (MissingNode i), d))"

fun dom_mutate :: "DomMutation \<Rightarrow> RawDocument \<Rightarrow> ((DomObserverError + unit) \<times> RawDocument) option" where
  "dom_mutate (DomInsert n) d = Some (dom_insert n d)"
| "dom_mutate (DomRemove i) d = dom_remove i d"
| "dom_mutate (SetAttribute i name val) d =
     Some (dom_change i (\<lambda>n. n\<lparr>rn_attributes := bt_insert name val (rn_attributes n)\<rparr>) d)"
| "dom_mutate (RemoveAttribute i name) d =
     Some (dom_change i (\<lambda>n. n\<lparr>rn_attributes := bt_remove name (rn_attributes n)\<rparr>) d)"
| "dom_mutate (SetText i val) d = Some (dom_change i (\<lambda>n. n\<lparr>rn_text := Some val\<rparr>) d)"
| "dom_mutate (AddEventListener i event) d =
     Some (dom_change i (\<lambda>n. n\<lparr>rn_event_listeners := insert event (rn_event_listeners n)\<rparr>) d)"
| "dom_mutate (RemoveEventListener i event) d =
     Some (dom_change i (\<lambda>n. n\<lparr>rn_event_listeners := rn_event_listeners n - {event}\<rparr>) d)"

definition RawDocument_apply :: "DomMutation \<Rightarrow> RawDocument \<Rightarrow> ((DomObserverError + unit) \<times> RawDocument) option" where
  "RawDocument_apply mutation d =
     (if rd_lifecycle d = Destroyed then Some (Inl DocumentDestroyed, d)
      else (case dom_mutate mutation d of
          None \<Rightarrow> None
        | Some (Inl e, d) \<Rightarrow> Some (Inl e, d)
        | Some (Inr _, d) \<Rightarrow> Some (Inr (), d\<lparr>rd_generation := rd_generation d + 1\<rparr>)))"

definition RawDocument_node :: "RawDocument \<Rightarrow> EngineNodeId \<Rightarrow> RawNode option" where
  "RawDocument_node d i = bt_get (rd_nodes d) i"

definition RawDocument_reference :: "RawDocument \<Rightarrow> EngineNodeId \<Rightarrow> NodeReference option" where
  "RawDocument_reference d i =
     map_option (\<lambda>_. \<lparr>nref_node = i, nref_generation = rd_generation d\<rparr>) (RawDocument_node d i)"

definition RawDocument_resolve :: "RawDocument \<Rightarrow> NodeReference \<Rightarrow> DomObserverError + RawNode" where
  "RawDocument_resolve d r =
     (if nref_generation r \<noteq> rd_generation d then Inl DomStaleReference
      else ok_or (MissingNode (nref_node r)) (RawDocument_node d (nref_node r)))"

definition RawDocument_advance_lifecycle :: "DocumentLifecycle \<Rightarrow> RawDocument \<Rightarrow> RawDocument" where
  "RawDocument_advance_lifecycle l d = d\<lparr>rd_lifecycle := l, rd_generation := rd_generation d + 1\<rparr>"

definition RawDocument_begin_navigation :: "string \<Rightarrow> RawDocument \<Rightarrow> RawDocument" where
  "RawDocument_begin_navigation url d =
     d\<lparr>rd_url := url, rd_root := None, rd_nodes := [], rd_lifecycle := Loading, rd_generation := rd_generation d + 1\<rparr>"

subsection \<open>Documents are trees\<close>

abbreviation dom_kid :: "RawDocument \<Rightarrow> EngineNodeId \<Rightarrow> EngineNodeId \<Rightarrow> bool" where
  "dom_kid d \<equiv> kid (node_kids d)"

abbreviation dom_under :: "RawDocument \<Rightarrow> EngineNodeId \<Rightarrow> EngineNodeId \<Rightarrow> bool" where
  "dom_under d \<equiv> under (node_kids d)"

definition node_parent :: "RawDocument \<Rightarrow> EngineNodeId \<Rightarrow> EngineNodeId option" where
  "node_parent d c = Option.bind (bt_get (rd_nodes d) c) rn_parent"

text \<open>
  The links of a document: the children of a node are exactly the nodes that name it as their
  parent, each listed once, and depths increase along the links; the root is the only node without
  a parent.
\<close>

definition dom_ok :: "RawDocument \<Rightarrow> bool" where
  "dom_ok d \<longleftrightarrow> bt_ok (rd_nodes d)
     \<and> (\<forall>i n. bt_get (rd_nodes d) i = Some n \<longrightarrow> rn_id n = i \<and> distinct (rn_children n))
     \<and> (\<forall>p c. dom_kid d p c \<longleftrightarrow> node_parent d c = Some p)
     \<and> layered (node_kids d)
     \<and> (\<forall>i. rd_root d = Some i \<longleftrightarrow> (\<exists>n. bt_get (rd_nodes d) i = Some n \<and> rn_parent n = None))"

lemma dom_okD:
  assumes "dom_ok d"
  shows "bt_ok (rd_nodes d)" "\<And>i n. bt_get (rd_nodes d) i = Some n \<Longrightarrow> rn_id n = i \<and> distinct (rn_children n)"
    "\<And>p c. dom_kid d p c \<longleftrightarrow> node_parent d c = Some p" "layered (node_kids d)"
    "\<And>i. rd_root d = Some i \<longleftrightarrow> (\<exists>n. bt_get (rd_nodes d) i = Some n \<and> rn_parent n = None)"
  using assms by (simp_all add: dom_ok_def)

lemma dom_okI:
  assumes "bt_ok (rd_nodes d)" and "\<And>i n. bt_get (rd_nodes d) i = Some n \<Longrightarrow> rn_id n = i \<and> distinct (rn_children n)"
    and "\<And>p c. dom_kid d p c \<longleftrightarrow> node_parent d c = Some p" and "layered (node_kids d)"
    and "\<And>i. rd_root d = Some i \<longleftrightarrow> (\<exists>n. bt_get (rd_nodes d) i = Some n \<and> rn_parent n = None)"
  shows "dom_ok d"
  unfolding dom_ok_def using assms by blast

lemma dom_kid_iff: "dom_kid d p c \<longleftrightarrow> (\<exists>n. bt_get (rd_nodes d) p = Some n \<and> c \<in> set (rn_children n))"
  by (cases "bt_get (rd_nodes d) p") (simp_all add: kid_def node_kids_def)

lemma node_kids_listed: "\<forall>p. node_kids d p = [] \<or> p \<in> set (bt_keys (rd_nodes d))"
proof
  show "node_kids d p = [] \<or> p \<in> set (bt_keys (rd_nodes d))" for p
    using bt_get_None_iff [of "rd_nodes d" p] by (cases "bt_get (rd_nodes d) p") (simp_all add: node_kids_def)
qed

lemma dom_forest: "dom_ok d \<Longrightarrow> forest (bt_keys (rd_nodes d)) (node_kids d) (node_parent d)"
proof -
  assume d: "dom_ok d"
  have "distinct (node_kids d p)" for p
    using dom_okD(2) [OF d, of p] by (auto simp: node_kids_def split: option.split)
  then show ?thesis
    unfolding forest_def using node_kids_listed [of d] dom_okD(3,4) [OF d] by simp
qed

lemma dom_depth_enough: "length (bt_keys (rd_nodes d)) < dom_depth d"
  by (simp add: dom_depth_def)

subsection \<open>Mutations keep the tree\<close>

lemma dom_ok_new: "dom_ok (RawDocument_new url)"
  by (simp add: dom_ok_def RawDocument_new_def kid_def node_kids_def node_parent_def layered_def)

definition links :: "RawNode \<Rightarrow> EngineNodeId \<times> EngineNodeId option \<times> EngineNodeId list" where
  "links n = (rn_id n, rn_parent n, rn_children n)"

lemma dom_ok_same_links:
  assumes "dom_ok d" and "bt_ok (rd_nodes d')" and "rd_root d' = rd_root d"
    and "\<And>k. map_option links (bt_get (rd_nodes d') k) = map_option links (bt_get (rd_nodes d) k)"
  shows "dom_ok d'"
proof -
  have same: "(bt_get (rd_nodes d') k = None \<and> bt_get (rd_nodes d) k = None)
      \<or> (\<exists>n m. bt_get (rd_nodes d') k = Some n \<and> bt_get (rd_nodes d) k = Some m \<and> links n = links m)" for k
    using assms(4) [of k] by (cases "bt_get (rd_nodes d') k"; cases "bt_get (rd_nodes d) k") simp_all
  have "node_kids d' k = node_kids d k \<and> node_parent d' k = node_parent d k" for k
    using same [of k] by (auto simp: node_kids_def node_parent_def links_def)
  then have "node_kids d' = node_kids d" "node_parent d' = node_parent d" by auto
  moreover have "rn_id n = i \<and> distinct (rn_children n)" if "bt_get (rd_nodes d') i = Some n" for i n
    using same [of i] that dom_okD(2) [OF assms(1), of i] by (auto simp: links_def)
  moreover have "(\<exists>n. bt_get (rd_nodes d') i = Some n \<and> rn_parent n = None)
      \<longleftrightarrow> (\<exists>n. bt_get (rd_nodes d) i = Some n \<and> rn_parent n = None)" for i
    using same [of i] by (auto simp: links_def)
  ultimately show ?thesis
    using assms(2,3) dom_okD(3,4,5) [OF assms(1)] by (simp add: dom_ok_def)
qed

lemma dom_ok_change:
  assumes "dom_ok d" and "\<And>n. links (f n) = links n"
  shows "dom_ok (snd (dom_change i f d))"
proof (cases "bt_contains_key (rd_nodes d) i")
  case True
  then show ?thesis
    using assms(2) dom_okD(1) [OF assms(1)]
    by (intro dom_ok_same_links [OF assms(1)]) (auto simp: dom_change_def option.map_comp o_def)
qed (use assms(1) in \<open>simp add: dom_change_def\<close>)

lemma dom_ok_insert:
  assumes d: "dom_ok d" and leaf: "rn_children n = []"
  shows "dom_ok (snd (dom_insert n d))"
proof (cases "bt_get (rd_nodes d) (rn_id n)")
  case Some
  then show ?thesis using d by (simp add: dom_insert_def bt_contains_key_def)
next
  case new: None
  have no_parent: "node_parent d (rn_id n) = None" by (simp add: node_parent_def new)
  have no_kid: "\<not> dom_kid d (rn_id n) c" for c by (simp add: dom_kid_iff new)
  show ?thesis
  proof (cases "rn_parent n")
    case None
    show ?thesis
    proof (cases "rd_root d")
      case free: None
      let ?d = "d\<lparr>rd_root := Some (rn_id n), rd_nodes := bt_insert (rn_id n) n (rd_nodes d)\<rparr>"
      have kids: "node_kids ?d = node_kids d" using new leaf by (auto simp: node_kids_def fun_eq_iff)
      have parents: "node_parent ?d = node_parent d" using new None by (auto simp: node_parent_def fun_eq_iff)
      have "dom_ok ?d"
        using dom_okD [OF d] free leaf None unfolding dom_ok_def kids parents by (auto simp: new)
      then show ?thesis using new None free by (simp add: dom_insert_def bt_contains_key_def)
    qed (use d new None in \<open>simp add: dom_insert_def bt_contains_key_def\<close>)
  next
    case (Some p)
    show ?thesis
    proof (cases "bt_get (rd_nodes d) p")
      case None
      then show ?thesis using d new Some by (simp add: dom_insert_def bt_contains_key_def)
    next
      case q: (Some q)
      let ?nodes = "bt_insert (rn_id n) n (bt_adjust p (\<lambda>q. q\<lparr>rn_children := rn_children q @ [rn_id n]\<rparr>) (rd_nodes d))"
      let ?d = "d\<lparr>rd_nodes := ?nodes\<rparr>"
      have get: "bt_get (rd_nodes ?d) k = (if k = rn_id n then Some n
          else if k = p then Some (q\<lparr>rn_children := rn_children q @ [rn_id n]\<rparr>) else bt_get (rd_nodes d) k)" for k
        using q by simp
      have p: "p \<noteq> rn_id n" using q new by auto
      have kid: "dom_kid ?d x c \<longleftrightarrow> dom_kid d x c \<or> x = p \<and> c = rn_id n" for x c
        using p q leaf new by (auto simp: dom_kid_iff get)
      have par: "node_parent ?d c = (if c = rn_id n then Some p else node_parent d c)" for c
        using p q Some by (auto simp: node_parent_def get)
      have fresh: "rn_id n \<notin> set (rn_children q)"
        using dom_okD(3) [OF d, of p "rn_id n"] q no_parent by (simp add: dom_kid_iff)
      have "layered (node_kids ?d)"
      proof -
        from dom_okD(4) [OF d] obtain h where h: "\<And>x c. dom_kid d x c \<Longrightarrow> h x < (h c :: nat)" by (auto simp: layered_def)
        have "c \<noteq> rn_id n" if "dom_kid d x c" for x c using dom_okD(3) [OF d, of x c] that no_parent by auto
        then have "\<forall>x c. dom_kid ?d x c \<longrightarrow> (h(rn_id n := Suc (h p))) x < (h(rn_id n := Suc (h p))) c"
          using h p no_kid unfolding kid by auto
        then show ?thesis unfolding layered_def by blast
      qed
      moreover have "dom_kid ?d x c \<longleftrightarrow> node_parent ?d c = Some x" for x c
        unfolding kid par using dom_okD(3) [OF d, of x c] no_parent by auto
      moreover have "rn_id m = i \<and> distinct (rn_children m)" if "bt_get (rd_nodes ?d) i = Some m" for i m
        using that [unfolded get] dom_okD(2) [OF d, of i] dom_okD(2) [OF d q] leaf fresh by (auto split: if_splits)
      moreover have "rd_root ?d = Some i \<longleftrightarrow> (\<exists>m. bt_get (rd_nodes ?d) i = Some m \<and> rn_parent m = None)" for i
        unfolding get using dom_okD(5) [OF d, of i] q Some new by auto
      moreover have "bt_ok (rd_nodes ?d)" using dom_okD(1) [OF d] by simp
      ultimately have "dom_ok ?d" by (intro dom_okI)
      then show ?thesis using new Some q by (simp add: dom_insert_def bt_contains_key_def)
    qed
  qed
qed

text \<open>What a removal leaves: everything but the node and what lies under it.\<close>

lemma dom_remove_returns:
  assumes d: "dom_ok d" and i: "bt_get (rd_nodes d) i = Some removed"
  shows "\<exists>d'. dom_remove i d = Some (Inr (), d') \<and> bt_ok (rd_nodes d')
    \<and> rd_root d' = (if rd_root d = Some i then None else rd_root d)
    \<and> rd_lifecycle d' = rd_lifecycle d \<and> rd_generation d' = rd_generation d \<and> rd_url d' = rd_url d
    \<and> (\<forall>k. bt_get (rd_nodes d') k =
         (if k = i \<or> dom_under d i k then None
          else if Some k = rn_parent removed
            then map_option (\<lambda>q. q\<lparr>rn_children := [c \<leftarrow> rn_children q. c \<noteq> i]\<rparr>) (bt_get (rd_nodes d) k)
          else bt_get (rd_nodes d) k))"
proof -
  from forest_walk_ends [OF dom_forest [OF d] dom_depth_enough, of i "[]"] obtain ds where
    ds: "RawDocument_collect_descendants (dom_depth d) d i [] = Some ds" "set ds = {x. dom_under d i x}"
    by (auto simp: RawDocument_collect_descendants_def)
  show ?thesis
    using dom_okD(1) [OF d] ds(2)
    by (auto simp: dom_remove_def i ds(1) Let_def bt_get_fold_remove bt_ok_fold_remove split: option.split)
qed

lemma dom_ok_remove:
  assumes d: "dom_ok d" and r: "dom_remove i d = Some (res, d')"
  shows "dom_ok d'"
proof (cases "bt_get (rd_nodes d) i")
  case None
  then show ?thesis using d r by (simp add: dom_remove_def)
next
  case (Some removed)
  from dom_remove_returns [OF d Some] r have ok: "bt_ok (rd_nodes d')"
    and root: "rd_root d' = (if rd_root d = Some i then None else rd_root d)"
    and get: "\<And>k. bt_get (rd_nodes d') k =
         (if k = i \<or> dom_under d i k then None
          else if Some k = rn_parent removed
            then map_option (\<lambda>q. q\<lparr>rn_children := [c \<leftarrow> rn_children q. c \<noteq> i]\<rparr>) (bt_get (rd_nodes d) k)
          else bt_get (rd_nodes d) k)" by auto
  let ?gone = "\<lambda>k. k = i \<or> dom_under d i k"
  have par: "node_parent d' c = (if ?gone c then None else node_parent d c)" for c
    unfolding node_parent_def get by (cases "bt_get (rd_nodes d) c") auto
  have kid: "dom_kid d' p c \<longleftrightarrow> dom_kid d p c \<and> \<not> ?gone p \<and> c \<noteq> i" for p c
  proof -
    have "dom_kid d p i \<Longrightarrow> Some p = rn_parent removed"
      using dom_okD(3) [OF d, of p i] Some by (auto simp: node_parent_def)
    then show ?thesis unfolding dom_kid_iff get by (cases "bt_get (rd_nodes d) p") auto
  qed
  have down: "?gone c \<longleftrightarrow> ?gone p \<or> c = i" if "dom_kid d p c" for p c
  proof
    assume "?gone c"
    then show "?gone p \<or> c = i"
    proof
      assume "dom_under d i c"
      then obtain q where q: "dom_kid d q c" "q = i \<or> dom_under d i q" by (auto elim: tranclp.cases)
      then have "q = p" using forest_parent_unique [OF dom_forest [OF d]] that by blast
      with q show ?thesis by blast
    qed simp
  qed (use that in \<open>auto intro: tranclp.intros\<close>)
  have "dom_kid d' p c \<longleftrightarrow> node_parent d' c = Some p" for p c
    unfolding kid par using dom_okD(3) [OF d, of p c] down [of p c] by auto
  moreover have "layered (node_kids d')" using dom_okD(4) [OF d] unfolding layered_def kid by blast
  moreover have "rn_id n = k \<and> distinct (rn_children n)" if "bt_get (rd_nodes d') k = Some n" for k n
    using that [unfolded get] dom_okD(2) [OF d, of k] by (auto split: if_splits)
  moreover have "rd_root d' = Some k \<longleftrightarrow> (\<exists>n. bt_get (rd_nodes d') k = Some n \<and> rn_parent n = None)" for k
  proof -
    have "\<not> dom_under d i k" if "rd_root d = Some k"
    proof
      assume "dom_under d i k"
      then obtain q where "dom_kid d q k" by (auto elim: tranclp.cases)
      then show False using dom_okD(3) [OF d, of q k] dom_okD(5) [OF d, of k] that by (auto simp: node_parent_def)
    qed
    then show ?thesis using dom_okD(5) [OF d, of k] dom_okD(5) [OF d, of i] Some unfolding root get by auto
  qed
  ultimately show ?thesis using ok by (intro dom_okI)
qed

lemma dom_mutate_returns: "dom_ok d \<Longrightarrow> \<exists>res d'. dom_mutate m d = Some (res, d')"
proof (cases m)
  case (DomRemove i)
  assume d: "dom_ok d"
  show ?thesis
  proof (cases "bt_get (rd_nodes d) i")
    case (Some n)
    from dom_remove_returns [OF d Some] DomRemove show ?thesis by auto
  qed (simp add: DomRemove dom_remove_def)
qed simp_all

text \<open>A node that arrives with children of its own is outside the contract of the observer, see below.\<close>

fun inserts_leaf :: "DomMutation \<Rightarrow> bool" where
  "inserts_leaf (DomInsert n) = (rn_children n = [])"
| "inserts_leaf _ = True"

lemma dom_ok_mutate:
  assumes d: "dom_ok d" and "inserts_leaf m" and m: "dom_mutate m d = Some (res, d')"
  shows "dom_ok d'"
proof (cases m)
  case (DomInsert n)
  then show ?thesis using dom_ok_insert [OF d, of n] assms(2) m by simp
next
  case (DomRemove i)
  then show ?thesis using dom_ok_remove [OF d, of i] m by simp
next
  case (SetAttribute i name val)
  then show ?thesis using dom_ok_change [OF d, of _ i] m by (auto simp: links_def dest!: arg_cong [of _ _ snd])
next
  case (RemoveAttribute i name)
  then show ?thesis using dom_ok_change [OF d, of _ i] m by (auto simp: links_def dest!: arg_cong [of _ _ snd])
next
  case (SetText i val)
  then show ?thesis using dom_ok_change [OF d, of _ i] m by (auto simp: links_def dest!: arg_cong [of _ _ snd])
next
  case (AddEventListener i e)
  then show ?thesis using dom_ok_change [OF d, of _ i] m by (auto simp: links_def dest!: arg_cong [of _ _ snd])
next
  case (RemoveEventListener i e)
  then show ?thesis using dom_ok_change [OF d, of _ i] m by (auto simp: links_def dest!: arg_cong [of _ _ snd])
qed

lemma dom_ok_generation [simp]: "dom_ok (d\<lparr>rd_generation := g\<rparr>) = dom_ok d"
  "dom_ok (d\<lparr>rd_lifecycle := l\<rparr>) = dom_ok d" "dom_ok (d\<lparr>rd_url := u\<rparr>) = dom_ok d"
  by (simp_all add: dom_ok_def node_kids_def [abs_def] node_parent_def)

inductive dom_step :: "RawDocument \<Rightarrow> RawDocument \<Rightarrow> bool" where
  apply_mutation: "inserts_leaf m \<Longrightarrow> RawDocument_apply m d = Some (res, d') \<Longrightarrow> dom_step d d'"
| lifecycle: "dom_step d (RawDocument_advance_lifecycle l d)"
| begin_navigation: "dom_step d (RawDocument_begin_navigation url d)"

inductive_cases dom_stepE: "dom_step d d'"

lemma dom_ok_apply:
  assumes "dom_ok d" "inserts_leaf m" "RawDocument_apply m d = Some (res, d')"
  shows "dom_ok d'"
  using assms dom_ok_mutate [OF assms(1,2)]
  by (auto simp: RawDocument_apply_def split: if_splits option.splits prod.splits sum.splits)

lemma dom_ok_begin_navigation: "dom_ok (RawDocument_begin_navigation url d)"
  by (simp add: dom_ok_def RawDocument_begin_navigation_def kid_def node_kids_def node_parent_def layered_def)

lemma dom_step_keeps: "dom_step d d' \<Longrightarrow> dom_ok d \<Longrightarrow> dom_ok d'"
  by (erule dom_stepE) (auto intro: dom_ok_apply dom_ok_begin_navigation simp: RawDocument_advance_lifecycle_def)

interpretation dom_tree: kept_invariant dom_step dom_ok
  by unfold_locales (rule dom_step_keeps)

lemmas observed_dom_ok = dom_tree.reach_keeps [OF _ dom_ok_new]

lemma root_over_all:
  assumes d: "dom_ok d" and "bt_get (rd_nodes d) i = Some n"
  shows "\<exists>r. rd_root d = Some r \<and> (i = r \<or> dom_under d r i)"
proof -
  obtain h where h: "\<And>p c. dom_kid d p c \<Longrightarrow> h p < (h c :: nat)"
    using dom_okD(4) [OF d] by (auto simp: layered_def)
  show ?thesis
    using assms(2)
  proof (induction "h i" arbitrary: i n rule: less_induct)
    case less
    show ?case
    proof (cases "rn_parent n")
      case None
      then show ?thesis using dom_okD(5) [OF d, of i] less.prems by auto
    next
      case (Some p)
      then have kid: "dom_kid d p i" using dom_okD(3) [OF d, of p i] less.prems by (simp add: node_parent_def)
      then obtain q where "bt_get (rd_nodes d) p = Some q" by (auto simp: dom_kid_iff)
      from less.hyps [OF h [OF kid] this] kid show ?thesis by (auto intro: tranclp.intros)
    qed
  qed
qed

subsection \<open>Properties\<close>

text \<open>
  C28: whatever leaf mutations, navigations and changes of the life cycle a document has seen, it is
  a tree: every node is the root or lies under it, no node lies under itself, and a node is among
  the children of its parent and of no other node. Every mutation of it returns; in particular the
  unguarded recursion of a removal ends.
\<close>

theorem observed_documents_are_trees:
  assumes "dom_step\<^sup>*\<^sup>* (RawDocument_new url) d"
  shows "(\<exists>res d'. RawDocument_apply m d = Some (res, d'))
    \<and> (\<forall>i. RawDocument_node d i = None \<or> (\<exists>r. rd_root d = Some r \<and> (i = r \<or> dom_under d r i)))
    \<and> (\<forall>i. \<not> dom_under d i i)
    \<and> (\<forall>p c. dom_kid d p c = (\<exists>n. RawDocument_node d c = Some n \<and> rn_parent n = Some p))"
proof -
  have d: "dom_ok d" by (rule observed_dom_ok [OF assms])
  have "\<exists>res d'. RawDocument_apply m d = Some (res, d')"
    using dom_mutate_returns [OF d, of m] by (auto simp: RawDocument_apply_def split: sum.split)
  moreover have "RawDocument_node d i = None \<or> (\<exists>r. rd_root d = Some r \<and> (i = r \<or> dom_under d r i))" for i
    using root_over_all [OF d, of i] by (cases "bt_get (rd_nodes d) i") (simp_all add: RawDocument_node_def)
  moreover have "\<not> dom_under d i i" for i by (rule forest_not_under_self [OF dom_forest [OF d]])
  moreover have "dom_kid d p c = (\<exists>n. RawDocument_node d c = Some n \<and> rn_parent n = Some p)" for p c
    using dom_okD(3) [OF d, of p c] by (cases "bt_get (rd_nodes d) c") (simp_all add: node_parent_def RawDocument_node_def)
  ultimately show ?thesis by blast
qed

text \<open>
  Removing a node of such a document removes that node and exactly the nodes under it; every
  other node stays as it is, its parent without it in its list of children, and references taken
  before the removal are stale.
\<close>

theorem removal_takes_exactly_the_subtree:
  assumes "dom_step\<^sup>*\<^sup>* (RawDocument_new url) d" and "rd_lifecycle d \<noteq> Destroyed" and "RawDocument_node d i \<noteq> None"
  shows "\<exists>d'. RawDocument_apply (DomRemove i) d = Some (Inr (), d')
    \<and> (\<forall>k. RawDocument_node d' k =
         (if k = i \<or> dom_under d i k then None
          else map_option (\<lambda>n. n\<lparr>rn_children := [c \<leftarrow> rn_children n. c \<noteq> i]\<rparr>) (RawDocument_node d k)))
    \<and> (\<forall>k r. RawDocument_reference d k \<noteq> Some r \<or> RawDocument_resolve d' r = Inl DomStaleReference)"
proof -
  have d: "dom_ok d" by (rule observed_dom_ok [OF assms(1)])
  obtain removed where i: "bt_get (rd_nodes d) i = Some removed" using assms(3) by (auto simp: RawDocument_node_def)
  from dom_remove_returns [OF d i] obtain e where e: "dom_remove i d = Some (Inr (), e)" "rd_generation e = rd_generation d"
    and get: "\<And>k. bt_get (rd_nodes e) k =
         (if k = i \<or> dom_under d i k then None
          else if Some k = rn_parent removed
            then map_option (\<lambda>q. q\<lparr>rn_children := [c \<leftarrow> rn_children q. c \<noteq> i]\<rparr>) (bt_get (rd_nodes d) k)
          else bt_get (rd_nodes d) k)" by auto
  have same: "[c \<leftarrow> rn_children q. c \<noteq> i] = rn_children q"
    if "bt_get (rd_nodes d) k = Some q" and "Some k \<noteq> rn_parent removed" for k q
  proof -
    have "\<not> dom_kid d k i" using dom_okD(3) [OF d, of k i] i that(2) by (auto simp: node_parent_def)
    then show ?thesis using that(1) by (intro filter_True) (auto simp: dom_kid_iff)
  qed
  let ?d = "e\<lparr>rd_generation := rd_generation e + 1\<rparr>"
  have "RawDocument_apply (DomRemove i) d = Some (Inr (), ?d)"
    using assms(2) e by (simp add: RawDocument_apply_def)
  moreover have "RawDocument_node ?d k = (if k = i \<or> dom_under d i k then None
      else map_option (\<lambda>n. n\<lparr>rn_children := [c \<leftarrow> rn_children n. c \<noteq> i]\<rparr>) (RawDocument_node d k))" for k
    using same [of k] by (cases "bt_get (rd_nodes d) k") (auto simp: RawDocument_node_def get)
  moreover have "RawDocument_reference d k \<noteq> Some r \<or> RawDocument_resolve ?d r = Inl DomStaleReference" for k r
    using e(2) by (auto simp: RawDocument_reference_def RawDocument_resolve_def)
  ultimately show ?thesis by blast
qed

definition sample_document :: RawDocument where
  "sample_document = \<lparr>rd_url = ''u'', rd_generation = 3, rd_lifecycle = Initial, rd_root = Some 1,
     rd_nodes = [(1, (RawNode_document 1)\<lparr>rn_children := [2]\<rparr>),
                 (2, (RawNode_element 2 ''div'' (Some 1))\<lparr>rn_children := [3]\<rparr>),
                 (3, RawNode_text 3 ''hi'' (Some 2))]\<rparr>"

lemma sample_document_observed: "dom_step\<^sup>*\<^sup>* (RawDocument_new ''u'') sample_document"
proof -
  let ?d0 = "RawDocument_new ''u''"
  let ?d1 = "?d0\<lparr>rd_generation := 1, rd_root := Some 1, rd_nodes := [(1, RawNode_document 1)]\<rparr>"
  let ?d2 = "?d0\<lparr>rd_generation := 2, rd_root := Some 1,
     rd_nodes := [(1, (RawNode_document 1)\<lparr>rn_children := [2]\<rparr>), (2, RawNode_element 2 ''div'' (Some 1))]\<rparr>"
  have "RawDocument_apply (DomInsert (RawNode_document 1)) ?d0 = Some (Inr (), ?d1)"
    by (simp add: RawDocument_apply_def RawDocument_new_def dom_insert_def RawNode_document_def bt_contains_key_def bt_insert_def)
  moreover have "RawDocument_apply (DomInsert (RawNode_element 2 ''div'' (Some 1))) ?d1 = Some (Inr (), ?d2)"
    by (simp add: RawDocument_apply_def RawDocument_new_def dom_insert_def RawNode_document_def RawNode_element_def
        bt_contains_key_def bt_insert_def bt_adjust_def)
  moreover have "RawDocument_apply (DomInsert (RawNode_text 3 ''hi'' (Some 2))) ?d2 = Some (Inr (), sample_document)"
    by (simp add: RawDocument_apply_def RawDocument_new_def dom_insert_def RawNode_document_def RawNode_element_def
        RawNode_text_def sample_document_def bt_contains_key_def bt_insert_def bt_adjust_def)
  ultimately have "dom_step ?d0 ?d1" "dom_step ?d1 ?d2" "dom_step ?d2 sample_document"
    by (auto intro!: dom_step.apply_mutation simp: RawNode_document_def RawNode_element_def RawNode_text_def)
  then show ?thesis by (meson rtranclp.rtrancl_into_rtrancl rtranclp.rtrancl_refl)
qed

theorem observed_documents_are_trees_witness:
  "(\<exists>res d'. RawDocument_apply (DomRemove 1) sample_document = Some (res, d')) \<and> \<not> dom_under sample_document 1 1"
  using observed_documents_are_trees [OF sample_document_observed, of "DomRemove 1"] by blast

theorem removal_takes_exactly_the_subtree_witness:
  "\<exists>d'. RawDocument_apply (DomRemove 2) sample_document = Some (Inr (), d') \<and> RawDocument_node d' 3 = None
     \<and> RawDocument_node d' 1 \<noteq> None"
proof -
  have under: "dom_under sample_document 2 x \<longleftrightarrow> x = 3" for x
    by (subst under_iff, subst under_iff)
       (simp add: node_kids_def sample_document_def RawNode_element_def RawNode_text_def)
  have "RawDocument_node sample_document 2 \<noteq> None" "rd_lifecycle sample_document \<noteq> Destroyed"
    "RawDocument_node sample_document 1 \<noteq> None"
    by (simp_all add: RawDocument_node_def sample_document_def)
  with removal_takes_exactly_the_subtree [OF sample_document_observed, of 2] show ?thesis by (auto simp: under)
qed

text \<open>
  An insertion does not look at the children that the inserted node lists. A node that lists itself
  is accepted, and the removal of it never returns, at no recursion depth.
\<close>

definition self_parented :: RawNode where
  "self_parented = (RawNode_document 1)\<lparr>rn_children := [1]\<rparr>"

lemma inserted_children_are_trusted:
  "\<exists>d. RawDocument_apply (DomInsert self_parented) (RawDocument_new url) = Some (Inr (), d)
     \<and> (\<forall>n acc. RawDocument_collect_descendants n d 1 acc = None) \<and> RawDocument_apply (DomRemove 1) d = None"
proof -
  let ?d = "(RawDocument_new url)\<lparr>rd_generation := 1, rd_root := Some 1, rd_nodes := [(1, self_parented)]\<rparr>"
  have "RawDocument_apply (DomInsert self_parented) (RawDocument_new url) = Some (Inr (), ?d)"
    by (simp add: RawDocument_apply_def RawDocument_new_def dom_insert_def self_parented_def RawNode_document_def
        bt_contains_key_def bt_insert_def)
  moreover have "dom_kid ?d 1 1" by (simp add: dom_kid_iff self_parented_def)
  then have none: "RawDocument_collect_descendants n ?d 1 acc = None" for n acc
    unfolding RawDocument_collect_descendants_def using walk_returns_grounded(1) grounded_not_under_self
    by (metis not_None_eq tranclp.r_into_trancl)
  moreover have "RawDocument_apply (DomRemove 1) ?d = None"
    by (simp add: RawDocument_apply_def RawDocument_new_def dom_remove_def none [unfolded RawDocument_new_def, simplified])
  ultimately show ?thesis by blast
qed

end
