(* ===== verification/Observers.thy ===== *)
theory Observers
  imports DomObserver
begin

section \<open>Observers of layout, style, events and the runtime\<close>

text \<open>
  The crates \<open>crates/layout-observer\<close> (boxes and hit testing), \<open>crates/css-observer\<close> (visibility),
  \<open>crates/event-observer\<close> (the recorded trace and the bounded stream of changes) and
  \<open>crates/runtime-observer\<close> (runtime evidence). An \<open>i32\<close> that is only compared is an \<open>int\<close>.
\<close>

subsection \<open>Layout\<close>

record Rect =
  rect_x :: f64
  rect_y :: f64
  rect_width :: f64
  rect_height :: f64

definition Rect_contains :: "Rect \<Rightarrow> f64 \<Rightarrow> f64 \<Rightarrow> bool" where
  "Rect_contains r x y =
     (ieee_le (rect_x r) x \<and> ieee_le (rect_y r) y
      \<and> ieee_less x (f64_add (rect_x r) (rect_width r)) \<and> ieee_less y (f64_add (rect_y r) (rect_height r)))"

definition Rect_intersects :: "Rect \<Rightarrow> Rect \<Rightarrow> bool" where
  "Rect_intersects a b =
     (ieee_less (rect_x a) (f64_add (rect_x b) (rect_width b))
      \<and> ieee_less (rect_x b) (f64_add (rect_x a) (rect_width a))
      \<and> ieee_less (rect_y a) (f64_add (rect_y b) (rect_height b))
      \<and> ieee_less (rect_y b) (f64_add (rect_y a) (rect_height a)))"

record LayoutBox =
  lb_node_id :: EngineNodeId
  lb_rect :: Rect
  lb_visible :: bool
  lb_clipped :: bool
  lb_z_index :: int
  lb_pointer_events :: bool
  lb_disabled :: bool
  lb_provenance :: "ProvenanceSource list"

record LayoutFacts =
  lf_scroll_offset_x :: f64
  lf_scroll_offset_y :: f64
  lf_transform :: "f64 list"
  lf_overlap :: "EngineNodeId list"
  lf_hit_regions :: "Rect list"

record LayoutSnapshot =
  lsn_generation :: u64
  lsn_viewport :: Rect
  lsn_boxes :: "(EngineNodeId, LayoutBox) BTreeMap"
  lsn_dirty_regions :: "Rect list"
  lsn_facts :: "(EngineNodeId, LayoutFacts) BTreeMap"

definition LayoutSnapshot_default :: LayoutSnapshot where
  "LayoutSnapshot_default =
     \<lparr>lsn_generation = 0,
      lsn_viewport = \<lparr>rect_x = Finite 0, rect_y = Finite 0, rect_width = Finite 0, rect_height = Finite 0\<rparr>,
      lsn_boxes = [], lsn_dirty_regions = [], lsn_facts = []\<rparr>"

definition LayoutSnapshot_insert :: "LayoutBox \<Rightarrow> LayoutSnapshot \<Rightarrow> LayoutSnapshot" where
  "LayoutSnapshot_insert layout s =
     (let dirty = (case bt_get (lsn_boxes s) (lb_node_id layout) of
          None \<Rightarrow> lsn_dirty_regions s | Some previous \<Rightarrow> lsn_dirty_regions s @ [lb_rect previous])
      in s\<lparr>lsn_dirty_regions := dirty @ [lb_rect layout],
           lsn_boxes := bt_insert (lb_node_id layout) layout (lsn_boxes s),
           lsn_generation := lsn_generation s + 1\<rparr>)"

definition LayoutSnapshot_set_facts :: "EngineNodeId \<Rightarrow> LayoutFacts \<Rightarrow> LayoutSnapshot \<Rightarrow> LayoutSnapshot" where
  "LayoutSnapshot_set_facts i facts s =
     s\<lparr>lsn_facts := bt_insert i facts (lsn_facts s), lsn_generation := lsn_generation s + 1\<rparr>"

definition LayoutSnapshot_remove :: "EngineNodeId \<Rightarrow> LayoutSnapshot \<Rightarrow> LayoutBox option \<times> LayoutSnapshot" where
  "LayoutSnapshot_remove i s =
     (case bt_get (lsn_boxes s) i of
        None \<Rightarrow> (None, s)
      | Some removed \<Rightarrow>
          (Some removed, s\<lparr>lsn_boxes := bt_remove i (lsn_boxes s),
             lsn_dirty_regions := lsn_dirty_regions s @ [lb_rect removed], lsn_generation := lsn_generation s + 1\<rparr>))"

definition LayoutSnapshot_invalidate :: "EngineNodeId \<Rightarrow> LayoutSnapshot \<Rightarrow> bool \<times> LayoutSnapshot" where
  "LayoutSnapshot_invalidate i s =
     (case bt_get (lsn_boxes s) i of
        None \<Rightarrow> (False, s)
      | Some layout \<Rightarrow> (True, s\<lparr>lsn_dirty_regions := lsn_dirty_regions s @ [lb_rect layout]\<rparr>))"

definition LayoutSnapshot_drain_dirty_regions :: "LayoutSnapshot \<Rightarrow> Rect list \<times> LayoutSnapshot" where
  "LayoutSnapshot_drain_dirty_regions s = (lsn_dirty_regions s, s\<lparr>lsn_dirty_regions := []\<rparr>)"

text \<open>The filter of the hit test.\<close>

definition hit_candidate :: "LayoutSnapshot \<Rightarrow> f64 \<Rightarrow> f64 \<Rightarrow> LayoutBox \<Rightarrow> bool" where
  "hit_candidate s x y layout =
     (lb_visible layout \<and> \<not> lb_clipped layout \<and> lb_pointer_events layout \<and> \<not> lb_disabled layout
      \<and> Rect_contains (lb_rect layout) x y
      \<and> (case bt_get (lsn_facts s) (lb_node_id layout) of
           None \<Rightarrow> True
         | Some facts \<Rightarrow> lf_hit_regions facts = [] \<or> list_ex (\<lambda>r. Rect_contains r x y) (lf_hit_regions facts)))"

text \<open>\<open>max_by_key\<close> keeps the later of two equal maxima.\<close>

definition above :: "LayoutBox \<Rightarrow> LayoutBox \<Rightarrow> bool" where
  "above a b = (lb_z_index b < lb_z_index a \<or> lb_z_index b = lb_z_index a \<and> lb_node_id b < lb_node_id a)"

definition topmost :: "LayoutBox list \<Rightarrow> LayoutBox option" where
  "topmost bs = fold (\<lambda>b best. case best of None \<Rightarrow> Some b | Some a \<Rightarrow> if above a b then Some a else Some b) bs None"

definition LayoutSnapshot_hit_test :: "LayoutSnapshot \<Rightarrow> f64 \<Rightarrow> f64 \<Rightarrow> EngineNodeId option" where
  "LayoutSnapshot_hit_test s x y =
     (let viewport_limited = (ieee_less (Finite 0) (rect_width (lsn_viewport s))
            \<and> ieee_less (Finite 0) (rect_height (lsn_viewport s)))
      in if viewport_limited \<and> \<not> Rect_contains (lsn_viewport s) x y then None
         else map_option lb_node_id (topmost (filter (hit_candidate s x y) (bt_values (lsn_boxes s)))))"

subsection \<open>Computed style\<close>

datatype VisibilityState = Visible | DisplayNone | Hidden | Transparent | Clipped | PointerEventsNone

record ComputedStyle =
  csty_display :: string
  csty_visibility :: string
  csty_opacity :: f32
  csty_z_index :: int
  csty_pointer_events :: bool
  csty_clipped :: bool
  csty_pseudo_elements :: "(string, string) BTreeMap"
  csty_media_state :: "(string, bool) BTreeMap"

definition ComputedStyle_default :: ComputedStyle where
  "ComputedStyle_default = \<lparr>csty_display = ''block'', csty_visibility = ''visible'', csty_opacity = Finite 1,
     csty_z_index = 0, csty_pointer_events = True, csty_clipped = False, csty_pseudo_elements = [], csty_media_state = []\<rparr>"

definition ComputedStyle_visibility_state :: "ComputedStyle \<Rightarrow> VisibilityState" where
  "ComputedStyle_visibility_state c =
     (if csty_display c = ''none'' then DisplayNone
      else if csty_visibility c \<noteq> ''visible'' then Hidden
      else if ieee_le (csty_opacity c) (Finite 0) then Transparent
      else if csty_clipped c then Clipped
      else if \<not> csty_pointer_events c then PointerEventsNone
      else Visible)"

definition ComputedStyle_semantically_visible :: "ComputedStyle \<Rightarrow> bool" where
  "ComputedStyle_semantically_visible c = (ComputedStyle_visibility_state c = Visible)"

record StyleSnapshot =
  ss_generation :: u64
  ss_nodes :: "(EngineNodeId, ComputedStyle) BTreeMap"
  ss_dirty_nodes :: "EngineNodeId list"

definition StyleSnapshot_set :: "EngineNodeId \<Rightarrow> ComputedStyle \<Rightarrow> StyleSnapshot \<Rightarrow> StyleSnapshot" where
  "StyleSnapshot_set i c s =
     s\<lparr>ss_nodes := bt_insert i c (ss_nodes s), ss_dirty_nodes := ss_dirty_nodes s @ [i],
       ss_generation := ss_generation s + 1\<rparr>"

definition StyleSnapshot_remove :: "EngineNodeId \<Rightarrow> StyleSnapshot \<Rightarrow> ComputedStyle option \<times> StyleSnapshot" where
  "StyleSnapshot_remove i s =
     (case bt_get (ss_nodes s) i of
        None \<Rightarrow> (None, s)
      | Some c \<Rightarrow> (Some c, s\<lparr>ss_nodes := bt_remove i (ss_nodes s), ss_dirty_nodes := ss_dirty_nodes s @ [i],
                           ss_generation := ss_generation s + 1\<rparr>))"

definition StyleSnapshot_drain_dirty_nodes :: "StyleSnapshot \<Rightarrow> EngineNodeId list \<times> StyleSnapshot" where
  "StyleSnapshot_drain_dirty_nodes s = (ss_dirty_nodes s, s\<lparr>ss_dirty_nodes := []\<rparr>)"

definition StyleSnapshot_visible :: "StyleSnapshot \<Rightarrow> EngineNodeId \<Rightarrow> bool" where
  "StyleSnapshot_visible s i =
     (case bt_get (ss_nodes s) i of None \<Rightarrow> False | Some c \<Rightarrow> ComputedStyle_semantically_visible c)"

subsection \<open>The event trace\<close>

datatype ChangeEvent =
    NodeAdded string | NodeRemoved string | NodeChanged string | StyleChanged string | LayoutChanged string
  | RuntimeTaskQueued string | MicrotaskQueuedEvent string | NavigationStarted string | NavigationCompleted string
  | RequestStartedEvent string | RequestCompletedEvent string | RequestFailedEvent string string
  | InputDispatched string | StorageChanged string string | PermissionChanged string string
  | AgentStateChanged string string | DialogOpened string | DialogClosed string | FocusChanged "string option"
  | DownloadStarted string | PermissionRequested string | CredentialRequired string | TransactionDetected string
  | ChallengeObserved string string string | ChallengeCleared string | ProfileInconsistencyEvent string string string

record TraceEntry =
  te_sequence :: u64
  te_event :: ChangeEvent

datatype TraceError = NonMonotonicSequence | TraceSerialization

record EventTrace =
  et_entries :: "TraceEntry list"
  et_next_sequence :: u64

definition EventTrace_default :: EventTrace where
  "EventTrace_default = \<lparr>et_entries = [], et_next_sequence = 0\<rparr>"

definition EventTrace_record :: "ChangeEvent \<Rightarrow> EventTrace \<Rightarrow> u64 \<times> EventTrace" where
  "EventTrace_record event t =
     (et_next_sequence t,
      t\<lparr>et_next_sequence := et_next_sequence t + 1,
        et_entries := et_entries t @ [\<lparr>te_sequence = et_next_sequence t, te_event = event\<rparr>]\<rparr>)"

text \<open>The check of the order, with the entries handed on before the first violation.\<close>

fun trace_loop :: "u64 option \<Rightarrow> TraceEntry list \<Rightarrow> (TraceError + unit) \<times> TraceEntry list" where
  "trace_loop previous [] = (Inr (), [])"
| "trace_loop previous (e # es) =
     (if (case previous of None \<Rightarrow> False | Some s \<Rightarrow> te_sequence e \<le> s) then (Inl NonMonotonicSequence, [])
      else (case trace_loop (Some (te_sequence e)) es of (r, seen) \<Rightarrow> (r, e # seen)))"

definition EventTrace_replay :: "EventTrace \<Rightarrow> (TraceError + unit) \<times> TraceEntry list" where
  "EventTrace_replay t = trace_loop None (et_entries t)"

definition EventTrace_to_json :: "(EventTrace \<Rightarrow> 'text option) \<Rightarrow> EventTrace \<Rightarrow> TraceError + 'text" where
  "EventTrace_to_json encode t = ok_or TraceSerialization (encode t)"

definition EventTrace_from_json :: "('text \<Rightarrow> EventTrace option) \<Rightarrow> 'text \<Rightarrow> TraceError + EventTrace" where
  "EventTrace_from_json decode val =
     (case decode val of
        None \<Rightarrow> Inl TraceSerialization
      | Some t \<Rightarrow>
          (case fst (trace_loop None (et_entries t)) of
             Inl e \<Rightarrow> Inl e
           | Inr _ \<Rightarrow> Inr (t\<lparr>et_next_sequence :=
               (if et_entries t = [] then 0 else saturating_add (Max (te_sequence ` set (et_entries t))) 1)\<rparr>)))"

subsection \<open>The stream of changes\<close>

record StreamBatch =
  sb_batch_events :: "ChangeEvent list"
  sb_batch_dropped :: u64

record ChangeStream =
  chs_capacity :: nat
  chs_dropped :: u64
  chs_events :: "ChangeEvent list"

definition ChangeStream_bounded :: "nat \<Rightarrow> ChangeStream" where
  "ChangeStream_bounded capacity = \<lparr>chs_capacity = max capacity 1, chs_dropped = 0, chs_events = []\<rparr>"

definition ChangeStream_default :: ChangeStream where
  "ChangeStream_default = ChangeStream_bounded 256"

definition ChangeStream_publish :: "ChangeEvent \<Rightarrow> ChangeStream \<Rightarrow> ChangeStream" where
  "ChangeStream_publish event s =
     (let s = (if length (chs_events s) = chs_capacity s
               then s\<lparr>chs_events := tl (chs_events s), chs_dropped := chs_dropped s + 1\<rparr> else s)
      in s\<lparr>chs_events := chs_events s @ [event]\<rparr>)"

definition ChangeStream_drain :: "ChangeStream \<Rightarrow> (u64 + ChangeEvent list) \<times> ChangeStream" where
  "ChangeStream_drain s =
     (if chs_dropped s = 0 then (Inr (chs_events s), s\<lparr>chs_events := []\<rparr>)
      else (Inl (chs_dropped s), s\<lparr>chs_events := [], chs_dropped := 0\<rparr>))"

definition ChangeStream_drain_with_loss :: "ChangeStream \<Rightarrow> StreamBatch \<times> ChangeStream" where
  "ChangeStream_drain_with_loss s =
     (\<lparr>sb_batch_events = chs_events s, sb_batch_dropped = chs_dropped s\<rparr>, s\<lparr>chs_events := [], chs_dropped := 0\<rparr>)"

subsection \<open>Runtime evidence\<close>

datatype RuntimeEvent =
    TaskStarted u64 | TaskCompleted u64 | MicrotaskQueued u64 | PromiseSettled u64 bool
  | WorkerStarted u64 | WorkerStopped u64 | Exception string | DomMutationObserved u64

record RuntimeEvidence =
  rev_event :: RuntimeEvent
  rev_provenance :: "ProvenanceSource list"

record RuntimeObserver =
  ro_next_task :: u64
  ro_next_worker :: u64
  ro_events :: "RuntimeEvidence list"

definition RuntimeObserver_default :: RuntimeObserver where
  "RuntimeObserver_default = \<lparr>ro_next_task = 0, ro_next_worker = 0, ro_events = []\<rparr>"

definition RuntimeObserver_observe_with_provenance ::
    "RuntimeEvent \<Rightarrow> ProvenanceSource \<Rightarrow> RuntimeObserver \<Rightarrow> RuntimeObserver" where
  "RuntimeObserver_observe_with_provenance event source r =
     r\<lparr>ro_events := ro_events r @ [\<lparr>rev_event = event, rev_provenance = [source]\<rparr>]\<rparr>"

definition RuntimeObserver_observe :: "RuntimeEvent \<Rightarrow> RuntimeObserver \<Rightarrow> RuntimeObserver" where
  "RuntimeObserver_observe event r =
     RuntimeObserver_observe_with_provenance event
       \<lparr>ps_kind = JavaScript, ps_reference = ''runtime-observer'', ps_detail = None\<rparr> r"

definition RuntimeObserver_start_task :: "RuntimeObserver \<Rightarrow> u64 \<times> RuntimeObserver" where
  "RuntimeObserver_start_task r =
     (let i = ro_next_task r + 1
      in (i, RuntimeObserver_observe (TaskStarted i) (r\<lparr>ro_next_task := i\<rparr>)))"

definition RuntimeObserver_complete_task :: "u64 \<Rightarrow> RuntimeObserver \<Rightarrow> RuntimeObserver" where
  "RuntimeObserver_complete_task i = RuntimeObserver_observe (TaskCompleted i)"

definition RuntimeObserver_queue_microtask :: "u64 \<Rightarrow> RuntimeObserver \<Rightarrow> RuntimeObserver" where
  "RuntimeObserver_queue_microtask i = RuntimeObserver_observe (MicrotaskQueued i)"

definition RuntimeObserver_settle_promise :: "u64 \<Rightarrow> bool \<Rightarrow> RuntimeObserver \<Rightarrow> RuntimeObserver" where
  "RuntimeObserver_settle_promise i fulfilled = RuntimeObserver_observe (PromiseSettled i fulfilled)"

definition RuntimeObserver_start_worker :: "RuntimeObserver \<Rightarrow> u64 \<times> RuntimeObserver" where
  "RuntimeObserver_start_worker r =
     (let i = ro_next_worker r + 1
      in (i, RuntimeObserver_observe (WorkerStarted i) (r\<lparr>ro_next_worker := i\<rparr>)))"

definition RuntimeObserver_stop_worker :: "u64 \<Rightarrow> RuntimeObserver \<Rightarrow> RuntimeObserver" where
  "RuntimeObserver_stop_worker i = RuntimeObserver_observe (WorkerStopped i)"

definition RuntimeObserver_observe_exception :: "string \<Rightarrow> RuntimeObserver \<Rightarrow> RuntimeObserver" where
  "RuntimeObserver_observe_exception message = RuntimeObserver_observe (Exception message)"

definition RuntimeObserver_observe_dom_mutation :: "u64 \<Rightarrow> RuntimeObserver \<Rightarrow> RuntimeObserver" where
  "RuntimeObserver_observe_dom_mutation i = RuntimeObserver_observe (DomMutationObserved i)"

text \<open>\<open>drain(..limit)\<close> panics, here \<open>None\<close>, when there are fewer events than asked for.\<close>

definition RuntimeObserver_drain_bounded :: "nat \<Rightarrow> RuntimeObserver \<Rightarrow> (RuntimeEvent list \<times> RuntimeObserver) option" where
  "RuntimeObserver_drain_bounded limit r =
     (if limit > length (ro_events r) then None
      else Some (map rev_event (take limit (ro_events r)), r\<lparr>ro_events := drop limit (ro_events r)\<rparr>))"

definition RuntimeObserver_drain :: "RuntimeObserver \<Rightarrow> RuntimeEvent list \<times> RuntimeObserver" where
  "RuntimeObserver_drain r = (map rev_event (ro_events r), r\<lparr>ro_events := []\<rparr>)"

definition RuntimeObserver_drain_evidence :: "RuntimeObserver \<Rightarrow> RuntimeEvidence list \<times> RuntimeObserver" where
  "RuntimeObserver_drain_evidence r = (ro_events r, r\<lparr>ro_events := []\<rparr>)"

subsection \<open>The hit test finds the topmost candidate\<close>

lemma above_total: "lb_node_id a \<noteq> lb_node_id b \<Longrightarrow> above a b \<or> above b a"
  by (auto simp: above_def)

lemma above_trans: "above a b \<Longrightarrow> above b c \<Longrightarrow> above a c"
  by (auto simp: above_def)

lemma not_above_self: "\<not> above a a"
  by (simp add: above_def)

lemma topmost_append:
  "topmost (bs @ [b]) = (case topmost bs of None \<Rightarrow> Some b | Some a \<Rightarrow> if above a b then Some a else Some b)"
  by (simp add: topmost_def)

lemma topmost_None [simp]: "topmost bs = None \<longleftrightarrow> bs = []"
  by (cases bs rule: rev_cases) (auto simp: topmost_append topmost_def split: option.splits)

lemma topmost_is_max:
  assumes "distinct (map lb_node_id bs)" and "topmost bs = Some a"
  shows "a \<in> set bs \<and> (\<forall>b \<in> set bs. b = a \<or> above a b)"
  using assms
proof (induction bs arbitrary: a rule: rev_induct)
  case Nil
  then show ?case by (simp add: topmost_def)
next
  case (snoc b bs)
  show ?case
  proof (cases "topmost bs")
    case None
    then have "bs = []" by simp
    then show ?thesis using snoc.prems(2) by (simp add: topmost_def)
  next
    case (Some c)
    with snoc.IH [of c] snoc.prems(1) have c: "c \<in> set bs" "\<forall>d \<in> set bs. d = c \<or> above c d" by auto
    have "lb_node_id c \<noteq> lb_node_id b" 
    proof
      assume "lb_node_id c = lb_node_id b"
      then have "lb_node_id b \<in> lb_node_id ` set bs" using c(1) by (metis imageI)
      then show False using snoc.prems(1) by simp
    qed
    then have "above c b \<or> above b c" by (rule above_total)
    then show ?thesis using snoc.prems(2) Some c by (auto simp: topmost_append split: if_splits intro: above_trans)
  qed
qed

lemma topmost_eq_iff:
  assumes "distinct (map lb_node_id bs)"
  shows "topmost bs = Some a \<longleftrightarrow> a \<in> set bs \<and> (\<forall>b \<in> set bs. b = a \<or> above a b)"
proof
  assume a: "a \<in> set bs \<and> (\<forall>b \<in> set bs. b = a \<or> above a b)"
  then obtain c where c: "topmost bs = Some c" by (cases "topmost bs") auto
  then have "c \<in> set bs" "\<forall>b \<in> set bs. b = c \<or> above c b" using topmost_is_max [OF assms c] by simp_all
  then have "c = a" using a above_trans [of c a c] not_above_self [of c] by metis
  then show "topmost bs = Some a" using c by simp
qed (rule topmost_is_max [OF assms])

text \<open>Every box is stored under its own node.\<close>

definition layout_ok :: "LayoutSnapshot \<Rightarrow> bool" where
  "layout_ok s = (bt_ok (lsn_boxes s) \<and> (\<forall>i b. bt_get (lsn_boxes s) i = Some b \<longrightarrow> lb_node_id b = i))"

inductive layout_step :: "LayoutSnapshot \<Rightarrow> LayoutSnapshot \<Rightarrow> bool" where
  "layout_step s (LayoutSnapshot_insert layout s)"
| "layout_step s (LayoutSnapshot_set_facts i facts s)"
| "layout_step s (snd (LayoutSnapshot_remove i s))"
| "layout_step s (snd (LayoutSnapshot_invalidate i s))"
| "layout_step s (snd (LayoutSnapshot_drain_dirty_regions s))"
| "layout_step s (s\<lparr>lsn_viewport := viewport\<rparr>)"

lemma layout_step_ok: "layout_step s t \<Longrightarrow> layout_ok s \<Longrightarrow> layout_ok t"
  by (induction rule: layout_step.induct)
     (auto simp: layout_ok_def LayoutSnapshot_insert_def LayoutSnapshot_set_facts_def LayoutSnapshot_remove_def
        LayoutSnapshot_invalidate_def LayoutSnapshot_drain_dirty_regions_def Let_def split: option.split if_splits)

interpretation layouts: kept_invariant layout_step layout_ok
  by unfold_locales (rule layout_step_ok)

lemma layout_reached: "layout_step\<^sup>*\<^sup>* LayoutSnapshot_default s \<Longrightarrow> layout_ok s"
  by (rule layouts.reach_keeps) (auto simp: layout_ok_def LayoutSnapshot_default_def)

lemma layout_values: "layout_ok s \<Longrightarrow> b \<in> set (bt_values (lsn_boxes s)) \<longleftrightarrow> bt_get (lsn_boxes s) (lb_node_id b) = Some b"
proof -
  assume s: "layout_ok s"
  then have "bt_ok (lsn_boxes s)" "\<And>i. (i, b) \<in> set (lsn_boxes s) \<Longrightarrow> lb_node_id b = i"
    by (simp_all add: layout_ok_def bt_get_iff_in)
  then have "(\<exists>i. (i, b) \<in> set (lsn_boxes s)) \<longleftrightarrow> (lb_node_id b, b) \<in> set (lsn_boxes s)" by metis
  moreover have "b \<in> set (bt_values (lsn_boxes s)) \<longleftrightarrow> (\<exists>i. (i, b) \<in> set (lsn_boxes s))" by force
  ultimately show ?thesis using bt_get_iff_in [OF \<open>bt_ok (lsn_boxes s)\<close>] by blast
qed

lemma layout_values_distinct: "layout_ok s \<Longrightarrow> distinct (map lb_node_id (bt_values (lsn_boxes s)))"
proof -
  assume s: "layout_ok s"
  then have "map lb_node_id (bt_values (lsn_boxes s)) = bt_keys (lsn_boxes s)"
    unfolding layout_ok_def by (auto simp: bt_get_iff_in)
  then show ?thesis using s bt_ok_distinct [of "lsn_boxes s"] by (simp add: layout_ok_def del: map_map)
qed

lemma candidates_by_node:
  assumes ident: "\<And>j b. f j = Some b \<Longrightarrow> lb_node_id b = j"
  shows "(\<exists>a. lb_node_id a = i \<and> (f (lb_node_id a) = Some a \<and> P a)
       \<and> (\<forall>b. f (lb_node_id b) = Some b \<and> P b \<longrightarrow> b = a \<or> above a b))
    \<longleftrightarrow> (\<exists>a. f i = Some a \<and> P a \<and> (\<forall>j b. f j = Some b \<and> P b \<longrightarrow> j = i \<or> above a b))" (is "?l = ?r")
proof
  assume ?l
  then obtain a where a: "lb_node_id a = i" "f i = Some a" "P a" "\<And>b. f (lb_node_id b) = Some b \<Longrightarrow> P b \<Longrightarrow> b = a \<or> above a b"
    by auto
  have "j = i \<or> above a b" if "f j = Some b" "P b" for j b
    using a(4) [of b] that ident [OF that(1)] a(1) by auto
  then show ?r using a(2,3) by blast
next
  assume ?r
  then obtain a where a: "f i = Some a" "P a" "\<And>j b. f j = Some b \<Longrightarrow> P b \<Longrightarrow> j = i \<or> above a b" by auto
  have "b = a \<or> above a b" if "f (lb_node_id b) = Some b" "P b" for b
    using a(3) [OF that] that(1) a(1) by auto
  then show ?l using a(1,2) ident [OF a(1)] by blast
qed

lemma hit_test_iff:
  assumes "layout_ok s"
  shows "LayoutSnapshot_hit_test s x y = Some i \<longleftrightarrow>
    \<not> (ieee_less (Finite 0) (rect_width (lsn_viewport s)) \<and> ieee_less (Finite 0) (rect_height (lsn_viewport s))
       \<and> \<not> Rect_contains (lsn_viewport s) x y)
    \<and> (\<exists>a. bt_get (lsn_boxes s) i = Some a \<and> hit_candidate s x y a
         \<and> (\<forall>j b. bt_get (lsn_boxes s) j = Some b \<and> hit_candidate s x y b \<longrightarrow> j = i \<or> above a b))"
proof -
  let ?c = "filter (hit_candidate s x y) (bt_values (lsn_boxes s))"
  have d: "distinct (map lb_node_id ?c)" using layout_values_distinct [OF assms] by (rule distinct_map_filter)
  have ident: "bt_get (lsn_boxes s) j = Some b \<Longrightarrow> lb_node_id b = j" for j b using assms by (simp add: layout_ok_def)
  have "map_option lb_node_id (topmost ?c) = Some i \<longleftrightarrow>
     (\<exists>a. bt_get (lsn_boxes s) i = Some a \<and> hit_candidate s x y a
         \<and> (\<forall>j b. bt_get (lsn_boxes s) j = Some b \<and> hit_candidate s x y b \<longrightarrow> j = i \<or> above a b))"
    (is "?l \<longleftrightarrow> ?r")
  proof -
    have "?l \<longleftrightarrow> (\<exists>a. lb_node_id a = i \<and> topmost ?c = Some a)" by auto
    also have "\<dots> \<longleftrightarrow> ?r"
      unfolding topmost_eq_iff [OF d] set_filter Ball_def mem_Collect_eq layout_values [OF assms]
      by (rule candidates_by_node) (rule ident)
    finally show ?thesis .
  qed
  then show ?thesis by (auto simp: LayoutSnapshot_hit_test_def Let_def)
qed


definition sample_box :: "EngineNodeId \<Rightarrow> int \<Rightarrow> LayoutBox" where
  "sample_box i z =
     \<lparr>lb_node_id = i, lb_rect = \<lparr>rect_x = Finite 0, rect_y = Finite 0, rect_width = Finite 8, rect_height = Finite 8\<rparr>,
      lb_visible = True, lb_clipped = False, lb_z_index = z, lb_pointer_events = True, lb_disabled = False,
      lb_provenance = []\<rparr>"


subsection \<open>The stream keeps the latest events and counts the others\<close>

abbreviation publish_events :: "ChangeEvent list \<Rightarrow> ChangeStream \<Rightarrow> ChangeStream" where
  "publish_events es s \<equiv> fold ChangeStream_publish es s"

lemma publish_events_exact:
  "publish_events es (ChangeStream_bounded n) =
     \<lparr>chs_capacity = max n 1, chs_dropped = of_nat (length es - max n 1), chs_events = drop (length es - max n 1) es\<rparr>"
proof (induction es rule: rev_induct)
  case Nil
  then show ?case by (simp add: ChangeStream_bounded_def)
next
  case (snoc e es)
  show ?case
  proof (cases "max n 1 \<le> length es")
    case True
    then have "length (es @ [e]) - max n 1 = Suc (length es - max n 1)" and "length es - max n 1 < length es" by auto
    moreover have "drop (Suc (length es - max n 1)) (es @ [e]) = tl (drop (length es - max n 1) es) @ [e]"
      using calculation(2) by (simp add: drop_Suc tl_drop)
    moreover have "length es - (length es - max n 1) = max n 1" using True by (rule diff_diff_cancel)
    ultimately show ?thesis using snoc.IH by (simp add: ChangeStream_publish_def Let_def del: max_less_iff_conj)
  next
    case False
    then have "length es - max n 1 = 0" "length (es @ [e]) - max n 1 = 0" "length es \<noteq> max n 1" by auto
    then show ?thesis using snoc.IH by (simp add: ChangeStream_publish_def Let_def)
  qed
qed

lemma bounded_after_drain: "snd (ChangeStream_drain_with_loss (publish_events es (ChangeStream_bounded n))) = ChangeStream_bounded n"
  unfolding publish_events_exact by (simp add: ChangeStream_drain_with_loss_def ChangeStream_bounded_def)

fun publish_batches :: "ChangeEvent list list \<Rightarrow> ChangeStream \<Rightarrow> StreamBatch list" where
  "publish_batches [] s = []"
| "publish_batches (es # ess) s =
     (case ChangeStream_drain_with_loss (publish_events es s) of (b, t) \<Rightarrow> b # publish_batches ess t)"

text \<open>
  A consumer that drains the stream with its loss after each batch of published events gets, for every
  batch, exactly its last events up to the capacity, and the number of the events it did not get.
\<close>

theorem stream_delivers_the_latest_and_counts_the_rest:
  "publish_batches ess (ChangeStream_bounded n) =
     map (\<lambda>es. \<lparr>sb_batch_events = drop (length es - max n 1) es, sb_batch_dropped = of_nat (length es - max n 1)\<rparr>) ess"
proof (induction ess)
  case (Cons es ess)
  then show ?case
    using bounded_after_drain [of es n] publish_events_exact [of es n]
    by (simp add: ChangeStream_drain_with_loss_def)
qed simp

text \<open>The other drain gives up what it holds when anything was lost.\<close>

lemma drain_discards_after_loss:
  "chs_dropped s \<noteq> 0 \<Longrightarrow> ChangeStream_drain s = (Inl (chs_dropped s), s\<lparr>chs_events := [], chs_dropped := 0\<rparr>)"
  by (simp add: ChangeStream_drain_def)

subsection \<open>Traces survive their serialised form\<close>

definition trace_ok :: "EventTrace \<Rightarrow> bool" where
  "trace_ok t = (sorted_wrt (<) (map te_sequence (et_entries t))
     \<and> et_next_sequence t = (if et_entries t = [] then 0 else saturating_add (te_sequence (last (et_entries t))) 1))"

lemma trace_loop_ok:
  "sorted_wrt (<) (map te_sequence es) \<Longrightarrow> (case prev of None \<Rightarrow> True | Some p \<Rightarrow> (\<forall>e \<in> set es. p < te_sequence e)) \<Longrightarrow>
   trace_loop prev es = (Inr (), es)"
  by (induction prev es rule: trace_loop.induct) (auto split: option.splits)

lemma trace_loop_accepts:
  "fst (trace_loop prev es) = Inr u \<Longrightarrow>
   sorted_wrt (<) (map te_sequence es) \<and> (case prev of None \<Rightarrow> True | Some p \<Rightarrow> (\<forall>e \<in> set es. p < te_sequence e))"
proof (induction prev es rule: trace_loop.induct)
  case (2 prev e es)
  have ok: "\<not> (case prev of None \<Rightarrow> False | Some s \<Rightarrow> te_sequence e \<le> s)" using "2.prems" by (auto split: if_splits)
  then have "fst (trace_loop (Some (te_sequence e)) es) = Inr u" using "2.prems" by (auto split: prod.splits)
  then have "sorted_wrt (<) (map te_sequence es)" "\<forall>x \<in> set es. te_sequence e < te_sequence x"
    using "2.IH" [OF ok] by simp_all
  moreover have "case prev of None \<Rightarrow> True | Some p \<Rightarrow> p < te_sequence e" using ok by (auto split: option.splits)
  ultimately show ?case by (auto split: option.splits)
qed (auto split: option.split)

lemma Max_ascending:
  fixes xs :: "'a::linorder list"
  assumes "sorted_wrt (<) xs" and "xs \<noteq> []"
  shows "Max (set xs) = last xs"
proof (rule Max_eqI)
  show "y \<le> last xs" if "y \<in> set xs" for y
    using assms that by (cases xs rule: rev_cases) (auto simp: sorted_wrt_append)
qed (use assms in simp_all)

lemma trace_record_ok: "trace_ok t \<Longrightarrow> et_next_sequence t < - 1 \<Longrightarrow> trace_ok (snd (EventTrace_record e t))"
proof -
  assume t: "trace_ok t" "et_next_sequence t < - 1"
  let ?n = "et_next_sequence t"
  have "unat ?n + 1 < 2 ^ 64" using t(2) by (simp add: word_less_nat_alt unat_max_word)
  then have next_seq: "?n + 1 = saturating_add ?n 1" by (simp add: saturating_add_def)
  have "x < ?n" if "x \<in> te_sequence ` set (et_entries t)" for x
  proof -
    have ne: "et_entries t \<noteq> []" using that by auto
    let ?l = "te_sequence (last (et_entries t))"
    have n: "?n = saturating_add ?l 1" using t(1) ne by (simp add: trace_ok_def)
    have "?l \<noteq> - 1" using n t(2) by (auto simp: saturating_add_def unat_max_word)
    then have "?l < - 1" by (simp add: word_less_1 order_less_le)
    then have "?l < ?n" unfolding n by (rule saturating_add_gt) simp
    moreover have "x \<le> ?l"
    proof -
      have "Max (set (map te_sequence (et_entries t))) = last (map te_sequence (et_entries t))"
        using t(1) ne by (intro Max_ascending) (simp_all add: trace_ok_def)
      then show ?thesis using that ne by (metis List.finite_set Max_ge last_map list.set_map)
    qed
    ultimately show ?thesis by simp
  qed
  then show ?thesis using t(1) next_seq by (simp add: trace_ok_def EventTrace_record_def sorted_wrt_append)
qed

lemma trace_load_ok: "EventTrace_from_json decode v = Inr t \<Longrightarrow> trace_ok t"
proof -
  assume load: "EventTrace_from_json decode v = Inr t"
  then obtain r where r: "decode v = Some r" "fst (trace_loop None (et_entries r)) = Inr ()"
    by (auto simp: EventTrace_from_json_def split: option.splits sum.splits)
  have asc: "sorted_wrt (<) (map te_sequence (et_entries r))" using trace_loop_accepts [OF r(2)] by simp
  have t: "t = r\<lparr>et_next_sequence :=
      (if et_entries r = [] then 0 else saturating_add (Max (te_sequence ` set (et_entries r))) 1)\<rparr>"
    using load r by (simp add: EventTrace_from_json_def)
  show ?thesis
  proof (cases "et_entries r = []")
    case False
    then have "Max (te_sequence ` set (et_entries r)) = te_sequence (last (et_entries r))"
      using Max_ascending [OF asc] by (simp add: last_map)
    then show ?thesis using t asc False by (simp add: trace_ok_def)
  qed (simp add: t trace_ok_def)
qed

text \<open>Traces that are recorded, or loaded and recorded further, until the sequence numbers run out.\<close>

inductive trace_step :: "EventTrace \<Rightarrow> EventTrace \<Rightarrow> bool" where
  trace_record: "et_next_sequence t < - 1 \<Longrightarrow> trace_step t (snd (EventTrace_record e t))"
| trace_load: "EventTrace_from_json (decode :: string \<Rightarrow> EventTrace option) v = Inr t' \<Longrightarrow> trace_step t t'"

interpretation traces: kept_invariant trace_step trace_ok
  by unfold_locales (auto elim!: trace_step.cases intro: trace_record_ok trace_load_ok)

lemma trace_reached: "trace_step\<^sup>*\<^sup>* EventTrace_default t \<Longrightarrow> trace_ok t"
  by (rule traces.reach_keeps) (auto simp: trace_ok_def EventTrace_default_def)

text \<open>
  A trace that was recorded, or loaded and recorded further, replays all its entries in order
  without an error and is restored exactly from its serialised form.
\<close>

theorem traces_replay_and_round_trip:
  assumes "trace_step\<^sup>*\<^sup>* EventTrace_default t"
    and codec: "\<And>u w. encode u = Some w \<Longrightarrow> decode w = Some u" and json: "EventTrace_to_json encode t = Inr v"
  shows "EventTrace_replay t = (Inr (), et_entries t) \<and> EventTrace_from_json decode v = Inr t"
proof -
  have t: "trace_ok t" by (rule trace_reached [OF assms(1)])
  then have loop: "trace_loop None (et_entries t) = (Inr (), et_entries t)"
    by (intro trace_loop_ok) (simp_all add: trace_ok_def)
  have "et_next_sequence t = (if et_entries t = [] then 0 else saturating_add (Max (te_sequence ` set (et_entries t))) 1)"
    using t Max_ascending [of "map te_sequence (et_entries t)"] by (auto simp: trace_ok_def last_map)
  moreover have "decode v = Some t" using codec json by (simp add: EventTrace_to_json_def)
  ultimately show ?thesis using loop by (simp add: EventTrace_replay_def EventTrace_from_json_def)
qed

theorem traces_replay_and_round_trip_witness:
  "EventTrace_replay (snd (EventTrace_record (NodeAdded ''n'') EventTrace_default)) =
     (Inr (), [\<lparr>te_sequence = 0, te_event = NodeAdded ''n''\<rparr>])"
proof -
  let ?t = "snd (EventTrace_record (NodeAdded ''n'') EventTrace_default)"
  have "trace_step EventTrace_default ?t" by (rule trace_record) (simp add: EventTrace_default_def word_less_nat_alt unat_max_word)
  then have "trace_step\<^sup>*\<^sup>* EventTrace_default ?t" by (rule r_into_rtranclp)
  with traces_replay_and_round_trip [of ?t Some Some ?t] show ?thesis
    by (simp add: EventTrace_record_def EventTrace_default_def EventTrace_to_json_def)
qed

subsection \<open>Evidence of the runtime\<close>

text \<open>Asking for more events than there are panics.\<close>

lemma drain_bounded_panics:
  "length (ro_events r) < limit \<Longrightarrow> RuntimeObserver_drain_bounded limit r = None"
  by (simp add: RuntimeObserver_drain_bounded_def)

lemma drain_bounded_splits:
  "RuntimeObserver_drain_bounded limit r = Some (es, r') \<Longrightarrow>
   es @ fst (RuntimeObserver_drain r') = fst (RuntimeObserver_drain r)"
  by (auto simp: RuntimeObserver_drain_bounded_def RuntimeObserver_drain_def simp flip: map_append split: if_splits)

end
