(* ===== verification/ActionPlanner.thy ===== *)
theory ActionPlanner
  imports Input Observers Text
begin

section \<open>The action planner\<close>

text \<open>
  The crate \<open>crates/action-planner\<close>: an action of an agent on a node of the render tree is resolved, checked
  against the layout and the transaction policy, and turned into native input events. The reading of a number of
  the parameters as a float (\<open>as_f64\<close>) and the dispatcher of the events are arguments.
\<close>

record PlannedAction =
  pa_action :: AgentAction
  pa_events :: "NativeInputEvent list"
  pa_classification :: TransactionClassification

record ActionResult =
  ares_action_id :: string
  ares_target :: string
  ares_generation :: u64
  ares_dispatched_events :: nat
  ares_completed :: bool
  ares_classification :: TransactionClassification

record ActionHistoryEntry =
  ahe_action :: AgentAction
  ahe_events :: "NativeInputEvent list"
  ahe_classification :: TransactionClassification
  ahe_generation :: u64

record ActionAuditEvent =
  aae_action_id :: string
  aae_target :: string
  aae_generation :: u64
  aae_classification :: TransactionClassification
  aae_event_count :: nat

record ActionHistory =
  ah_entries :: "ActionHistoryEntry list"
  ah_audit :: "ActionAuditEvent list"

definition ActionHistory_default :: ActionHistory where
  "ActionHistory_default = \<lparr>ah_entries = [], ah_audit = []\<rparr>"

definition ActionHistory_record :: "PlannedAction \<Rightarrow> u64 \<Rightarrow> ActionHistory \<Rightarrow> ActionHistory" where
  "ActionHistory_record p generation h =
     h\<lparr>ah_entries := ah_entries h @
          [\<lparr>ahe_action = pa_action p, ahe_events = pa_events p, ahe_classification = pa_classification p,
            ahe_generation = generation\<rparr>],
       ah_audit := ah_audit h @
          [\<lparr>aae_action_id = act_id (pa_action p), aae_target = act_target (pa_action p), aae_generation = generation,
            aae_classification = pa_classification p, aae_event_count = length (pa_events p)\<rparr>]\<rparr>"

definition ActionHistory_replay :: "ActionHistory \<Rightarrow> string \<Rightarrow> u64 \<Rightarrow> AgentAction option" where
  "ActionHistory_replay h action_id generation =
     map_option ahe_action
       (find (\<lambda>e. act_id (ahe_action e) = action_id \<and> ahe_generation e = generation) (rev (ah_entries h)))"

definition ActionHistory_clear :: "ActionHistory \<Rightarrow> ActionHistory" where
  "ActionHistory_clear h = h\<lparr>ah_entries := [], ah_audit := []\<rparr>"

definition ActionHistory_drain_audit :: "ActionHistory \<Rightarrow> ActionAuditEvent list \<times> ActionHistory" where
  "ActionHistory_drain_audit h = (ah_audit h, h\<lparr>ah_audit := []\<rparr>)"

datatype PlanningError =
    TargetNotFound AgentNodeId
  | AmbiguousTarget string
  | PlanStaleReference u64 u64
  | TargetNotInteractable AgentNodeId
  | ConfirmationRequired TransactionClassification
  | PlanDenied TransactionClassification
  | MissingText
  | MissingKey
  | MissingCoordinates

subsection \<open>Planning\<close>

text \<open>\<open>str::parse::<u64>\<close>: an optional plus sign, at least one digit, and a value in range.\<close>

definition parse_u64 :: "string \<Rightarrow> u64 option" where
  "parse_u64 s =
     (let body = (case s of [] \<Rightarrow> [] | c # r \<Rightarrow> if c = CHR ''+'' then r else s)
      in if body = [] \<or> \<not> list_all ascii_digit body \<or> 2 ^ 64 \<le> digits_int body then None
         else Some (word_of_int (digits_int body)))"

definition engine_node_id :: "string \<Rightarrow> EngineNodeId option" where
  "engine_node_id node_id = (if take 4 node_id = ''dom:'' then parse_u64 (drop 4 node_id) else None)"

definition classify_action :: "TransactionPolicy \<Rightarrow> ActionType \<Rightarrow> TransactionClassification" where
  "classify_action policy a =
     (let (c, r) =
        (if a \<in> {ActNavigate, Back, Forward, Reload} then (Navigate, LocalReversible)
         else if a \<in> {Type, ReplaceText, Toggle, Select} then (LocalWrite, LocalReversible)
         else if a \<in> {Submit, ActUpload} then (UnknownEffect, UnknownReversibility)
         else if a = ActDownload then (LocalWrite, LocalReversible)
         else if a = ActAuthenticate then (Authenticate, UnknownReversibility)
         else (ReadEffect, LocalReversible))
      in TransactionPolicy_classify policy c r)"

definition resolve_target :: "AgentRenderTree \<Rightarrow> string \<Rightarrow> PlanningError + AgentNode" where
  "resolve_target tree target =
     (case AgentRenderTree_find tree target of
        Some n \<Rightarrow> Inr n
      | None \<Rightarrow>
          (case AgentRenderTree_find_identity tree target of
             [n] \<Rightarrow> Inr n
           | [] \<Rightarrow> Inl (TargetNotFound target)
           | _ \<Rightarrow> Inl (AmbiguousTarget target)))"

definition midpoint :: "Geometry \<Rightarrow> f64 \<times> f64" where
  "midpoint g = (f64_add (geo_x g) (f64_half (geo_width g)), f64_add (geo_y g) (f64_half (geo_height g)))"

text \<open>The check against the layout: it is made when there is one, and for nodes of the document with a geometry.\<close>

definition covered_by_layout :: "LayoutSnapshot \<Rightarrow> AgentNode \<Rightarrow> bool" where
  "covered_by_layout layout n =
     (lsn_boxes layout = [] \<or>
      (case engine_node_id (an_id n) of
         None \<Rightarrow> True
       | Some i \<Rightarrow>
           (case an_geometry n of
              None \<Rightarrow> True
            | Some g \<Rightarrow> LayoutSnapshot_hit_test layout (fst (midpoint g)) (snd (midpoint g)) = Some i)))"

definition json_get :: "Json \<Rightarrow> string \<Rightarrow> Json option" where
  "json_get v k = (case v of JObject fs \<Rightarrow> map_of fs k | _ \<Rightarrow> None)"

definition str_param :: "AgentAction \<Rightarrow> string \<Rightarrow> string option" where
  "str_param a k = (case json_get (act_parameters a) k of Some (JString s) \<Rightarrow> Some s | _ \<Rightarrow> None)"

definition num_param :: "(string \<Rightarrow> f64 option) \<Rightarrow> AgentAction \<Rightarrow> string \<Rightarrow> f64 option" where
  "num_param as_f64 a k = (case json_get (act_parameters a) k of Some (JNumber s) \<Rightarrow> as_f64 s | _ \<Rightarrow> None)"

definition at_midpoint :: "AgentNode \<Rightarrow> (f64 \<times> f64 \<Rightarrow> NativeInputEvent list) \<Rightarrow> PlanningError + NativeInputEvent list" where
  "at_midpoint n f = (case an_geometry n of None \<Rightarrow> Inl MissingCoordinates | Some g \<Rightarrow> Inr (f (midpoint g)))"

definition action_events :: "(string \<Rightarrow> f64 option) \<Rightarrow> AgentNode \<Rightarrow> AgentAction \<Rightarrow> PlanningError + NativeInputEvent list" where
  "action_events as_f64 n a =
     (let k = act_action_type a
      in if k \<in> {Click, Activate, DoubleClick, ContextClick, Toggle, Select} then
           at_midpoint n (\<lambda>(x, y).
             let button = (if k = ContextClick then 2 else 0)
             in [PointerMove x y, PointerDown button, PointerUp button]
                @ (if k = DoubleClick then [PointerDown 0, PointerUp 0] else []))
         else if k = Hover then at_midpoint n (\<lambda>(x, y). [PointerMove x y])
         else if k = Type then map_sum id (\<lambda>s. [TextInput s]) (ok_or MissingText (str_param a ''text''))
         else if k = KeyPress then
           (case str_param a ''key'' of
              Some key \<Rightarrow> if key = [] then Inl MissingKey else Inr [KeyDown key, KeyUp key]
            | None \<Rightarrow> Inl MissingKey)
         else if k = ReplaceText then
           map_sum id (\<lambda>s. [KeyDown ''Control'', KeyDown ''A'', KeyUp ''A'', KeyUp ''Control'', TextInput s])
             (ok_or MissingText (str_param a ''text''))
         else if k = Scroll then
           Inr [ScrollBy (case num_param as_f64 a ''delta_x'' of None \<Rightarrow> Finite 0 | Some v \<Rightarrow> v)
                         (case num_param as_f64 a ''delta_y'' of None \<Rightarrow> Finite 0 | Some v \<Rightarrow> v)]
         else if k = Drag then
           (case an_geometry n of
              None \<Rightarrow> Inl MissingCoordinates
            | Some g \<Rightarrow>
                (case num_param as_f64 a ''to_x'' of
                   None \<Rightarrow> Inl MissingCoordinates
                 | Some to_x \<Rightarrow>
                     (case num_param as_f64 a ''to_y'' of
                        None \<Rightarrow> Inl MissingCoordinates
                      | Some to_y \<Rightarrow>
                          Inr [PointerMove (fst (midpoint g)) (snd (midpoint g)), PointerDown 0,
                               PointerMove to_x to_y, PointerUp 0])))
         else if k = Drop then at_midpoint n (\<lambda>(x, y). [PointerMove x y, PointerUp 0])
         else if k = Focus then at_midpoint n (\<lambda>(x, y). [PointerMove x y, PointerDown 0, PointerUp 0])
         else if k = Blur then Inr [KeyDown ''Tab'', KeyUp ''Tab'']
         else Inr [])"

definition ActionPlanner_plan_internal ::
    "(string \<Rightarrow> f64 option) \<Rightarrow> TransactionPolicy \<Rightarrow> AgentRenderTree \<Rightarrow> LayoutSnapshot \<Rightarrow> AgentAction \<Rightarrow>
     PlanningError + PlannedAction" where
  "ActionPlanner_plan_internal as_f64 policy tree layout a =
     (case resolve_target tree (act_target a) of
        Inl e \<Rightarrow> Inl e
      | Inr n \<Rightarrow>
          if \<not> ns_visible (an_state n) \<or> \<not> ns_enabled (an_state n) then Inl (TargetNotInteractable (an_id n))
          else if \<not> covered_by_layout layout n then Inl (TargetNotInteractable (an_id n))
          else (let c = classify_action policy (act_action_type a)
                in case cls_decision c of
                     Deny \<Rightarrow> Inl (PlanDenied c)
                   | RequireConfirmation \<Rightarrow> Inl (ConfirmationRequired c)
                   | Allow \<Rightarrow>
                       map_sum id (\<lambda>events. \<lparr>pa_action = a, pa_events = events, pa_classification = c\<rparr>)
                         (action_events as_f64 n a)))"

definition ActionPlanner_plan ::
    "(string \<Rightarrow> f64 option) \<Rightarrow> TransactionPolicy \<Rightarrow> AgentRenderTree \<Rightarrow> LayoutSnapshot \<Rightarrow> AgentAction \<Rightarrow>
     PlanningError + PlannedAction" where
  "ActionPlanner_plan as_f64 policy tree layout a = ActionPlanner_plan_internal as_f64 policy tree layout a"

definition ActionPlanner_plan_at_generation ::
    "(string \<Rightarrow> f64 option) \<Rightarrow> TransactionPolicy \<Rightarrow> AgentRenderTree \<Rightarrow> LayoutSnapshot \<Rightarrow> AgentAction \<Rightarrow> u64 \<Rightarrow>
     PlanningError + PlannedAction" where
  "ActionPlanner_plan_at_generation as_f64 policy tree layout a expected =
     (if art_generation tree \<noteq> expected then Inl (PlanStaleReference expected (art_generation tree))
      else ActionPlanner_plan_internal as_f64 policy tree layout a)"

subsection \<open>Execution\<close>

fun dispatch_all :: "(NativeInputEvent \<Rightarrow> 'd \<Rightarrow> ('e + unit) \<times> 'd) \<Rightarrow> NativeInputEvent list \<Rightarrow> 'd \<Rightarrow> ('e + unit) \<times> 'd" where
  "dispatch_all dispatch [] d = (Inr (), d)"
| "dispatch_all dispatch (e # es) d =
     (case dispatch e d of
        (Inl err, d) \<Rightarrow> (Inl err, d)
      | (Inr _, d) \<Rightarrow> dispatch_all dispatch es d)"

definition ActionPlanner_execute ::
    "(NativeInputEvent \<Rightarrow> 'd \<Rightarrow> ('e + unit) \<times> 'd) \<Rightarrow> PlannedAction \<Rightarrow> u64 \<Rightarrow> 'd \<Rightarrow> ('e + ActionResult) \<times> 'd" where
  "ActionPlanner_execute dispatch p generation d =
     (case dispatch_all dispatch (pa_events p) d of
        (Inl err, d) \<Rightarrow> (Inl err, d)
      | (Inr _, d) \<Rightarrow>
          (Inr \<lparr>ares_action_id = act_id (pa_action p), ares_target = act_target (pa_action p), ares_generation = generation,
                ares_dispatched_events = length (pa_events p), ares_completed = True,
                ares_classification = pa_classification p\<rparr>, d))"

subsection \<open>What is planned\<close>

lemma plan_success:
  assumes "ActionPlanner_plan as_f64 policy tree layout a = Inr p"
  obtains n where "resolve_target tree (act_target a) = Inr n" "ns_visible (an_state n)" "ns_enabled (an_state n)"
    "covered_by_layout layout n" "cls_decision (classify_action policy (act_action_type a)) = Allow"
    "pa_action p = a" "pa_classification p = classify_action policy (act_action_type a)"
    "action_events as_f64 n a = Inr (pa_events p)"
proof -
  from assms obtain n where r: "resolve_target tree (act_target a) = Inr n"
    by (auto simp: ActionPlanner_plan_def ActionPlanner_plan_internal_def split: sum.splits)
  have s: "ns_visible (an_state n)" "ns_enabled (an_state n)" "covered_by_layout layout n"
    using assms r by (auto simp: ActionPlanner_plan_def ActionPlanner_plan_internal_def split: if_splits)
  let ?c = "classify_action policy (act_action_type a)"
  have c: "cls_decision ?c = Allow"
    using assms r s by (cases "cls_decision ?c") (auto simp: ActionPlanner_plan_def ActionPlanner_plan_internal_def Let_def)
  obtain es where "action_events as_f64 n a = Inr es" "p = \<lparr>pa_action = a, pa_events = es, pa_classification = ?c\<rparr>"
    using assms r s c
    by (cases "action_events as_f64 n a") (auto simp: ActionPlanner_plan_def ActionPlanner_plan_internal_def Let_def)
  then show thesis using that r s c by simp
qed

lemma resolved_in_tree:
  assumes "resolve_target tree target = Inr n"
  shows "n \<in> set (art_nodes tree) \<and> (an_id n = target \<or> an_identity_key n = Some target)"
proof (cases "AgentRenderTree_find tree target")
  case None
  then have "AgentRenderTree_find_identity tree target = [n]"
    using assms by (auto simp: resolve_target_def split: list.splits)
  then have "n \<in> set (AgentRenderTree_find_identity tree target)" by simp
  then show ?thesis by (simp add: AgentRenderTree_find_identity_def)
next
  case (Some m)
  then have "m = n" using assms by (simp add: resolve_target_def)
  then show ?thesis using Some by (auto simp: AgentRenderTree_find_def find_Some_iff)
qed

text \<open>The points to which a sequence of events moves the pointer.\<close>

fun pointer_targets :: "NativeInputEvent list \<Rightarrow> (f64 \<times> f64) list" where
  "pointer_targets [] = []"
| "pointer_targets (PointerMove x y # es) = (x, y) # pointer_targets es"
| "pointer_targets (_ # es) = pointer_targets es"

lemma events_move_to_midpoint:
  "action_events as_f64 n a = Inr es \<Longrightarrow> pointer_targets es \<noteq> [] \<Longrightarrow>
   \<exists>g. an_geometry n = Some g \<and> hd (pointer_targets es) = midpoint g
     \<and> (act_action_type a = Drag \<or> tl (pointer_targets es) = [])"
  by (cases "act_action_type a") (auto simp: action_events_def at_midpoint_def Let_def ok_or_def split_def split: option.splits if_splits)

text \<open>
  C32: an action is planned only for a node of the tree that its target names (by identifier, or uniquely by identity
  key), that is visible and enabled, that the hit test finds at its midpoint wherever there is a layout to ask,
  and whose consequence the policy allows outright; the pointer goes to the midpoint of that node, and nowhere else
  unless the action is a drag.
\<close>

theorem planned_actions_are_allowed_and_on_target:
  assumes "ActionPlanner_plan as_f64 policy tree layout a = Inr p"
  shows "\<exists>n \<in> set (art_nodes tree). (an_id n = act_target a \<or> an_identity_key n = Some (act_target a))
    \<and> ns_visible (an_state n) \<and> ns_enabled (an_state n)
    \<and> (lsn_boxes layout = [] \<or> engine_node_id (an_id n) = None \<or> an_geometry n = None
        \<or> (\<exists>g. an_geometry n = Some g \<and>
             LayoutSnapshot_hit_test layout (fst (midpoint g)) (snd (midpoint g)) = engine_node_id (an_id n)))
    \<and> pa_action p = a \<and> pa_classification p = classify_action policy (act_action_type a)
    \<and> cls_decision (pa_classification p) = Allow
    \<and> (pointer_targets (pa_events p) = [] \<or>
       (\<exists>g. an_geometry n = Some g \<and> hd (pointer_targets (pa_events p)) = midpoint g
          \<and> (act_action_type a = Drag \<or> tl (pointer_targets (pa_events p)) = [])))"
proof -
  from plan_success [OF assms] obtain n where n: "resolve_target tree (act_target a) = Inr n"
    "ns_visible (an_state n)" "ns_enabled (an_state n)" "covered_by_layout layout n"
    "cls_decision (classify_action policy (act_action_type a)) = Allow" "pa_action p = a"
    "pa_classification p = classify_action policy (act_action_type a)" "action_events as_f64 n a = Inr (pa_events p)" .
  show ?thesis
    using n resolved_in_tree [OF n(1)] events_move_to_midpoint [OF n(8)]
    by (intro bexI [of _ n] conjI) (auto simp: covered_by_layout_def split: option.splits)
qed

text \<open>
  Buttons and keys are held in the manner of a stack: \<open>released held es\<close> says that the events release, in order,
  everything they press and \<open>held\<close> before, and nothing else.
\<close>

fun released :: "NativeInputEvent list \<Rightarrow> NativeInputEvent list \<Rightarrow> bool" where
  "released held [] = (held = [])"
| "released held (PointerDown b # es) = (PointerDown b \<notin> set held \<and> released (PointerDown b # held) es)"
| "released held (KeyDown k # es) = (KeyDown k \<notin> set held \<and> released (KeyDown k # held) es)"
| "released held (PointerUp b # es) = (case held of [] \<Rightarrow> False | h # hs \<Rightarrow> h = PointerDown b \<and> released hs es)"
| "released held (KeyUp k # es) = (case held of [] \<Rightarrow> False | h # hs \<Rightarrow> h = KeyDown k \<and> released hs es)"
| "released held (_ # es) = released held es"

lemma events_released:
  "action_events as_f64 n a = Inr es \<Longrightarrow> act_action_type a \<noteq> Drop \<Longrightarrow> released [] es"
  by (cases "act_action_type a") (auto simp: action_events_def at_midpoint_def Let_def ok_or_def split_def split: option.splits if_splits)

lemma released_append: "released held es \<Longrightarrow> released [] fs \<Longrightarrow> released held (es @ fs)"
proof (induction held es rule: released.induct)
  case (1 held)
  then show ?case by simp
qed (auto split: list.splits)

text \<open>
  C33: whatever actions are planned one after the other, drops aside, their events together release, innermost first,
  every button and key they press, press none that is down already and release none that is not.
\<close>

theorem plans_leave_nothing_pressed:
  assumes "list_all2 (\<lambda>(tree, layout, a) p. ActionPlanner_plan as_f64 policy tree layout a = Inr p
      \<and> act_action_type a \<noteq> Drop) steps plans"
  shows "released [] (concat (map pa_events plans))"
  using assms
proof (induction steps plans rule: list_all2_induct)
  case (Cons s steps p plans)
  obtain tree layout a where s: "s = (tree, layout, a)" by (cases s)
  with Cons.hyps obtain n where "action_events as_f64 n a = Inr (pa_events p)" "act_action_type a \<noteq> Drop"
    by (auto elim: plan_success)
  then have "released [] (pa_events p)" by (rule events_released)
  then show ?case using Cons.IH by (simp add: released_append)
qed simp

text \<open>Authentication is never planned, under any policy.\<close>

lemma authentication_is_never_planned:
  "act_action_type a = ActAuthenticate \<Longrightarrow> ActionPlanner_plan as_f64 policy tree layout a \<noteq> Inr p"
  by (auto elim!: plan_success simp: classify_action_def classify_decides)

text \<open>The actions of navigation and transfer are planned without an event, and executing them reports completion.\<close>

lemma navigation_dispatches_nothing:
  assumes "ActionPlanner_plan as_f64 policy tree layout a = Inr p"
    and "act_action_type a \<in> {ActNavigate, Back, Forward, Reload, ActUpload, ActDownload, Submit}"
  shows "pa_events p = [] \<and> (\<exists>r. ActionPlanner_execute dispatch p g d = (Inr r, d) \<and> ares_completed r)"
proof -
  from plan_success [OF assms(1)] obtain n where "action_events as_f64 n a = Inr (pa_events p)" by blast
  then have "pa_events p = []" using assms(2) by (auto simp: action_events_def Let_def)
  then show ?thesis by (simp add: ActionPlanner_execute_def)
qed

text \<open>Execution hands on the events in order and stops at the first that is refused.\<close>

lemma dispatch_all_append:
  "dispatch_all dispatch (es @ fs) d =
     (case dispatch_all dispatch es d of (Inl err, d) \<Rightarrow> (Inl err, d) | (Inr _, d) \<Rightarrow> dispatch_all dispatch fs d)"
  by (induction es arbitrary: d) (auto split: prod.splits sum.splits)

lemma execute_delivers_in_order:
  "fst (ActionPlanner_execute (\<lambda>e seen. if refuses e then (Inl e, seen) else (Inr (), seen @ [e])) p g seen) = Inr r \<Longrightarrow>
   snd (ActionPlanner_execute (\<lambda>e seen. if refuses e then (Inl e, seen) else (Inr (), seen @ [e])) p g seen) = seen @ pa_events p"
proof -
  let ?d = "\<lambda>e seen. if refuses e then (Inl e, seen) else (Inr (), seen @ [e])"
  have seen: "d = seen @ es" if "dispatch_all ?d es seen = (Inr (), d)" for es d seen
    using that
  proof (induction es arbitrary: seen)
    case (Cons e es)
    then have "dispatch_all ?d es (seen @ [e]) = (Inr (), d)" by (auto split: if_splits)
    from Cons.IH [OF this] show ?case by simp
  qed simp
  assume "fst (ActionPlanner_execute ?d p g seen) = Inr r"
  then show ?thesis by (auto simp: ActionPlanner_execute_def dest!: seen split: prod.splits sum.splits)
qed

lemma replay_after_record:
  "ActionHistory_replay (ActionHistory_record p g h) i g' =
     (if act_id (pa_action p) = i \<and> g = g' then Some (pa_action p) else ActionHistory_replay h i g')"
  by (simp add: ActionHistory_replay_def ActionHistory_record_def)

subsection \<open>Witnesses\<close>

definition sample_action :: AgentAction where
  "sample_action = \<lparr>act_id = ''1'', act_target = ''page'', act_action_type = KeyPress,
     act_parameters = JObject [(''key'', JString ''Enter'')]\<rparr>"

definition sample_plan :: PlannedAction where
  "sample_plan = \<lparr>pa_action = sample_action, pa_events = [KeyDown ''Enter'', KeyUp ''Enter''],
     pa_classification = classify_action TransactionPolicy_default KeyPress\<rparr>"

lemma sample_planned:
  "ActionPlanner_plan (\<lambda>_. None) TransactionPolicy_default (AgentRenderTree_new_page ''7'' ''p'') LayoutSnapshot_default
     sample_action = Inr sample_plan"
proof -
  have "cls_decision (classify_action TransactionPolicy_default KeyPress) = Allow"
    by (simp add: classify_action_def classify_decides)
  then show ?thesis
    by (simp add: ActionPlanner_plan_def ActionPlanner_plan_internal_def sample_action_def sample_plan_def resolve_target_def
        AgentRenderTree_find_def AgentRenderTree_find_identity_def AgentRenderTree_new_page_def covered_by_layout_def
        LayoutSnapshot_default_def action_events_def str_param_def json_get_def Let_def)
qed

theorem planned_actions_are_allowed_and_on_target_witness:
  "cls_decision (pa_classification sample_plan) = Allow \<and> pa_action sample_plan = sample_action"
  using planned_actions_are_allowed_and_on_target [OF sample_planned] by blast

theorem plans_leave_nothing_pressed_witness:
  "released [] (concat (map pa_events [sample_plan, sample_plan]))"
  by (rule plans_leave_nothing_pressed [of "\<lambda>_. None" TransactionPolicy_default
      "[(AgentRenderTree_new_page ''7'' ''p'', LayoutSnapshot_default, sample_action),
        (AgentRenderTree_new_page ''7'' ''p'', LayoutSnapshot_default, sample_action)]"])
     (use sample_planned in \<open>simp add: sample_action_def\<close>)

end
