(* ===== verification/Telemetry.thy ===== *)
theory Telemetry
  imports AgentTree BTreeMap
begin

section \<open>Logging and metrics\<close>

text \<open>
  The crates \<open>crates/logging\<close> (a logger that masks what looks like a secret) and \<open>crates/metrics\<close>
  (counters, gauges and samples by name). The serde encoder and decoder and the measured time are arguments.
\<close>

subsection \<open>The logger\<close>

datatype LogLevel = LogTrace | LogDebug | LogInfo | LogWarn | LogError

record LogEvent =
  le_level :: LogLevel
  le_correlation_id :: uuid
  le_message :: string
  le_fields :: "(string, string) BTreeMap"

type_synonym SecretSafeLogger = "LogEvent list"

definition log_key_words :: "string list" where
  "log_key_words = [''password'', ''secret'', ''token'', ''private_key'', ''card_number'', ''totp'']"

definition log_message_words :: "string list" where
  "log_message_words = [''password'', ''secret'', ''token'', ''private key'', ''card number'', ''totp'']"

definition redact_message :: "string \<Rightarrow> string" where
  "redact_message message =
     (if contains_any log_message_words (to_ascii_lowercase message) then ''[REDACTED]'' else message)"

definition redact_field :: "string \<times> string \<Rightarrow> string \<times> string" where
  "redact_field e =
     (fst e, if contains_any log_key_words (to_ascii_lowercase (fst e)) then ''[REDACTED]'' else snd e)"

definition SecretSafeLogger_log ::
    "LogLevel \<Rightarrow> uuid \<Rightarrow> string \<Rightarrow> (string, string) BTreeMap \<Rightarrow> SecretSafeLogger \<Rightarrow> SecretSafeLogger" where
  "SecretSafeLogger_log level correlation message fs events =
     events @ [\<lparr>le_level = level, le_correlation_id = correlation, le_message = redact_message message,
                le_fields = bt_collect (map redact_field fs)\<rparr>]"

definition SecretSafeLogger_events_for :: "SecretSafeLogger \<Rightarrow> uuid \<Rightarrow> LogEvent list" where
  "SecretSafeLogger_events_for events correlation = [e \<leftarrow> events. le_correlation_id e = correlation]"

definition SecretSafeLogger_drain :: "SecretSafeLogger \<Rightarrow> LogEvent list \<times> SecretSafeLogger" where
  "SecretSafeLogger_drain events = (events, [])"

definition SecretSafeLogger_debug_trace :: "(LogEvent list \<Rightarrow> 'text) \<Rightarrow> SecretSafeLogger \<Rightarrow> 'text" where
  "SecretSafeLogger_debug_trace encode events = encode events"

definition SecretSafeLogger_from_json :: "('text \<Rightarrow> 'e + LogEvent list) \<Rightarrow> 'text \<Rightarrow> 'e + SecretSafeLogger" where
  "SecretSafeLogger_from_json decode v = decode v"

subsection \<open>The registry of metrics\<close>

text \<open>A gauge is an \<open>i64\<close> that is only stored.\<close>

datatype MetricValue = Counter u64 | Gauge int | Samples "f64 list"

datatype MetricDomain = Performance | Memory | Concurrency | DomNetwork | Rendering | DomToken | DomAction | DomSecurity

fun MetricDomain_prefix :: "MetricDomain \<Rightarrow> string" where
  "MetricDomain_prefix Performance = ''performance''"
| "MetricDomain_prefix Memory = ''memory''"
| "MetricDomain_prefix Concurrency = ''concurrency''"
| "MetricDomain_prefix DomNetwork = ''network''"
| "MetricDomain_prefix Rendering = ''rendering''"
| "MetricDomain_prefix DomToken = ''token''"
| "MetricDomain_prefix DomAction = ''action''"
| "MetricDomain_prefix DomSecurity = ''security''"

type_synonym MetricRegistry = "(string, MetricValue) BTreeMap"

fun add_count :: "u64 \<Rightarrow> MetricValue \<Rightarrow> MetricValue" where
  "add_count by (Counter v) = Counter (v + by)"
| "add_count by v = v"

fun add_sample :: "f64 \<Rightarrow> MetricValue \<Rightarrow> MetricValue" where
  "add_sample x (Samples xs) = Samples (xs @ [x])"
| "add_sample x v = v"

definition MetricRegistry_increment :: "string \<Rightarrow> u64 \<Rightarrow> MetricRegistry \<Rightarrow> MetricRegistry" where
  "MetricRegistry_increment name by r = bt_adjust name (add_count by) (bt_or_insert name (Counter 0) r)"

definition MetricRegistry_gauge :: "string \<Rightarrow> int \<Rightarrow> MetricRegistry \<Rightarrow> MetricRegistry" where
  "MetricRegistry_gauge name v r = bt_insert name (Gauge v) r"

definition MetricRegistry_observe :: "string \<Rightarrow> f64 \<Rightarrow> MetricRegistry \<Rightarrow> MetricRegistry" where
  "MetricRegistry_observe name v r = bt_adjust name (add_sample v) (bt_or_insert name (Samples []) r)"

definition domain_name :: "MetricDomain \<Rightarrow> string \<Rightarrow> string" where
  "domain_name domain name = MetricDomain_prefix domain @ ''.'' @ name"

definition MetricRegistry_increment_domain :: "MetricDomain \<Rightarrow> string \<Rightarrow> u64 \<Rightarrow> MetricRegistry \<Rightarrow> MetricRegistry" where
  "MetricRegistry_increment_domain domain name by = MetricRegistry_increment (domain_name domain name) by"

definition MetricRegistry_gauge_domain :: "MetricDomain \<Rightarrow> string \<Rightarrow> int \<Rightarrow> MetricRegistry \<Rightarrow> MetricRegistry" where
  "MetricRegistry_gauge_domain domain name v = MetricRegistry_gauge (domain_name domain name) v"

definition MetricRegistry_observe_domain :: "MetricDomain \<Rightarrow> string \<Rightarrow> f64 \<Rightarrow> MetricRegistry \<Rightarrow> MetricRegistry" where
  "MetricRegistry_observe_domain domain name v = MetricRegistry_observe (domain_name domain name) v"

definition MetricRegistry_get :: "MetricRegistry \<Rightarrow> string \<Rightarrow> MetricValue option" where
  "MetricRegistry_get r name = bt_get r name"

text \<open>
  \<open>sort_by(total_cmp)\<close>, and the index \<open>percentile * (len - 1)\<close>, which is a number of the format between 0 and the
  last index.
\<close>

fun insert_total :: "f64 \<Rightarrow> f64 list \<Rightarrow> f64 list" where
  "insert_total x [] = [x]"
| "insert_total x (y # ys) = (if ieee_total_le x y then x # y # ys else y # insert_total x ys)"

definition sort_total :: "f64 list \<Rightarrow> f64 list" where
  "sort_total xs = foldr insert_total xs []"

fun interpolate :: "f64 list \<Rightarrow> f64 \<Rightarrow> f64 option" where
  "interpolate ys (Finite q) =
     (let lower = nat \<lfloor>q\<rfloor>; upper = nat \<lceil>q\<rceil>
      in if lower = upper then Some (ys ! lower)
         else Some (f64_add (ys ! lower)
                (f64_mul (f64_sub (ys ! upper) (ys ! lower)) (f64_sub (Finite q) (f64_of_nat lower)))))"
| "interpolate ys _ = None"

definition MetricRegistry_percentile :: "MetricRegistry \<Rightarrow> string \<Rightarrow> f64 \<Rightarrow> f64 option" where
  "MetricRegistry_percentile r name percentile =
     (if \<not> (ieee_le (Finite 0) percentile \<and> ieee_le percentile (Finite 1)) then None
      else (case bt_get r name of
          Some (Samples samples) \<Rightarrow>
            if samples = [] then None
            else let ys = sort_total samples
                 in interpolate ys (f64_mul percentile (f64_of_nat (length ys - 1)))
        | _ \<Rightarrow> None))"

definition MetricRegistry_median :: "MetricRegistry \<Rightarrow> string \<Rightarrow> f64 option" where
  "MetricRegistry_median r name = MetricRegistry_percentile r name (Finite (1 / 2))"

definition MetricRegistry_p95 :: "MetricRegistry \<Rightarrow> string \<Rightarrow> f64 option" where
  "MetricRegistry_p95 r name = MetricRegistry_percentile r name (f64_round (95 / 100))"

text \<open>The time an operation took, in seconds, is an argument.\<close>

definition MetricRegistry_timed :: "f64 \<Rightarrow> string \<Rightarrow> (unit \<Rightarrow> 'a) \<Rightarrow> MetricRegistry \<Rightarrow> 'a \<times> MetricRegistry" where
  "MetricRegistry_timed elapsed name operation r =
     (operation (), MetricRegistry_observe name (f64_mul elapsed (f64_of_nat 1000)) r)"

fun merge_value :: "string \<Rightarrow> MetricValue \<Rightarrow> MetricRegistry \<Rightarrow> MetricRegistry" where
  "merge_value name (Counter count) r = MetricRegistry_increment name count r"
| "merge_value name (Gauge v) r = MetricRegistry_gauge name v r"
| "merge_value name (Samples xs) r = fold (MetricRegistry_observe name) xs r"

definition MetricRegistry_merge :: "MetricRegistry \<Rightarrow> MetricRegistry \<Rightarrow> MetricRegistry" where
  "MetricRegistry_merge other r = fold (\<lambda>(name, v). merge_value name v) other r"

subsection \<open>What the logger hides\<close>

lemma redacted_words:
  "\<not> contains_any log_message_words (to_ascii_lowercase (redact_message m))"
proof -
  have "\<not> contains_any log_message_words (to_ascii_lowercase ''[REDACTED]'')" by code_simp
  then show ?thesis by (simp add: redact_message_def)
qed

text \<open>Two runs that differ only in the values of sensitive fields write the same log.\<close>

lemma log_hides_sensitive_values:
  assumes "map redact_field fs = map redact_field gs" and "redact_message m = redact_message n"
  shows "SecretSafeLogger_log level c m fs events = SecretSafeLogger_log level c n gs events"
  using assms by (simp add: SecretSafeLogger_log_def)

lemma logged_fields_are_redacted:
  "bt_ok fs \<Longrightarrow> bt_get (le_fields (last (SecretSafeLogger_log level c m fs events))) k =
     map_option (\<lambda>v. snd (redact_field (k, v))) (bt_get fs k)"
proof -
  assume fs: "bt_ok fs"
  have "bt_get (rev (map redact_field fs)) k = bt_get (map redact_field fs) k"
    using bt_ok_distinct [OF fs] by (intro bt_get_rev) (simp add: redact_field_def comp_def)
  also have "\<dots> = map_option (\<lambda>v. snd (redact_field (k, v))) (bt_get fs k)"
    by (induction fs) (auto simp: redact_field_def)
  finally show ?thesis by (simp add: SecretSafeLogger_log_def bt_get_collect)
qed

text \<open>A loaded log is not redacted again.\<close>

lemma loaded_log_is_not_redacted:
  "SecretSafeLogger_from_json Inr [\<lparr>le_level = LogInfo, le_correlation_id = 0, le_message = ''token abc'', le_fields = []\<rparr>]
     = Inr [\<lparr>le_level = LogInfo, le_correlation_id = 0, le_message = ''token abc'', le_fields = []\<rparr>]"
  by (simp add: SecretSafeLogger_from_json_def)

subsection \<open>Merging adds up\<close>

text \<open>What a registry holds under a name after another is merged into it.\<close>

fun merged :: "MetricValue option \<Rightarrow> MetricValue option \<Rightarrow> MetricValue option" where
  "merged old None = old"
| "merged None (Some v) = (if v = Samples [] then None else Some v)"
| "merged (Some (Counter a)) (Some (Counter b)) = Some (Counter (a + b))"
| "merged (Some (Samples a)) (Some (Samples b)) = Some (Samples (a @ b))"
| "merged old (Some (Gauge v)) = Some (Gauge v)"
| "merged old new = old"

lemma get_increment:
  "bt_get (MetricRegistry_increment n by r) j =
     (if j = n then Some (case bt_get r n of None \<Rightarrow> Counter by | Some v \<Rightarrow> add_count by v) else bt_get r j)"
  by (auto simp: MetricRegistry_increment_def split: option.split)

lemma get_observe:
  "bt_get (MetricRegistry_observe n x r) j =
     (if j = n then Some (case bt_get r n of None \<Rightarrow> Samples [x] | Some v \<Rightarrow> add_sample x v) else bt_get r j)"
  by (auto simp: MetricRegistry_observe_def split: option.split)

lemma get_observe_all:
  "bt_get (fold (MetricRegistry_observe n) xs r) j =
     (if j = n then merged (bt_get r n) (Some (Samples xs)) else bt_get r j)"
proof (induction xs arbitrary: r)
  case Nil
  then show ?case by (cases "bt_get r n"; cases "the (bt_get r n)") auto
next
  case (Cons x xs)
  then show ?case
    by (cases "bt_get r n"; cases "the (bt_get r n)") (auto simp: get_observe)
qed

lemma get_merge_value:
  "bt_get (merge_value n v r) j = (if j = n then merged (bt_get r n) (Some v) else bt_get r j)"
proof (cases v)
  case (Counter c)
  then show ?thesis by (cases "bt_get r n"; cases "the (bt_get r n)") (auto simp: get_increment)
next
  case (Gauge g)
  then show ?thesis by (cases "bt_get r n"; cases "the (bt_get r n)") (auto simp: MetricRegistry_gauge_def)
qed (simp add: get_observe_all)

text \<open>
  Merging a registry into another treats every name on its own: counters are added (modulo \<open>2 ^ 64\<close>), samples
  are appended, a gauge replaces whatever is there, and an entry of another kind is kept as it was.
\<close>

theorem merge_combines_every_name:
  assumes "bt_ok other"
  shows "bt_get (MetricRegistry_merge other r) j = merged (bt_get r j) (bt_get other j)"
  using assms unfolding MetricRegistry_merge_def
proof (induction other arbitrary: r)
  case (Cons e other)
  obtain n v where e: "e = (n, v)" by (cases e)
  have "bt_ok other" "bt_get other n = None" using Cons.prems by (auto simp: bt_ok_Cons e bt_get_None_iff)
  then show ?case using Cons.IH [of "merge_value n v r"] e by (auto simp: get_merge_value)
qed simp

theorem merge_combines_every_name_witness:
  "bt_get (MetricRegistry_merge [(''a'', Counter 2), (''b'', Samples [NaN])] [(''a'', Counter 3)]) ''a'' = Some (Counter 5)"
proof -
  have "bt_ok [(''a'', Counter 2), (''b'', Samples [NaN])]" by (simp add: bt_ok_def)
  from merge_combines_every_name [OF this, of "[(''a'', Counter 3)]" "''a''"] show ?thesis by simp
qed

subsection \<open>Percentiles\<close>

lemma insert_total_set: "set (insert_total x ys) = insert x (set ys)"
  by (induction ys) auto

lemma sort_total_set [simp]: "set (sort_total xs) = set xs"
  unfolding sort_total_def by (induction xs) (simp_all add: insert_total_set)

lemma sort_total_length [simp]: "length (sort_total xs) = length xs"
proof -
  have "length (insert_total x ys) = Suc (length ys)" for x ys by (induction ys) auto
  then show ?thesis unfolding sort_total_def by (induction xs) simp_all
qed

text \<open>A percentile exists exactly for a name with samples and a number between 0 and 1.\<close>

lemma percentile_of_others:
  "MetricRegistry_percentile r name p \<noteq> None \<Longrightarrow>
   (\<exists>xs. bt_get r name = Some (Samples xs) \<and> xs \<noteq> []) \<and> ieee_le (Finite 0) p \<and> ieee_le p (Finite 1)"
  by (auto simp: MetricRegistry_percentile_def split: option.splits MetricValue.splits if_splits)

text \<open>The lowest percentile is the first of the sorted samples and the highest the last.\<close>

lemma percentile_ends:
  assumes "bt_get r name = Some (Samples xs)" and "xs \<noteq> []" and "length xs < 2 ^ 53"
  shows "MetricRegistry_percentile r name (Finite 0) = Some (hd (sort_total xs))"
    and "MetricRegistry_percentile r name (Finite 1) = Some (last (sort_total xs))"
proof -
  have ne: "sort_total xs \<noteq> []" using assms(2) by (metis sort_total_length length_0_conv)
  have n: "f64_of_nat (length xs - 1) = Finite (of_nat (length xs - 1))"
    using f64_round_int [of "int (length xs - 1)"] assms(3) by (simp add: f64_of_nat_def)
  show "MetricRegistry_percentile r name (Finite 0) = Some (hd (sort_total xs))"
    using assms(1,2) n by (simp add: MetricRegistry_percentile_def ieee_le_def ieee_eq_def hd_conv_nth [OF ne] Let_def)
  have "f64_round (of_nat (length xs - 1)) = Finite (of_nat (length xs - 1))" using n by (simp add: f64_of_nat_def)
  then show "MetricRegistry_percentile r name (Finite 1) = Some (last (sort_total xs))"
    using assms(1,2) n
    by (simp add: MetricRegistry_percentile_def ieee_le_def ieee_eq_def last_conv_nth [OF ne] Let_def)
qed

end
