(* ===== verification/ChallengeObserver.thy ===== *)
theory ChallengeObserver
  imports Network DomObserver
begin

section \<open>Observation of challenges\<close>

text \<open>
  The crate \<open>crates/challenge-observer\<close>: signs of human-verification walls in responses, in the document and in
  the body of a page.

  A body is searched for ASCII markers only, which \<open>from_utf8_lossy\<close> neither adds nor removes, so the
  bytes stand for the converted text. \<open>Url::parse\<close> is an argument, and so is the URL of \<open>about:blank\<close>.
\<close>

datatype ChallengeKind = Captcha | BrowserChallenge | AccessDenied | TwoFactorPrompt | AccountLocked | TermsOfServiceGate

record ChallengeEvidence =
  ce_signal :: string
  ce_value :: string

record ChallengeObservation =
  co_provider :: string
  co_kind :: ChallengeKind
  co_url :: Url
  co_evidence :: "ChallengeEvidence list"
  co_confidence :: f32
  co_provenance :: "ProvenanceSource list"

definition ChallengeObservation_with_provenance :: "ProvenanceSource \<Rightarrow> ChallengeObservation \<Rightarrow> ChallengeObservation" where
  "ChallengeObservation_with_provenance source obs = obs\<lparr>co_provenance := co_provenance obs @ [source]\<rparr>"

type_synonym ChallengeObservationSet = "ChallengeObservation list"

definition ChallengeObservationSet_is_empty :: "ChallengeObservationSet \<Rightarrow> bool" where
  "ChallengeObservationSet_is_empty s = (s = [])"

definition ChallengeObservationSet_drain :: "ChallengeObservationSet \<Rightarrow> ChallengeObservation list \<times> ChallengeObservationSet" where
  "ChallengeObservationSet_drain s = (s, [])"

type_synonym ChallengeObserver = ChallengeObservationSet

datatype ChallengeObserverError = InvalidConfidence f32

definition ChallengeObserver_new :: ChallengeObserver where
  "ChallengeObserver_new = []"

definition ChallengeObserver_append ::
    "ChallengeObservation \<Rightarrow> ChallengeObserver \<Rightarrow> (ChallengeObserverError + unit) \<times> ChallengeObserver" where
  "ChallengeObserver_append obs pending =
     (if \<not> (ieee_le (Finite 0) (co_confidence obs) \<and> ieee_le (co_confidence obs) (Finite 1))
      then (Inl (InvalidConfidence (co_confidence obs)), pending)
      else (Inr (), pending @ [obs]))"

fun append_all :: "ChallengeObservation list \<Rightarrow> ChallengeObserver \<Rightarrow> (ChallengeObserverError + unit) \<times> ChallengeObserver" where
  "append_all [] pending = (Inr (), pending)"
| "append_all (x # xs) pending =
     (case ChallengeObserver_append x pending of
        (Inl e, pending) \<Rightarrow> (Inl e, pending)
      | (Inr _, pending) \<Rightarrow> append_all xs pending)"

definition ChallengeObserver_snapshot :: "ChallengeObserver \<Rightarrow> ChallengeObservationSet" where
  "ChallengeObserver_snapshot pending = pending"

definition ChallengeObserver_drain :: "ChallengeObserver \<Rightarrow> ChallengeObservationSet \<times> ChallengeObserver" where
  "ChallengeObserver_drain pending = (pending, [])"

definition ChallengeObserver_clear :: "ChallengeObserver \<Rightarrow> ChallengeObserver" where
  "ChallengeObserver_clear pending = []"

subsection \<open>Responses\<close>

definition header_value :: "(string, string) BTreeMap \<Rightarrow> string \<Rightarrow> string option" where
  "header_value headers name = map_option snd (find (\<lambda>e. eq_ignore_ascii_case (fst e) name) headers)"

definition or_empty :: "string option \<Rightarrow> string" where
  "or_empty v = (case v of None \<Rightarrow> [] | Some s \<Rightarrow> s)"

type_synonym verdict = "string \<times> ChallengeKind \<times> f32 \<times> (string \<times> string) list"

definition cloudflare_verdict :: "string \<Rightarrow> string \<Rightarrow> u16 \<Rightarrow> verdict option" where
  "cloudflare_verdict ray lower status =
     (if contains_any [''cf-browser-verification'', ''cf-challenge-running'', ''cf-error-code''] lower
      then Some (''cloudflare'', BrowserChallenge, f32_round (95 / 100),
                 [(''cf-ray'', ray), (''body-marker'', ''cf-browser-verification'')])
      else if status = 403 \<or> status = 503
      then Some (''cloudflare'', AccessDenied, f32_round (7 / 10), [(''cf-ray'', ray), (''status'', decimal (unat status))])
      else None)"

definition akamai_verdict :: "string \<Rightarrow> string \<Rightarrow> u16 \<Rightarrow> verdict option" where
  "akamai_verdict server lower status =
     (if contains_any [''_incapsula_resource'', ''incapsula''] lower
      then Some (''akamai'', BrowserChallenge, f32_round (9 / 10),
                 [(''server'', server), (''body-marker'', ''_Incapsula_Resource'')])
      else if status = 403
      then Some (''akamai'', AccessDenied, f32_round (7 / 10), [(''server'', server), (''status'', ''403'')])
      else None)"

definition response_verdict :: "NetworkResponse \<Rightarrow> verdict option" where
  "response_verdict response =
     (let headers = nrs_headers response;
          lower = to_ascii_lowercase (nrs_body response);
          server = to_ascii_lowercase (or_empty (header_value headers ''server''));
          akamai = header_value headers ''x-akamai-transformed'';
          incapsula = map_option to_ascii_lowercase (header_value headers ''x-cdn'');
          mitm = header_value headers ''cf-mitigated'';
          retry_after = header_value headers ''retry-after''
      in case header_value headers ''cf-ray'' of
           Some ray \<Rightarrow> cloudflare_verdict ray lower (nrs_status response)
         | None \<Rightarrow>
             if str_contains server ''akamai'' \<or> akamai \<noteq> None \<or> incapsula = Some ''incapsula''
             then akamai_verdict server lower (nrs_status response)
             else if str_contains server ''cloudflare'' \<and> mitm \<noteq> None
             then Some (''cloudflare'', BrowserChallenge, f32_round (9 / 10),
                        [(''server'', server), (''cf-mitigated'', or_empty mitm)])
             else if str_contains server ''ddos-guard''
             then Some (''ddos-guard'', BrowserChallenge, f32_round (85 / 100), [(''server'', server)])
             else if str_contains server ''data-dome'' \<or> str_contains lower ''datadome''
             then Some (''datadome'', BrowserChallenge, f32_round (85 / 100), [(''server'', server)])
             else if nrs_status response = 429
             then Some (''rate-limit'', AccessDenied, f32_round (6 / 10),
                        [(''status'', ''429''), (''retry-after'', or_empty retry_after)])
             else None)"

definition observer_source :: "SourceKind \<Rightarrow> ProvenanceSource" where
  "observer_source kind = \<lparr>ps_kind = kind, ps_reference = ''challenge-observer'', ps_detail = None\<rparr>"

definition detect_from_response :: "NetworkRequest \<Rightarrow> NetworkResponse \<Rightarrow> ChallengeObservation option" where
  "detect_from_response request response =
     map_option (\<lambda>(provider, kind, confidence, signals).
       let evidence = map (\<lambda>(s, v). \<lparr>ce_signal = s, ce_value = v\<rparr>) signals;
           evidence = (if 400 \<le> nrs_status response \<and> \<not> list_ex (\<lambda>e. ce_signal e = ''status'') evidence
                       then evidence @ [\<lparr>ce_signal = ''status'', ce_value = decimal (unat (nrs_status response))\<rparr>]
                       else evidence)
       in \<lparr>co_provider = provider, co_kind = kind, co_url = nrq_url request, co_evidence = evidence,
           co_confidence = confidence, co_provenance = [observer_source NetworkResponse]\<rparr>)
     (response_verdict response)"

subsection \<open>Documents\<close>

record ProviderSignal =
  psg_provider :: string
  psg_kind :: ChallengeKind
  psg_evidence :: "ChallengeEvidence list"
  psg_confidence :: f32

definition provider_signal :: "string \<Rightarrow> ChallengeKind \<Rightarrow> string \<Rightarrow> string \<Rightarrow> rat \<Rightarrow> ProviderSignal" where
  "provider_signal provider kind signal val confidence =
     \<lparr>psg_provider = provider, psg_kind = kind, psg_evidence = [\<lparr>ce_signal = signal, ce_value = val\<rparr>],
      psg_confidence = f32_round confidence\<rparr>"

definition iframe_signals :: "string \<Rightarrow> ProviderSignal list" where
  "iframe_signals src =
     (let lower = to_ascii_lowercase src
      in if str_contains lower ''hcaptcha.com'' then [provider_signal ''hcaptcha'' Captcha ''iframe-src'' src (95 / 100)]
         else if str_contains lower ''recaptcha'' then [provider_signal ''recaptcha'' Captcha ''iframe-src'' src (95 / 100)]
         else if str_contains lower ''challenges.cloudflare.com''
         then [provider_signal ''cloudflare-turnstile'' Captcha ''iframe-src'' src (95 / 100)]
         else [])"

definition text_signals :: "string \<Rightarrow> ProviderSignal list" where
  "text_signals lower =
     (if lower = [] then []
      else if contains_any [''verify you are human'', ''are you a robot''] lower
      then [provider_signal ''generic'' Captcha ''text'' (take_chars 120 lower) (7 / 10)]
      else if contains_any [''two-factor'', ''verification code''] lower
      then [provider_signal ''totp'' TwoFactorPrompt ''text'' (take_chars 120 lower) (65 / 100)]
      else if contains_any [''account locked'', ''account suspended''] lower
      then [provider_signal ''site-policy'' AccountLocked ''text'' (take_chars 120 lower) (7 / 10)]
      else [])"

definition detect_provider_in_node :: "RawNode \<Rightarrow> ProviderSignal list" where
  "detect_provider_in_node node =
     (let lower_name = to_ascii_lowercase (or_empty (rn_name node));
          id_attr = or_empty (bt_get (rn_attributes node) ''id'');
          class_attr = or_empty (bt_get (rn_attributes node) ''class'');
          src_attr = or_empty (bt_get (rn_attributes node) ''src'');
          action_attr = or_empty (bt_get (rn_attributes node) ''action'');
          markers = [''cf-browser-verification'', ''cf-challenge-running'', ''cf-error-code'', ''cf-wrapper'']
      in (if list_ex (\<lambda>c. str_contains class_attr c \<or> str_contains id_attr c) markers
          then [provider_signal ''cloudflare'' BrowserChallenge ''marker'' class_attr (95 / 100)] else [])
         @ (if lower_name = ''iframe'' then iframe_signals src_attr else [])
         @ (if str_contains class_attr ''_Incapsula_Resource'' \<or> str_contains id_attr ''incapsula''
            then [provider_signal ''akamai'' BrowserChallenge ''class-or-id'' class_attr (9 / 10)] else [])
         @ text_signals (to_ascii_lowercase (or_empty (rn_text node)))
         @ (if lower_name = ''form'' \<and> str_contains (to_ascii_lowercase action_attr) ''/interstitial/''
            then [provider_signal ''datadome'' BrowserChallenge ''form-action'' action_attr (85 / 100)] else []))"

text \<open>The first signal of every provider.\<close>

fun first_signals :: "string list \<Rightarrow> ProviderSignal list \<Rightarrow> ProviderSignal list" where
  "first_signals seen [] = []"
| "first_signals seen (s # ss) =
     (if psg_provider s \<in> set seen then first_signals seen ss
      else s # first_signals (seen @ [psg_provider s]) ss)"

definition detect_from_document :: "(string \<Rightarrow> Url option) \<Rightarrow> Url \<Rightarrow> RawDocument \<Rightarrow> ChallengeObservation list" where
  "detect_from_document parse about_blank document =
     (let url = (case parse (rd_url document) of None \<Rightarrow> about_blank | Some u \<Rightarrow> u);
          elements = [n \<leftarrow> bt_values (rd_nodes document). rn_kind n = KindElement]
      in map (\<lambda>s. \<lparr>co_provider = psg_provider s, co_kind = psg_kind s, co_url = url, co_evidence = psg_evidence s,
                   co_confidence = psg_confidence s, co_provenance = [observer_source Dom]\<rparr>)
           (first_signals [] (concat (map detect_provider_in_node elements))))"

subsection \<open>Bodies\<close>

definition body_probes :: "(string \<times> string \<times> ChallengeKind \<times> f32) list" where
  "body_probes =
     [(''cloudflare'', ''cf-browser-verification'', BrowserChallenge, f32_round (95 / 100)),
      (''hcaptcha'', ''hcaptcha.com'', Captcha, f32_round (9 / 10)),
      (''recaptcha'', ''google.com/recaptcha'', Captcha, f32_round (9 / 10)),
      (''cloudflare-turnstile'', ''challenges.cloudflare.com'', Captcha, f32_round (9 / 10)),
      (''akamai'', ''_incapsula_resource'', BrowserChallenge, f32_round (9 / 10)),
      (''datadome'', ''datadome'', BrowserChallenge, f32_round (8 / 10))]"

fun probe_all :: "Url \<Rightarrow> string \<Rightarrow> string list \<Rightarrow> (string \<times> string \<times> ChallengeKind \<times> f32) list \<Rightarrow> ChallengeObservation list" where
  "probe_all url lower seen [] = []"
| "probe_all url lower seen ((provider, signal, kind, confidence) # ps) =
     (if str_contains lower signal \<and> provider \<notin> set seen
      then \<lparr>co_provider = provider, co_kind = kind, co_url = url,
            co_evidence = [\<lparr>ce_signal = ''body-marker'', ce_value = signal\<rparr>], co_confidence = confidence,
            co_provenance = [observer_source NetworkResponse]\<rparr> # probe_all url lower (seen @ [provider]) ps
      else probe_all url lower seen ps)"

definition detect_from_html_body :: "Url \<Rightarrow> string \<Rightarrow> ChallengeObservation list" where
  "detect_from_html_body url body = probe_all url (to_ascii_lowercase body) [] body_probes"

subsection \<open>The observer\<close>

definition ChallengeObserver_observe_network ::
    "NetworkRequest \<Rightarrow> NetworkResponse \<Rightarrow> ChallengeObserver \<Rightarrow> (ChallengeObserverError + unit) \<times> ChallengeObserver" where
  "ChallengeObserver_observe_network request response pending =
     (case detect_from_response request response of
        None \<Rightarrow> (Inr (), pending)
      | Some obs \<Rightarrow> ChallengeObserver_append obs pending)"

definition ChallengeObserver_observe_document ::
    "(string \<Rightarrow> Url option) \<Rightarrow> Url \<Rightarrow> RawDocument \<Rightarrow> ChallengeObserver \<Rightarrow> (ChallengeObserverError + unit) \<times> ChallengeObserver" where
  "ChallengeObserver_observe_document parse about_blank document pending =
     append_all (detect_from_document parse about_blank document) pending"

definition ChallengeObserver_observe_html_body ::
    "Url \<Rightarrow> string \<Rightarrow> ChallengeObserver \<Rightarrow> (ChallengeObserverError + unit) \<times> ChallengeObserver" where
  "ChallengeObserver_observe_html_body url body pending = append_all (detect_from_html_body url body) pending"

subsection \<open>Every observation is recorded and well-formed\<close>

definition proper :: "f32 \<Rightarrow> bool" where
  "proper c = (ieee_le (Finite 0) c \<and> ieee_le c (Finite 1))"

lemma literals_proper [simp]:
  "proper (f32_round (19 / 20))" "proper (f32_round (9 / 10))" "proper (f32_round (17 / 20))" "proper (f32_round (4 / 5))"
  "proper (f32_round (7 / 10))" "proper (f32_round (13 / 20))" "proper (f32_round (3 / 5))"
  by code_simp+

definition well_observed :: "ChallengeObservation \<Rightarrow> bool" where
  "well_observed obs = (proper (co_confidence obs) \<and> co_evidence obs \<noteq> [] \<and> co_provenance obs \<noteq> [])"

lemma append_all_proper: "list_all well_observed xs \<Longrightarrow> append_all xs pending = (Inr (), pending @ xs)"
  by (induction xs arbitrary: pending) (simp_all add: ChallengeObserver_append_def well_observed_def proper_def)

lemma cloudflare_verdict_proper: "cloudflare_verdict ray lower status = Some (p, k, c, ss) \<Longrightarrow> proper c \<and> ss \<noteq> []"
  by (auto simp: cloudflare_verdict_def split: if_splits)

lemma akamai_verdict_proper: "akamai_verdict server lower status = Some (p, k, c, ss) \<Longrightarrow> proper c \<and> ss \<noteq> []"
  by (auto simp: akamai_verdict_def split: if_splits)

lemma response_verdict_proper: "response_verdict r = Some (p, k, c, ss) \<Longrightarrow> proper c \<and> ss \<noteq> []"
  unfolding response_verdict_def Let_def
  by (auto split: option.splits if_splits dest: cloudflare_verdict_proper akamai_verdict_proper)

lemma response_well_observed: "detect_from_response request response = Some obs \<Longrightarrow> well_observed obs"
proof -
  assume "detect_from_response request response = Some obs"
  then obtain v where "response_verdict response = Some v" and "detect_from_response request response = Some obs"
    by (auto simp: detect_from_response_def)
  then obtain p k c ss where v: "response_verdict response = Some (p, k, c, ss)" and "co_confidence obs = c"
    "co_provenance obs \<noteq> []" "co_evidence obs = [] \<longrightarrow> ss = []"
    by (cases v) (auto simp: detect_from_response_def Let_def)
  then show ?thesis using response_verdict_proper [OF v] by (auto simp: well_observed_def)
qed

definition proper_signal :: "ProviderSignal \<Rightarrow> bool" where
  "proper_signal s = (proper (psg_confidence s) \<and> psg_evidence s \<noteq> [])"

lemma provider_signal_proper [simp]: "proper_signal (provider_signal p k sg v c) \<longleftrightarrow> proper (f32_round c)"
  by (simp add: proper_signal_def provider_signal_def)

lemma node_signals_proper: "s \<in> set (detect_provider_in_node n) \<Longrightarrow> proper_signal s"
proof -
  have "list_all proper_signal (iframe_signals src)" for src by (simp add: iframe_signals_def Let_def)
  moreover have "list_all proper_signal (text_signals lower)" for lower by (simp add: text_signals_def)
  ultimately have "list_all proper_signal (detect_provider_in_node n)"
    by (simp add: detect_provider_in_node_def Let_def)
  then show "s \<in> set (detect_provider_in_node n) \<Longrightarrow> proper_signal s" by (simp add: list_all_iff)
qed

lemma first_signals_sub: "s \<in> set (first_signals seen ss) \<Longrightarrow> s \<in> set ss \<and> psg_provider s \<notin> set seen"
  by (induction seen ss rule: first_signals.induct) (auto split: if_splits)

lemma first_signals_distinct: "distinct (map psg_provider (first_signals seen ss))"
proof (induction seen ss rule: first_signals.induct)
  case (2 seen s ss)
  have "psg_provider s \<notin> psg_provider ` set (first_signals (seen @ [psg_provider s]) ss)"
  proof
    assume "psg_provider s \<in> psg_provider ` set (first_signals (seen @ [psg_provider s]) ss)"
    then obtain x where "x \<in> set (first_signals (seen @ [psg_provider s]) ss)" "psg_provider x = psg_provider s" by fastforce
    with first_signals_sub [OF this(1)] show False by simp
  qed
  then show ?case using 2 by simp
qed simp

lemma first_signals_covers: "s \<in> set ss \<Longrightarrow> psg_provider s \<in> set seen \<union> psg_provider ` set (first_signals seen ss)"
  by (induction seen ss rule: first_signals.induct) auto

lemma document_well_observed: "list_all well_observed (detect_from_document parse b d)"
  using node_signals_proper
  by (auto simp: detect_from_document_def Let_def list_all_iff well_observed_def proper_signal_def dest!: first_signals_sub)

lemma document_providers: "distinct (map co_provider (detect_from_document parse b d))"
  using first_signals_distinct by (simp add: detect_from_document_def Let_def comp_def)

lemma probe_all_observed:
  "list_all (\<lambda>(p, s, k, c). proper c) ps \<Longrightarrow>
   list_all well_observed (probe_all url lower seen ps) \<and> distinct (map co_provider (probe_all url lower seen ps))
   \<and> set (map co_provider (probe_all url lower seen ps)) \<inter> set seen = {}"
  by (induction url lower seen ps rule: probe_all.induct) (auto simp: well_observed_def)

lemma body_observed:
  "list_all well_observed (detect_from_html_body url body)" "distinct (map co_provider (detect_from_html_body url body))"
proof -
  have "list_all (\<lambda>(p, s, k, c). proper c) body_probes" by (simp add: body_probes_def)
  from probe_all_observed [OF this]
  show "list_all well_observed (detect_from_html_body url body)" "distinct (map co_provider (detect_from_html_body url body))"
    unfolding detect_from_html_body_def by blast+
qed

inductive challenge_step :: "(string \<Rightarrow> Url option) \<Rightarrow> Url \<Rightarrow> ChallengeObserver \<Rightarrow> ChallengeObserver \<Rightarrow> bool"
  for parse about_blank where
  "challenge_step parse about_blank s (snd (ChallengeObserver_observe_network request response s))"
| "challenge_step parse about_blank s (snd (ChallengeObserver_observe_document parse about_blank document s))"
| "challenge_step parse about_blank s (snd (ChallengeObserver_observe_html_body url body s))"
| "challenge_step parse about_blank s (snd (ChallengeObserver_drain s))"
| "challenge_step parse about_blank s (ChallengeObserver_clear s)"

lemma observe_network_answers:
  "ChallengeObserver_observe_network request response s =
     (Inr (), s @ (case detect_from_response request response of None \<Rightarrow> [] | Some obs \<Rightarrow> [obs]))"
  using response_well_observed [of request response] append_all_proper [of "[the (detect_from_response request response)]" s]
  by (auto simp: ChallengeObserver_observe_network_def ChallengeObserver_append_def well_observed_def proper_def split: option.split)

lemma observe_document_answers:
  "ChallengeObserver_observe_document parse b d s = (Inr (), s @ detect_from_document parse b d)"
  unfolding ChallengeObserver_observe_document_def by (rule append_all_proper [OF document_well_observed])

lemma observe_html_body_answers:
  "ChallengeObserver_observe_html_body url body s = (Inr (), s @ detect_from_html_body url body)"
  unfolding ChallengeObserver_observe_html_body_def by (rule append_all_proper [OF body_observed(1)])

interpretation challenges: kept_invariant "challenge_step parse about_blank" "list_all well_observed"
  by unfold_locales
     (erule challenge_step.cases; auto simp: observe_network_answers observe_document_answers observe_html_body_answers
        document_well_observed body_observed ChallengeObserver_drain_def ChallengeObserver_clear_def
        intro: response_well_observed split: option.split)

definition challenged_page :: Url where
  "challenged_page = \<lparr>url_as_str = ''https://shop.test/'', url_scheme = ''https'', url_username = [], url_password = None,
     url_host_str = Some ''shop.test'', url_port_or_known_default = Some 443, url_path = ''/'', url_query = None,
     url_fragment = None, url_origin = TupleOrigin ''https'' ''shop.test'' 443, url_origin_ascii = ''https://shop.test''\<rparr>"

text \<open>
  C34: observing never fails: each call appends exactly what it detects, at most one observation per provider for a
  document or a body, and every observation pending after any sequence of calls has a confidence between 0 and
  1, evidence and provenance.
\<close>

theorem observations_are_complete_and_well_formed:
  assumes "(challenge_step parse about_blank)\<^sup>*\<^sup>* ChallengeObserver_new s"
  shows "list_all well_observed (ChallengeObserver_snapshot s)
    \<and> ChallengeObserver_observe_network request response s =
        (Inr (), s @ (case detect_from_response request response of None \<Rightarrow> [] | Some obs \<Rightarrow> [obs]))
    \<and> ChallengeObserver_observe_document parse about_blank d s = (Inr (), s @ detect_from_document parse about_blank d)
    \<and> ChallengeObserver_observe_html_body url body s = (Inr (), s @ detect_from_html_body url body)
    \<and> distinct (map co_provider (detect_from_document parse about_blank d))
    \<and> distinct (map co_provider (detect_from_html_body url body))"
proof -
  have "list_all well_observed s" by (rule challenges.reach_keeps [OF assms]) (simp add: ChallengeObserver_new_def)
  then show ?thesis
    by (simp add: ChallengeObserver_snapshot_def observe_network_answers observe_document_answers observe_html_body_answers
        document_providers body_observed)
qed

theorem observations_are_complete_and_well_formed_witness:
  "list_all well_observed (snd (ChallengeObserver_observe_html_body challenged_page ''..hcaptcha.com..'' ChallengeObserver_new))
   \<and> snd (ChallengeObserver_observe_html_body challenged_page ''..hcaptcha.com..'' ChallengeObserver_new) \<noteq> []"
proof -
  let ?s = "snd (ChallengeObserver_observe_html_body challenged_page ''..hcaptcha.com..'' ChallengeObserver_new)"
  have "(challenge_step Map.empty challenged_page)\<^sup>*\<^sup>* ChallengeObserver_new ?s" by (intro r_into_rtranclp challenge_step.intros)
  from observations_are_complete_and_well_formed [OF this] have "list_all well_observed ?s"
    by (simp add: ChallengeObserver_snapshot_def)
  moreover have "str_contains (to_ascii_lowercase ''..hcaptcha.com..'') ''hcaptcha.com''" by code_simp
  then have "?s \<noteq> []" by (simp add: observe_html_body_answers detect_from_html_body_def body_probes_def)
  ultimately show ?thesis by blast
qed

text \<open>A rate limit answered through Cloudflare is not reported: the \<open>cf-ray\<close> header decides first.\<close>

lemma cloudflare_rate_limit_is_missed:
  "header_value (nrs_headers r) ''cf-ray'' = Some ray \<Longrightarrow> nrs_status r = 429 \<Longrightarrow>
   \<not> contains_any [''cf-browser-verification'', ''cf-challenge-running'', ''cf-error-code''] (to_ascii_lowercase (nrs_body r)) \<Longrightarrow>
   detect_from_response request r = None"
  by (simp add: detect_from_response_def response_verdict_def cloudflare_verdict_def Let_def)

end
