(* ===== verification/StructuralIr.thy ===== *)
theory StructuralIr
  imports AgentTree
begin

section \<open>The structural representation of a page\<close>

text \<open>
  The crate \<open>crates/structural-ir\<close>: the compilation of an agent render tree to what is visible, by a worklist
  from the root. The set of visited nodes grows with every descent, so the worklist runs dry on every tree,
  cyclic links included. The serde encoder and decoder are arguments.
\<close>

definition STRUCTURAL_IR_VERSION :: u16 where
  "STRUCTURAL_IR_VERSION = 1"

record StructuralIr =
  sir_schema_version :: u16
  sir_tree :: AgentRenderTree

definition StructuralIr_from_tree :: "AgentRenderTree \<Rightarrow> StructuralIr" where
  "StructuralIr_from_tree tree = \<lparr>sir_schema_version = STRUCTURAL_IR_VERSION, sir_tree = tree\<rparr>"

text \<open>
  The worklist: \<open>pending\<close> is a stack, its top at the head, and \<open>visible\<close> is the set of the nodes entered.
\<close>

function visible_loop :: "AgentNode list \<Rightarrow> AgentNodeId \<Rightarrow> AgentNodeId set \<Rightarrow> AgentNodeId list \<Rightarrow> AgentNodeId set" where
  "visible_loop nodes origin visible [] = visible"
| "visible_loop nodes origin visible (i # pending) =
     (case find (\<lambda>n. an_id n = i) nodes of
        None \<Rightarrow> visible_loop nodes origin visible pending
      | Some n \<Rightarrow>
          if i \<noteq> origin \<and> \<not> ns_visible (an_state n) then visible_loop nodes origin visible pending
          else if i \<in> visible then visible_loop nodes origin visible pending
          else visible_loop nodes origin (insert i visible) (rev (an_children n) @ pending))"
  by pat_completeness auto

termination
proof (relation "measures [\<lambda>(nodes, origin, visible, pending). card (an_id ` set nodes - visible),
                           \<lambda>(nodes, origin, visible, pending). length pending]", goal_cases)
  case (5 nodes origin visible i pending n)
  have "an_id n = i" "n \<in> set nodes" using 5(1) by (auto simp: find_Some_iff)
  then have "i \<in> an_id ` set nodes - visible" using 5(3) by blast
  then have "card (an_id ` set nodes - insert i visible) < card (an_id ` set nodes - visible)"
    by (intro psubset_card_mono) auto
  then show ?case by simp
qed simp_all

definition StructuralIr_compile :: "AgentRenderTree \<Rightarrow> bool \<Rightarrow> StructuralIr" where
  "StructuralIr_compile tree include_invisible =
     (if include_invisible then StructuralIr_from_tree tree
      else (let visible = visible_loop (art_nodes tree) (art_root tree) {} [art_root tree];
                kept = [n \<leftarrow> art_nodes tree. an_id n = art_root tree \<or> an_id n \<in> visible]
            in StructuralIr_from_tree
                 (tree\<lparr>art_nodes := map (\<lambda>n. n\<lparr>an_children := [c \<leftarrow> an_children n. c \<in> visible]\<rparr>) kept\<rparr>)))"

definition StructuralIr_to_json :: "(StructuralIr \<Rightarrow> 'e + 'text) \<Rightarrow> StructuralIr \<Rightarrow> 'e + 'text" where
  "StructuralIr_to_json encode ir = encode ir"

definition StructuralIr_from_json :: "('text \<Rightarrow> 'e + StructuralIr) \<Rightarrow> 'text \<Rightarrow> 'e + StructuralIr" where
  "StructuralIr_from_json decode v = decode v"

definition StructuralIr_role_count :: "StructuralIr \<Rightarrow> StructuralRole \<Rightarrow> nat" where
  "StructuralIr_role_count ir role = length [n \<leftarrow> art_nodes (sir_tree ir). an_structural_role n = role]"

definition StructuralIr_node :: "StructuralIr \<Rightarrow> string \<Rightarrow> AgentNode option" where
  "StructuralIr_node ir i = AgentRenderTree_find (sir_tree ir) i"

subsection \<open>What is shown\<close>

text \<open>
  The contract: the root is shown, and a child of a shown node is shown when it exists and is visible.
\<close>

inductive shown :: "AgentRenderTree \<Rightarrow> AgentNodeId \<Rightarrow> bool" for tree where
  shown_root: "AgentRenderTree_find tree (art_root tree) \<noteq> None \<Longrightarrow> shown tree (art_root tree)"
| shown_child: "shown tree p \<Longrightarrow> AgentRenderTree_find tree p = Some m \<Longrightarrow> c \<in> set (an_children m) \<Longrightarrow>
    AgentRenderTree_find tree c = Some n \<Longrightarrow> c = art_root tree \<or> ns_visible (an_state n) \<Longrightarrow> shown tree c"

lemma find_node: "find (\<lambda>n. an_id n = i) (art_nodes tree) = AgentRenderTree_find tree i"
  by (simp add: AgentRenderTree_find_def)

text \<open>A node may be entered when it exists and is the root or visible.\<close>

definition enterable :: "AgentRenderTree \<Rightarrow> AgentNodeId \<Rightarrow> bool" where
  "enterable tree i =
     (case AgentRenderTree_find tree i of None \<Rightarrow> False | Some n \<Rightarrow> i = art_root tree \<or> ns_visible (an_state n))"

abbreviation entered :: "AgentRenderTree \<Rightarrow> AgentNodeId set \<Rightarrow> AgentNodeId list \<Rightarrow> AgentNodeId set" where
  "entered tree \<equiv> visible_loop (art_nodes tree) (art_root tree)"

lemma entered_skip: "\<not> enterable tree i \<or> i \<in> visible \<Longrightarrow> entered tree visible (i # pending) = entered tree visible pending"
  by (auto simp: find_node enterable_def split: option.splits)

lemma entered_enter:
  "enterable tree i \<Longrightarrow> i \<notin> visible \<Longrightarrow> AgentRenderTree_find tree i = Some n \<Longrightarrow>
   entered tree visible (i # pending) = entered tree (insert i visible) (rev (an_children n) @ pending)"
  by (auto simp: find_node enterable_def)

declare visible_loop.simps(2) [simp del]

lemma enterable_find: "enterable tree i \<Longrightarrow> \<exists>n. AgentRenderTree_find tree i = Some n"
  by (auto simp: enterable_def split: option.splits)

text \<open>The induction of the worklist: a node is skipped, or entered and replaced by its children.\<close>

lemma worklist_induct [case_names nothing skip enter]:
  assumes "\<And>visible. P visible []"
    and "\<And>visible i pending. \<not> enterable tree i \<or> i \<in> visible \<Longrightarrow> P visible pending \<Longrightarrow> P visible (i # pending)"
    and "\<And>visible i pending n. enterable tree i \<Longrightarrow> i \<notin> visible \<Longrightarrow> AgentRenderTree_find tree i = Some n \<Longrightarrow>
           P (insert i visible) (rev (an_children n) @ pending) \<Longrightarrow> P visible (i # pending)"
  shows "P visible pending"
proof (induction "art_nodes tree" "art_root tree" visible pending rule: visible_loop.induct)
  case (2 visible i pending)
  note IH = 2 [unfolded find_node]
  show ?case
  proof (cases "enterable tree i \<and> i \<notin> visible")
    case True
    then obtain n where n: "AgentRenderTree_find tree i = Some n" using enterable_find by blast
    then have "i = art_root tree \<or> ns_visible (an_state n)" using True by (simp add: enterable_def)
    then show ?thesis using assms(3) [OF _ _ n] IH(4) [OF n] True by blast
  next
    case False
    then have "P visible pending"
      using IH(1,2,3) by (cases "AgentRenderTree_find tree i") (auto simp: enterable_def)
    then show ?thesis using assms(2) False by blast
  qed
qed (rule assms(1))

lemma entered_sound:
  assumes "\<forall>i \<in> visible. shown tree i" and "\<forall>i \<in> set pending. enterable tree i \<longrightarrow> shown tree i"
  shows "\<forall>i \<in> entered tree visible pending. shown tree i"
  using assms
proof (induction visible pending rule: worklist_induct [of _ tree])
  case (skip visible i pending)
  then show ?case unfolding entered_skip [OF skip(1)] by simp
next
  case (enter visible i pending n)
  have i: "shown tree i" using enter(1,6) by simp
  have "shown tree c" if c: "c \<in> set (an_children n)" "enterable tree c" for c
  proof -
    obtain m where m: "AgentRenderTree_find tree c = Some m" using enterable_find [OF c(2)] ..
    then show ?thesis using c(2) by (intro shown_child [OF i enter(3) c(1) m]) (simp add: enterable_def)
  qed
  then show ?case unfolding entered_enter [OF enter(1-3)]
    using enter(5,6) i by (intro enter(4)) (simp_all add: Ball_def)
qed simp

lemma entered_extends: "visible \<subseteq> entered tree visible pending \<and> (\<forall>i \<in> set pending. enterable tree i \<longrightarrow> i \<in> entered tree visible pending)"
proof (induction visible pending rule: worklist_induct [of _ tree])
  case (skip visible i pending)
  then show ?case unfolding entered_skip [OF skip(1)] by auto
next
  case (enter visible i pending n)
  then show ?case unfolding entered_enter [OF enter(1-3)] by auto
qed simp

lemma entered_closed:
  assumes "\<And>p m c. p \<in> visible \<Longrightarrow> AgentRenderTree_find tree p = Some m \<Longrightarrow> c \<in> set (an_children m) \<Longrightarrow> enterable tree c \<Longrightarrow>
      c \<in> visible \<union> set pending"
    and "p \<in> entered tree visible pending" and "AgentRenderTree_find tree p = Some m" and "c \<in> set (an_children m)"
    and "enterable tree c"
  shows "c \<in> entered tree visible pending"
  using assms
proof (induction visible pending rule: worklist_induct [of _ tree])
  case (skip visible i pending)
  have "c \<in> visible \<union> set pending" if "p \<in> visible" "AgentRenderTree_find tree p = Some m" "c \<in> set (an_children m)" "enterable tree c"
    for p m c using skip(3) [OF that] skip(1) that(4) by auto
  then show ?case using skip(2,4-) unfolding entered_skip [OF skip(1)] by blast
next
  case (enter visible i pending n)
  have "c \<in> insert i visible \<union> set (rev (an_children n) @ pending)"
    if "p \<in> insert i visible" "AgentRenderTree_find tree p = Some m" "c \<in> set (an_children m)" "enterable tree c" for p m c
  proof (cases "p = i")
    case True
    then show ?thesis using that enter(3) by simp
  next
    case False
    then show ?thesis using enter(5) [OF _ that(2-4)] that(1) by auto
  qed
  then show ?case using enter(4,6-) unfolding entered_enter [OF enter(1-3)] by blast
qed simp

lemma entered_is_shown: "i \<in> entered tree {} [art_root tree] \<longleftrightarrow> shown tree i"
proof
  have "\<forall>i \<in> set [art_root tree]. enterable tree i \<longrightarrow> shown tree i"
    using shown_root [of tree] by (auto simp: enterable_def split: option.splits)
  then show "i \<in> entered tree {} [art_root tree] \<Longrightarrow> shown tree i" using entered_sound [of "{}"] by blast
  show "shown tree i \<Longrightarrow> i \<in> entered tree {} [art_root tree]"
  proof (induction rule: shown.induct)
    case shown_root
    then show ?case using entered_extends [of "{}" tree "[art_root tree]"] by (auto simp: enterable_def)
  next
    case (shown_child p m c n)
    then have "enterable tree c" by (auto simp: enterable_def)
    then show ?case using entered_closed [of "{}" tree "[art_root tree]" p m c] shown_child by blast
  qed
qed

lemma compile_nodes:
  "art_nodes (sir_tree (StructuralIr_compile tree False)) =
     map (\<lambda>n. n\<lparr>an_children := filter (shown tree) (an_children n)\<rparr>)
       [n \<leftarrow> art_nodes tree. an_id n = art_root tree \<or> shown tree (an_id n)]"
  by (simp add: StructuralIr_compile_def StructuralIr_from_tree_def Let_def entered_is_shown)

text \<open>
  C35: the compilation to the visible part ends on every tree, cyclic links included, and keeps, in their order,
  exactly the root and the nodes that are shown, each with exactly those of its children that are shown; root,
  generation and the flag of truncation stay as they are.
\<close>

theorem compile_keeps_exactly_the_shown_nodes:
  "StructuralIr_compile tree False =
     \<lparr>sir_schema_version = STRUCTURAL_IR_VERSION,
      sir_tree = tree\<lparr>art_nodes := map (\<lambda>n. n\<lparr>an_children := filter (shown tree) (an_children n)\<rparr>)
        [n \<leftarrow> art_nodes tree. an_id n = art_root tree \<or> shown tree (an_id n)]\<rparr>\<rparr>
   \<and> StructuralIr_compile tree True = \<lparr>sir_schema_version = STRUCTURAL_IR_VERSION, sir_tree = tree\<rparr>"
  by (simp add: StructuralIr_compile_def StructuralIr_from_tree_def Let_def entered_is_shown)

text \<open>A tree whose root names no node compiles to nothing.\<close>

lemma rootless_tree_is_empty:
  assumes "AgentRenderTree_find tree (art_root tree) = None"
  shows "art_nodes (sir_tree (StructuralIr_compile tree False)) = []"
proof -
  have "\<not> shown tree i" for i
  proof
    assume "shown tree i"
    then show False by induction (use assms in auto)
  qed
  moreover have "n \<in> set (art_nodes tree) \<Longrightarrow> an_id n \<noteq> art_root tree" for n
    using assms by (auto simp: AgentRenderTree_find_def find_None_iff)
  ultimately show ?thesis by (auto simp: compile_nodes filter_empty_conv)
qed

end
