(* ===== verification/SemanticIr.thy ===== *)
theory SemanticIr
  imports StructuralIr ChallengeObserver Fingerprints "HOL-Library.Multiset"
begin

section \<open>The semantic representation of a page\<close>

text \<open>
  The crate \<open>crates/semantic-ir\<close>: an agent render tree with roles, challenges and inconsistencies added, the
  normalization of its names with its report, and the comparison with a golden fixture.
\<close>

record SemanticIr =
  sem_tree :: AgentRenderTree

datatype SemanticIssue =
    AmbiguousIdentity string "string list"
  | MissingAccessibleName string StructuralRole

record SemanticNormalization =
  sn_changed_nodes :: "string list"
  sn_issues :: "SemanticIssue list"

record SemanticGoldenFixture =
  sgf_id :: string
  sgf_roles :: "StructuralRole list"
  sgf_labels :: "string list"
  sgf_relationship_kinds :: "string list"
  sgf_visible :: bool
  sgf_enabled :: bool
  sgf_geometry_count :: nat
  sgf_confidence :: f32
  sgf_provenance :: "SourceKind list"

definition SemanticIr_from_structural :: "AgentRenderTree \<Rightarrow> SemanticIr" where
  "SemanticIr_from_structural tree = \<lparr>sem_tree = tree\<rparr>"

abbreviation sem_nodes :: "SemanticIr \<Rightarrow> AgentNode list" where
  "sem_nodes ir \<equiv> art_nodes (sem_tree ir)"

text \<open>\<open>nodes.iter_mut().find(..)\<close>: the first match is changed.\<close>

fun change_first :: "('a \<Rightarrow> bool) \<Rightarrow> ('a \<Rightarrow> 'a) \<Rightarrow> 'a list \<Rightarrow> 'a list" where
  "change_first P f [] = []"
| "change_first P f (x # xs) = (if P x then f x # xs else x # change_first P f xs)"

definition SemanticIr_with_role :: "string \<Rightarrow> SemanticRole \<Rightarrow> SemanticIr \<Rightarrow> SemanticIr" where
  "SemanticIr_with_role node_id role ir =
     ir\<lparr>sem_tree := (sem_tree ir)\<lparr>art_nodes :=
          change_first (\<lambda>n. an_id n = node_id) (\<lambda>n. n\<lparr>an_semantic_role := Some role\<rparr>) (sem_nodes ir)\<rparr>\<rparr>"

subsection \<open>Challenges and inconsistencies\<close>

fun challenge_kind_label :: "ChallengeKind \<Rightarrow> string" where
  "challenge_kind_label Captcha = ''captcha''"
| "challenge_kind_label BrowserChallenge = ''browser-challenge''"
| "challenge_kind_label AccessDenied = ''access-denied''"
| "challenge_kind_label TwoFactorPrompt = ''two-factor''"
| "challenge_kind_label AccountLocked = ''account-locked''"
| "challenge_kind_label TermsOfServiceGate = ''tos-gate''"

fun challenge_kind_debug :: "ChallengeKind \<Rightarrow> string" where
  "challenge_kind_debug Captcha = ''Captcha''"
| "challenge_kind_debug BrowserChallenge = ''BrowserChallenge''"
| "challenge_kind_debug AccessDenied = ''AccessDenied''"
| "challenge_kind_debug TwoFactorPrompt = ''TwoFactorPrompt''"
| "challenge_kind_debug AccountLocked = ''AccountLocked''"
| "challenge_kind_debug TermsOfServiceGate = ''TermsOfServiceGate''"

definition NodeState_default :: NodeState where
  "NodeState_default =
     \<lparr>ns_visible = False, ns_enabled = False, ns_focused = False, ns_selected = False, ns_expanded = None\<rparr>"

definition challenge_node :: "AgentRenderTree \<Rightarrow> ChallengeObservation \<Rightarrow> AgentNode" where
  "challenge_node tree obs =
     \<lparr>an_id = ''challenge:'' @ co_provider obs @ '':'' @ decimal (length (art_nodes tree)),
      an_origin = Some (url_as_str (co_url obs)), an_identity_key = Some (''challenge:'' @ co_provider obs),
      an_structural_role = Region, an_semantic_role = Some Challenge, an_application_type = None,
      an_name = Some (''challenge:'' @ co_provider obs @ '' ('' @ challenge_kind_debug (co_kind obs) @ '')''),
      an_value = Some (TextValue (challenge_kind_label (co_kind obs))),
      an_description = Some (co_provider obs @ '' challenge detected on '' @ url_as_str (co_url obs)),
      an_state = NodeState_default, an_geometry = None, an_relationships = [], an_actions = [], an_children = [],
      an_provenance = co_provenance obs, an_confidence = Confidence (co_confidence obs),
      an_generation = art_generation tree\<rparr>"

definition push_node :: "(AgentRenderTree \<Rightarrow> AgentNode) \<Rightarrow> AgentRenderTree \<Rightarrow> AgentRenderTree" where
  "push_node f tree = tree\<lparr>art_nodes := art_nodes tree @ [f tree]\<rparr>"

definition SemanticIr_with_challenge_observations :: "ChallengeObservationSet \<Rightarrow> SemanticIr \<Rightarrow> SemanticIr" where
  "SemanticIr_with_challenge_observations observations ir =
     ir\<lparr>sem_tree := fold (\<lambda>obs. push_node (\<lambda>t. challenge_node t obs)) observations (sem_tree ir)\<rparr>"

text \<open>The provider that \<open>strip_prefix\<close> reads off a challenge node; a new provider is appended.\<close>

definition challenge_provider :: "AgentNode \<Rightarrow> string option" where
  "challenge_provider n =
     (if an_semantic_role n = Some Challenge
      then (case an_identity_key n of
              None \<Rightarrow> None
            | Some key \<Rightarrow> if prefix ''challenge:'' key then Some (drop (length ''challenge:'') key) else None)
      else None)"

definition add_provider :: "AgentNode \<Rightarrow> string list \<Rightarrow> string list" where
  "add_provider n providers =
     (case challenge_provider n of
        None \<Rightarrow> providers
      | Some p \<Rightarrow> if p \<in> set providers then providers else providers @ [p])"

definition SemanticIr_challenge_providers :: "SemanticIr \<Rightarrow> string list" where
  "SemanticIr_challenge_providers ir = fold add_provider (sem_nodes ir) []"

definition SemanticIr_challenge_present :: "SemanticIr \<Rightarrow> bool" where
  "SemanticIr_challenge_present ir = list_ex (\<lambda>n. an_semantic_role n = Some Challenge) (sem_nodes ir)"

fun FingerprintInconsistency_fmt :: "FingerprintInconsistency \<Rightarrow> string" where
  "FingerprintInconsistency_fmt (UserAgentClaimsBrowser claimed declared) =
     ''user agent advertises '' @ claimed @ '' but fingerprint declares '' @ declared"
| "FingerprintInconsistency_fmt (PlatformMismatch ua_platform declared) =
     ''user agent platform '' @ ua_platform @ '' does not match declared '' @ declared"
| "FingerprintInconsistency_fmt (WebglMismatch ua_family webgl_vendor) =
     ''WebGL vendor '' @ webgl_vendor @ '' does not match '' @ ua_family @ '' browser conventions''"

definition inconsistency_node :: "string \<Rightarrow> AgentRenderTree \<Rightarrow> FingerprintInconsistency \<Rightarrow> AgentNode" where
  "inconsistency_node fingerprint_id tree problem =
     \<lparr>an_id = ''profile-inconsistency:'' @ fingerprint_id @ '':'' @ decimal (length (art_nodes tree)),
      an_origin = None, an_identity_key = Some (''profile-inconsistency:'' @ fingerprint_id),
      an_structural_role = Region, an_semantic_role = Some ProfileInconsistency, an_application_type = None,
      an_name = Some (''profile-inconsistency:'' @ fingerprint_id),
      an_value = Some (TextValue (FingerprintInconsistency_fmt problem)),
      an_description = Some (FingerprintInconsistency_fmt problem),
      an_state = NodeState_default, an_geometry = None, an_relationships = [], an_actions = [], an_children = [],
      an_provenance = [\<lparr>ps_kind = AgentInference, ps_reference = ''semantic-ir'', ps_detail = None\<rparr>],
      an_confidence = Confidence (f32_round (95 / 100)), an_generation = art_generation tree\<rparr>"

definition SemanticIr_with_profile_inconsistencies ::
    "string \<Rightarrow> FingerprintInconsistency list \<Rightarrow> SemanticIr \<Rightarrow> SemanticIr" where
  "SemanticIr_with_profile_inconsistencies fingerprint_id problems ir =
     ir\<lparr>sem_tree := fold (\<lambda>problem. push_node (\<lambda>t. inconsistency_node fingerprint_id t problem)) problems (sem_tree ir)\<rparr>"

definition SemanticIr_profile_inconsistency_present :: "SemanticIr \<Rightarrow> bool" where
  "SemanticIr_profile_inconsistency_present ir =
     list_ex (\<lambda>n. an_semantic_role n = Some ProfileInconsistency) (sem_nodes ir)"

definition SemanticIr_node :: "SemanticIr \<Rightarrow> string \<Rightarrow> AgentNode option" where
  "SemanticIr_node ir i = AgentRenderTree_find (sem_tree ir) i"

subsection \<open>Normalization\<close>

definition requires_accessible_name :: "StructuralRole \<Rightarrow> bool" where
  "requires_accessible_name role \<longleftrightarrow> role \<in> {Button, Link, Textbox, Checkbox, Radio, RoleSelect}"

text \<open>One node: the node after normalization and whether its name changed.\<close>

definition normalize_node :: "AgentNode \<Rightarrow> AgentNode \<times> bool" where
  "normalize_node n =
     (case an_name n of
        None \<Rightarrow> (n, False)
      | Some name \<Rightarrow>
          (let normalized = join '' '' (split_whitespace name)
           in if normalized = [] then (n\<lparr>an_name := None\<rparr>, True)
              else if name \<noteq> normalized then (n\<lparr>an_name := Some normalized\<rparr>, True)
              else (n, False)))"

fun normalize_nodes :: "AgentNode list \<Rightarrow> SemanticNormalization \<Rightarrow> AgentNode list \<times> SemanticNormalization" where
  "normalize_nodes [] result = ([], result)"
| "normalize_nodes (n # ns) result =
     (let (n, changed) = normalize_node n;
          result = (if changed then result\<lparr>sn_changed_nodes := sn_changed_nodes result @ [an_id n]\<rparr> else result);
          result = (if an_name n = None \<and> requires_accessible_name (an_structural_role n)
                    then result\<lparr>sn_issues := sn_issues result @ [MissingAccessibleName (an_id n) (an_structural_role n)]\<rparr>
                    else result);
          (ns, result) = normalize_nodes ns result
      in (n # ns, result))"

definition add_identity :: "AgentNode \<Rightarrow> (string, string list) BTreeMap \<Rightarrow> (string, string list) BTreeMap" where
  "add_identity n identities =
     (case an_identity_key n of
        None \<Rightarrow> identities
      | Some key \<Rightarrow> bt_adjust key (\<lambda>ids. ids @ [an_id n]) (bt_or_insert key [] identities))"

definition SemanticIr_normalize :: "SemanticIr \<Rightarrow> SemanticNormalization \<times> SemanticIr" where
  "SemanticIr_normalize ir =
     (let (nodes, result) = normalize_nodes (sem_nodes ir) \<lparr>sn_changed_nodes = [], sn_issues = []\<rparr>;
          identities = fold add_identity nodes [];
          ambiguous = [AmbiguousIdentity (fst e) (snd e). e \<leftarrow> identities, length (snd e) > 1]
      in (result\<lparr>sn_issues := sn_issues result @ ambiguous\<rparr>, ir\<lparr>sem_tree := (sem_tree ir)\<lparr>art_nodes := nodes\<rparr>\<rparr>))"

subsection \<open>Golden fixtures\<close>

text \<open>The names that \<open>{:?}\<close> prints.\<close>

fun role_debug :: "StructuralRole \<Rightarrow> string" where
  "role_debug RolePage = ''Page''"
| "role_debug Region = ''Region''"
| "role_debug Heading = ''Heading''"
| "role_debug Paragraph = ''Paragraph''"
| "role_debug RoleText = ''Text''"
| "role_debug Button = ''Button''"
| "role_debug Link = ''Link''"
| "role_debug Textbox = ''Textbox''"
| "role_debug Checkbox = ''Checkbox''"
| "role_debug Radio = ''Radio''"
| "role_debug RoleSelect = ''Select''"
| "role_debug RoleList = ''List''"
| "role_debug ListItem = ''ListItem''"
| "role_debug Table = ''Table''"
| "role_debug Row = ''Row''"
| "role_debug Cell = ''Cell''"
| "role_debug Dialog = ''Dialog''"
| "role_debug Menu = ''Menu''"
| "role_debug RoleTab = ''Tab''"
| "role_debug Image = ''Image''"
| "role_debug Canvas = ''Canvas''"
| "role_debug Video = ''Video''"
| "role_debug Form = ''Form''"
| "role_debug RoleFrame = ''Frame''"
| "role_debug RoleShadowRoot = ''ShadowRoot''"
| "role_debug UnknownRole = ''Unknown''"

fun source_debug :: "SourceKind \<Rightarrow> string" where
  "source_debug Dom = ''Dom''"
| "source_debug Accessibility = ''Accessibility''"
| "source_debug Layout = ''Layout''"
| "source_debug ComputedStyle = ''ComputedStyle''"
| "source_debug SourceText = ''Text''"
| "source_debug EventHandler = ''EventHandler''"
| "source_debug JavaScript = ''JavaScript''"
| "source_debug NetworkRequest = ''NetworkRequest''"
| "source_debug NetworkResponse = ''NetworkResponse''"
| "source_debug SourceStorage = ''Storage''"
| "source_debug SourceUrl = ''Url''"
| "source_debug VisualInference = ''VisualInference''"
| "source_debug AgentInference = ''AgentInference''"

text \<open>\<open>(a - b).abs()\<close> on \<open>f32\<close> and \<open>f32::EPSILON\<close>.\<close>

fun f32_sub :: "f32 \<Rightarrow> f32 \<Rightarrow> f32" where
  "f32_sub (Finite a) (Finite b) = f32_round (a - b)"
| "f32_sub a b = f64_sub a b"

fun f32_abs :: "f32 \<Rightarrow> f32" where
  "f32_abs NegInf = PosInf"
| "f32_abs (Finite a) = Finite \<bar>a\<bar>"
| "f32_abs a = a"

definition F32_EPSILON :: f32 where
  "F32_EPSILON = Finite (1 / 8388608)"

fun confidence_differs :: "f32 \<Rightarrow> Confidence \<Rightarrow> bool" where
  "confidence_differs expected (Confidence c) = ieee_less F32_EPSILON (f32_abs (f32_sub c expected))"

definition golden_checks :: "SemanticGoldenFixture \<Rightarrow> SemanticIr \<Rightarrow> (bool \<times> string) list" where
  "golden_checks fx ir =
     [(sort_key role_debug (map an_structural_role (sem_nodes ir)) \<noteq> sort_key role_debug (sgf_roles fx),
       ''structural roles differ''),
      (sort (List.map_filter an_name (sem_nodes ir)) \<noteq> sort (sgf_labels fx), ''labels differ''),
      (sort (concat (map (\<lambda>n. map rel_kind (an_relationships n)) (sem_nodes ir))) \<noteq> sort (sgf_relationship_kinds fx),
       ''relationships differ''),
      (list_ex (\<lambda>n. ns_visible (an_state n) \<noteq> sgf_visible fx) (sem_nodes ir), ''visibility differs''),
      (list_ex (\<lambda>n. ns_enabled (an_state n) \<noteq> sgf_enabled fx) (sem_nodes ir), ''enabled state differs''),
      (length [n \<leftarrow> sem_nodes ir. an_geometry n \<noteq> None] \<noteq> sgf_geometry_count fx, ''geometry differs''),
      (list_ex (\<lambda>n. confidence_differs (sgf_confidence fx) (an_confidence n)) (sem_nodes ir), ''confidence differs''),
      (set (map source_debug (concat (map (\<lambda>n. map ps_kind (an_provenance n)) (sem_nodes ir))))
         \<noteq> set (map source_debug (sgf_provenance fx)), ''provenance differs'')]"

text \<open>Each check that fails pushes its message.\<close>

definition SemanticIr_validate_golden :: "SemanticGoldenFixture \<Rightarrow> SemanticIr \<Rightarrow> string list" where
  "SemanticIr_validate_golden fx ir = map snd (filter fst (golden_checks fx ir))"

subsection \<open>What normalization does\<close>

text \<open>The name of a normalized node: its words with single blanks between them, or none without words.\<close>

definition normal_name :: "string option \<Rightarrow> string option" where
  "normal_name v =
     (case v of None \<Rightarrow> None
      | Some name \<Rightarrow> if split_whitespace name = [] then None else Some (join '' '' (split_whitespace name)))"

lemma join_empty_iff: "(\<forall>w \<in> set ws. w \<noteq> []) \<Longrightarrow> join sep ws = [] \<longleftrightarrow> ws = []"
  by (cases "(sep, ws)" rule: join.cases) auto

lemma joined_words_empty_iff: "join '' '' (split_whitespace s) = [] \<longleftrightarrow> split_whitespace s = []"
  by (rule join_empty_iff) (use split_whitespace_words in blast)

lemma normal_name_idem: "normal_name (normal_name v) = normal_name v"
  by (auto simp: normal_name_def split_join_split split: option.split)

lemma normalize_node_eq:
  "normalize_node n = (n\<lparr>an_name := normal_name (an_name n)\<rparr>, normal_name (an_name n) \<noteq> an_name n)"
  by (cases n) (auto simp: normalize_node_def normal_name_def joined_words_empty_iff Let_def split: option.split)

definition unnamed :: "AgentNode \<Rightarrow> bool" where
  "unnamed n \<longleftrightarrow> normal_name (an_name n) = None \<and> requires_accessible_name (an_structural_role n)"

lemma normalize_nodes_eq:
  "normalize_nodes ns result =
     (map (\<lambda>n. n\<lparr>an_name := normal_name (an_name n)\<rparr>) ns,
      result\<lparr>sn_changed_nodes := sn_changed_nodes result @ map an_id [n \<leftarrow> ns. normal_name (an_name n) \<noteq> an_name n],
             sn_issues := sn_issues result @ [MissingAccessibleName (an_id n) (an_structural_role n). n \<leftarrow> ns, unnamed n]\<rparr>)"
  by (induction ns arbitrary: result) (auto simp: normalize_node_eq unnamed_def Let_def)

abbreviation bearers :: "AgentNode list \<Rightarrow> string \<Rightarrow> string list" where
  "bearers ns key \<equiv> map an_id [n \<leftarrow> ns. an_identity_key n = Some key]"

lemma bt_ok_add_identity [simp]: "bt_ok m \<Longrightarrow> bt_ok (add_identity n m)"
  by (simp add: add_identity_def split: option.split)

lemma bt_get_add_identity:
  "bt_get (add_identity n m) key =
     (if an_identity_key n = Some key
      then Some ((case bt_get m key of None \<Rightarrow> [] | Some ids \<Rightarrow> ids) @ [an_id n]) else bt_get m key)"
  by (auto simp: add_identity_def split: option.split)

lemma identities_ok: "bt_ok m \<Longrightarrow> bt_ok (fold add_identity ns m)"
  by (induction ns arbitrary: m) simp_all

lemma identities_get:
  "bt_get (fold add_identity ns m) key =
     (case bt_get m key of
        None \<Rightarrow> if bearers ns key = [] then None else Some (bearers ns key)
      | Some ids \<Rightarrow> Some (ids @ bearers ns key))"
proof (induction ns arbitrary: m)
  case (Cons n ns)
  show ?case by (auto simp: Cons bt_get_add_identity split: option.split)
qed (simp split: option.split)

lemma identities_in: "(key, ids) \<in> set (fold add_identity ns []) \<longleftrightarrow> ids = bearers ns key \<and> ids \<noteq> []"
  using bt_get_iff_in [OF identities_ok [OF bt_ok_empty], of ns key ids] identities_get [of ns "[]" key]
  by (auto split: if_splits)

text \<open>
  C37: normalization rewrites every name to its words with single blanks between them, and drops the names without a
  word, changing nothing else; it reports exactly the nodes whose name changed, in their order, exactly the nodes
  left without a name whose role requires one, and exactly the identities that several nodes bear, with all their
  bearers; a second normalization changes and reports no name, and finds the same issues.
\<close>

theorem normalization_is_idempotent_and_complete:
  assumes "SemanticIr_normalize ir = (report, ir')"
  shows "sem_nodes ir' = map (\<lambda>n. n\<lparr>an_name := normal_name (an_name n)\<rparr>) (sem_nodes ir)
    \<and> sn_changed_nodes report = map an_id [n \<leftarrow> sem_nodes ir. normal_name (an_name n) \<noteq> an_name n]
    \<and> (MissingAccessibleName i role \<in> set (sn_issues report) \<longleftrightarrow>
         (\<exists>n \<in> set (sem_nodes ir). i = an_id n \<and> role = an_structural_role n \<and> unnamed n))
    \<and> (AmbiguousIdentity key is \<in> set (sn_issues report) \<longleftrightarrow> is = bearers (sem_nodes ir) key \<and> length is > 1)
    \<and> SemanticIr_normalize ir' = (report\<lparr>sn_changed_nodes := []\<rparr>, ir')"
proof (intro conjI)
  let ?name = "\<lambda>n. n\<lparr>an_name := normal_name (an_name n)\<rparr>"
  have idem: "map ?name (map ?name ns) = map ?name ns" for ns by (simp add: normal_name_idem)
  have bearers: "bearers (map ?name ns) key = bearers ns key" for ns key
    by (induction ns) simp_all
  have report: "report = \<lparr>sn_changed_nodes = map an_id [n \<leftarrow> sem_nodes ir. normal_name (an_name n) \<noteq> an_name n],
      sn_issues = [MissingAccessibleName (an_id n) (an_structural_role n). n \<leftarrow> sem_nodes ir, unnamed n]
        @ [AmbiguousIdentity (fst e) (snd e). e \<leftarrow> fold add_identity (map ?name (sem_nodes ir)) [], length (snd e) > 1]\<rparr>"
    and ir': "ir' = ir\<lparr>sem_tree := (sem_tree ir)\<lparr>art_nodes := map ?name (sem_nodes ir)\<rparr>\<rparr>"
    using assms by (auto simp: SemanticIr_normalize_def normalize_nodes_eq Let_def)
  show "sem_nodes ir' = map ?name (sem_nodes ir)" by (simp add: ir')
  show "sn_changed_nodes report = map an_id [n \<leftarrow> sem_nodes ir. normal_name (an_name n) \<noteq> an_name n]"
    by (simp add: report)
  show "MissingAccessibleName i role \<in> set (sn_issues report) \<longleftrightarrow>
      (\<exists>n \<in> set (sem_nodes ir). i = an_id n \<and> role = an_structural_role n \<and> unnamed n)"
    by (auto simp: report)
  show "AmbiguousIdentity key is \<in> set (sn_issues report) \<longleftrightarrow> is = bearers (sem_nodes ir) key \<and> length is > 1"
  proof -
    have "AmbiguousIdentity key is \<in> set (sn_issues report)
        \<longleftrightarrow> (key, is) \<in> set (fold add_identity (map ?name (sem_nodes ir)) []) \<and> length is > 1"
      by (force simp: report)
    then show ?thesis unfolding identities_in bearers by auto
  qed
  show "SemanticIr_normalize ir' = (report\<lparr>sn_changed_nodes := []\<rparr>, ir')"
    unfolding SemanticIr_normalize_def report ir'
    by (simp add: normalize_nodes_eq Let_def normal_name_idem o_def unnamed_def cong: if_cong)
qed

definition sample_semantic_node :: "string \<Rightarrow> string option \<Rightarrow> AgentNode" where
  "sample_semantic_node i name =
     \<lparr>an_id = i, an_origin = None, an_identity_key = Some ''button:save'', an_structural_role = Button,
      an_semantic_role = None, an_application_type = None, an_name = name, an_value = None, an_description = None,
      an_state = NodeState_default, an_geometry = None, an_relationships = [], an_actions = [], an_children = [],
      an_provenance = [], an_confidence = Confidence_DIRECT, an_generation = 1\<rparr>"

definition sample_semantic :: SemanticIr where
  "sample_semantic = \<lparr>sem_tree = \<lparr>art_root = ''a'',
     art_nodes = [sample_semantic_node ''a'' (Some ''  Save   all ''), sample_semantic_node ''b'' (Some ''  '')],
     art_generation = 1, art_truncated = False\<rparr>\<rparr>"

theorem normalization_is_idempotent_and_complete_witness:
  "map an_name (sem_nodes (snd (SemanticIr_normalize sample_semantic))) = [Some ''Save all'', None]
   \<and> MissingAccessibleName ''b'' Button \<in> set (sn_issues (fst (SemanticIr_normalize sample_semantic)))
   \<and> AmbiguousIdentity ''button:save'' [''a'', ''b''] \<in> set (sn_issues (fst (SemanticIr_normalize sample_semantic)))"
proof -
  have names: "normal_name (Some ''  Save   all '') = Some ''Save all''" "normal_name (Some ''  '') = None"
    by (simp_all add: normal_name_def split_whitespace_def split_ws_printable split_ws_blank del: split_ws.simps(2))
  let ?out = "SemanticIr_normalize sample_semantic"
  have "?out = (fst ?out, snd ?out)" by (rule surjective_pairing)
  note out = normalization_is_idempotent_and_complete [OF this, of "''b''" Button "''button:save''" "[''a'', ''b'']"]
  note renamed = out [THEN conjunct1]
    and missing = out [THEN conjunct2, THEN conjunct2, THEN conjunct1]
    and ambiguous = out [THEN conjunct2, THEN conjunct2, THEN conjunct2, THEN conjunct1]
  have nodes: "sem_nodes sample_semantic
      = [sample_semantic_node ''a'' (Some ''  Save   all ''), sample_semantic_node ''b'' (Some ''  '')]"
    by (simp add: sample_semantic_def)
  have fields: "an_name (sample_semantic_node i v) = v" "an_id (sample_semantic_node i v) = i"
    "an_structural_role (sample_semantic_node i v) = Button" "an_identity_key (sample_semantic_node i v) = Some ''button:save''" for i v
    by (simp_all add: sample_semantic_node_def)
  have "map an_name (sem_nodes (snd ?out)) = [Some ''Save all'', None]"
    unfolding renamed by (simp add: nodes fields names)
  moreover have "unnamed (sample_semantic_node ''b'' (Some ''  ''))"
    using names(2) by (simp add: unnamed_def fields requires_accessible_name_def)
  then have "MissingAccessibleName ''b'' Button \<in> set (sn_issues (fst ?out))"
    unfolding missing nodes using fields by simp
  moreover have "AmbiguousIdentity ''button:save'' [''a'', ''b''] \<in> set (sn_issues (fst ?out))"
    unfolding ambiguous by (simp add: nodes fields)
  ultimately show ?thesis by blast
qed

subsection \<open>Golden fixtures compare multisets\<close>

lemma inj_role_debug: "inj role_debug"
proof (rule injI)
  show "role_debug a = role_debug b \<Longrightarrow> a = b" for a b by (cases a; cases b) simp_all
qed

lemma inj_source_debug: "inj source_debug"
proof (rule injI)
  show "source_debug a = source_debug b \<Longrightarrow> a = b" for a b by (cases a; cases b) simp_all
qed

lemma sort_key_eq_iff: "inj f \<Longrightarrow> sort_key f xs = sort_key f ys \<longleftrightarrow> mset xs = mset ys"
proof
  show "sort_key f xs = sort_key f ys \<Longrightarrow> mset xs = mset ys" by (metis mset_sort)
  show "inj f \<Longrightarrow> mset xs = mset ys \<Longrightarrow> sort_key f xs = sort_key f ys"
    by (intro sort_key_inj_key_eq) (auto intro: inj_on_subset)
qed

lemma sort_eq_iff: "sort xs = sort ys \<longleftrightarrow> mset xs = mset ys"
  using sort_key_eq_iff [of "\<lambda>x. x" xs ys] by (simp add: inj_def)

text \<open>
  A tree passes a golden fixture exactly when the multisets of its roles, of its names and of the kinds of its
  relationships are those of the fixture, every node has the fixture's visibility and enabled state, as many nodes
  as the fixture says have a geometry, no confidence is further than epsilon from the fixture's, and the sets of
  the kinds of provenance agree; otherwise each failing comparison adds its own message.
\<close>

lemma golden_comparison_is_exact:
  "SemanticIr_validate_golden fx ir = [] \<longleftrightarrow>
     mset (map an_structural_role (sem_nodes ir)) = mset (sgf_roles fx)
   \<and> mset (List.map_filter an_name (sem_nodes ir)) = mset (sgf_labels fx)
   \<and> mset (concat (map (\<lambda>n. map rel_kind (an_relationships n)) (sem_nodes ir))) = mset (sgf_relationship_kinds fx)
   \<and> list_all (\<lambda>n. ns_visible (an_state n) = sgf_visible fx) (sem_nodes ir)
   \<and> list_all (\<lambda>n. ns_enabled (an_state n) = sgf_enabled fx) (sem_nodes ir)
   \<and> length [n \<leftarrow> sem_nodes ir. an_geometry n \<noteq> None] = sgf_geometry_count fx
   \<and> list_all (\<lambda>n. \<not> confidence_differs (sgf_confidence fx) (an_confidence n)) (sem_nodes ir)
   \<and> set (concat (map (\<lambda>n. map ps_kind (an_provenance n)) (sem_nodes ir))) = set (sgf_provenance fx)"
proof -
  have exists: "\<not> list_ex P ns \<longleftrightarrow> list_all (\<lambda>n. \<not> P n) ns" for P :: "AgentNode \<Rightarrow> bool" and ns
    by (auto simp: list_ex_iff list_all_iff)
  have filter_Nil: "filter fst ((b, x) # cs) = [] \<longleftrightarrow> \<not> b \<and> filter fst cs = []" for b and x :: string and cs by simp
  show ?thesis
    unfolding SemanticIr_validate_golden_def golden_checks_def map_is_Nil_conv filter_Nil exists not_not
      sort_key_eq_iff [OF inj_role_debug] sort_eq_iff set_map inj_image_eq_iff [OF inj_source_debug]
    by simp
qed

subsection \<open>What the added nodes are good for\<close>

lemma push_node_nodes: "art_nodes (push_node f tree) = art_nodes tree @ [f tree]"
  by (simp add: push_node_def)

lemma push_nodes:
  "\<exists>ns. fold (\<lambda>x. push_node (\<lambda>t. f t x)) xs tree = tree\<lparr>art_nodes := art_nodes tree @ ns\<rparr>
     \<and> (\<forall>n \<in> set ns. \<exists>x t. n = f t x)"
proof (induction xs arbitrary: tree)
  case Nil
  show ?case by (rule exI [of _ "[]"]) simp
next
  case (Cons x xs)
  let ?t = "push_node (\<lambda>t. f t x) tree"
  obtain ns where ns: "fold (\<lambda>x. push_node (\<lambda>t. f t x)) xs ?t = ?t\<lparr>art_nodes := art_nodes ?t @ ns\<rparr>"
    "\<forall>n \<in> set ns. \<exists>x t. n = f t x" using Cons by blast
  have "?t\<lparr>art_nodes := art_nodes ?t @ ns\<rparr> = tree\<lparr>art_nodes := art_nodes tree @ f tree x # ns\<rparr>"
    by (simp add: push_node_def)
  then show ?case using ns by (intro exI [of _ "f tree x # ns"]) auto
qed

lemma challenge_node_provider: "challenge_provider (challenge_node tree obs) = Some (co_provider obs)"
  by (simp add: challenge_provider_def challenge_node_def)

lemma add_provider_keeps:
  "set (add_provider n ps) = set ps \<union> {p. challenge_provider n = Some p}"
  "distinct ps \<Longrightarrow> distinct (add_provider n ps)"
  by (auto simp: add_provider_def split: option.split)

lemma providers_of_nodes:
  "set (fold add_provider ns ps) = set ps \<union> {p. \<exists>n \<in> set ns. challenge_provider n = Some p}
   \<and> (distinct ps \<longrightarrow> distinct (fold add_provider ns ps))"
proof (induction ns arbitrary: ps)
  case (Cons n ns)
  show ?case by (auto simp: Cons add_provider_keeps)
qed simp

lemma challenge_nodes_added:
  "challenge_provider ` set (art_nodes (fold (\<lambda>obs. push_node (\<lambda>t. challenge_node t obs)) observations tree)) =
     challenge_provider ` set (art_nodes tree) \<union> Some ` co_provider ` set observations
   \<and> list_ex (\<lambda>n. an_semantic_role n = Some Challenge)
        (art_nodes (fold (\<lambda>obs. push_node (\<lambda>t. challenge_node t obs)) observations tree)) =
     (list_ex (\<lambda>n. an_semantic_role n = Some Challenge) (art_nodes tree) \<or> observations \<noteq> [])"
proof (induction observations arbitrary: tree)
  case (Cons obs observations)
  have "an_semantic_role (challenge_node tree obs) = Some Challenge" by (simp add: challenge_node_def)
  then show ?case by (simp add: Cons push_node_nodes challenge_node_provider)
qed simp

text \<open>
  After the observed challenges are added, the tree names every provider it named before and every provider
  observed, each once, and no other; a challenge is present exactly when one was or something was observed.
\<close>

lemma challenge_providers_are_exact:
  "set (SemanticIr_challenge_providers (SemanticIr_with_challenge_observations observations ir)) =
     set (SemanticIr_challenge_providers ir) \<union> co_provider ` set observations"
  "distinct (SemanticIr_challenge_providers ir)"
  "SemanticIr_challenge_present (SemanticIr_with_challenge_observations observations ir)
     = (SemanticIr_challenge_present ir \<or> observations \<noteq> [])"
proof -
  have set_of: "set (SemanticIr_challenge_providers ir) = {p. Some p \<in> challenge_provider ` set (sem_nodes ir)}" for ir
    using providers_of_nodes [of "sem_nodes ir" "[]"] unfolding SemanticIr_challenge_providers_def
    by (auto simp: image_iff) metis
  show "set (SemanticIr_challenge_providers (SemanticIr_with_challenge_observations observations ir)) =
     set (SemanticIr_challenge_providers ir) \<union> co_provider ` set observations"
    unfolding set_of using challenge_nodes_added [of observations "sem_tree ir"]
    by (auto simp: SemanticIr_with_challenge_observations_def)
  show "distinct (SemanticIr_challenge_providers ir)"
    using providers_of_nodes [of "sem_nodes ir" "[]"] unfolding SemanticIr_challenge_providers_def by simp
  show "SemanticIr_challenge_present (SemanticIr_with_challenge_observations observations ir)
     = (SemanticIr_challenge_present ir \<or> observations \<noteq> [])"
    using challenge_nodes_added [of observations "sem_tree ir"]
    by (simp add: SemanticIr_challenge_present_def SemanticIr_with_challenge_observations_def)
qed

text \<open>
  The added nodes take the default state, which is invisible and disabled, and no node links to them: the
  compilation to the visible part drops every one of them.
\<close>

lemma find_appended: "find P (xs @ ys) = (case find P xs of None \<Rightarrow> find P ys | Some x \<Rightarrow> Some x)"
  by (induction xs) auto

lemma appended_hidden_not_shown:
  assumes origin: "AgentRenderTree_find tree (art_root tree) \<noteq> None"
    and hidden: "\<forall>n \<in> set ns. \<not> ns_visible (an_state n) \<and> AgentRenderTree_find tree (an_id n) = None"
  shows "shown (tree\<lparr>art_nodes := art_nodes tree @ ns\<rparr>) i \<longleftrightarrow> shown tree i"
proof
  let ?t = "tree\<lparr>art_nodes := art_nodes tree @ ns\<rparr>"
  have find: "AgentRenderTree_find ?t i =
      (case AgentRenderTree_find tree i of None \<Rightarrow> find (\<lambda>n. an_id n = i) ns | Some n \<Rightarrow> Some n)" for i
    by (simp add: AgentRenderTree_find_def find_appended)
  have new: "AgentRenderTree_find tree c = Some n"
    if "AgentRenderTree_find ?t c = Some n" "c = art_root tree \<or> ns_visible (an_state n)" for c n
  proof (cases "AgentRenderTree_find tree c")
    case None
    then have "n \<in> set ns" using that(1) unfolding find by (auto simp: find_Some_iff)
    then show ?thesis using hidden that(2) None origin by auto
  qed (use that find in auto)
  have root: "art_root ?t = art_root tree" by simp
  show "shown ?t i \<Longrightarrow> shown tree i"
  proof (induction rule: shown.induct)
    case shown_root
    then show ?case using shown.shown_root [OF origin] by simp
  next
    case (shown_child p m c n)
    have vis: "c = art_root tree \<or> ns_visible (an_state n)" using shown_child.hyps unfolding root by blast
    show ?case
    proof (cases "AgentRenderTree_find tree p")
      case None
      then show ?thesis using shown_child.IH by (auto elim: shown.cases)
    next
      case (Some q)
      then have "q = m" using shown_child.hyps(2) unfolding find by simp
      then show ?thesis using shown.shown_child [OF shown_child.IH _ shown_child.hyps(3) new [OF shown_child.hyps(4) vis] vis] Some by simp
    qed
  qed
  show "shown tree i \<Longrightarrow> shown ?t i"
  proof (induction rule: shown.induct)
    case shown_root
    then show ?case unfolding root [symmetric] by (intro shown.shown_root) (auto simp: find)
  next
    case (shown_child p m c n)
    then show ?case by (intro shown.shown_child [of ?t p m c n]) (simp_all add: find)
  qed
qed

lemma challenge_nodes_are_dropped:
  assumes "AgentRenderTree_find tree (art_root tree) \<noteq> None"
    and "list_all (\<lambda>n. \<not> prefix ''challenge:'' (an_id n)) (art_nodes tree)"
  shows "StructuralIr_compile (sem_tree (SemanticIr_with_challenge_observations observations (SemanticIr_from_structural tree))) False
    = StructuralIr_compile tree False"
proof -
  obtain ns where ns: "fold (\<lambda>obs. push_node (\<lambda>t. challenge_node t obs)) observations tree = tree\<lparr>art_nodes := art_nodes tree @ ns\<rparr>"
    "\<forall>n \<in> set ns. \<exists>x t. n = challenge_node t x" using push_nodes [of challenge_node observations tree] by blast
  have new: "\<not> ns_visible (an_state n) \<and> AgentRenderTree_find tree (an_id n) = None" if added: "n \<in> set ns" for n
  proof -
    obtain x t where n: "n = challenge_node t x" using ns(2) added by blast
    have "an_id m \<noteq> an_id n" if "m \<in> set (art_nodes tree)" for m
      using assms(2) that by (auto simp: n challenge_node_def list_all_iff)
    then show ?thesis by (auto simp: n challenge_node_def NodeState_default_def AgentRenderTree_find_def find_None_iff)
  qed
  let ?t = "tree\<lparr>art_nodes := art_nodes tree @ ns\<rparr>"
  have same: "shown ?t = shown tree" using appended_hidden_not_shown [OF assms(1), of ns] new by blast
  have "an_id n \<noteq> art_root tree \<and> \<not> shown tree (an_id n)" if "n \<in> set ns" for n
    using new [OF that] assms(1) by (auto elim: shown.cases)
  then have "[n \<leftarrow> ns. an_id n = art_root tree \<or> shown tree (an_id n)] = []" by (simp add: filter_empty_conv)
  then have "art_nodes (sir_tree (StructuralIr_compile ?t False)) = art_nodes (sir_tree (StructuralIr_compile tree False))"
    unfolding compile_nodes same by simp
  then show ?thesis
    by (simp add: SemanticIr_with_challenge_observations_def SemanticIr_from_structural_def ns(1) StructuralIr_compile_def
        StructuralIr_from_tree_def Let_def)
qed

end
