(* ===== verification/SemanticCompiler.thy ===== *)
theory SemanticCompiler
  imports SemanticIr Observers
begin

section \<open>The semantic compiler\<close>

text \<open>
  The crate \<open>crates/semantic-compiler\<close>: an observed document and its layout become an agent render tree. The
  recursion over the children of a node carries its depth; \<open>None\<close> is a compilation without a result: a recursion
  deeper than the document has nodes, which on a table of that size never ends, or a child that is not in the table,
  where the code panics.
\<close>

type_synonym DirtySubtrees = "EngineNodeId set"

definition DirtySubtrees_mark :: "EngineNodeId \<Rightarrow> DirtySubtrees \<Rightarrow> DirtySubtrees" where
  "DirtySubtrees_mark i dirty = insert i dirty"

definition DirtySubtrees_contains :: "EngineNodeId \<Rightarrow> DirtySubtrees \<Rightarrow> bool" where
  "DirtySubtrees_contains i dirty = (i \<in> dirty)"

definition DirtySubtrees_is_empty :: "DirtySubtrees \<Rightarrow> bool" where
  "DirtySubtrees_is_empty dirty = (dirty = {})"

definition DirtySubtrees_drain :: "DirtySubtrees \<Rightarrow> EngineNodeId list \<times> DirtySubtrees" where
  "DirtySubtrees_drain dirty = (sorted_list_of_set dirty, {})"

record CompileResult =
  cr_tree :: AgentRenderTree
  cr_recomputed_nodes :: "EngineNodeId list"

record SemanticCompiler =
  sco_generation :: u64

subsection \<open>Classification of a node\<close>

definition tag_role :: "NodeKind \<Rightarrow> string \<Rightarrow> StructuralRole" where
  "tag_role k tag =
     (if tag \<in> {''h1'', ''h2'', ''h3'', ''h4'', ''h5'', ''h6''} then Heading
      else if tag = ''p'' then Paragraph
      else if tag = ''button'' then Button
      else if tag = ''a'' then Link
      else if tag = ''input'' then Textbox
      else if tag = ''form'' then Form
      else if tag \<in> {''main'', ''section'', ''nav''} then Region
      else if tag = ''img'' then Image
      else if tag = ''dialog'' then Dialog
      else if k = KindText then RoleText
      else UnknownRole)"

definition classify ::
    "NodeKind \<Rightarrow> string option \<Rightarrow> (string, string) BTreeMap \<Rightarrow> string option \<Rightarrow>
     StructuralRole \<times> SemanticRole option \<times> string option" where
  "classify k tag attributes val =
     (if k = KindDocument then (RolePage, None, None)
      else if k = KindFrame then (RoleFrame, None, tag)
      else if k = KindShadowRoot then (RoleShadowRoot, None, None)
      else
        let tag = to_ascii_lowercase (or_empty tag);
            role = tag_role k tag;
            name = (case bt_get attributes ''aria-label'' of
                Some v \<Rightarrow> Some v
              | None \<Rightarrow> (case bt_get attributes ''alt'' of Some v \<Rightarrow> Some v | None \<Rightarrow> val));
            accessible_name = to_ascii_lowercase (or_empty name);
            semantic = (if bt_get attributes ''type'' = Some ''submit''
                  \<or> tag = ''button'' \<and> str_contains accessible_name ''save'' then Some SubmitAction
                else if bt_get attributes ''type'' = Some ''search'' then Some SearchField
                else None)
        in (role, semantic, name))"

fun role_name :: "StructuralRole \<Rightarrow> string" where
  "role_name RolePage = ''page''"
| "role_name Region = ''region''"
| "role_name Heading = ''heading''"
| "role_name Paragraph = ''paragraph''"
| "role_name RoleText = ''text''"
| "role_name Button = ''button''"
| "role_name Link = ''link''"
| "role_name Textbox = ''textbox''"
| "role_name Checkbox = ''checkbox''"
| "role_name Radio = ''radio''"
| "role_name RoleSelect = ''select''"
| "role_name RoleList = ''list''"
| "role_name ListItem = ''list_item''"
| "role_name Table = ''table''"
| "role_name Row = ''row''"
| "role_name Cell = ''cell''"
| "role_name Dialog = ''dialog''"
| "role_name Menu = ''menu''"
| "role_name RoleTab = ''tab''"
| "role_name Image = ''image''"
| "role_name Canvas = ''canvas''"
| "role_name Video = ''video''"
| "role_name Form = ''form''"
| "role_name RoleFrame = ''frame''"
| "role_name RoleShadowRoot = ''shadow_root''"
| "role_name UnknownRole = ''unknown''"

definition stable_identity :: "RawNode \<Rightarrow> StructuralRole \<Rightarrow> string option" where
  "stable_identity raw role =
     (case bt_get (rn_attributes raw) ''data-key'' of
        Some v \<Rightarrow> Some (role_name role @ '':'' @ v)
      | None \<Rightarrow>
          (case bt_get (rn_attributes raw) ''id'' of
             Some v \<Rightarrow> Some (role_name role @ ''#'' @ v)
           | None \<Rightarrow> map_option (\<lambda>v. role_name role @ '':'' @ to_ascii_lowercase v)
                       (bt_get (rn_attributes raw) ''aria-label'')))"

subsection \<open>The traversal\<close>

definition dom_id :: "EngineNodeId \<Rightarrow> AgentNodeId" where
  "dom_id i = ''dom:'' @ decimal (unat i)"

definition agent_node :: "LayoutSnapshot \<Rightarrow> u64 \<Rightarrow> EngineNodeId \<Rightarrow> RawNode \<Rightarrow> AgentNode" where
  "agent_node layout generation i raw =
     (let (role, semantic, name) = classify (rn_kind raw) (rn_name raw) (rn_attributes raw) (rn_text raw);
          box = bt_get (lsn_boxes layout) i
      in \<lparr>an_id = dom_id i, an_origin = None, an_identity_key = stable_identity raw role,
          an_structural_role = role, an_semantic_role = semantic, an_application_type = None, an_name = name,
          an_value = map_option TextValue (rn_text raw), an_description = None,
          an_state = NodeState_default
            \<lparr>ns_visible := (case box of None \<Rightarrow> True | Some b \<Rightarrow> lb_visible b \<and> \<not> lb_clipped b),
             ns_enabled := \<not> (case box of None \<Rightarrow> False | Some b \<Rightarrow> lb_disabled b)\<rparr>,
          an_geometry = map_option (\<lambda>b. \<lparr>geo_x = rect_x (lb_rect b), geo_y = rect_y (lb_rect b),
                                         geo_width = rect_width (lb_rect b), geo_height = rect_height (lb_rect b)\<rparr>) box,
          an_relationships = [],
          an_actions = (if semantic = Some SubmitAction
                        then [\<lparr>ad_name = ''activate'', ad_consequence = ''UNKNOWN''\<rparr>] else []),
          an_children = [],
          an_provenance = [\<lparr>ps_kind = Dom, ps_reference = decimal (unat i), ps_detail = rn_name raw\<rparr>],
          an_confidence = Confidence_DIRECT, an_generation = generation\<rparr>)"

definition link_child :: "AgentNodeId option \<Rightarrow> AgentNodeId \<Rightarrow> AgentNode list \<Rightarrow> AgentNode list" where
  "link_child parent c nodes =
     (case parent of
        None \<Rightarrow> nodes
      | Some p \<Rightarrow> change_first (\<lambda>n. an_id n = p) (\<lambda>n. n\<lparr>an_children := an_children n @ [c]\<rparr>) nodes)"

fun SemanticCompiler_visit ::
      "nat \<Rightarrow> RawDocument \<Rightarrow> LayoutSnapshot \<Rightarrow> EngineNodeId \<Rightarrow> AgentNodeId option \<Rightarrow> AgentRenderTree \<Rightarrow> AgentRenderTree option"
  and visit_children ::
      "nat \<Rightarrow> RawDocument \<Rightarrow> LayoutSnapshot \<Rightarrow> AgentNodeId \<Rightarrow> EngineNodeId list \<Rightarrow> AgentRenderTree \<Rightarrow> AgentRenderTree option" where
  "SemanticCompiler_visit 0 document layout i parent tree = None"
| "SemanticCompiler_visit (Suc n) document layout i parent tree =
     (case RawDocument_node document i of
        None \<Rightarrow> None
      | Some raw \<Rightarrow>
          visit_children n document layout (dom_id i) (rn_children raw)
            (tree\<lparr>art_nodes := link_child parent (dom_id i) (art_nodes tree)
                    @ [agent_node layout (art_generation tree) i raw]\<rparr>))"
| "visit_children n document layout p [] tree = Some tree"
| "visit_children n document layout p (c # cs) tree =
     (case SemanticCompiler_visit n document layout c (Some p) tree of
        None \<Rightarrow> None
      | Some tree \<Rightarrow> visit_children n document layout p cs tree)"

definition SemanticCompiler_compile ::
    "RawDocument \<Rightarrow> LayoutSnapshot \<Rightarrow> SemanticCompiler \<Rightarrow> (CompileResult \<times> SemanticCompiler) option" where
  "SemanticCompiler_compile document layout s =
     (let generation = sco_generation s + 1;
          tree = \<lparr>art_root = ''page:'' @ rd_url document, art_nodes = [], art_generation = generation, art_truncated = False\<rparr>
      in map_option (\<lambda>tree. (\<lparr>cr_tree = tree, cr_recomputed_nodes = bt_keys (rd_nodes document)\<rparr>, s\<lparr>sco_generation := generation\<rparr>))
           (case rd_root document of
              None \<Rightarrow> Some tree
            | Some origin \<Rightarrow> SemanticCompiler_visit (dom_depth document) document layout origin None tree))"

definition SemanticCompiler_compile_dirty ::
    "RawDocument \<Rightarrow> LayoutSnapshot \<Rightarrow> DirtySubtrees \<Rightarrow> SemanticCompiler \<Rightarrow> (CompileResult \<times> DirtySubtrees \<times> SemanticCompiler) option" where
  "SemanticCompiler_compile_dirty document layout dirty s =
     (let (recomputed, dirty) = DirtySubtrees_drain dirty
      in map_option (\<lambda>(result, s). (if recomputed \<noteq> [] then result\<lparr>cr_recomputed_nodes := recomputed\<rparr> else result, dirty, s))
           (SemanticCompiler_compile document layout s))"

definition SemanticCompiler_compile_normalized ::
    "RawDocument \<Rightarrow> LayoutSnapshot \<Rightarrow> SemanticCompiler \<Rightarrow> ((CompileResult \<times> SemanticNormalization) \<times> SemanticCompiler) option" where
  "SemanticCompiler_compile_normalized document layout s =
     map_option (\<lambda>(result, s).
         (let (normalization, semantic) = SemanticIr_normalize (SemanticIr_from_structural (cr_tree result))
          in ((result\<lparr>cr_tree := sem_tree semantic\<rparr>, normalization), s)))
       (SemanticCompiler_compile document layout s)"

text \<open>The evidence of a mutation reaches the node it names; every other evidence is passed over.\<close>

definition fold_evidence :: "RuntimeEvidence \<Rightarrow> AgentNode list \<Rightarrow> AgentNode list" where
  "fold_evidence evidence nodes =
     (case rev_event evidence of
        DomMutationObserved i \<Rightarrow>
          change_first (\<lambda>n. an_id n = dom_id i)
            (\<lambda>n. n\<lparr>an_provenance := an_provenance n @ rev_provenance evidence, an_confidence := Confidence_PROBABLE\<rparr>) nodes
      | _ \<Rightarrow> nodes)"

definition SemanticCompiler_compile_with_runtime ::
    "RawDocument \<Rightarrow> LayoutSnapshot \<Rightarrow> RuntimeEvidence list \<Rightarrow> SemanticCompiler \<Rightarrow> (CompileResult \<times> SemanticCompiler) option" where
  "SemanticCompiler_compile_with_runtime document layout runtime s =
     map_option (\<lambda>(result, s).
         (result\<lparr>cr_tree := (cr_tree result)\<lparr>art_nodes := fold fold_evidence runtime (art_nodes (cr_tree result))\<rparr>\<rparr>, s))
       (SemanticCompiler_compile document layout s)"

subsection \<open>The traversal lists the document\<close>

text \<open>The nodes at and below \<open>i\<close>, each before its children.\<close>

fun preorder :: "nat \<Rightarrow> ('k \<Rightarrow> 'k list) \<Rightarrow> 'k \<Rightarrow> 'k list" where
  "preorder 0 kids i = []"
| "preorder (Suc n) kids i = i # concat (map (preorder n kids) (kids i))"

lemma walk_preorder:
  "walk n kids i acc = Some r \<Longrightarrow> mset (preorder n kids i) + mset acc = add_mset i (mset r)"
  "walk_all n kids cs acc = Some r \<Longrightarrow> mset (concat (map (preorder n kids) cs)) + mset acc = mset r"
proof (induction n kids i acc and n kids cs acc arbitrary: r and r rule: walk_walk_all.induct)
  case (4 n kids c cs acc)
  from 4(3) obtain s where s: "walk n kids c acc = Some s" "walk_all n kids cs (s @ [c]) = Some r"
    by (auto split: option.splits)
  have "mset (concat (map (preorder n kids) (c # cs))) + mset acc
      = mset (concat (map (preorder n kids) cs)) + (mset (preorder n kids c) + mset acc)" by simp
  also have "\<dots> = mset (concat (map (preorder n kids) cs)) + mset (s @ [c])" unfolding 4(1) [OF s(1)] by simp
  also have "\<dots> = mset r" using 4(2) [OF s] by simp
  finally show ?case .
qed simp_all

lemma decimal_inj: "decimal m = decimal n \<longleftrightarrow> m = n"
  by (metis decimal_value)

lemma dom_id_inj [simp]: "dom_id i = dom_id j \<longleftrightarrow> i = j"
  by (simp add: dom_id_def decimal_inj word_unat_eq_iff)

text \<open>The node the compiler makes of \<open>i\<close>, its children linked.\<close>

definition compiled :: "RawDocument \<Rightarrow> LayoutSnapshot \<Rightarrow> u64 \<Rightarrow> EngineNodeId \<Rightarrow> AgentNode" where
  "compiled d layout generation i =
     (case RawDocument_node d i of
        None \<Rightarrow> agent_node layout generation i (RawNode_document i)
      | Some raw \<Rightarrow> agent_node layout generation i raw\<lparr>an_children := map dom_id (rn_children raw)\<rparr>)"

lemma an_id_compiled [simp]: "an_id (compiled d layout g i) = dom_id i"
  by (simp add: compiled_def agent_node_def Let_def split: option.split prod.split)

lemma an_id_agent_node [simp]: "an_id (agent_node layout g i raw) = dom_id i" "an_children (agent_node layout g i raw) = []"
  by (simp_all add: agent_node_def Let_def split: prod.split)

lemma change_first_append:
  "change_first P f (xs @ ys) = (if list_ex P xs then change_first P f xs @ ys else xs @ change_first P f ys)"
  by (induction xs) auto

lemma change_first_ids: "(\<And>x. an_id (f x) = an_id x) \<Longrightarrow> map an_id (change_first P f xs) = map an_id xs"
  by (induction xs) simp_all

lemma link_ids [simp]: "map an_id (link_child parent c nodes) = map an_id nodes"
  by (simp add: link_child_def change_first_ids split: option.split)

abbreviation ids :: "AgentNode list \<Rightarrow> AgentNodeId set" where
  "ids nodes \<equiv> set (map an_id nodes)"

lemma link_append: "p \<in> ids xs \<Longrightarrow> link_child (Some p) c (xs @ ys) = link_child (Some p) c xs @ ys"
  by (auto simp: link_child_def change_first_append list_ex_iff)

lemma link_all_ids [simp]: "map an_id (fold (\<lambda>c. link_child (Some p) (dom_id c)) cs nodes) = map an_id nodes"
  by (induction cs arbitrary: nodes) simp_all

lemma link_all_append:
  "p \<in> ids xs \<Longrightarrow> fold (\<lambda>c. link_child (Some p) (dom_id c)) cs (xs @ ys) = fold (\<lambda>c. link_child (Some p) (dom_id c)) cs xs @ ys"
proof (induction cs arbitrary: xs)
  case (Cons c cs)
  then show ?case using Cons.IH [of "link_child (Some p) (dom_id c) xs"] link_append by (simp del: set_map)
qed simp

lemma link_all_last:
  "an_id n \<notin> ids xs \<Longrightarrow> fold (\<lambda>c. link_child (Some (an_id n)) (dom_id c)) cs (xs @ [n])
     = xs @ [n\<lparr>an_children := an_children n @ map dom_id cs\<rparr>]"
proof (induction cs arbitrary: n)
  case (Cons c cs)
  have no: "\<not> list_ex (\<lambda>m. an_id m = an_id n) xs" using Cons.prems by (induction xs) auto
  have step: "link_child (Some (an_id n)) (dom_id c) (xs @ [n]) = xs @ [n\<lparr>an_children := an_children n @ [dom_id c]\<rparr>]"
    by (simp add: link_child_def change_first_append no)
  have "an_id (n\<lparr>an_children := an_children n @ [dom_id c]\<rparr>) \<notin> ids xs" using Cons.prems by simp
  from Cons.IH [OF this] show ?case by (simp add: step)
qed simp

abbreviation listed :: "RawDocument \<Rightarrow> EngineNodeId list \<Rightarrow> AgentNode list \<Rightarrow> bool" where
  "listed d is nodes \<equiv> distinct is \<and> (\<forall>i \<in> set is. RawDocument_node d i \<noteq> None \<and> dom_id i \<notin> ids nodes)"

lemma ids_compiled: "ids (map (compiled d layout g) is) = dom_id ` set is"
  by (simp add: image_image)

lemma visit_appends:
  "walk n (node_kids d) i acc = Some r \<Longrightarrow> listed d (preorder n (node_kids d) i) (art_nodes tree) \<Longrightarrow>
   SemanticCompiler_visit n d layout i parent tree =
     Some (tree\<lparr>art_nodes := link_child parent (dom_id i) (art_nodes tree)
             @ map (compiled d layout (art_generation tree)) (preorder n (node_kids d) i)\<rparr>)"
  "walk_all n (node_kids d) cs acc' = Some r' \<Longrightarrow> listed d (concat (map (preorder n (node_kids d)) cs)) (art_nodes tree) \<Longrightarrow>
   p \<in> ids (art_nodes tree) \<Longrightarrow>
   visit_children n d layout p cs tree =
     Some (tree\<lparr>art_nodes := fold (\<lambda>c. link_child (Some p) (dom_id c)) cs (art_nodes tree)
             @ map (compiled d layout (art_generation tree)) (concat (map (preorder n (node_kids d)) cs))\<rparr>)"
proof (induction n d layout i parent tree and n d layout p cs tree arbitrary: acc r and acc' r'
    rule: SemanticCompiler_visit_visit_children.induct)
  case (1 document layout i parent tree)
  then show ?case by simp
next
  case (2 n d layout i parent tree)
  obtain raw where raw: "RawDocument_node d i = Some raw" using 2(3) by auto
  then have kids: "rn_children raw = node_kids d i" by (simp add: node_kids_def RawDocument_node_def)
  let ?node = "agent_node layout (art_generation tree) i raw"
  let ?linked = "link_child parent (dom_id i) (art_nodes tree)"
  have new: "an_id ?node \<notin> ids ?linked" using 2(3) by (simp del: set_map)
  have "listed d (concat (map (preorder n (node_kids d)) (rn_children raw))) (?linked @ [?node])"
    using 2(3) unfolding kids by (auto simp del: set_map simp: image_Un)
  with 2(1) [OF raw, of acc r] 2(2) kids
  have "SemanticCompiler_visit (Suc n) d layout i parent tree =
      Some (tree\<lparr>art_nodes := fold (\<lambda>c. link_child (Some (an_id ?node)) (dom_id c)) (rn_children raw) (?linked @ [?node])
             @ map (compiled d layout (art_generation tree)) (concat (map (preorder n (node_kids d)) (rn_children raw)))\<rparr>)"
    by (simp add: raw)
  also have "\<dots> = Some (tree\<lparr>art_nodes := ?linked
             @ map (compiled d layout (art_generation tree)) (preorder (Suc n) (node_kids d) i)\<rparr>)"
    unfolding link_all_last [OF new] using raw kids by (simp add: compiled_def)
  finally show ?case .
next
  case (3 n document layout p tree)
  then show ?case by simp
next
  case (4 n d layout p c cs tree)
  obtain s where s: "walk n (node_kids d) c acc' = Some s" "walk_all n (node_kids d) cs (s @ [c]) = Some r'"
    using 4(3) by (auto split: option.splits)
  let ?linked = "link_child (Some p) (dom_id c) (art_nodes tree)"
  let ?tree = "tree\<lparr>art_nodes := ?linked @ map (compiled d layout (art_generation tree)) (preorder n (node_kids d) c)\<rparr>"
  have first: "SemanticCompiler_visit n d layout c (Some p) tree = Some ?tree"
    using 4(1) [OF s(1)] 4(4) by auto
  have "listed d (concat (map (preorder n (node_kids d)) cs)) (art_nodes ?tree)"
  proof -
    have nodes: "art_nodes ?tree = ?linked @ map (compiled d layout (art_generation tree)) (preorder n (node_kids d) c)"
      by simp
    have ids: "ids (art_nodes ?tree) = ids (art_nodes tree) \<union> dom_id ` set (preorder n (node_kids d) c)"
      unfolding nodes map_append set_append link_ids ids_compiled ..
    show ?thesis unfolding ids using 4(4) by (auto simp del: set_map)
  qed
  moreover have p: "p \<in> ids ?linked" using 4(5) by (simp del: set_map)
  ultimately show ?case using 4(2) [OF first s(2)] first link_all_append [OF p] by (simp add: image_Un)
qed

subsection \<open>Properties\<close>

definition document_order :: "RawDocument \<Rightarrow> EngineNodeId list" where
  "document_order d = (case rd_root d of None \<Rightarrow> [] | Some i \<Rightarrow> preorder (dom_depth d) (node_kids d) i)"

lemma dom_preorder:
  assumes d: "dom_ok d"
  shows "\<exists>ds. walk (dom_depth d) (node_kids d) i [] = Some ds
    \<and> distinct (preorder (dom_depth d) (node_kids d) i)
    \<and> set (preorder (dom_depth d) (node_kids d) i) = insert i {x. dom_under d i x}"
proof -
  obtain ds where ds: "walk (dom_depth d) (node_kids d) i [] = Some ds" "set ds = {x. dom_under d i x}" "distinct ds"
    using forest_walk_ends [OF dom_forest [OF d] dom_depth_enough, of i "[]"] by auto
  have "i \<notin> set ds" using forest_not_under_self [OF dom_forest [OF d], of i] ds(2) by simp
  then have "distinct (i # ds)" using ds(3) by simp
  moreover have same: "mset (preorder (dom_depth d) (node_kids d) i) = mset (i # ds)"
    using walk_preorder(1) [OF ds(1)] by simp
  ultimately show ?thesis using ds mset_eq_imp_distinct_iff [OF same] mset_eq_setD [OF same] by auto
qed

lemma under_exists: "dom_ok d \<Longrightarrow> dom_under d i x \<Longrightarrow> RawDocument_node d x \<noteq> None"
proof -
  assume d: "dom_ok d" and "dom_under d i x"
  then obtain p where "dom_kid d p x" by (auto elim: tranclp.cases)
  then have "node_parent d x = Some p" using dom_okD(3) [OF d] by blast
  then show ?thesis by (cases "bt_get (rd_nodes d) x") (auto simp: node_parent_def RawDocument_node_def)
qed

lemma document_order_lists:
  assumes d: "dom_ok d"
  shows "distinct (document_order d) \<and> set (document_order d) = {i. RawDocument_node d i \<noteq> None}"
proof (cases "rd_root d")
  case None
  then have "RawDocument_node d i = None" for i
    using root_over_all [OF d, of i] by (cases "bt_get (rd_nodes d) i") (auto simp: RawDocument_node_def)
  then show ?thesis by (simp add: document_order_def None)
next
  case (Some r)
  then have r: "RawDocument_node d r \<noteq> None" using dom_okD(5) [OF d, of r] by (auto simp: RawDocument_node_def)
  obtain ds where ds: "distinct (preorder (dom_depth d) (node_kids d) r)"
    "set (preorder (dom_depth d) (node_kids d) r) = insert r {x. dom_under d r x}" using dom_preorder [OF d] by blast
  have "RawDocument_node d i \<noteq> None \<longleftrightarrow> i \<in> insert r {x. dom_under d r x}" for i
    using root_over_all [OF d, of i] Some r under_exists [OF d, of r i] by (auto simp: RawDocument_node_def)
  then show ?thesis using ds by (auto simp: document_order_def Some)
qed

lemma compile_returns:
  assumes d: "dom_ok d"
  shows "SemanticCompiler_compile d layout s =
    Some (\<lparr>cr_tree = \<lparr>art_root = ''page:'' @ rd_url d,
             art_nodes = map (compiled d layout (sco_generation s + 1)) (document_order d),
             art_generation = sco_generation s + 1, art_truncated = False\<rparr>,
           cr_recomputed_nodes = bt_keys (rd_nodes d)\<rparr>, s\<lparr>sco_generation := sco_generation s + 1\<rparr>)"
proof (cases "rd_root d")
  case None
  then show ?thesis by (simp add: SemanticCompiler_compile_def document_order_def Let_def)
next
  case (Some r)
  obtain ds where walk: "walk (dom_depth d) (node_kids d) r [] = Some ds" using dom_preorder [OF d] by blast
  have "listed d (preorder (dom_depth d) (node_kids d) r) []"
    using document_order_lists [OF d] by (simp add: document_order_def Some)
  with visit_appends(1) [OF walk, of "\<lparr>art_root = ''page:'' @ rd_url d, art_nodes = [],
      art_generation = sco_generation s + 1, art_truncated = False\<rparr>" layout None]
  show ?thesis by (simp add: SemanticCompiler_compile_def document_order_def Some link_child_def Let_def)
qed

text \<open>
  C36: the compilation of a document an engine reported by leaf mutations returns, with one node for every node of
  the document, parents before their children, each linked to exactly the nodes of its children in their order, and
  the generation advanced by one.
\<close>

theorem compilation_covers_the_document:
  assumes "dom_step\<^sup>*\<^sup>* (RawDocument_new url) d"
  shows "\<exists>order result. SemanticCompiler_compile d layout s = Some (result, s\<lparr>sco_generation := sco_generation s + 1\<rparr>)
    \<and> distinct order \<and> set order = {i. RawDocument_node d i \<noteq> None}
    \<and> art_nodes (cr_tree result) = map (compiled d layout (sco_generation s + 1)) order
    \<and> (\<forall>i raw. RawDocument_node d i = Some raw \<longrightarrow>
         an_children (compiled d layout (sco_generation s + 1) i) = map dom_id (rn_children raw))
    \<and> cr_recomputed_nodes result = bt_keys (rd_nodes d)"
proof -
  have d: "dom_ok d" using assms by (rule observed_dom_ok)
  show ?thesis
    by (rule exI [of _ "document_order d"]) (simp add: compile_returns [OF d] document_order_lists [OF d] compiled_def)
qed

theorem compilation_covers_the_document_witness:
  "\<exists>order result s'. SemanticCompiler_compile sample_document LayoutSnapshot_default \<lparr>sco_generation = 0\<rparr> = Some (result, s')
     \<and> set order = {1, 2, 3}
     \<and> art_nodes (cr_tree result) = map (compiled sample_document LayoutSnapshot_default 1) order
     \<and> an_children (compiled sample_document LayoutSnapshot_default 1 2) = [''dom:3'']"
proof -
  have "dom_id 3 = ''dom:3''" by code_simp
  moreover have "{i. RawDocument_node sample_document i \<noteq> None} = {1, 2, 3}"
    by (auto simp: RawDocument_node_def sample_document_def)
  moreover have "\<exists>raw. RawDocument_node sample_document 2 = Some raw \<and> rn_children raw = [3]"
    by (simp add: RawDocument_node_def sample_document_def)
  ultimately show ?thesis
    using compilation_covers_the_document [OF sample_document_observed, of LayoutSnapshot_default "\<lparr>sco_generation = 0\<rparr>"]
    by fastforce
qed

text \<open>The identifier of the page that the tree names as its root is the identifier of none of its nodes.\<close>

lemma compiled_page_has_no_root:
  assumes "dom_step\<^sup>*\<^sup>* (RawDocument_new url) d" and "SemanticCompiler_compile d layout s = Some (result, s')"
  shows "art_nodes (sir_tree (StructuralIr_compile (cr_tree result) False)) = []"
proof (rule rootless_tree_is_empty)
  have d: "dom_ok d" using assms(1) by (rule observed_dom_ok)
  have "an_id n \<noteq> ''page:'' @ rd_url d" if "n \<in> set (map (compiled d layout (sco_generation s + 1)) (document_order d))" for n
    using that by (auto simp: dom_id_def)
  then show "AgentRenderTree_find (cr_tree result) (art_root (cr_tree result)) = None"
    using assms(2) unfolding compile_returns [OF d] by (auto simp: AgentRenderTree_find_def find_None_iff)
qed

subsection \<open>Runtime evidence\<close>

abbreviation evidence_of :: "RuntimeEvidence list \<Rightarrow> EngineNodeId \<Rightarrow> RuntimeEvidence list" where
  "evidence_of runtime i \<equiv> [e \<leftarrow> runtime. rev_event e = DomMutationObserved i]"

definition observed_node :: "RuntimeEvidence list \<Rightarrow> EngineNodeId \<Rightarrow> AgentNode \<Rightarrow> AgentNode" where
  "observed_node runtime i n =
     (if evidence_of runtime i = [] then n
      else n\<lparr>an_provenance := an_provenance n @ concat (map rev_provenance (evidence_of runtime i)),
             an_confidence := Confidence_PROBABLE\<rparr>)"

lemma change_first_map:
  "distinct is \<Longrightarrow> (\<And>i. an_id (f i) = dom_id i) \<Longrightarrow>
   change_first (\<lambda>n. an_id n = dom_id j) g (map f is) = map (\<lambda>i. if i = j then g (f i) else f i) is"
  by (induction "is") auto

lemma fold_evidence_map:
  assumes "distinct is" and "\<And>i. an_id (f i) = dom_id i"
  shows "fold fold_evidence runtime (map f is) = map (\<lambda>i. observed_node runtime i (f i)) is"
  using assms(2)
proof (induction runtime arbitrary: f)
  case Nil
  show ?case by (simp add: observed_node_def)
next
  case (Cons e runtime)
  let ?f = "\<lambda>i. if rev_event e = DomMutationObserved i
      then (f i)\<lparr>an_provenance := an_provenance (f i) @ rev_provenance e, an_confidence := Confidence_PROBABLE\<rparr> else f i"
  have "fold_evidence e (map f is) = map ?f is"
    by (cases "rev_event e") (auto simp: fold_evidence_def change_first_map [OF assms(1) Cons.prems])
  moreover have "observed_node (e # runtime) i (f i) = observed_node runtime i (?f i)" for i
    by (simp add: observed_node_def)
  moreover have "an_id (?f i) = dom_id i" for i using Cons.prems by simp
  ultimately show ?case using Cons.IH [of ?f] by simp
qed

text \<open>
  Runtime evidence never replaces what the document and the layout say: the compilation with evidence is the
  plain compilation, in which exactly the nodes that a mutation names gain, in order, the provenance of their
  evidence, and probable confidence.
\<close>

lemma runtime_evidence_only_adds:
  assumes "dom_step\<^sup>*\<^sup>* (RawDocument_new url) d"
  shows "\<exists>order tree s'. SemanticCompiler_compile d layout s = Some (\<lparr>cr_tree = tree, cr_recomputed_nodes = bt_keys (rd_nodes d)\<rparr>, s')
    \<and> art_nodes tree = map (compiled d layout (sco_generation s + 1)) order
    \<and> SemanticCompiler_compile_with_runtime d layout runtime s =
        Some (\<lparr>cr_tree = tree\<lparr>art_nodes := map (\<lambda>i. observed_node runtime i (compiled d layout (sco_generation s + 1) i)) order\<rparr>,
               cr_recomputed_nodes = bt_keys (rd_nodes d)\<rparr>, s')"
proof -
  have d: "dom_ok d" using assms by (rule observed_dom_ok)
  have "distinct (document_order d)" using document_order_lists [OF d] by blast
  from fold_evidence_map [OF this, of "compiled d layout (sco_generation s + 1)" runtime]
  show ?thesis
    by (intro exI [of _ "document_order d"]) (simp add: compile_returns [OF d] SemanticCompiler_compile_with_runtime_def)
qed

end
