(* ===== verification/ApiDiscovery.thy ===== *)
theory ApiDiscovery
  imports Network AgentTree
begin

section \<open>Discovery of application interfaces\<close>

text \<open>
  The crate \<open>crates/api-discovery\<close>: endpoints observed in responses or inferred from forms, scripts and entities, and
  the causal evidence of requests. The printed form of a \<open>Uuid\<close> and the JSON parser are arguments. Each operation
  that returns a reference to the endpoint it touched returns the endpoint here.
\<close>

datatype FactOrigin = Observed | Inferred

record ApiEndpoint =
  ae_method :: string
  ae_url :: Url
  ae_status_codes :: "u16 set"
  ae_response_fields :: "(string, string) BTreeMap"
  ae_confidence :: Confidence
  ae_origin :: FactOrigin
  ae_schema_origin :: FactOrigin
  ae_provenance :: "ProvenanceSource list"

record NetworkTiming =
  nt_started_at_tick :: u64
  nt_completed_at_tick :: u64

record CausalEvidence =
  cev_request_id :: uuid
  cev_entity_id :: "string option"
  cev_action_id :: "string option"
  cev_state_change :: "string option"
  cev_form_id :: "string option"
  cev_script_id :: "string option"
  cev_timing :: NetworkTiming
  cev_provenance :: "ProvenanceSource list"

record ApiDiscovery =
  adi_endpoints :: "(string \<times> string, ApiEndpoint) BTreeMap"
  adi_correlations :: "CausalEvidence list"

definition ApiDiscovery_default :: ApiDiscovery where
  "ApiDiscovery_default = \<lparr>adi_endpoints = [], adi_correlations = []\<rparr>"

fun json_type :: "Json \<Rightarrow> string" where
  "json_type JNull = ''null''"
| "json_type (JBool b) = ''boolean''"
| "json_type (JNumber n) = ''number''"
| "json_type (JString s) = ''string''"
| "json_type (JArray vs) = ''array''"
| "json_type (JObject fs) = ''object''"

definition endpoint_key :: "string \<Rightarrow> Url \<Rightarrow> string \<times> string" where
  "endpoint_key meth url = (to_ascii_uppercase meth, url_as_str url)"

text \<open>The entry \<open>or_insert_with\<close> makes for a key that is not in the map, and the change of the entry found.\<close>

definition touch_endpoint ::
    "string \<times> string \<Rightarrow> ApiEndpoint \<Rightarrow> (ApiEndpoint \<Rightarrow> ApiEndpoint) \<Rightarrow> ApiDiscovery \<Rightarrow> ApiEndpoint \<times> ApiDiscovery" where
  "touch_endpoint key fresh f d =
     (let endpoint = f (case bt_get (adi_endpoints d) key of None \<Rightarrow> fresh | Some e \<Rightarrow> e)
      in (endpoint, d\<lparr>adi_endpoints := bt_insert key endpoint (adi_endpoints d)\<rparr>))"

definition observed_endpoint :: "(uuid \<Rightarrow> string) \<Rightarrow> NetworkRequest \<Rightarrow> NetworkResponse \<Rightarrow> ApiEndpoint" where
  "observed_endpoint show_uuid request response =
     \<lparr>ae_method = to_ascii_uppercase (nrq_method request), ae_url = nrq_url request, ae_status_codes = {},
      ae_response_fields = [], ae_confidence = Confidence_PROBABLE, ae_origin = Observed, ae_schema_origin = Observed,
      ae_provenance = [\<lparr>ps_kind = NetworkResponse, ps_reference = show_uuid (nrs_request_id response),
                        ps_detail = Some ''observed response''\<rparr>]\<rparr>"

definition note_response :: "(string \<Rightarrow> Json option) \<Rightarrow> NetworkResponse \<Rightarrow> ApiEndpoint \<Rightarrow> ApiEndpoint" where
  "note_response parse response e =
     (let e = e\<lparr>ae_status_codes := insert (nrs_status response) (ae_status_codes e)\<rparr>
      in case parse (nrs_body response) of
           Some (JObject fs) \<Rightarrow>
             e\<lparr>ae_response_fields := fold (\<lambda>(field, v). bt_insert field (json_type v)) fs (ae_response_fields e),
               ae_confidence := Confidence_STRONG, ae_schema_origin := Inferred\<rparr>
         | _ \<Rightarrow> e)"

definition ApiDiscovery_observe ::
    "(uuid \<Rightarrow> string) \<Rightarrow> (string \<Rightarrow> Json option) \<Rightarrow> NetworkRequest \<Rightarrow> NetworkResponse \<Rightarrow> ApiDiscovery \<Rightarrow> ApiEndpoint \<times> ApiDiscovery" where
  "ApiDiscovery_observe show_uuid parse request response d =
     touch_endpoint (endpoint_key (nrq_method request) (nrq_url request)) (observed_endpoint show_uuid request response)
       (note_response parse response) d"

definition ApiDiscovery_endpoint :: "ApiDiscovery \<Rightarrow> string \<Rightarrow> Url \<Rightarrow> ApiEndpoint option" where
  "ApiDiscovery_endpoint d meth url = bt_get (adi_endpoints d) (endpoint_key meth url)"

definition ApiDiscovery_endpoints :: "ApiDiscovery \<Rightarrow> ApiEndpoint list" where
  "ApiDiscovery_endpoints d = bt_values (adi_endpoints d)"

definition ApiDiscovery_correlate :: "CausalEvidence \<Rightarrow> ApiDiscovery \<Rightarrow> ApiDiscovery" where
  "ApiDiscovery_correlate evidence d = d\<lparr>adi_correlations := adi_correlations d @ [evidence]\<rparr>"

definition ApiDiscovery_correlations :: "ApiDiscovery \<Rightarrow> CausalEvidence list" where
  "ApiDiscovery_correlations d = adi_correlations d"

definition ApiDiscovery_correlate_request ::
    "(uuid \<Rightarrow> string) \<Rightarrow> NetworkRequest \<Rightarrow> u64 \<Rightarrow> u64 \<Rightarrow> string option \<Rightarrow> string option \<Rightarrow> string option \<Rightarrow> ApiDiscovery \<Rightarrow> ApiDiscovery" where
  "ApiDiscovery_correlate_request show_uuid request started completed entity_id action_id state_change d =
     ApiDiscovery_correlate
       \<lparr>cev_request_id = nrq_id request, cev_entity_id = entity_id, cev_action_id = action_id,
        cev_state_change = state_change, cev_form_id = None, cev_script_id = None,
        cev_timing = \<lparr>nt_started_at_tick = started, nt_completed_at_tick = completed\<rparr>,
        cev_provenance = [\<lparr>ps_kind = NetworkRequest, ps_reference = show_uuid (nrq_id request),
                           ps_detail = nrq_initiator request\<rparr>]\<rparr> d"

definition ApiDiscovery_infer_endpoint ::
    "string \<Rightarrow> Url \<Rightarrow> SourceKind \<Rightarrow> string \<Rightarrow> ApiDiscovery \<Rightarrow> ApiEndpoint \<times> ApiDiscovery" where
  "ApiDiscovery_infer_endpoint meth url k reference d =
     touch_endpoint (endpoint_key meth url)
       \<lparr>ae_method = to_ascii_uppercase meth, ae_url = url, ae_status_codes = {}, ae_response_fields = [],
        ae_confidence = Confidence_PROBABLE, ae_origin = Inferred, ae_schema_origin = Inferred,
        ae_provenance = [\<lparr>ps_kind = k, ps_reference = reference, ps_detail = Some ''inferred endpoint''\<rparr>]\<rparr>
       (\<lambda>e. e) d"

definition ApiDiscovery_infer_form_endpoint :: "string \<Rightarrow> Url \<Rightarrow> string \<Rightarrow> ApiDiscovery \<Rightarrow> ApiEndpoint \<times> ApiDiscovery" where
  "ApiDiscovery_infer_form_endpoint meth url form_id d = ApiDiscovery_infer_endpoint meth url EventHandler form_id d"

definition ApiDiscovery_infer_runtime_endpoint :: "string \<Rightarrow> Url \<Rightarrow> string \<Rightarrow> ApiDiscovery \<Rightarrow> ApiEndpoint \<times> ApiDiscovery" where
  "ApiDiscovery_infer_runtime_endpoint meth url script_id d = ApiDiscovery_infer_endpoint meth url JavaScript script_id d"

definition ApiDiscovery_infer_application_endpoint :: "string \<Rightarrow> Url \<Rightarrow> string \<Rightarrow> ApiDiscovery \<Rightarrow> ApiEndpoint \<times> ApiDiscovery" where
  "ApiDiscovery_infer_application_endpoint meth url entity_id d = ApiDiscovery_infer_endpoint meth url AgentInference entity_id d"

subsection \<open>What is known of an endpoint\<close>

text \<open>
  The invariant: an endpoint stands under its own method and address; one that was only ever inferred has seen no
  response, and one that is called observed has.
\<close>

definition endpoint_ok :: "string \<times> string \<Rightarrow> ApiEndpoint \<Rightarrow> bool" where
  "endpoint_ok key e \<longleftrightarrow> (ae_method e, url_as_str (ae_url e)) = key
     \<and> (ae_origin e = Observed \<longrightarrow> ae_status_codes e \<noteq> {})
     \<and> (ae_status_codes e = {} \<longrightarrow> ae_response_fields e = [] \<and> ae_confidence e = Confidence_PROBABLE)
     \<and> finite (ae_status_codes e) \<and> bt_ok (ae_response_fields e) \<and> length (ae_provenance e) = 1"

definition discovery_ok :: "ApiDiscovery \<Rightarrow> bool" where
  "discovery_ok d \<longleftrightarrow> bt_ok (adi_endpoints d) \<and> (\<forall>key e. bt_get (adi_endpoints d) key = Some e \<longrightarrow> endpoint_ok key e)"

inductive discovery_step :: "(uuid \<Rightarrow> string) \<Rightarrow> (string \<Rightarrow> Json option) \<Rightarrow> ApiDiscovery \<Rightarrow> ApiDiscovery \<Rightarrow> bool" for show_uuid parse where
  observe: "discovery_step show_uuid parse d (snd (ApiDiscovery_observe show_uuid parse request response d))"
| correlate: "discovery_step show_uuid parse d (ApiDiscovery_correlate evidence d)"
| infer: "discovery_step show_uuid parse d (snd (ApiDiscovery_infer_endpoint meth url k reference d))"

lemma touch_ok:
  assumes "discovery_ok d" and "\<And>e. endpoint_ok key e \<Longrightarrow> endpoint_ok key (f e)" and "endpoint_ok key (f fresh)"
  shows "discovery_ok (snd (touch_endpoint key fresh f d))"
  using assms by (auto simp: discovery_ok_def touch_endpoint_def Let_def split: option.split)

lemma fields_ok: "bt_ok m \<Longrightarrow> bt_ok (fold (\<lambda>(field, v). bt_insert field (json_type v)) fs m)"
  by (induction fs arbitrary: m) auto

lemma note_response_ok:
  "(ae_method e, url_as_str (ae_url e)) = key \<Longrightarrow> finite (ae_status_codes e) \<Longrightarrow> bt_ok (ae_response_fields e) \<Longrightarrow>
   length (ae_provenance e) = 1 \<Longrightarrow> endpoint_ok key (note_response parse response e)"
  by (auto simp: note_response_def endpoint_ok_def Let_def fields_ok split: option.split Json.split)

lemma discovery_step_keeps: "discovery_step show_uuid parse d d' \<Longrightarrow> discovery_ok d \<Longrightarrow> discovery_ok d'"
proof (induction rule: discovery_step.induct)
  case (observe d request response)
  then show ?case unfolding ApiDiscovery_observe_def
    by (intro touch_ok note_response_ok) (auto simp: endpoint_ok_def observed_endpoint_def endpoint_key_def)
next
  case (correlate d evidence)
  then show ?case by (simp add: ApiDiscovery_correlate_def discovery_ok_def)
next
  case (infer d meth url k reference)
  then show ?case unfolding ApiDiscovery_infer_endpoint_def
    by (intro touch_ok) (auto simp: endpoint_ok_def endpoint_key_def)
qed

interpretation discoveries: kept_invariant "discovery_step show_uuid parse" discovery_ok
  by unfold_locales (rule discovery_step_keeps)

text \<open>
  Inference never touches what is known: an endpoint that exists stays as it is. An observation adds its status and
  the types of the fields of a JSON object, keeping every field it does not name.
\<close>

lemma inference_is_conservative:
  "ApiDiscovery_endpoint d meth url = Some e \<Longrightarrow> bt_ok (adi_endpoints d) \<Longrightarrow>
   ApiDiscovery_infer_endpoint meth url k reference d = (e, d)"
proof -
  assume "ApiDiscovery_endpoint d meth url = Some e" and ok: "bt_ok (adi_endpoints d)"
  then have e: "bt_get (adi_endpoints d) (endpoint_key meth url) = Some e" by (simp add: ApiDiscovery_endpoint_def)
  then have "bt_insert (endpoint_key meth url) e (adi_endpoints d) = adi_endpoints d"
    using ok by (intro bt_ext) auto
  then show ?thesis by (simp add: ApiDiscovery_infer_endpoint_def touch_endpoint_def e)
qed

lemma fields_get:
  "bt_get (fold (\<lambda>(field, v). bt_insert field (json_type v)) fs m) name =
     (case map_of (rev fs) name of None \<Rightarrow> bt_get m name | Some v \<Rightarrow> Some (json_type v))"
  by (induction fs arbitrary: m) (auto simp: map_add_def split: option.split)

text \<open>
  An endpoint that was inferred before its first response keeps its inferred origin and provenance, whatever is
  observed of it later.
\<close>

lemma observed_endpoint_stays_inferred:
  assumes "ApiDiscovery_endpoint d (nrq_method request) (nrq_url request) = Some e"
  shows "ae_origin (fst (ApiDiscovery_observe show_uuid parse request response d)) = ae_origin e
    \<and> ae_provenance (fst (ApiDiscovery_observe show_uuid parse request response d)) = ae_provenance e
    \<and> nrs_status response \<in> ae_status_codes (fst (ApiDiscovery_observe show_uuid parse request response d))"
  using assms
  by (auto simp: ApiDiscovery_endpoint_def ApiDiscovery_observe_def touch_endpoint_def note_response_def Let_def
      split: option.split Json.split)

lemma discovery_reached: "(discovery_step show_uuid parse)\<^sup>*\<^sup>* ApiDiscovery_default d \<Longrightarrow> discovery_ok d"
  by (erule discoveries.reach_keeps) (simp add: discovery_ok_def ApiDiscovery_default_def)

end
