(* ===== verification/ApplicationIr.thy ===== *)
theory ApplicationIr
  imports ApiDiscovery SemanticIr
begin

section \<open>The application behind a page\<close>

text \<open>
  The crate \<open>crates/application-ir\<close>: entities, relations and collections read off the agent tree, the two bounded
  caches, and entity queries with their pages. The printed forms of a \<open>Uuid\<close> and of an \<open>Option<String>\<close> under
  \<open>{:?}\<close> are arguments.
\<close>

record ApplicationEntity =
  aen_id :: string
  aen_kind :: ApplicationType
  aen_fields :: "(string, string) BTreeMap"
  aen_source_nodes :: "string list"
  aen_confidence :: Confidence
  aen_provenance :: "ProvenanceSource list"

record ApplicationQuery =
  aq_id :: "string option"
  aq_kind :: "ApplicationType option"
  aq_collection_id :: "string option"

record ApplicationEntityPage =
  aep_results :: "ApplicationEntity list"
  aep_offset :: nat
  aep_limit :: nat
  aep_total :: nat
  aep_truncated :: bool
  aep_next_offset :: "nat option"
  aep_next_cursor :: "string option"

record WorkflowStep =
  wst_action :: string
  wst_target :: "string option"

record Workflow =
  wfl_id :: string
  wfl_steps :: "WorkflowStep list"

record SearchResult =
  sre_id :: string
  sre_title :: string
  sre_score :: "f32 option"

record ApplicationTable =
  ata_id :: string
  ata_columns :: "string list"
  ata_rows :: "string list list"

record ApplicationForm =
  afo_id :: string
  afo_fields :: "(string, string) BTreeMap"

record ApplicationDialog =
  adg_id :: string
  adg_title :: string
  adg_modal :: bool

record ApplicationNotification =
  ano_id :: string
  ano_message :: string
  ano_level :: string

record ApplicationRelation =
  arl_from :: string
  arl_relation :: string
  arl_to :: string

record ApplicationCollection =
  acl_id :: string
  acl_kind :: "ApplicationType option"
  acl_members :: "string list"
  acl_total_known :: "nat option"
  acl_virtualized :: bool

record ApplicationGraph =
  agr_entities :: "ApplicationEntity list"
  agr_relations :: "ApplicationRelation list"
  agr_collections :: "ApplicationCollection list"

record ApplicationIr =
  air_tree :: AgentRenderTree
  air_graph :: ApplicationGraph
  air_causal_evidence :: "CausalEvidence list"

subsection \<open>What was learned of a site\<close>

record SiteLearningEntry =
  sle_origin :: string
  sle_observed_roles :: "string list"
  sle_observations :: u64

record SiteLearningCache =
  slc_max_entries :: nat
  slc_entries :: "(string, SiteLearningEntry) BTreeMap"

definition SiteLearningCache_default :: SiteLearningCache where
  "SiteLearningCache_default = \<lparr>slc_max_entries = 128, slc_entries = []\<rparr>"

definition SiteLearningCache_with_capacity :: "nat \<Rightarrow> SiteLearningCache" where
  "SiteLearningCache_with_capacity n = SiteLearningCache_default\<lparr>slc_max_entries := max n 1\<rparr>"

definition add_role :: "string \<Rightarrow> string list \<Rightarrow> string list" where
  "add_role role roles = (if role \<in> set roles then roles else sort (roles @ [role]))"

text \<open>\<open>Iterator::min_by_key\<close>: the first of the least elements.\<close>

fun min_by_key :: "('a \<Rightarrow> 'b::linorder) \<Rightarrow> 'a list \<Rightarrow> 'a option" where
  "min_by_key f [] = None"
| "min_by_key f (x # xs) =
     (case min_by_key f xs of None \<Rightarrow> Some x | Some y \<Rightarrow> if f x \<le> f y then Some x else Some y)"

lemma min_by_key_in: "min_by_key f xs = Some x \<Longrightarrow> x \<in> set xs"
  by (induction xs arbitrary: x) (auto split: option.splits if_splits)

function evict_sites :: "nat \<Rightarrow> (string, SiteLearningEntry) BTreeMap \<Rightarrow> (string, SiteLearningEntry) BTreeMap" where
  "evict_sites limit entries =
     (if length entries > limit
      then (case min_by_key (\<lambda>e. sle_observations (snd e)) entries of
              None \<Rightarrow> entries
            | Some e \<Rightarrow> evict_sites limit (bt_remove (fst e) entries))
      else entries)"
  by pat_completeness auto

termination
proof (relation "measure (\<lambda>(limit, entries). length entries)", goal_cases)
  case (2 limit entries e)
  have "e \<in> set entries" using 2(2) by (rule min_by_key_in)
  then show ?case by (auto simp: bt_remove_def intro!: length_filter_less)
qed simp

declare evict_sites.simps [simp del]

definition SiteLearningCache_observe :: "string \<Rightarrow> AgentRenderTree \<Rightarrow> SiteLearningCache \<Rightarrow> SiteLearningCache" where
  "SiteLearningCache_observe site tree c =
     (let entries = bt_or_insert site \<lparr>sle_origin = site, sle_observed_roles = [], sle_observations = 0\<rparr> (slc_entries c);
          entries = bt_adjust site (\<lambda>e. e\<lparr>sle_observations := saturating_add (sle_observations e) 1,
             sle_observed_roles := fold add_role (map (\<lambda>n. role_debug (an_structural_role n)) (art_nodes tree)) (sle_observed_roles e)\<rparr>) entries
      in c\<lparr>slc_entries := evict_sites (slc_max_entries c) entries\<rparr>)"

definition SiteLearningCache_get :: "SiteLearningCache \<Rightarrow> string \<Rightarrow> SiteLearningEntry option" where
  "SiteLearningCache_get c site = bt_get (slc_entries c) site"

definition SiteLearningCache_len :: "SiteLearningCache \<Rightarrow> nat" where
  "SiteLearningCache_len c = length (slc_entries c)"

definition SiteLearningCache_is_empty :: "SiteLearningCache \<Rightarrow> bool" where
  "SiteLearningCache_is_empty c = (slc_entries c = [])"

subsection \<open>The cache of trees\<close>

record SemanticCache =
  smc_max_entries :: nat
  smc_order :: "string list"
  smc_entries :: "(string, AgentRenderTree) BTreeMap"

definition SemanticCache_default :: SemanticCache where
  "SemanticCache_default = \<lparr>smc_max_entries = 128, smc_order = [], smc_entries = []\<rparr>"

definition SemanticCache_with_capacity :: "nat \<Rightarrow> SemanticCache" where
  "SemanticCache_with_capacity n = SemanticCache_default\<lparr>smc_max_entries := max n 1\<rparr>"

fun evict_oldest :: "nat \<Rightarrow> string list \<Rightarrow> (string, AgentRenderTree) BTreeMap \<Rightarrow> string list \<times> (string, AgentRenderTree) BTreeMap" where
  "evict_oldest limit [] entries = ([], entries)"
| "evict_oldest limit (oldest # order) entries =
     (if length (oldest # order) > limit then evict_oldest limit order (bt_remove oldest entries)
      else (oldest # order, entries))"

definition SemanticCache_insert :: "string \<Rightarrow> AgentRenderTree \<Rightarrow> SemanticCache \<Rightarrow> SemanticCache" where
  "SemanticCache_insert key tree c =
     (let order = (if bt_contains_key (smc_entries c) key then [k \<leftarrow> smc_order c. k \<noteq> key] else smc_order c);
          (order, entries) = evict_oldest (smc_max_entries c) (order @ [key]) (bt_insert key tree (smc_entries c))
      in c\<lparr>smc_order := order, smc_entries := entries\<rparr>)"

definition SemanticCache_get :: "string \<Rightarrow> SemanticCache \<Rightarrow> AgentRenderTree option \<times> SemanticCache" where
  "SemanticCache_get key c =
     (if key \<in> set (smc_order c)
      then (bt_get (smc_entries c) key, c\<lparr>smc_order := remove1 key (smc_order c) @ [key]\<rparr>)
      else (None, c))"

definition SemanticCache_len :: "SemanticCache \<Rightarrow> nat" where
  "SemanticCache_len c = length (smc_entries c)"

definition SemanticCache_is_empty :: "SemanticCache \<Rightarrow> bool" where
  "SemanticCache_is_empty c = (smc_entries c = [])"

subsection \<open>The application\<close>

definition ApplicationGraph_add_relation :: "ApplicationRelation \<Rightarrow> ApplicationGraph \<Rightarrow> ApplicationGraph" where
  "ApplicationGraph_add_relation r g =
     (if r \<in> set (agr_relations g) then g else g\<lparr>agr_relations := agr_relations g @ [r]\<rparr>)"

definition ApplicationGraph_add_collection :: "ApplicationCollection \<Rightarrow> ApplicationGraph \<Rightarrow> ApplicationGraph" where
  "ApplicationGraph_add_collection c g =
     (if list_ex (\<lambda>x. acl_id x = acl_id c) (agr_collections g)
      then g\<lparr>agr_collections := change_first (\<lambda>x. acl_id x = acl_id c) (\<lambda>_. c) (agr_collections g)\<rparr>
      else g\<lparr>agr_collections := agr_collections g @ [c]\<rparr>)"

definition entity_of :: "AgentNode \<Rightarrow> ApplicationEntity option" where
  "entity_of n = map_option (\<lambda>k.
     \<lparr>aen_id = (case an_identity_key n of None \<Rightarrow> an_id n | Some key \<Rightarrow> key), aen_kind = k,
      aen_fields = (case an_name n of None \<Rightarrow> [] | Some name \<Rightarrow> [(''name'', name)]),
      aen_source_nodes = [an_id n], aen_confidence = an_confidence n, aen_provenance = an_provenance n\<rparr>)
     (an_application_type n)"

definition ApplicationIr_from_semantic :: "AgentRenderTree \<Rightarrow> ApplicationIr" where
  "ApplicationIr_from_semantic tree =
     \<lparr>air_tree = tree,
      air_graph = \<lparr>agr_entities = List.map_filter entity_of (art_nodes tree), agr_relations = [], agr_collections = []\<rparr>,
      air_causal_evidence = []\<rparr>"

definition ApplicationIr_from_semantic_with_evidence :: "AgentRenderTree \<Rightarrow> CausalEvidence list \<Rightarrow> ApplicationIr" where
  "ApplicationIr_from_semantic_with_evidence tree evidence = (ApplicationIr_from_semantic tree)\<lparr>air_causal_evidence := evidence\<rparr>"

definition ApplicationIr_add_causal_evidence :: "CausalEvidence \<Rightarrow> ApplicationIr \<Rightarrow> ApplicationIr" where
  "ApplicationIr_add_causal_evidence evidence ir = ir\<lparr>air_causal_evidence := air_causal_evidence ir @ [evidence]\<rparr>"

definition evidence_detail :: "(uuid \<Rightarrow> string) \<Rightarrow> (string option \<Rightarrow> string) \<Rightarrow> CausalEvidence \<Rightarrow> string" where
  "evidence_detail show_uuid debug e =
     ''request='' @ show_uuid (cev_request_id e) @ '' action='' @ debug (cev_action_id e)
     @ '' entity='' @ debug (cev_entity_id e) @ '' state='' @ debug (cev_state_change e) @ '' elapsed_ticks=''
     @ decimal (unat (saturating_sub (nt_completed_at_tick (cev_timing e)) (nt_started_at_tick (cev_timing e))))"

definition report_evidence ::
    "(uuid \<Rightarrow> string) \<Rightarrow> (string option \<Rightarrow> string) \<Rightarrow> CausalEvidence \<Rightarrow> ExplainabilityReport \<Rightarrow> ExplainabilityReport" where
  "report_evidence show_uuid debug e r =
     fold (\<lambda>source. ExplainabilityReport_add source Confidence_PROBABLE (nt_completed_at_tick (cev_timing e))
                      (Some (evidence_detail show_uuid debug e)) False) (cev_provenance e) r"

definition ApplicationIr_explainability_report ::
    "(uuid \<Rightarrow> string) \<Rightarrow> (string option \<Rightarrow> string) \<Rightarrow> ApplicationIr \<Rightarrow> string \<Rightarrow> ExplainabilityReport" where
  "ApplicationIr_explainability_report show_uuid debug ir subject =
     fold (report_evidence show_uuid debug) (air_causal_evidence ir)
       (ExplainabilityReport_new subject
          (decimal (length (air_causal_evidence ir)) @ '' causal application observations''))"

definition ApplicationIr_add_relation :: "ApplicationRelation \<Rightarrow> ApplicationIr \<Rightarrow> ApplicationIr" where
  "ApplicationIr_add_relation r ir = ir\<lparr>air_graph := ApplicationGraph_add_relation r (air_graph ir)\<rparr>"

definition ApplicationIr_add_collection :: "ApplicationCollection \<Rightarrow> ApplicationIr \<Rightarrow> ApplicationIr" where
  "ApplicationIr_add_collection c ir = ir\<lparr>air_graph := ApplicationGraph_add_collection c (air_graph ir)\<rparr>"

definition ApplicationIr_typed_nodes :: "ApplicationIr \<Rightarrow> ApplicationType \<Rightarrow> AgentNode list" where
  "ApplicationIr_typed_nodes ir k = [n \<leftarrow> art_nodes (air_tree ir). an_application_type n = Some k]"

definition ApplicationIr_collection :: "ApplicationIr \<Rightarrow> string \<Rightarrow> ApplicationCollection option" where
  "ApplicationIr_collection ir i = find (\<lambda>c. acl_id c = i) (agr_collections (air_graph ir))"

definition query_matches :: "ApplicationIr \<Rightarrow> ApplicationQuery \<Rightarrow> ApplicationEntity \<Rightarrow> bool" where
  "query_matches ir q e =
     ((case aq_id q of None \<Rightarrow> True | Some i \<Rightarrow> aen_id e = i)
      \<and> (case aq_kind q of None \<Rightarrow> True | Some k \<Rightarrow> aen_kind e = k)
      \<and> (case aq_collection_id q of
            None \<Rightarrow> True
          | Some i \<Rightarrow> (case ApplicationIr_collection ir i of None \<Rightarrow> False | Some c \<Rightarrow> aen_id e \<in> set (acl_members c))))"

definition ApplicationIr_query_entities :: "ApplicationIr \<Rightarrow> ApplicationQuery \<Rightarrow> ApplicationEntity list" where
  "ApplicationIr_query_entities ir q = filter (query_matches ir q) (agr_entities (air_graph ir))"

definition ApplicationIr_query_entities_page :: "ApplicationIr \<Rightarrow> ApplicationQuery \<Rightarrow> nat \<Rightarrow> nat \<Rightarrow> ApplicationEntityPage" where
  "ApplicationIr_query_entities_page ir q offset limit =
     (let hits = filter (query_matches ir q) (agr_entities (air_graph ir));
          n = length hits;
          start = min offset n;
          effective_limit = max limit 1;
          stop = min (min (start + effective_limit) usize_max) n;
          truncated = (stop < n)
      in \<lparr>aep_results = take (stop - start) (drop start hits), aep_offset = start, aep_limit = effective_limit,
          aep_total = n, aep_truncated = truncated,
          aep_next_offset = (if truncated then Some stop else None),
          aep_next_cursor = (if truncated then Some (decimal stop) else None)\<rparr>)"

subsection \<open>The cache keeps the most recently used trees\<close>

text \<open>
  The contract: the keys with their trees, the least recently used first. Insertion and a hit move a key to the
  end; an insertion beyond the capacity drops from the front.
\<close>

definition lru_insert :: "nat \<Rightarrow> 'k \<Rightarrow> 'v \<Rightarrow> ('k \<times> 'v) list \<Rightarrow> ('k \<times> 'v) list" where
  "lru_insert limit k v xs = (let ys = [e \<leftarrow> xs. fst e \<noteq> k] @ [(k, v)] in drop (length ys - limit) ys)"

definition lru_touch :: "'k \<Rightarrow> ('k \<times> 'v) list \<Rightarrow> ('k \<times> 'v) list" where
  "lru_touch k xs = (case map_of xs k of None \<Rightarrow> xs | Some v \<Rightarrow> [e \<leftarrow> xs. fst e \<noteq> k] @ [(k, v)])"

definition recency :: "SemanticCache \<Rightarrow> (string \<times> AgentRenderTree) list" where
  "recency c = List.map_filter (\<lambda>k. map_option (Pair k) (bt_get (smc_entries c) k)) (smc_order c)"

definition cache_ok :: "nat \<Rightarrow> SemanticCache \<Rightarrow> bool" where
  "cache_ok limit c \<longleftrightarrow> distinct (smc_order c) \<and> set (smc_order c) = set (bt_keys (smc_entries c)) \<and> bt_ok (smc_entries c)
     \<and> length (smc_order c) \<le> limit \<and> 1 \<le> limit \<and> smc_max_entries c = limit"

abbreviation entry_of :: "('k, 'v) BTreeMap \<Rightarrow> 'k \<Rightarrow> 'k \<times> 'v" where
  "entry_of m k \<equiv> (k, the (bt_get m k))"

lemma recency_map:
  "(\<forall>k \<in> set ks. bt_get m k \<noteq> None) \<Longrightarrow> List.map_filter (\<lambda>k. map_option (Pair k) (bt_get m k)) ks = map (entry_of m) ks"
  by (induction ks) (auto simp: List.map_filter_simps)

lemma recency_eq: "cache_ok limit c \<Longrightarrow> recency c = map (entry_of (smc_entries c)) (smc_order c)"
  unfolding recency_def by (rule recency_map) (auto simp: cache_ok_def bt_get_None_iff)

lemma evict_oldest_eq:
  "evict_oldest limit order entries =
     (drop (length order - limit) order, fold bt_remove (take (length order - limit) order) entries)"
  by (induction limit order entries rule: evict_oldest.induct) (auto simp: Suc_diff_le)

definition used_keys :: "string \<Rightarrow> SemanticCache \<Rightarrow> string list" where
  "used_keys key c = [k \<leftarrow> smc_order c. k \<noteq> key] @ [key]"

lemma cache_insert_eq:
  assumes c: "cache_ok limit c"
  shows "smc_order (SemanticCache_insert key tree c) = drop (length (used_keys key c) - limit) (used_keys key c)"
    and "smc_entries (SemanticCache_insert key tree c) =
      fold bt_remove (take (length (used_keys key c) - limit) (used_keys key c)) (bt_insert key tree (smc_entries c))"
    and "smc_max_entries (SemanticCache_insert key tree c) = limit"
proof -
  have "\<not> bt_contains_key (smc_entries c) key \<Longrightarrow> smc_order c = [k \<leftarrow> smc_order c. k \<noteq> key]"
    using c by (auto simp: cache_ok_def bt_contains_key_iff intro!: filter_True [symmetric])
  then have order: "(if bt_contains_key (smc_entries c) key then [k \<leftarrow> smc_order c. k \<noteq> key] else smc_order c) @ [key] = used_keys key c"
    unfolding used_keys_def by auto
  show "smc_order (SemanticCache_insert key tree c) = drop (length (used_keys key c) - limit) (used_keys key c)"
    "smc_entries (SemanticCache_insert key tree c) =
      fold bt_remove (take (length (used_keys key c) - limit) (used_keys key c)) (bt_insert key tree (smc_entries c))"
    "smc_max_entries (SemanticCache_insert key tree c) = limit"
    using c unfolding SemanticCache_insert_def Let_def evict_oldest_eq order by (simp_all add: cache_ok_def)
qed

lemma kept_keys: "distinct ks \<Longrightarrow> k \<in> set (drop n ks) \<longleftrightarrow> k \<in> set ks \<and> k \<notin> set (take n ks)"
proof -
  assume "distinct ks"
  then have "distinct (take n ks @ drop n ks)" by simp
  then have "set (take n ks) \<inter> set (drop n ks) = {}" unfolding distinct_append by blast
  moreover have "set ks = set (take n ks) \<union> set (drop n ks)" by (metis append_take_drop_id set_append)
  ultimately show ?thesis by blast
qed

lemma cache_ok_insert:
  assumes c: "cache_ok limit c"
  shows "cache_ok limit (SemanticCache_insert key tree c)"
    and "recency (SemanticCache_insert key tree c) = lru_insert limit key tree (recency c)"
proof -
  let ?ks = "used_keys key c" let ?n = "length ?ks - limit"
  let ?entries = "bt_insert key tree (smc_entries c)"
  have ks: "distinct ?ks" using c by (simp add: cache_ok_def used_keys_def)
  have get: "bt_get (smc_entries (SemanticCache_insert key tree c)) k = (if k \<in> set (take ?n ?ks) then None else bt_get ?entries k)" for k
    unfolding cache_insert_eq [OF c] bt_get_fold_remove ..
  have keys: "k \<in> set ?ks \<longleftrightarrow> bt_get ?entries k \<noteq> None" for k
    using c bt_get_None_iff [of "smc_entries c" k] unfolding cache_ok_def used_keys_def by auto
  have "k \<in> set (drop ?n ?ks) \<longleftrightarrow> bt_get (smc_entries (SemanticCache_insert key tree c)) k \<noteq> None" for k
    unfolding get kept_keys [OF ks] using keys [of k] by auto
  then have "set (drop ?n ?ks) = set (bt_keys (smc_entries (SemanticCache_insert key tree c)))"
    unfolding bt_get_None_iff by blast
  moreover have "bt_ok (smc_entries (SemanticCache_insert key tree c))"
    unfolding cache_insert_eq [OF c] using c by (intro bt_ok_fold_remove) (simp add: cache_ok_def)
  ultimately show ok: "cache_ok limit (SemanticCache_insert key tree c)"
    using c distinct_drop [OF ks, of ?n] unfolding cache_ok_def cache_insert_eq [OF c] by simp
  have "map (entry_of (smc_entries (SemanticCache_insert key tree c))) (drop ?n ?ks) = map (entry_of ?entries) (drop ?n ?ks)"
    using get kept_keys [OF ks] by (intro map_cong) auto
  also have "\<dots> = drop ?n (map (entry_of ?entries) ?ks)" by (simp add: drop_map)
  also have "map (entry_of ?entries) ?ks = [e \<leftarrow> recency c. fst e \<noteq> key] @ [(key, tree)]"
    by (simp add: recency_eq [OF c] filter_map o_def used_keys_def)
  finally show "recency (SemanticCache_insert key tree c) = lru_insert limit key tree (recency c)"
    unfolding recency_eq [OF ok] lru_insert_def cache_insert_eq [OF c] Let_def
    by (simp add: recency_eq [OF c] filter_map o_def used_keys_def)
qed

lemma cache_ok_get:
  assumes c: "cache_ok limit c"
  shows "cache_ok limit (snd (SemanticCache_get key c))"
    and "fst (SemanticCache_get key c) = map_of (recency c) key"
    and "recency (snd (SemanticCache_get key c)) = lru_touch key (recency c)"
proof -
  have moved: "remove1 key (smc_order c) = [k \<leftarrow> smc_order c. k \<noteq> key]"
    using c by (simp add: cache_ok_def distinct_remove1_removeAll removeAll_filter_not_eq)
      (metis (mono_tags, lifting))
  have hit: "key \<in> set (smc_order c) \<longleftrightarrow> bt_get (smc_entries c) key \<noteq> None"
    using c by (simp add: cache_ok_def bt_get_None_iff)
  have map_of: "map_of (recency c) key = (if key \<in> set (smc_order c) then Some (the (bt_get (smc_entries c) key)) else None)"
    unfolding recency_eq [OF c] by (induction "smc_order c") (auto simp: map_of_map_restrict restrict_map_def)
  show "fst (SemanticCache_get key c) = map_of (recency c) key"
    using hit unfolding map_of by (auto simp: SemanticCache_get_def)
  show ok: "cache_ok limit (snd (SemanticCache_get key c))"
  proof (cases "key \<in> set (smc_order c)")
    case True
    then have "length [k \<leftarrow> smc_order c. k \<noteq> key] < length (smc_order c)" by (intro length_filter_less) auto
    then have "Suc (length [k \<leftarrow> smc_order c. k \<noteq> key]) \<le> limit" using c by (simp add: cache_ok_def)
    then show ?thesis using c True by (auto simp: SemanticCache_get_def cache_ok_def moved)
  qed (use c in \<open>simp add: SemanticCache_get_def\<close>)
  show "recency (snd (SemanticCache_get key c)) = lru_touch key (recency c)"
    unfolding recency_eq [OF ok] lru_touch_def map_of using recency_eq [OF c]
    by (auto simp: SemanticCache_get_def moved filter_map o_def)
qed

inductive cache_step :: "SemanticCache \<Rightarrow> SemanticCache \<Rightarrow> bool" where
  insert_tree: "cache_step c (SemanticCache_insert key tree c)"
| get_tree: "cache_step c (snd (SemanticCache_get key c))"

interpretation caches: kept_invariant cache_step "cache_ok limit"
  by unfold_locales (auto elim!: cache_step.cases intro: cache_ok_insert(1) cache_ok_get(1))

text \<open>
  C38: after any sequence of insertions and lookups the cache is its contract: an insertion puts the key last and
  drops from the front beyond the capacity, a lookup answers the tree stored last under the key and makes the key
  the most recent one; the cache never holds more trees than its capacity, and each key once.
\<close>

theorem semantic_cache_is_least_recently_used:
  assumes "cache_step\<^sup>*\<^sup>* (SemanticCache_with_capacity n) c"
  shows "recency (SemanticCache_insert key tree c) = lru_insert (max n 1) key tree (recency c)
    \<and> fst (SemanticCache_get key c) = map_of (recency c) key
    \<and> recency (snd (SemanticCache_get key c)) = lru_touch key (recency c)
    \<and> length (recency c) = SemanticCache_len c \<and> SemanticCache_len c \<le> max n 1 \<and> distinct (map fst (recency c))"
proof -
  have c: "cache_ok (max n 1) c"
    using assms by (rule caches.reach_keeps) (simp add: cache_ok_def SemanticCache_with_capacity_def SemanticCache_default_def)
  have "length (smc_order c) = length (bt_keys (smc_entries c))"
    using c distinct_card [of "smc_order c"] distinct_card [OF bt_ok_distinct, of "smc_entries c"] by (simp add: cache_ok_def)
  then show ?thesis
    using c by (simp add: cache_ok_insert [OF c] cache_ok_get [OF c])
      (simp add: recency_eq [OF c] SemanticCache_len_def cache_ok_def o_def)
qed

definition sample_page_tree :: "string \<Rightarrow> AgentRenderTree" where
  "sample_page_tree name = \<lparr>art_root = name, art_nodes = [], art_generation = 0, art_truncated = False\<rparr>"

theorem semantic_cache_is_least_recently_used_witness:
  "\<exists>c. cache_step\<^sup>*\<^sup>* (SemanticCache_with_capacity 1) c
     \<and> recency (SemanticCache_insert ''b'' (sample_page_tree ''b'') c) = [(''b'', sample_page_tree ''b'')]
     \<and> fst (SemanticCache_get ''a'' c) = Some (sample_page_tree ''a'')"
proof -
  let ?c = "SemanticCache_insert ''a'' (sample_page_tree ''a'') (SemanticCache_with_capacity 1)"
  have reach: "cache_step\<^sup>*\<^sup>* (SemanticCache_with_capacity 1) ?c" by (intro r_into_rtranclp cache_step.intros)
  have start: "recency (SemanticCache_with_capacity 1) = []"
    by (simp add: recency_def SemanticCache_with_capacity_def SemanticCache_default_def List.map_filter_simps)
  have a: "recency ?c = [(''a'', sample_page_tree ''a'')]"
    using semantic_cache_is_least_recently_used [OF rtranclp.rtrancl_refl, of "''a''" "sample_page_tree ''a''" 1]
    by (simp add: start lru_insert_def)
  then show ?thesis
    using semantic_cache_is_least_recently_used [OF reach, of "''b''" "sample_page_tree ''b''"]
      semantic_cache_is_least_recently_used [OF reach, of "''a''"] reach
    by (intro exI [of _ ?c]) (simp add: lru_insert_def)
qed

subsection \<open>Sites\<close>

lemma min_by_key_None [simp]: "min_by_key f xs = None \<longleftrightarrow> xs = []"
  by (cases xs) (auto split: option.split)

lemma min_by_key_least: "min_by_key f xs = Some x \<Longrightarrow> y \<in> set xs \<Longrightarrow> f x \<le> f y"
proof (induction xs arbitrary: x y)
  case (Cons a xs)
  show ?case
  proof (cases "min_by_key f xs")
    case None
    then have "xs = []" by simp
    then show ?thesis using Cons.prems by simp
  next
    case (Some z)
    from Cons.IH [OF Some] have "\<forall>y \<in> set xs. f z \<le> f y" by blast
    then show ?thesis using Cons.prems Some by (auto split: if_splits intro: order_trans)
  qed
qed simp

lemma evict_sites_within: "length (evict_sites limit entries) \<le> limit"
proof (induction limit entries rule: evict_sites.induct)
  case (1 limit entries)
  then show ?case
    by (subst evict_sites.simps) (auto split: option.split)
qed

lemma sites_within_capacity: "length (slc_entries (SiteLearningCache_observe site tree c)) \<le> slc_max_entries c"
  by (simp add: SiteLearningCache_observe_def Let_def evict_sites_within)

text \<open>
  The entry that is evicted is the one seen least, not the oldest: once a full cache has seen each of its sites
  twice, a new site is evicted by its own first observation and the cache never learns it.
\<close>

lemma full_cache_learns_no_new_site:
  assumes ok: "bt_ok (slc_entries c)" and full: "length (slc_entries c) = slc_max_entries c"
    and new: "SiteLearningCache_get c site = None"
    and seen: "\<forall>k e. bt_get (slc_entries c) k = Some e \<longrightarrow> sle_observations e > 1"
  shows "SiteLearningCache_observe site tree c = c"
proof -
  let ?old = "slc_entries c"
  let ?entries = "bt_adjust site (\<lambda>e. e\<lparr>sle_observations := saturating_add (sle_observations e) 1,
      sle_observed_roles := fold add_role (map (\<lambda>n. role_debug (an_structural_role n)) (art_nodes tree)) (sle_observed_roles e)\<rparr>)
    (bt_or_insert site \<lparr>sle_origin = site, sle_observed_roles = [], sle_observations = 0\<rparr> ?old)"
  have none: "bt_get ?old site = None" using new by (simp add: SiteLearningCache_get_def)
  have "saturating_add 0 (1 :: u64) = 1" by (simp add: saturating_add_def)
  then obtain n where n: "bt_get ?entries site = Some n" "sle_observations n = 1" using none by simp
  have ok': "bt_ok ?entries" using ok by simp
  have less: "length ?entries = Suc (length ?old)"
  proof -
    let ?new = "\<lparr>sle_origin = site, sle_observed_roles = [], sle_observations = 0 :: u64\<rparr>"
    have "length ?entries = length (bt_insert site ?new ?old)"
      using none by (simp add: bt_adjust_def bt_or_insert_def bt_contains_key_def)
    also have "\<dots> = Suc (length ?old)"
    proof -
      have "fst e < site \<longleftrightarrow> \<not> site < fst e" if e: "e \<in> set ?old" for e
      proof -
        have "fst e \<noteq> site" using none e unfolding bt_get_None_iff by auto
        then show ?thesis by auto
      qed
      then have "[e \<leftarrow> ?old. fst e < site] = [e \<leftarrow> ?old. \<not> site < fst e]" by (intro filter_cong) auto
      then show ?thesis
        using sum_length_filter_compl [of "\<lambda>e. site < fst e" ?old] by (simp add: bt_insert_def)
    qed
    finally show ?thesis .
  qed
  obtain e where e: "min_by_key (\<lambda>e. sle_observations (snd e)) ?entries = Some e"
    using less by (cases "min_by_key (\<lambda>e. sle_observations (snd e)) ?entries") (auto simp: length_Suc_conv)
  have got: "bt_get ?entries (fst e) = Some (snd e)"
    by (rule bt_in_get [OF ok']) (unfold prod.collapse, rule min_by_key_in [OF e])
  have "sle_observations (snd e) \<le> sle_observations n"
    using min_by_key_least [OF e bt_get_Some_in [OF n(1)]] by simp
  then have "\<not> sle_observations (snd e) > 1" using n(2) by simp
  have "fst e = site"
  proof (rule ccontr)
    assume "fst e \<noteq> site"
    then have "bt_get ?old (fst e) = Some (snd e)" using got by simp
    then show False using seen \<open>\<not> sle_observations (snd e) > 1\<close> by blast
  qed
  moreover have "bt_remove site ?entries = ?old"
    using none ok ok' by (intro bt_ext) auto
  ultimately have "evict_sites (slc_max_entries c) ?entries = ?old"
    using full less e by (subst evict_sites.simps, simp) (subst evict_sites.simps, simp)
  then show ?thesis by (simp add: SiteLearningCache_observe_def Let_def)
qed

subsection \<open>Entity pages\<close>

lemma entity_page:
  assumes "length (agr_entities (air_graph ir)) \<le> usize_max" and "offset \<le> length (ApplicationIr_query_entities ir q)"
  shows "aep_results (ApplicationIr_query_entities_page ir q offset limit)
      = take (max limit 1) (drop offset (ApplicationIr_query_entities ir q))"
    and "aep_next_offset (ApplicationIr_query_entities_page ir q offset limit) =
      (if offset + max limit 1 < length (ApplicationIr_query_entities ir q) then Some (offset + max limit 1) else None)"
proof -
  let ?hits = "ApplicationIr_query_entities ir q"
  have n: "length ?hits \<le> usize_max"
    using assms(1) length_filter_le [of "query_matches ir q" "agr_entities (air_graph ir)"]
    unfolding ApplicationIr_query_entities_def by linarith
  have stop: "min (min (min offset (length ?hits) + max limit 1) usize_max) (length ?hits) = min (offset + max limit 1) (length ?hits)"
    using n assms(2) by linarith
  have "take (min (offset + max limit 1) (length ?hits) - offset) (drop offset ?hits) = take (max limit 1) (drop offset ?hits)"
    using assms(2) by (cases "offset + max limit 1 \<le> length ?hits") (simp_all add: min_def)
  then show "aep_results (ApplicationIr_query_entities_page ir q offset limit) = take (max limit 1) (drop offset ?hits)"
    "aep_next_offset (ApplicationIr_query_entities_page ir q offset limit) =
      (if offset + max limit 1 < length ?hits then Some (offset + max limit 1) else None)"
    using assms(2) stop
    unfolding ApplicationIr_query_entities_page_def ApplicationIr_query_entities_def [symmetric] Let_def by simp_all
qed

text \<open>A client that follows the offsets, with fuel for one page for each entity and one more.\<close>

fun read_entity_pages :: "nat \<Rightarrow> ApplicationIr \<Rightarrow> ApplicationQuery \<Rightarrow> nat \<Rightarrow> nat \<Rightarrow> ApplicationEntity list option" where
  "read_entity_pages 0 ir q limit offset = None"
| "read_entity_pages (Suc fuel) ir q limit offset =
     (let page = ApplicationIr_query_entities_page ir q offset limit
      in case aep_next_offset page of
           None \<Rightarrow> Some (aep_results page)
         | Some next \<Rightarrow> map_option ((@) (aep_results page)) (read_entity_pages fuel ir q limit next))"

lemma entity_pages_cover_the_answer:
  assumes "length (agr_entities (air_graph ir)) \<le> usize_max"
  shows "read_entity_pages (Suc (length (ApplicationIr_query_entities ir q))) ir q limit 0 = Some (ApplicationIr_query_entities ir q)"
proof -
  let ?hits = "ApplicationIr_query_entities ir q"
  have "read_entity_pages fuel ir q limit offset = Some (drop offset ?hits)"
    if "offset \<le> length ?hits" "length ?hits - offset < fuel" for fuel offset
    using that
  proof (induction fuel arbitrary: offset)
    case (Suc fuel)
    note page = entity_page [OF assms Suc.prems(1), of limit]
    show ?case
    proof (cases "offset + max limit 1 < length ?hits")
      case True
      then have "read_entity_pages fuel ir q limit (offset + max limit 1) = Some (drop (offset + max limit 1) ?hits)"
        using Suc.prems by (intro Suc.IH) auto
      moreover have "take (max limit 1) (drop offset ?hits) @ drop (offset + max limit 1) ?hits = drop offset ?hits"
        by (metis append_take_drop_id drop_drop add.commute)
      ultimately show ?thesis using True page by (simp add: Let_def)
    qed (use page in \<open>simp add: Let_def\<close>)
  qed simp
  from this [of 0 "Suc (length ?hits)"] show ?thesis by (simp del: read_entity_pages.simps)
qed

end
