(* ===== verification/PageText.thy ===== *)
theory PageText
  imports SemanticCompiler
begin

section \<open>The page as text\<close>

text \<open>
  The crate \<open>crates/page-text\<close>: a walk over the agent render tree that writes markdown with tags for what an agent
  can act on, or plain prose, inside an envelope that marks the page as untrusted, with the byte offsets of the tags.

  Strings are their bytes; every character the code looks for is ASCII, and \<open>is_char_boundary\<close> is the test for a
  continuation byte. The printed form of a float is an argument. The methods of the emitter call each other only
  through \<open>emit_child\<close>, so each of them takes the recursive call as its argument \<open>child\<close>; \<open>emit_child\<close> ties the knot
  and carries the depth, \<open>None\<close> being a recursion deeper than that, which on a cyclic tree never ends.
\<close>

definition PAGE_TEXT_FORMAT_VERSION :: u16 where
  "PAGE_TEXT_FORMAT_VERSION = 2"

datatype PageTextFormat = FormatMarkdown | FormatPlain

record MarkdownOptions =
  mo_format :: PageTextFormat
  mo_include_invisible :: bool
  mo_include_disabled :: bool
  mo_max_text_bytes :: nat
  mo_max_heading_level :: u8
  mo_raw :: bool

definition MarkdownOptions_default :: MarkdownOptions where
  "MarkdownOptions_default =
     \<lparr>mo_format = FormatMarkdown, mo_include_invisible = False, mo_include_disabled = True, mo_max_text_bytes = 500,
      mo_max_heading_level = 6, mo_raw = False\<rparr>"

datatype MarkdownTag =
    TagLink | TagButton | TagTextbox | TagCheckbox | TagRadio | TagSelect | TagOption | TagImage | TagHeading
  | TagRegion | TagDialog | TagChallenge | TagForm | TagList | TagListItem | TagTable | TagRow | TagCell

fun MarkdownTag_as_str :: "MarkdownTag \<Rightarrow> string" where
  "MarkdownTag_as_str TagLink = ''link''"
| "MarkdownTag_as_str TagButton = ''button''"
| "MarkdownTag_as_str TagTextbox = ''textbox''"
| "MarkdownTag_as_str TagCheckbox = ''checkbox''"
| "MarkdownTag_as_str TagRadio = ''radio''"
| "MarkdownTag_as_str TagSelect = ''select''"
| "MarkdownTag_as_str TagOption = ''option''"
| "MarkdownTag_as_str TagImage = ''image''"
| "MarkdownTag_as_str TagHeading = ''heading''"
| "MarkdownTag_as_str TagRegion = ''region''"
| "MarkdownTag_as_str TagDialog = ''dialog''"
| "MarkdownTag_as_str TagChallenge = ''challenge''"
| "MarkdownTag_as_str TagForm = ''form''"
| "MarkdownTag_as_str TagList = ''list''"
| "MarkdownTag_as_str TagListItem = ''listitem''"
| "MarkdownTag_as_str TagTable = ''table''"
| "MarkdownTag_as_str TagRow = ''row''"
| "MarkdownTag_as_str TagCell = ''cell''"

record NodeSpan =
  nsp_id :: AgentNodeId
  nsp_tag :: MarkdownTag
  nsp_start :: nat
  nsp_end :: nat
  nsp_href :: "string option"
  nsp_name :: "string option"

record MarkdownView =
  mv_format_version :: u16
  mv_content :: string
  mv_node_index :: "NodeSpan list"
  mv_skipped_nodes :: nat

text \<open>The emitter, without its reference to the tree.\<close>

record MarkdownEmitter =
  em_out :: string
  em_index :: "NodeSpan list"
  em_skipped :: nat
  em_list_depth :: u32

definition MarkdownEmitter_new :: MarkdownEmitter where
  "MarkdownEmitter_new = \<lparr>em_out = [], em_index = [], em_skipped = 0, em_list_depth = 0\<rparr>"

definition MarkdownEmitter_is_plain :: "MarkdownOptions \<Rightarrow> bool" where
  "MarkdownEmitter_is_plain opts = (mo_format opts = FormatPlain)"

abbreviation newline :: char where
  "newline \<equiv> CHR 0x0A"

abbreviation quote :: char where
  "quote \<equiv> CHR 0x22"

definition push_str :: "string \<Rightarrow> MarkdownEmitter \<Rightarrow> MarkdownEmitter" where
  "push_str s em = em\<lparr>em_out := em_out em @ s\<rparr>"

definition skip_node :: "MarkdownEmitter \<Rightarrow> MarkdownEmitter" where
  "skip_node em = em\<lparr>em_skipped := em_skipped em + 1\<rparr>"

definition push_span ::
    "AgentNodeId \<Rightarrow> MarkdownTag \<Rightarrow> nat \<Rightarrow> nat \<Rightarrow> string option \<Rightarrow> string option \<Rightarrow> MarkdownEmitter \<Rightarrow> MarkdownEmitter" where
  "push_span i tag start stop href name em =
     em\<lparr>em_index := em_index em @
       [\<lparr>nsp_id = i, nsp_tag = tag, nsp_start = start, nsp_end = stop, nsp_href = href, nsp_name = name\<rparr>]\<rparr>"

subsection \<open>Texts and attributes\<close>

definition escape_char :: "char \<Rightarrow> string" where
  "escape_char c =
     (if c = quote then ''&quot;'' else if c = CHR ''&'' then ''&amp;'' else if c = CHR ''<'' then ''&lt;''
      else if c = CHR ''>'' then ''&gt;'' else [c])"

definition escape_attr_inline :: "string \<Rightarrow> string" where
  "escape_attr_inline s = concat (map escape_char s)"

text \<open>What \<open>push_attr\<close> appends.\<close>

definition push_attr :: "string \<Rightarrow> string \<Rightarrow> string" where
  "push_attr key v = '' '' @ key @ [CHR ''='', quote] @ escape_attr_inline v @ [quote]"

definition escape_pipes :: "string \<Rightarrow> string" where
  "escape_pipes s = concat (map (\<lambda>c. if c = CHR ''|'' then [CHR 0x5C, c] else [c]) s)"

fun cut_at :: "string \<Rightarrow> nat \<Rightarrow> nat" where
  "cut_at s 0 = 0"
| "cut_at s (Suc k) = (if Suc k < length s \<and> continuation (s ! Suc k) then cut_at s k else Suc k)"

definition truncate :: "string \<Rightarrow> nat \<Rightarrow> string" where
  "truncate s limit = (if length s \<le> limit then s else take (cut_at s limit) s @ ''...'')"

definition bool_str :: "bool \<Rightarrow> string" where
  "bool_str b = (if b then ''true'' else ''false'')"

definition node_text :: "(f64 \<Rightarrow> string) \<Rightarrow> AgentNode \<Rightarrow> MarkdownOptions \<Rightarrow> string" where
  "node_text show_f64 node opts =
     truncate (case an_value node of
         Some (TextValue s) \<Rightarrow> s
       | Some (UrlValue s) \<Rightarrow> s
       | Some (SecretReference _) \<Rightarrow> ''(secret)''
       | Some (NumberValue n) \<Rightarrow> show_f64 n
       | Some (BooleanValue b) \<Rightarrow> bool_str b
       | None \<Rightarrow> or_empty (an_name node)) (mo_max_text_bytes opts)"

definition actionable_body_text :: "(f64 \<Rightarrow> string) \<Rightarrow> AgentNode \<Rightarrow> MarkdownTag \<Rightarrow> MarkdownOptions \<Rightarrow> string" where
  "actionable_body_text show_f64 node tag opts =
     truncate
       (if tag \<in> {TagLink, TagImage} then or_empty (an_name node)
        else if tag = TagTextbox then
          (case an_value node of
             Some (TextValue s) \<Rightarrow> s
           | Some (NumberValue n) \<Rightarrow> show_f64 n
           | _ \<Rightarrow> or_empty (an_name node))
        else if tag \<in> {TagCheckbox, TagRadio} then
          (case an_value node of
             Some (TextValue s) \<Rightarrow> if s \<noteq> [] then s else or_empty (an_name node)
           | _ \<Rightarrow> or_empty (an_name node))
        else node_text show_f64 node opts) (mo_max_text_bytes opts)"

subsection \<open>Addresses\<close>

text \<open>\<open>match_indices\<close>: the positions of the matches that do not overlap, from the left.\<close>

fun match_from :: "nat \<Rightarrow> nat \<Rightarrow> string \<Rightarrow> string \<Rightarrow> nat list" where
  "match_from skip pos pat [] = []"
| "match_from (Suc skip) pos pat (c # cs) = match_from skip (Suc pos) pat cs"
| "match_from 0 pos pat (c # cs) =
     (if prefix pat (c # cs) then pos # match_from (length pat - 1) (Suc pos) pat cs
      else match_from 0 (Suc pos) pat cs)"

definition match_indices :: "string \<Rightarrow> string \<Rightarrow> nat list" where
  "match_indices pat s = match_from 0 0 pat s"

fun first_some :: "('a \<Rightarrow> 'b option) \<Rightarrow> 'a list \<Rightarrow> 'b option" where
  "first_some f [] = None"
| "first_some f (x # xs) = (case f x of None \<Rightarrow> first_some f xs | Some y \<Rightarrow> Some y)"

definition white_at :: "string \<Rightarrow> bool" where
  "white_at s = list_ex (\<lambda>w. prefix w s) white_space"

fun url_run :: "string \<Rightarrow> string" where
  "url_run [] = []"
| "url_run (c # cs) =
     (if c \<in> {quote, CHR 0x27, CHR ''<'', CHR ''>''} \<or> white_at (c # cs) then [] else c # url_run cs)"

fun has_white :: "string \<Rightarrow> bool" where
  "has_white [] = False"
| "has_white (c # cs) = (white_at (c # cs) \<or> has_white cs)"

definition word_byte :: "char \<Rightarrow> bool" where
  "word_byte c \<longleftrightarrow> ascii_digit c \<or> (CHR ''a'' \<le> c \<and> c \<le> CHR ''z'') \<or> (CHR ''A'' \<le> c \<and> c \<le> CHR ''Z'')
     \<or> c = CHR ''_'' \<or> c = CHR ''-''"

definition http_at :: "string \<Rightarrow> nat \<Rightarrow> string option" where
  "http_at s i =
     (if i > 0 \<and> word_byte (s ! (i - 1)) then None
      else
        let rest = drop i s;
            scheme = (if prefix ''https://'' rest then Some ''https://''
                      else if prefix ''http://'' rest then Some ''http://'' else None)
        in case scheme of
             None \<Rightarrow> None
           | Some sch \<Rightarrow>
               (let candidate = url_run (drop (length sch) rest)
                in if candidate \<noteq> [] then Some (sch @ candidate) else None))"

definition scheme_relative_at :: "string \<Rightarrow> nat \<Rightarrow> string option" where
  "scheme_relative_at s i =
     (if i = 0 then None
      else if s ! (i - 1) \<notin> {CHR '' '', CHR 0x09, CHR 0x0A, CHR 0x0C, CHR 0x0D} then None
      else (let candidate = url_run (drop (i + 2) s)
            in if candidate \<noteq> [] then Some (''//'' @ candidate) else None))"

definition extract_url :: "string \<Rightarrow> string option" where
  "extract_url v =
     (let s = str_trim v
      in if s = [] then None
         else case first_some (http_at s) (match_indices ''http'' s) of
                Some u \<Rightarrow> Some u
              | None \<Rightarrow>
                  (case first_some (scheme_relative_at s) (match_indices ''//'' s) of
                     Some u \<Rightarrow> Some u
                   | None \<Rightarrow> if hd s = CHR ''/'' \<and> \<not> has_white s \<and> length s > 1 then Some s else None))"

definition url_value :: "AgentNode \<Rightarrow> string option" where
  "url_value node =
     (case an_value node of
        Some (UrlValue u) \<Rightarrow> if str_trim u \<noteq> [] then Some (str_trim u) else None
      | _ \<Rightarrow> None)"

definition text_value :: "AgentNode \<Rightarrow> string option" where
  "text_value node = (case an_value node of Some (TextValue s) \<Rightarrow> Some s | _ \<Rightarrow> None)"

definition link_href :: "AgentNode \<Rightarrow> string option" where
  "link_href node =
     first_some (\<lambda>v. v)
       [url_value node, Option.bind (an_description node) extract_url, Option.bind (text_value node) extract_url,
        Option.bind (an_name node) extract_url]"

definition image_src :: "AgentNode \<Rightarrow> string option" where
  "image_src node = first_some (\<lambda>v. v) [url_value node, Option.bind (an_description node) extract_url]"

definition placeholder :: "AgentNode \<Rightarrow> string option" where
  "placeholder node = (case an_description node of Some s \<Rightarrow> if s \<noteq> [] then Some s else None | None \<Rightarrow> None)"

definition attr_if :: "bool \<Rightarrow> string \<Rightarrow> string" where
  "attr_if b key = (if b then push_attr key ''true'' else [])"

definition attr_opt :: "string \<Rightarrow> string option \<Rightarrow> string" where
  "attr_opt key v = (case v of None \<Rightarrow> [] | Some s \<Rightarrow> push_attr key s)"

definition emit_extra_attrs :: "AgentNode \<Rightarrow> MarkdownTag \<Rightarrow> string" where
  "emit_extra_attrs node tag =
     (if tag \<in> {TagRegion, TagDialog, TagSelect} then [] else attr_opt ''name'' (an_name node))
     @ (case tag of
          TagLink \<Rightarrow> attr_opt ''href'' (link_href node)
        | TagButton \<Rightarrow> attr_if (\<not> ns_enabled (an_state node)) ''disabled''
        | TagTextbox \<Rightarrow> attr_opt ''placeholder'' (placeholder node) @ attr_if (\<not> ns_enabled (an_state node)) ''disabled''
        | TagCheckbox \<Rightarrow> attr_if (\<not> ns_enabled (an_state node)) ''disabled'' @ attr_if (ns_selected (an_state node)) ''checked''
        | TagRadio \<Rightarrow> attr_if (\<not> ns_enabled (an_state node)) ''disabled'' @ attr_if (ns_selected (an_state node)) ''checked''
        | TagImage \<Rightarrow> attr_opt ''src'' (image_src node)
        | _ \<Rightarrow> [])
     @ (if an_semantic_role node = Some Challenge
        then push_attr ''provider'' (case an_description node of None \<Rightarrow> ''unknown'' | Some d \<Rightarrow> d) else [])"

subsection \<open>Headings\<close>

text \<open>\<open>str::parse::<u8>\<close>: decimal digits after an optional plus sign, at most 255.\<close>

definition parse_u8 :: "string \<Rightarrow> u8 option" where
  "parse_u8 s =
     (let d = (if s \<noteq> [] \<and> hd s = CHR ''+'' \<and> tl s \<noteq> [] then tl s else s)
      in if d \<noteq> [] \<and> list_all ascii_digit d \<and> digits_value d \<le> 255 then Some (word_of_nat (digits_value d)) else None)"

text \<open>\<open>x as i32\<close> of a floor, which saturates, and the sum of two \<open>i32\<close>, which wraps.\<close>

fun floor_i32 :: "f64 \<Rightarrow> int" where
  "floor_i32 NaN = 0"
| "floor_i32 NegInf = - (2 ^ 31)"
| "floor_i32 PosInf = 2 ^ 31 - 1"
| "floor_i32 (Finite q) = max (- (2 ^ 31)) (min (2 ^ 31 - 1) \<lfloor>q\<rfloor>)"

definition heading_level :: "AgentNode \<Rightarrow> u8 \<Rightarrow> u8" where
  "heading_level node limit =
     (let declared = (case an_description node of
            Some (c # d) \<Rightarrow> if c = CHR ''H'' \<or> c = CHR ''h'' then parse_u8 d else None
          | _ \<Rightarrow> None)
      in case declared of
           Some n \<Rightarrow> min (max n 1) (max limit 1)
         | None \<Rightarrow>
             (case an_geometry node of
                Some g \<Rightarrow>
                  (let line = floor_i32 (f64_div (geo_y g) (Finite 64));
                       line = (if line = 2 ^ 31 - 1 then - (2 ^ 31) else line + 1);
                       approx = (word_of_int (max line 1) :: u8)
                   in min approx (max limit 1))
              | None \<Rightarrow> 2))"

subsection \<open>The emitter\<close>

type_synonym emitter_step = "MarkdownEmitter \<Rightarrow> MarkdownEmitter option"

text \<open>\<open>for child_id in &node.children { self.emit_child(child_id, opts) }\<close>\<close>

fun emit_raw_children :: "(AgentNodeId \<Rightarrow> emitter_step) \<Rightarrow> AgentNodeId list \<Rightarrow> emitter_step" where
  "emit_raw_children child [] em = Some em"
| "emit_raw_children child (i # is) em =
     (case child i em of None \<Rightarrow> None | Some em \<Rightarrow> emit_raw_children child is em)"

definition emit_page :: "(AgentNodeId \<Rightarrow> emitter_step) \<Rightarrow> MarkdownOptions \<Rightarrow> AgentNode \<Rightarrow> emitter_step" where
  "emit_page child opts node em =
     emit_raw_children child (an_children node)
       (case an_name node of
          None \<Rightarrow> em
        | Some title \<Rightarrow>
            if MarkdownEmitter_is_plain opts then push_str (str_trim title @ [newline, newline]) em
            else push_str (''[heading level='' @ [quote, CHR ''1'', quote] @ '']'' @ escape_attr_inline (str_trim title)
                    @ ''[/heading]'' @ [newline]) em)"

definition emit_heading_node :: "(f64 \<Rightarrow> string) \<Rightarrow> MarkdownOptions \<Rightarrow> AgentNode \<Rightarrow> MarkdownEmitter \<Rightarrow> MarkdownEmitter" where
  "emit_heading_node show_f64 opts node em =
     (let body = node_text show_f64 node opts
      in if body = [] then skip_node em
         else if MarkdownEmitter_is_plain opts then push_str (body @ [newline, newline]) em
         else push_str (''[heading level='' @ [quote] @ decimal (unat (heading_level node (mo_max_heading_level opts)))
                @ [quote] @ '']'' @ escape_attr_inline body @ ''[/heading]'' @ [newline]) em)"

definition emit_text_block :: "(f64 \<Rightarrow> string) \<Rightarrow> MarkdownOptions \<Rightarrow> AgentNode \<Rightarrow> MarkdownEmitter \<Rightarrow> MarkdownEmitter" where
  "emit_text_block show_f64 opts node em =
     (let body = node_text show_f64 node opts
      in if body = [] then skip_node em else push_str (body @ [newline]) em)"

definition emit_actionable_plain ::
    "(f64 \<Rightarrow> string) \<Rightarrow> MarkdownOptions \<Rightarrow> MarkdownTag \<Rightarrow> AgentNode \<Rightarrow> MarkdownEmitter \<Rightarrow> MarkdownEmitter" where
  "emit_actionable_plain show_f64 opts tag node em =
     (let body = actionable_body_text show_f64 node tag opts
      in case tag of
           TagLink \<Rightarrow> if body = [] then em else push_str (body @ [newline]) em
         | TagButton \<Rightarrow> push_str (body @ (if ns_enabled (an_state node) then [] else '' (disabled)'') @ [newline]) em
         | TagTextbox \<Rightarrow>
             (let name = (case an_name node of None \<Rightarrow> ''input'' | Some n \<Rightarrow> n)
              in push_str (''(input: '' @ name @ '')'' @ (if body = [] then [] else '' '' @ body) @ [newline]) em)
         | TagCheckbox \<Rightarrow> push_str ((if ns_selected (an_state node) then ''[x]'' else ''[ ]'') @ '' '' @ body @ [newline]) em
         | TagRadio \<Rightarrow> push_str ((if ns_selected (an_state node) then ''[x]'' else ''[ ]'') @ '' '' @ body @ [newline]) em
         | TagImage \<Rightarrow> if body = [] then em else push_str (body @ [newline]) em
         | _ \<Rightarrow> push_str (body @ [newline]) em)"

text \<open>A piece of text that is recorded as a span, followed by a newline outside of it.\<close>

definition emit_span ::
    "string \<Rightarrow> AgentNodeId \<Rightarrow> MarkdownTag \<Rightarrow> string option \<Rightarrow> string option \<Rightarrow> MarkdownEmitter \<Rightarrow> MarkdownEmitter" where
  "emit_span s i tag href name em =
     (let start = length (em_out em); em = push_str s em; stop = length (em_out em)
      in push_span i tag start stop href name (push_str [newline] em))"

definition resolved_url :: "MarkdownTag \<Rightarrow> AgentNode \<Rightarrow> string option" where
  "resolved_url tag node = (if tag = TagLink then link_href node else if tag = TagImage then image_src node else None)"

definition emit_actionable ::
    "(f64 \<Rightarrow> string) \<Rightarrow> MarkdownOptions \<Rightarrow> MarkdownTag \<Rightarrow> AgentNode \<Rightarrow> MarkdownEmitter \<Rightarrow> MarkdownEmitter" where
  "emit_actionable show_f64 opts tag node em =
     (if MarkdownEmitter_is_plain opts then emit_actionable_plain show_f64 opts tag node em
      else
        let body = actionable_body_text show_f64 node tag opts
        in case resolved_url tag node of
             Some url \<Rightarrow>
               emit_span ((if tag = TagImage then ''!['' @ (if body = [] then ''image'' else body) else ''['' @ body)
                  @ '']('' @ url @ '')'') (an_id node) tag (Some url) (an_name node) em
           | None \<Rightarrow>
               emit_span (''['' @ MarkdownTag_as_str tag @ push_attr ''id'' (an_id node) @ emit_extra_attrs node tag @ '']''
                  @ (if body = [] \<or> tag = TagTextbox then [] else body) @ ''[/'' @ MarkdownTag_as_str tag @ '']'')
                 (an_id node) tag (link_href node) (an_name node) em)"

definition option_value :: "AgentNode \<Rightarrow> string option" where
  "option_value node =
     (case an_value node of Some (TextValue s) \<Rightarrow> Some s | Some (UrlValue s) \<Rightarrow> Some s | _ \<Rightarrow> None)"

text \<open>The children of a select that count: those that exist and are shown.\<close>

definition select_options :: "AgentRenderTree \<Rightarrow> MarkdownOptions \<Rightarrow> AgentNode \<Rightarrow> AgentNode list" where
  "select_options tree opts node =
     [c \<leftarrow> List.map_filter (AgentRenderTree_find tree) (an_children node).
        mo_include_invisible opts \<or> ns_visible (an_state c)]"

definition option_body :: "(f64 \<Rightarrow> string) \<Rightarrow> MarkdownOptions \<Rightarrow> AgentNode \<Rightarrow> string" where
  "option_body show_f64 opts c =
     (let v = node_text show_f64 c opts in if v \<noteq> [] then v else or_empty (option_value c))"

definition emit_option :: "(f64 \<Rightarrow> string) \<Rightarrow> MarkdownOptions \<Rightarrow> AgentNode \<Rightarrow> MarkdownEmitter \<Rightarrow> MarkdownEmitter" where
  "emit_option show_f64 opts c em =
     emit_span (''  [option'' @ push_attr ''id'' (an_id c) @ attr_opt ''value'' (option_value c)
          @ attr_if (ns_selected (an_state c)) ''selected'' @ '']'' @ option_body show_f64 opts c @ ''[/option]'')
       (an_id c) TagOption None (an_name c) em"

definition selected_option :: "(f64 \<Rightarrow> string) \<Rightarrow> MarkdownOptions \<Rightarrow> AgentNode list \<Rightarrow> string option" where
  "selected_option show_f64 opts cs =
     fold (\<lambda>c sel. if ns_selected (an_state c) then Some (option_body show_f64 opts c) else sel) cs None"

definition emit_select_plain :: "(f64 \<Rightarrow> string) \<Rightarrow> AgentRenderTree \<Rightarrow> MarkdownOptions \<Rightarrow> AgentNode \<Rightarrow> MarkdownEmitter \<Rightarrow> MarkdownEmitter" where
  "emit_select_plain show_f64 tree opts node em =
     (let label = (case an_name node of None \<Rightarrow> ''(select)'' | Some n \<Rightarrow> n);
          cs = select_options tree opts node
      in push_str (''('' @ label @ '': '' @
           (case selected_option show_f64 opts cs of
              Some sel \<Rightarrow> sel
            | None \<Rightarrow> if cs = [] then ''(empty)'' else decimal (length cs) @ '' options'') @ '')'' @ [newline]) em)"

definition emit_select :: "(f64 \<Rightarrow> string) \<Rightarrow> AgentRenderTree \<Rightarrow> MarkdownOptions \<Rightarrow> AgentNode \<Rightarrow> MarkdownEmitter \<Rightarrow> MarkdownEmitter" where
  "emit_select show_f64 tree opts node em =
     (if MarkdownEmitter_is_plain opts then emit_select_plain show_f64 tree opts node em
      else
        let start = length (em_out em);
            em = push_str (''[select'' @ push_attr ''id'' (an_id node) @ attr_opt ''name'' (an_name node)
                   @ attr_if (\<not> ns_enabled (an_state node)) ''disabled'' @ '']'' @ [newline]) em;
            em = fold (emit_option show_f64 opts) (select_options tree opts node) em;
            em = push_str ''[/select]'' em;
            stop = length (em_out em)
        in push_span (an_id node) TagSelect start stop None (an_name node) (push_str [newline] em))"

definition emit_list :: "(AgentNodeId \<Rightarrow> emitter_step) \<Rightarrow> AgentNode \<Rightarrow> emitter_step" where
  "emit_list child node em =
     map_option (\<lambda>em. em\<lparr>em_list_depth := em_list_depth em - 1\<rparr>)
       (emit_raw_children child (an_children node) (em\<lparr>em_list_depth := em_list_depth em + 1\<rparr>))"

definition one_line :: "string \<Rightarrow> string" where
  "one_line s = str_trim (map (\<lambda>c. if c = newline then CHR '' '' else c) s)"

definition emit_list_item :: "(AgentNodeId \<Rightarrow> emitter_step) \<Rightarrow> AgentNode \<Rightarrow> emitter_step" where
  "emit_list_item child node em =
     (let em = push_str (concat (replicate (unat (em_list_depth em)) ''  '') @ ''- '') em;
          leading = length (em_out em)
      in map_option (\<lambda>em. em\<lparr>em_out := take leading (em_out em) @ one_line (drop leading (em_out em)) @ [newline]\<rparr>)
           (emit_raw_children child (an_children node) em))"

definition table_rows :: "AgentRenderTree \<Rightarrow> AgentNode \<Rightarrow> AgentNode list" where
  "table_rows tree node = [n \<leftarrow> List.map_filter (AgentRenderTree_find tree) (an_children node). an_structural_role n = Row]"

fun render_row_cells ::
    "(f64 \<Rightarrow> string) \<Rightarrow> (AgentNodeId \<Rightarrow> emitter_step) \<Rightarrow> AgentRenderTree \<Rightarrow> MarkdownOptions \<Rightarrow> AgentNodeId list \<Rightarrow>
     MarkdownEmitter \<Rightarrow> (string list \<times> MarkdownEmitter) option" where
  "render_row_cells show_f64 child tree opts [] em = Some ([], em)"
| "render_row_cells show_f64 child tree opts (i # is) em =
     (case AgentRenderTree_find tree i of
        None \<Rightarrow> map_option (\<lambda>(cells, em). ([] # cells, em)) (render_row_cells show_f64 child tree opts is em)
      | Some cell \<Rightarrow>
          if an_structural_role cell = Cell
          then (let before = length (em_out em)
                in case emit_raw_children child (an_children cell) em of
                     None \<Rightarrow> None
                   | Some em \<Rightarrow>
                       (let cleaned = one_line (drop before (em_out em));
                            em = em\<lparr>em_out := take before (em_out em)\<rparr>;
                            v = (if cleaned = [] then node_text show_f64 cell opts else cleaned)
                        in map_option (\<lambda>(cells, em). (escape_pipes v # cells, em))
                             (render_row_cells show_f64 child tree opts is em)))
          else map_option (\<lambda>(cells, em). (escape_pipes (node_text show_f64 cell opts) # cells, em))
                 (render_row_cells show_f64 child tree opts is em))"

definition emit_row ::
    "(f64 \<Rightarrow> string) \<Rightarrow> (AgentNodeId \<Rightarrow> emitter_step) \<Rightarrow> AgentRenderTree \<Rightarrow> MarkdownOptions \<Rightarrow> (string list \<Rightarrow> string) \<Rightarrow>
     AgentNode \<Rightarrow> emitter_step" where
  "emit_row show_f64 child tree opts format row em =
     map_option (\<lambda>(cells, em). push_str (format cells) em) (render_row_cells show_f64 child tree opts (an_children row) em)"

fun emit_rows ::
    "(f64 \<Rightarrow> string) \<Rightarrow> (AgentNodeId \<Rightarrow> emitter_step) \<Rightarrow> AgentRenderTree \<Rightarrow> MarkdownOptions \<Rightarrow> (string list \<Rightarrow> string) \<Rightarrow>
     AgentNode list \<Rightarrow> emitter_step" where
  "emit_rows show_f64 child tree opts format [] em = Some em"
| "emit_rows show_f64 child tree opts format (row # rows) em =
     (case emit_row show_f64 child tree opts format row em of
        None \<Rightarrow> None
      | Some em \<Rightarrow> emit_rows show_f64 child tree opts format rows em)"

definition emit_table_plain ::
    "(f64 \<Rightarrow> string) \<Rightarrow> (AgentNodeId \<Rightarrow> emitter_step) \<Rightarrow> AgentRenderTree \<Rightarrow> MarkdownOptions \<Rightarrow> AgentNode \<Rightarrow> emitter_step" where
  "emit_table_plain show_f64 child tree opts node em =
     (let rows = table_rows tree node
      in map_option (\<lambda>em. if rows \<noteq> [] then push_str [newline] em else em)
           (emit_rows show_f64 child tree opts (\<lambda>cells. join '' | '' cells @ [newline]) rows em))"

definition emit_table ::
    "(f64 \<Rightarrow> string) \<Rightarrow> (AgentNodeId \<Rightarrow> emitter_step) \<Rightarrow> AgentRenderTree \<Rightarrow> MarkdownOptions \<Rightarrow> AgentNode \<Rightarrow> emitter_step" where
  "emit_table show_f64 child tree opts node em =
     (if MarkdownEmitter_is_plain opts then emit_table_plain show_f64 child tree opts node em
      else (case table_rows tree node of
          [] \<Rightarrow> Some (push_str (''[table id='' @ [quote] @ escape_attr_inline (an_id node) @ [quote] @ '']empty[/table]'' @ [newline]) em)
        | header # body \<Rightarrow>
            (let columns = max (length (an_children header)) 1
             in case emit_row show_f64 child tree opts
                       (\<lambda>cells. ''| '' @ join '' | '' cells @ '' |'' @ [newline] @ ''|'' @ concat (replicate columns '' --- |'') @ [newline])
                       header em of
                  None \<Rightarrow> None
                | Some em \<Rightarrow>
                    map_option (push_str [newline])
                      (emit_rows show_f64 child tree opts (\<lambda>cells. ''| '' @ join '' | '' cells @ '' |'' @ [newline]) body em))))"

definition challenge_line :: "AgentNode \<Rightarrow> string" where
  "challenge_line node =
     (if an_semantic_role node = Some Challenge
      then ''(challenge: '' @ (case an_description node of None \<Rightarrow> ''unknown'' | Some d \<Rightarrow> d) @ '')'' @ [newline] else [])"

text \<open>The children between an opening and a closing tag, recorded as one span.\<close>

definition emit_enclosed :: "(AgentNodeId \<Rightarrow> emitter_step) \<Rightarrow> MarkdownTag \<Rightarrow> AgentNode \<Rightarrow> emitter_step" where
  "emit_enclosed child tag node em =
     (let start = length (em_out em);
          em = push_str (''['' @ MarkdownTag_as_str tag @ push_attr ''id'' (an_id node) @ emit_extra_attrs node tag @ '']'' @ [newline]) em
      in map_option (\<lambda>em.
             (let em = push_str (''[/'' @ MarkdownTag_as_str tag @ '']'') em; stop = length (em_out em)
              in push_span (an_id node) tag start stop None (an_name node) (push_str [newline] em)))
           (emit_raw_children child (an_children node) em))"

definition emit_region :: "(AgentNodeId \<Rightarrow> emitter_step) \<Rightarrow> MarkdownOptions \<Rightarrow> AgentNode \<Rightarrow> emitter_step" where
  "emit_region child opts node em =
     (if MarkdownEmitter_is_plain opts then emit_raw_children child (an_children node) (push_str (challenge_line node) em)
      else emit_enclosed child TagRegion node em)"

definition emit_dialog :: "(AgentNodeId \<Rightarrow> emitter_step) \<Rightarrow> MarkdownOptions \<Rightarrow> AgentNode \<Rightarrow> emitter_step" where
  "emit_dialog child opts node em =
     (if MarkdownEmitter_is_plain opts
      then emit_raw_children child (an_children node)
             (push_str (challenge_line node @
                (case an_name node of None \<Rightarrow> [] | Some name \<Rightarrow> ''(dialog: '' @ name @ '')'' @ [newline])) em)
      else emit_enclosed child TagDialog node em)"

definition emit_canvas :: "MarkdownOptions \<Rightarrow> AgentNode \<Rightarrow> MarkdownEmitter \<Rightarrow> MarkdownEmitter" where
  "emit_canvas opts node em =
     push_str (truncate (case an_name node of None \<Rightarrow> ''(canvas)'' | Some n \<Rightarrow> n) (mo_max_text_bytes opts) @ [newline]) em"

definition emit_video :: "MarkdownOptions \<Rightarrow> AgentNode \<Rightarrow> MarkdownEmitter \<Rightarrow> MarkdownEmitter" where
  "emit_video opts node em =
     (let body = truncate (case an_name node of None \<Rightarrow> ''(video)'' | Some n \<Rightarrow> n) (mo_max_text_bytes opts)
      in if MarkdownEmitter_is_plain opts then push_str (''(video: '' @ body @ '')'' @ [newline]) em
         else
           let start = length (em_out em);
               em = push_str (''[video'' @ push_attr ''id'' (an_id node) @ '']'' @ body @ ''[/video]'' @ [newline]) em
           in push_span (an_id node) TagRegion start (length (em_out em)) None (an_name node) em)"

definition emit_node ::
    "(f64 \<Rightarrow> string) \<Rightarrow> (AgentNodeId \<Rightarrow> emitter_step) \<Rightarrow> AgentRenderTree \<Rightarrow> MarkdownOptions \<Rightarrow> AgentNode \<Rightarrow> emitter_step" where
  "emit_node show_f64 child tree opts node em =
     (case an_structural_role node of
        RolePage \<Rightarrow> emit_page child opts node em
      | Heading \<Rightarrow> Some (emit_heading_node show_f64 opts node em)
      | Paragraph \<Rightarrow> Some (emit_text_block show_f64 opts node em)
      | RoleText \<Rightarrow> Some (emit_text_block show_f64 opts node em)
      | Link \<Rightarrow> Some (emit_actionable show_f64 opts TagLink node em)
      | Button \<Rightarrow> Some (emit_actionable show_f64 opts TagButton node em)
      | Textbox \<Rightarrow> Some (emit_actionable show_f64 opts TagTextbox node em)
      | Checkbox \<Rightarrow> Some (emit_actionable show_f64 opts TagCheckbox node em)
      | Radio \<Rightarrow> Some (emit_actionable show_f64 opts TagRadio node em)
      | RoleSelect \<Rightarrow> Some (emit_select show_f64 tree opts node em)
      | Image \<Rightarrow> Some (emit_actionable show_f64 opts TagImage node em)
      | RoleList \<Rightarrow> emit_list child node em
      | ListItem \<Rightarrow> emit_list_item child node em
      | Table \<Rightarrow> emit_table show_f64 child tree opts node em
      | Row \<Rightarrow> emit_raw_children child (an_children node) em
      | Cell \<Rightarrow> emit_raw_children child (an_children node) em
      | Region \<Rightarrow> emit_region child opts node em
      | Dialog \<Rightarrow> emit_dialog child opts node em
      | Form \<Rightarrow> emit_raw_children child (an_children node) em
      | Menu \<Rightarrow> emit_region child opts node em
      | RoleTab \<Rightarrow> emit_region child opts node em
      | RoleFrame \<Rightarrow> emit_region child opts node em
      | RoleShadowRoot \<Rightarrow> emit_region child opts node em
      | Canvas \<Rightarrow> Some (emit_canvas opts node em)
      | Video \<Rightarrow> Some (emit_video opts node em)
      | UnknownRole \<Rightarrow> emit_raw_children child (an_children node) em)"

fun emit_child :: "nat \<Rightarrow> (f64 \<Rightarrow> string) \<Rightarrow> AgentRenderTree \<Rightarrow> MarkdownOptions \<Rightarrow> AgentNodeId \<Rightarrow> emitter_step" where
  "emit_child 0 show_f64 tree opts i em = None"
| "emit_child (Suc n) show_f64 tree opts i em =
     (case AgentRenderTree_find tree i of
        None \<Rightarrow> Some (skip_node em)
      | Some node \<Rightarrow>
          if \<not> mo_include_invisible opts \<and> \<not> ns_visible (an_state node) then Some (skip_node em)
          else if \<not> mo_include_disabled opts \<and> \<not> ns_enabled (an_state node) then Some (skip_node em)
          else emit_node show_f64 (emit_child n show_f64 tree opts) tree opts node em)"

definition ENVELOPE_PREFIX :: string where
  "ENVELOPE_PREFIX = ''<page-content trust='' @ [quote] @ ''untrusted'' @ [quote] @ ''>'' @ [newline]"

definition shift_span :: "nat \<Rightarrow> NodeSpan \<Rightarrow> NodeSpan" where
  "shift_span k sp = sp\<lparr>nsp_start := nsp_start sp + k, nsp_end := nsp_end sp + k\<rparr>"

definition enclose :: "MarkdownOptions \<Rightarrow> string \<Rightarrow> string" where
  "enclose opts body =
     (if mo_raw opts then body
      else ENVELOPE_PREFIX @ body @ (if suffix [newline] body then [] else [newline]) @ ''</page-content>'')"

definition MarkdownEmitter_emit :: "nat \<Rightarrow> (f64 \<Rightarrow> string) \<Rightarrow> AgentRenderTree \<Rightarrow> MarkdownOptions \<Rightarrow> MarkdownView option" where
  "MarkdownEmitter_emit n show_f64 tree opts =
     map_option (\<lambda>em.
         \<lparr>mv_format_version = PAGE_TEXT_FORMAT_VERSION, mv_content = enclose opts (em_out em),
          mv_node_index = map (shift_span (if mo_raw opts then 0 else length ENVELOPE_PREFIX)) (em_index em),
          mv_skipped_nodes = em_skipped em\<rparr>)
       (case AgentRenderTree_find tree (art_root tree) of
          None \<Rightarrow> Some MarkdownEmitter_new
        | Some node \<Rightarrow> emit_page (emit_child n show_f64 tree opts) opts node MarkdownEmitter_new)"

subsection \<open>Secret references stay out of the text\<close>

text \<open>A tree with the name of every secret reference erased.\<close>

definition mask_node :: "AgentNode \<Rightarrow> AgentNode" where
  "mask_node n = n\<lparr>an_value := (case an_value n of Some (SecretReference _) \<Rightarrow> Some (SecretReference []) | v \<Rightarrow> v)\<rparr>"

definition mask_tree :: "AgentRenderTree \<Rightarrow> AgentRenderTree" where
  "mask_tree tree = tree\<lparr>art_nodes := map mask_node (art_nodes tree)\<rparr>"

lemma mask_fields [simp]:
  "an_id (mask_node n) = an_id n" "an_structural_role (mask_node n) = an_structural_role n"
  "an_semantic_role (mask_node n) = an_semantic_role n" "an_name (mask_node n) = an_name n"
  "an_description (mask_node n) = an_description n" "an_state (mask_node n) = an_state n"
  "an_geometry (mask_node n) = an_geometry n" "an_children (mask_node n) = an_children n"
  by (simp_all add: mask_node_def)

lemma mask_value: "an_value (mask_node n) = (case an_value n of Some (SecretReference _) \<Rightarrow> Some (SecretReference []) | v \<Rightarrow> v)"
  by (simp add: mask_node_def)

lemma mask_texts [simp]:
  "node_text show_f64 (mask_node n) opts = node_text show_f64 n opts"
  "actionable_body_text show_f64 (mask_node n) tag opts = actionable_body_text show_f64 n tag opts"
  "url_value (mask_node n) = url_value n" "text_value (mask_node n) = text_value n"
  "option_value (mask_node n) = option_value n"
  unfolding node_text_def actionable_body_text_def url_value_def text_value_def option_value_def mask_value
  by (simp_all split: option.split AgentValue.split)

lemma mask_attrs [simp]:
  "link_href (mask_node n) = link_href n" "image_src (mask_node n) = image_src n" "placeholder (mask_node n) = placeholder n"
  "emit_extra_attrs (mask_node n) tag = emit_extra_attrs n tag" "resolved_url tag (mask_node n) = resolved_url tag n"
  "heading_level (mask_node n) limit = heading_level n limit" "challenge_line (mask_node n) = challenge_line n"
  "option_body show_f64 opts (mask_node n) = option_body show_f64 opts n"
  by (simp_all add: link_href_def image_src_def placeholder_def emit_extra_attrs_def resolved_url_def heading_level_def
      challenge_line_def option_body_def Let_def cong: option.case_cong MarkdownTag.case_cong)

lemma mask_find [simp]: "AgentRenderTree_find (mask_tree tree) i = map_option mask_node (AgentRenderTree_find tree i)"
proof -
  have "find (\<lambda>n. an_id n = i) (map mask_node ns) = map_option mask_node (find (\<lambda>n. an_id n = i) ns)" for ns
    by (induction ns) simp_all
  then show ?thesis by (simp add: AgentRenderTree_find_def mask_tree_def)
qed

lemma mask_selected: "List.map_filter (AgentRenderTree_find (mask_tree tree)) is = map mask_node (List.map_filter (AgentRenderTree_find tree) is)"
  by (induction "is") (auto simp: List.map_filter_simps split: option.split)

lemma mask_options [simp]: "select_options (mask_tree tree) opts (mask_node n) = map mask_node (select_options tree opts n)"
  by (simp add: select_options_def mask_selected filter_map o_def)

lemma mask_rows [simp]: "table_rows (mask_tree tree) (mask_node n) = map mask_node (table_rows tree n)"
  by (simp add: table_rows_def mask_selected filter_map o_def)

lemma mask_emit_option: "emit_option show_f64 opts \<circ> mask_node = emit_option show_f64 opts"
  by (simp add: fun_eq_iff emit_option_def)

lemma mask_selected_option [simp]: "selected_option show_f64 opts (map mask_node cs) = selected_option show_f64 opts cs"
  by (simp add: selected_option_def fold_map o_def)

lemma mask_select [simp]: "emit_select show_f64 (mask_tree tree) opts (mask_node n) em = emit_select show_f64 tree opts n em"
  by (simp add: emit_select_def emit_select_plain_def fold_map mask_emit_option Let_def cong: option.case_cong)

lemma mask_cells [simp]: "render_row_cells show_f64 child (mask_tree tree) opts is em = render_row_cells show_f64 child tree opts is em"
  by (induction "is" arbitrary: em) (auto simp: Let_def split: option.split)

lemma mask_emit_rows [simp]:
  "emit_rows show_f64 child (mask_tree tree) opts fmt (map mask_node rows) em = emit_rows show_f64 child tree opts fmt rows em"
  by (induction rows arbitrary: em) (auto simp: emit_row_def split: option.split)

lemma mask_table [simp]: "emit_table show_f64 child (mask_tree tree) opts (mask_node n) em = emit_table show_f64 child tree opts n em"
  by (cases "table_rows tree n") (simp_all add: emit_table_def emit_table_plain_def emit_row_def Let_def split: option.split)

lemma mask_emit_page [simp]: "emit_page child opts (mask_node n) em = emit_page child opts n em"
  by (simp add: emit_page_def)

lemma mask_emit_node: "emit_node show_f64 child (mask_tree tree) opts (mask_node n) em = emit_node show_f64 child tree opts n em"
  by (cases "an_structural_role n")
     (simp_all add: emit_node_def emit_heading_node_def emit_text_block_def emit_actionable_def emit_actionable_plain_def
        emit_list_def emit_list_item_def emit_region_def emit_dialog_def emit_enclosed_def emit_canvas_def emit_video_def Let_def
        cong: option.case_cong)

lemma mask_emit_child: "emit_child n show_f64 (mask_tree tree) opts = emit_child n show_f64 tree opts"
proof (induction n)
  case (Suc n)
  show ?case by (intro ext) (simp add: Suc mask_emit_node split: option.split)
qed (auto simp: fun_eq_iff)

text \<open>
  C40: the text, its index and its counts are independent of the names of the secret references in the tree: erasing
  every such name gives the same view, in both formats.
\<close>

theorem page_text_is_independent_of_secret_references:
  "MarkdownEmitter_emit n show_f64 (mask_tree tree) opts = MarkdownEmitter_emit n show_f64 tree opts"
proof -
  have "art_root (mask_tree tree) = art_root tree" by (simp add: mask_tree_def)
  then show ?thesis by (simp add: MarkdownEmitter_emit_def mask_emit_child split: option.split)
qed

subsection \<open>The walk ends on every tree without a cycle\<close>

definition tree_kids :: "AgentRenderTree \<Rightarrow> AgentNodeId \<Rightarrow> AgentNodeId list" where
  "tree_kids tree i = (case AgentRenderTree_find tree i of None \<Rightarrow> [] | Some n \<Rightarrow> an_children n)"

abbreviation ends :: "(AgentNodeId \<Rightarrow> emitter_step) \<Rightarrow> AgentNodeId \<Rightarrow> bool" where
  "ends child i \<equiv> \<forall>em. child i em \<noteq> None"

lemma children_end: "\<forall>i \<in> set is. ends child i \<Longrightarrow> emit_raw_children child is em \<noteq> None"
  by (induction "is" arbitrary: em) (auto split: option.split)

lemma cells_end:
  "\<forall>i \<in> set is. \<forall>x \<in> set (tree_kids tree i). ends child x \<Longrightarrow> render_row_cells show_f64 child tree opts is em \<noteq> None"
proof (induction "is" arbitrary: em)
  case (Cons i "is")
  show ?case
  proof (cases "AgentRenderTree_find tree i")
    case (Some cell)
    have "\<forall>x \<in> set (an_children cell). ends child x" using Cons.prems Some by (simp add: tree_kids_def)
    from children_end [OF this, of em] show ?thesis
      using Cons by (simp add: Some Let_def del: not_None_eq split: option.split)
  qed (use Cons in \<open>simp del: not_None_eq\<close>)
qed simp

lemma row_ends:
  "\<forall>i \<in> set (an_children row). \<forall>x \<in> set (tree_kids tree i). ends child x \<Longrightarrow> emit_row show_f64 child tree opts fmt row em \<noteq> None"
  using cells_end [of "an_children row"] by (simp add: emit_row_def del: not_None_eq)

lemma rows_end:
  "\<forall>row \<in> set rows. \<forall>i \<in> set (an_children row). \<forall>x \<in> set (tree_kids tree i). ends child x \<Longrightarrow>
   emit_rows show_f64 child tree opts fmt rows em \<noteq> None"
proof (induction rows arbitrary: em)
  case (Cons row rows)
  have "emit_row show_f64 child tree opts fmt row em \<noteq> None" using Cons.prems by (intro row_ends) simp
  then show ?case using Cons by (simp del: not_None_eq split: option.split)
qed simp

lemma table_rows_kids: "row \<in> set (table_rows tree node) \<Longrightarrow> \<exists>i \<in> set (an_children node). AgentRenderTree_find tree i = Some row"
  by (auto simp: table_rows_def List.map_filter_def)

lemma table_ends:
  assumes "\<And>x. under (tree_kids tree) i x \<Longrightarrow> ends child x" and node: "AgentRenderTree_find tree i = Some node"
  shows "emit_table show_f64 child tree opts node em \<noteq> None"
proof -
  have deep: "\<forall>row \<in> set (table_rows tree node). \<forall>c \<in> set (an_children row). \<forall>x \<in> set (tree_kids tree c). ends child x"
  proof (intro ballI)
    fix row c x
    assume row: "row \<in> set (table_rows tree node)" and c: "c \<in> set (an_children row)" and x: "x \<in> set (tree_kids tree c)"
    obtain r where r: "r \<in> set (an_children node)" "AgentRenderTree_find tree r = Some row" using table_rows_kids [OF row] by blast
    have "kid (tree_kids tree) i r" "kid (tree_kids tree) r c" "kid (tree_kids tree) c x"
      using r c x node by (simp_all add: kid_def tree_kids_def)
    then have "under (tree_kids tree) i x" by (auto intro: tranclp.intros)
    then show "ends child x" by (rule assms(1))
  qed
  show ?thesis
  proof (cases "table_rows tree node")
    case (Cons header body)
    have header: "emit_row show_f64 child tree opts fmt header em \<noteq> None" for fmt em
      using deep Cons by (intro row_ends) simp
    have "emit_rows show_f64 child tree opts fmt rows em \<noteq> None" if "set rows \<subseteq> set (table_rows tree node)" for fmt rows em
      using deep that by (intro rows_end) blast
    then have "emit_rows show_f64 child tree opts fmt body em \<noteq> None"
      "emit_rows show_f64 child tree opts fmt (header # body) em \<noteq> None" for fmt em
      using Cons by (auto simp del: emit_rows.simps not_None_eq)
    then show ?thesis
      using header by (simp add: Cons emit_table_def emit_table_plain_def Let_def del: not_None_eq emit_rows.simps split: option.split)
  qed (simp add: emit_table_def emit_table_plain_def)
qed

lemma node_ends:
  assumes ends: "\<And>x. under (tree_kids tree) i x \<Longrightarrow> ends child x" and node: "AgentRenderTree_find tree i = Some node"
  shows "emit_node show_f64 child tree opts node em \<noteq> None"
proof -
  have "kid (tree_kids tree) i x" if "x \<in> set (an_children node)" for x using that node by (simp add: kid_def tree_kids_def)
  then have "\<forall>x \<in> set (an_children node). ends child x" using ends by blast
  note children = children_end [OF this]
  show ?thesis
    using children table_ends [OF ends node]
    by (cases "an_structural_role node")
       (simp_all add: emit_node_def emit_page_def emit_list_def emit_list_item_def emit_region_def emit_dialog_def
          emit_enclosed_def Let_def)
qed

lemma emit_child_ends:
  assumes "well_grounded (tree_kids tree) i" and "A \<subseteq> an_id ` set (art_nodes tree)"
    and "\<forall>a \<in> A. under (tree_kids tree) a i" and "card (an_id ` set (art_nodes tree) - A) < n"
  shows "emit_child n show_f64 tree opts i em \<noteq> None"
  using assms
proof (induction n arbitrary: i A em)
  case (Suc n)
  let ?D = "an_id ` set (art_nodes tree)"
  show ?case
  proof (cases "AgentRenderTree_find tree i")
    case (Some node)
    then have i: "i \<in> ?D" by (auto simp: AgentRenderTree_find_def find_Some_iff)
    have "i \<notin> A" using Suc.prems(3) grounded_not_under_self [OF Suc.prems(1)] by auto
    with i have eq: "?D - A = insert i (?D - insert i A)" by auto
    have "card (?D - A) = Suc (card (?D - insert i A))" by (subst eq, rule card_insert_disjoint) auto
    with Suc.prems(4) have less: "card (?D - insert i A) < n" by linarith
    have "ends (emit_child n show_f64 tree opts) x" if x: "under (tree_kids tree) i x" for x
    proof -
      have "well_grounded (tree_kids tree) x"
        using x Suc.prems(1) by (induction rule: tranclp_induct) (auto intro: accp_downward)
      moreover have "\<forall>a \<in> insert i A. under (tree_kids tree) a x"
        using x Suc.prems(3) by (auto intro: tranclp_trans)
      ultimately show ?thesis using Suc.IH [of x "insert i A"] i Suc.prems(2) less by blast
    qed
    from node_ends [OF this Some] show ?thesis by (simp add: Some)
  qed simp
qed simp

text \<open>
  A tree in which no node lies under itself is written as text: the depth of one call for each node and one more is
  enough.
\<close>

lemma page_text_ends:
  assumes "well_grounded (tree_kids tree) (art_root tree)"
  shows "\<exists>view. MarkdownEmitter_emit (Suc (length (art_nodes tree))) show_f64 tree opts = Some view"
proof (cases "AgentRenderTree_find tree (art_root tree)")
  case (Some node)
  have "ends (emit_child (Suc (length (art_nodes tree))) show_f64 tree opts) x" if "x \<in> set (an_children node)" for x
  proof -
    have "kid (tree_kids tree) (art_root tree) x" using that Some by (simp add: kid_def tree_kids_def)
    then have "well_grounded (tree_kids tree) x" using assms by (auto intro: accp_downward)
    moreover have "card (an_id ` set (art_nodes tree)) < Suc (length (art_nodes tree))"
      using card_image_le [of "set (art_nodes tree)" an_id] card_length [of "art_nodes tree"] by simp
    ultimately show ?thesis using emit_child_ends [of tree x "{}"] by (simp del: emit_child.simps)
  qed
  then show ?thesis using children_end by (fastforce simp: MarkdownEmitter_emit_def Some emit_page_def)
qed (simp add: MarkdownEmitter_emit_def)

subsection \<open>The index points at the text\<close>

text \<open>
  What an entry of the index points at names its node in an \<open>id\<close> attribute, or is a markdown link to its address.
\<close>

definition names_its_node :: "NodeSpan \<Rightarrow> string \<Rightarrow> bool" where
  "names_its_node sp s \<longleftrightarrow> (\<exists>a b. s = a @ push_attr ''id'' (nsp_id sp) @ b)
     \<or> (\<exists>a u. nsp_href sp = Some u \<and> s = a @ ''](''  @ u @ '')'')"

definition span_ok :: "string \<Rightarrow> NodeSpan \<Rightarrow> bool" where
  "span_ok out sp \<longleftrightarrow> nsp_start sp \<le> nsp_end sp \<and> nsp_end sp \<le> length out
     \<and> names_its_node sp (take (nsp_end sp - nsp_start sp) (drop (nsp_start sp) out))"

text \<open>A step that only appends, and whose new entries point at what they should.\<close>

definition appends :: "MarkdownEmitter \<Rightarrow> MarkdownEmitter \<Rightarrow> bool" where
  "appends em em' \<longleftrightarrow> prefix (em_out em) (em_out em')
     \<and> (list_all (span_ok (em_out em)) (em_index em) \<longrightarrow> list_all (span_ok (em_out em')) (em_index em'))"

lemma appends_refl [simp]: "appends em em"
  by (simp add: appends_def)

lemma appends_trans: "appends a b \<Longrightarrow> appends b c \<Longrightarrow> appends a c"
  by (auto simp: appends_def intro: prefix_order.trans)

lemma span_ok_grows: "span_ok out sp \<Longrightarrow> span_ok (out @ s) sp"
  by (auto simp: span_ok_def)

lemma appends_push_str [simp]: "appends em (push_str s em)"
  by (auto simp: appends_def push_str_def list_all_iff span_ok_grows)

lemma appends_skip [simp]: "appends em (skip_node em)"
  by (simp add: appends_def skip_node_def)

lemma appends_depth [simp]: "appends em (em\<lparr>em_list_depth := d\<rparr>)"
  by (simp add: appends_def)

lemma appends_push_span:
  "appends em em' \<Longrightarrow> span_ok (em_out em') \<lparr>nsp_id = i, nsp_tag = tag, nsp_start = start, nsp_end = stop, nsp_href = href, nsp_name = name\<rparr> \<Longrightarrow>
   appends em (push_span i tag start stop href name em')"
  by (auto simp: appends_def push_span_def)

lemma appends_span:
  "names_its_node \<lparr>nsp_id = i, nsp_tag = tag, nsp_start = length (em_out em), nsp_end = length (em_out em) + length s,
      nsp_href = href, nsp_name = name\<rparr> s \<Longrightarrow>
   appends em (emit_span s i tag href name em)"
  unfolding emit_span_def Let_def
  by (intro appends_push_span appends_trans [OF appends_push_str appends_push_str])
     (simp add: span_ok_def push_str_def)

lemma names_by_id: "s = a @ push_attr ''id'' (nsp_id sp) @ b \<Longrightarrow> names_its_node sp s"
  by (auto simp: names_its_node_def)

lemma names_by_link: "nsp_href sp = Some u \<Longrightarrow> s = a @ ''](''  @ u @ '')'' \<Longrightarrow> names_its_node sp s"
  unfolding names_its_node_def by blast

lemma actionable_appends: "appends em (emit_actionable show_f64 opts tag node em)"
proof (cases "MarkdownEmitter_is_plain opts")
  case True
  then show ?thesis by (cases tag) (simp_all add: emit_actionable_def emit_actionable_plain_def Let_def)
next
  case False
  show ?thesis
  proof (cases "resolved_url tag node")
    case None
    let ?s = "''['' @ MarkdownTag_as_str tag @ push_attr ''id'' (an_id node) @ emit_extra_attrs node tag @ '']''
       @ (if actionable_body_text show_f64 node tag opts = [] \<or> tag = TagTextbox then [] else actionable_body_text show_f64 node tag opts)
       @ ''[/'' @ MarkdownTag_as_str tag @ '']''"
    have "appends em (emit_span ?s (an_id node) tag (link_href node) (an_name node) em)"
      by (intro appends_span names_by_id [where a = "''['' @ MarkdownTag_as_str tag"]) simp
    then show ?thesis using False None unfolding emit_actionable_def Let_def by simp
  next
    case (Some url)
    let ?body = "actionable_body_text show_f64 node tag opts"
    let ?a = "if tag = TagImage then ''!['' @ (if ?body = [] then ''image'' else ?body) else ''['' @ ?body"
    have "appends em (emit_span (?a @ '']('' @ url @ '')'') (an_id node) tag (Some url) (an_name node) em)"
      by (intro appends_span names_by_link [where u = url and a = ?a]) simp_all
    then show ?thesis using False Some unfolding emit_actionable_def Let_def by simp
  qed
qed

lemma option_appends: "appends em (emit_option show_f64 opts c em)"
  unfolding emit_option_def by (intro appends_span names_by_id [where a = "''  [option''"]) simp

lemma options_append: "appends em (fold (emit_option show_f64 opts) cs em)"
  by (induction cs arbitrary: em) (auto intro: appends_trans [OF option_appends])

text \<open>A span around what was written since its opening tag.\<close>

lemma appends_around:
  assumes "appends (push_str (a @ push_attr ''id'' i @ b) em) em'"
  shows "appends em (push_span i tag (length (em_out em)) (length (em_out (push_str c em'))) href name (push_str d (push_str c em')))"
proof (rule appends_push_span)
  show "appends em (push_str d (push_str c em'))"
    by (rule appends_trans [OF appends_push_str appends_trans [OF assms appends_trans [OF appends_push_str appends_push_str]]])
  obtain r where "em_out em' = em_out em @ a @ push_attr ''id'' i @ b @ r"
    using assms by (auto simp: appends_def push_str_def prefix_def)
  then show "span_ok (em_out (push_str d (push_str c em')))
      \<lparr>nsp_id = i, nsp_tag = tag, nsp_start = length (em_out em), nsp_end = length (em_out (push_str c em')), nsp_href = href, nsp_name = name\<rparr>"
    by (auto simp: span_ok_def push_str_def names_its_node_def)
qed

lemma select_appends: "appends em (emit_select show_f64 tree opts node em)"
proof (cases "MarkdownEmitter_is_plain opts")
  case False
  let ?b = "attr_opt ''name'' (an_name node) @ attr_if (\<not> ns_enabled (an_state node)) ''disabled'' @ '']'' @ [newline]"
  let ?open = "push_str (''[select'' @ push_attr ''id'' (an_id node) @ ?b) em"
  let ?em = "fold (emit_option show_f64 opts) (select_options tree opts node) ?open"
  have "appends ?open ?em" by (rule options_append)
  then have "appends em (push_span (an_id node) TagSelect (length (em_out em)) (length (em_out (push_str ''[/select]'' ?em)))
      None (an_name node) (push_str [newline] (push_str ''[/select]'' ?em)))"
    by (rule appends_around)
  then show ?thesis using False unfolding emit_select_def Let_def by simp
qed (simp add: emit_select_def emit_select_plain_def Let_def)

lemma video_appends: "appends em (emit_video opts node em)"
proof (cases "MarkdownEmitter_is_plain opts")
  case False
  let ?body = "truncate (case an_name node of None \<Rightarrow> ''(video)'' | Some n \<Rightarrow> n) (mo_max_text_bytes opts)"
  let ?em = "push_str (''[video'' @ push_attr ''id'' (an_id node) @ '']'' @ ?body @ ''[/video]'' @ [newline]) em"
  have "appends em (push_span (an_id node) TagRegion (length (em_out em)) (length (em_out ?em)) None (an_name node) ?em)"
    by (intro appends_push_span appends_push_str)
       (auto simp: span_ok_def push_str_def intro!: names_by_id [where a = "''[video''"])
  then show ?thesis using False unfolding emit_video_def Let_def by simp
qed (simp add: emit_video_def Let_def)

abbreviation child_appends :: "(AgentNodeId \<Rightarrow> emitter_step) \<Rightarrow> bool" where
  "child_appends child \<equiv> \<forall>i em em'. child i em = Some em' \<longrightarrow> appends em em'"

lemma children_append: "child_appends child \<Longrightarrow> emit_raw_children child is em = Some em' \<Longrightarrow> appends em em'"
proof (induction "is" arbitrary: em)
  case (Cons i "is")
  then obtain em2 where "child i em = Some em2" "emit_raw_children child is em2 = Some em'" by (auto split: option.splits)
  then show ?case using Cons.prems(1) Cons.IH [of em2] appends_trans [of em em2 em'] by blast
qed simp

lemma page_appends:
  assumes "child_appends child" and "emit_page child opts node em = Some em'"
  shows "appends em em'"
proof (cases "an_name node")
  case None
  then show ?thesis using assms(2) children_append [OF assms(1)] by (simp add: emit_page_def)
next
  case (Some title)
  let ?s = "if MarkdownEmitter_is_plain opts then str_trim title @ [newline, newline]
    else ''[heading level='' @ [quote, CHR ''1'', quote] @ '']'' @ escape_attr_inline (str_trim title) @ ''[/heading]'' @ [newline]"
  have "emit_page child opts node em = emit_raw_children child (an_children node) (push_str ?s em)"
    by (simp add: emit_page_def Some)
  then have "emit_raw_children child (an_children node) (push_str ?s em) = Some em'" using assms(2) by (rule trans [OF sym])
  from appends_trans [OF appends_push_str children_append [OF assms(1) this]] show ?thesis .
qed

lemma enclosed_appends:
  assumes "child_appends child" and "emit_enclosed child tag node em = Some em'"
  shows "appends em em'"
proof -
  let ?open = "''['' @ MarkdownTag_as_str tag @ push_attr ''id'' (an_id node) @ emit_extra_attrs node tag @ '']'' @ [newline]"
  obtain em2 where em2: "emit_raw_children child (an_children node) (push_str ?open em) = Some em2"
    "em' = push_span (an_id node) tag (length (em_out em)) (length (em_out (push_str (''[/'' @ MarkdownTag_as_str tag @ '']'') em2)))
       None (an_name node) (push_str [newline] (push_str (''[/'' @ MarkdownTag_as_str tag @ '']'') em2))"
    using assms(2) by (auto simp: emit_enclosed_def Let_def)
  have "appends (push_str ((''['' @ MarkdownTag_as_str tag) @ push_attr ''id'' (an_id node) @ emit_extra_attrs node tag @ '']'' @ [newline]) em) em2"
    using children_append [OF assms(1) em2(1)] by simp
  then show ?thesis unfolding em2(2) by (rule appends_around)
qed

text \<open>List items and tables rewrite what their children wrote; elsewhere the index stays true.\<close>

lemma node_appends:
  assumes child: "child_appends child" and role: "an_structural_role node \<notin> {ListItem, Table}"
    and step: "emit_node show_f64 child tree opts node em = Some em'"
  shows "appends em em'"
proof -
  note raw = children_append [OF child] and enclosed = enclosed_appends [OF child]
  have plain: "emit_raw_children child is (push_str s em) = Some em' \<Longrightarrow> appends em em'" for "is" s
    using raw appends_trans [OF appends_push_str] by blast
  show ?thesis
    using step role
    by (cases "an_structural_role node")
       (auto simp: emit_node_def emit_page_def emit_heading_node_def emit_text_block_def emit_list_def emit_region_def
          emit_dialog_def emit_canvas_def Let_def actionable_appends select_appends video_appends
          intro: raw plain enclosed appends_trans [OF appends_depth] appends_trans [OF _ appends_depth]
          split: option.splits if_splits)
qed

lemma emit_child_appends:
  assumes "list_all (\<lambda>n. an_structural_role n \<notin> {ListItem, Table}) (art_nodes tree)"
  shows "child_appends (emit_child n show_f64 tree opts)"
proof (induction n)
  case (Suc n)
  have "appends em em'" if "emit_child (Suc n) show_f64 tree opts i em = Some em'" for i em em'
  proof (cases "AgentRenderTree_find tree i")
    case (Some node)
    then have "node \<in> set (art_nodes tree)" by (auto simp: AgentRenderTree_find_def find_Some_iff)
    then have "an_structural_role node \<notin> {ListItem, Table}" using assms by (simp add: list_all_iff)
    from node_appends [OF Suc this] show ?thesis using that Some by (auto split: if_splits)
  qed (use that in auto)
  then show ?case by blast
qed simp

lemma span_ok_shift: "span_ok out sp \<Longrightarrow> span_ok (p @ out @ q) (shift_span (length p) sp)"
  by (auto simp: span_ok_def shift_span_def names_its_node_def)


definition sample_text_node :: "string \<Rightarrow> StructuralRole \<Rightarrow> string option \<Rightarrow> AgentValue option \<Rightarrow> string list \<Rightarrow> AgentNode" where
  "sample_text_node i role name val kids =
     \<lparr>an_id = i, an_origin = None, an_identity_key = None, an_structural_role = role, an_semantic_role = None,
      an_application_type = None, an_name = name, an_value = val, an_description = None,
      an_state = NodeState_default\<lparr>ns_visible := True, ns_enabled := True\<rparr>, an_geometry = None, an_relationships = [],
      an_actions = [], an_children = kids, an_provenance = [], an_confidence = Confidence_DIRECT, an_generation = 1\<rparr>"

definition sample_text_tree :: AgentRenderTree where
  "sample_text_tree = \<lparr>art_root = ''r'',
     art_nodes = [sample_text_node ''r'' RolePage None None [''b''], sample_text_node ''b'' Button (Some ''Go'') None []],
     art_generation = 1, art_truncated = False\<rparr>"


subsection \<open>What the text does not keep\<close>

text \<open>
  A cell is cut off the output once it was written, while the entries its children added to the index stay: they
  point behind the end of what is written so far.
\<close>

lemma cells_leave_no_text:
  assumes "child_appends child"
  shows "render_row_cells show_f64 child tree opts is em = Some (cells, em') \<Longrightarrow> em_out em' = em_out em"
proof (induction "is" arbitrary: em cells)
  case (Cons i "is")
  show ?case
  proof (cases "AgentRenderTree_find tree i")
    case (Some cell)
    have "take (length (em_out em)) (em_out em2) = em_out em"
      if "emit_raw_children child (an_children cell) em = Some em2" for em2
      using children_append [OF assms that] by (auto simp: appends_def prefix_def)
    then show ?thesis
      using Cons Some by (fastforce simp: Let_def split: if_splits option.splits)
  qed (use Cons in auto)
qed simp

text \<open>
  Text is written as it is: a page whose text is a closing tag of the envelope closes the envelope, and what it
  writes next stands outside of it.
\<close>

lemma page_can_close_the_envelope:
  assumes "AgentRenderTree_find tree (art_root tree) = Some page" "an_name page = None" "an_children page = [i]"
    and "AgentRenderTree_find tree i = Some node" "an_structural_role node = RoleText" "an_value node = Some (TextValue v)"
    and "ns_visible (an_state node)" "ns_enabled (an_state node)" "v \<noteq> []" "length v \<le> mo_max_text_bytes opts" "\<not> mo_raw opts"
  shows "map_option mv_content (MarkdownEmitter_emit (Suc n) show_f64 tree opts)
    = Some (ENVELOPE_PREFIX @ v @ [newline] @ ''</page-content>'')"
  using assms
  by (simp add: MarkdownEmitter_emit_def emit_page_def emit_node_def emit_text_block_def node_text_def truncate_def
      enclose_def push_str_def MarkdownEmitter_new_def Let_def)

text \<open>The level of a heading far down the page is computed in 32 bits and cut to 8: 255 lines down it is 0.\<close>

lemma heading_level_wraps:
  assumes "an_description node = None" "an_geometry node = Some g" "geo_y g = Finite 16320"
  shows "heading_level node 6 = 0"
proof -
  have "f64_div (Finite 16320) (Finite 64) = Finite 255"
    using f64_round_int [of 255] by simp
  then show ?thesis using assms by (simp add: heading_level_def Let_def)
qed

lemma cut_at_le: "cut_at s n \<le> n"
  by (induction n) auto

lemma truncate_bound: "length (truncate s n) \<le> n + 3"
  using cut_at_le [of s n] by (simp add: truncate_def)

lemma escaped_values_are_inert: "quote \<notin> set (escape_attr_inline s) \<and> CHR ''<'' \<notin> set (escape_attr_inline s)"
  by (induction s) (auto simp: escape_attr_inline_def escape_char_def)

text \<open>The tree of a compiled page has no root to start from: its text is an empty envelope.\<close>

lemma compiled_page_has_no_text:
  assumes "dom_step\<^sup>*\<^sup>* (RawDocument_new url) d" and "SemanticCompiler_compile d layout s = Some (result, s')"
  shows "map_option mv_node_index (MarkdownEmitter_emit n show_f64 (cr_tree result) opts) = Some []"
proof -
  have d: "dom_ok d" using assms(1) by (rule observed_dom_ok)
  have "AgentRenderTree_find (cr_tree result) (art_root (cr_tree result)) = None"
    using assms(2) unfolding compile_returns [OF d] by (auto simp: AgentRenderTree_find_def find_None_iff dom_id_def)
  then show ?thesis by (simp add: MarkdownEmitter_emit_def MarkdownEmitter_new_def)
qed

end
