(* ===== verification/Conformance.thy ===== *)
theory Conformance
  imports Identity Web
begin

section \<open>Conformance reports\<close>

text \<open>
  The crate \<open>crates/conformance\<close>: the support matrix read off the capabilities of an engine, the loading of fixtures
  and the report of a run. The file system, the decoder, the equality of JSON values and the evaluation of a fixture
  are arguments; the descent into directories carries its depth, \<open>None\<close> being a deeper tree.
\<close>

datatype SupportStatus = Supported | Partial | StatusUnsupported

datatype WebApi =
    Forms | Dialogs | Focus | Selection | ApiClipboard | Downloads | Uploads | Media | ApiCanvas | WebGl | Geolocation
  | DeviceCapabilities | Notifications | ApiStorage | ServiceWorkers | WebAuthn | ApiPermissions

text \<open>The derived order is the order of the declaration.\<close>

fun api_rank :: "WebApi \<Rightarrow> nat" where
  "api_rank Forms = 0"
| "api_rank Dialogs = 1"
| "api_rank Focus = 2"
| "api_rank Selection = 3"
| "api_rank ApiClipboard = 4"
| "api_rank Downloads = 5"
| "api_rank Uploads = 6"
| "api_rank Media = 7"
| "api_rank ApiCanvas = 8"
| "api_rank WebGl = 9"
| "api_rank Geolocation = 10"
| "api_rank DeviceCapabilities = 11"
| "api_rank Notifications = 12"
| "api_rank ApiStorage = 13"
| "api_rank ServiceWorkers = 14"
| "api_rank WebAuthn = 15"
| "api_rank ApiPermissions = 16"

definition all_apis :: "WebApi list" where
  "all_apis =
     [Forms, Dialogs, Focus, Selection, ApiClipboard, Downloads, Uploads, Media, ApiCanvas, WebGl, Geolocation,
      DeviceCapabilities, Notifications, ApiStorage, ServiceWorkers, WebAuthn, ApiPermissions]"

lemma api_rank_nth: "all_apis ! api_rank a = a"
  by (cases a) (simp_all add: all_apis_def)

lemma api_rank_inj: "api_rank a = api_rank b \<Longrightarrow> a = b"
  by (metis api_rank_nth)

instantiation WebApi :: linorder
begin

definition less_eq_WebApi :: "WebApi \<Rightarrow> WebApi \<Rightarrow> bool" where
  "less_eq_WebApi a b \<longleftrightarrow> api_rank a \<le> api_rank b"

definition less_WebApi :: "WebApi \<Rightarrow> WebApi \<Rightarrow> bool" where
  "less_WebApi a b \<longleftrightarrow> api_rank a < api_rank b"

instance
  by standard (auto simp: less_eq_WebApi_def less_WebApi_def intro: api_rank_inj)

end

record ApiSupport =
  asu_status :: SupportStatus
  asu_capability :: "string option"
  asu_unsupported_behavior :: string

record SupportMatrix =
  smx_engine_name :: string
  smx_engine_version :: "string option"
  smx_apis :: "(WebApi, ApiSupport) BTreeMap"

definition api_feature :: "WebApi \<Rightarrow> EngineFeature option" where
  "api_feature api =
     (if api \<in> {Forms, Focus, Selection, Uploads} then Some FeatNativeInput
      else if api \<in> {Dialogs, Notifications, ApiPermissions} then Some FeatRuntimeObservation
      else if api \<in> {Downloads, ServiceWorkers} then Some FeatNetworkObservation
      else if api = ApiCanvas then Some FeatLayoutObservation
      else if api = ApiStorage then Some FeatSnapshots
      else None)"

fun feature_debug :: "EngineFeature \<Rightarrow> string" where
  "feature_debug FeatNavigation = ''Navigation''"
| "feature_debug FeatSnapshots = ''Snapshots''"
| "feature_debug FeatNativeInput = ''NativeInput''"
| "feature_debug FeatPageEvaluation = ''PageEvaluation''"
| "feature_debug FeatNetworkObservation = ''NetworkObservation''"
| "feature_debug FeatLayoutObservation = ''LayoutObservation''"
| "feature_debug FeatRuntimeObservation = ''RuntimeObservation''"

definition api_support :: "EngineCapabilities \<Rightarrow> WebApi \<Rightarrow> EngineFeature option" where
  "api_support capabilities api =
     (case api_feature api of
        None \<Rightarrow> None
      | Some feature \<Rightarrow> if feature \<in> ecap_features capabilities then Some feature else None)"

definition SupportMatrix_from_capabilities :: "EngineCapabilities \<Rightarrow> SupportMatrix" where
  "SupportMatrix_from_capabilities capabilities =
     \<lparr>smx_engine_name = ecap_engine_name capabilities, smx_engine_version = ecap_engine_version capabilities,
      smx_apis = fold (\<lambda>api. bt_insert api
          \<lparr>asu_status = (if api_support capabilities api \<noteq> None then Partial else StatusUnsupported),
           asu_capability = map_option feature_debug (api_support capabilities api),
           asu_unsupported_behavior = ''return normalized Unsupported instead of guessing''\<rparr>) all_apis []\<rparr>"

definition SupportMatrix_status :: "SupportMatrix \<Rightarrow> WebApi \<Rightarrow> SupportStatus" where
  "SupportMatrix_status m api = (case bt_get (smx_apis m) api of None \<Rightarrow> StatusUnsupported | Some s \<Rightarrow> asu_status s)"

record ConformanceFixture =
  cfx_id :: string
  cfx_api :: WebApi
  cfx_input :: Json
  cfx_expected :: Json

datatype FixtureLoadError = FixtureIo string | FixtureSerialization string | InvalidFixture string

definition load_fixture ::
    "(string \<Rightarrow> string + string) \<Rightarrow> (string \<Rightarrow> string + ConformanceFixture) \<Rightarrow> string \<Rightarrow> FixtureLoadError + ConformanceFixture" where
  "load_fixture read decode path =
     (case read path of
        Inl e \<Rightarrow> Inl (FixtureIo e)
      | Inr bytes \<Rightarrow>
          (case decode bytes of
             Inl e \<Rightarrow> Inl (FixtureSerialization (path @ '': '' @ e))
           | Inr fixture \<Rightarrow>
               if str_trim (cfx_id fixture) = [] then Inl (InvalidFixture (path @ '': fixture id is empty''))
               else Inr fixture))"

text \<open>\<open>Path::extension\<close> of the last component.\<close>

definition path_extension :: "string \<Rightarrow> string option" where
  "path_extension path =
     (let name = last (split_on CHR ''/'' path);
          before = dropWhile (\<lambda>c. c \<noteq> CHR ''.'') (rev name)
      in if before = [] \<or> tl before = [] then None else Some (rev (takeWhile (\<lambda>c. c \<noteq> CHR ''.'') (rev name))))"

text \<open>
  \<open>read_dir\<close> fails or lists the entries of a directory, each of which fails or is the path of an entry; \<open>is_dir\<close>
  tells directories.
\<close>

fun json_paths ::
      "nat \<Rightarrow> (string \<Rightarrow> string + (string + string) list) \<Rightarrow> (string \<Rightarrow> bool) \<Rightarrow> string \<Rightarrow> (FixtureLoadError + string list) option"
  and json_entries ::
      "nat \<Rightarrow> (string \<Rightarrow> string + (string + string) list) \<Rightarrow> (string \<Rightarrow> bool) \<Rightarrow> (string + string) list \<Rightarrow> string list \<Rightarrow>
       (FixtureLoadError + string list) option" where
  "json_paths 0 read_dir is_dir directory = None"
| "json_paths (Suc n) read_dir is_dir directory =
     (case read_dir directory of
        Inl e \<Rightarrow> Some (Inl (FixtureIo e))
      | Inr entries \<Rightarrow> json_entries n read_dir is_dir entries [])"
| "json_entries n read_dir is_dir [] paths = Some (Inr paths)"
| "json_entries n read_dir is_dir (Inl e # entries) paths = Some (Inl (FixtureIo e))"
| "json_entries n read_dir is_dir (Inr path # entries) paths =
     (if is_dir path
      then (case json_paths n read_dir is_dir path of
              None \<Rightarrow> None
            | Some (Inl e) \<Rightarrow> Some (Inl e)
            | Some (Inr below) \<Rightarrow> json_entries n read_dir is_dir entries (paths @ below))
      else json_entries n read_dir is_dir entries
             (if path_extension path = Some ''json'' then paths @ [path] else paths))"

text \<open>\<open>map(load_fixture).collect()\<close> stops at the first error.\<close>

fun load_all :: "(string \<Rightarrow> FixtureLoadError + ConformanceFixture) \<Rightarrow> string list \<Rightarrow> FixtureLoadError + ConformanceFixture list" where
  "load_all load [] = Inr []"
| "load_all load (p # ps) =
     (case load p of
        Inl e \<Rightarrow> Inl e
      | Inr fixture \<Rightarrow> (case load_all load ps of Inl e \<Rightarrow> Inl e | Inr fixtures \<Rightarrow> Inr (fixture # fixtures)))"

text \<open>Paths are sorted component by component.\<close>

definition load_fixtures ::
    "nat \<Rightarrow> (string \<Rightarrow> string + (string + string) list) \<Rightarrow> (string \<Rightarrow> bool) \<Rightarrow> (string \<Rightarrow> FixtureLoadError + ConformanceFixture) \<Rightarrow>
     string \<Rightarrow> (FixtureLoadError + ConformanceFixture list) option" where
  "load_fixtures n read_dir is_dir load directory =
     map_option (\<lambda>r. case r of
         Inl e \<Rightarrow> Inl e
       | Inr paths \<Rightarrow> load_all load (sort_key (split_on CHR ''/'') paths)) (json_paths n read_dir is_dir directory)"

record FixtureResult =
  fxr_fixture_id :: string
  fxr_passed :: bool
  fxr_actual :: Json
  fxr_detail :: "string option"

record CompatibilityReport =
  cmr_engine :: "SupportMatrix option"
  cmr_results :: "FixtureResult list"

definition CompatibilityReport_record ::
    "(Json \<Rightarrow> Json \<Rightarrow> bool) \<Rightarrow> ConformanceFixture \<Rightarrow> Json \<Rightarrow> CompatibilityReport \<Rightarrow> CompatibilityReport" where
  "CompatibilityReport_record json_eq fixture actual report =
     report\<lparr>cmr_results := cmr_results report @
       [\<lparr>fxr_fixture_id = cfx_id fixture, fxr_passed = json_eq actual (cfx_expected fixture), fxr_actual = actual,
         fxr_detail = None\<rparr>]\<rparr>"

definition run_fixture ::
    "(Json \<Rightarrow> Json \<Rightarrow> bool) \<Rightarrow> (ConformanceFixture \<Rightarrow> string + Json) \<Rightarrow> ConformanceFixture \<Rightarrow> CompatibilityReport \<Rightarrow> CompatibilityReport" where
  "run_fixture json_eq evaluate fixture report =
     (case evaluate fixture of
        Inr actual \<Rightarrow> CompatibilityReport_record json_eq fixture actual report
      | Inl e \<Rightarrow> report\<lparr>cmr_results := cmr_results report @
          [\<lparr>fxr_fixture_id = cfx_id fixture, fxr_passed = False, fxr_actual = JNull, fxr_detail = Some e\<rparr>]\<rparr>)"

definition CompatibilityReport_run ::
    "(Json \<Rightarrow> Json \<Rightarrow> bool) \<Rightarrow> SupportMatrix option \<Rightarrow> ConformanceFixture list \<Rightarrow> (ConformanceFixture \<Rightarrow> string + Json) \<Rightarrow> CompatibilityReport" where
  "CompatibilityReport_run json_eq engine fixtures evaluate =
     fold (run_fixture json_eq evaluate) fixtures \<lparr>cmr_engine = engine, cmr_results = []\<rparr>"

definition CompatibilityReport_passed :: "CompatibilityReport \<Rightarrow> bool" where
  "CompatibilityReport_passed report = list_all fxr_passed (cmr_results report)"

subsection \<open>Facts\<close>

text \<open>The matrix lists every interface, and claims partial support exactly where the feature behind it is there.\<close>

lemma matrix_get:
  "bt_get (fold (\<lambda>api. bt_insert api (f api)) apis m) a = (if a \<in> set apis then Some (f a) else bt_get m a)"
  by (induction apis arbitrary: m) auto

lemma matrix_is_conservative:
  "SupportMatrix_status (SupportMatrix_from_capabilities c) api =
     (if api_support c api \<noteq> None then Partial else StatusUnsupported)"
  "bt_get (smx_apis (SupportMatrix_from_capabilities c)) api \<noteq> None"
proof -
  have "api \<in> set all_apis" by (cases api) (simp_all add: all_apis_def)
  then show "SupportMatrix_status (SupportMatrix_from_capabilities c) api =
       (if api_support c api \<noteq> None then Partial else StatusUnsupported)"
    "bt_get (smx_apis (SupportMatrix_from_capabilities c)) api \<noteq> None"
    by (simp_all add: SupportMatrix_status_def SupportMatrix_from_capabilities_def matrix_get)
qed

text \<open>A run has one result for every fixture, in their order, and passes exactly when every fixture evaluates to what it expects.\<close>

lemma run_results:
  "cmr_results (fold (run_fixture json_eq evaluate) fixtures r) = cmr_results r @
     map (\<lambda>x. case evaluate x of
         Inr actual \<Rightarrow> \<lparr>fxr_fixture_id = cfx_id x, fxr_passed = json_eq actual (cfx_expected x), fxr_actual = actual, fxr_detail = None\<rparr>
       | Inl e \<Rightarrow> \<lparr>fxr_fixture_id = cfx_id x, fxr_passed = False, fxr_actual = JNull, fxr_detail = Some e\<rparr>) fixtures"
  by (induction fixtures arbitrary: r) (auto simp: run_fixture_def CompatibilityReport_record_def split: sum.split)

lemma report_is_faithful:
  "map fxr_fixture_id (cmr_results (CompatibilityReport_run json_eq engine fixtures evaluate)) = map cfx_id fixtures"
  "CompatibilityReport_passed (CompatibilityReport_run json_eq engine fixtures evaluate) \<longleftrightarrow>
     list_all (\<lambda>x. \<exists>actual. evaluate x = Inr actual \<and> json_eq actual (cfx_expected x)) fixtures"
proof -
  let ?result = "\<lambda>x. case evaluate x of
         Inr actual \<Rightarrow> \<lparr>fxr_fixture_id = cfx_id x, fxr_passed = json_eq actual (cfx_expected x), fxr_actual = actual, fxr_detail = None\<rparr>
       | Inl e \<Rightarrow> \<lparr>fxr_fixture_id = cfx_id x, fxr_passed = False, fxr_actual = JNull, fxr_detail = Some e\<rparr>"
  have results: "cmr_results (CompatibilityReport_run json_eq engine fixtures evaluate) = map ?result fixtures"
    by (simp add: CompatibilityReport_run_def run_results)
  have "fxr_fixture_id (?result x) = cfx_id x" "fxr_passed (?result x) \<longleftrightarrow> (\<exists>actual. evaluate x = Inr actual \<and> json_eq actual (cfx_expected x))" for x
    by (simp_all split: sum.split)
  then show "map fxr_fixture_id (cmr_results (CompatibilityReport_run json_eq engine fixtures evaluate)) = map cfx_id fixtures"
    "CompatibilityReport_passed (CompatibilityReport_run json_eq engine fixtures evaluate) \<longleftrightarrow>
       list_all (\<lambda>x. \<exists>actual. evaluate x = Inr actual \<and> json_eq actual (cfx_expected x)) fixtures"
    unfolding CompatibilityReport_passed_def results by (simp_all add: list_all_iff)
qed

text \<open>Loading answers a fixture for every path, none of which has a blank identifier, or the error of the first path that has one.\<close>

lemma loaded_fixtures_are_identified:
  "load_all (load_fixture read decode) paths = Inr fixtures \<Longrightarrow>
   length fixtures = length paths \<and> list_all (\<lambda>x. str_trim (cfx_id x) \<noteq> []) fixtures"
  by (induction paths arbitrary: fixtures) (auto simp: load_fixture_def split: sum.splits if_splits)

end
