(* ===== verification/Desktop.thy ===== *)
theory Desktop
  imports Observers
begin

section \<open>The desktop shell\<close>

text \<open>
  The library of \<open>apps/browsai-desktop\<close>: the surfaces of a visual shell, their layouts and the focus, the order in
  which they are painted and hit, and the projection of an engine layout into a paint frame. Fresh identifiers and
  the serde encoder and decoder are arguments; \<open>i32\<close> values are integers, their saturation written out.
\<close>

type_synonym SurfaceId = uuid

datatype Surface =
    SurfaceWindow u32 u32
  | SurfaceTab string string
  | NavigationControls bool bool bool
  | SurfaceDialog string string
  | PermissionPrompt string string
  | SurfaceConfirmation string string
  | SurfaceDownload string f32
  | SurfaceTakeover string
  | SurfaceDiagnostics string string
  | AccessibilityNotice string string

record SurfaceLayout =
  sly_x :: int
  sly_y :: int
  sly_width :: u32
  sly_height :: u32
  sly_z_index :: u32
  sly_visible :: bool

record RenderSurface =
  rsf_id :: SurfaceId
  rsf_surface :: Surface
  rsf_layout :: SurfaceLayout

record PaintCommand =
  pcm_node_id :: u64
  pcm_x :: f64
  pcm_y :: f64
  pcm_width :: f64
  pcm_height :: f64
  pcm_z_index :: int

record CompositorFrame =
  cfr_generation :: u64
  cfr_viewport_width :: f64
  cfr_viewport_height :: f64
  cfr_commands :: "PaintCommand list"

record DesktopShell =
  dsh_surfaces :: "(SurfaceId, Surface) BTreeMap"
  dsh_layouts :: "(SurfaceId, SurfaceLayout) BTreeMap"
  dsh_focused :: "SurfaceId option"
  dsh_locale :: string

record DesktopShellWire =
  dsw_surfaces :: "(SurfaceId \<times> Surface) list"
  dsw_layouts :: "(SurfaceId \<times> SurfaceLayout) list"
  dsw_focused :: "SurfaceId option"
  dsw_locale :: string

definition default_locale :: string where
  "default_locale = ''en-US''"

definition DesktopShell_default :: DesktopShell where
  "DesktopShell_default = \<lparr>dsh_surfaces = [], dsh_layouts = [], dsh_focused = None, dsh_locale = []\<rparr>"

definition DesktopShell_compose_layout :: "LayoutSnapshot \<Rightarrow> CompositorFrame" where
  "DesktopShell_compose_layout layout =
     \<lparr>cfr_generation = lsn_generation layout, cfr_viewport_width = rect_width (lsn_viewport layout),
      cfr_viewport_height = rect_height (lsn_viewport layout),
      cfr_commands = sort_key (\<lambda>c. (pcm_z_index c, pcm_node_id c))
        (map (\<lambda>b. \<lparr>pcm_node_id = lb_node_id b, pcm_x = rect_x (lb_rect b), pcm_y = rect_y (lb_rect b),
                     pcm_width = rect_width (lb_rect b), pcm_height = rect_height (lb_rect b), pcm_z_index = lb_z_index b\<rparr>)
          [b \<leftarrow> bt_values (lsn_boxes layout). lb_visible b \<and> \<not> lb_clipped b])\<rparr>"

fun surface_size :: "Surface \<Rightarrow> u32 \<times> u32" where
  "surface_size (SurfaceWindow width height) = (width, height)"
| "surface_size (SurfaceTab _ _) = (1024, 640)"
| "surface_size (NavigationControls _ _ _) = (640, 48)"
| "surface_size (SurfaceDownload _ _) = (420, 120)"
| "surface_size _ = (480, 240)"

definition next_z_index :: "DesktopShell \<Rightarrow> u32" where
  "next_z_index s = saturating_add (fold max (map sly_z_index (bt_values (dsh_layouts s))) 0) 1"

definition DesktopShell_open :: "SurfaceId \<Rightarrow> Surface \<Rightarrow> DesktopShell \<Rightarrow> SurfaceId \<times> DesktopShell" where
  "DesktopShell_open i surface s =
     (let (width, height) = surface_size surface
      in (i, s\<lparr>dsh_surfaces := bt_insert i surface (dsh_surfaces s),
               dsh_layouts := bt_insert i \<lparr>sly_x = 0, sly_y = 0, sly_width = width, sly_height = height,
                                           sly_z_index = next_z_index s, sly_visible = True\<rparr> (dsh_layouts s),
               dsh_focused := Some i\<rparr>))"

definition DesktopShell_locale :: "DesktopShell \<Rightarrow> string" where
  "DesktopShell_locale s = dsh_locale s"

definition DesktopShell_set_locale :: "string \<Rightarrow> DesktopShell \<Rightarrow> DesktopShell" where
  "DesktopShell_set_locale l s = s\<lparr>dsh_locale := l\<rparr>"

definition DesktopShell_close :: "SurfaceId \<Rightarrow> DesktopShell \<Rightarrow> Surface option \<times> DesktopShell" where
  "DesktopShell_close i s =
     (let removed = bt_get (dsh_surfaces s) i;
          surfaces = bt_remove i (dsh_surfaces s)
      in (removed, s\<lparr>dsh_surfaces := surfaces, dsh_layouts := bt_remove i (dsh_layouts s),
                     dsh_focused := (if dsh_focused s = Some i then bt_first_key surfaces else dsh_focused s)\<rparr>))"

definition DesktopShell_focus :: "SurfaceId \<Rightarrow> DesktopShell \<Rightarrow> bool \<times> DesktopShell" where
  "DesktopShell_focus i s =
     (if bt_contains_key (dsh_surfaces s) i then (True, s\<lparr>dsh_focused := Some i\<rparr>) else (False, s))"

definition DesktopShell_focused :: "DesktopShell \<Rightarrow> (SurfaceId \<times> Surface) option" where
  "DesktopShell_focused s = Option.bind (dsh_focused s) (\<lambda>i. map_option (Pair i) (bt_get (dsh_surfaces s) i))"

definition DesktopShell_surfaces :: "DesktopShell \<Rightarrow> (SurfaceId \<times> Surface) list" where
  "DesktopShell_surfaces s = dsh_surfaces s"

definition DesktopShell_layout :: "DesktopShell \<Rightarrow> SurfaceId \<Rightarrow> SurfaceLayout option" where
  "DesktopShell_layout s i = bt_get (dsh_layouts s) i"

definition DesktopShell_set_layout :: "SurfaceId \<Rightarrow> SurfaceLayout \<Rightarrow> DesktopShell \<Rightarrow> bool \<times> DesktopShell" where
  "DesktopShell_set_layout i layout s =
     (if \<not> bt_contains_key (dsh_surfaces s) i then (False, s)
      else (True, s\<lparr>dsh_layouts := bt_insert i layout (dsh_layouts s)\<rparr>))"

definition visible_surface :: "DesktopShell \<Rightarrow> SurfaceId \<times> Surface \<Rightarrow> RenderSurface option" where
  "visible_surface s e =
     (case bt_get (dsh_layouts s) (fst e) of
        None \<Rightarrow> None
      | Some layout \<Rightarrow>
          if sly_visible layout then Some \<lparr>rsf_id = fst e, rsf_surface = snd e, rsf_layout = layout\<rparr> else None)"

abbreviation paint_key :: "RenderSurface \<Rightarrow> u32 \<times> uuid" where
  "paint_key r \<equiv> (sly_z_index (rsf_layout r), rsf_id r)"

definition DesktopShell_render_plan :: "DesktopShell \<Rightarrow> RenderSurface list" where
  "DesktopShell_render_plan s = sort_key paint_key (List.map_filter (visible_surface s) (dsh_surfaces s))"

text \<open>\<open>x.saturating_add(w as i32)\<close>\<close>

definition far_edge :: "int \<Rightarrow> u32 \<Rightarrow> int" where
  "far_edge x w = max (- (2 ^ 31)) (min (2 ^ 31 - 1) (x + sint w))"

definition surface_contains :: "int \<Rightarrow> int \<Rightarrow> RenderSurface \<Rightarrow> bool" where
  "surface_contains x y r =
     (x \<ge> sly_x (rsf_layout r) \<and> y \<ge> sly_y (rsf_layout r)
      \<and> x < far_edge (sly_x (rsf_layout r)) (sly_width (rsf_layout r))
      \<and> y < far_edge (sly_y (rsf_layout r)) (sly_height (rsf_layout r)))"

definition DesktopShell_hit_test :: "DesktopShell \<Rightarrow> int \<Rightarrow> int \<Rightarrow> SurfaceId option" where
  "DesktopShell_hit_test s x y = map_option rsf_id (find (surface_contains x y) (rev (DesktopShell_render_plan s)))"

definition shell_wire :: "DesktopShell \<Rightarrow> DesktopShellWire" where
  "shell_wire s = \<lparr>dsw_surfaces = dsh_surfaces s, dsw_layouts = dsh_layouts s, dsw_focused = dsh_focused s, dsw_locale = dsh_locale s\<rparr>"

definition DesktopShell_to_json :: "(DesktopShellWire \<Rightarrow> 'e + 'text) \<Rightarrow> DesktopShell \<Rightarrow> 'e + 'text" where
  "DesktopShell_to_json encode s = encode (shell_wire s)"

definition DesktopShell_from_json :: "('text \<Rightarrow> 'e + DesktopShellWire) \<Rightarrow> 'text \<Rightarrow> 'e + DesktopShell" where
  "DesktopShell_from_json decode v =
     (case decode v of
        Inl e \<Rightarrow> Inl e
      | Inr wire \<Rightarrow>
          (let surfaces = bt_collect (dsw_surfaces wire)
           in Inr \<lparr>dsh_surfaces = surfaces,
                   dsh_layouts = bt_collect [e \<leftarrow> dsw_layouts wire. bt_contains_key surfaces (fst e)],
                   dsh_focused = (case dsw_focused wire of
                       None \<Rightarrow> None | Some i \<Rightarrow> if bt_contains_key surfaces i then Some i else None),
                   dsh_locale = dsw_locale wire\<rparr>))"

subsection \<open>Surfaces, layouts and focus agree\<close>

definition shell_ok :: "DesktopShell \<Rightarrow> bool" where
  "shell_ok s \<longleftrightarrow> bt_ok (dsh_surfaces s) \<and> bt_ok (dsh_layouts s)
     \<and> (\<forall>i. bt_get (dsh_layouts s) i = None \<longleftrightarrow> bt_get (dsh_surfaces s) i = None)
     \<and> (case dsh_focused s of None \<Rightarrow> dsh_surfaces s = [] | Some i \<Rightarrow> bt_get (dsh_surfaces s) i \<noteq> None)"

inductive shell_step :: "DesktopShell \<Rightarrow> DesktopShell \<Rightarrow> bool" where
  open_surface: "shell_step s (snd (DesktopShell_open i surface s))"
| close_surface: "shell_step s (snd (DesktopShell_close i s))"
| focus_surface: "shell_step s (snd (DesktopShell_focus i s))"
| lay_out: "shell_step s (snd (DesktopShell_set_layout i layout s))"
| localise: "shell_step s (DesktopShell_set_locale l s)"

lemma first_key_get: "bt_ok m \<Longrightarrow> bt_first_key m = Some i \<Longrightarrow> bt_get m i \<noteq> None"
  by (cases m) (auto simp: bt_first_key_def)

lemma shell_ok_close: "shell_ok s \<Longrightarrow> shell_ok (snd (DesktopShell_close i s))"
proof -
  assume s: "shell_ok s"
  let ?left = "bt_remove i (dsh_surfaces s)"
  have left: "bt_ok ?left" using s by (simp add: shell_ok_def)
  have "case bt_first_key ?left of None \<Rightarrow> ?left = [] | Some k \<Rightarrow> bt_get ?left k \<noteq> None"
    using first_key_get [OF left] by (cases ?left) (auto simp: bt_first_key_def)
  moreover have "?left = []" if "dsh_surfaces s = []" using that by (simp add: bt_remove_def)
  ultimately show ?thesis
    using s left by (auto simp: shell_ok_def DesktopShell_close_def Let_def split: option.splits)
qed

lemma shell_step_keeps: "shell_step s t \<Longrightarrow> shell_ok s \<Longrightarrow> shell_ok t"
proof (induction rule: shell_step.induct)
  case (close_surface s i)
  then show ?case by (rule shell_ok_close)
next
  case (lay_out s i layout)
  then show ?case by (auto simp: shell_ok_def DesktopShell_set_layout_def bt_contains_key_def split: option.splits)
qed (auto simp: shell_ok_def DesktopShell_open_def DesktopShell_focus_def DesktopShell_set_locale_def bt_contains_key_def
       split: prod.split option.splits)

interpretation shells: kept_invariant shell_step shell_ok
  by unfold_locales (rule shell_step_keeps)

lemma shell_reached: "shell_step\<^sup>*\<^sup>* DesktopShell_default s \<Longrightarrow> shell_ok s"
  by (erule shells.reach_keeps) (simp add: shell_ok_def DesktopShell_default_def)

text \<open>What is in focus is always an open surface, and there is one whenever a surface is open.\<close>

lemma focus_is_on_an_open_surface:
  assumes "shell_step\<^sup>*\<^sup>* DesktopShell_default s"
  shows "(DesktopShell_focused s = None) = (DesktopShell_surfaces s = [])"
    and "(DesktopShell_layout s i = None) = (bt_get (dsh_surfaces s) i = None)"
  using shell_reached [OF assms]
  by (auto simp: shell_ok_def DesktopShell_focused_def DesktopShell_surfaces_def DesktopShell_layout_def split: option.splits)

text \<open>A shell that its operations built comes back from its own serialisation.\<close>

lemma shell_round_trip:
  assumes "shell_step\<^sup>*\<^sup>* DesktopShell_default s" and "DesktopShell_to_json encode s = Inr v" and "decode v = Inr (shell_wire s)"
  shows "DesktopShell_from_json decode v = Inr s"
proof -
  have s: "shell_ok s" using assms(1) by (rule shell_reached)
  then have "[e \<leftarrow> dsh_layouts s. bt_contains_key (dsh_surfaces s) (fst e)] = dsh_layouts s"
  proof (intro filter_True ballI)
    fix e assume "e \<in> set (dsh_layouts s)"
    then have "bt_get (dsh_layouts s) (fst e) = Some (snd e)" using s bt_in_get [of "dsh_layouts s" "fst e" "snd e"] by (simp add: shell_ok_def)
    then have "bt_get (dsh_layouts s) (fst e) \<noteq> None" by simp
    then show "bt_contains_key (dsh_surfaces s) (fst e)" using s unfolding shell_ok_def bt_contains_key_def by metis
  qed
  then show ?thesis
    using s assms(3)
    by (auto simp: DesktopShell_from_json_def shell_wire_def shell_ok_def bt_collect_id bt_contains_key_def Let_def split: option.splits)
qed

subsection \<open>The surface that is hit\<close>

lemma find_rev_sorted:
  assumes "sorted (map f xs)" and "find P (rev xs) = Some r"
  shows "r \<in> set xs \<and> P r \<and> (\<forall>q \<in> set xs. P q \<longrightarrow> f q \<le> f r)"
  using assms
proof (induction xs rule: rev_induct)
  case (snoc x xs)
  show ?case
  proof (cases "P x")
    case True
    then show ?thesis using snoc.prems by (auto simp: sorted_append)
  next
    case False
    then show ?thesis using snoc by (auto simp: sorted_append)
  qed
qed simp

text \<open>
  The surface that is hit contains the point, is visible, and no other visible surface that contains the point is
  painted after it; a point is missed exactly when no visible surface contains it.
\<close>

lemma desktop_hit_is_topmost:
  "DesktopShell_hit_test s x y = Some i \<Longrightarrow>
     \<exists>r \<in> set (DesktopShell_render_plan s). rsf_id r = i \<and> surface_contains x y r
       \<and> (\<forall>q \<in> set (DesktopShell_render_plan s). surface_contains x y q \<longrightarrow> paint_key q \<le> paint_key r)"
  "DesktopShell_hit_test s x y = None \<longleftrightarrow> (\<forall>r \<in> set (DesktopShell_render_plan s). \<not> surface_contains x y r)"
proof -
  have sorted: "sorted (map paint_key (DesktopShell_render_plan s))" by (simp add: DesktopShell_render_plan_def)
  show "DesktopShell_hit_test s x y = Some i \<Longrightarrow>
     \<exists>r \<in> set (DesktopShell_render_plan s). rsf_id r = i \<and> surface_contains x y r
       \<and> (\<forall>q \<in> set (DesktopShell_render_plan s). surface_contains x y q \<longrightarrow> paint_key q \<le> paint_key r)"
    using find_rev_sorted [OF sorted, of "surface_contains x y"] unfolding DesktopShell_hit_test_def by blast
  show "DesktopShell_hit_test s x y = None \<longleftrightarrow> (\<forall>r \<in> set (DesktopShell_render_plan s). \<not> surface_contains x y r)"
    by (auto simp: DesktopShell_hit_test_def find_None_iff)
qed

text \<open>A width of \<open>2 ^ 31\<close> or more becomes negative as \<open>i32\<close>: such a surface is painted and never hit.\<close>

lemma huge_surface_is_never_hit:
  "sint (sly_width (rsf_layout r)) < 0 \<Longrightarrow> sly_x (rsf_layout r) \<ge> - (2 ^ 31) \<Longrightarrow> \<not> surface_contains x y r"
  by (auto simp: surface_contains_def far_edge_def)

end
