(* ===== verification/Spec2Isabelle.thy ===== *)
theory Spec2Isabelle
  imports ProcessModel Sandbox AgentScript Permissions Clipboard Transfers SecretStore Vaults Authenticators Storage IndexedDatabase Cookies FileBroker Frames Workspace AuditLog Cache ServiceWorkers Snapshots Recovery Network Profiles AgentProtocol ActionPlanner Telemetry ChallengeObserver SemanticCompiler ApplicationIr PageText Conformance Desktop
begin

section \<open>Verification of BrowsAI\<close>

text \<open>
  BrowsAI is a browser built for agents: a set of Rust crates around an engine, in which agents act on pages under
  capabilities, permissions, confirmations and budgets, and see a page as a tree of nodes with provenance. This
  library models the crates under \<open>src/crates\<close> and the desktop shell under \<open>src/apps\<close> as HOL functions and proves
  what makes them correct. Every name is the source's: \<open>Type_method\<close> is \<open>Type::method\<close>, a record has the fields of
  the struct with a prefix, a datatype the variants of the enum.

  How the parts interact. A process supervisor starts the processes and routes their messages; a sandbox broker
  decides on capabilities; the agent runtime runs the steps of an agent inside a session with quotas, behind the
  permission manager, the transaction policy and its confirmation queue, and hands over to a human when it must.
  Secrets stay in one broker, the vaults keep handles and receive one-time capabilities. A profile owns its
  cookies, cache, storage, databases, service workers and identity; the network stack fetches through all of them
  and accounts for each request. Pages live in tabs and frames; the engine's mutations grow a document, the
  observers keep layout, style, events and runtime evidence, the semantic compiler turns them into the agent
  render tree, and the protocol, the action planner, the structural, semantic and application representations and
  the page text are computed from that tree. Snapshots, workspaces, recovery and the audit log persist it all.

  \<^bold>\<open>The theories and what they model\<close>

  \<^item> \<open>Prelude\<close>, \<open>Text\<close>, \<open>BTreeMap\<close>, \<open>Floats\<close>, \<open>Web\<close>, \<open>Descent\<close>: words with saturation, results, the shared locales;
    strings as their bytes with trimming, splitting, decimal and UTF-8; ordered maps as sorted association lists;
    IEEE numbers; URLs and JSON values; recursion through lists of children.
  \<^item> \<open>Ipc\<close>, \<open>ProcessModel\<close>, \<open>Sandbox\<close>: \<open>crates/ipc\<close>, \<open>crates/process-model\<close>, \<open>crates/sandbox\<close>. A queued message always
    follows a declared route, and a grant stays inside policy, scope and time.
  \<^item> \<open>Transactions\<close>, \<open>Takeover\<close>, \<open>AgentRuntime\<close>, \<open>AgentScript\<close>, \<open>Permissions\<close>, \<open>Clipboard\<close>, \<open>Transfers\<close>, \<open>FileBroker\<close>:
    \<open>crates/transactions\<close>, \<open>crates/agent-runtime\<close>, \<open>crates/permissions\<close>, \<open>crates/clipboard\<close>, \<open>crates/downloads\<close> and
    \<open>crates/uploads\<close>, \<open>crates/file-broker\<close>. Approvals, budgets, gates, transfers and confinement of paths.
  \<^item> \<open>SecretStore\<close>, \<open>Vaults\<close>, \<open>Authenticators\<close>: \<open>crates/secret-store\<close>, \<open>crates/credentials\<close>, \<open>crates/password-vault\<close>,
    \<open>crates/identity-vault\<close>, \<open>crates/payment-vault\<close>, \<open>crates/totp\<close>, \<open>crates/webauthn\<close>. A secret reaches exactly its scope,
    a one-time capability is spent once, and nothing public depends on the bytes of a secret.
  \<^item> \<open>Storage\<close>, \<open>IndexedDatabase\<close>, \<open>Cookies\<close>, \<open>Cache\<close>, \<open>ServiceWorkers\<close>, \<open>Identity\<close>, \<open>Fingerprints\<close>, \<open>Profiles\<close>,
    \<open>Network\<close>: the crates of the same names with \<open>crates/indexeddb\<close>, \<open>crates/service-worker\<close> (with
    \<open>crates/shadow-dom\<close> in the same theory), \<open>crates/fingerprint\<close> and the
    identities of \<open>crates/engine-api\<close>. Partitions, atomic commits, limits, the redirect loop and its accounting.
  \<^item> \<open>Frames\<close>, \<open>Navigation\<close>, \<open>Tabs\<close>, \<open>Workspace\<close>, \<open>Snapshots\<close>, \<open>Recovery\<close>, \<open>AuditLog\<close>: \<open>crates/frames\<close>,
    \<open>crates/navigation\<close>, \<open>crates/tabs\<close>, \<open>crates/workspace\<close>, \<open>crates/state\<close> and \<open>crates/diff\<close>,
    \<open>crates/recovery\<close>, \<open>crates/audit\<close>. Trees, history, exactly one active tab, paging, patches, atomic saves under every
    pattern of failures, and a journal whose forgery needs a collision.
  \<^item> \<open>AgentTree\<close>, \<open>DomObserver\<close>, \<open>Observers\<close>, \<open>ChallengeObserver\<close>: \<open>crates/provenance\<close>, \<open>crates/agent-tree\<close>,
    \<open>crates/dom-observer\<close>, \<open>crates/layout-observer\<close>, \<open>crates/css-observer\<close>, \<open>crates/event-observer\<close>,
    \<open>crates/runtime-observer\<close>, \<open>crates/challenge-observer\<close>. Documents are trees, the hit test finds the topmost box.
  \<^item> \<open>StructuralIr\<close>, \<open>SemanticIr\<close>, \<open>SemanticCompiler\<close>, \<open>ApiDiscovery\<close>, \<open>ApplicationIr\<close>, \<open>PageText\<close>: the crates of the same
    names. The compilation covers the document, normalization is idempotent, the cache of trees is a bounded
    least-recently-used list, the text of a page points back at its nodes and shows no secret reference.
  \<^item> \<open>AgentProtocol\<close>, \<open>Input\<close>, \<open>ActionPlanner\<close>: \<open>crates/agent-protocol\<close>, \<open>crates/input\<close>, \<open>crates/action-planner\<close>. Leases
    are exclusive, answers fit their budget, actions hit their target and release what they press.
  \<^item> \<open>Telemetry\<close>, \<open>Conformance\<close>, \<open>Desktop\<close>: \<open>crates/logging\<close>, \<open>crates/metrics\<close>, \<open>crates/conformance\<close>,
    \<open>apps/browsai-desktop\<close>.

  \<^bold>\<open>Interfaces\<close>

  The locales state the contracts that several components share, and each is interpreted on the model's own
  definitions: \<open>kept_invariant\<close> (a step relation that keeps an invariant keeps it in every reachable state),
  \<open>monotone_steps\<close> (a life cycle that only moves down an order), \<open>keyed_ops\<close> (operations touch only the entry they
  name), \<open>keyed_store\<close> (lookup after insertion), \<open>permission_gate\<close> (an operation behind a permission request),
  \<open>transfer_manager\<close> (progress clamped to the declared size) and \<open>scoped_vault\<close> (handles given out for a profile
  and an origin only).

  \<^bold>\<open>Conventions\<close>

  Fallible operations return \<open>(error + value) \<times> state\<close>. Fresh identifiers, clocks, random numbers, ciphers, hashes,
  the printed forms of identifiers and floats, the serde encoders and decoders, \<open>Url::parse\<close>, the file system, the
  sockets and the engine behind its trait are arguments. Machine integers are words; \<open>usize\<close> is a natural number
  with its bound where it saturates. Floats are rationals with the two infinities and \<open>NaN\<close>, rounded to the format
  in every operation; there is one zero. A panic of an operation is \<open>None\<close> where the code can reach one.

  Recursion the code leaves unbounded carries its depth, and \<open>None\<close> is a deeper recursion: the walks over frames,
  documents, compiled trees and page text (one more than the size of the table is enough on every forest, or on
  every tree without a cycle, as is proved where they are defined), the descent into fixture directories and the
  client loops that read pages. The redirect loop, the worklist of the visible part, the query pages, the evictions
  and the text scanners are total functions with a measure.

  \<^bold>\<open>Not modelled\<close>

  \<open>crates/engine-servo\<close> and \<open>apps/browsai-headless\<close> bind and forward to the Servo engine, whose event loop, delegates
  and script evaluation are not part of the repository. \<open>apps/browsai-cli\<close> is argument parsing, sockets, files and
  JSON around operations of the crates, and \<open>crates/compatibility-check\<close> a binary that serves fixtures over sockets
  and drives the engine through them. Of \<open>crates/agent-runtime\<close> the loop that solves observed challenges over page
  snapshots, and of \<open>crates/engine-api\<close> the context options and the engine trait, are left out: what they do is what
  the engine does.
\<close>

end
